(* ===== verification/MTPrelude.thy ===== *)
theory MTPrelude imports Main "HOL-Library.Finite_Map" "HOL-Library.Word" begin

text \<open>
  Shared vocabulary of the development: Go errors as values, panics as an outcome, nilable
  slices, and the generic lemmas on options, lists and maps that the component theories use.

  \<^item> A Go \<open>error\<close> is \<open>go_error option\<close>, with \<open>None\<close> for \<open>nil\<close>. An error made by
    \<open>fmt.Errorf\<close> is its format string and its string arguments (arguments that are not
    strings are not recorded); \<open>%w\<close> wraps another error.
  \<^item> A call that may panic returns an \<open>outcome\<close>.
  \<^item> A slice for which the code tells \<open>nil\<close> from empty is \<open>'a list option\<close>.
\<close>

section \<open>Errors, panics, slices\<close>

datatype go_error =
    ApiStatus string string
  | Errorf string "string list"
  | Wrapf string "string list" go_error

type_synonym error = "go_error option"

datatype 'a outcome = Return 'a | Panic string

type_synonym 'a slice = "'a list option"

definition elems :: "'a slice \<Rightarrow> 'a list" where
  "elems s = (case s of None \<Rightarrow> [] | Some xs \<Rightarrow> xs)"

lemma elems_simps [simp]: "elems None = []" "elems (Some xs) = xs"
  by (simp_all add: elems_def)

text \<open>
  \<open>apierrors.IsNotFound\<close> looks through wrapping errors for the first API status.
\<close>

primrec IsNotFound :: "go_error \<Rightarrow> bool" where
  "IsNotFound (ApiStatus reason msg) = (reason = ''NotFound'')"
| "IsNotFound (Errorf fmt args) = False"
| "IsNotFound (Wrapf fmt args e) = IsNotFound e"

section \<open>Standard library functions the code calls\<close>

text \<open>\<open>slices.DeleteFunc\<close> and \<open>slices.Contains\<close> of Go, on nilable slices.\<close>

definition DeleteFunc :: "'a slice \<Rightarrow> ('a \<Rightarrow> bool) \<Rightarrow> 'a slice" where
  "DeleteFunc s del = map_option (filter (\<lambda>x. \<not> del x)) s"

definition Contains :: "'a slice \<Rightarrow> 'a \<Rightarrow> bool" where
  "Contains s v = (v \<in> set (elems s))"

text \<open>\<open>append(s, v)\<close> is never nil.\<close>

definition append1 :: "'a slice \<Rightarrow> 'a \<Rightarrow> 'a slice" where
  "append1 s v = Some (elems s @ [v])"

text \<open>\<open>strings.Join\<close>, \<open>strings.Split\<close> on a one-character separator, \<open>strings.Count\<close>.\<close>

fun Join :: "string list \<Rightarrow> string \<Rightarrow> string" where
  "Join [] sep = []"
| "Join [x] sep = x"
| "Join (x # y # xs) sep = x @ sep @ Join (y # xs) sep"

fun Split1 :: "string \<Rightarrow> char \<Rightarrow> string list" where
  "Split1 [] c = [[]]"
| "Split1 (x # xs) c =
     (if x = c then [] # Split1 xs c
      else case Split1 xs c of [] \<Rightarrow> [[x]] | p # ps \<Rightarrow> (x # p) # ps)"

lemma elems_DeleteFunc [simp]: "elems (DeleteFunc s del) = filter (\<lambda>x. \<not> del x) (elems s)"
  by (cases s) (simp_all add: DeleteFunc_def)

lemma elems_append1 [simp]: "elems (append1 s v) = elems s @ [v]"
  by (simp add: append1_def)

lemma DeleteFunc_simps [simp]:
  "DeleteFunc None del = None" "DeleteFunc (Some xs) del = Some (filter (\<lambda>x. \<not> del x) xs)"
  by (simp_all add: DeleteFunc_def)

lemma Contains_append1 [simp]: "Contains (append1 s v) w = (w = v \<or> Contains s w)"
  by (auto simp: Contains_def)

text \<open>
  The test \<open>len(newFinalizers) != len(finalizers)\<close> of the code: deleting changed the length
  exactly when some element was deleted.
\<close>

lemma length_filter_neq_iff: "length (filter P xs) \<noteq> length xs \<longleftrightarrow> (\<exists>x\<in>set xs. \<not> P x)"
proof
  assume "length (filter P xs) \<noteq> length xs"
  then show "\<exists>x\<in>set xs. \<not> P x" by (metis filter_True)
next
  assume "\<exists>x\<in>set xs. \<not> P x"
  then show "length (filter P xs) \<noteq> length xs"
    by (metis filter_id_conv length_filter_less less_irrefl)
qed

lemma length_DeleteFunc_neq_iff [simp]:
  "length (filter (\<lambda>f. f \<noteq> v) (elems s)) \<noteq> length (elems s) \<longleftrightarrow> Contains s v"
  unfolding length_filter_neq_iff Contains_def by auto

lemma length_DeleteFunc_eq_iff [simp]:
  "length (filter (\<lambda>f. f \<noteq> v) (elems s)) = length (elems s) \<longleftrightarrow> \<not> Contains s v"
  by (metis length_DeleteFunc_neq_iff)

lemma filter_neq_not_Contains: "\<not> Contains s v \<Longrightarrow> filter (\<lambda>f. f \<noteq> v) (elems s) = elems s"
  by (auto simp: Contains_def filter_id_conv)

lemma Split1_not_Nil [simp]: "Split1 s c \<noteq> []"
  by (induction s c rule: Split1.induct) (auto split: list.splits)

lemma Split1_no_sep: "c \<notin> set s \<Longrightarrow> Split1 s c = [s]"
  by (induction s c rule: Split1.induct) auto

lemma Split1_append: "c \<notin> set s \<Longrightarrow> Split1 (s @ c # t) c = s # Split1 t c"
  by (induction s c rule: Split1.induct) auto

lemma length_Split1: "length (Split1 s c) = Suc (count_list s c)"
proof (induction s c rule: Split1.induct)
  case (1 c)
  show ?case by simp
next
  case (2 x xs c)
  then show ?case by (cases "Split1 xs c") auto
qed

lemma Join_Split1: "Join (Split1 s c) [c] = s"
proof (induction s c rule: Split1.induct)
  case (1 c)
  show ?case by simp
next
  case (2 x xs c)
  obtain p ps where "Split1 xs c = p # ps" by (cases "Split1 xs c") auto
  with 2 show ?case by (cases ps) auto
qed

end
