(* ===== verification/GoTime.thy ===== *)
theory GoTime imports MTPrelude "HOL-Library.Monad_Syntax" begin

text \<open>
  The part of Go's \<open>time\<close> package that decides whether a ProviderConfig is being deleted:
  \<open>time.Parse(time.RFC3339, s)\<close> and \<open>Time.IsZero\<close>, and on top of them
  \<open>metav1.Time.UnmarshalQueryParameter\<close>. An instant is the number of seconds since
  0001-01-01T00:00:00Z (the zero time) and the nanoseconds within the second, so a time is zero
  when both are 0. The location of a time is dropped: no code here reads it.
\<close>

type_synonym instant = "int \<times> nat"

definition zero_time :: instant where
  "zero_time = (0, 0)"

abbreviation digits :: string where
  "digits \<equiv> ''0123456789''"

definition isDigit :: "char \<Rightarrow> bool" where
  "isDigit c = (c \<in> set digits)"

definition digit_val :: "char \<Rightarrow> nat" where
  "digit_val c = length (takeWhile (\<lambda>d. d \<noteq> c) digits)"

text \<open>\<open>getnum\<close>: two digits, or one when \<open>fixed\<close> is false.\<close>

fun getnum :: "string \<Rightarrow> bool \<Rightarrow> (nat \<times> string) option" where
  "getnum [] fixed = None"
| "getnum [a] fixed =
     (if isDigit a \<and> \<not> fixed then Some (digit_val a, []) else None)"
| "getnum (a # b # r) fixed =
     (if \<not> isDigit a then None
      else if isDigit b then Some (10 * digit_val a + digit_val b, r)
      else if fixed then None else Some (digit_val a, b # r))"

fun get_year :: "string \<Rightarrow> (nat \<times> string) option" where
  "get_year (a # b # c # d # r) =
     (if isDigit a \<and> isDigit b \<and> isDigit c \<and> isDigit d
      then Some (1000 * digit_val a + 100 * digit_val b + 10 * digit_val c + digit_val d, r)
      else None)"
| "get_year _ = None"

fun skip_char :: "char \<Rightarrow> string \<Rightarrow> string option" where
  "skip_char c (x # r) = (if x = c then Some r else None)"
| "skip_char c [] = None"

text \<open>
  A fraction after the seconds, which the layout does not name but \<open>Parse\<close> accepts:
  a comma or a period and at least one digit; digits after the ninth are dropped.
\<close>

definition parse_fraction :: "string \<Rightarrow> nat \<times> string" where
  "parse_fraction s =
     (case s of
        p # d # r \<Rightarrow>
          if (p = CHR ''.'' \<or> p = CHR '','') \<and> isDigit d
          then (let ds = takeWhile isDigit (d # r);
                    ns = take 9 (map digit_val ds)
                in (foldl (\<lambda>n x. 10 * n + x) 0 ns * 10 ^ (9 - length ns), dropWhile isDigit (d # r)))
          else (0, s)
      | _ \<Rightarrow> (0, s))"

text \<open>The zone: \<open>Z\<close>, or a sign, hours up to 24, a colon and minutes up to 60; in seconds.\<close>

definition parse_zone :: "string \<Rightarrow> (int \<times> string) option" where
  "parse_zone s =
     (case s of
        [] \<Rightarrow> None
      | z # r \<Rightarrow>
          if z = CHR ''Z'' then Some (0, r)
          else do {
            (h, r) \<leftarrow> getnum r True;
            r \<leftarrow> skip_char (CHR '':'') r;
            (m, r) \<leftarrow> getnum r True;
            if 24 < h \<or> 60 < m then None
            else if z = CHR ''+'' then Some (int ((h * 60 + m) * 60), r)
            else if z = CHR ''-'' then Some (- int ((h * 60 + m) * 60), r)
            else None
          })"

definition isLeap :: "nat \<Rightarrow> bool" where
  "isLeap y = (y mod 4 = 0 \<and> (y mod 100 \<noteq> 0 \<or> y mod 400 = 0))"

definition daysIn :: "nat \<Rightarrow> nat \<Rightarrow> nat" where
  "daysIn m y =
     (if m = 2 then (if isLeap y then 29 else 28)
      else if m = 4 \<or> m = 6 \<or> m = 9 \<or> m = 11 then 30 else 31)"

text \<open>Days from 0001-01-01 to the given date of the proleptic Gregorian calendar.\<close>

definition days_since_epoch :: "nat \<Rightarrow> nat \<Rightarrow> nat \<Rightarrow> int" where
  "days_since_epoch y m d =
     (let p = int y - 1
      in 365 * p + p div 4 - p div 100 + p div 400
         + int (sum_list (map (\<lambda>k. daysIn k y) [1..<m])) + int d - 1)"

definition Parse_RFC3339 :: "string \<Rightarrow> instant option" where
  "Parse_RFC3339 s = do {
     (y, r) \<leftarrow> get_year s;
     r \<leftarrow> skip_char (CHR ''-'') r;
     (mo, r) \<leftarrow> getnum r True;
     r \<leftarrow> skip_char (CHR ''-'') r;
     (d, r) \<leftarrow> getnum r True;
     r \<leftarrow> skip_char (CHR ''T'') r;
     (h, r) \<leftarrow> getnum r False;
     r \<leftarrow> skip_char (CHR '':'') r;
     (mi, r) \<leftarrow> getnum r True;
     r \<leftarrow> skip_char (CHR '':'') r;
     (sec, r) \<leftarrow> getnum r True;
     let (ns, r) = parse_fraction r;
     (off, r) \<leftarrow> parse_zone r;
     if r = [] \<and> 1 \<le> mo \<and> mo \<le> 12 \<and> 1 \<le> d \<and> d \<le> daysIn mo y \<and> h < 24 \<and> mi < 60 \<and> sec < 60
     then Some (days_since_epoch y mo d * 86400 + int (h * 3600 + mi * 60 + sec) - off, ns)
     else None
   }"

text \<open>
  \<open>metav1.Time.UnmarshalQueryParameter\<close> on a time that was zero before: the empty string and
  \<open>null\<close> give the zero time, a string that does not parse is an error and leaves it zero.
\<close>

definition UnmarshalQueryParameter :: "string \<Rightarrow> bool \<times> instant" where
  "UnmarshalQueryParameter str =
     (if str = [] \<or> str = ''null'' then (True, zero_time)
      else case Parse_RFC3339 str of None \<Rightarrow> (False, zero_time) | Some t \<Rightarrow> (True, t))"

definition IsZero :: "instant option \<Rightarrow> bool" where
  "IsZero t = (case t of None \<Rightarrow> True | Some i \<Rightarrow> i = zero_time)"

lemma IsZero_simps [simp]: "IsZero None" "IsZero (Some i) \<longleftrightarrow> i = zero_time"
  by (simp_all add: IsZero_def)

lemma UnmarshalQueryParameter_empty [simp]: "UnmarshalQueryParameter [] = (True, zero_time)"
  by (simp add: UnmarshalQueryParameter_def)

lemmas go_time_eval =
  UnmarshalQueryParameter_def Parse_RFC3339_def parse_fraction_def parse_zone_def isDigit_def
  digit_val_def days_since_epoch_def daysIn_def isLeap_def zero_time_def upt_rec

lemma Parse_RFC3339_example:
  "Parse_RFC3339 ''0001-01-02T03:04:05.25+01:00'' = Some (93845, 250000000)"
  by (simp add: go_time_eval)

lemma UnmarshalQueryParameter_example:
  "UnmarshalQueryParameter ''2026-01-01T00:00:00Z'' = (True, 63902822400, 0)"
  by (simp add: go_time_eval)

lemma UnmarshalQueryParameter_zero_example:
  "UnmarshalQueryParameter ''0001-01-01T00:00:00Z'' = (True, zero_time)"
  by (simp add: go_time_eval)

end
