(* ===== verification/Unstructured.thy ===== *)
theory Unstructured imports MTPrelude GoTime begin

text \<open>
  \<open>unstructured.Unstructured\<close> of k8s.io/apimachinery as the framework uses it: a JSON object as a
  tree of finite maps, the accessors for nested fields, and the metadata getters and setters
  (name, namespace, labels, finalizers, deletion timestamp, group/version/kind) on top.

  The map of an object is an \<open>fmap\<close>; Go's nil map and the empty map are not told apart, since
  reads agree on them and every write of the code allocates a map first. The code mutates the
  nested \<open>metadata\<close> map in place; the model returns the new tree, which is the same as long as
  no two objects share a sub-map (the dynamic client decodes every object afresh). Which Go
  pointers denote the same object is modelled in theory \<open>Manager\<close> by a heap.
\<close>

section \<open>JSON values\<close>

datatype json =
    JNull
  | JBool bool
  | JInt "64 word"
  | JFloat "64 word"
  | JStr string
  | JArr "json list"
  | JObj "(string, json) fmap"

type_synonym obj = "(string, json) fmap"

definition jsonPath :: "string list \<Rightarrow> string" where
  "jsonPath fields = ''.'' @ Join fields ''.''"

section \<open>Nested fields\<close>

text \<open>
  \<open>NestedFieldNoCopy\<close> returns (value, found, error); here an error, \<open>Inr None\<close> for not found,
  or the value. The first argument of the loop is the part of the path already walked.
\<close>

fun nested_field_loop :: "string list \<Rightarrow> json \<Rightarrow> string list \<Rightarrow> go_error + json option" where
  "nested_field_loop pre val [] = Inr (Some val)"
| "nested_field_loop pre val (field # fields) =
     (case val of
        JNull \<Rightarrow> Inr None
      | JObj m \<Rightarrow>
          (case fmlookup m field of
             None \<Rightarrow> Inr None
           | Some v \<Rightarrow> nested_field_loop (pre @ [field]) v fields)
      | _ \<Rightarrow> Inl (Errorf ''%v accessor error: %v is of the type %T, expected map[string]interface{}''
                   [jsonPath (pre @ [field])]))"

definition NestedFieldNoCopy :: "obj \<Rightarrow> string list \<Rightarrow> go_error + json option" where
  "NestedFieldNoCopy m fields = nested_field_loop [] (JObj m) fields"

definition NestedString :: "obj \<Rightarrow> string list \<Rightarrow> go_error + string option" where
  "NestedString m fields =
     (case NestedFieldNoCopy m fields of
        Inl e \<Rightarrow> Inl e
      | Inr None \<Rightarrow> Inr None
      | Inr (Some val) \<Rightarrow>
          (case val of
             JStr s \<Rightarrow> Inr (Some s)
           | _ \<Rightarrow> Inl (Errorf ''%v accessor error: %v is of the type %T, expected string''
                        [jsonPath fields])))"

fun string_items :: "json list \<Rightarrow> string list option" where
  "string_items [] = Some []"
| "string_items (JStr s # vs) = map_option ((#) s) (string_items vs)"
| "string_items (_ # vs) = None"

definition NestedStringSlice :: "obj \<Rightarrow> string list \<Rightarrow> go_error + string slice" where
  "NestedStringSlice m fields =
     (case NestedFieldNoCopy m fields of
        Inl e \<Rightarrow> Inl e
      | Inr None \<Rightarrow> Inr None
      | Inr (Some val) \<Rightarrow>
          (case val of
             JArr vs \<Rightarrow>
               (case string_items vs of
                  Some ss \<Rightarrow> Inr (Some ss)
                | None \<Rightarrow> Inl (Errorf ''%v accessor error: contains non-string key in the slice: %v is of the type %T, expected string''
                             [jsonPath fields]))
           | _ \<Rightarrow> Inl (Errorf ''%v accessor error: %v is of the type %T, expected []interface{}''
                        [jsonPath fields])))"

text \<open>A label value: a string, or null read as the empty string.\<close>

definition label_value :: "json \<Rightarrow> string option" where
  "label_value v = (case v of JStr s \<Rightarrow> Some s | JNull \<Rightarrow> Some [] | _ \<Rightarrow> None)"

definition NestedNullCoercingStringMap ::
  "obj \<Rightarrow> string list \<Rightarrow> go_error + (string, string) fmap option" where
  "NestedNullCoercingStringMap m fields =
     (case NestedFieldNoCopy m fields of
        Inl e \<Rightarrow> Inl e
      | Inr None \<Rightarrow> Inr None
      | Inr (Some val) \<Rightarrow>
          (case val of
             JNull \<Rightarrow> Inr (Some fmempty)
           | JObj vs \<Rightarrow>
               (if fmpred (\<lambda>k v. label_value v \<noteq> None) vs
                then Inr (Some (fmmap (\<lambda>v. the (label_value v)) vs))
                else Inl (Errorf ''%v accessor error: contains non-string value in the map under key %q: %v is of the type %T, expected string''
                           [jsonPath fields]))
           | _ \<Rightarrow> Inl (Errorf ''%v accessor error: %v is of the type %T, expected map[string]interface{}''
                        [jsonPath fields])))"

text \<open>
  The setters take the path as its leading fields and its last one (\<open>fields[:len(fields)-1]\<close>
  and \<open>fields[len(fields)-1]\<close> of the code). A setter that fails changes nothing: a level that
  is not a map is met before any map is allocated.
\<close>

fun setNestedFieldNoCopy :: "string list \<Rightarrow> obj \<Rightarrow> json \<Rightarrow> string list \<Rightarrow> string \<Rightarrow> go_error + obj" where
  "setNestedFieldNoCopy pre m value [] lst = Inr (fmupd lst value m)"
| "setNestedFieldNoCopy pre m value (field # fields) lst =
     (case fmlookup m field of
        Some val \<Rightarrow>
          (case val of
             JObj valMap \<Rightarrow>
               (case setNestedFieldNoCopy (pre @ [field]) valMap value fields lst of
                  Inl e \<Rightarrow> Inl e
                | Inr m' \<Rightarrow> Inr (fmupd field (JObj m') m))
           | _ \<Rightarrow> Inl (Errorf ''value cannot be set because %v is not a map[string]interface{}''
                        [jsonPath (pre @ [field])]))
      | None \<Rightarrow>
          (case setNestedFieldNoCopy (pre @ [field]) fmempty value fields lst of
             Inl e \<Rightarrow> Inl e
           | Inr m' \<Rightarrow> Inr (fmupd field (JObj m') m)))"

definition SetNestedStringSlice :: "obj \<Rightarrow> string list \<Rightarrow> string list \<Rightarrow> string \<Rightarrow> go_error + obj" where
  "SetNestedStringSlice m value fields lst =
     setNestedFieldNoCopy [] m (JArr (map JStr value)) fields lst"

fun RemoveNestedField :: "obj \<Rightarrow> string list \<Rightarrow> string \<Rightarrow> obj" where
  "RemoveNestedField m [] lst = fmdrop lst m"
| "RemoveNestedField m (field # fields) lst =
     (case fmlookup m field of
        Some (JObj x) \<Rightarrow> fmupd field (JObj (RemoveNestedField x fields lst)) m
      | _ \<Rightarrow> m)"

definition getNestedString :: "obj \<Rightarrow> string list \<Rightarrow> string" where
  "getNestedString m fields =
     (case NestedString m fields of Inr (Some s) \<Rightarrow> s | _ \<Rightarrow> [])"

section \<open>Metadata\<close>

definition GetAPIVersion :: "obj \<Rightarrow> string" where
  "GetAPIVersion u = getNestedString u [''apiVersion'']"

definition GetKind :: "obj \<Rightarrow> string" where
  "GetKind u = getNestedString u [''kind'']"

definition GetNamespace :: "obj \<Rightarrow> string" where
  "GetNamespace u = getNestedString u [''metadata'', ''namespace'']"

definition GetName :: "obj \<Rightarrow> string" where
  "GetName u = getNestedString u [''metadata'', ''name'']"

definition GetDeletionTimestamp :: "obj \<Rightarrow> instant option" where
  "GetDeletionTimestamp u =
     (let t = snd (UnmarshalQueryParameter (getNestedString u [''metadata'', ''deletionTimestamp'']))
      in if t = zero_time then None else Some t)"

definition GetLabels :: "obj \<Rightarrow> (string, string) fmap" where
  "GetLabels u =
     (case NestedNullCoercingStringMap u [''metadata'', ''labels''] of
        Inr (Some m) \<Rightarrow> m | _ \<Rightarrow> fmempty)"

definition GetFinalizers :: "obj \<Rightarrow> string slice" where
  "GetFinalizers u =
     (case NestedStringSlice u [''metadata'', ''finalizers''] of
        Inr val \<Rightarrow> val | Inl e \<Rightarrow> None)"

text \<open>\<open>SetFinalizers\<close> drops the error of the setter, as the code does.\<close>

definition SetFinalizers :: "obj \<Rightarrow> string slice \<Rightarrow> obj" where
  "SetFinalizers u finalizers =
     (case finalizers of
        None \<Rightarrow> RemoveNestedField u [''metadata''] ''finalizers''
      | Some fs \<Rightarrow>
          (case SetNestedStringSlice u fs [''metadata''] ''finalizers'' of
             Inr u' \<Rightarrow> u' | Inl e \<Rightarrow> u))"

section \<open>Group, version, kind\<close>

record GroupVersion =
  gv_group :: string
  gv_version :: string

record gvk =
  gvk_group :: string
  gvk_version :: string
  gvk_kind :: string

definition gvk_String :: "gvk \<Rightarrow> string" where
  "gvk_String k = gvk_group k @ ''/'' @ gvk_version k @ '', Kind='' @ gvk_kind k"

definition WithKind :: "GroupVersion \<Rightarrow> string \<Rightarrow> gvk" where
  "WithKind gv kind = \<lparr>gvk_group = gv_group gv, gvk_version = gv_version gv, gvk_kind = kind\<rparr>"

definition ParseGroupVersion :: "string \<Rightarrow> go_error + GroupVersion" where
  "ParseGroupVersion gv =
     (if gv = [] \<or> gv = ''/'' then Inr \<lparr>gv_group = [], gv_version = []\<rparr>
      else case Split1 gv (CHR ''/'') of
             [v] \<Rightarrow> Inr \<lparr>gv_group = [], gv_version = v\<rparr>
           | [g, v] \<Rightarrow> Inr \<lparr>gv_group = g, gv_version = v\<rparr>
           | _ \<Rightarrow> Inl (Errorf ''unexpected GroupVersion string: %v'' [gv]))"

definition GroupVersionKind :: "obj \<Rightarrow> gvk" where
  "GroupVersionKind u =
     (case ParseGroupVersion (GetAPIVersion u) of
        Inl e \<Rightarrow> \<lparr>gvk_group = [], gvk_version = [], gvk_kind = []\<rparr>
      | Inr gv \<Rightarrow> WithKind gv (GetKind u))"

section \<open>Reading what was written\<close>

text \<open>
  \<open>meta_ok u\<close>: the metadata of the object, if present, is a map. Every object the API machinery
  decodes has it; on another object \<open>SetFinalizers\<close> silently does nothing.
\<close>

definition meta_ok :: "obj \<Rightarrow> bool" where
  "meta_ok u = (case fmlookup u ''metadata'' of
                  None \<Rightarrow> True | Some v \<Rightarrow> (case v of JObj m \<Rightarrow> True | _ \<Rightarrow> False))"

text \<open>The value at \<open>metadata.f\<close>, and at a top-level field, as one equation each.\<close>

lemma NestedFieldNoCopy_top:
  "NestedFieldNoCopy u [f] = Inr (fmlookup u f)"
  by (simp add: NestedFieldNoCopy_def split: option.splits)

lemma NestedFieldNoCopy_meta_JObj:
  "fmlookup u ''metadata'' = Some (JObj m) \<Longrightarrow>
   NestedFieldNoCopy u [''metadata'', f] = Inr (fmlookup m f)"
  by (simp add: NestedFieldNoCopy_def split: option.splits)

lemma NestedFieldNoCopy_meta_None:
  "fmlookup u ''metadata'' = None \<Longrightarrow> NestedFieldNoCopy u [''metadata'', f] = Inr None"
  by (simp add: NestedFieldNoCopy_def)

lemma string_items_map_JStr [simp]: "string_items (map JStr fs) = Some fs"
  by (induction fs) auto

lemma SetFinalizers_lookup_other [simp]:
  "f \<noteq> ''metadata'' \<Longrightarrow> fmlookup (SetFinalizers u fs) f = fmlookup u f"
  by (auto simp: SetFinalizers_def SetNestedStringSlice_def split: option.splits json.splits)

lemma SetFinalizers_meta:
  assumes "meta_ok u"
  shows "(\<exists>m'. fmlookup (SetFinalizers u (Some fs)) ''metadata'' = Some (JObj m') \<and>
            fmlookup m' ''finalizers'' = Some (JArr (map JStr fs)) \<and>
            (\<forall>f. f \<noteq> ''finalizers'' \<longrightarrow>
               Inr (fmlookup m' f) = NestedFieldNoCopy u [''metadata'', f]))"
  using assms
  by (auto simp: meta_ok_def SetFinalizers_def SetNestedStringSlice_def NestedFieldNoCopy_meta_None
        NestedFieldNoCopy_meta_JObj split: option.splits json.splits)

lemma SetFinalizers_not_meta_ok: "\<not> meta_ok u \<Longrightarrow> SetFinalizers u fs = u"
  by (auto simp: meta_ok_def SetFinalizers_def SetNestedStringSlice_def split: option.splits json.splits)

lemma NestedFieldNoCopy_SetFinalizers_Some:
  assumes "f \<noteq> ''finalizers''"
  shows "NestedFieldNoCopy (SetFinalizers u (Some fs)) [''metadata'', f] =
         NestedFieldNoCopy u [''metadata'', f]"
proof (cases "meta_ok u")
  case True
  then show ?thesis
    using SetFinalizers_meta [OF True, of fs] assms by (auto simp: NestedFieldNoCopy_meta_JObj)
next
  case False
  then show ?thesis by (simp add: SetFinalizers_not_meta_ok)
qed

lemma NestedFieldNoCopy_SetFinalizers_None:
  assumes "f \<noteq> ''finalizers''"
  shows "NestedFieldNoCopy (SetFinalizers u None) [''metadata'', f] =
         NestedFieldNoCopy u [''metadata'', f]"
  using assms
  by (auto simp: SetFinalizers_def NestedFieldNoCopy_def split: option.splits json.splits)

lemma NestedFieldNoCopy_SetFinalizers [simp]:
  "f \<noteq> ''finalizers'' \<Longrightarrow>
   NestedFieldNoCopy (SetFinalizers u fs) [''metadata'', f] = NestedFieldNoCopy u [''metadata'', f]"
  by (cases fs) (simp_all add: NestedFieldNoCopy_SetFinalizers_Some NestedFieldNoCopy_SetFinalizers_None)

lemma NestedFieldNoCopy_SetFinalizers_top [simp]:
  "f \<noteq> ''metadata'' \<Longrightarrow> NestedFieldNoCopy (SetFinalizers u fs) [f] = NestedFieldNoCopy u [f]"
  by (simp add: NestedFieldNoCopy_top)

lemmas getter_defs =
  GetName_def GetNamespace_def GetKind_def GetAPIVersion_def GetDeletionTimestamp_def GetLabels_def
  getNestedString_def NestedString_def NestedNullCoercingStringMap_def

text \<open>\<open>SetFinalizers\<close> leaves every other part of the object the framework reads as it was.\<close>

lemma SetFinalizers_frame [simp]:
  "GetName (SetFinalizers u fs) = GetName u"
  "GetNamespace (SetFinalizers u fs) = GetNamespace u"
  "GetLabels (SetFinalizers u fs) = GetLabels u"
  "GetDeletionTimestamp (SetFinalizers u fs) = GetDeletionTimestamp u"
  "GetKind (SetFinalizers u fs) = GetKind u"
  "GetAPIVersion (SetFinalizers u fs) = GetAPIVersion u"
  by (simp_all add: getter_defs)

lemma GroupVersionKind_SetFinalizers [simp]:
  "GroupVersionKind (SetFinalizers u fs) = GroupVersionKind u"
  by (simp add: GroupVersionKind_def split: sum.split)

lemma GetFinalizers_SetFinalizers_Some:
  assumes "meta_ok u"
  shows "GetFinalizers (SetFinalizers u (Some fs)) = Some fs"
  using SetFinalizers_meta [OF assms, of fs]
  by (auto simp: GetFinalizers_def NestedStringSlice_def NestedFieldNoCopy_meta_JObj)

lemma GetFinalizers_SetFinalizers_None:
  "meta_ok u \<Longrightarrow> GetFinalizers (SetFinalizers u None) = None"
  by (auto simp: GetFinalizers_def NestedStringSlice_def NestedFieldNoCopy_def SetFinalizers_def meta_ok_def
        split: option.splits json.splits)

lemma GetFinalizers_SetFinalizers [simp]:
  "meta_ok u \<Longrightarrow> GetFinalizers (SetFinalizers u fs) = fs"
  by (cases fs) (simp_all add: GetFinalizers_SetFinalizers_Some GetFinalizers_SetFinalizers_None)

lemma meta_ok_iff: "meta_ok u \<longleftrightarrow> (\<forall>v. fmlookup u ''metadata'' = Some v \<longrightarrow> (\<exists>m. v = JObj m))"
  by (auto simp: meta_ok_def split: option.splits json.splits)

lemma meta_ok_SetFinalizers_Some: "meta_ok u \<Longrightarrow> meta_ok (SetFinalizers u (Some fs))"
  using SetFinalizers_meta [of u fs] by (auto simp: meta_ok_iff)

lemma meta_ok_SetFinalizers_None: "meta_ok u \<Longrightarrow> meta_ok (SetFinalizers u None)"
  by (auto simp: meta_ok_iff SetFinalizers_def split: option.splits json.splits)

lemma meta_ok_SetFinalizers [simp]: "meta_ok (SetFinalizers u fs) = meta_ok u"
  by (cases "meta_ok u"; cases fs)
    (simp_all add: meta_ok_SetFinalizers_Some meta_ok_SetFinalizers_None SetFinalizers_not_meta_ok)

text \<open>An object that has a finalizer has its metadata in a map.\<close>

lemma GetFinalizers_meta_ok: "GetFinalizers u \<noteq> None \<Longrightarrow> meta_ok u"
  by (auto simp: GetFinalizers_def NestedStringSlice_def NestedFieldNoCopy_def meta_ok_def
        split: option.splits json.splits sum.splits)

lemma Contains_GetFinalizers_meta_ok: "Contains (GetFinalizers u) f \<Longrightarrow> meta_ok u"
  by (cases "GetFinalizers u") (auto simp: Contains_def intro: GetFinalizers_meta_ok)

text \<open>An object that has a name has its metadata in a map.\<close>

lemma GetName_meta_ok: "GetName u \<noteq> [] \<Longrightarrow> meta_ok u"
  by (auto simp: getter_defs NestedFieldNoCopy_def meta_ok_def
        split: option.splits json.splits sum.splits)

lemma ParseGroupVersion_group_version:
  assumes "CHR ''/'' \<notin> set g" and "CHR ''/'' \<notin> set v" and "g \<noteq> [] \<or> v \<noteq> []"
  shows "ParseGroupVersion (g @ CHR ''/'' # v) = Inr \<lparr>gv_group = g, gv_version = v\<rparr>"
  using assms by (auto simp: ParseGroupVersion_def Split1_append Split1_no_sep append_eq_Cons_conv)

end
