(* ===== verification/ControllerMap.thy ===== *)
theory ControllerMap imports MTPrelude begin

text \<open>
  \<open>pkg/framework/controller_map.go\<close>: the map from a ProviderConfig's key to its controller set.

  A \<open>ControllerSet\<close> is held by pointer: \<open>GetOrCreate\<close> hands out the pointer stored in the map and
  the manager later writes \<open>cs.stopCh\<close> through it, whether or not the map still holds it. So
  the state is the map from keys to references and the heap of controller sets they denote.
  A stop channel is its identity; \<open>None\<close> is the nil channel. The mutex makes each operation
  atomic: it is one step here.
\<close>

type_synonym chan = nat

record ControllerSet =
  stopCh :: "chan option"

record ControllerMap =
  cm_data :: "string \<rightharpoonup> nat"
  cm_heap :: "nat \<Rightarrow> ControllerSet"
  cm_next :: nat

definition NewControllerMap :: ControllerMap where
  "NewControllerMap = \<lparr>cm_data = Map.empty, cm_heap = (\<lambda>_. \<lparr>stopCh = None\<rparr>), cm_next = 0\<rparr>"

definition cm_Get :: "ControllerMap \<Rightarrow> string \<Rightarrow> nat option" where
  "cm_Get cm key = cm_data cm key"

text \<open>\<open>GetOrCreate\<close> returns the reference, whether it existed, and the new state.\<close>

definition cm_GetOrCreate :: "ControllerMap \<Rightarrow> string \<Rightarrow> nat \<times> bool \<times> ControllerMap" where
  "cm_GetOrCreate cm key =
     (case cm_data cm key of
        Some cs \<Rightarrow> (cs, True, cm)
      | None \<Rightarrow>
          (cm_next cm, False,
           cm\<lparr>cm_data := (cm_data cm)(key \<mapsto> cm_next cm),
              cm_heap := (cm_heap cm)(cm_next cm := \<lparr>stopCh = None\<rparr>),
              cm_next := Suc (cm_next cm)\<rparr>))"

definition cm_Delete :: "ControllerMap \<Rightarrow> string \<Rightarrow> ControllerMap" where
  "cm_Delete cm key = cm\<lparr>cm_data := (cm_data cm)(key := None)\<rparr>"

text \<open>Reading and writing \<open>cs.stopCh\<close> through the pointer.\<close>

definition cs_stopCh :: "ControllerMap \<Rightarrow> nat \<Rightarrow> chan option" where
  "cs_stopCh cm cs = stopCh (cm_heap cm cs)"

definition cs_set_stopCh :: "ControllerMap \<Rightarrow> nat \<Rightarrow> chan option \<Rightarrow> ControllerMap" where
  "cs_set_stopCh cm cs ch = cm\<lparr>cm_heap := (cm_heap cm)(cs := (cm_heap cm cs)\<lparr>stopCh := ch\<rparr>)\<rparr>"

section \<open>The interface\<close>

text \<open>
  What the manager relies on: a partial map from keys to stop channels (the abstraction
  \<open>view\<close>), in which an entry may exist without a running controller (\<open>Some None\<close>). A reference
  is \<open>live key r\<close> when it is the one the map holds for the key.
\<close>

locale keyed_store =
  fixes view :: "'m \<Rightarrow> string \<rightharpoonup> chan option"
    and inv :: "'m \<Rightarrow> bool"
    and live :: "'m \<Rightarrow> string \<Rightarrow> 'r \<Rightarrow> bool"
    and empty :: 'm
    and get :: "'m \<Rightarrow> string \<Rightarrow> 'r option"
    and get_or_create :: "'m \<Rightarrow> string \<Rightarrow> 'r \<times> bool \<times> 'm"
    and delete :: "'m \<Rightarrow> string \<Rightarrow> 'm"
    and read_ch :: "'m \<Rightarrow> 'r \<Rightarrow> chan option"
    and write_ch :: "'m \<Rightarrow> 'r \<Rightarrow> chan option \<Rightarrow> 'm"
  assumes inv_empty: "inv empty"
    and view_empty: "view empty = Map.empty"
    and get_None_iff: "inv m \<Longrightarrow> get m k = None \<longleftrightarrow> view m k = None"
    and get_live: "inv m \<Longrightarrow> get m k = Some r \<Longrightarrow> live m k r"
    and live_read: "inv m \<Longrightarrow> live m k r \<Longrightarrow> view m k = Some (read_ch m r)"
    and inv_get_or_create: "inv m \<Longrightarrow> get_or_create m k = (r, ex, m') \<Longrightarrow> inv m'"
    and live_get_or_create: "inv m \<Longrightarrow> get_or_create m k = (r, ex, m') \<Longrightarrow> live m' k r"
    and existed_iff: "inv m \<Longrightarrow> get_or_create m k = (r, ex, m') \<Longrightarrow> ex \<longleftrightarrow> view m k \<noteq> None"
    and view_get_or_create: "inv m \<Longrightarrow> get_or_create m k = (r, ex, m') \<Longrightarrow>
          view m' = (if view m k = None then (view m)(k \<mapsto> None) else view m)"
    and inv_delete: "inv m \<Longrightarrow> inv (delete m k)"
    and view_delete: "inv m \<Longrightarrow> view (delete m k) = (view m)(k := None)"
    and inv_write: "inv m \<Longrightarrow> live m k r \<Longrightarrow> inv (write_ch m r ch)"
    and view_write: "inv m \<Longrightarrow> live m k r \<Longrightarrow> view (write_ch m r ch) = (view m)(k \<mapsto> ch)"
begin

lemmas store_specs =
  view_get_or_create inv_get_or_create live_get_or_create view_delete inv_delete view_write inv_write

text \<open>A created entry that is deleted again leaves no trace: the failure path of a start.\<close>

lemma create_delete_view:
  assumes "inv m" and "get_or_create m k = (r, False, m')"
  shows "view (delete m' k) = view m"
proof -
  have "view m k = None" using existed_iff [OF assms] by simp
  with view_get_or_create [OF assms] have "view m' = (view m)(k \<mapsto> None)" by simp
  with inv_get_or_create [OF assms] \<open>view m k = None\<close> show ?thesis
    by (simp add: view_delete fun_upd_idem)
qed

text \<open>Writing through the pointer handed out by \<open>GetOrCreate\<close> is seen by the next lookup.\<close>

lemma create_write_view:
  assumes "inv m" and "get_or_create m k = (r, ex, m')"
  shows "view (write_ch m' r ch) = (view m)(k \<mapsto> ch)"
proof -
  have "inv m'" and "live m' k r"
    using assms by (auto intro: inv_get_or_create live_get_or_create)
  then have "view (write_ch m' r ch) = (view m')(k \<mapsto> ch)" by (rule view_write)
  with view_get_or_create [OF assms] show ?thesis by (auto split: if_splits)
qed

lemma create_read:
  assumes "inv m" and "get_or_create m k = (r, ex, m')"
  shows "read_ch m' r = (case view m k of None \<Rightarrow> None | Some ch \<Rightarrow> ch)"
  using live_read [OF inv_get_or_create [OF assms] live_get_or_create [OF assms]]
    view_get_or_create [OF assms]
  by (auto split: option.splits if_splits)

lemma get_read:
  assumes "inv m" and "get m k = Some r"
  shows "view m k = Some (read_ch m r)"
  using live_read [OF assms(1) get_live [OF assms]] .

end

section \<open>The code's map provides it\<close>

definition cm_view :: "ControllerMap \<Rightarrow> string \<rightharpoonup> chan option" where
  "cm_view cm k = map_option (cs_stopCh cm) (cm_data cm k)"

text \<open>References in the map were allocated, and no two keys share a controller set.\<close>

definition cm_inv :: "ControllerMap \<Rightarrow> bool" where
  "cm_inv cm \<longleftrightarrow>
     (\<forall>k r. cm_data cm k = Some r \<longrightarrow> r < cm_next cm) \<and>
     (\<forall>k k' r. cm_data cm k = Some r \<longrightarrow> cm_data cm k' = Some r \<longrightarrow> k = k')"

definition cm_live :: "ControllerMap \<Rightarrow> string \<Rightarrow> nat \<Rightarrow> bool" where
  "cm_live cm k r \<longleftrightarrow> cm_data cm k = Some r"

lemma cm_view_case:
  "cm_view cm k = (case cm_data cm k of None \<Rightarrow> None | Some r \<Rightarrow> Some (stopCh (cm_heap cm r)))"
  by (simp add: cm_view_def cs_stopCh_def split: option.split)

lemma cm_inv_fresh: "cm_inv cm \<Longrightarrow> cm_data cm k \<noteq> Some (cm_next cm)"
  unfolding cm_inv_def by (metis less_irrefl)

lemma cm_inv_inj: "cm_inv cm \<Longrightarrow> cm_data cm k = Some r \<Longrightarrow> cm_data cm k' = Some r \<Longrightarrow> k = k'"
  unfolding cm_inv_def by metis

lemmas cm_defs =
  NewControllerMap_def cm_Get_def cm_GetOrCreate_def cm_Delete_def cs_stopCh_def cs_set_stopCh_def
  cm_view_case cm_live_def

lemma cm_inv_GetOrCreate:
  assumes "cm_inv cm" and "cm_GetOrCreate cm k = (r, ex, cm')"
  shows "cm_inv cm'"
  using assms cm_inv_fresh [OF assms(1)] unfolding cm_inv_def cm_GetOrCreate_def
  by (auto split: option.splits if_splits simp: less_Suc_eq)

lemma cm_view_GetOrCreate:
  assumes "cm_inv cm" and "cm_GetOrCreate cm k = (r, ex, cm')"
  shows "cm_view cm' = (if cm_view cm k = None then (cm_view cm)(k \<mapsto> None) else cm_view cm)"
  using assms cm_inv_fresh [OF assms(1)]
  by (auto simp: cm_defs fun_eq_iff split: option.splits if_splits)

lemma cm_view_set_stopCh:
  assumes "cm_inv cm" and "cm_live cm k r"
  shows "cm_view (cs_set_stopCh cm r ch) = (cm_view cm)(k \<mapsto> ch)"
  using assms by (auto simp: cm_defs fun_eq_iff dest: cm_inv_inj split: option.splits)

interpretation cms: keyed_store cm_view cm_inv cm_live NewControllerMap cm_Get cm_GetOrCreate
  cm_Delete cs_stopCh cs_set_stopCh
proof unfold_locales
  fix m k r ex m' ch
  show "cm_inv NewControllerMap" by (simp add: cm_inv_def NewControllerMap_def)
  show "cm_view NewControllerMap = Map.empty" by (simp add: fun_eq_iff cm_view_case NewControllerMap_def)
  show "cm_Get m k = None \<longleftrightarrow> cm_view m k = None"
    by (simp add: cm_defs split: option.splits)
  show "cm_Get m k = Some r \<Longrightarrow> cm_live m k r" by (simp add: cm_defs)
  show "cm_live m k r \<Longrightarrow> cm_view m k = Some (cs_stopCh m r)" by (simp add: cm_defs)
  show "cm_inv m \<Longrightarrow> cm_GetOrCreate m k = (r, ex, m') \<Longrightarrow> cm_inv m'"
    by (rule cm_inv_GetOrCreate)
  show "cm_GetOrCreate m k = (r, ex, m') \<Longrightarrow> cm_live m' k r"
    by (auto simp: cm_live_def cm_GetOrCreate_def split: option.splits)
  show "cm_GetOrCreate m k = (r, ex, m') \<Longrightarrow> ex \<longleftrightarrow> cm_view m k \<noteq> None"
    by (auto simp: cm_defs split: option.splits)
  show "cm_inv m \<Longrightarrow> cm_GetOrCreate m k = (r, ex, m') \<Longrightarrow>
          cm_view m' = (if cm_view m k = None then (cm_view m)(k \<mapsto> None) else cm_view m)"
    by (rule cm_view_GetOrCreate)
  show "cm_inv m \<Longrightarrow> cm_inv (cm_Delete m k)"
    unfolding cm_inv_def cm_Delete_def by (auto split: if_splits)
  show "cm_view (cm_Delete m k) = (cm_view m)(k := None)"
    by (auto simp: cm_defs fun_eq_iff split: option.splits)
  show "cm_inv m \<Longrightarrow> cm_inv (cs_set_stopCh m r ch)"
    by (simp add: cm_inv_def cs_set_stopCh_def)
  show "cm_inv m \<Longrightarrow> cm_live m k r \<Longrightarrow> cm_view (cs_set_stopCh m r ch) = (cm_view m)(k \<mapsto> ch)"
    by (rule cm_view_set_stopCh)
qed

end
