(* ===== verification/Manager.thy ===== *)
theory Manager imports MTPrelude Unstructured ControllerMap begin

text \<open>
  \<open>pkg/framework/manager.go\<close>: starting and stopping the controllers of a ProviderConfig.

  The state \<open>'w mstate\<close> holds the manager's fields (\<open>finalizerName\<close>, \<open>controllers\<close>), the heap of
  Unstructured objects (\<open>objs\<close>: the ProviderConfig a caller passes is a pointer, and
  \<open>pc.SetFinalizers\<close> writes to the object it shares with the informer's cache), the stop
  channels closed so far, the state of the world outside (\<open>world\<close>: the API server and whatever
  the starter runs), and the calls made to that world, in order (\<open>trace\<close>).

  The API server and the \<open>ControllerStarter\<close> are not code of this repository: they are the
  arguments \<open>api\<close> and \<open>st\<close> of the operations, functions on the world's state. An object the
  API client returns is freshly decoded, so it is a value here. The starter may also panic.
\<close>

section \<open>State and environment\<close>

datatype start_result =
    Started "chan option" error
  | StarterPanic string

datatype effect =
    ApiGet string "go_error + obj"
  | ApiUpdate obj "go_error + obj"
  | StartCall obj start_result
  | CloseCh chan

record 'w api =
  api_get :: "'w \<Rightarrow> string \<Rightarrow> (go_error + obj) \<times> 'w"
  api_update :: "'w \<Rightarrow> obj \<Rightarrow> (go_error + obj) \<times> 'w"

type_synonym 'w starter = "'w \<Rightarrow> obj \<Rightarrow> start_result \<times> 'w"

record 'w mstate =
  controllers :: ControllerMap
  finalizerName :: string
  objs :: "nat \<Rightarrow> obj"
  closed :: "chan set"
  world :: 'w
  trace :: "effect list"

definition newManager :: "string \<Rightarrow> (nat \<Rightarrow> obj) \<Rightarrow> 'w \<Rightarrow> 'w mstate" where
  "newManager fin heap w =
     \<lparr>controllers = NewControllerMap, finalizerName = fin, objs = heap, closed = {}, world = w,
      trace = []\<rparr>"

definition providerConfigGVK :: gvk where
  "providerConfigGVK = \<lparr>gvk_group = ''cloud.gke.io'', gvk_version = ''v1'', gvk_kind = ''ProviderConfig''\<rparr>"

definition providerConfigKey :: "obj \<Rightarrow> string" where
  "providerConfigKey pc = GetName pc"

section \<open>Calls to the world\<close>

definition getProviderConfig :: "'w api \<Rightarrow> 'w mstate \<Rightarrow> string \<Rightarrow> (go_error + obj) \<times> 'w mstate" where
  "getProviderConfig api s name =
     (case api_get api (world s) name of
        (r, w) \<Rightarrow> (r, s\<lparr>world := w, trace := trace s @ [ApiGet name r]\<rparr>))"

definition updateProviderConfig :: "'w api \<Rightarrow> 'w mstate \<Rightarrow> obj \<Rightarrow> (go_error + obj) \<times> 'w mstate" where
  "updateProviderConfig api s pc =
     (case api_update api (world s) pc of
        (r, w) \<Rightarrow> (r, s\<lparr>world := w, trace := trace s @ [ApiUpdate pc r]\<rparr>))"

definition callStarter :: "'w starter \<Rightarrow> 'w mstate \<Rightarrow> obj \<Rightarrow> start_result \<times> 'w mstate" where
  "callStarter st s pc =
     (case st (world s) pc of
        (r, w) \<Rightarrow> (r, s\<lparr>world := w, trace := trace s @ [StartCall pc r]\<rparr>))"

text \<open>Closing a channel twice panics.\<close>

definition close_ch :: "'w mstate \<Rightarrow> chan \<Rightarrow> unit outcome \<times> 'w mstate" where
  "close_ch s ch =
     (if ch \<in> closed s then (Panic ''close of closed channel'', s)
      else (Return (), s\<lparr>closed := insert ch (closed s), trace := trace s @ [CloseCh ch]\<rparr>))"

section \<open>Starting\<close>

definition deleteFinalizer :: "'w mstate \<Rightarrow> string slice \<Rightarrow> string slice" where
  "deleteFinalizer s fs = DeleteFunc fs (\<lambda>f. f = finalizerName s)"

text \<open>\<open>rollbackFinalizerOnStartFailure\<close> only logs its errors.\<close>

definition rollbackFinalizerOnStartFailure :: "'w api \<Rightarrow> 'w mstate \<Rightarrow> obj \<Rightarrow> 'w mstate" where
  "rollbackFinalizerOnStartFailure api s pc =
     (case getProviderConfig api s (GetName pc) of
        (Inl e, s) \<Rightarrow> s
      | (Inr pcLatest, s) \<Rightarrow>
          let finalizers = GetFinalizers pcLatest;
              newFinalizers = deleteFinalizer s finalizers
          in if length (elems newFinalizers) \<noteq> length (elems finalizers)
             then snd (updateProviderConfig api s (SetFinalizers pcLatest newFinalizers))
             else s)"

text \<open>The step \<open>if !hadFinalizer\<close>: the finalizer is set on the caller's object, then sent.\<close>

definition ensureFinalizer :: "'w api \<Rightarrow> 'w mstate \<Rightarrow> nat \<Rightarrow> error \<times> 'w mstate" where
  "ensureFinalizer api s pc =
     (let finalizers = GetFinalizers (objs s pc);
          pc' = SetFinalizers (objs s pc) (append1 finalizers (finalizerName s));
          s = s\<lparr>objs := (objs s)(pc := pc')\<rparr>
      in case updateProviderConfig api s pc' of
           (Inl e, s) \<Rightarrow> (Some e, s)
         | (Inr _, s) \<Rightarrow> (None, s))"

definition dropEntry :: "bool \<Rightarrow> 'w mstate \<Rightarrow> string \<Rightarrow> 'w mstate" where
  "dropEntry existed s pcKey =
     (if existed then s else s\<lparr>controllers := cm_Delete (controllers s) pcKey\<rparr>)"

text \<open>The last part of a start: call the starter and record its channel, or undo.\<close>

definition startAndRecord ::
  "'w api \<Rightarrow> 'w starter \<Rightarrow> 'w mstate \<Rightarrow> nat \<Rightarrow> string \<Rightarrow> nat \<Rightarrow> bool \<Rightarrow> bool \<Rightarrow>
   error outcome \<times> 'w mstate" where
  "startAndRecord api st s pc pcKey cs existed hadFinalizer =
     (case callStarter st s (objs s pc) of
        (StarterPanic msg, s) \<Rightarrow> (Panic msg, s)
      | (Started controllerStopCh err, s) \<Rightarrow>
          let err = (if err = None \<and> controllerStopCh = None
                     then Some (Errorf ''controller starter returned nil channel'' []) else err)
          in case err of
               Some e \<Rightarrow>
                 let s = dropEntry existed s pcKey;
                     s = (if hadFinalizer then s
                          else rollbackFinalizerOnStartFailure api s (objs s pc))
                 in (Return (Some (Wrapf ''failed to start controller for provider config %s: %w'' [pcKey] e)), s)
             | None \<Rightarrow>
                 (Return None, s\<lparr>controllers := cs_set_stopCh (controllers s) cs controllerStopCh\<rparr>))"

definition StartControllersForProviderConfig ::
  "'w api \<Rightarrow> 'w starter \<Rightarrow> 'w mstate \<Rightarrow> nat \<Rightarrow> error outcome \<times> 'w mstate" where
  "StartControllersForProviderConfig api st s pc =
     (if GroupVersionKind (objs s pc) \<noteq> providerConfigGVK
      then (Return (Some (Errorf ''expected object of kind %s, but got %s''
              [gvk_String providerConfigGVK, gvk_String (GroupVersionKind (objs s pc))])), s)
      else if \<not> IsZero (GetDeletionTimestamp (objs s pc)) then (Return None, s)
      else
        let pcKey = providerConfigKey (objs s pc) in
        case cm_GetOrCreate (controllers s) pcKey of
          (cs, existed, cm) \<Rightarrow>
            let s = s\<lparr>controllers := cm\<rparr> in
            if cs_stopCh cm cs \<noteq> None then (Return None, s)
            else
              let finalizers = GetFinalizers (objs s pc);
                  hadFinalizer = Contains finalizers (finalizerName s)
              in case (if hadFinalizer then (None, s) else ensureFinalizer api s pc) of
                   (Some e, s) \<Rightarrow>
                     (Return (Some (Wrapf ''failed to ensure finalizer %s for provider config %s: %w''
                        [finalizerName s, pcKey] e)), dropEntry existed s pcKey)
                 | (None, s) \<Rightarrow> startAndRecord api st s pc pcKey cs existed hadFinalizer)"

section \<open>Stopping\<close>

text \<open>The first part of a stop: forget the entry and close its channel.\<close>

definition stopEntry :: "'w mstate \<Rightarrow> string \<Rightarrow> unit outcome \<times> 'w mstate" where
  "stopEntry s pcKey =
     (case cm_Get (controllers s) pcKey of
        None \<Rightarrow> (Return (), s)
      | Some cs \<Rightarrow>
          let s = s\<lparr>controllers := cm_Delete (controllers s) pcKey\<rparr>
          in case cs_stopCh (controllers s) cs of
               Some ch \<Rightarrow> close_ch s ch
             | None \<Rightarrow> (Return (), s))"

text \<open>The second part: take the finalizer off the latest version of the object.\<close>

definition removeFinalizer :: "'w api \<Rightarrow> 'w mstate \<Rightarrow> string \<Rightarrow> string \<Rightarrow> error \<times> 'w mstate" where
  "removeFinalizer api s name pcKey =
     (case getProviderConfig api s name of
        (Inl e, s) \<Rightarrow>
          if IsNotFound e then (None, s)
          else (Some (Wrapf ''Failed to get latest ProviderConfig for finalizer removal: %w'' [] e), s)
      | (Inr latestPC, s) \<Rightarrow>
          let finalizers = GetFinalizers latestPC;
              newFinalizers = deleteFinalizer s finalizers
          in if length (elems newFinalizers) \<noteq> length (elems finalizers)
             then case updateProviderConfig api s (SetFinalizers latestPC newFinalizers) of
                    (Inl e, s) \<Rightarrow>
                      (Some (Wrapf ''Failed to delete finalizer %s for provider config %s: %w''
                         [finalizerName s, pcKey] e), s)
                  | (Inr _, s) \<Rightarrow> (None, s)
             else (None, s))"

definition StopControllersForProviderConfig ::
  "'w api \<Rightarrow> 'w mstate \<Rightarrow> nat \<Rightarrow> error outcome \<times> 'w mstate" where
  "StopControllersForProviderConfig api s pc =
     (if GroupVersionKind (objs s pc) \<noteq> providerConfigGVK
      then (Return (Some (Errorf ''expected object of kind %s, but got %s''
              [gvk_String providerConfigGVK, gvk_String (GroupVersionKind (objs s pc))])), s)
      else
        let pcKey = providerConfigKey (objs s pc) in
        case stopEntry s pcKey of
          (Panic msg, s) \<Rightarrow> (Panic msg, s)
        | (Return _, s) \<Rightarrow>
            (case removeFinalizer api s (GetName (objs s pc)) pcKey of
               (err, s) \<Rightarrow> (Return err, s)))"

section \<open>What each call leaves alone\<close>

definition view :: "'w mstate \<Rightarrow> string \<rightharpoonup> chan option" where
  "view s = cm_view (controllers s)"

definition key_of :: "'w mstate \<Rightarrow> nat \<Rightarrow> string" where
  "key_of s pc = GetName (objs s pc)"

definition is_pc :: "'w mstate \<Rightarrow> nat \<Rightarrow> bool" where
  "is_pc s pc \<longleftrightarrow> GroupVersionKind (objs s pc) = providerConfigGVK"

definition deleting :: "'w mstate \<Rightarrow> nat \<Rightarrow> bool" where
  "deleting s pc \<longleftrightarrow> \<not> IsZero (GetDeletionTimestamp (objs s pc))"

definition had_finalizer :: "'w mstate \<Rightarrow> nat \<Rightarrow> bool" where
  "had_finalizer s pc \<longleftrightarrow> Contains (GetFinalizers (objs s pc)) (finalizerName s)"

lemmas pc_defs = key_of_def is_pc_def deleting_def had_finalizer_def providerConfigKey_def

text \<open>The effects that only read or write the API server.\<close>

definition is_api_effect :: "effect \<Rightarrow> bool" where
  "is_api_effect e = (case e of ApiGet n r \<Rightarrow> True | ApiUpdate u r \<Rightarrow> True | _ \<Rightarrow> False)"

lemma is_api_effect_simps [simp]:
  "is_api_effect (ApiGet n r)" "is_api_effect (ApiUpdate u r)"
  "\<not> is_api_effect (StartCall u q)" "\<not> is_api_effect (CloseCh ch)"
  by (simp_all add: is_api_effect_def)

text \<open>\<open>api_step s s'\<close>: only API calls were made; the manager's own state is as before.\<close>

definition api_step :: "'w mstate \<Rightarrow> 'w mstate \<Rightarrow> bool" where
  "api_step s s' \<longleftrightarrow>
     controllers s' = controllers s \<and> finalizerName s' = finalizerName s \<and> objs s' = objs s \<and>
     closed s' = closed s \<and> (\<exists>es. trace s' = trace s @ es \<and> list_all is_api_effect es)"

lemma api_step_refl [intro, simp]: "api_step s s"
  by (simp add: api_step_def)

lemma api_step_trans [trans]:
  assumes "api_step s t" and "api_step t u"
  shows "api_step s u"
proof -
  from assms obtain es fs where "trace t = trace s @ es" "list_all is_api_effect es"
    "trace u = trace t @ fs" "list_all is_api_effect fs"
    unfolding api_step_def by blast
  then have "trace u = trace s @ (es @ fs)" "list_all is_api_effect (es @ fs)" by simp_all
  with assms show ?thesis unfolding api_step_def by metis
qed

lemma api_stepD:
  assumes "api_step s s'"
  shows "controllers s' = controllers s" and "finalizerName s' = finalizerName s"
    and "objs s' = objs s" and "closed s' = closed s" and "view s' = view s"
  using assms by (simp_all add: api_step_def view_def)

lemma getProviderConfig_step: "getProviderConfig api s n = (r, s') \<Longrightarrow> api_step s s'"
  by (auto simp: getProviderConfig_def api_step_def split: prod.splits)

lemma updateProviderConfig_step: "updateProviderConfig api s u = (r, s') \<Longrightarrow> api_step s s'"
  by (auto simp: updateProviderConfig_def api_step_def split: prod.splits)

lemma updateProviderConfig_step_snd [simp]: "api_step s (snd (updateProviderConfig api s u))"
  by (rule updateProviderConfig_step [of api s u "fst (updateProviderConfig api s u)"]) simp

lemma rollback_step: "api_step s (rollbackFinalizerOnStartFailure api s u)"
  unfolding rollbackFinalizerOnStartFailure_def Let_def
  by (auto split: prod.split sum.split dest: getProviderConfig_step
        intro: api_step_trans [OF getProviderConfig_step])

lemma removeFinalizer_step: "removeFinalizer api s n k = (r, s') \<Longrightarrow> api_step s s'"
  unfolding removeFinalizer_def Let_def
  by (auto split: prod.splits sum.splits if_splits dest: getProviderConfig_step
        intro: api_step_trans [OF getProviderConfig_step updateProviderConfig_step])

section \<open>The outcomes of a start\<close>

text \<open>The caller's object after the step \<open>pc.SetFinalizers(append(...))\<close>.\<close>

definition ensured :: "'w mstate \<Rightarrow> nat \<Rightarrow> obj" where
  "ensured s pc = SetFinalizers (objs s pc) (append1 (GetFinalizers (objs s pc)) (finalizerName s))"

lemma ensureFinalizer_result:
  assumes "ensureFinalizer api s pc = (r, s1)"
  shows "controllers s1 = controllers s" and "finalizerName s1 = finalizerName s"
    and "closed s1 = closed s" and "objs s1 = (objs s)(pc := ensured s pc)"
    and "\<exists>res. trace s1 = trace s @ [ApiUpdate (ensured s pc) res] \<and>
               r = (case res of Inl e \<Rightarrow> Some e | Inr u \<Rightarrow> None)"
proof -
  obtain res w where res: "api_update api (world s) (ensured s pc) = (res, w)"
    by (cases "api_update api (world s) (ensured s pc)")
  have "r = (case res of Inl e \<Rightarrow> Some e | Inr u \<Rightarrow> None) \<and>
    s1 = s\<lparr>objs := (objs s)(pc := ensured s pc), world := w,
           trace := trace s @ [ApiUpdate (ensured s pc) res]\<rparr>"
    using assms res
    by (cases res) (simp_all add: ensureFinalizer_def updateProviderConfig_def ensured_def Let_def)
  then show "controllers s1 = controllers s" and "finalizerName s1 = finalizerName s"
    and "closed s1 = closed s" and "objs s1 = (objs s)(pc := ensured s pc)"
    and "\<exists>res. trace s1 = trace s @ [ApiUpdate (ensured s pc) res] \<and>
               r = (case res of Inl e \<Rightarrow> Some e | Inr u \<Rightarrow> None)"
    by auto
qed

text \<open>What a start did before it called the starter: nothing, or the accepted update.\<close>

definition ensured_state :: "'w mstate \<Rightarrow> nat \<Rightarrow> 'w mstate \<Rightarrow> effect list \<Rightarrow> bool" where
  "ensured_state s pc s' es \<longleftrightarrow>
     finalizerName s' = finalizerName s \<and> closed s' = closed s \<and>
     (if had_finalizer s pc then objs s' = objs s \<and> es = []
      else objs s' = (objs s)(pc := ensured s pc) \<and> (\<exists>u. es = [ApiUpdate (ensured s pc) (Inr u)]))"

lemma startAndRecord_cases:
  assumes "startAndRecord api st s pc k cs existed had = (out, s')"
  obtains
    (panicked) msg where "out = Panic msg" "controllers s' = controllers s"
      "finalizerName s' = finalizerName s" "closed s' = closed s" "objs s' = objs s"
      "trace s' = trace s @ [StartCall (objs s pc) (StarterPanic msg)]"
  | (failed) ch err e es where
      "out = Return (Some (Wrapf ''failed to start controller for provider config %s: %w'' [k] e))"
      "controllers s' = (if existed then controllers s else cm_Delete (controllers s) k)"
      "finalizerName s' = finalizerName s" "closed s' = closed s" "objs s' = objs s"
      "trace s' = trace s @ StartCall (objs s pc) (Started ch err) # es"
      "err = Some e \<or> err = None \<and> ch = None" "list_all is_api_effect es" "had \<longrightarrow> es = []"
  | (started) ch where "out = Return None" "controllers s' = cs_set_stopCh (controllers s) cs (Some ch)"
      "finalizerName s' = finalizerName s" "closed s' = closed s" "objs s' = objs s"
      "trace s' = trace s @ [StartCall (objs s pc) (Started (Some ch) None)]"
proof -
  obtain q s1 where q: "callStarter st s (objs s pc) = (q, s1)" by (cases "callStarter st s (objs s pc)")
  then have s1: "controllers s1 = controllers s" "finalizerName s1 = finalizerName s"
    "closed s1 = closed s" "objs s1 = objs s" "trace s1 = trace s @ [StartCall (objs s pc) q]"
    by (auto simp: callStarter_def split: prod.splits)
  show ?thesis
  proof (cases q)
    case (StarterPanic msg)
    with assms q have "out = Panic msg" "s' = s1" by (simp_all add: startAndRecord_def)
    with s1 StarterPanic show ?thesis by (intro panicked) simp_all
  next
    case (Started ch err)
    show ?thesis
    proof (cases "err = None \<and> ch \<noteq> None")
      case True
      then obtain c where "ch = Some c" "err = None" by auto
      with assms q Started have "out = Return None"
        "s' = s1\<lparr>controllers := cs_set_stopCh (controllers s1) cs (Some c)\<rparr>"
        by (simp_all add: startAndRecord_def)
      with s1 Started \<open>ch = Some c\<close> \<open>err = None\<close> show ?thesis by (intro started) simp_all
    next
      case False
      define e where "e = (case err of Some e \<Rightarrow> e
        | None \<Rightarrow> Errorf ''controller starter returned nil channel'' [])"
      define s2 where "s2 = dropEntry existed s1 k"
      have s2: "controllers s2 = (if existed then controllers s else cm_Delete (controllers s) k)"
        "finalizerName s2 = finalizerName s" "closed s2 = closed s" "objs s2 = objs s"
        "trace s2 = trace s1"
        using s1 by (simp_all add: s2_def dropEntry_def)
      have "startAndRecord api st s pc k cs existed had =
        (Return (Some (Wrapf ''failed to start controller for provider config %s: %w'' [k] e)),
         if had then s2 else rollbackFinalizerOnStartFailure api s2 (objs s2 pc))"
        using False unfolding startAndRecord_def q Started e_def s2_def Let_def
        by (cases err) auto
      with assms have s': "s' = (if had then s2 else rollbackFinalizerOnStartFailure api s2 (objs s2 pc))"
        and out: "out = Return (Some (Wrapf ''failed to start controller for provider config %s: %w'' [k] e))"
        by auto
      have step: "api_step s2 s'" unfolding s' using rollback_step by auto
      obtain es where es: "trace s' = trace s2 @ es" "list_all is_api_effect es"
        using step unfolding api_step_def by blast
      show ?thesis
      proof (rule failed [OF out])
        show "err = Some e \<or> err = None \<and> ch = None"
          using False by (cases err) (simp_all add: e_def)
        show "had \<longrightarrow> es = []" using es s' by auto
        show "trace s' = trace s @ StartCall (objs s pc) (Started ch err) # es"
          using es s2 s1 Started by simp
      qed (use api_stepD [OF step] s2 es in simp_all)
    qed
  qed
qed

text \<open>Once past its guards, a start is the finalizer step and then the starter step.\<close>

lemma Start_not_running_eq:
  assumes "is_pc s pc" and "\<not> deleting s pc"
    and "cm_GetOrCreate (controllers s) (key_of s pc) = (cs, ex, cm)" and "cs_stopCh cm cs = None"
  shows "StartControllersForProviderConfig api st s pc =
    (case (if had_finalizer s pc then (None, s\<lparr>controllers := cm\<rparr>)
           else ensureFinalizer api (s\<lparr>controllers := cm\<rparr>) pc) of
       (Some e, s1) \<Rightarrow>
         (Return (Some (Wrapf ''failed to ensure finalizer %s for provider config %s: %w''
            [finalizerName s1, key_of s pc] e)), dropEntry ex s1 (key_of s pc))
     | (None, s1) \<Rightarrow> startAndRecord api st s1 pc (key_of s pc) cs ex (had_finalizer s pc))"
  using assms unfolding StartControllersForProviderConfig_def pc_defs Let_def
  by (simp split: prod.split option.split)

lemma Start_running_eq:
  assumes "is_pc s pc" and "\<not> deleting s pc" and "view s (key_of s pc) = Some (Some ch)"
  shows "StartControllersForProviderConfig api st s pc = (Return None, s)"
  using assms unfolding StartControllersForProviderConfig_def pc_defs Let_def view_def
  by (auto simp: cm_GetOrCreate_def cm_view_case cs_stopCh_def split: option.splits)

text \<open>
  The finalizer step of a start, on the state \<open>s\<close> with the entry just created: either the
  update was refused, or the finalizer is in place.
\<close>

lemma ensure_step_cases:
  assumes "(if had_finalizer s pc then (None, s\<lparr>controllers := cm\<rparr>)
            else ensureFinalizer api (s\<lparr>controllers := cm\<rparr>) pc) = (r, s1)"
  obtains
    (refused) e where "r = Some e" "\<not> had_finalizer s pc" "controllers s1 = cm"
      "finalizerName s1 = finalizerName s" "closed s1 = closed s"
      "objs s1 = (objs s)(pc := ensured s pc)" "trace s1 = trace s @ [ApiUpdate (ensured s pc) (Inl e)]"
  | (in_place) es where "r = None" "controllers s1 = cm" "trace s1 = trace s @ es"
      "ensured_state s pc s1 es"
proof (cases "had_finalizer s pc")
  case True
  with assms show ?thesis by (intro in_place [of "[]"]) (auto simp: ensured_state_def)
next
  case False
  let ?s = "s\<lparr>controllers := cm\<rparr>"
  from False assms have ef: "ensureFinalizer api ?s pc = (r, s1)" by simp
  have en: "ensured ?s pc = ensured s pc" by (simp add: ensured_def)
  note res = ensureFinalizer_result [OF ef, unfolded en]
  from res(5) obtain q where q: "trace s1 = trace s @ [ApiUpdate (ensured s pc) q]"
    "r = (case q of Inl e \<Rightarrow> Some e | Inr u \<Rightarrow> None)" by auto
  show ?thesis
  proof (cases q)
    case (Inl e)
    with q res False show ?thesis by (intro refused) simp_all
  next
    case (Inr u)
    with q res False show ?thesis by (intro in_place) (auto simp: ensured_state_def)
  qed
qed

text \<open>
  Every way a start can go. In the failing cases the abstract map is as before; only a start
  whose starter panicked leaves an entry without a channel behind.
\<close>

lemma Start_cases:
  assumes inv: "cm_inv (controllers s)"
    and run: "StartControllersForProviderConfig api st s pc = (out, s')"
  obtains
    (wrong_kind) e where "\<not> is_pc s pc" "out = Return (Some e)" "s' = s"
  | (terminating) "is_pc s pc" "deleting s pc" "out = Return None" "s' = s"
  | (already) ch where "is_pc s pc" "\<not> deleting s pc" "view s (key_of s pc) = Some (Some ch)"
      "out = Return None" "s' = s"
  | (not_ensured) e where "is_pc s pc" "\<not> deleting s pc" "view s (key_of s pc) \<in> {None, Some None}"
      "\<not> had_finalizer s pc"
      "out = Return (Some (Wrapf ''failed to ensure finalizer %s for provider config %s: %w''
                        [finalizerName s, key_of s pc] e))"
      "cm_inv (controllers s')" "view s' = view s"
      "finalizerName s' = finalizerName s" "closed s' = closed s"
      "objs s' = (objs s)(pc := ensured s pc)" "trace s' = trace s @ [ApiUpdate (ensured s pc) (Inl e)]"
  | (panicked) msg es u where "is_pc s pc" "\<not> deleting s pc" "view s (key_of s pc) \<in> {None, Some None}"
      "out = Panic msg"
      "cm_inv (controllers s')" "view s' = (view s)(key_of s pc \<mapsto> None)" "ensured_state s pc s' es"
      "trace s' = trace s @ es @ [StartCall u (StarterPanic msg)]" "u = objs s' pc"
  | (failed) ch err e es fs u where "is_pc s pc" "\<not> deleting s pc"
      "view s (key_of s pc) \<in> {None, Some None}"
      "out = Return (Some (Wrapf ''failed to start controller for provider config %s: %w'' [key_of s pc] e))"
      "cm_inv (controllers s')" "view s' = view s" "ensured_state s pc s' es"
      "trace s' = trace s @ es @ StartCall u (Started ch err) # fs" "u = objs s' pc"
      "err = Some e \<or> err = None \<and> ch = None"
      "list_all is_api_effect fs" "had_finalizer s pc \<longrightarrow> fs = []"
  | (started) ch es u where "is_pc s pc" "\<not> deleting s pc" "view s (key_of s pc) \<in> {None, Some None}"
      "out = Return None" "cm_inv (controllers s')" "view s' = (view s)(key_of s pc \<mapsto> Some ch)"
      "ensured_state s pc s' es"
      "trace s' = trace s @ es @ [StartCall u (Started (Some ch) None)]" "u = objs s' pc"
proof -
  note outer = wrong_kind terminating already not_ensured panicked failed started
  let ?k = "key_of s pc"
  obtain cs ex cm where goc: "cm_GetOrCreate (controllers s) ?k = (cs, ex, cm)"
    by (cases "cm_GetOrCreate (controllers s) ?k")
  note facts = cms.inv_get_or_create [OF inv goc] cms.view_get_or_create [OF inv goc]
    cms.existed_iff [OF inv goc] cms.create_read [OF inv goc] cms.create_write_view [OF inv goc]
  have drop_view: "cm_view (if ex then cm else cm_Delete cm ?k) = view s"
    using cms.create_delete_view [OF inv] goc facts(2,3) by (auto simp: view_def)
  have drop_inv: "cm_inv (if ex then cm else cm_Delete cm ?k)"
    using facts(1) cms.inv_delete by auto
  consider (w) "\<not> is_pc s pc" | (t) "is_pc s pc" "deleting s pc"
    | (a) ch where "is_pc s pc" "\<not> deleting s pc" "view s ?k = Some (Some ch)"
    | (p) "is_pc s pc" "\<not> deleting s pc" "view s ?k \<in> {None, Some None}"
    by (cases "view s ?k") auto
  then show ?thesis
  proof cases
    case w
    with run show ?thesis by (intro outer(1)) (auto simp: StartControllersForProviderConfig_def is_pc_def)
  next
    case t
    with run show ?thesis by (intro outer(2)) (auto simp: StartControllersForProviderConfig_def pc_defs)
  next
    case a
    with run Start_running_eq [OF a, of api st] show ?thesis by (intro outer(3)) simp_all
  next
    case p
    then have "cs_stopCh cm cs = None" using facts(4) by (auto simp: view_def)
    note eq = Start_not_running_eq [OF p(1,2) goc this, of api st]
    obtain r s1 where r: "(if had_finalizer s pc then (None, s\<lparr>controllers := cm\<rparr>)
        else ensureFinalizer api (s\<lparr>controllers := cm\<rparr>) pc) = (r, s1)"
      by fastforce
    from r show ?thesis
    proof (cases rule: ensure_step_cases)
      case (refused e)
      with run eq r have out: "out = Return (Some (Wrapf
          ''failed to ensure finalizer %s for provider config %s: %w'' [finalizerName s, ?k] e))"
        and s': "s' = dropEntry ex s1 ?k" by simp_all
      have "controllers s' = (if ex then cm else cm_Delete cm ?k)"
        using refused s' by (simp add: dropEntry_def)
      then have "cm_inv (controllers s')" and "view s' = view s"
        using drop_view drop_inv by (simp_all add: view_def)
      with refused s' show ?thesis
        by (intro outer(4) [OF p refused(2) out]) (simp_all add: dropEntry_def)
    next
      case (in_place es)
      with run eq r have "startAndRecord api st s1 pc ?k cs ex (had_finalizer s pc) = (out, s')" by simp
      then show ?thesis
      proof (cases rule: startAndRecord_cases)
        case (panicked msg)
        then show ?thesis using in_place p facts(1,2)
          by (intro outer(5)) (auto simp: ensured_state_def view_def)
      next
        case (failed ch err e fs)
        then show ?thesis using in_place p drop_view drop_inv
          by (intro outer(6)) (auto simp: ensured_state_def view_def)
      next
        case (started ch)
        then show ?thesis
          using in_place p facts(1,5) cms.inv_write cms.live_get_or_create [OF inv goc]
          by (intro outer(7)) (auto simp: ensured_state_def view_def)
      qed
    qed
  qed
qed

section \<open>The outcomes of a stop\<close>

text \<open>
  The entry is forgotten in any case. A running controller's channel is closed, which panics if
  it was closed before.
\<close>

lemma stopEntry_result:
  assumes inv: "cm_inv (controllers s)" and run: "stopEntry s k = (r, s')"
  shows "cm_inv (controllers s')" and "view s' = (view s)(k := None)"
    and "finalizerName s' = finalizerName s" and "objs s' = objs s" and "world s' = world s"
    and "case view s k of
           Some (Some ch) \<Rightarrow>
             if ch \<in> closed s
             then r = Panic ''close of closed channel'' \<and> closed s' = closed s \<and> trace s' = trace s
             else r = Return () \<and> closed s' = insert ch (closed s) \<and> trace s' = trace s @ [CloseCh ch]
         | _ \<Rightarrow> r = Return () \<and> closed s' = closed s \<and> trace s' = trace s"
proof -
  let ?s1 = "s\<lparr>controllers := cm_Delete (controllers s) k\<rparr>"
  have *: "(view s k = None \<and> r = Return () \<and> s' = s) \<or>
    (view s k = Some None \<and> r = Return () \<and> s' = ?s1) \<or>
    (\<exists>ch. view s k = Some (Some ch) \<and> close_ch ?s1 ch = (r, s'))"
    using run inv cms.get_None_iff [OF inv, of k] cms.get_read [OF inv, of k]
    unfolding stopEntry_def Let_def view_def
    by (auto simp: cm_Delete_def cs_stopCh_def split: option.splits)
  then have "controllers s' = (if view s k = None then controllers s else cm_Delete (controllers s) k)"
    by (auto simp: close_ch_def split: if_splits)
  then show "cm_inv (controllers s')" and "view s' = (view s)(k := None)"
    using inv cms.inv_delete [OF inv] cms.view_delete [OF inv]
    by (auto simp: view_def fun_upd_idem_iff split: if_splits)
  show "finalizerName s' = finalizerName s" and "objs s' = objs s" and "world s' = world s"
    and "case view s k of
           Some (Some ch) \<Rightarrow>
             if ch \<in> closed s
             then r = Panic ''close of closed channel'' \<and> closed s' = closed s \<and> trace s' = trace s
             else r = Return () \<and> closed s' = insert ch (closed s) \<and> trace s' = trace s @ [CloseCh ch]
         | _ \<Rightarrow> r = Return () \<and> closed s' = closed s \<and> trace s' = trace s"
    using * by (auto simp: close_ch_def split: if_splits)
qed

text \<open>The object sent by a finalizer removal: the fetched one without the manager's finalizer.\<close>

definition released :: "'w mstate \<Rightarrow> obj \<Rightarrow> obj" where
  "released s u = SetFinalizers u (deleteFinalizer s (GetFinalizers u))"

lemma removeFinalizer_cases:
  assumes "removeFinalizer api s n k = (r, s')"
  obtains
    (not_found) e where "r = None" "IsNotFound e" "trace s' = trace s @ [ApiGet n (Inl e)]"
  | (get_failed) e where "\<not> IsNotFound e" "trace s' = trace s @ [ApiGet n (Inl e)]"
      "r = Some (Wrapf ''Failed to get latest ProviderConfig for finalizer removal: %w'' [] e)"
  | (absent) u where "r = None" "\<not> Contains (GetFinalizers u) (finalizerName s)"
      "trace s' = trace s @ [ApiGet n (Inr u)]"
  | (removed) u u' where "r = None" "Contains (GetFinalizers u) (finalizerName s)"
      "trace s' = trace s @ [ApiGet n (Inr u), ApiUpdate (released s u) (Inr u')]"
  | (update_failed) u e where "Contains (GetFinalizers u) (finalizerName s)"
      "r = Some (Wrapf ''Failed to delete finalizer %s for provider config %s: %w''
                  [finalizerName s, k] e)"
      "trace s' = trace s @ [ApiGet n (Inr u), ApiUpdate (released s u) (Inl e)]"
proof -
  note outer = that
  obtain g w where g: "api_get api (world s) n = (g, w)" by fastforce
  show ?thesis
  proof (cases g)
    case (Inl e)
    with assms g show ?thesis
      by (cases "IsNotFound e")
        (auto simp: removeFinalizer_def getProviderConfig_def intro: outer(1) outer(2))
  next
    case (Inr u)
    show ?thesis
    proof (cases "Contains (GetFinalizers u) (finalizerName s)")
      case False
      with assms g Inr show ?thesis
        by (intro outer(3)) (auto simp: removeFinalizer_def getProviderConfig_def deleteFinalizer_def Let_def)
    next
      case True
      let ?s1 = "s\<lparr>world := w, trace := trace s @ [ApiGet n g]\<rparr>"
      obtain q w' where q: "api_update api w (released s u) = (q, w')" by fastforce
      have eq: "removeFinalizer api s n k =
        (case q of
           Inl e \<Rightarrow> (Some (Wrapf ''Failed to delete finalizer %s for provider config %s: %w''
                         [finalizerName s, k] e),
                     ?s1\<lparr>world := w', trace := trace ?s1 @ [ApiUpdate (released s u) q]\<rparr>)
         | Inr u' \<Rightarrow> (None, ?s1\<lparr>world := w', trace := trace ?s1 @ [ApiUpdate (released s u) q]\<rparr>))"
        using g q Inr True
        unfolding removeFinalizer_def getProviderConfig_def updateProviderConfig_def Let_def released_def
          deleteFinalizer_def
        by (simp split: sum.split)
      show ?thesis
      proof (cases q)
        case (Inl e)
        with assms eq Inr True show ?thesis by (intro outer(5) [of u e]) auto
      next
        case (Inr u')
        with assms eq \<open>g = Inr u\<close> True show ?thesis by (intro outer(4) [of u u']) auto
      qed
    qed
  qed
qed

text \<open>Every way a stop can go.\<close>

lemma Stop_cases:
  assumes inv: "cm_inv (controllers s)"
    and run: "StopControllersForProviderConfig api s pc = (out, s')"
  obtains
    (wrong_kind) e where "\<not> is_pc s pc" "out = Return (Some e)" "s' = s"
  | (double_close) ch where "is_pc s pc" "view s (key_of s pc) = Some (Some ch)" "ch \<in> closed s"
      "out = Panic ''close of closed channel''" "cm_inv (controllers s')"
      "view s' = (view s)(key_of s pc := None)" "finalizerName s' = finalizerName s" "objs s' = objs s"
      "closed s' = closed s" "trace s' = trace s"
  | (stopped) r chs s1 where "is_pc s pc" "out = Return r"
      "removeFinalizer api s1 (key_of s pc) (key_of s pc) = (r, s')" "cm_inv (controllers s')"
      "view s' = (view s)(key_of s pc := None)" "finalizerName s' = finalizerName s" "objs s' = objs s"
      "chs = (case view s (key_of s pc) of Some (Some ch) \<Rightarrow> [ch] | _ \<Rightarrow> [])"
      "set chs \<inter> closed s = {}" "closed s' = set chs \<union> closed s"
      "world s1 = world s" "finalizerName s1 = finalizerName s" "trace s1 = trace s @ map CloseCh chs"
proof -
  note outer = that
  let ?k = "key_of s pc"
  consider (w) "\<not> is_pc s pc" | (p) "is_pc s pc" by auto
  then show ?thesis
  proof cases
    case w
    with run show ?thesis
      by (intro outer(1)) (auto simp: StopControllersForProviderConfig_def is_pc_def)
  next
    case p
    obtain q s1 where q: "stopEntry s ?k = (q, s1)" by fastforce
    note e = stopEntry_result [OF inv q]
    have eq: "StopControllersForProviderConfig api s pc =
      (case q of Panic msg \<Rightarrow> (Panic msg, s1)
       | Return _ \<Rightarrow> (case removeFinalizer api s1 ?k ?k of (err, s2) \<Rightarrow> (Return err, s2)))"
      using p q e(4) unfolding StopControllersForProviderConfig_def Let_def pc_defs
      by (simp split: outcome.split)
    show ?thesis
    proof (cases q)
      case (Panic msg)
      with e(6) obtain ch where "view s ?k = Some (Some ch)" "ch \<in> closed s"
        "msg = ''close of closed channel''" "closed s1 = closed s" "trace s1 = trace s"
        by (auto split: option.splits if_splits)
      with run eq Panic e p show ?thesis by (intro outer(2) [of ch]) auto
    next
      case (Return u)
      obtain r s2 where r: "removeFinalizer api s1 ?k ?k = (r, s2)" by fastforce
      with run eq Return have o: "out = Return r" "s' = s2" by auto
      define chs where "chs = (case view s ?k of Some (Some ch) \<Rightarrow> [ch] | _ \<Rightarrow> [])"
      have c: "set chs \<inter> closed s = {}" "closed s1 = set chs \<union> closed s"
        "trace s1 = trace s @ map CloseCh chs"
        using e(6) Return by (auto simp: chs_def split: option.splits if_splits)
      note st = api_stepD [OF removeFinalizer_step [OF r]]
      show ?thesis
        using st e o r c p by (intro outer(3) [of r s1 chs]) (auto simp: chs_def)
    qed
  qed
qed

end
