(* ===== verification/ManagerSafety.thy ===== *)
theory ManagerSafety imports Manager begin

text \<open>
  The manager over time. A run is a sequence of starts and stops in any order, on any objects,
  against any API server, interleaved with changes of the world outside: the informer may
  replace the objects of its cache at any moment and the server's state may change. The manager
  itself assumes that calls for one key never overlap; here no two calls overlap.

  The bookkeeping invariant says that a stop channel the starter handed over is either in the
  map, under one key, or closed, and closed once.
\<close>

section \<open>What the trace says about stop channels\<close>

definition accepted1 :: "effect \<Rightarrow> chan list" where
  "accepted1 e = (case e of StartCall u (Started (Some ch) None) \<Rightarrow> [ch] | _ \<Rightarrow> [])"

definition returned1 :: "effect \<Rightarrow> chan list" where
  "returned1 e = (case e of StartCall u (Started (Some ch) err) \<Rightarrow> [ch] | _ \<Rightarrow> [])"

definition closes1 :: "effect \<Rightarrow> chan list" where
  "closes1 e = (case e of CloseCh ch \<Rightarrow> [ch] | _ \<Rightarrow> [])"

text \<open>Channels that came with a successful start, that came with any result, and closings.\<close>

definition accepted :: "effect list \<Rightarrow> chan list" where
  "accepted es = concat (map accepted1 es)"

definition returned :: "effect list \<Rightarrow> chan list" where
  "returned es = concat (map returned1 es)"

definition closes :: "effect list \<Rightarrow> chan list" where
  "closes es = concat (map closes1 es)"

lemmas trace_fun_defs = accepted_def returned_def closes_def accepted1_def returned1_def closes1_def

lemma trace_fun_append [simp]:
  "accepted (es @ fs) = accepted es @ accepted fs"
  "returned (es @ fs) = returned es @ returned fs"
  "closes (es @ fs) = closes es @ closes fs"
  by (simp_all add: accepted_def returned_def closes_def)

lemma trace_fun_simps [simp]:
  "accepted [] = []" "returned [] = []" "closes [] = []"
  "accepted (StartCall u (Started (Some ch) None) # es) = ch # accepted es"
  "accepted (StartCall u (Started c (Some e)) # es) = accepted es"
  "accepted (StartCall u (Started None err) # es) = accepted es"
  "accepted (StartCall u (StarterPanic m) # es) = accepted es"
  "returned (StartCall u (Started (Some ch) err) # es) = ch # returned es"
  "closes (CloseCh ch # es) = ch # closes es"
  "closes (StartCall u q # es) = closes es"
  "accepted (CloseCh ch # es) = accepted es"
  "accepted (ApiGet n r # es) = accepted es" "accepted (ApiUpdate v r # es) = accepted es"
  "closes (ApiGet n r # es) = closes es" "closes (ApiUpdate v r # es) = closes es"
  by (simp_all add: trace_fun_defs split: option.splits)

lemma api_effects_no_channels:
  assumes "list_all is_api_effect es"
  shows "accepted es = []" and "closes es = []"
  using assms
  by (induction es) (auto simp: trace_fun_defs is_api_effect_def split: effect.splits)

lemma accepted_subset_returned: "set (accepted es) \<subseteq> set (returned es)"
  by (induction es)
    (auto simp: trace_fun_defs split: effect.splits start_result.splits option.splits)

lemma closes_map_CloseCh [simp]: "closes (map CloseCh chs) = chs" "accepted (map CloseCh chs) = []"
  by (induction chs) simp_all

lemma ensured_state_effects:
  assumes "ensured_state s pc s' es"
  shows "accepted es = []" and "closes es = []" and "closed s' = closed s"
    and "finalizerName s' = finalizerName s"
  using assms by (auto simp: ensured_state_def split: if_splits)

section \<open>Steps and the invariant\<close>

text \<open>The channels the starter returned during a step are new: they were not returned before.\<close>

definition fresh_channels :: "'w mstate \<Rightarrow> 'w mstate \<Rightarrow> bool" where
  "fresh_channels s s' \<longleftrightarrow>
     set (returned (drop (length (trace s)) (trace s'))) \<inter> set (returned (trace s)) = {}"

inductive mgr_step :: "'w api \<Rightarrow> 'w starter \<Rightarrow> 'w mstate \<Rightarrow> 'w mstate \<Rightarrow> bool"
  for api :: "'w api" and st :: "'w starter" where
  start: "StartControllersForProviderConfig api st s pc = (out, s') \<Longrightarrow> fresh_channels s s' \<Longrightarrow>
    mgr_step api st s s'"
| stop: "StopControllersForProviderConfig api s pc = (out, s') \<Longrightarrow> mgr_step api st s s'"
| outside: "mgr_step api st s (s\<lparr>objs := heap, world := w\<rparr>)"

inductive reachable :: "'w api \<Rightarrow> 'w starter \<Rightarrow> 'w mstate \<Rightarrow> bool"
  for api :: "'w api" and st :: "'w starter" where
  init: "reachable api st (newManager fin heap w)"
| step: "reachable api st s \<Longrightarrow> mgr_step api st s s' \<Longrightarrow> reachable api st s'"

definition running :: "'w mstate \<Rightarrow> chan set" where
  "running s = {ch. \<exists>k. view s k = Some (Some ch)}"

definition mgr_inv :: "'w mstate \<Rightarrow> bool" where
  "mgr_inv s \<longleftrightarrow>
     cm_inv (controllers s) \<and>
     (\<forall>k k' ch. view s k = Some (Some ch) \<longrightarrow> view s k' = Some (Some ch) \<longrightarrow> k = k') \<and>
     running s \<inter> closed s = {} \<and>
     running s \<union> closed s = set (accepted (trace s)) \<and>
     set (closes (trace s)) = closed s \<and> distinct (closes (trace s))"

lemma mgr_inv_cm_inv: "mgr_inv s \<Longrightarrow> cm_inv (controllers s)"
  by (simp add: mgr_inv_def)

text \<open>The invariant looks only at the map, the closed channels and the trace.\<close>

lemma mgr_inv_same:
  assumes "mgr_inv s" and "cm_inv (controllers s')"
    and "\<And>k ch. view s' k = Some (Some ch) \<longleftrightarrow> view s k = Some (Some ch)"
    and "closed s' = closed s" and "accepted (trace s') = accepted (trace s)"
    and "closes (trace s') = closes (trace s)"
  shows "mgr_inv s'"
proof -
  have "running s' = running s" using assms(3) by (simp add: running_def)
  with assms show ?thesis unfolding mgr_inv_def by simp
qed

lemma mgr_inv_init: "mgr_inv (newManager fin heap w)"
  using cms.inv_empty cms.view_empty
  by (auto simp: mgr_inv_def newManager_def view_def running_def)

text \<open>A started controller: a new channel enters the map.\<close>

lemma mgr_inv_started:
  assumes inv: "mgr_inv s" and cm: "cm_inv (controllers s')"
    and idle: "view s k \<in> {None, Some None}" and view: "view s' = (view s)(k \<mapsto> Some ch)"
    and new: "ch \<notin> set (accepted (trace s))"
    and cl: "closed s' = closed s" "accepted (trace s') = accepted (trace s) @ [ch]"
      "closes (trace s') = closes (trace s)"
  shows "mgr_inv s'"
proof -
  have run: "running s' = insert ch (running s)"
    using idle unfolding running_def view
    by (auto split: if_splits) (metis option.distinct(1) option.inject)+
  have "ch \<notin> running s" and "ch \<notin> closed s" using new inv by (auto simp: mgr_inv_def)
  then have inj: "\<forall>k1 k2 c. view s' k1 = Some (Some c) \<longrightarrow> view s' k2 = Some (Some c) \<longrightarrow> k1 = k2"
    using inv unfolding view mgr_inv_def running_def by (auto split: if_splits)
  show ?thesis
    using inv cm cl inj run \<open>ch \<notin> closed s\<close> unfolding mgr_inv_def by auto
qed

text \<open>A stopped controller: its channel leaves the map and is closed.\<close>

lemma mgr_inv_stopped:
  assumes inv: "mgr_inv s" and cm: "cm_inv (controllers s')"
    and view: "view s' = (view s)(k := None)"
    and chs: "chs = (case view s k of Some (Some ch) \<Rightarrow> [ch] | _ \<Rightarrow> [])"
    and cl: "closed s' = set chs \<union> closed s" "accepted (trace s') = accepted (trace s)"
      "closes (trace s') = closes (trace s) @ chs"
  shows "mgr_inv s'"
proof (cases "\<exists>ch. view s k = Some (Some ch)")
  case True
  then obtain ch where ch: "view s k = Some (Some ch)" by blast
  then have c: "chs = [ch]" by (simp add: chs)
  have inj: "\<And>k1 k2 c. view s k1 = Some (Some c) \<Longrightarrow> view s k2 = Some (Some c) \<Longrightarrow> k1 = k2"
    using inv by (simp add: mgr_inv_def)
  have run: "running s' = running s - {ch}" and "ch \<in> running s"
    using ch inj unfolding running_def view by (auto split: if_splits) (metis option.inject)
  have new: "ch \<notin> closed s" using inv \<open>ch \<in> running s\<close> by (auto simp: mgr_inv_def)
  have inj': "\<forall>k1 k2 c. view s' k1 = Some (Some c) \<longrightarrow> view s' k2 = Some (Some c) \<longrightarrow> k1 = k2"
    using inj unfolding view by (auto split: if_splits)
  show ?thesis
    using inv cm cl c run new inj' \<open>ch \<in> running s\<close> unfolding mgr_inv_def by auto
next
  case False
  then have "chs = []" by (auto simp: chs split: option.splits)
  show ?thesis
    by (rule mgr_inv_same [OF inv cm]) (use False cl \<open>chs = []\<close> view in auto)
qed

lemma mgr_inv_start:
  assumes inv: "mgr_inv s" and run: "StartControllersForProviderConfig api st s pc = (out, s')"
    and fresh: "fresh_channels s s'"
  shows "mgr_inv s'"
  using mgr_inv_cm_inv [OF inv] run
proof (cases rule: Start_cases)
  case (not_ensured e)
  show ?thesis by (rule mgr_inv_same [OF inv]) (use not_ensured in simp_all)
next
  case (panicked msg es u)
  note ens = ensured_state_effects [OF panicked(7)]
  show ?thesis by (rule mgr_inv_same [OF inv]) (use panicked ens in auto)
next
  case (failed ch err e es fs u)
  note ens = ensured_state_effects [OF failed(7)] and none = api_effects_no_channels [OF failed(11)]
  have "accepted (StartCall u (Started ch err) # fs) = accepted fs" using failed(10) by auto
  with failed ens none show ?thesis by (intro mgr_inv_same [OF inv]) simp_all
next
  case (started ch es u)
  note ens = ensured_state_effects [OF started(7)]
  have "ch \<notin> set (returned (trace s))" using fresh started(8) by (auto simp: fresh_channels_def)
  then have "ch \<notin> set (accepted (trace s))" using accepted_subset_returned by blast
  with started ens show ?thesis by (intro mgr_inv_started [OF inv]) simp_all
qed (use inv in simp_all)

lemma removeFinalizer_no_channels:
  assumes "removeFinalizer api s n k = (r, s')"
  shows "accepted (trace s') = accepted (trace s)" and "closes (trace s') = closes (trace s)"
  using removeFinalizer_step [OF assms] by (auto simp: api_step_def api_effects_no_channels)

lemma mgr_inv_stop:
  assumes inv: "mgr_inv s" and run: "StopControllersForProviderConfig api s pc = (out, s')"
  shows "mgr_inv s'"
  using mgr_inv_cm_inv [OF inv] run
proof (cases rule: Stop_cases)
  case wrong_kind
  with inv show ?thesis by simp
next
  case (double_close ch)
  with inv have False by (auto simp: mgr_inv_def running_def)
  then show ?thesis ..
next
  case (stopped r chs s1)
  note none = removeFinalizer_no_channels [OF stopped(3)]
  show ?thesis
    by (rule mgr_inv_stopped [OF inv stopped(4,5,8,10)]) (use none stopped(13) in simp_all)
qed

lemma mgr_inv_step: "mgr_step api st s s' \<Longrightarrow> mgr_inv s \<Longrightarrow> mgr_inv s'"
proof (induction rule: mgr_step.induct)
  case (start s pc out s')
  show ?case by (rule mgr_inv_start [OF start(3,1,2)])
next
  case (stop s pc out s')
  show ?case by (rule mgr_inv_stop [OF stop(2,1)])
next
  case (outside s heap w)
  show ?case by (rule mgr_inv_same [OF outside]) (use mgr_inv_cm_inv [OF outside] in \<open>simp_all add: view_def\<close>)
qed

lemma reachable_inv: "reachable api st s \<Longrightarrow> mgr_inv s"
  by (induction rule: reachable.induct) (auto intro: mgr_inv_init mgr_inv_step)

lemma reachable_cm_inv: "reachable api st s \<Longrightarrow> cm_inv (controllers s)"
  by (rule mgr_inv_cm_inv [OF reachable_inv])

end
