(* ===== verification/ObjectTracker.thy ===== *)
theory ObjectTracker imports MTPrelude Unstructured begin

text \<open>
  The object tracker behind the fake clients (\<open>vendor/k8s.io/client-go/testing/fixture.go\<close>), for
  cluster-scoped resources read through the dynamic client: the objects stored per resource,
  namespace and name, with a resource version per resource, and the watchers told of every change
  (\<open>RaceFreeFakeWatcher\<close> of \<open>vendor/k8s.io/apimachinery/pkg/watch/watch.go\<close>). It is the server the
  witnesses of the manager run against, and the typed fake clients use it too.

  Objects are values here, so the deep copies of the code are the identity. An object whose
  namespace is empty takes the namespace of the request; all requests of the framework are
  cluster-scoped, so \<open>ns\<close> is empty and an object with a namespace is refused.
\<close>

section \<open>Resources and errors\<close>

record GroupVersionResource =
  gvr_group :: string
  gvr_version :: string
  gvr_resource :: string

definition GroupResource_String :: "GroupVersionResource \<Rightarrow> string" where
  "GroupResource_String r =
     (if gvr_group r = [] then gvr_resource r else gvr_resource r @ ''.'' @ gvr_group r)"

text \<open>The quoting \<open>%q\<close> of a name without characters to escape.\<close>

definition quoted :: "string \<Rightarrow> string" where
  "quoted s = [CHR 0x22] @ s @ [CHR 0x22]"

definition NewNotFound :: "GroupVersionResource \<Rightarrow> string \<Rightarrow> go_error" where
  "NewNotFound r name = ApiStatus ''NotFound'' (GroupResource_String r @ '' '' @ quoted name @ '' not found'')"

definition NewAlreadyExists :: "GroupVersionResource \<Rightarrow> string \<Rightarrow> go_error" where
  "NewAlreadyExists r name =
     ApiStatus ''AlreadyExists'' (GroupResource_String r @ '' '' @ quoted name @ '' already exists'')"

definition NewBadRequest :: "string \<Rightarrow> go_error" where
  "NewBadRequest reason = ApiStatus ''BadRequest'' reason"

lemma IsNotFound_constructors [simp]:
  "IsNotFound (NewNotFound r n)" "\<not> IsNotFound (NewAlreadyExists r n)" "\<not> IsNotFound (NewBadRequest m)"
  by (simp_all add: NewNotFound_def NewAlreadyExists_def NewBadRequest_def)

section \<open>Watchers\<close>

text \<open>
  A watcher is its buffered channel and whether it was stopped, which closes the channel. Sending to a
  full channel panics, so no send ever blocks.
\<close>

datatype 'o watch_event = Added_event 'o | Modified_event 'o | Deleted_event 'o

record 'o fake_watcher =
  rw_result :: "'o watch_event list"
  rw_Stopped :: bool

definition DefaultChanSize :: nat where
  "DefaultChanSize = 100"

definition NewRaceFreeFake :: "'o fake_watcher" where
  "NewRaceFreeFake = \<lparr>rw_result = [], rw_Stopped = False\<rparr>"

definition watcher_Action :: "'o watch_event \<Rightarrow> 'o fake_watcher \<Rightarrow> 'o fake_watcher outcome" where
  "watcher_Action ev f =
     (if rw_Stopped f then Return f
      else if length (rw_result f) < DefaultChanSize then Return (f\<lparr>rw_result := rw_result f @ [ev]\<rparr>)
      else Panic ''channel full'')"

definition watcher_Stop :: "'o fake_watcher \<Rightarrow> 'o fake_watcher" where
  "watcher_Stop f = f\<lparr>rw_Stopped := True\<rparr>"

text \<open>
  A receive from \<open>ResultChan()\<close>: the oldest event; none and the channel is closed; or it would block.
\<close>

datatype 'o received = Rcv_event 'o | Rcv_closed | Rcv_blocked

definition watcher_receive :: "'o fake_watcher \<Rightarrow> 'o watch_event received \<times> 'o fake_watcher" where
  "watcher_receive f =
     (case rw_result f of
        ev # evs \<Rightarrow> (Rcv_event ev, f\<lparr>rw_result := evs\<rparr>)
      | [] \<Rightarrow> (if rw_Stopped f then Rcv_closed else Rcv_blocked, f))"

section \<open>The tracker\<close>

text \<open>How the tracker reads an object's metadata: \<open>meta.Accessor\<close>.\<close>

record 'o accessor =
  acc_namespace :: "'o \<Rightarrow> string"
  acc_name :: "'o \<Rightarrow> string"
  acc_set_namespace :: "'o \<Rightarrow> string \<Rightarrow> 'o"

text \<open>\<open>tr_chans\<close> holds the watchers made so far: a watcher is referred to by its position.\<close>

record 'o tracker =
  tr_objects :: "GroupVersionResource \<Rightarrow> string \<times> string \<rightharpoonup> nat \<times> 'o"
  tr_versions :: "GroupVersionResource \<rightharpoonup> nat"
  tr_watchers :: "GroupVersionResource \<Rightarrow> string \<Rightarrow> nat list"
  tr_chans :: "'o fake_watcher list"

definition newTracker :: "'o tracker" where
  "newTracker = \<lparr>tr_objects = (\<lambda>_. Map.empty), tr_versions = Map.empty, tr_watchers = (\<lambda>_ _. []), tr_chans = []\<rparr>"

definition tracker_Get ::
  "'o tracker \<Rightarrow> GroupVersionResource \<Rightarrow> string \<Rightarrow> string \<Rightarrow> go_error + 'o" where
  "tracker_Get t gvr ns name =
     (case tr_objects t gvr (ns, name) of
        None \<Rightarrow> Inl (NewNotFound gvr name)
      | Some (rv, ob) \<Rightarrow> Inr ob)"

definition getWatches :: "'o tracker \<Rightarrow> GroupVersionResource \<Rightarrow> string \<Rightarrow> nat list" where
  "getWatches t gvr ns = tr_watchers t gvr ns @ (if ns \<noteq> [] then tr_watchers t gvr [] else [])"

text \<open>The loop that tells the watchers. A panic leaves the later ones untold, and what was stored stored.\<close>

fun notify_watchers :: "'o watch_event \<Rightarrow> nat list \<Rightarrow> 'o tracker \<Rightarrow> error outcome \<times> 'o tracker" where
  "notify_watchers ev [] t = (Return None, t)"
| "notify_watchers ev (w # ws) t =
     (case watcher_Action ev (tr_chans t ! w) of
        Panic msg \<Rightarrow> (Panic msg, t)
      | Return f \<Rightarrow> notify_watchers ev ws (t\<lparr>tr_chans := (tr_chans t)[w := f]\<rparr>))"

definition tracker_add ::
  "'o accessor \<Rightarrow> 'o tracker \<Rightarrow> GroupVersionResource \<Rightarrow> 'o \<Rightarrow> string \<Rightarrow> bool \<Rightarrow> error outcome \<times> 'o tracker" where
  "tracker_add acc t gvr ob ns replaceExisting =
     (let ob = (if acc_namespace acc ob = [] then acc_set_namespace acc ob ns else ob)
      in if ns \<noteq> acc_namespace acc ob
         then (Return (Some (NewBadRequest (''request namespace does not match object namespace, request: ''
                 @ quoted ns @ '' object: '' @ quoted (acc_namespace acc ob)))), t)
         else
           let resourceVersion = Suc (case tr_versions t gvr of None \<Rightarrow> 1 | Some v \<Rightarrow> v);
               key = (acc_namespace acc ob, acc_name acc ob);
               t' = t\<lparr>tr_versions := (tr_versions t)(gvr \<mapsto> resourceVersion),
                      tr_objects := (tr_objects t)
                        (gvr := (tr_objects t gvr)(key \<mapsto> (resourceVersion, ob)))\<rparr>
           in if tr_objects t gvr key \<noteq> None
              then if replaceExisting then notify_watchers (Modified_event ob) (getWatches t' gvr ns) t'
                   else (Return (Some (NewAlreadyExists gvr (acc_name acc ob))), t)
              else if replaceExisting then (Return (Some (NewNotFound gvr (acc_name acc ob))), t)
                   else notify_watchers (Added_event ob) (getWatches t' gvr ns) t')"

definition tracker_Delete ::
  "'o tracker \<Rightarrow> GroupVersionResource \<Rightarrow> string \<Rightarrow> string \<Rightarrow> error outcome \<times> 'o tracker" where
  "tracker_Delete t gvr ns name =
     (case tr_objects t gvr (ns, name) of
        None \<Rightarrow> (Return (Some (NewNotFound gvr name)), t)
      | Some (rv, ob) \<Rightarrow>
          let t' = t\<lparr>tr_objects := (tr_objects t)(gvr := (tr_objects t gvr)((ns, name) := None))\<rparr>
          in notify_watchers (Deleted_event ob) (getWatches t' gvr ns) t')"

text \<open>After a write, the reactors return the error or what they do next.\<close>

definition after_write ::
  "error outcome \<times> 'o tracker \<Rightarrow> ('o tracker \<Rightarrow> go_error + 'o) \<Rightarrow> (go_error + 'o) outcome \<times> 'o tracker" where
  "after_write r k =
     (case r of
        (Panic msg, t) \<Rightarrow> (Panic msg, t)
      | (Return (Some e), t) \<Rightarrow> (Return (Inl e), t)
      | (Return None, t) \<Rightarrow> (Return (k t), t))"

text \<open>The reactor's create and update (without a subresource): store, then read back.\<close>

definition reactor_Update ::
  "'o accessor \<Rightarrow> 'o tracker \<Rightarrow> GroupVersionResource \<Rightarrow> string \<Rightarrow> 'o \<Rightarrow> (go_error + 'o) outcome \<times> 'o tracker" where
  "reactor_Update acc t gvr ns ob =
     after_write (tracker_add acc t gvr ob ns True) (\<lambda>t. tracker_Get t gvr ns (acc_name acc ob))"

definition reactor_Create ::
  "'o accessor \<Rightarrow> 'o tracker \<Rightarrow> GroupVersionResource \<Rightarrow> string \<Rightarrow> 'o \<Rightarrow> (go_error + 'o) outcome \<times> 'o tracker" where
  "reactor_Create acc t gvr ns ob =
     after_write (tracker_add acc t gvr ob ns False) (\<lambda>t. tracker_Get t gvr ns (acc_name acc ob))"

text \<open>A tracker that nobody watches never panics.\<close>

definition unwatched :: "'o tracker \<Rightarrow> bool" where
  "unwatched t \<longleftrightarrow> tr_watchers t = (\<lambda>_ _. [])"

lemma newTracker_unwatched: "unwatched newTracker"
  by (simp add: unwatched_def newTracker_def)

lemma unwatched_getWatches: "unwatched t \<Longrightarrow> getWatches t gvr ns = []"
  by (simp add: unwatched_def getWatches_def)

section \<open>Delivery\<close>

text \<open>What a notification does when no watcher is full: each of the watchers gets the event, in its order.\<close>

definition room :: "'o fake_watcher \<Rightarrow> bool" where
  "room w \<longleftrightarrow> rw_Stopped w \<or> length (rw_result w) < DefaultChanSize"

definition push :: "'o watch_event \<Rightarrow> 'o fake_watcher \<Rightarrow> 'o fake_watcher" where
  "push ev w = (if rw_Stopped w then w else w\<lparr>rw_result := rw_result w @ [ev]\<rparr>)"

definition delivered :: "'o watch_event \<Rightarrow> nat list \<Rightarrow> 'o fake_watcher list \<Rightarrow> 'o fake_watcher list" where
  "delivered ev rs cs = map (\<lambda>r. if r \<in> set rs then push ev (cs ! r) else cs ! r) [0..<length cs]"

lemma length_delivered [simp]: "length (delivered ev rs cs) = length cs"
  by (simp add: delivered_def)

lemma delivered_nth: "r < length cs \<Longrightarrow> delivered ev rs cs ! r = (if r \<in> set rs then push ev (cs ! r) else cs ! r)"
  by (simp add: delivered_def)

lemma delivered_Nil [simp]: "delivered ev [] cs = cs"
  by (simp add: delivered_def map_nth)

lemma delivered_Cons:
  "w \<notin> set ws \<Longrightarrow> w < length cs \<Longrightarrow> delivered ev (w # ws) cs = delivered ev ws (cs[w := push ev (cs ! w)])"
  by (rule nth_equalityI) (auto simp: delivered_nth nth_list_update)

lemma watcher_Action_room: "room w \<Longrightarrow> watcher_Action ev w = Return (push ev w)"
  by (auto simp: room_def watcher_Action_def push_def)

lemma notify_room:
  assumes "distinct rs" "\<forall>r\<in>set rs. r < length (tr_chans t) \<and> room (tr_chans t ! r)"
  shows "notify_watchers ev rs t = (Return None, t\<lparr>tr_chans := delivered ev rs (tr_chans t)\<rparr>)"
  using assms
proof (induction rs arbitrary: t)
  case Nil
  then show ?case by simp
next
  case (Cons w ws)
  let ?t = "t\<lparr>tr_chans := (tr_chans t)[w := push ev (tr_chans t ! w)]\<rparr>"
  have "notify_watchers ev ws ?t = (Return None, ?t\<lparr>tr_chans := delivered ev ws (tr_chans ?t)\<rparr>)"
    by (rule Cons.IH) (use Cons.prems in \<open>auto simp: nth_list_update\<close>)
  with Cons.prems show ?case by (simp add: watcher_Action_room delivered_Cons)
qed

text \<open>Each watcher is registered once, for one resource and namespace.\<close>

definition watchers_ok :: "'o tracker \<Rightarrow> bool" where
  "watchers_ok t \<longleftrightarrow> (\<forall>gvr ns. distinct (tr_watchers t gvr ns)
       \<and> (\<forall>r\<in>set (tr_watchers t gvr ns). r < length (tr_chans t)))
     \<and> (\<forall>gvr ns gvr' ns' r. r \<in> set (tr_watchers t gvr ns) \<and> r \<in> set (tr_watchers t gvr' ns')
         \<longrightarrow> gvr = gvr' \<and> ns = ns')"

lemma getWatches_ok:
  assumes "watchers_ok t"
  shows "distinct (getWatches t gvr ns)" "r \<in> set (getWatches t gvr ns) \<Longrightarrow> r < length (tr_chans t)"
proof -
  have "set (tr_watchers t gvr ns) \<inter> set (tr_watchers t gvr []) = {}" if "ns \<noteq> []"
    using assms that unfolding watchers_ok_def by blast
  then show "distinct (getWatches t gvr ns)" using assms unfolding watchers_ok_def getWatches_def by simp
  show "r \<in> set (getWatches t gvr ns) \<Longrightarrow> r < length (tr_chans t)"
    using assms unfolding watchers_ok_def getWatches_def by (auto split: if_splits)
qed

definition room_for :: "'o tracker \<Rightarrow> GroupVersionResource \<Rightarrow> string \<Rightarrow> bool" where
  "room_for t gvr ns \<longleftrightarrow> (\<forall>r\<in>set (getWatches t gvr ns). room (tr_chans t ! r))"

lemma unwatched_room: "unwatched t \<Longrightarrow> room_for t gvr ns"
  by (simp add: room_for_def unwatched_getWatches)

text \<open>A full watcher makes it panic. In any case only channels change.\<close>

lemma notify_frame: "notify_watchers ev rs t = (r, t') \<Longrightarrow> \<exists>cs. length cs = length (tr_chans t) \<and> t' = t\<lparr>tr_chans := cs\<rparr>"
proof (induction rs arbitrary: t)
  case Nil
  then show ?case by (auto intro: exI [of _ "tr_chans t"])
next
  case (Cons w ws)
  show ?case
  proof (cases "watcher_Action ev (tr_chans t ! w)")
    case (Return f)
    with Cons.prems have "notify_watchers ev ws (t\<lparr>tr_chans := (tr_chans t)[w := f]\<rparr>) = (r, t')" by simp
    from Cons.IH [OF this] show ?thesis by auto
  next
    case (Panic msg)
    with Cons.prems show ?thesis by (auto intro: exI [of _ "tr_chans t"])
  qed
qed

lemma notify_full:
  assumes "distinct rs" "\<exists>r\<in>set rs. \<not> room (tr_chans t ! r)" "\<forall>r\<in>set rs. r < length (tr_chans t)"
  shows "fst (notify_watchers ev rs t) = Panic ''channel full''"
  using assms
proof (induction rs arbitrary: t)
  case Nil
  then show ?case by simp
next
  case (Cons w ws)
  show ?case
  proof (cases "room (tr_chans t ! w)")
    case True
    then have "fst (notify_watchers ev ws (t\<lparr>tr_chans := (tr_chans t)[w := push ev (tr_chans t ! w)]\<rparr>)) = Panic ''channel full''"
      by (intro Cons.IH) (use Cons.prems in \<open>auto simp: nth_list_update\<close>)
    with True show ?thesis by (simp add: watcher_Action_room)
  next
    case False
    then show ?thesis by (simp add: watcher_Action_def room_def)
  qed
qed

text \<open>Telling the watchers of a namespace, after a change that left the watchers alone.\<close>

lemma notify_watches:
  assumes "watchers_ok t" "tr_watchers t1 = tr_watchers t" "tr_chans t1 = tr_chans t"
  obtains cs where "notify_watchers ev (getWatches t1 gvr ns) t1 =
      (if room_for t gvr ns then Return None else Panic ''channel full'', t1\<lparr>tr_chans := cs\<rparr>)"
    "length cs = length (tr_chans t)" "room_for t gvr ns \<longrightarrow> cs = delivered ev (getWatches t gvr ns) (tr_chans t)"
proof -
  have same: "getWatches t1 gvr ns = getWatches t gvr ns" by (simp add: getWatches_def assms(2))
  have valid: "\<forall>r\<in>set (getWatches t gvr ns). r < length (tr_chans t1)" using getWatches_ok [OF assms(1)] assms(3) by simp
  show thesis
  proof (cases "room_for t gvr ns")
    case True
    then show thesis
      using that [of "delivered ev (getWatches t gvr ns) (tr_chans t)"] notify_room [where rs = "getWatches t gvr ns" and t = t1, OF getWatches_ok(1) [OF assms(1)]] valid
      by (simp add: same assms(3) room_for_def)
  next
    case False
    then have full: "fst (notify_watchers ev (getWatches t gvr ns) t1) = Panic ''channel full''"
      using notify_full [OF getWatches_ok(1) [OF assms(1)] _ valid] by (simp add: room_for_def assms(3))
    obtain r t' where n: "notify_watchers ev (getWatches t gvr ns) t1 = (r, t')" by (cases "notify_watchers ev (getWatches t gvr ns) t1")
    obtain cs where "length cs = length (tr_chans t1)" "t' = t1\<lparr>tr_chans := cs\<rparr>" using notify_frame [OF n] by blast
    with n full False that [of cs] show thesis by (simp add: same assms(3))
  qed
qed

section \<open>Unstructured objects\<close>

text \<open>\<open>SetNamespace\<close>: the empty namespace removes the field.\<close>

definition SetNamespace :: "obj \<Rightarrow> string \<Rightarrow> obj" where
  "SetNamespace u ns =
     (if ns = [] then RemoveNestedField u [''metadata''] ''namespace''
      else case setNestedFieldNoCopy [] u (JStr ns) [''metadata''] ''namespace'' of
             Inr u' \<Rightarrow> u' | Inl e \<Rightarrow> u)"

definition unstructured_accessor :: "obj accessor" where
  "unstructured_accessor =
     \<lparr>acc_namespace = GetNamespace, acc_name = GetName, acc_set_namespace = SetNamespace\<rparr>"

lemma unstructured_accessor_simps [simp]:
  "acc_namespace unstructured_accessor = GetNamespace" "acc_name unstructured_accessor = GetName"
  "acc_set_namespace unstructured_accessor = SetNamespace"
  by (simp_all add: unstructured_accessor_def)

lemma NestedFieldNoCopy_SetNamespace_empty [simp]:
  "f \<noteq> ''namespace'' \<Longrightarrow>
   NestedFieldNoCopy (SetNamespace u []) [''metadata'', f] = NestedFieldNoCopy u [''metadata'', f]"
  by (auto simp: SetNamespace_def NestedFieldNoCopy_def split: option.splits json.splits)

lemma SetNamespace_empty_frame [simp]:
  "GetName (SetNamespace u []) = GetName u"
  "GetFinalizers (SetNamespace u []) = GetFinalizers u"
  "GetLabels (SetNamespace u []) = GetLabels u"
  "GetDeletionTimestamp (SetNamespace u []) = GetDeletionTimestamp u"
  by (simp_all add: getter_defs GetFinalizers_def NestedStringSlice_def)

lemma GetNamespace_SetNamespace_empty [simp]: "GetNamespace (SetNamespace u []) = []"
  by (auto simp: getter_defs SetNamespace_def NestedFieldNoCopy_def split: option.splits json.splits)

text \<open>What a cluster-scoped update does, as one equation.\<close>

lemma reactor_Update_cluster:
  assumes "unwatched t" and "GetNamespace u = []" and "tr_objects t gvr ([], GetName u) \<noteq> None"
  shows "\<exists>t'. reactor_Update unstructured_accessor t gvr [] u = (Return (Inr (SetNamespace u [])), t') \<and> unwatched t' \<and>
           (\<forall>n. tracker_Get t' gvr [] n =
              (if n = GetName u then Inr (SetNamespace u []) else tracker_Get t gvr [] n))"
  using assms
  by (auto simp: reactor_Update_def after_write_def tracker_add_def tracker_Get_def Let_def getWatches_def unwatched_def
      split: option.splits)

lemma reactor_Update_absent:
  assumes "GetNamespace u = []" and "tr_objects t gvr ([], GetName u) = None"
  shows "reactor_Update unstructured_accessor t gvr [] u = (Return (Inl (NewNotFound gvr (GetName u))), t)"
  using assms by (simp add: reactor_Update_def after_write_def tracker_add_def Let_def)

lemma reactor_Update_namespaced:
  assumes "GetNamespace u \<noteq> []"
  shows "\<exists>m. reactor_Update unstructured_accessor t gvr [] u = (Return (Inl (NewBadRequest m)), t)"
  using assms unfolding reactor_Update_def after_write_def tracker_add_def Let_def by (intro exI) simp

end
