(* ===== verification/ConfigStore.thy ===== *)
theory ConfigStore imports Manager ObjectTracker begin

text \<open>
  What the manager relies on from the API server: the locale \<open>config_store\<close> states the laws of
  \<open>Get\<close> and \<open>Update\<close> on an abstract store of ProviderConfigs, and derives from them what a start
  and a stop do to the stored object. It is interpreted on the object tracker of client-go with
  faults prepended to it, as the repository's tests do: a call may be refused, or be carried out
  with its reply lost.
\<close>

section \<open>Where the world goes in a call\<close>

lemma ensureFinalizer_world:
  assumes "ensureFinalizer api s pc = (None, s1)"
  shows "\<exists>u. api_update api (world s) (ensured s pc) = (Inr u, world s1)"
  using assms
  by (auto simp: ensureFinalizer_def updateProviderConfig_def ensured_def Let_def
        split: prod.splits sum.splits)

lemma startAndRecord_world_ok:
  assumes "startAndRecord api st s pc k cs ex had = (Return None, s')"
  shows "world s' = snd (st (world s) (objs s pc))"
  using assms
  by (auto simp: startAndRecord_def callStarter_def Let_def
        split: prod.splits start_result.splits option.splits if_splits)

lemma removeFinalizer_world:
  assumes "removeFinalizer api s n k = (None, s')"
  shows "\<exists>r w. api_get api (world s) n = (r, w) \<and>
    (case r of
       Inl e \<Rightarrow> IsNotFound e \<and> world s' = w
     | Inr u \<Rightarrow>
         if Contains (GetFinalizers u) (finalizerName s)
         then \<exists>u'. api_update api w (released s u) = (Inr u', world s')
         else world s' = w)"
  using assms
  by (auto simp: removeFinalizer_def getProviderConfig_def updateProviderConfig_def released_def
        deleteFinalizer_def Let_def split: prod.splits sum.splits if_splits)

lemma rollback_eq:
  "rollbackFinalizerOnStartFailure api s u =
     (case api_get api (world s) (GetName u) of
        (Inl e, w) \<Rightarrow> s\<lparr>world := w, trace := trace s @ [ApiGet (GetName u) (Inl e)]\<rparr>
      | (Inr v, w) \<Rightarrow>
          if Contains (GetFinalizers v) (finalizerName s)
          then case api_update api w (released s v) of
                 (q, w') \<Rightarrow> s\<lparr>world := w', trace := trace s @
                     [ApiGet (GetName u) (Inr v), ApiUpdate (released s v) q]\<rparr>
          else s\<lparr>world := w, trace := trace s @ [ApiGet (GetName u) (Inr v)]\<rparr>)"
  unfolding rollbackFinalizerOnStartFailure_def getProviderConfig_def updateProviderConfig_def
    released_def deleteFinalizer_def Let_def
  by (auto split: prod.split sum.split)

text \<open>A call the server answered without an error.\<close>

definition api_ok :: "effect \<Rightarrow> bool" where
  "api_ok e = (case e of
     ApiGet n (Inl x) \<Rightarrow> IsNotFound x | ApiUpdate u (Inl x) \<Rightarrow> False | _ \<Rightarrow> True)"

lemma api_ok_simps [simp]:
  "api_ok (ApiGet n (Inr u))" "api_ok (ApiGet n (Inl e)) = IsNotFound e"
  "api_ok (ApiUpdate u (Inr v))" "\<not> api_ok (ApiUpdate u (Inl e))"
  by (simp_all add: api_ok_def)

lemma elems_released [simp]:
  "Contains (GetFinalizers u) (finalizerName s) \<Longrightarrow>
   elems (GetFinalizers (released s u)) =
     filter (\<lambda>f. f \<noteq> finalizerName s) (elems (GetFinalizers u))"
  by (simp add: released_def deleteFinalizer_def Contains_GetFinalizers_meta_ok)

lemma GetName_released [simp]: "GetName (released s u) = GetName u"
  by (simp add: released_def)

section \<open>The contract of the server\<close>

text \<open>
  \<open>stored w n\<close> is the object the server keeps under the name \<open>n\<close>. After a successful
  update the finalizers stored are the ones sent (none also when the server then deletes the
  object, which a real server does with the last finalizer of a deleted object). What an update that reports an error did to its object
  is left open. \<open>stored_fins\<close> reads the finalizers stored under a name, none if there is no object.
\<close>

definition stored_fins :: "(string \<rightharpoonup> obj) \<Rightarrow> string \<Rightarrow> string list" where
  "stored_fins m n = (case m n of None \<Rightarrow> [] | Some u \<Rightarrow> elems (GetFinalizers u))"

locale config_store =
  fixes api :: "'w api" and stored :: "'w \<Rightarrow> string \<rightharpoonup> obj" and ok :: "'w \<Rightarrow> bool"
  assumes get_found: "ok w \<Longrightarrow> api_get api w n = (Inr u, w') \<Longrightarrow> stored w n = Some u \<and> GetName u = n"
    and get_missing: "ok w \<Longrightarrow> api_get api w n = (Inl e, w') \<Longrightarrow> IsNotFound e \<Longrightarrow> stored w n = None"
    and get_keeps: "ok w \<Longrightarrow> api_get api w n = (r, w') \<Longrightarrow> ok w' \<and> stored w' = stored w"
    and update_ok: "ok w \<Longrightarrow> api_update api w u = (Inr v, w') \<Longrightarrow>
          stored_fins (stored w') (GetName u) = elems (GetFinalizers u)"
    and update_other: "ok w \<Longrightarrow> api_update api w u = (r, w') \<Longrightarrow> n \<noteq> GetName u \<Longrightarrow>
          stored w' n = stored w n"
    and update_wf: "ok w \<Longrightarrow> api_update api w u = (r, w') \<Longrightarrow> ok w'"
begin

lemma released_stored:
  assumes "ok w" and get: "api_get api w n = (Inr u, w1)" and "Contains (GetFinalizers u) (finalizerName s)"
    and upd: "api_update api w1 (released s u) = (Inr v, w2)"
  shows "stored_fins (stored w2) n = filter (\<lambda>f. f \<noteq> finalizerName s) (stored_fins (stored w) n)"
    and "\<And>n'. n' \<noteq> n \<Longrightarrow> stored w2 n' = stored w n'"
proof -
  have u: "stored w n = Some u" "GetName u = n" using get_found [OF assms(1) get] by simp_all
  have w1: "ok w1" "stored w1 = stored w" using get_keeps [OF assms(1) get] by simp_all
  show "stored_fins (stored w2) n = filter (\<lambda>f. f \<noteq> finalizerName s) (stored_fins (stored w) n)"
    using update_ok [OF w1(1) upd] u assms(3) by (simp add: stored_fins_def)
  show "stored w2 n' = stored w n'" if "n' \<noteq> n" for n'
    using update_other [OF w1(1) upd, of n'] u w1 that by simp
qed

text \<open>A finalizer removal that reports success leaves all finalizers but the manager's.\<close>

lemma removeFinalizer_stored_aux:
  assumes ok: "ok (world s)" and "removeFinalizer api s n k = (None, s')"
  shows "stored_fins (stored (world s')) n =
      filter (\<lambda>f. f \<noteq> finalizerName s) (stored_fins (stored (world s)) n) \<and>
    (\<forall>n'. n' \<noteq> n \<longrightarrow> stored (world s') n' = stored (world s) n')"
proof -
  obtain r w where g: "api_get api (world s) n = (r, w)"
    and c: "case r of Inl e \<Rightarrow> IsNotFound e \<and> world s' = w
      | Inr u \<Rightarrow> if Contains (GetFinalizers u) (finalizerName s)
                then \<exists>u'. api_update api w (released s u) = (Inr u', world s') else world s' = w"
    using removeFinalizer_world [OF assms(2)] by blast
  note keep = get_keeps [OF ok g]
  show ?thesis
  proof (cases r)
    case (Inl e)
    with g c have "stored (world s) n = None" "world s' = w" by (auto intro: get_missing [OF ok])
    with keep show ?thesis by (simp add: stored_fins_def)
  next
    case (Inr u)
    note g' = g [unfolded Inr]
    show ?thesis
    proof (cases "Contains (GetFinalizers u) (finalizerName s)")
      case True
      with c Inr obtain u' where "api_update api w (released s u) = (Inr u', world s')" by auto
      from released_stored [OF ok g' True this] show ?thesis by simp
    next
      case False
      with c Inr have "world s' = w" by simp
      with keep get_found [OF ok g'] filter_neq_not_Contains [OF False]
      show ?thesis by (simp add: stored_fins_def)
    qed
  qed
qed

lemmas removeFinalizer_stored =
  removeFinalizer_stored_aux [THEN conjunct1] removeFinalizer_stored_aux [THEN conjunct2, rule_format]

text \<open>A rollback whose calls the server answered takes the finalizer off again.\<close>

lemma rollback_stored:
  assumes ok: "ok (world s)"
    and "trace (rollbackFinalizerOnStartFailure api s u) = trace s @ es" and "list_all api_ok es"
  shows "stored_fins (stored (world (rollbackFinalizerOnStartFailure api s u))) (GetName u) =
    filter (\<lambda>f. f \<noteq> finalizerName s) (stored_fins (stored (world s)) (GetName u))"
proof -
  let ?n = "GetName u"
  obtain r w where g: "api_get api (world s) ?n = (r, w)" by fastforce
  note keep = get_keeps [OF ok g]
  show ?thesis
  proof (cases r)
    case (Inl e)
    with g have "rollbackFinalizerOnStartFailure api s u =
      s\<lparr>world := w, trace := trace s @ [ApiGet ?n (Inl e)]\<rparr>" by (simp add: rollback_eq)
    with assms g Inl have "stored (world s) ?n = None" by (auto intro: get_missing)
    with keep g Inl show ?thesis by (simp add: rollback_eq stored_fins_def)
  next
    case (Inr v)
    note g' = g [unfolded Inr]
    show ?thesis
    proof (cases "Contains (GetFinalizers v) (finalizerName s)")
      case True
      obtain q w' where q: "api_update api w (released s v) = (q, w')" by fastforce
      with g Inr True have eq: "rollbackFinalizerOnStartFailure api s u =
        s\<lparr>world := w', trace := trace s @ [ApiGet ?n (Inr v), ApiUpdate (released s v) q]\<rparr>"
        by (simp add: rollback_eq)
      with assms obtain v' where "q = Inr v'" by (cases q) auto
      with released_stored [OF ok g' True] q eq show ?thesis by simp
    next
      case False
      with keep get_found [OF ok g'] g Inr filter_neq_not_Contains [OF False]
      show ?thesis by (simp add: rollback_eq stored_fins_def)
    qed
  qed
qed

text \<open>A finalizer the start added is in the store before the starter runs.\<close>

lemma ensureFinalizer_stored:
  assumes ok: "ok (world s)" and "ensureFinalizer api s pc = (None, s1)" and "meta_ok (objs s pc)"
  shows "stored_fins (stored (world s1)) (key_of s pc) =
    elems (GetFinalizers (objs s pc)) @ [finalizerName s]" and "ok (world s1)"
proof -
  obtain u where u: "api_update api (world s) (ensured s pc) = (Inr u, world s1)"
    using ensureFinalizer_world [OF assms(2)] by blast
  from update_ok [OF ok u] assms(3)
  show "stored_fins (stored (world s1)) (key_of s pc) =
    elems (GetFinalizers (objs s pc)) @ [finalizerName s]"
    by (simp add: ensured_def key_of_def)
  show "ok (world s1)" by (rule update_wf [OF ok u])
qed

end

section \<open>The object tracker with faults\<close>

definition providerConfigGVR :: GroupVersionResource where
  "providerConfigGVR =
     \<lparr>gvr_group = ''cloud.gke.io'', gvr_version = ''v1'', gvr_resource = ''providerconfigs''\<rparr>"

text \<open>
  The script says what happens to the next calls: \<open>Pass\<close> lets a call through, \<open>Refuse\<close> fails it,
  \<open>LoseReply\<close> carries it out and reports an error all the same. After its end all calls pass.
\<close>

datatype fault = Pass | Refuse string | LoseReply string

record server =
  srv_tracker :: "obj tracker"
  srv_script :: "fault list"

definition with_fault ::
  "server \<Rightarrow> (obj tracker \<Rightarrow> (go_error + obj) \<times> obj tracker) \<Rightarrow> (go_error + obj) \<times> server" where
  "with_fault w f =
     (case f (srv_tracker w) of
        (r, t) \<Rightarrow>
          (case srv_script w of
             [] \<Rightarrow> (r, w\<lparr>srv_tracker := t\<rparr>)
           | Pass # rest \<Rightarrow> (r, \<lparr>srv_tracker = t, srv_script = rest\<rparr>)
           | Refuse msg # rest \<Rightarrow> (Inl (ApiStatus ''InternalError'' msg), w\<lparr>srv_script := rest\<rparr>)
           | LoseReply msg # rest \<Rightarrow>
               (Inl (ApiStatus ''InternalError'' msg), \<lparr>srv_tracker = t, srv_script = rest\<rparr>)))"

text \<open>The answer of a tracker nobody watches, which never panics.\<close>

definition answered :: "(go_error + 'a) outcome \<times> 's \<Rightarrow> (go_error + 'a) \<times> 's" where
  "answered r = (case r of (Return x, s) \<Rightarrow> (x, s) | (Panic msg, s) \<Rightarrow> (Inl (Errorf msg []), s))"

definition server_api :: "server api" where
  "server_api =
     \<lparr>api_get = (\<lambda>w n. with_fault w (\<lambda>t. (tracker_Get t providerConfigGVR [] n, t))),
      api_update = (\<lambda>w u. with_fault w
        (\<lambda>t. answered (reactor_Update unstructured_accessor t providerConfigGVR [] u)))\<rparr>"

definition server_stored :: "server \<Rightarrow> string \<rightharpoonup> obj" where
  "server_stored w n = map_option snd (tr_objects (srv_tracker w) providerConfigGVR ([], n))"

definition server_wf :: "server \<Rightarrow> bool" where
  "server_wf w \<longleftrightarrow> unwatched (srv_tracker w) \<and>
     (\<forall>n rv u. tr_objects (srv_tracker w) providerConfigGVR ([], n) = Some (rv, u) \<longrightarrow> GetName u = n)"

lemma server_wf_stored: "server_wf w \<Longrightarrow> server_stored w n = Some u \<Longrightarrow> GetName u = n"
  by (auto simp: server_wf_def server_stored_def)

lemma server_wfI: "unwatched (srv_tracker w) \<Longrightarrow> (\<And>n u. server_stored w n = Some u \<Longrightarrow> GetName u = n) \<Longrightarrow> server_wf w"
  unfolding server_wf_def server_stored_def by simp

lemma tracker_Get_Inr: "tracker_Get t gvr ns n = Inr u \<longleftrightarrow> (\<exists>rv. tr_objects t gvr (ns, n) = Some (rv, u))"
  by (auto simp: tracker_Get_def split: option.splits)

text \<open>An update that reaches the tracker: refused without a change, or stored.\<close>

lemma reactor_Update_cases:
  assumes "answered (reactor_Update unstructured_accessor t gvr [] u) = (r, t')" and watch: "unwatched t"
  obtains (refused) e where "r = Inl e" "t' = t"
  | (updated) u' rv where "r = Inr u'" "unwatched t'" "GetName u' = GetName u" "GetFinalizers u' = GetFinalizers u"
      "\<And>n. tr_objects t' gvr ([], n) = (if n = GetName u then Some (rv, u') else tr_objects t gvr ([], n))"
proof (cases "GetNamespace u = []")
  case False
  from reactor_Update_namespaced [OF this, of t gvr] assms show ?thesis by (auto simp: answered_def intro: refused)
next
  case True
  note outer = refused updated
  show ?thesis
  proof (cases "tr_objects t gvr ([], GetName u)")
    case None
    from reactor_Update_absent [OF True None] assms show ?thesis by (auto simp: answered_def intro: outer(1))
  next
    case (Some p)
    with assms True have "r = Inr (SetNamespace u [])" "unwatched t'"
      "\<exists>rv. \<forall>n. tr_objects t' gvr ([], n) =
        (if n = GetName u then Some (rv, SetNamespace u []) else tr_objects t gvr ([], n))"
      by (auto simp: answered_def reactor_Update_def after_write_def tracker_add_def tracker_Get_def Let_def
          getWatches_def unwatched_def)
    then show ?thesis by (auto intro: outer(2) [of "SetNamespace u []"])
  qed
qed

text \<open>With the script: a call was made on the tracker, or not at all, and a success was made.\<close>

lemma with_fault_cases:
  assumes "with_fault w f = (r, w')"
  obtains (refused) msg where "r = Inl (ApiStatus ''InternalError'' msg)" "srv_tracker w' = srv_tracker w"
  | (made) q where "f (srv_tracker w) = (q, srv_tracker w')"
      "r = q \<or> (\<exists>msg. r = Inl (ApiStatus ''InternalError'' msg))"
  using assms by (auto simp: with_fault_def split: prod.splits list.splits fault.splits)

lemma server_get_cases:
  assumes "api_get server_api w n = (r, w')"
  shows "srv_tracker w' = srv_tracker w"
    and "r = (case server_stored w n of None \<Rightarrow> Inl (NewNotFound providerConfigGVR n) | Some u \<Rightarrow> Inr u)
         \<or> (\<exists>msg. r = Inl (ApiStatus ''InternalError'' msg))"
  using assms unfolding server_api_def
  by (auto elim!: with_fault_cases simp: tracker_Get_def server_stored_def split: option.split)

lemma server_update_cases:
  assumes "api_update server_api w u = (r, w')" and watch: "unwatched (srv_tracker w)"
  obtains (unchanged) e where "r = Inl e" "server_stored w' = server_stored w" "unwatched (srv_tracker w')"
  | (updated) u' where "r = Inr u' \<or> (\<exists>e. r = Inl e)" "unwatched (srv_tracker w')"
      "GetName u' = GetName u" "GetFinalizers u' = GetFinalizers u"
      "server_stored w' = (server_stored w)(GetName u \<mapsto> u')"
proof -
  note outer = that
  from assms have "with_fault w (\<lambda>t. answered (reactor_Update unstructured_accessor t providerConfigGVR [] u)) = (r, w')"
    by (simp add: server_api_def)
  then show ?thesis
  proof (cases rule: with_fault_cases)
    case (refused msg)
    with watch show ?thesis by (intro outer(1)) (auto simp: server_stored_def)
  next
    case (made q)
    from made(1) watch show ?thesis
    proof (cases rule: reactor_Update_cases)
      case (refused e)
      with made watch show ?thesis by (auto simp: server_stored_def fun_eq_iff intro: outer(1))
    next
      case (updated u' rv)
      have "server_stored w' = (server_stored w)(GetName u \<mapsto> u')"
        using updated(5) by (simp add: server_stored_def fun_eq_iff)
      with made updated show ?thesis by (intro outer(2)) auto
    qed
  qed
qed

interpretation srv: config_store server_api server_stored server_wf
proof unfold_locales
  fix w w' :: server and n u v r e
  assume ok: "server_wf w"
  then have watch: "unwatched (srv_tracker w)" by (simp add: server_wf_def)
  show "api_get server_api w n = (Inr u, w') \<Longrightarrow> server_stored w n = Some u \<and> GetName u = n"
    using server_wf_stored [OF ok] by (auto dest!: server_get_cases split: option.splits)
  show "api_get server_api w n = (Inl e, w') \<Longrightarrow> IsNotFound e \<Longrightarrow> server_stored w n = None"
    by (auto dest!: server_get_cases split: option.splits)
  show "api_get server_api w n = (r, w') \<Longrightarrow> server_wf w' \<and> server_stored w' = server_stored w"
    using ok by (auto dest!: server_get_cases(1) simp: server_wf_def server_stored_def fun_eq_iff)
  show "api_update server_api w u = (Inr v, w') \<Longrightarrow>
      stored_fins (server_stored w') (GetName u) = elems (GetFinalizers u)"
    using watch by (auto elim!: server_update_cases simp: stored_fins_def)
  show "api_update server_api w u = (r, w') \<Longrightarrow> n \<noteq> GetName u \<Longrightarrow> server_stored w' n = server_stored w n"
    using watch by (auto elim!: server_update_cases)
  show "api_update server_api w u = (r, w') \<Longrightarrow> server_wf w'"
    using server_wf_stored [OF ok] watch
    by (auto elim!: server_update_cases intro!: server_wfI split: if_splits)
qed

end
