(* ===== verification/ManagerProps.thy ===== *)
theory ManagerProps imports ManagerSafety ConfigStore begin

text \<open>
  The properties of \<open>pkg/framework/manager.go\<close>: what a start and a stop do to the map of running
  controllers, to their stop channels and to the finalizer of the stored ProviderConfig. The
  first part carries the laws of the server through a whole start and a whole stop; the
  witnesses run the manager on the scripted object tracker of theory \<open>ConfigStore\<close>.
\<close>

section \<open>A whole start, a whole stop, on a store\<close>

lemma startAndRecord_failed_eq:
  assumes "startAndRecord api st s pc k cs ex False = (Return (Some e), s')"
  shows "\<exists>q s1. callStarter st s (objs s pc) = (q, s1) \<and>
    s' = rollbackFinalizerOnStartFailure api (dropEntry ex s1 k) (objs s1 pc)"
  using assms
  by (auto simp: startAndRecord_def Let_def dropEntry_def
        split: prod.splits start_result.splits option.splits if_splits)

lemma callStarter_state:
  assumes "callStarter st s u = (q, s1)"
  shows "world s1 = snd (st (world s) u)" and "trace s1 = trace s @ [StartCall u q]"
    and "objs s1 = objs s" and "finalizerName s1 = finalizerName s"
  using assms by (auto simp: callStarter_def split: prod.splits)

lemma dropEntry_state [simp]:
  "world (dropEntry ex s k) = world s" "trace (dropEntry ex s k) = trace s"
  "objs (dropEntry ex s k) = objs s" "finalizerName (dropEntry ex s k) = finalizerName s"
  by (simp_all add: dropEntry_def)

definition starter_keeps :: "'w starter \<Rightarrow> ('w \<Rightarrow> 'b) \<Rightarrow> ('w \<Rightarrow> bool) \<Rightarrow> bool" where
  "starter_keeps st f ok \<longleftrightarrow> (\<forall>w u. ok w \<longrightarrow> ok (snd (st w u)) \<and> f (snd (st w u)) = f w)"

text \<open>The effects of a step: what it appended to the trace.\<close>

definition new_effects :: "'w mstate \<Rightarrow> 'w mstate \<Rightarrow> effect list" where
  "new_effects s s' = drop (length (trace s)) (trace s')"

lemma new_effects_append: "trace s' = trace s @ es \<Longrightarrow> new_effects s s' = es"
  by (simp add: new_effects_def)

text \<open>A start that had to add the finalizer, up to the call of the starter.\<close>

lemma Start_add_finalizer_eq:
  assumes "cm_inv (controllers s)" and "is_pc s pc" and "\<not> deleting s pc"
    and "view s (key_of s pc) \<in> {None, Some None}" and "\<not> had_finalizer s pc"
  shows "\<exists>cs ex cm. StartControllersForProviderConfig api st s pc =
    (case ensureFinalizer api (s\<lparr>controllers := cm\<rparr>) pc of
       (Some e, s1) \<Rightarrow>
         (Return (Some (Wrapf ''failed to ensure finalizer %s for provider config %s: %w''
            [finalizerName s1, key_of s pc] e)), dropEntry ex s1 (key_of s pc))
     | (None, s1) \<Rightarrow> startAndRecord api st s1 pc (key_of s pc) cs ex False)"
proof -
  obtain cs ex cm where goc: "cm_GetOrCreate (controllers s) (key_of s pc) = (cs, ex, cm)"
    by (cases "cm_GetOrCreate (controllers s) (key_of s pc)")
  have "cs_stopCh cm cs = None"
    using cms.create_read [OF assms(1) goc] assms(4) by (auto simp: view_def)
  note eq = Start_not_running_eq [OF assms(2,3) goc this, of api st]
  have "had_finalizer s pc = False" using assms(5) by simp
  from eq [unfolded this if_False] show ?thesis by (intro exI)
qed

lemma ensureFinalizer_trace:
  assumes "ensureFinalizer api (s\<lparr>controllers := cm\<rparr>) pc = (r, s1)"
  obtains res where "trace s1 = trace s @ [ApiUpdate (ensured s pc) res]"
    "r = (case res of Inl e \<Rightarrow> Some e | Inr u \<Rightarrow> None)" "objs s1 pc = ensured s pc"
    "finalizerName s1 = finalizerName s"
proof -
  have en: "ensured (s\<lparr>controllers := cm\<rparr>) pc = ensured s pc" by (simp add: ensured_def)
  from ensureFinalizer_result [OF assms, unfolded en] that show ?thesis by auto
qed

context config_store
begin

lemma start_ok_stored:
  assumes inv: "cm_inv (controllers s)" "ok (world s)" and keeps: "starter_keeps st stored ok"
    and pc: "is_pc s pc" "\<not> deleting s pc" "view s (key_of s pc) \<in> {None, Some None}"
      "\<not> had_finalizer s pc" "meta_ok (objs s pc)"
    and run: "StartControllersForProviderConfig api st s pc = (Return None, s')"
  shows "stored_fins (stored (world s')) (key_of s pc) =
    elems (GetFinalizers (objs s pc)) @ [finalizerName s]"
proof -
  obtain cs ex cm where eq: "StartControllersForProviderConfig api st s pc =
    (case ensureFinalizer api (s\<lparr>controllers := cm\<rparr>) pc of
       (Some e, s1) \<Rightarrow>
         (Return (Some (Wrapf ''failed to ensure finalizer %s for provider config %s: %w''
            [finalizerName s1, key_of s pc] e)), dropEntry ex s1 (key_of s pc))
     | (None, s1) \<Rightarrow> startAndRecord api st s1 pc (key_of s pc) cs ex False)"
    using Start_add_finalizer_eq [OF inv(1) pc(1-4), of api st] by blast
  obtain r s1 where r: "ensureFinalizer api (s\<lparr>controllers := cm\<rparr>) pc = (r, s1)" by fastforce
  with eq run have "r = None" and sr: "startAndRecord api st s1 pc (key_of s pc) cs ex False = (Return None, s')"
    by (auto split: option.splits)
  from startAndRecord_world_ok [OF sr] have w: "world s' = snd (st (world s1) (objs s1 pc))" .
  have "stored_fins (stored (world s1)) (key_of s pc) =
      elems (GetFinalizers (objs s pc)) @ [finalizerName s]" "ok (world s1)"
    using ensureFinalizer_stored [OF _ r [unfolded \<open>r = None\<close>]] inv pc(5) by (simp_all add: key_of_def)
  with keeps w show ?thesis by (simp add: starter_keeps_def)
qed

lemma start_failed_stored:
  assumes inv: "cm_inv (controllers s)" "ok (world s)" and keeps: "starter_keeps st stored ok"
    and pc: "is_pc s pc" "\<not> deleting s pc" "view s (key_of s pc) \<in> {None, Some None}"
      "\<not> had_finalizer s pc" "meta_ok (objs s pc)"
    and run: "StartControllersForProviderConfig api st s pc = (Return (Some e), s')"
    and ok: "list_all api_ok (new_effects s s')"
  shows "stored_fins (stored (world s')) (key_of s pc) = elems (GetFinalizers (objs s pc))"
proof -
  let ?k = "key_of s pc"
  obtain cs ex cm where eq: "StartControllersForProviderConfig api st s pc =
    (case ensureFinalizer api (s\<lparr>controllers := cm\<rparr>) pc of
       (Some e, s1) \<Rightarrow>
         (Return (Some (Wrapf ''failed to ensure finalizer %s for provider config %s: %w''
            [finalizerName s1, ?k] e)), dropEntry ex s1 ?k)
     | (None, s1) \<Rightarrow> startAndRecord api st s1 pc ?k cs ex False)"
    using Start_add_finalizer_eq [OF inv(1) pc(1-4), of api st] by blast
  obtain r s1 where r: "ensureFinalizer api (s\<lparr>controllers := cm\<rparr>) pc = (r, s1)" by fastforce
  from r obtain res where res: "trace s1 = trace s @ [ApiUpdate (ensured s pc) res]"
    "r = (case res of Inl e \<Rightarrow> Some e | Inr u \<Rightarrow> None)" "objs s1 pc = ensured s pc"
    "finalizerName s1 = finalizerName s"
    by (rule ensureFinalizer_trace)
  have "r = None"
  proof (cases r)
    case (Some e')
    with eq r run res ok have False by (cases res) (auto simp: new_effects_def)
    then show ?thesis ..
  qed
  with eq r run have "startAndRecord api st s1 pc ?k cs ex False = (Return (Some e), s')" by simp
  then obtain q s2 where q: "callStarter st s1 (objs s1 pc) = (q, s2)"
    and s': "s' = rollbackFinalizerOnStartFailure api (dropEntry ex s2 ?k) (objs s2 pc)"
    using startAndRecord_failed_eq by blast
  note cs = callStarter_state [OF q]
  have st1: "stored_fins (stored (world s1)) ?k = elems (GetFinalizers (objs s pc)) @ [finalizerName s]"
    and wf1: "ok (world s1)"
    using ensureFinalizer_stored [OF _ r [unfolded \<open>r = None\<close>]] inv pc(5) by (simp_all add: key_of_def)
  have wf2: "ok (world s2)" and st2: "stored (world s2) = stored (world s1)"
    using keeps wf1 cs(1) by (simp_all add: starter_keeps_def)
  obtain fs where fs: "trace s' = trace (dropEntry ex s2 ?k) @ fs"
    using rollback_step [of "dropEntry ex s2 ?k" api "objs s2 pc"] unfolding s' api_step_def by blast
  have "new_effects s s' = ApiUpdate (ensured s pc) res # StartCall (objs s1 pc) q # fs"
    using fs cs(2) res(1) by (simp add: new_effects_def)
  with ok have "list_all api_ok fs" by simp
  from rollback_stored [OF _ fs [unfolded s'] this] wf2
  have "stored_fins (stored (world s')) (GetName (objs s2 pc)) =
    filter (\<lambda>f. f \<noteq> finalizerName s2) (stored_fins (stored (world s2)) (GetName (objs s2 pc)))"
    unfolding s' by simp
  moreover have "GetName (objs s2 pc) = ?k" using cs(3) res(3) by (simp add: ensured_def key_of_def)
  ultimately show ?thesis
    using st1 st2 cs(4) res(4) pc(4) filter_neq_not_Contains
    by (simp add: had_finalizer_def)
qed

lemma stop_ok_stored:
  assumes inv: "cm_inv (controllers s)" "ok (world s)" and pc: "is_pc s pc"
    and run: "StopControllersForProviderConfig api s pc = (Return None, s')"
  shows "stored_fins (stored (world s')) (key_of s pc) =
      filter (\<lambda>f. f \<noteq> finalizerName s) (stored_fins (stored (world s)) (key_of s pc))"
    and "\<And>n. n \<noteq> key_of s pc \<Longrightarrow> stored (world s') n = stored (world s) n"
    and "view s' = (view s)(key_of s pc := None)"
    and "\<And>ch. view s (key_of s pc) = Some (Some ch) \<Longrightarrow> ch \<in> closed s'"
proof -
  from inv(1) run pc obtain chs s1 where "removeFinalizer api s1 (key_of s pc) (key_of s pc) = (None, s')"
    and s1: "world s1 = world s" "finalizerName s1 = finalizerName s"
    and vc: "view s' = (view s)(key_of s pc := None)" "closed s' = set chs \<union> closed s"
      "chs = (case view s (key_of s pc) of Some (Some ch) \<Rightarrow> [ch] | _ \<Rightarrow> [])"
    by (cases rule: Stop_cases) simp_all
  note rem = removeFinalizer_stored [OF _ this(1), unfolded s1, OF inv(2)]
  show "stored_fins (stored (world s')) (key_of s pc) =
      filter (\<lambda>f. f \<noteq> finalizerName s) (stored_fins (stored (world s)) (key_of s pc))"
    and "\<And>n. n \<noteq> key_of s pc \<Longrightarrow> stored (world s') n = stored (world s) n"
    by (rule rem)+
  show "view s' = (view s)(key_of s pc := None)"
    and "\<And>ch. view s (key_of s pc) = Some (Some ch) \<Longrightarrow> ch \<in> closed s'"
    using vc by auto
qed

end

section \<open>Concrete objects and servers for the witnesses\<close>

definition mk_pc :: "string \<Rightarrow> string list \<Rightarrow> obj" where
  "mk_pc name fins =
     fmap_of_list
       [(''apiVersion'', JStr ''cloud.gke.io/v1''), (''kind'', JStr ''ProviderConfig''),
        (''metadata'', JObj (fmap_of_list
           [(''name'', JStr name), (''finalizers'', JArr (map JStr fins))]))]"

lemma mk_pc_fields [simp]:
  "GetName (mk_pc n fs) = n" "GetNamespace (mk_pc n fs) = []" "GetFinalizers (mk_pc n fs) = Some fs"
  "meta_ok (mk_pc n fs)"
  by (simp_all add: mk_pc_def getter_defs GetFinalizers_def NestedStringSlice_def NestedFieldNoCopy_def
        fmlookup_of_list meta_ok_def)

lemma mk_pc_not_deleted [simp]: "GetDeletionTimestamp (mk_pc n fs) = None"
  by (simp add: mk_pc_def getter_defs NestedFieldNoCopy_def fmlookup_of_list UnmarshalQueryParameter_def
        go_time_eval)

lemma mk_pc_gvk [simp]: "GroupVersionKind (mk_pc n fs) = providerConfigGVK"
  using ParseGroupVersion_group_version [of "''cloud.gke.io''" "''v1''"]
  by (simp add: mk_pc_def GroupVersionKind_def getter_defs NestedFieldNoCopy_def fmlookup_of_list
        WithKind_def providerConfigGVK_def)

definition server_of :: "obj list \<Rightarrow> fault list \<Rightarrow> server" where
  "server_of us script =
     \<lparr>srv_tracker = \<lparr>tr_objects = (\<lambda>r. map_of (map (\<lambda>u. (([], GetName u), (2, u))) us)),
        tr_versions = (\<lambda>r. Some 2), tr_watchers = (\<lambda>_ _. []), tr_chans = []\<rparr>,
      srv_script = script\<rparr>"

text \<open>A starter that hands out the channel \<open>ch\<close>, and one that fails.\<close>

definition starter_ok :: "chan \<Rightarrow> server starter" where
  "starter_ok ch w u = (Started (Some ch) None, w)"

definition starter_fail :: "server starter" where
  "starter_fail w u = (Started None (Some (Errorf ''no quota'' [])), w)"

text \<open>A manager whose cache holds the ProviderConfig \<open>p\<close> with the finalizers \<open>fs\<close>.\<close>

definition mgr0 :: "string list \<Rightarrow> fault list \<Rightarrow> server mstate" where
  "mgr0 fs script = newManager ''fin'' (\<lambda>_. mk_pc ''p'' fs) (server_of [mk_pc ''p'' fs] script)"

lemmas run_defs =
  StartControllersForProviderConfig_def startAndRecord_def ensureFinalizer_def callStarter_def
  StopControllersForProviderConfig_def stopEntry_def close_ch_def removeFinalizer_def
  getProviderConfig_def updateProviderConfig_def deleteFinalizer_def rollback_eq dropEntry_def released_def

lemmas server_defs =
  server_api_def with_fault_def answered_def reactor_Update_def after_write_def getWatches_def tracker_add_def tracker_Get_def server_of_def

lemmas witness_defs =
  run_defs server_defs mgr0_def newManager_def starter_ok_def starter_fail_def cm_defs
  providerConfigKey_def Let_def IsZero_def Contains_def

section \<open>Starting\<close>


lemma mgr0_reachable: "reachable server_api st (mgr0 fs script)"
  unfolding mgr0_def by (rule reachable.init)

lemma mgr0_pc [simp]:
  "is_pc (mgr0 fs script) 0" "\<not> deleting (mgr0 fs script) 0" "key_of (mgr0 fs script) 0 = ''p''"
  "finalizerName (mgr0 fs script) = ''fin''" "objs (mgr0 fs script) 0 = mk_pc ''p'' fs"
  "had_finalizer (mgr0 fs script) 0 = (''fin'' \<in> set fs)" "view (mgr0 fs script) k = None"
  "closed (mgr0 fs script) = {}"
  by (simp_all add: mgr0_def newManager_def pc_defs view_def cm_defs Contains_def)


text \<open>C18. A start that reports an error leaves the manager as it was: the same keys with the same
  channels, so no entry of a failed start stays behind, and no channel closed.\<close>

theorem failed_start_keeps_controllers:
  assumes "reachable api st s"
    and "StartControllersForProviderConfig api st s pc = (Return (Some e), s')"
  shows "view s' = view s \<and> closed s' = closed s \<and> finalizerName s' = finalizerName s \<and>
    closes (new_effects s s') = []"
  using reachable_cm_inv [OF assms(1)] assms(2)
proof (cases rule: Start_cases)
  case (failed ch err e' es fs u)
  note ens = ensured_state_effects [OF failed(7)] and none = api_effects_no_channels [OF failed(11)]
  show ?thesis using failed(6) ens none new_effects_append [OF failed(8)] by simp
qed (auto simp: new_effects_def)

theorem failed_start_keeps_controllers_witness:
  "\<exists>e s'. StartControllersForProviderConfig server_api starter_fail (mgr0 [] []) 0 = (Return (Some e), s')
    \<and> view s' = view (mgr0 [] [])"
proof -
  let ?r = "StartControllersForProviderConfig server_api starter_fail (mgr0 [] []) 0"
  have "\<exists>e. fst ?r = Return (Some e)" by (simp add: witness_defs)
  then obtain e where r: "?r = (Return (Some e), snd ?r)" by (metis prod.collapse)
  from failed_start_keeps_controllers [OF mgr0_reachable r] r show ?thesis by metis
qed

text \<open>A start is idempotent: after one that reported success, another for the same key, of any
  object, with any API server and starter, does nothing and reports success.\<close>

theorem start_idempotent:
  assumes "reachable api st s" and "is_pc s pc" and "\<not> deleting s pc"
    and "StartControllersForProviderConfig api st s pc = (Return None, s')"
    and "is_pc s' pc'" and "\<not> deleting s' pc'" and "key_of s' pc' = key_of s pc"
  shows "StartControllersForProviderConfig api' st' s' pc' = (Return None, s')"
proof -
  have "\<exists>ch. view s' (key_of s pc) = Some (Some ch)"
    using reachable_cm_inv [OF assms(1)] assms(4) by (cases rule: Start_cases) (use assms(2,3) in auto)
  with Start_running_eq [OF assms(5,6)] assms(7) show ?thesis by auto
qed

theorem start_idempotent_witness:
  "\<exists>s'. StartControllersForProviderConfig server_api (starter_ok 7) (mgr0 [''fin''] []) 0 = (Return None, s')
    \<and> StartControllersForProviderConfig server_api starter_fail s' 0 = (Return None, s')"
proof -
  let ?r = "StartControllersForProviderConfig server_api (starter_ok 7) (mgr0 [''fin''] []) 0"
  have r: "?r = (Return None, snd ?r)" by (simp add: witness_defs)
  have o: "objs (snd ?r) 0 = mk_pc ''p'' [''fin'']" by (simp add: witness_defs)
  have "is_pc (snd ?r) 0" "\<not> deleting (snd ?r) 0" "key_of (snd ?r) 0 = ''p''"
    by (simp_all add: pc_defs o)
  from start_idempotent [OF mgr0_reachable _ _ r this(1,2)] this(3) r show ?thesis by auto
qed

text \<open>A start for an object that is not a ProviderConfig, or that is being deleted, does
  nothing at all; only the first is reported as an error.\<close>

theorem start_refuses:
  assumes "\<not> is_pc s pc \<or> deleting s pc"
  shows "\<exists>out. StartControllersForProviderConfig api st s pc = (out, s) \<and>
    (if is_pc s pc then out = Return None else \<exists>e. out = Return (Some e))"
  using assms by (auto simp: StartControllersForProviderConfig_def pc_defs)

theorem start_refuses_witness:
  "\<exists>e. StartControllersForProviderConfig server_api (starter_ok 7)
     (newManager ''fin'' (\<lambda>_. fmempty) (server_of [] [])) 0 =
     (Return (Some e), newManager ''fin'' (\<lambda>_. fmempty) (server_of [] []))"
proof -
  let ?s = "newManager ''fin'' (\<lambda>_. fmempty) (server_of [] [])"
  have "\<not> is_pc ?s 0"
    by (simp add: is_pc_def newManager_def GroupVersionKind_def getter_defs NestedFieldNoCopy_def
          ParseGroupVersion_def WithKind_def providerConfigGVK_def)
  with start_refuses [of ?s 0 server_api "starter_ok 7"] show ?thesis by auto
qed

section \<open>The finalizer\<close>

text \<open>When the starter fails for an object that had the manager's finalizer before, the manager
  makes no API call: a finalizer it did not add is not rolled back.\<close>

theorem start_keeps_existing_finalizer:
  assumes "reachable api st s" and "had_finalizer s pc"
    and "StartControllersForProviderConfig api st s pc = (out, s')"
  shows "list_all (\<lambda>e. \<not> is_api_effect e) (new_effects s s') \<and> objs s' = objs s"
  using reachable_cm_inv [OF assms(1)] assms(3)
  by (cases rule: Start_cases)
    (use assms(2) in \<open>auto simp: new_effects_def ensured_state_def\<close>)

theorem start_keeps_existing_finalizer_witness:
  "\<exists>out s'. StartControllersForProviderConfig server_api starter_fail (mgr0 [''fin''] []) 0 = (out, s') \<and>
     list_all (\<lambda>e. \<not> is_api_effect e) (new_effects (mgr0 [''fin''] []) s')"
proof -
  obtain out s' where r: "StartControllersForProviderConfig server_api starter_fail (mgr0 [''fin''] []) 0 = (out, s')"
    by fastforce
  from start_keeps_existing_finalizer [OF mgr0_reachable _ r] r show ?thesis by auto
qed

text \<open>When the starter succeeds, the finalizer is in the store: against the object tracker, with
  any faults, a start that had to add the finalizer and reported success leaves the stored
  ProviderConfig with the object's finalizers and the manager's at their end.\<close>

theorem start_persists_finalizer:
  assumes "reachable server_api st s" and "server_wf (world s)"
    and "starter_keeps st server_stored server_wf"
    and "is_pc s pc" and "\<not> deleting s pc" and "view s (key_of s pc) \<in> {None, Some None}"
    and "\<not> had_finalizer s pc" and "key_of s pc \<noteq> []"
    and "StartControllersForProviderConfig server_api st s pc = (Return None, s')"
  shows "stored_fins (server_stored (world s')) (key_of s pc) =
    elems (GetFinalizers (objs s pc)) @ [finalizerName s]"
  using srv.start_ok_stored [OF reachable_cm_inv [OF assms(1)] assms(2-7) _ assms(9)] assms(8)
  by (simp add: GetName_meta_ok key_of_def)

lemma mgr0_server_wf [simp]: "server_wf (world (mgr0 fs script))"
  by (auto simp: mgr0_def newManager_def server_wf_def server_of_def unwatched_def split: if_splits)

lemma starters_keep [simp]:
  "starter_keeps (starter_ok ch) server_stored server_wf" "starter_keeps starter_fail server_stored server_wf"
  by (simp_all add: starter_keeps_def starter_ok_def starter_fail_def)

theorem start_persists_finalizer_witness:
  "\<exists>s'. StartControllersForProviderConfig server_api (starter_ok 7) (mgr0 [''other''] []) 0 = (Return None, s')
    \<and> stored_fins (server_stored (world s')) ''p'' = [''other'', ''fin'']"
proof -
  let ?r = "StartControllersForProviderConfig server_api (starter_ok 7) (mgr0 [''other''] []) 0"
  have r: "?r = (Return None, snd ?r)" by (simp add: witness_defs)
  from start_persists_finalizer [OF mgr0_reachable _ _ _ _ _ _ _ r] r show ?thesis by auto
qed

text \<open>C17. When the starter fails, the finalizer is rolled back: a failed start that had to add the
  finalizer, and whose API calls the server answered, leaves the stored ProviderConfig with
  the finalizers of the object, so its deletion is not blocked.\<close>

theorem failed_start_rolls_back_finalizer:
  assumes "reachable server_api st s" and "server_wf (world s)"
    and "starter_keeps st server_stored server_wf"
    and "is_pc s pc" and "\<not> deleting s pc" and "view s (key_of s pc) \<in> {None, Some None}"
    and "\<not> had_finalizer s pc" and "key_of s pc \<noteq> []"
    and "StartControllersForProviderConfig server_api st s pc = (Return (Some e), s')"
    and "list_all api_ok (new_effects s s')"
  shows "stored_fins (server_stored (world s')) (key_of s pc) = elems (GetFinalizers (objs s pc))"
  using srv.start_failed_stored [OF reachable_cm_inv [OF assms(1)] assms(2-7) _ assms(9,10)] assms(8)
  by (simp add: GetName_meta_ok key_of_def)

theorem failed_start_rolls_back_finalizer_witness:
  "\<exists>e s'. StartControllersForProviderConfig server_api starter_fail (mgr0 [''other''] []) 0 = (Return (Some e), s')
    \<and> stored_fins (server_stored (world s')) ''p'' = [''other'']"
proof -
  let ?r = "StartControllersForProviderConfig server_api starter_fail (mgr0 [''other''] []) 0"
  have "\<exists>e. fst ?r = Return (Some e)" by (simp add: witness_defs ensured_def)
  then obtain e where r: "?r = (Return (Some e), snd ?r)" by (metis prod.collapse)
  have ok: "list_all api_ok (new_effects (mgr0 [''other''] []) (snd ?r))"
    by (simp add: witness_defs new_effects_def api_ok_def)
  from failed_start_rolls_back_finalizer [OF mgr0_reachable _ _ _ _ _ _ _ r ok] r show ?thesis by auto
qed

text \<open>C13. A stop that reports success has stopped everything: the key is out of the map and the
  other keys are untouched, the channel of the running controller is closed, and the stored
  ProviderConfig has lost the manager's finalizer and kept its other finalizers in their order;
  no other ProviderConfig changed.\<close>

theorem stop_releases:
  assumes "reachable server_api st s" and "server_wf (world s)" and "is_pc s pc"
    and "StopControllersForProviderConfig server_api s pc = (Return None, s')"
  shows "view s' = (view s)(key_of s pc := None) \<and>
    (\<forall>ch. view s (key_of s pc) = Some (Some ch) \<longrightarrow> ch \<in> closed s') \<and>
    stored_fins (server_stored (world s')) (key_of s pc) =
      filter (\<lambda>f. f \<noteq> finalizerName s) (stored_fins (server_stored (world s)) (key_of s pc)) \<and>
    (\<forall>n. n \<noteq> key_of s pc \<longrightarrow> server_stored (world s') n = server_stored (world s) n)"
  using srv.stop_ok_stored [OF reachable_cm_inv [OF assms(1)] assms(2-4)] by blast

theorem stop_releases_witness:
  "\<exists>s'. StopControllersForProviderConfig server_api (mgr0 [''a'', ''fin'', ''b''] []) 0 = (Return None, s') \<and>
    stored_fins (server_stored (world s')) ''p'' = [''a'', ''b'']"
proof -
  let ?s = "mgr0 [''a'', ''fin'', ''b''] []"
  let ?r = "StopControllersForProviderConfig server_api ?s 0"
  have r: "?r = (Return None, snd ?r)" by (simp add: witness_defs)
  have f: "stored_fins (server_stored (world ?s)) ''p'' = [''a'', ''fin'', ''b'']"
    by (simp add: mgr0_def newManager_def server_of_def server_stored_def stored_fins_def)
  from stop_releases [OF mgr0_reachable _ _ r, unfolded mgr0_pc f] r show ?thesis by auto
qed

section \<open>Stop channels\<close>

text \<open>C11. No run of the manager closes a stop channel twice: whatever starts, stops, failures and
  changes of the cache and the server came before, a stop never panics.\<close>

theorem stop_never_panics:
  assumes "reachable api st s" and "StopControllersForProviderConfig api s pc = (out, s')"
  shows "\<exists>err. out = Return err"
  using reachable_cm_inv [OF assms(1)] assms(2)
proof (cases rule: Stop_cases)
  case (double_close ch)
  with reachable_inv [OF assms(1)] show ?thesis by (auto simp: mgr_inv_def running_def)
qed auto

text \<open>A run: a start that succeeds, then a stop.\<close>

definition mgr1 :: "server mstate" where
  "mgr1 = snd (StartControllersForProviderConfig server_api (starter_ok 7) (mgr0 [''fin''] []) 0)"

lemma mgr1_reachable: "reachable server_api (starter_ok 7) mgr1"
proof (rule reachable.step [OF mgr0_reachable])
  show "mgr_step server_api (starter_ok 7) (mgr0 [''fin''] []) mgr1"
  proof (rule mgr_step.start)
    show "StartControllersForProviderConfig server_api (starter_ok 7) (mgr0 [''fin''] []) 0 =
      (fst (StartControllersForProviderConfig server_api (starter_ok 7) (mgr0 [''fin''] []) 0), mgr1)"
      by (simp add: mgr1_def)
    show "fresh_channels (mgr0 [''fin''] []) mgr1"
      by (simp add: fresh_channels_def mgr0_def newManager_def returned_def)
  qed
qed

lemma mgr1_fields:
  "view mgr1 ''p'' = Some (Some 7)" "objs mgr1 0 = mk_pc ''p'' [''fin'']" "closed mgr1 = {}"
  "accepted (trace mgr1) = [7]"
  by (simp_all add: mgr1_def witness_defs view_def accepted_def accepted1_def)

theorem stop_never_panics_witness:
  "\<exists>s'. StopControllersForProviderConfig server_api mgr1 0 = (Return None, s') \<and> closed s' = {7}"
proof -
  obtain out s' where r: "StopControllersForProviderConfig server_api mgr1 0 = (out, s')" by fastforce
  from stop_never_panics [OF mgr1_reachable r] obtain err where "out = Return err" ..
  moreover have "fst (StopControllersForProviderConfig server_api mgr1 0) = Return None"
    "closed (snd (StopControllersForProviderConfig server_api mgr1 0)) = {7}"
    by (simp_all add: mgr1_def witness_defs)
  ultimately show ?thesis using r by auto
qed

text \<open>C2. No run of the manager loses a controller: the stop channels the starter handed over with
  success are those of the running controllers and the closed ones, no channel is both, no two
  keys share one, and each closed channel was closed exactly once.\<close>

theorem no_controller_lost:
  assumes "reachable api st s"
  shows "set (accepted (trace s)) = running s \<union> closed s \<and> running s \<inter> closed s = {} \<and>
    (\<forall>k k' ch. view s k = Some (Some ch) \<and> view s k' = Some (Some ch) \<longrightarrow> k = k') \<and>
    distinct (closes (trace s)) \<and> set (closes (trace s)) = closed s"
  using reachable_inv [OF assms] by (auto simp: mgr_inv_def)

theorem no_controller_lost_witness: "running mgr1 = {7} \<and> closed mgr1 = {}"
  using no_controller_lost [OF mgr1_reachable] by (auto simp: mgr1_fields)

text \<open>A stop may be retried: whatever a first stop reported, a second one finds no entry for the
  key, closes no channel and only makes API calls, to try the finalizer again.\<close>

theorem stop_retry_only_finalizer:
  assumes "reachable api st s" and "is_pc s pc"
    and "StopControllersForProviderConfig api s pc = (Return r, s1)"
    and "StopControllersForProviderConfig api' s1 pc = (out, s2)"
  shows "view s1 (key_of s pc) = None \<and> view s2 = view s1 \<and> closed s2 = closed s1 \<and>
    list_all is_api_effect (new_effects s1 s2) \<and> (\<exists>err. out = Return err)"
proof -
  from reachable_cm_inv [OF assms(1)] assms(3) assms(2)
  have s1: "cm_inv (controllers s1)" "view s1 (key_of s pc) = None" "objs s1 = objs s"
    by (cases rule: Stop_cases, simp_all)+
  then have k: "key_of s1 pc = key_of s pc" "is_pc s1 pc" using assms(2) by (simp_all add: pc_defs)
  from s1(1) assms(4) show ?thesis
  proof (cases rule: Stop_cases)
    case (stopped r' chs s3)
    then have "chs = []" using s1(2) k by simp
    obtain es where "trace s2 = trace s3 @ es" "list_all is_api_effect es"
      using removeFinalizer_step [OF stopped(3)] unfolding api_step_def by blast
    with stopped s1(2) k \<open>chs = []\<close> show ?thesis by (auto simp: new_effects_def)
  qed (use s1(2) k in simp_all)
qed

theorem stop_retry_only_finalizer_witness:
  "\<exists>e s1 s2. StopControllersForProviderConfig server_api (mgr0 [''fin''] [Pass, Refuse ''conflict'']) 0 =
       (Return (Some e), s1) \<and>
     StopControllersForProviderConfig server_api s1 0 = (Return None, s2) \<and> closed s2 = closed s1"
proof -
  let ?s = "mgr0 [''fin''] [Pass, Refuse ''conflict'']"
  let ?r = "StopControllersForProviderConfig server_api ?s 0"
  let ?q = "StopControllersForProviderConfig server_api (snd ?r) 0"
  have "\<exists>e. fst ?r = Return (Some e)" by (simp add: witness_defs)
  then obtain e where r: "?r = (Return (Some e), snd ?r)" by (metis prod.collapse)
  have q: "?q = (Return None, snd ?q)" by (simp add: witness_defs)
  from stop_retry_only_finalizer [OF mgr0_reachable _ r q] r q show ?thesis by auto
qed

section \<open>A start after a refused update\<close>

text \<open>\<open>pc.SetFinalizers\<close> writes to the object shared with the informer's cache before the update
  is sent. After an update that failed, a second start of the same cached object therefore sees
  the finalizer as present: it makes no API call, and when the starter succeeds the controller
  runs although no update with the finalizer was ever accepted.\<close>

theorem retry_skips_finalizer:
  assumes "reachable api st s" and "is_pc s pc" and "\<not> deleting s pc" and "key_of s pc \<noteq> []"
    and "StartControllersForProviderConfig api st s pc = (Return (Some e), s1)"
    and "new_effects s s1 = [ApiUpdate u (Inl e')]"
    and "StartControllersForProviderConfig api' st' s1 pc = (Return None, s2)"
  shows "had_finalizer s1 pc \<and> (\<exists>ch v. view s2 (key_of s pc) = Some (Some ch) \<and>
    new_effects s1 s2 = [StartCall v (Started (Some ch) None)])"
proof -
  have ok: "meta_ok (objs s pc)" using assms(4) by (simp add: key_of_def GetName_meta_ok)
  from reachable_cm_inv [OF assms(1)] assms(5)
  have s1: "cm_inv (controllers s1) \<and> view s1 = view s \<and> finalizerName s1 = finalizerName s \<and>
    objs s1 = (objs s)(pc := ensured s pc) \<and> view s (key_of s pc) \<in> {None, Some None}"
  proof (cases rule: Start_cases)
    case (failed ch err e es fs u')
    with new_effects_append [OF failed(8)] assms(6) show ?thesis
      by (auto simp: ensured_state_def split: if_splits)
  qed (use assms(2,6) in \<open>simp_all add: new_effects_def\<close>)
  then have pc1: "is_pc s1 pc" "\<not> deleting s1 pc" "key_of s1 pc = key_of s pc" "had_finalizer s1 pc"
    using assms(2,3) ok by (simp_all add: pc_defs ensured_def)
  from conjunct1 [OF s1] assms(7) show ?thesis
  proof (cases rule: Start_cases)
    case (started ch es v)
    then have "es = []" using pc1(4) by (simp add: ensured_state_def)
    with started pc1 new_effects_append [OF started(8)] show ?thesis by auto
  qed (use pc1 s1 in auto)
qed

theorem retry_skips_finalizer_witness:
  "\<exists>e s1 s2.
     StartControllersForProviderConfig server_api (starter_ok 7) (mgr0 [''other''] [Refuse ''conflict'']) 0 =
       (Return (Some e), s1) \<and>
     StartControllersForProviderConfig server_api (starter_ok 7) s1 0 = (Return None, s2) \<and>
     (\<exists>ch. view s2 ''p'' = Some (Some ch)) \<and>
     stored_fins (server_stored (world s2)) ''p'' = [''other'']"
proof -
  let ?s = "mgr0 [''other''] [Refuse ''conflict'']"
  let ?r = "StartControllersForProviderConfig server_api (starter_ok 7) ?s 0"
  let ?q = "StartControllersForProviderConfig server_api (starter_ok 7) (snd ?r) 0"
  have "\<exists>e. fst ?r = Return (Some e)" by (simp add: witness_defs)
  then obtain e where r: "?r = (Return (Some e), snd ?r)" by (metis prod.collapse)
  have q: "?q = (Return None, snd ?q)" by (simp add: witness_defs)
  have n: "new_effects ?s (snd ?r) = [ApiUpdate (ensured ?s 0) (Inl (ApiStatus ''InternalError'' ''conflict''))]"
    by (simp add: witness_defs new_effects_def ensured_def)
  have f: "stored_fins (server_stored (world (snd ?q))) ''p'' = [''other'']"
    by (simp add: witness_defs stored_fins_def server_stored_def)
  from retry_skips_finalizer [OF mgr0_reachable _ _ _ r n q] r q f show ?thesis by auto
qed

end
