(* ===== verification/WorkQueue.thy ===== *)
theory WorkQueue imports MTPrelude begin

text \<open>
  The work queue of client-go (\<open>vendor/k8s.io/client-go/util/workqueue/queue.go\<close>, type \<open>Typed\<close>):
  a FIFO of distinct items that never hands out an item while it is being processed, and hands
  it out again when it was added in the meantime.

  Every method holds the queue's lock from its first to its last statement, so a method is one
  step. \<open>Get\<close> releases the lock only to wait for its condition, so it is a step that either
  blocks or returns. Metrics and the goroutine that updates them are not modelled.
\<close>

section \<open>The code\<close>

record 'a workq =
  wq_queue :: "'a list"
  wq_dirty :: "'a set"
  wq_processing :: "'a set"
  wq_shuttingDown :: bool
  wq_drain :: bool
  wq_stopCh_closed :: bool

datatype 'a get_result = Blocked | Item 'a | Shutdown

definition newQueue :: "'a workq" where
  "newQueue =
     \<lparr>wq_queue = [], wq_dirty = {}, wq_processing = {}, wq_shuttingDown = False, wq_drain = False,
      wq_stopCh_closed = False\<rparr>"

definition wq_Add :: "'a workq \<Rightarrow> 'a \<Rightarrow> 'a workq" where
  "wq_Add q item =
     (if wq_shuttingDown q then q
      else if item \<in> wq_dirty q then q
      else
        let q = q\<lparr>wq_dirty := insert item (wq_dirty q)\<rparr>
        in if item \<in> wq_processing q then q else q\<lparr>wq_queue := wq_queue q @ [item]\<rparr>)"

definition wq_Len :: "'a workq \<Rightarrow> nat" where
  "wq_Len q = length (wq_queue q)"

definition wq_Get :: "'a workq \<Rightarrow> 'a get_result \<times> 'a workq" where
  "wq_Get q =
     (case wq_queue q of
        [] \<Rightarrow> (if wq_shuttingDown q then Shutdown else Blocked, q)
      | item # rest \<Rightarrow>
          (Item item, q\<lparr>wq_queue := rest, wq_processing := insert item (wq_processing q),
                        wq_dirty := wq_dirty q - {item}\<rparr>))"

definition wq_Done :: "'a workq \<Rightarrow> 'a \<Rightarrow> 'a workq" where
  "wq_Done q item =
     (let q = q\<lparr>wq_processing := wq_processing q - {item}\<rparr>
      in if item \<in> wq_dirty q then q\<lparr>wq_queue := wq_queue q @ [item]\<rparr> else q)"

definition wq_ShutDown :: "'a workq \<Rightarrow> 'a workq" where
  "wq_ShutDown q = q\<lparr>wq_drain := False, wq_shuttingDown := True, wq_stopCh_closed := True\<rparr>"

text \<open>\<open>ShutDownWithDrain\<close> sets the flags, then waits: it is blocked while \<open>drain_waits\<close>.\<close>

definition wq_ShutDownWithDrain :: "'a workq \<Rightarrow> 'a workq" where
  "wq_ShutDownWithDrain q = q\<lparr>wq_drain := True, wq_shuttingDown := True, wq_stopCh_closed := True\<rparr>"

definition drain_waits :: "'a workq \<Rightarrow> bool" where
  "drain_waits q \<longleftrightarrow> wq_processing q \<noteq> {} \<and> wq_drain q"

definition wq_ShuttingDown :: "'a workq \<Rightarrow> bool" where
  "wq_ShuttingDown q = wq_shuttingDown q"

lemmas wq_defs =
  newQueue_def wq_Add_def wq_Get_def wq_Done_def wq_ShutDown_def wq_ShutDownWithDrain_def
  wq_ShuttingDown_def wq_Len_def Let_def

section \<open>The interface\<close>

text \<open>
  The contract of the queue, item by item. An item is idle, waiting to be handed out, being
  processed, or being processed and due again; \<open>status\<close> is this abstraction. The items waiting
  are handed out first in, first out (\<open>pending\<close>).
\<close>

datatype status = Idle | Waiting | Processing | Again

text \<open>The items somebody works on, and the items that will be handed out.\<close>

definition busy :: "('a \<Rightarrow> status) \<Rightarrow> 'a set" where
  "busy st = {x. st x \<in> {Processing, Again}}"

definition dirty :: "('a \<Rightarrow> status) \<Rightarrow> 'a set" where
  "dirty st = {x. st x \<in> {Waiting, Again}}"

lemma busy_dirty_iff [simp]:
  "x \<in> busy st \<longleftrightarrow> st x \<in> {Processing, Again}" "x \<in> dirty st \<longleftrightarrow> st x \<in> {Waiting, Again}"
  by (simp_all add: busy_def dirty_def)

locale work_queue =
  fixes status :: "'q \<Rightarrow> 'a \<Rightarrow> status"
    and pending :: "'q \<Rightarrow> 'a list"
    and closing :: "'q \<Rightarrow> bool"
    and inv :: "'q \<Rightarrow> bool"
    and new :: 'q
    and add :: "'q \<Rightarrow> 'a \<Rightarrow> 'q"
    and get :: "'q \<Rightarrow> 'a get_result \<times> 'q"
    and finish :: "'q \<Rightarrow> 'a \<Rightarrow> 'q"
    and shut :: "'q \<Rightarrow> 'q"
  assumes inv_new: "inv new" and status_new: "status new x = Idle" and closing_new: "\<not> closing new"
    and pending_Waiting: "inv q \<Longrightarrow> distinct (pending q) \<and> set (pending q) = {x. status q x = Waiting}"
    and inv_add: "inv q \<Longrightarrow> inv (add q x)"
    and status_add: "inv q \<Longrightarrow> status (add q x) =
          (if closing q then status q
           else (status q)(x := (case status q x of Idle \<Rightarrow> Waiting | Processing \<Rightarrow> Again | s \<Rightarrow> s)))"
    and pending_add: "inv q \<Longrightarrow> pending (add q x) =
          (if \<not> closing q \<and> status q x = Idle then pending q @ [x] else pending q)"
    and closing_add: "closing (add q x) = closing q"
    and get_blocked: "inv q \<Longrightarrow> get q = (Blocked, q') \<Longrightarrow> pending q = [] \<and> \<not> closing q \<and> q' = q"
    and get_shutdown: "inv q \<Longrightarrow> get q = (Shutdown, q') \<Longrightarrow> pending q = [] \<and> closing q \<and> q' = q"
    and get_item: "inv q \<Longrightarrow> get q = (Item x, q') \<Longrightarrow>
          inv q' \<and> pending q = x # pending q' \<and> status q' = (status q)(x := Processing) \<and>
          closing q' = closing q"
    and inv_finish: "inv q \<Longrightarrow> status q x \<in> {Processing, Again} \<Longrightarrow> inv (finish q x)"
    and status_finish: "inv q \<Longrightarrow> status q x \<in> {Processing, Again} \<Longrightarrow>
          status (finish q x) = (status q)(x := if status q x = Again then Waiting else Idle)"
    and pending_finish: "inv q \<Longrightarrow> status q x \<in> {Processing, Again} \<Longrightarrow>
          pending (finish q x) = (if status q x = Again then pending q @ [x] else pending q)"
    and closing_finish: "closing (finish q x) = closing q"
    and inv_shut: "inv q \<Longrightarrow> inv (shut q)" and status_shut: "inv q \<Longrightarrow> status (shut q) = status q"
    and pending_shut: "inv q \<Longrightarrow> pending (shut q) = pending q"
    and closing_shut: "inv q \<Longrightarrow> closing (shut q)"
begin

text \<open>An item is handed out only while nobody processes it.\<close>

lemma get_not_processing:
  assumes "inv q" and "get q = (Item x, q')"
  shows "status q x = Waiting"
  using get_item [OF assms] pending_Waiting [OF assms(1)] by auto

text \<open>An item added to an open queue is due: waiting, or to be handed out again.\<close>

lemma add_due:
  assumes "inv q" and "\<not> closing q"
  shows "status (add q x) x \<in> {Waiting, Again}"
  using status_add [OF assms(1), of x] assms(2) by (cases "status q x") simp_all

lemma add_idem:
  assumes "inv q"
  shows "status (add (add q x) x) = status (add q x)" and "pending (add (add q x) x) = pending (add q x)"
proof -
  have i: "inv (add q x)" by (rule inv_add [OF assms])
  show "status (add (add q x) x) = status (add q x)"
    using status_add [OF assms, of x] status_add [OF i, of x]
    by (cases "status q x") (simp_all add: closing_add)
  show "pending (add (add q x) x) = pending (add q x)"
    using status_add [OF assms, of x] pending_add [OF i, of x]
    by (cases "status q x") (simp_all add: closing_add)
qed

text \<open>A due item stays due until it is handed out.\<close>

lemma due_add: "inv q \<Longrightarrow> status q y \<in> {Waiting, Again} \<Longrightarrow> status (add q x) y \<in> {Waiting, Again}"
  by (auto simp: status_add)

lemma due_get:
  assumes "inv q" and "get q = (r, q')" and "status q y \<in> {Waiting, Again}"
  shows "status q' y \<in> {Waiting, Again} \<or> r = Item y"
proof (cases r)
  case (Item x)
  with get_item [OF assms(1)] assms(2,3) show ?thesis by auto
qed (use assms get_blocked get_shutdown in auto)

lemma due_finish:
  "inv q \<Longrightarrow> status q x \<in> {Processing, Again} \<Longrightarrow> status q y \<in> {Waiting, Again} \<Longrightarrow>
   status (finish q x) y \<in> {Waiting, Again}"
  by (auto simp: status_finish)

text \<open>What the operations do to the sets of busy and of dirty items.\<close>

lemma busy_add: "inv q \<Longrightarrow> busy (status (add q x)) = busy (status q)"
  by (auto simp: busy_def status_add split: status.splits if_splits)

lemma dirty_add: "inv q \<Longrightarrow> dirty (status (add q x)) = (if closing q then dirty (status q) else insert x (dirty (status q)))"
  by (auto simp: dirty_def status_add split: status.splits if_splits)

lemma busy_get:
  assumes "inv q" and "get q = (Item x, q')"
  shows "x \<notin> busy (status q)" and "busy (status q') = insert x (busy (status q))"
    and "x \<in> dirty (status q)" and "dirty (status q') = dirty (status q) - {x}"
  using get_not_processing [OF assms] get_item [OF assms] by (auto simp: busy_def dirty_def)

lemma busy_finish:
  assumes "inv q" and "x \<in> busy (status q)"
  shows "busy (status (finish q x)) = busy (status q) - {x}" and "dirty (status (finish q x)) = dirty (status q)"
  using status_finish [of q x] assms by (auto simp: busy_def dirty_def)

text \<open>Only \<open>Done\<close> makes a waiting item of a closing queue: nothing new enters.\<close>

lemma closing_add_noop: "inv q \<Longrightarrow> closing q \<Longrightarrow> status (add q x) = status q \<and> pending (add q x) = pending q"
  by (simp add: status_add pending_add)

text \<open>A queue with a waiting item never blocks a reader and never tells it to quit.\<close>

lemma get_when_waiting:
  assumes "inv q" and "status q y = Waiting"
  shows "\<exists>x q'. get q = (Item x, q')"
proof (cases "get q")
  case (Pair r q')
  have "pending q \<noteq> []" using pending_Waiting [OF assms(1)] assms(2) by auto
  with Pair get_blocked [OF assms(1)] get_shutdown [OF assms(1)] show ?thesis by (cases r) auto
qed

end

section \<open>The code provides it\<close>

definition wq_inv :: "'a workq \<Rightarrow> bool" where
  "wq_inv q \<longleftrightarrow> distinct (wq_queue q) \<and> set (wq_queue q) = wq_dirty q - wq_processing q"

definition wq_status :: "'a workq \<Rightarrow> 'a \<Rightarrow> status" where
  "wq_status q x =
     (if x \<in> wq_processing q then if x \<in> wq_dirty q then Again else Processing
      else if x \<in> wq_dirty q then Waiting else Idle)"

lemma wq_status_cases:
  "wq_status q x = Idle \<longleftrightarrow> x \<notin> wq_processing q \<and> x \<notin> wq_dirty q"
  "wq_status q x = Waiting \<longleftrightarrow> x \<notin> wq_processing q \<and> x \<in> wq_dirty q"
  "wq_status q x = Processing \<longleftrightarrow> x \<in> wq_processing q \<and> x \<notin> wq_dirty q"
  "wq_status q x = Again \<longleftrightarrow> x \<in> wq_processing q \<and> x \<in> wq_dirty q"
  by (simp_all add: wq_status_def)

lemma wq_Get_Item:
  assumes "wq_Get q = (Item x, q')"
  shows "wq_queue q = x # wq_queue q'" and "wq_dirty q' = wq_dirty q - {x}"
    and "wq_processing q' = insert x (wq_processing q)" and "wq_shuttingDown q' = wq_shuttingDown q"
  using assms by (auto simp: wq_Get_def split: list.splits if_splits)

lemma wq_inv_Get:
  assumes "wq_inv q" and "wq_Get q = (Item x, q')"
  shows "wq_inv q'" and "wq_status q' = (wq_status q)(x := Processing)"
proof -
  note g = wq_Get_Item [OF assms(2)]
  have d: "distinct (x # wq_queue q')" and s: "insert x (set (wq_queue q')) = wq_dirty q - wq_processing q"
    using assms(1) unfolding wq_inv_def g(1) by simp_all
  have "set (wq_queue q') = (wq_dirty q - wq_processing q) - {x}" using d s by auto
  with d g show "wq_inv q'" unfolding wq_inv_def by auto
  show "wq_status q' = (wq_status q)(x := Processing)"
    using g(2,3) by (simp add: wq_status_def fun_eq_iff)
qed

interpretation wq: work_queue wq_status wq_queue wq_shuttingDown wq_inv newQueue wq_Add wq_Get
  wq_Done wq_ShutDown
proof unfold_locales
  fix q q' :: "'a workq" and x :: 'a
  show "wq_inv (newQueue :: 'a workq)" and "wq_status newQueue x = Idle"
    and "\<not> wq_shuttingDown (newQueue :: 'a workq)"
    by (simp_all add: wq_inv_def wq_status_def newQueue_def)
  show "wq_inv q \<Longrightarrow> distinct (wq_queue q) \<and> set (wq_queue q) = {x. wq_status q x = Waiting}"
    by (auto simp: wq_inv_def wq_status_cases)
  show "wq_inv q \<Longrightarrow> wq_inv (wq_Add q x)"
    by (auto simp: wq_inv_def wq_defs)
  show "wq_status (wq_Add q x) = (if wq_shuttingDown q then wq_status q
      else (wq_status q)(x := (case wq_status q x of Idle \<Rightarrow> Waiting | Processing \<Rightarrow> Again | s \<Rightarrow> s)))"
    by (auto simp: wq_status_def wq_defs fun_eq_iff)
  show "wq_queue (wq_Add q x) =
      (if \<not> wq_shuttingDown q \<and> wq_status q x = Idle then wq_queue q @ [x] else wq_queue q)"
    by (auto simp: wq_status_def wq_defs)
  show "wq_shuttingDown (wq_Add q x) = wq_shuttingDown q" by (simp add: wq_defs)
  show "wq_Get q = (Blocked, q') \<Longrightarrow> wq_queue q = [] \<and> \<not> wq_shuttingDown q \<and> q' = q"
    and "wq_Get q = (Shutdown, q') \<Longrightarrow> wq_queue q = [] \<and> wq_shuttingDown q \<and> q' = q"
    by (auto simp: wq_defs split: list.splits if_splits)
  show "wq_inv q \<Longrightarrow> wq_Get q = (Item x, q') \<Longrightarrow>
      wq_inv q' \<and> wq_queue q = x # wq_queue q' \<and> wq_status q' = (wq_status q)(x := Processing) \<and>
      wq_shuttingDown q' = wq_shuttingDown q"
    using wq_inv_Get wq_Get_Item by metis
  show "wq_inv q \<Longrightarrow> wq_status q x \<in> {Processing, Again} \<Longrightarrow> wq_inv (wq_Done q x)"
    by (auto simp: wq_inv_def wq_defs wq_status_cases)
  show "wq_status q x \<in> {Processing, Again} \<Longrightarrow>
      wq_status (wq_Done q x) = (wq_status q)(x := if wq_status q x = Again then Waiting else Idle)"
    by (auto simp: wq_status_cases wq_Done_def Let_def) (simp_all add: wq_status_def fun_eq_iff)
  show "wq_status q x \<in> {Processing, Again} \<Longrightarrow>
      wq_queue (wq_Done q x) = (if wq_status q x = Again then wq_queue q @ [x] else wq_queue q)"
    by (auto simp: wq_status_cases wq_defs)
  show "wq_shuttingDown (wq_Done q x) = wq_shuttingDown q" by (simp add: wq_defs)
  show "wq_inv q \<Longrightarrow> wq_inv (wq_ShutDown q)" and "wq_status (wq_ShutDown q) = wq_status q"
    and "wq_queue (wq_ShutDown q) = wq_queue q" and "wq_shuttingDown (wq_ShutDown q)"
    by (simp_all add: wq_inv_def wq_status_def wq_defs fun_eq_iff)
qed

text \<open>
  \<open>Done\<close> for an item that is not being processed breaks the invariant when the item is waiting:
  the queue then holds it twice. The workers call \<open>Done\<close> only for items they got.
\<close>

lemma done_without_get_duplicates:
  "\<not> wq_inv (wq_Done (wq_Add (newQueue :: nat workq) 1) 1)"
  by (simp add: wq_inv_def wq_defs)

end
