(* ===== verification/WaitHeap.thy ===== *)
theory WaitHeap imports MTPrelude "HOL-Library.Multiset" begin

text \<open>
  The priority queue of the delaying queue: \<open>waitForPriorityQueue\<close> of
  \<open>vendor/k8s.io/client-go/util/workqueue/delaying_queue.go\<close> under Go's \<open>container/heap\<close>, and
  \<open>insert\<close>, which keeps one entry per item. Times are nanoseconds, as \<open>int\<close>.

  The code's entries are pointers with their position in the field \<open>index\<close>, and the map
  \<open>knownEntries\<close> leads from an item to its entry. An item has at most one entry in the heap, so
  the model finds the entry of an item by its position in the list (\<open>known_index\<close>); that the
  heap holds no item twice is part of the invariant.
\<close>

section \<open>The code\<close>

record 'a waitFor =
  wf_data :: 'a
  wf_readyAt :: int

definition pq_Less :: "'a waitFor list \<Rightarrow> nat \<Rightarrow> nat \<Rightarrow> bool" where
  "pq_Less h i j \<longleftrightarrow> wf_readyAt (h ! i) < wf_readyAt (h ! j)"

definition pq_Swap :: "'a waitFor list \<Rightarrow> nat \<Rightarrow> nat \<Rightarrow> 'a waitFor list" where
  "pq_Swap h i j = h[i := h ! j, j := h ! i]"

text \<open>\<open>container/heap\<close>: sifting up and down. \<open>heap_down\<close> also returns where the element ended.\<close>

function heap_up :: "'a waitFor list \<Rightarrow> nat \<Rightarrow> 'a waitFor list" where
  "heap_up h j =
     (let i = (j - 1) div 2
      in if i = j \<or> \<not> pq_Less h j i then h else heap_up (pq_Swap h i j) i)"
  by pat_completeness auto
termination by (relation "measure snd") auto

function heap_down :: "'a waitFor list \<Rightarrow> nat \<Rightarrow> nat \<Rightarrow> 'a waitFor list \<times> nat" where
  "heap_down h i n =
     (let j1 = 2 * i + 1; j2 = j1 + 1
      in if j1 \<ge> n then (h, i)
         else
           let j = (if j2 < n \<and> pq_Less h j2 j1 then j2 else j1)
           in if \<not> pq_Less h j i then (h, i) else heap_down (pq_Swap h i j) j n)"
  by pat_completeness auto
termination by (relation "measure (\<lambda>(h, i, n). n - i)") auto

declare heap_up.simps [simp del] and heap_down.simps [simp del]

definition heap_Push :: "'a waitFor list \<Rightarrow> 'a waitFor \<Rightarrow> 'a waitFor list" where
  "heap_Push h x = heap_up (h @ [x]) (length h)"

definition heap_Pop :: "'a waitFor list \<Rightarrow> 'a waitFor \<times> 'a waitFor list" where
  "heap_Pop h =
     (let n = length h - 1;
          h = fst (heap_down (pq_Swap h 0 n) 0 n)
      in (h ! n, take n h))"

definition heap_Fix :: "'a waitFor list \<Rightarrow> nat \<Rightarrow> 'a waitFor list" where
  "heap_Fix h i =
     (case heap_down h i (length h) of
        (h', i') \<Rightarrow> if i' > i then h' else heap_up h' i)"

text \<open>The position of the entry of an item: \<open>knownEntries[data].index\<close>.\<close>

fun known_index :: "'a waitFor list \<Rightarrow> 'a \<Rightarrow> nat option" where
  "known_index [] d = None"
| "known_index (e # h) d = (if wf_data e = d then Some 0 else map_option Suc (known_index h d))"

definition pq_insert :: "'a waitFor list \<Rightarrow> 'a waitFor \<Rightarrow> 'a waitFor list" where
  "pq_insert h entry =
     (case known_index h (wf_data entry) of
        Some i \<Rightarrow>
          if wf_readyAt (h ! i) > wf_readyAt entry
          then heap_Fix (h[i := (h ! i)\<lparr>wf_readyAt := wf_readyAt entry\<rparr>]) i
          else h
      | None \<Rightarrow> heap_Push h entry)"

section \<open>Swapping\<close>

lemma length_pq_Swap [simp]: "length (pq_Swap h i j) = length h"
  by (simp add: pq_Swap_def)

lemma mset_pq_Swap [simp]: "i < length h \<Longrightarrow> j < length h \<Longrightarrow> mset (pq_Swap h i j) = mset h"
  by (simp add: pq_Swap_def mset_swap)

lemma nth_pq_Swap:
  "i < length h \<Longrightarrow> j < length h \<Longrightarrow> k < length h \<Longrightarrow>
   pq_Swap h i j ! k = (if k = j then h ! i else if k = i then h ! j else h ! k)"
  by (simp add: pq_Swap_def nth_list_update)

definition parent :: "nat \<Rightarrow> nat" where
  "parent i = (i - 1) div 2"

lemma parent_less: "0 < k \<Longrightarrow> parent k < k"
  unfolding parent_def by linarith

lemma parent_le: "parent k \<le> k"
  unfolding parent_def by linarith

lemma parent_eq_iff: "0 < k \<Longrightarrow> parent k = i \<longleftrightarrow> k = 2 * i + 1 \<or> k = 2 * i + 2"
  unfolding parent_def by linarith

lemma heap_up_eq:
  "heap_up h j =
     (if parent j = j \<or> \<not> pq_Less h j (parent j) then h else heap_up (pq_Swap h (parent j) j) (parent j))"
  by (subst heap_up.simps) (simp add: Let_def parent_def)

lemma heap_up_perm: "j < length h \<Longrightarrow> mset (heap_up h j) = mset h \<and> length (heap_up h j) = length h"
proof (induction h j rule: heap_up.induct)
  case (1 h j)
  have "parent j < length h" using 1(2) parent_le [of j] by linarith
  with 1 show ?case by (subst (1 2) heap_up_eq) (auto simp: Let_def parent_def)
qed

lemma heap_down_perm:
  "i < length h \<Longrightarrow> n \<le> length h \<Longrightarrow>
   mset (fst (heap_down h i n)) = mset h \<and> length (fst (heap_down h i n)) = length h"
proof (induction h i n rule: heap_down.induct)
  case (1 h i n)
  then show ?case by (subst (1 2) heap_down.simps) (auto simp: Let_def)
qed

section \<open>The heap property\<close>

abbreviation ready :: "'a waitFor list \<Rightarrow> nat \<Rightarrow> int" where
  "ready h i \<equiv> wf_readyAt (h ! i)"

text \<open>On the first \<open>n\<close> elements; \<open>pq_heap\<close> on all.\<close>

definition heap_upto :: "'a waitFor list \<Rightarrow> nat \<Rightarrow> bool" where
  "heap_upto h n \<longleftrightarrow> (\<forall>k. 0 < k \<and> k < n \<longrightarrow> ready h (parent k) \<le> ready h k)"

definition pq_heap :: "'a waitFor list \<Rightarrow> bool" where
  "pq_heap h \<longleftrightarrow> heap_upto h (length h)"

text \<open>A heap but for the element at \<open>j\<close>, which may be too small (up) or too large (down).\<close>

definition up_inv :: "'a waitFor list \<Rightarrow> nat \<Rightarrow> bool" where
  "up_inv h j \<longleftrightarrow>
     (\<forall>k. 0 < k \<and> k < length h \<and> k \<noteq> j \<longrightarrow> ready h (parent k) \<le> ready h k) \<and>
     (\<forall>k. 0 < k \<and> k < length h \<and> parent k = j \<and> 0 < j \<longrightarrow> ready h (parent j) \<le> ready h k)"

definition down_inv :: "'a waitFor list \<Rightarrow> nat \<Rightarrow> nat \<Rightarrow> bool" where
  "down_inv h i n \<longleftrightarrow>
     (\<forall>k. 0 < k \<and> k < n \<and> parent k \<noteq> i \<longrightarrow> ready h (parent k) \<le> ready h k) \<and>
     (\<forall>k. 0 < k \<and> k < n \<and> parent k = i \<and> 0 < i \<longrightarrow> ready h (parent i) \<le> ready h k)"

lemma up_inv_Swap:
  assumes inv: "up_inv h j" and j: "j < length h" "parent j \<noteq> j" and less: "pq_Less h j (parent j)"
  shows "up_inv (pq_Swap h (parent j) j) (parent j)"
proof -
  let ?p = "parent j" and ?h = "pq_Swap h (parent j) j"
  have j0: "0 < j" using j by (cases j) (simp_all add: parent_def)
  then have pj: "?p < j" by (rule parent_less)
  have p: "?p < length h" using pj j by linarith
  note n = nth_pq_Swap [OF p j(1)]
  have lt: "ready h j < ready h ?p" using less by (simp add: pq_Less_def)
  have A: "\<And>k. 0 < k \<Longrightarrow> k < length h \<Longrightarrow> k \<noteq> j \<Longrightarrow> ready h (parent k) \<le> ready h k"
    and B: "\<And>k. 0 < k \<Longrightarrow> k < length h \<Longrightarrow> parent k = j \<Longrightarrow> ready h ?p \<le> ready h k"
    using inv j0 by (auto simp: up_inv_def)
  have "ready ?h (parent k) \<le> ready ?h k" if k: "0 < k" "k < length h" "k \<noteq> ?p" for k
  proof -
    have pk: "parent k < length h" using k parent_less [of k] by linarith
    consider "k = j" | "k \<noteq> j" "parent k = ?p" | "k \<noteq> j" "parent k = j" | "k \<noteq> j" "parent k \<noteq> ?p" "parent k \<noteq> j"
      by blast
    then show ?thesis
    proof cases
      case 1
      then show ?thesis using lt pj by (simp add: n j p)
    next
      case 2
      then show ?thesis using lt A [OF k(1,2)] k(3) pj by (simp add: n j p k)
    next
      case 3
      then show ?thesis using B [OF k(1,2)] k(3) by (simp add: n j k)
    next
      case 4
      then show ?thesis using A [OF k(1,2)] k(3) pk by (simp add: n k)
    qed
  qed
  moreover have "ready ?h (parent ?p) \<le> ready ?h k"
    if k: "0 < k" "k < length h" "parent k = ?p" "0 < ?p" for k
  proof -
    have pp: "parent ?p < ?p" using k(4) by (rule parent_less)
    have "ready h (parent ?p) \<le> ready h ?p" using A [of ?p] k(4) p pj by simp
    then show ?thesis
      using A [OF k(1,2)] k parent_less [OF k(1)] pp pj p by (auto simp: n)
  qed
  ultimately show ?thesis by (simp add: up_inv_def)
qed

lemma up_inv_stop:
  assumes "up_inv h j" and "j < length h" and "parent j = j \<or> \<not> pq_Less h j (parent j)"
  shows "pq_heap h"
proof -
  have "ready h (parent k) \<le> ready h k" if "0 < k" "k < length h" for k
  proof (cases "k = j")
    case True
    with that assms(3) parent_less [of j] show ?thesis by (auto simp: pq_Less_def)
  qed (use assms(1) that in \<open>auto simp: up_inv_def\<close>)
  then show ?thesis by (simp add: pq_heap_def heap_upto_def)
qed

lemma heap_up_heap: "up_inv h j \<Longrightarrow> j < length h \<Longrightarrow> pq_heap (heap_up h j)"
proof (induction h j rule: heap_up.induct)
  case (1 h j)
  show ?case
  proof (cases "parent j = j \<or> \<not> pq_Less h j (parent j)")
    case True
    then have "heap_up h j = h" by (subst heap_up_eq) auto
    with up_inv_stop [OF 1(2,3) True] show ?thesis by simp
  next
    case False
    then have "heap_up h j = heap_up (pq_Swap h (parent j) j) (parent j)"
      by (subst heap_up_eq) simp
    moreover have "parent j < length (pq_Swap h (parent j) j)" using 1(3) parent_le [of j] by simp
    ultimately show ?thesis
      using 1(1) [of "parent j"] False up_inv_Swap [OF 1(2,3)] by (simp add: parent_def)
  qed
qed

text \<open>The child that \<open>down\<close> compares with, and what it is.\<close>

definition small_child :: "'a waitFor list \<Rightarrow> nat \<Rightarrow> nat \<Rightarrow> nat" where
  "small_child h i n =
     (if 2 * i + 2 < n \<and> pq_Less h (2 * i + 2) (2 * i + 1) then 2 * i + 2 else 2 * i + 1)"

lemma heap_down_eq:
  "heap_down h i n =
     (if n \<le> 2 * i + 1 \<or> \<not> pq_Less h (small_child h i n) i then (h, i)
      else heap_down (pq_Swap h i (small_child h i n)) (small_child h i n) n)"
  by (subst heap_down.simps) (auto simp: Let_def small_child_def)

lemma small_child:
  assumes "2 * i + 1 < n"
  shows "small_child h i n < n" and "parent (small_child h i n) = i" and "i < small_child h i n"
    and "\<And>k. 0 < k \<Longrightarrow> k < n \<Longrightarrow> parent k = i \<Longrightarrow> ready h (small_child h i n) \<le> ready h k"
  using assms by (auto simp: small_child_def parent_eq_iff pq_Less_def)

lemma down_inv_Swap:
  assumes inv: "down_inv h i n" and n: "n \<le> length h" "2 * i + 1 < n"
    and less: "pq_Less h (small_child h i n) i"
  shows "down_inv (pq_Swap h i (small_child h i n)) (small_child h i n) n"
proof -
  define c where "c = small_child h i n"
  let ?h = "pq_Swap h i c"
  note sc = small_child [where h = h, OF n(2), folded c_def]
  have ic: "i < length h" "c < length h" using n sc(1) by linarith+
  note nth = nth_pq_Swap [OF ic]
  have lt: "ready h c < ready h i" using less by (simp add: pq_Less_def c_def)
  have A: "\<And>k. 0 < k \<Longrightarrow> k < n \<Longrightarrow> parent k \<noteq> i \<Longrightarrow> ready h (parent k) \<le> ready h k"
    and B: "\<And>k. 0 < k \<Longrightarrow> k < n \<Longrightarrow> parent k = i \<Longrightarrow> 0 < i \<Longrightarrow> ready h (parent i) \<le> ready h k"
    using inv by (auto simp: down_inv_def)
  have "ready ?h (parent k) \<le> ready ?h k" if k: "0 < k" "k < n" "parent k \<noteq> c" for k
  proof -
    have pk: "parent k < k" using k(1) by (rule parent_less)
    have kl: "k < length h" "parent k < length h" using k n(1) pk by linarith+
    consider "k = c" | "k \<noteq> c" "parent k = i" | "k = i" | "k \<noteq> c" "k \<noteq> i" "parent k \<noteq> i" by blast
    then show ?thesis
    proof cases
      case 1
      then show ?thesis using lt sc(2,3) by (simp add: nth ic)
    next
      case 2
      then have "k \<noteq> i" using pk by auto
      with 2 show ?thesis using sc(4) [OF k(1,2)] sc(3) by (simp add: nth kl ic)
    next
      case 3
      have "ready h (parent i) \<le> ready h c" using B [of c] sc k(1) 3 by auto
      with 3 show ?thesis using k(3) pk sc(3) kl by (simp add: nth)
    next
      case 4
      then show ?thesis using A [OF k(1,2)] k(3) kl by (simp add: nth)
    qed
  qed
  moreover have "ready ?h (parent c) \<le> ready ?h k" if k: "0 < k" "k < n" "parent k = c" for k
  proof -
    have "c < k" using parent_less [OF k(1)] k(3) by simp
    moreover have "ready h c \<le> ready h k" using A [OF k(1,2)] k(3) sc(3) by simp
    ultimately show ?thesis using sc(2,3) k n(1) ic by (simp add: nth)
  qed
  ultimately show ?thesis unfolding down_inv_def c_def [symmetric] by blast
qed

lemma down_inv_stop:
  assumes inv: "down_inv h i n" and "n \<le> 2 * i + 1 \<or> \<not> pq_Less h (small_child h i n) i"
  shows "heap_upto h n"
  unfolding heap_upto_def
proof (intro allI impI)
  fix k assume k: "0 < k \<and> k < n"
  show "ready h (parent k) \<le> ready h k"
  proof (cases "parent k = i")
    case True
    then have "2 * i + 1 < n" using k by (auto simp: parent_eq_iff)
    with assms(2) small_child(4) [OF this, of k h] k True show ?thesis by (auto simp: pq_Less_def)
  next
    case False
    with inv k show ?thesis by (simp add: down_inv_def)
  qed
qed

lemma heap_down_heap:
  "down_inv h i n \<Longrightarrow> n \<le> length h \<Longrightarrow> i < length h \<Longrightarrow> heap_upto (fst (heap_down h i n)) n"
proof (induction "n - i" arbitrary: h i rule: less_induct)
  case less
  show ?case
  proof (cases "n \<le> 2 * i + 1 \<or> \<not> pq_Less h (small_child h i n) i")
    case True
    with down_inv_stop [OF less(2) True] show ?thesis by (subst heap_down_eq) auto
  next
    case False
    let ?c = "small_child h i n"
    have c: "2 * i + 1 < n" using False by simp
    note sc = small_child [where h = h, OF c]
    have "heap_upto (fst (heap_down (pq_Swap h i ?c) ?c n)) n"
      using less(1) [of ?c "pq_Swap h i ?c"] sc less(3) down_inv_Swap [OF less(2,3) c] False by simp
    then show ?thesis using False by (subst heap_down_eq) simp
  qed
qed

text \<open>\<open>down\<close> touches only the first \<open>n\<close> elements.\<close>

lemma heap_down_frame:
  "n \<le> length h \<Longrightarrow> i < length h \<Longrightarrow> n \<le> k \<Longrightarrow> fst (heap_down h i n) ! k = h ! k"
proof (induction "n - i" arbitrary: h i rule: less_induct)
  case less
  show ?case
  proof (cases "n \<le> 2 * i + 1 \<or> \<not> pq_Less h (small_child h i n) i")
    case True
    then show ?thesis by (subst heap_down_eq) auto
  next
    case False
    let ?c = "small_child h i n"
    have c: "2 * i + 1 < n" using False by simp
    note sc = small_child [where h = h, OF c]
    have "fst (heap_down (pq_Swap h i ?c) ?c n) ! k = pq_Swap h i ?c ! k"
      using less(1) [of ?c "pq_Swap h i ?c"] sc less(2-4) by simp
    also have "pq_Swap h i ?c ! k = h ! k" using sc c less(4) by (simp add: pq_Swap_def)
    finally show ?thesis using False by (subst heap_down_eq) simp
  qed
qed

section \<open>The root and the operations\<close>

lemma pq_heap_root: "pq_heap h \<Longrightarrow> k < length h \<Longrightarrow> ready h 0 \<le> ready h k"
proof (induction k rule: less_induct)
  case (less k)
  show ?case
  proof (cases "k = 0")
    case False
    then have "parent k < k" by (simp add: parent_less)
    with less have "ready h 0 \<le> ready h (parent k)" by simp
    also have "\<dots> \<le> ready h k" using less(2,3) False by (simp add: pq_heap_def heap_upto_def)
    finally show ?thesis .
  qed simp
qed

lemma heap_Push: 
  assumes "pq_heap h"
  shows "pq_heap (heap_Push h x)" and "mset (heap_Push h x) = add_mset x (mset h)"
proof -
  have "up_inv (h @ [x]) (length h)"
    using assms parent_less
    by (auto simp: up_inv_def pq_heap_def heap_upto_def nth_append parent_eq_iff less_Suc_eq)
      (meson less_trans parent_less)+
  then show "pq_heap (heap_Push h x)" unfolding heap_Push_def by (rule heap_up_heap) simp
  show "mset (heap_Push h x) = add_mset x (mset h)"
    using heap_up_perm [of "length h" "h @ [x]"] by (simp add: heap_Push_def)
qed

lemma heap_Pop:
  assumes heap: "pq_heap h" and ne: "h \<noteq> []" and pop: "heap_Pop h = (x, h')"
  shows "x = h ! 0" and "pq_heap h'" and "mset h = add_mset x (mset h')"
proof -
  define n where "n = length h - 1"
  define g where "g = fst (heap_down (pq_Swap h 0 n) 0 n)"
  have n: "length h = Suc n" "n < length h" using ne by (simp_all add: n_def)
  have perm: "mset g = mset h" "length g = Suc n"
    using heap_down_perm [of 0 "pq_Swap h 0 n" n] n by (simp_all add: g_def)
  have "g ! n = pq_Swap h 0 n ! n"
    using heap_down_frame [of n "pq_Swap h 0 n" 0 n] n by (simp add: g_def)
  also have "\<dots> = h ! 0" using n ne by (simp add: nth_pq_Swap)
  finally have gn: "g ! n = h ! 0" .
  have x: "x = g ! n" and h': "h' = take n g"
    using pop by (simp_all add: heap_Pop_def n_def g_def Let_def)
  show "x = h ! 0" using x gn by simp
  have "down_inv (pq_Swap h 0 n) 0 n"
    unfolding down_inv_def
  proof (intro conjI allI impI)
    fix k assume k: "0 < k \<and> k < n \<and> parent k \<noteq> 0"
    then have "parent k < n" using parent_less [of k] by linarith
    moreover have "ready h (parent k) \<le> ready h k"
      using heap k n by (simp add: pq_heap_def heap_upto_def)
    ultimately show "ready (pq_Swap h 0 n) (parent k) \<le> ready (pq_Swap h 0 n) k"
      using k n ne by (simp add: nth_pq_Swap)
  qed simp
  then have "heap_upto g n" unfolding g_def by (rule heap_down_heap) (use n in auto)
  then show "pq_heap h'"
    using perm(2) parent_less unfolding h' pq_heap_def heap_upto_def
    by (auto simp: min_def) (metis less_trans nth_take parent_less)
  have "g = h' @ [x]" using take_Suc_conv_app_nth [of n g] perm(2) by (simp add: h' x)
  then have "mset g = add_mset x (mset h')" by simp
  then show "mset h = add_mset x (mset h')" using perm(1) by simp
qed

text \<open>Moving an entry forward in time: \<open>down\<close> does not move it, \<open>up\<close> repairs the heap.\<close>

lemma heap_Fix_decrease:
  assumes heap: "pq_heap h" and i: "i < length h" and less: "wf_readyAt e \<le> ready h i"
  shows "pq_heap (heap_Fix (h[i := e]) i)" and "mset (heap_Fix (h[i := e]) i) = mset (h[i := e])"
proof -
  let ?h = "h[i := e]"
  have A: "\<And>k. 0 < k \<Longrightarrow> k < length h \<Longrightarrow> ready h (parent k) \<le> ready h k"
    using heap by (simp add: pq_heap_def heap_upto_def)
  have stop: "length ?h \<le> 2 * i + 1 \<or> \<not> pq_Less ?h (small_child ?h i (length ?h)) i"
  proof (cases "2 * i + 1 < length ?h")
    case True
    note sc = small_child [where h = ?h, OF True]
    have "ready h i \<le> ready h (small_child ?h i (length ?h))"
      using A [of "small_child ?h i (length ?h)"] sc(1,2,3) by simp
    then show ?thesis using less i sc(3) by (simp add: pq_Less_def)
  qed simp
  then have "heap_down ?h i (length ?h) = (?h, i)" by (subst heap_down_eq) simp
  then have fx: "heap_Fix ?h i = heap_up ?h i" by (simp add: heap_Fix_def)
  have "ready ?h (parent k) \<le> ready ?h k" if k: "0 < k" "k < length h" "k \<noteq> i" for k
    using A [OF k(1,2)] less k i by (cases "parent k = i") auto
  moreover have "ready ?h (parent i) \<le> ready ?h k" if k: "0 < k" "k < length h" "parent k = i" "0 < i" for k
  proof -
    have "parent i < i" using k(4) by (rule parent_less)
    moreover have "ready h (parent i) \<le> ready h i" using A [OF k(4) i] .
    ultimately show ?thesis using A [OF k(1,2)] k parent_less [OF k(1)] by simp
  qed
  ultimately have "up_inv ?h i" by (simp add: up_inv_def)
  with i show "pq_heap (heap_Fix ?h i)" unfolding fx by (intro heap_up_heap) simp_all
  show "mset (heap_Fix ?h i) = mset ?h" using heap_up_perm [of i ?h] i by (simp add: fx)
qed

section \<open>The interface: the earliest time of each item\<close>

text \<open>
  What the waiting loop relies on: a map from items to times, in which inserting keeps the
  earlier time and popping returns an item with the smallest.
\<close>

locale earliest_queue =
  fixes times :: "'h \<Rightarrow> 'a \<rightharpoonup> int"
    and inv :: "'h \<Rightarrow> bool"
    and nil :: 'h
    and is_nil :: "'h \<Rightarrow> bool"
    and peek :: "'h \<Rightarrow> 'a waitFor"
    and insert_entry :: "'h \<Rightarrow> 'a waitFor \<Rightarrow> 'h"
    and pop :: "'h \<Rightarrow> 'a waitFor \<times> 'h"
  assumes inv_nil: "inv nil" and times_nil: "times nil = Map.empty"
    and is_nil_iff: "inv h \<Longrightarrow> is_nil h \<longleftrightarrow> times h = Map.empty"
    and inv_insert: "inv h \<Longrightarrow> inv (insert_entry h e)"
    and times_insert: "inv h \<Longrightarrow> times (insert_entry h e) =
          (times h)(wf_data e \<mapsto> (case times h (wf_data e) of None \<Rightarrow> wf_readyAt e
                                 | Some t \<Rightarrow> min t (wf_readyAt e)))"
    and times_peek: "inv h \<Longrightarrow> \<not> is_nil h \<Longrightarrow> times h (wf_data (peek h)) = Some (wf_readyAt (peek h))"
    and peek_least: "inv h \<Longrightarrow> times h d = Some t \<Longrightarrow> wf_readyAt (peek h) \<le> t"
    and pop_entry: "inv h \<Longrightarrow> \<not> is_nil h \<Longrightarrow> pop h = (e, h') \<Longrightarrow>
          e = peek h \<and> inv h' \<and> times h' = (times h)(wf_data e := None)"
begin

lemma peek_future:
  assumes "inv h" and "is_nil h \<or> wf_readyAt (peek h) > now"
  shows "\<forall>d t. times h d = Some t \<longrightarrow> t > now"
  using assms is_nil_iff [OF assms(1)] peek_least [OF assms(1)] by fastforce

end

definition pq_times :: "'a waitFor list \<Rightarrow> 'a \<rightharpoonup> int" where
  "pq_times h = map_of (map (\<lambda>e. (wf_data e, wf_readyAt e)) h)"

definition pq_inv :: "'a waitFor list \<Rightarrow> bool" where
  "pq_inv h \<longleftrightarrow> pq_heap h \<and> distinct (map wf_data h)"

lemma pq_times_Some:
  "distinct (map wf_data h) \<Longrightarrow> pq_times h d = Some t \<longleftrightarrow> (\<exists>e\<in>set h. wf_data e = d \<and> wf_readyAt e = t)"
  unfolding pq_times_def by (subst map_of_eq_Some_iff) (auto simp: o_def)

lemma pq_times_None: "pq_times h d = None \<longleftrightarrow> d \<notin> wf_data ` set h"
  by (auto simp: pq_times_def map_of_eq_None_iff image_image)

lemma distinct_data_mset:
  "mset h = mset h' \<Longrightarrow> distinct (map wf_data h) = distinct (map wf_data h')"
  by (metis mset_eq_imp_distinct_iff mset_map)

lemma pq_times_mset:
  assumes "mset h = mset h'" and "distinct (map wf_data h)"
  shows "pq_times h = pq_times h'"
proof
  fix d
  have "distinct (map wf_data h')" using assms distinct_data_mset by blast
  moreover have "set h = set h'" using assms(1) by (rule mset_eq_setD)
  ultimately show "pq_times h d = pq_times h' d"
    using pq_times_Some [OF assms(2)] pq_times_Some [of h'] by (metis option.exhaust)
qed

lemma known_index_None: "known_index h d = None \<longleftrightarrow> d \<notin> wf_data ` set h"
  by (induction h) auto

lemma known_index_Some: "known_index h d = Some i \<Longrightarrow> i < length h \<and> wf_data (h ! i) = d"
  by (induction h arbitrary: i) (auto split: if_splits)

lemma bex_set_split:
  "i < length h \<Longrightarrow> (\<exists>a\<in>set h. P a) \<longleftrightarrow> P (h ! i) \<or> (\<exists>k<length h. k \<noteq> i \<and> P (h ! k))"
  by (metis in_set_conv_nth)

lemma bex_set_update:
  "i < length h \<Longrightarrow> (\<exists>a\<in>set (h[i := e]). P a) \<longleftrightarrow> P e \<or> (\<exists>k<length h. k \<noteq> i \<and> P (h ! k))"
  using bex_set_split [of i "h[i := e]" P] by auto

lemma pq_times_update:
  assumes "i < length h" and "distinct (map wf_data h)" and "wf_data e = wf_data (h ! i)"
  shows "pq_times (h[i := e]) = (pq_times h)(wf_data e \<mapsto> wf_readyAt e)"
    and "distinct (map wf_data (h[i := e]))"
proof -
  have "map wf_data (h[i := e]) = map wf_data h"
    using assms by (simp add: map_update list_update_same_conv)
  then show d: "distinct (map wf_data (h[i := e]))" using assms(2) by metis
  have keys: "wf_data (h ! k) = wf_data (h ! i) \<longleftrightarrow> k = i" if "k < length h" for k
    using assms(1,2) that by (metis length_map nth_eq_iff_index_eq nth_map)
  show "pq_times (h[i := e]) = (pq_times h)(wf_data e \<mapsto> wf_readyAt e)"
  proof
    fix x
    show "pq_times (h[i := e]) x = ((pq_times h)(wf_data e \<mapsto> wf_readyAt e)) x"
    proof (cases "x = wf_data e")
      case True
      have "e \<in> set (h[i := e])" using assms(1) by (rule set_update_memI)
      with True show ?thesis using pq_times_Some [OF d] by fastforce
    next
      case False
      have "(\<exists>a\<in>set (h[i := e]). wf_data a = x \<and> wf_readyAt a = t) \<longleftrightarrow>
            (\<exists>a\<in>set h. wf_data a = x \<and> wf_readyAt a = t)" for t
        using False assms(1,3) unfolding bex_set_update [OF assms(1)] bex_set_split [OF assms(1)] by auto
      then have "pq_times (h[i := e]) x = Some t \<longleftrightarrow> pq_times h x = Some t" for t
        using pq_times_Some [OF d] pq_times_Some [OF assms(2)] by metis
      with False show ?thesis by (metis fun_upd_apply option.exhaust)
    qed
  qed
qed

lemma pq_insert:
  assumes "pq_inv h"
  shows "pq_inv (pq_insert h e)" and "pq_times (pq_insert h e) =
    (pq_times h)(wf_data e \<mapsto> (case pq_times h (wf_data e) of None \<Rightarrow> wf_readyAt e
                              | Some t \<Rightarrow> min t (wf_readyAt e)))"
proof -
  have heap: "pq_heap h" and dist: "distinct (map wf_data h)" using assms by (simp_all add: pq_inv_def)
  have "pq_inv (pq_insert h e) \<and> pq_times (pq_insert h e) =
    (pq_times h)(wf_data e \<mapsto> (case pq_times h (wf_data e) of None \<Rightarrow> wf_readyAt e
                              | Some t \<Rightarrow> min t (wf_readyAt e)))"
  proof (cases "known_index h (wf_data e)")
    case None
    then have new: "pq_times h (wf_data e) = None" by (simp add: known_index_None pq_times_None)
    have m: "mset (pq_insert h e) = mset (e # h)" using heap_Push(2) [OF heap] None by (simp add: pq_insert_def)
    have d: "distinct (map wf_data (e # h))" using dist None by (simp add: known_index_None)
    have "distinct (map wf_data (pq_insert h e))" using d distinct_data_mset [OF m] by simp
    moreover have "pq_times (pq_insert h e) = pq_times (e # h)"
      using pq_times_mset [OF m [symmetric] d] by simp
    ultimately show ?thesis
      using heap_Push(1) [OF heap] None new by (simp add: pq_inv_def pq_insert_def pq_times_def)
  next
    case (Some i)
    then have i: "i < length h" "wf_data (h ! i) = wf_data e" by (simp_all add: known_index_Some)
    then have t: "pq_times h (wf_data e) = Some (ready h i)" using pq_times_Some [OF dist] by (metis nth_mem)
    show ?thesis
    proof (cases "ready h i > wf_readyAt e")
      case True
      let ?e = "(h ! i)\<lparr>wf_readyAt := wf_readyAt e\<rparr>"
      note up = pq_times_update [OF i(1) dist, of ?e]
      have eq: "pq_insert h e = heap_Fix (h[i := ?e]) i" using Some True by (simp add: pq_insert_def)
      have fx: "pq_heap (heap_Fix (h[i := ?e]) i)" "mset (heap_Fix (h[i := ?e]) i) = mset (h[i := ?e])"
        using heap_Fix_decrease [OF heap i(1), of ?e] True by simp_all
      have "distinct (map wf_data (heap_Fix (h[i := ?e]) i))"
        using up(2) distinct_data_mset [OF fx(2)] by simp
      moreover have "pq_times (heap_Fix (h[i := ?e]) i) = (pq_times h)(wf_data e \<mapsto> wf_readyAt e)"
        using pq_times_mset [OF fx(2) calculation] up(1) i(2) by simp
      ultimately show ?thesis using fx(1) True t by (simp add: eq pq_inv_def)
    next
      case False
      then have "pq_insert h e = h" using Some by (simp add: pq_insert_def)
      with assms False t show ?thesis by (simp add: min_def fun_upd_idem)
    qed
  qed
  then show "pq_inv (pq_insert h e)" and "pq_times (pq_insert h e) =
    (pq_times h)(wf_data e \<mapsto> (case pq_times h (wf_data e) of None \<Rightarrow> wf_readyAt e
                              | Some t \<Rightarrow> min t (wf_readyAt e)))" by simp_all
qed

interpretation pq: earliest_queue pq_times pq_inv "[]" "\<lambda>h. h = []" "\<lambda>h. h ! 0" pq_insert heap_Pop
proof unfold_locales
  fix h h' :: "'a waitFor list" and e :: "'a waitFor" and d t
  show "pq_inv ([] :: 'a waitFor list)" by (simp add: pq_inv_def pq_heap_def heap_upto_def)
  show "pq_times ([] :: 'a waitFor list) = Map.empty" by (simp add: pq_times_def)
  show "h = [] \<longleftrightarrow> pq_times h = Map.empty"
    by (metis empty_iff empty_set image_is_empty list.exhaust list.set_intros(1) pq_times_None rev_image_eqI)
  show "pq_inv h \<Longrightarrow> pq_inv (pq_insert h e)" by (rule pq_insert(1))
  show "pq_inv h \<Longrightarrow> pq_times (pq_insert h e) =
      (pq_times h)(wf_data e \<mapsto> (case pq_times h (wf_data e) of None \<Rightarrow> wf_readyAt e
                                | Some t \<Rightarrow> min t (wf_readyAt e)))"
    by (rule pq_insert(2))
  show "pq_inv h \<Longrightarrow> h \<noteq> [] \<Longrightarrow> pq_times h (wf_data (h ! 0)) = Some (ready h 0)"
    using pq_times_Some [of h] by (auto simp: pq_inv_def)
  show "pq_inv h \<Longrightarrow> pq_times h d = Some t \<Longrightarrow> ready h 0 \<le> t"
    using pq_times_Some [of h] pq_heap_root [of h] by (auto simp: pq_inv_def in_set_conv_nth)
  show "e = h ! 0 \<and> pq_inv h' \<and> pq_times h' = (pq_times h)(wf_data e := None)"
    if "pq_inv h" "h \<noteq> []" "heap_Pop h = (e, h')"
  proof -
    have heap: "pq_heap h" and dist: "distinct (map wf_data h)" using that(1) by (simp_all add: pq_inv_def)
    note pop = heap_Pop [OF heap that(2,3)]
    have m: "mset h = mset (e # h')" using pop(3) by simp
    have d: "distinct (map wf_data (e # h'))" using dist distinct_data_mset [OF m] by simp
    have "pq_times h = pq_times (e # h')" by (rule pq_times_mset [OF m dist])
    then have "pq_times h = (pq_times h')(wf_data e \<mapsto> wf_readyAt e)" by (simp add: pq_times_def)
    moreover have "pq_times h' (wf_data e) = None" using d by (simp add: pq_times_None)
    ultimately show ?thesis using pop d by (simp add: pq_inv_def fun_upd_idem)
  qed
qed

end
