(* ===== verification/RateLimiters.thy ===== *)
theory RateLimiters imports MTPrelude begin

text \<open>
  The rate limiters of client-go (\<open>util/workqueue/default_rate_limiters.go\<close>): how long an item
  that failed waits before it is queued again. Durations are nanoseconds, as \<open>int\<close>.

  The exponential limiter computes \<open>baseDelay * 2^failures\<close> in float64, which is exact for a base
  below \<open>2^53\<close> as long as the result does not overflow, and an overflowed one is above every
  int64; so the model computes in integers. The conversion of a float64 equal to \<open>2^63\<close> to int64
  is the one amd64 makes, \<open>-2^63\<close>. Failure counters are unbounded here.

  The token bucket of golang.org/x/time/rate computes with the wall clock and float64 tokens;
  what it answers is an input of the model: the \<open>n\<close>-th delay it returns.
\<close>

section \<open>The code\<close>

datatype 'a limiter =
    ItemExponential "'a \<rightharpoonup> nat" int int
  | ItemFastSlow "'a \<rightharpoonup> nat" int int nat
  | TokenBucket "nat \<Rightarrow> int" nat
  | MaxOf "'a limiter list"
  | WithMaxWait "'a limiter" int

text \<open>Reading a missing key of the failure map gives 0.\<close>

definition failures_of :: "('a \<rightharpoonup> nat) \<Rightarrow> 'a \<Rightarrow> nat" where
  "failures_of m item = (case m item of None \<Rightarrow> 0 | Some n \<Rightarrow> n)"

lemma failures_of_upd [simp]:
  "failures_of (m(x \<mapsto> n)) y = (if y = x then n else failures_of m y)"
  "failures_of (m(x := None)) y = (if y = x then 0 else failures_of m y)"
  "failures_of Map.empty y = 0"
  by (simp_all add: failures_of_def)

definition exponential_delay :: "int \<Rightarrow> int \<Rightarrow> nat \<Rightarrow> int" where
  "exponential_delay baseDelay maxDelay exp =
     (let backoff = baseDelay * 2 ^ exp
      in if backoff > 2 ^ 63 then maxDelay
         else
           let calculated = (if backoff = 2 ^ 63 then - (2 ^ 63) else backoff)
           in if calculated > maxDelay then maxDelay else calculated)"

fun limiter_When :: "'a limiter \<Rightarrow> 'a \<Rightarrow> int \<times> 'a limiter"
  and limiters_When :: "'a limiter list \<Rightarrow> 'a \<Rightarrow> int \<Rightarrow> int \<times> 'a limiter list" where
  "limiter_When (ItemExponential failures baseDelay maxDelay) item =
     (let exp = failures_of failures item
      in (exponential_delay baseDelay maxDelay exp,
          ItemExponential (failures(item \<mapsto> exp + 1)) baseDelay maxDelay))"
| "limiter_When (ItemFastSlow failures fastDelay slowDelay maxFastAttempts) item =
     (let n = failures_of failures item + 1
      in (if n \<le> maxFastAttempts then fastDelay else slowDelay,
          ItemFastSlow (failures(item \<mapsto> n)) fastDelay slowDelay maxFastAttempts))"
| "limiter_When (TokenBucket delays n) item = (delays n, TokenBucket delays (n + 1))"
| "limiter_When (MaxOf ls) item =
     (case limiters_When ls item 0 of (longest, ls') \<Rightarrow> (longest, MaxOf ls'))"
| "limiter_When (WithMaxWait l maxDelay) item =
     (case limiter_When l item of
        (delay, l') \<Rightarrow> (if delay > maxDelay then maxDelay else delay, WithMaxWait l' maxDelay))"
| "limiters_When [] item longest = (longest, [])"
| "limiters_When (l # ls) item longest =
     (case limiter_When l item of
        (this_one, l') \<Rightarrow>
          (case limiters_When ls item (if this_one > longest then this_one else longest) of
             (longest', ls') \<Rightarrow> (longest', l' # ls')))"

fun limiter_NumRequeues :: "'a limiter \<Rightarrow> 'a \<Rightarrow> nat" where
  "limiter_NumRequeues (ItemExponential failures b m) item = failures_of failures item"
| "limiter_NumRequeues (ItemFastSlow failures f s m) item = failures_of failures item"
| "limiter_NumRequeues (TokenBucket ds n) item = 0"
| "limiter_NumRequeues (MaxOf ls) item =
     fold (\<lambda>this_one longest. if this_one > longest then this_one else longest) (map (\<lambda>l. limiter_NumRequeues l item) ls) 0"
| "limiter_NumRequeues (WithMaxWait l m) item = limiter_NumRequeues l item"

fun limiter_Forget :: "'a limiter \<Rightarrow> 'a \<Rightarrow> 'a limiter" where
  "limiter_Forget (ItemExponential failures b m) item = ItemExponential (failures(item := None)) b m"
| "limiter_Forget (ItemFastSlow failures f s m) item = ItemFastSlow (failures(item := None)) f s m"
| "limiter_Forget (TokenBucket ds n) item = TokenBucket ds n"
| "limiter_Forget (MaxOf ls) item = MaxOf (map (\<lambda>l. limiter_Forget l item) ls)"
| "limiter_Forget (WithMaxWait l m) item = WithMaxWait (limiter_Forget l item) m"

text \<open>5 ms doubling up to 1000 s per item, and a bucket of 100 tokens at 10 per second overall.\<close>

definition DefaultControllerRateLimiter :: "(nat \<Rightarrow> int) \<Rightarrow> 'a limiter" where
  "DefaultControllerRateLimiter bucket =
     MaxOf [ItemExponential Map.empty (5 * 10 ^ 6) (1000 * 10 ^ 9), TokenBucket bucket 0]"

section \<open>The delay of an item\<close>

lemma five_ms_not_2_63: "5 * 10 ^ 6 * 2 ^ n \<noteq> (2 :: int) ^ 63"
proof
  assume eq: "5 * 10 ^ 6 * 2 ^ n = (2 :: int) ^ 63"
  have "(5 :: int) dvd 2 ^ 63" unfolding eq [symmetric] by (simp add: dvd_mult2)
  then show False by simp
qed

lemma exponential_delay_default:
  "exponential_delay (5 * 10 ^ 6) (1000 * 10 ^ 9) n = min (5 * 10 ^ 6 * 2 ^ n) (1000 * 10 ^ 9)"
proof -
  have "exponential_delay (5 * 10 ^ 6) (1000 * 10 ^ 9) n =
    (if 5 * 10 ^ 6 * 2 ^ n > (2 :: int) ^ 63 then 1000 * 10 ^ 9
     else if 5 * 10 ^ 6 * 2 ^ n > (1000 * 10 ^ 9 :: int) then 1000 * 10 ^ 9 else 5 * 10 ^ 6 * 2 ^ n)"
    using five_ms_not_2_63 [of n] unfolding exponential_delay_def Let_def by presburger
  then show ?thesis by (simp add: min_def)
qed

text \<open>A default limiter whose bucket has answered \<open>k\<close> times.\<close>

definition default_limiter :: "('a \<rightharpoonup> nat) \<Rightarrow> (nat \<Rightarrow> int) \<Rightarrow> nat \<Rightarrow> 'a limiter" where
  "default_limiter m bucket k =
     MaxOf [ItemExponential m (5 * 10 ^ 6) (1000 * 10 ^ 9), TokenBucket bucket k]"

lemma default_limiter_When:
  "limiter_When (default_limiter m bucket k) x =
     (max (min (5 * 10 ^ 6 * 2 ^ failures_of m x) (1000 * 10 ^ 9)) (bucket k),
      default_limiter (m(x \<mapsto> failures_of m x + 1)) bucket (k + 1))"
proof -
  define p where "p = min (5 * 10 ^ 6 * 2 ^ failures_of m x) (1000 * 10 ^ 9 :: int)"
  have "0 < p" by (simp add: p_def)
  have "limiter_When (default_limiter m bucket k) x =
    (let r = (if p > 0 then p else 0)
     in (if bucket k > r then bucket k else r, default_limiter (m(x \<mapsto> failures_of m x + 1)) bucket (k + 1)))"
    unfolding default_limiter_def p_def exponential_delay_default [symmetric] by (simp add: Let_def)
  with \<open>0 < p\<close> show ?thesis unfolding p_def [symmetric] by (simp add: max_def)
qed

text \<open>The state after \<open>n\<close> failures in a row of one item.\<close>

primrec fail_times :: "nat \<Rightarrow> 'a limiter \<Rightarrow> 'a \<Rightarrow> 'a limiter" where
  "fail_times 0 l x = l"
| "fail_times (Suc n) l x = snd (limiter_When (fail_times n l x) x)"

lemma fail_times_default:
  "\<exists>m. fail_times n (default_limiter m0 bucket k) x = default_limiter m bucket (k + n) \<and>
       failures_of m x = failures_of m0 x + n \<and> (\<forall>y. y \<noteq> x \<longrightarrow> m y = m0 y)"
proof (induction n)
  case 0
  show ?case by auto
next
  case (Suc n)
  then obtain m where m: "fail_times n (default_limiter m0 bucket k) x = default_limiter m bucket (k + n)"
    "failures_of m x = failures_of m0 x + n" "\<forall>y. y \<noteq> x \<longrightarrow> m y = m0 y" by auto
  define m' where "m' = m(x \<mapsto> failures_of m x + 1)"
  have "fail_times (Suc n) (default_limiter m0 bucket k) x = default_limiter m' bucket (k + Suc n)"
    using m(1) by (simp add: default_limiter_When m'_def)
  moreover have "failures_of m' x = failures_of m0 x + Suc n" and "\<forall>y. y \<noteq> x \<longrightarrow> m' y = m0 y"
    using m(2,3) by (simp_all add: m'_def)
  ultimately show ?case by blast
qed

text \<open>C25. The delay of a failing item doubles and is capped: with the default rate limiter, after
  \<open>n\<close> failures of an item, \<open>NumRequeues\<close> is \<open>n\<close> and the next failure waits at least
  \<open>min (5 ms * 2^n) (1000 s)\<close>, exactly that when the token bucket does not ask for more;
  \<open>Forget\<close> starts the item over, and another item is not affected.\<close>

theorem default_backoff:
  "\<exists>l. fail_times n (DefaultControllerRateLimiter bucket) (x :: 'a) = l \<and>
     limiter_NumRequeues l x = n \<and>
     fst (limiter_When l x) = max (min (5 * 10 ^ 6 * 2 ^ n) (1000 * 10 ^ 9)) (bucket n) \<and>
     fst (limiter_When (limiter_Forget l x) x) = max (5 * 10 ^ 6) (bucket n) \<and>
     limiter_NumRequeues (limiter_Forget l x) x = 0 \<and>
     (y \<noteq> x \<longrightarrow> limiter_NumRequeues l y = 0 \<and> limiter_NumRequeues (limiter_Forget l y) x = n)"
proof -
  have d: "DefaultControllerRateLimiter bucket = default_limiter Map.empty bucket 0"
    by (simp add: DefaultControllerRateLimiter_def default_limiter_def)
  obtain m where m: "fail_times n (default_limiter Map.empty bucket 0) x = default_limiter m bucket n"
    "failures_of m x = n" "\<forall>y. y \<noteq> x \<longrightarrow> m y = None"
    using fail_times_default [of n Map.empty bucket 0 x] by auto
  have f: "limiter_Forget (default_limiter m bucket n) z = default_limiter (m(z := None)) bucket n" for z
    by (simp add: default_limiter_def)
  have q: "limiter_NumRequeues (default_limiter m' bucket n) z = failures_of m' z" for m' :: "'a \<rightharpoonup> nat" and z
    by (simp add: default_limiter_def)
  show ?thesis
    unfolding d m(1) f q default_limiter_When
    using m(2,3) by (intro exI [of _ "default_limiter m bucket n"] conjI impI) (simp_all add: f q default_limiter_When failures_of_def [of m y])
qed

theorem default_backoff_witness:
  "\<exists>l. fail_times 3 (DefaultControllerRateLimiter (\<lambda>_. 0)) ''a'' = l \<and>
     limiter_NumRequeues l ''b'' = 0 \<and> fst (limiter_When l ''a'') = 40 * 10 ^ 6"
  using default_backoff [of 3 "\<lambda>_. 0" "''a''" "''b''"] by simp

end
