(* ===== verification/DelayingQueue.thy ===== *)
theory DelayingQueue imports WorkQueue WaitHeap RateLimiters begin

text \<open>
  The delaying and the rate-limiting queue of client-go (\<open>util/workqueue/delaying_queue.go\<close>,
  \<open>rate_limiting_queue.go\<close>): items wait until their time and then enter the work queue.

  The waiting loop is a goroutine of its own. Its two parts are operations here: \<open>wl_add_ready\<close>
  moves every entry whose time has come into the work queue, \<open>wl_take\<close> receives one entry from the
  channel. The clock is an argument. The select of the loop (heartbeat, timer, channel) only
  decides when the parts run. The channel holds 1000 entries; \<open>AddAfter\<close> blocks when it is full.
\<close>

section \<open>The code\<close>

record 'a delayq =
  dq_queue :: "'a workq"
  dq_waiting :: "'a waitFor list"
  dq_channel :: "'a waitFor list"
  dq_stopped :: bool

definition newDelayingQueue :: "'a delayq" where
  "newDelayingQueue = \<lparr>dq_queue = newQueue, dq_waiting = [], dq_channel = [], dq_stopped = False\<rparr>"

definition channel_capacity :: nat where
  "channel_capacity = 1000"

text \<open>The embedded queue's methods.\<close>

definition dq_Add :: "'a delayq \<Rightarrow> 'a \<Rightarrow> 'a delayq" where
  "dq_Add q item = q\<lparr>dq_queue := wq_Add (dq_queue q) item\<rparr>"

definition dq_Get :: "'a delayq \<Rightarrow> 'a get_result \<times> 'a delayq" where
  "dq_Get q = (case wq_Get (dq_queue q) of (r, w) \<Rightarrow> (r, q\<lparr>dq_queue := w\<rparr>))"

definition dq_Done :: "'a delayq \<Rightarrow> 'a \<Rightarrow> 'a delayq" where
  "dq_Done q item = q\<lparr>dq_queue := wq_Done (dq_queue q) item\<rparr>"

definition dq_ShuttingDown :: "'a delayq \<Rightarrow> bool" where
  "dq_ShuttingDown q = wq_ShuttingDown (dq_queue q)"

text \<open>\<open>stopOnce\<close>: only the first call has an effect.\<close>

definition dq_ShutDown :: "'a delayq \<Rightarrow> 'a delayq" where
  "dq_ShutDown q =
     (if dq_stopped q then q else q\<lparr>dq_queue := wq_ShutDown (dq_queue q), dq_stopped := True\<rparr>)"

text \<open>\<open>AddAfter\<close>; \<open>None\<close> when it has to wait for room in the channel.\<close>

definition dq_AddAfter :: "int \<Rightarrow> 'a delayq \<Rightarrow> 'a \<Rightarrow> int \<Rightarrow> 'a delayq option" where
  "dq_AddAfter now q item duration =
     (if dq_ShuttingDown q then Some q
      else if duration \<le> 0 then Some (dq_Add q item)
      else if length (dq_channel q) < channel_capacity
      then Some (q\<lparr>dq_channel := dq_channel q @ [\<lparr>wf_data = item, wf_readyAt = now + duration\<rparr>]\<rparr>)
      else None)"

text \<open>\<open>for waitingForQueue.Len() > 0 { ... }\<close>.\<close>

lemma length_heap_Pop: "h \<noteq> [] \<Longrightarrow> length (snd (heap_Pop h)) < length h"
  using heap_down_perm [of 0 "pq_Swap h 0 (length h - 1)" "length h - 1"]
  by (auto simp: heap_Pop_def Let_def)

function add_ready :: "int \<Rightarrow> 'a waitFor list \<Rightarrow> 'a workq \<Rightarrow> 'a waitFor list \<times> 'a workq" where
  "add_ready now h w =
     (if h = [] \<or> wf_readyAt (h ! 0) > now then (h, w)
      else add_ready now (snd (heap_Pop h)) (wq_Add w (wf_data (fst (heap_Pop h)))))"
  by pat_completeness auto
termination by (relation "measure (\<lambda>(now, h, w). length h)") (auto simp: length_heap_Pop)

declare add_ready.simps [simp del]

definition wl_add_ready :: "int \<Rightarrow> 'a delayq \<Rightarrow> 'a delayq" where
  "wl_add_ready now q =
     (if dq_ShuttingDown q then q
      else case add_ready now (dq_waiting q) (dq_queue q) of
             (h, w) \<Rightarrow> q\<lparr>dq_waiting := h, dq_queue := w\<rparr>)"

text \<open>\<open>case waitEntry := <-q.waitingForAddCh\<close>; nothing when the channel is empty.\<close>

definition wl_take :: "int \<Rightarrow> 'a delayq \<Rightarrow> 'a delayq" where
  "wl_take now q =
     (case dq_channel q of
        [] \<Rightarrow> q
      | waitEntry # rest \<Rightarrow>
          let q = q\<lparr>dq_channel := rest\<rparr>
          in if wf_readyAt waitEntry > now
             then q\<lparr>dq_waiting := pq_insert (dq_waiting q) waitEntry\<rparr>
             else dq_Add q (wf_data waitEntry))"

section \<open>The rate-limiting queue\<close>

record 'a ratelimitq =
  rq_delaying :: "'a delayq"
  rq_limiter :: "'a limiter"

definition newRateLimitingQueue :: "'a limiter \<Rightarrow> 'a ratelimitq" where
  "newRateLimitingQueue l = \<lparr>rq_delaying = newDelayingQueue, rq_limiter = l\<rparr>"

definition rq_AddRateLimited :: "int \<Rightarrow> 'a ratelimitq \<Rightarrow> 'a \<Rightarrow> 'a ratelimitq option" where
  "rq_AddRateLimited now q item =
     (case limiter_When (rq_limiter q) item of
        (delay, l) \<Rightarrow>
          map_option (\<lambda>d. \<lparr>rq_delaying = d, rq_limiter = l\<rparr>) (dq_AddAfter now (rq_delaying q) item delay))"

definition rq_NumRequeues :: "'a ratelimitq \<Rightarrow> 'a \<Rightarrow> nat" where
  "rq_NumRequeues q item = limiter_NumRequeues (rq_limiter q) item"

definition rq_Forget :: "'a ratelimitq \<Rightarrow> 'a \<Rightarrow> 'a ratelimitq" where
  "rq_Forget q item = q\<lparr>rq_limiter := limiter_Forget (rq_limiter q) item\<rparr>"

section \<open>Items with a time\<close>

definition dq_inv :: "'a delayq \<Rightarrow> bool" where
  "dq_inv q \<longleftrightarrow> wq_inv (dq_queue q) \<and> pq_inv (dq_waiting q) \<and>
     (dq_stopped q \<longrightarrow> wq_shuttingDown (dq_queue q))"

definition dq_status :: "'a delayq \<Rightarrow> 'a \<Rightarrow> status" where
  "dq_status q = wq_status (dq_queue q)"

definition dq_times :: "'a delayq \<Rightarrow> 'a \<rightharpoonup> int" where
  "dq_times q = pq_times (dq_waiting q)"

text \<open>The delaying queue is a work queue: the interface once more, for its own methods.\<close>

lemma wq_closing_shut: "wq_shuttingDown (wq_ShutDown q)"
  by (simp add: wq_ShutDown_def)

interpretation dq: work_queue dq_status "\<lambda>q. wq_queue (dq_queue q)" dq_ShuttingDown dq_inv
  newDelayingQueue dq_Add dq_Get dq_Done dq_ShutDown
proof unfold_locales
  fix q q' :: "'a delayq" and x :: 'a
  note d = dq_inv_def dq_status_def dq_ShuttingDown_def wq_ShuttingDown_def
  show "dq_inv (newDelayingQueue :: 'a delayq)" and "dq_status newDelayingQueue x = Idle"
    and "\<not> dq_ShuttingDown (newDelayingQueue :: 'a delayq)"
    by (simp_all add: d newDelayingQueue_def wq.inv_new wq.status_new wq.closing_new pq.inv_nil)
  show "dq_inv q \<Longrightarrow> distinct (wq_queue (dq_queue q)) \<and> set (wq_queue (dq_queue q)) = {x. dq_status q x = Waiting}"
    by (simp add: d wq.pending_Waiting)
  show "dq_inv q \<Longrightarrow> dq_inv (dq_Add q x)" by (simp add: d dq_Add_def wq.inv_add wq.closing_add)
  show "dq_inv q \<Longrightarrow> dq_status (dq_Add q x) = (if dq_ShuttingDown q then dq_status q
      else (dq_status q)(x := (case dq_status q x of Idle \<Rightarrow> Waiting | Processing \<Rightarrow> Again | s \<Rightarrow> s)))"
    by (simp add: d dq_Add_def wq.status_add)
  show "dq_inv q \<Longrightarrow> wq_queue (dq_queue (dq_Add q x)) =
      (if \<not> dq_ShuttingDown q \<and> dq_status q x = Idle then wq_queue (dq_queue q) @ [x] else wq_queue (dq_queue q))"
    by (simp add: d dq_Add_def wq.pending_add)
  show "dq_ShuttingDown (dq_Add q x) = dq_ShuttingDown q" by (simp add: d dq_Add_def wq.closing_add)
  show "dq_inv q \<Longrightarrow> dq_Get q = (Blocked, q') \<Longrightarrow> wq_queue (dq_queue q) = [] \<and> \<not> dq_ShuttingDown q \<and> q' = q"
    using wq.get_blocked [of "dq_queue q"] by (auto simp: d dq_Get_def split: prod.splits)
  show "dq_inv q \<Longrightarrow> dq_Get q = (Shutdown, q') \<Longrightarrow> wq_queue (dq_queue q) = [] \<and> dq_ShuttingDown q \<and> q' = q"
    using wq.get_shutdown [of "dq_queue q"] by (auto simp: d dq_Get_def split: prod.splits)
  show "dq_inv q \<Longrightarrow> dq_Get q = (Item x, q') \<Longrightarrow>
      dq_inv q' \<and> wq_queue (dq_queue q) = x # wq_queue (dq_queue q') \<and>
      dq_status q' = (dq_status q)(x := Processing) \<and> dq_ShuttingDown q' = dq_ShuttingDown q"
    using wq.get_item [of "dq_queue q" x] by (auto simp: d dq_Get_def split: prod.splits)
  show "dq_inv q \<Longrightarrow> dq_status q x \<in> {Processing, Again} \<Longrightarrow> dq_inv (dq_Done q x)"
    by (auto simp: d dq_Done_def wq.inv_finish wq.closing_finish)
  show "dq_inv q \<Longrightarrow> dq_status q x \<in> {Processing, Again} \<Longrightarrow>
      dq_status (dq_Done q x) = (dq_status q)(x := if dq_status q x = Again then Waiting else Idle)"
    unfolding d dq_Done_def using wq.status_finish [of "dq_queue q" x] by simp
  show "dq_inv q \<Longrightarrow> dq_status q x \<in> {Processing, Again} \<Longrightarrow>
      wq_queue (dq_queue (dq_Done q x)) =
        (if dq_status q x = Again then wq_queue (dq_queue q) @ [x] else wq_queue (dq_queue q))"
    unfolding d dq_Done_def using wq.pending_finish [of "dq_queue q" x] by simp
  show "dq_ShuttingDown (dq_Done q x) = dq_ShuttingDown q" by (simp add: d dq_Done_def wq.closing_finish)
  show "dq_inv q \<Longrightarrow> dq_inv (dq_ShutDown q)" and "dq_inv q \<Longrightarrow> dq_status (dq_ShutDown q) = dq_status q"
    and "dq_inv q \<Longrightarrow> wq_queue (dq_queue (dq_ShutDown q)) = wq_queue (dq_queue q)"
    and "dq_inv q \<Longrightarrow> dq_ShuttingDown (dq_ShutDown q)"
    by (auto simp: d dq_ShutDown_def wq.inv_shut wq.status_shut wq.pending_shut wq_closing_shut)
qed

text \<open>An item on its way: in the channel, waiting for its time, or due.\<close>

definition scheduled :: "'a delayq \<Rightarrow> 'a \<Rightarrow> bool" where
  "scheduled q x \<longleftrightarrow>
     x \<in> wf_data ` set (dq_channel q) \<or> dq_times q x \<noteq> None \<or> dq_status q x \<in> {Waiting, Again}"

definition due :: "status \<Rightarrow> status" where
  "due s = (case s of Idle \<Rightarrow> Waiting | Processing \<Rightarrow> Again | _ \<Rightarrow> s)"

lemma due_due [simp]: "due (due s) = due s" "due s \<in> {Waiting, Again}" "due s \<noteq> Idle" "due s \<noteq> Processing"
  by (cases s; simp add: due_def)+

lemma due_not_Again [simp]: "due s \<noteq> Again \<Longrightarrow> due s = Waiting"
  by (cases s) (simp_all add: due_def)

lemma wq_status_Add_open:
  "wq_inv w \<Longrightarrow> \<not> wq_shuttingDown w \<Longrightarrow> wq_status (wq_Add w x) = (wq_status w)(x := due (wq_status w x))"
  using wq.status_add [of w x] by (cases "wq_status w x") (simp_all add: due_def)

lemma add_ready_closing: "wq_shuttingDown (snd (add_ready now h w)) = wq_shuttingDown w"
  by (induction now h w rule: add_ready.induct) (subst add_ready.simps, auto simp: wq.closing_add)

lemma wl_add_ready_open: "dq_ShuttingDown (wl_add_ready now q) = dq_ShuttingDown q"
  using add_ready_closing [of now "dq_waiting q" "dq_queue q"]
  by (auto simp: wl_add_ready_def dq_ShuttingDown_def wq_ShuttingDown_def split: prod.split)

text \<open>What the ready loop does: exactly the entries whose time has come become due items.\<close>

lemma add_ready_result:
  "pq_inv h \<Longrightarrow> wq_inv w \<Longrightarrow> \<not> wq_shuttingDown w \<Longrightarrow> add_ready now h w = (h', w') \<Longrightarrow>
   pq_inv h' \<and> wq_inv w' \<and> \<not> wq_shuttingDown w' \<and>
   (\<forall>x. pq_times h' x = (case pq_times h x of Some t \<Rightarrow> if t \<le> now then None else Some t | None \<Rightarrow> None)) \<and>
   (\<forall>x. wq_status w' x =
      (case pq_times h x of Some t \<Rightarrow> if t \<le> now then due (wq_status w x) else wq_status w x
       | None \<Rightarrow> wq_status w x))"
proof (induction now h w arbitrary: h' w' rule: add_ready.induct)
  case (1 now h w)
  show ?case
  proof (cases "h = [] \<or> wf_readyAt (h ! 0) > now")
    case True
    then have eq: "h' = h" "w' = w" using 1(5) by (auto simp: add_ready.simps [of now h w])
    have "\<forall>x t. pq_times h x = Some t \<longrightarrow> t > now" by (rule pq.peek_future [OF 1(2) True])
    then show ?thesis using 1(2-4) by (force simp: eq split: option.split)
  next
    case False
    obtain e g where pop: "heap_Pop h = (e, g)" by fastforce
    from False have ne: "h \<noteq> []" and le: "wf_readyAt (h ! 0) \<le> now" by simp_all
    note p = pq.pop_entry [OF 1(2) ne pop]
    have t: "pq_times h (wf_data e) = Some (wf_readyAt e)" "wf_readyAt e \<le> now"
      using pq.times_peek [OF 1(2) ne] p le by simp_all
    let ?w = "wq_Add w (wf_data e)"
    have w: "wq_inv ?w" "\<not> wq_shuttingDown ?w" using 1(3,4) by (simp_all add: wq.inv_add wq.closing_add)
    have st: "wq_status ?w = (wq_status w)(wf_data e := due (wq_status w (wf_data e)))"
      by (rule wq_status_Add_open [OF 1(3,4)])
    have "add_ready now g ?w = (h', w')"
      using 1(5) False pop by (simp add: add_ready.simps [of now h w])
    with 1(1) [OF False, unfolded pop fst_conv snd_conv, of h' w'] p w
    have "pq_inv h' \<and> wq_inv w' \<and> \<not> wq_shuttingDown w' \<and>
      (\<forall>x. pq_times h' x = (case pq_times g x of Some t \<Rightarrow> if t \<le> now then None else Some t | None \<Rightarrow> None)) \<and>
      (\<forall>x. wq_status w' x =
        (case pq_times g x of Some t \<Rightarrow> if t \<le> now then due (wq_status ?w x) else wq_status ?w x
         | None \<Rightarrow> wq_status ?w x))"
      by blast
    then show ?thesis using p t st by (auto split: option.split)
  qed
qed

lemma wl_add_ready_result:
  assumes "dq_inv q" and "\<not> dq_ShuttingDown q"
  shows "dq_inv (wl_add_ready now q) \<and> dq_channel (wl_add_ready now q) = dq_channel q \<and>
    (\<forall>x. dq_times (wl_add_ready now q) x =
       (case dq_times q x of Some t \<Rightarrow> if t \<le> now then None else Some t | None \<Rightarrow> None)) \<and>
    (\<forall>x. dq_status (wl_add_ready now q) x =
       (case dq_times q x of Some t \<Rightarrow> if t \<le> now then due (dq_status q x) else dq_status q x
        | None \<Rightarrow> dq_status q x))"
proof -
  obtain h w where hw: "add_ready now (dq_waiting q) (dq_queue q) = (h, w)" by fastforce
  have eq: "wl_add_ready now q = q\<lparr>dq_waiting := h, dq_queue := w\<rparr>"
    using assms(2) hw by (simp add: wl_add_ready_def)
  have "pq_inv (dq_waiting q)" "wq_inv (dq_queue q)" "\<not> wq_shuttingDown (dq_queue q)"
    using assms by (simp_all add: dq_inv_def dq_ShuttingDown_def wq_ShuttingDown_def)
  moreover have "\<not> dq_stopped q" using assms by (auto simp: dq_inv_def dq_ShuttingDown_def wq_ShuttingDown_def)
  ultimately show ?thesis
    using add_ready_result [OF _ _ _ hw] unfolding eq dq_inv_def dq_times_def dq_status_def by simp
qed

text \<open>C24. No item is late and none is early: one pass of the waiting loop at time \<open>now\<close> moves exactly
  the items whose time has come into the work queue, where they become due (an item that is being
  processed will be handed out again), keeps the times of all the others, and touches no other
  item; it keeps the heap and the queue well-formed.\<close>

theorem waiting_loop_pass:
  assumes "dq_inv q" and "\<not> dq_ShuttingDown q"
  shows "dq_inv (wl_add_ready now q) \<and> dq_channel (wl_add_ready now q) = dq_channel q \<and>
    (\<forall>x. dq_times (wl_add_ready now q) x =
       (case dq_times q x of Some t \<Rightarrow> if t \<le> now then None else Some t | None \<Rightarrow> None)) \<and>
    (\<forall>x. dq_status (wl_add_ready now q) x =
       (case dq_times q x of Some t \<Rightarrow> if t \<le> now then due (dq_status q x) else dq_status q x
        | None \<Rightarrow> dq_status q x))"
  by (rule wl_add_ready_result [OF assms])

text \<open>An example: two items delayed by 5 and by 8, at time 6.\<close>

definition dq_example :: "nat delayq" where
  "dq_example = newDelayingQueue\<lparr>dq_waiting :=
     [\<lparr>wf_data = 1, wf_readyAt = 5\<rparr>, \<lparr>wf_data = 2, wf_readyAt = 8\<rparr>]\<rparr>"

lemma dq_example_inv: "dq_inv dq_example" "\<not> dq_ShuttingDown dq_example"
  by (auto simp: dq_inv_def dq_example_def newDelayingQueue_def wq.inv_new wq.closing_new pq_inv_def
        pq_heap_def heap_upto_def parent_def less_Suc_eq dq_ShuttingDown_def wq_ShuttingDown_def)

theorem waiting_loop_pass_witness:
  "dq_status (wl_add_ready 6 dq_example) 1 = Waiting \<and> dq_status (wl_add_ready 6 dq_example) 2 = Idle \<and>
   dq_times (wl_add_ready 6 dq_example) 2 = Some 8"
proof -
  have "dq_times dq_example 1 = Some 5" "dq_times dq_example 2 = Some 8"
    "dq_status dq_example 1 = Idle" "dq_status dq_example 2 = Idle"
    by (simp_all add: dq_times_def dq_example_def pq_times_def newDelayingQueue_def dq_status_def
          wq.status_new)
  with waiting_loop_pass [OF dq_example_inv, of 6] show ?thesis by (simp add: due_def)
qed

section \<open>No item is lost\<close>

lemma wl_take_inv: "dq_inv q \<Longrightarrow> dq_inv (wl_take now q)"
  by (auto simp: wl_take_def Let_def dq_inv_def dq_Add_def wq.inv_add wq.closing_add pq_insert(1)
        split: list.split)

lemma wl_take_scheduled:
  assumes "dq_inv q" and "\<not> dq_ShuttingDown q" and "scheduled q x"
  shows "scheduled (wl_take now q) x"
proof (cases "dq_channel q")
  case Nil
  then show ?thesis using assms(3) by (simp add: wl_take_def)
next
  case (Cons e rest)
  have w: "wq_inv (dq_queue q)" "\<not> wq_shuttingDown (dq_queue q)" and p: "pq_inv (dq_waiting q)"
    using assms by (simp_all add: dq_inv_def dq_ShuttingDown_def wq_ShuttingDown_def)
  show ?thesis
    using assms(3) Cons pq_insert(2) [OF p, of e] wq_status_Add_open [OF w, of "wf_data e"]
    by (auto simp: wl_take_def Let_def scheduled_def dq_times_def dq_status_def dq_Add_def due_def
          split: status.splits)
qed

lemma dq_AddAfter_scheduled:
  assumes "dq_inv q" and "\<not> dq_ShuttingDown q" and "dq_AddAfter now q x d = Some q'"
  shows "scheduled q' x" and "dq_inv q'"
proof -
  have w: "wq_inv (dq_queue q)" "\<not> wq_shuttingDown (dq_queue q)" and p: "pq_inv (dq_waiting q)"
    using assms by (simp_all add: dq_inv_def dq_ShuttingDown_def wq_ShuttingDown_def)
  show "scheduled q' x"
    using assms(2,3) wq_status_Add_open [OF w, of x]
    by (auto simp: dq_AddAfter_def scheduled_def dq_Add_def dq_status_def split: if_splits)
  show "dq_inv q'"
    using assms wq.inv_add [OF w(1)]
    by (auto simp: dq_AddAfter_def dq_inv_def dq_Add_def wq.closing_add split: if_splits)
qed

lemma dq_AddAfter_keeps:
  assumes "dq_AddAfter now q x d = Some q'"
  shows "set (dq_channel q) \<subseteq> set (dq_channel q')" and "dq_times q' = dq_times q"
  using assms by (auto simp: dq_AddAfter_def dq_Add_def dq_times_def split: if_splits)

lemma wl_take_open: "dq_ShuttingDown (wl_take now q) = dq_ShuttingDown q"
  by (auto simp: wl_take_def Let_def dq_Add_def dq_ShuttingDown_def wq_ShuttingDown_def wq.closing_add
        split: list.split)

section \<open>The delay of an item\<close>

text \<open>What the waiting loop does, in the order its select chooses.\<close>

datatype wl_event = Take int | Pass int

fun wl_next :: "'a delayq \<Rightarrow> wl_event \<Rightarrow> 'a delayq" where
  "wl_next q (Take now) = wl_take now q"
| "wl_next q (Pass now) = wl_add_ready now q"

fun wl_time :: "wl_event \<Rightarrow> int" where
  "wl_time (Take now) = now"
| "wl_time (Pass now) = now"

definition wl_run :: "'a delayq \<Rightarrow> wl_event list \<Rightarrow> 'a delayq" where
  "wl_run = foldl wl_next"

definition takes :: "wl_event list \<Rightarrow> nat" where
  "takes evs = length (filter (\<lambda>ev. case ev of Take now \<Rightarrow> True | Pass now \<Rightarrow> False) evs)"

lemma wl_run_simps [simp]:
  "wl_run q [] = q" "wl_run q (ev # evs) = wl_run (wl_next q ev) evs"
  "wl_run q (evs @ [ev]) = wl_next (wl_run q evs) ev"
  by (simp_all add: wl_run_def)

lemma wl_take_channel: "dq_channel (wl_take now q) = tl (dq_channel q)"
  by (auto simp: wl_take_def Let_def dq_Add_def split: list.split)

text \<open>The item is in the work queue, or on its way there with a time no later than \<open>T\<close>.\<close>

definition promised :: "int \<Rightarrow> 'a \<Rightarrow> 'a delayq \<Rightarrow> bool" where
  "promised T x q \<longleftrightarrow> dq_status q x \<in> {Waiting, Again} \<or>
     (\<exists>e\<in>set (dq_channel q). wf_data e = x \<and> wf_readyAt e \<le> T) \<or>
     (\<exists>t. dq_times q x = Some t \<and> t \<le> T)"

text \<open>The work queue knows the item as \<open>s\<close>, and nothing of it is on its way with a time before \<open>T\<close>.\<close>

definition held_back :: "int \<Rightarrow> 'a \<Rightarrow> status \<Rightarrow> 'a delayq \<Rightarrow> bool" where
  "held_back T x s q \<longleftrightarrow> dq_status q x = s \<and>
     (\<forall>e\<in>set (dq_channel q). wf_data e = x \<longrightarrow> T \<le> wf_readyAt e) \<and>
     (\<forall>t. dq_times q x = Some t \<longrightarrow> T \<le> t)"

lemma wl_take_cases:
  assumes "dq_inv q" and "\<not> dq_ShuttingDown q"
  obtains (empty) "dq_channel q = []" "wl_take now q = q"
  | (wait) e rest where "dq_channel q = e # rest" "wf_readyAt e > now" "dq_channel (wl_take now q) = rest"
      "dq_status (wl_take now q) = dq_status q"
      "dq_times (wl_take now q) = (dq_times q)(wf_data e \<mapsto>
         (case dq_times q (wf_data e) of Some t \<Rightarrow> min t (wf_readyAt e) | None \<Rightarrow> wf_readyAt e))"
  | (add) e rest where "dq_channel q = e # rest" "wf_readyAt e \<le> now" "dq_channel (wl_take now q) = rest"
      "dq_status (wl_take now q) = (dq_status q)(wf_data e := due (dq_status q (wf_data e)))"
      "dq_times (wl_take now q) = dq_times q"
proof (cases "dq_channel q")
  case Nil
  then show ?thesis by (intro empty) (simp_all add: wl_take_def)
next
  case (Cons e rest)
  have w: "wq_inv (dq_queue q)" "\<not> wq_shuttingDown (dq_queue q)" and p: "pq_inv (dq_waiting q)"
    using assms by (simp_all add: dq_inv_def dq_ShuttingDown_def wq_ShuttingDown_def)
  show ?thesis
  proof (cases "wf_readyAt e > now")
    case True
    then show ?thesis using Cons pq_insert(2) [OF p, of e]
      by (intro wait [of e rest]) (simp_all add: wl_take_def dq_status_def dq_times_def)
  next
    case False
    then show ?thesis using Cons wq_status_Add_open [OF w, of "wf_data e"]
      by (intro add [of e rest]) (simp_all add: wl_take_def dq_status_def dq_times_def dq_Add_def)
  qed
qed

lemma wl_next_inv:
  assumes "dq_inv q" and "\<not> dq_ShuttingDown q"
  shows "dq_inv (wl_next q ev)" and "\<not> dq_ShuttingDown (wl_next q ev)"
  using assms wl_take_inv [OF assms(1)] wl_add_ready_result [OF assms]
  by (cases ev; simp add: wl_take_open wl_add_ready_open)+

lemma promised_next:
  assumes i: "dq_inv q" "\<not> dq_ShuttingDown q" and p: "promised T x q"
  shows "promised T x (wl_next q ev)"
proof (cases ev)
  case (Take now)
  from i show ?thesis
    by (cases rule: wl_take_cases [where now = now])
       (use p Take in \<open>auto simp: promised_def min_def split: option.splits if_splits\<close>)
next
  case (Pass now)
  with p wl_add_ready_result [OF i, of now] show ?thesis
    using due_due(2) by (auto simp: promised_def split: option.splits)
qed

lemma held_back_next:
  assumes i: "dq_inv q" "\<not> dq_ShuttingDown q" and h: "held_back T x s q" and t: "wl_time ev < T"
  shows "held_back T x s (wl_next q ev)"
proof (cases ev)
  case (Take now)
  from i show ?thesis
    by (cases rule: wl_take_cases [where now = now])
       (use h t Take in \<open>auto simp: held_back_def min_def split: option.splits if_splits\<close>)
next
  case (Pass now)
  with h t wl_add_ready_result [OF i, of now] show ?thesis
    by (auto simp: held_back_def split: option.splits if_splits)
qed

lemma wl_run_inv:
  assumes "dq_inv q" and "\<not> dq_ShuttingDown q"
  shows "dq_inv (wl_run q evs) \<and> \<not> dq_ShuttingDown (wl_run q evs) \<and>
    dq_channel (wl_run q evs) = drop (takes evs) (dq_channel q) \<and>
    (promised T x q \<longrightarrow> promised T x (wl_run q evs)) \<and>
    (held_back T x s q \<longrightarrow> (\<forall>ev\<in>set evs. wl_time ev < T) \<longrightarrow> held_back T x s (wl_run q evs))"
  using assms
proof (induction evs arbitrary: q)
  case Nil
  then show ?case by (simp add: takes_def)
next
  case (Cons ev evs)
  note n = wl_next_inv [OF Cons.prems, of ev] and ih = Cons.IH [OF wl_next_inv [OF Cons.prems, of ev]]
  have "drop (takes (ev # evs)) (dq_channel q) = drop (takes evs) (dq_channel (wl_next q ev))"
  proof (cases ev)
    case (Take now)
    then show ?thesis by (simp add: takes_def wl_take_channel drop_Suc)
  next
    case (Pass now)
    then show ?thesis using wl_add_ready_result [OF Cons.prems, of now] by (simp add: takes_def)
  qed
  then have "dq_channel (wl_run q (ev # evs)) = drop (takes (ev # evs)) (dq_channel q)"
    using ih by simp
  moreover have "promised T x (wl_run q (ev # evs))" if "promised T x q"
    using ih promised_next [OF Cons.prems that] by simp
  moreover have "held_back T x s (wl_run q (ev # evs))"
    if "held_back T x s q" "\<forall>ev'\<in>set (ev # evs). wl_time ev' < T"
    using ih held_back_next [OF Cons.prems that(1), of ev] that(2) by simp
  ultimately show ?case using ih by simp
qed

lemma dq_AddAfter_promised:
  assumes "dq_inv q" and "\<not> dq_ShuttingDown q" and "dq_AddAfter now q x d = Some q'"
  shows "promised (now + d) x q'"
    and "0 < d \<Longrightarrow> \<not> scheduled q x \<Longrightarrow> held_back (now + d) x (dq_status q x) q'"
proof -
  have w: "wq_inv (dq_queue q)" "\<not> wq_shuttingDown (dq_queue q)"
    using assms by (simp_all add: dq_inv_def dq_ShuttingDown_def wq_ShuttingDown_def)
  show "promised (now + d) x q'"
    using assms(2,3) wq_status_Add_open [OF w, of x]
    by (auto simp: dq_AddAfter_def promised_def dq_Add_def dq_status_def split: if_splits)
  show "held_back (now + d) x (dq_status q x) q'" if "0 < d" "\<not> scheduled q x"
  proof -
    have "q' = q\<lparr>dq_channel := dq_channel q @ [\<lparr>wf_data = x, wf_readyAt = now + d\<rparr>]\<rparr>"
      using assms(2,3) that(1) by (simp add: dq_AddAfter_def split: if_splits)
    then show ?thesis using that(2) by (auto simp: held_back_def scheduled_def dq_times_def dq_status_def)
  qed
qed

text \<open>C23. An item added with a delay becomes due when its delay has run out and not before. Let
  \<open>AddAfter\<close> take \<open>x\<close> at time \<open>now\<close> with delay \<open>d\<close> on an open queue, and let the waiting loop then do
  anything (\<open>evs\<close>: receive entries from the channel, pass over the heap, in any order at any times).
  Once it has received as many entries as the channel had, its first pass at a time of \<open>now + d\<close> or
  later leaves \<open>x\<close> due in the work queue. And as long as every time it acted at is before \<open>now + d\<close>, an
  \<open>x\<close> that had nothing on its way before is left as the work queue knew it.\<close>

theorem delayed_item_becomes_due:
  assumes "dq_inv q" and "\<not> dq_ShuttingDown q" and "dq_AddAfter now q x d = Some q'"
  shows "(length (dq_channel q') \<le> takes evs \<and> now + d \<le> t \<longrightarrow>
      dq_status (wl_run q' (evs @ [Pass t])) x \<in> {Waiting, Again}) \<and>
    (0 < d \<and> \<not> scheduled q x \<and> (\<forall>ev\<in>set evs. wl_time ev < now + d) \<longrightarrow>
      dq_status (wl_run q' evs) x = dq_status q x)"
proof -
  note add = dq_AddAfter_promised [OF assms]
  have q': "dq_inv q'" by (rule dq_AddAfter_scheduled(2) [OF assms])
  have op: "\<not> dq_ShuttingDown q'"
    using assms(2,3) by (auto simp: dq_AddAfter_def dq_Add_def dq_ShuttingDown_def wq_ShuttingDown_def
        wq.closing_add split: if_splits)
  let ?p = "wl_run q' evs"
  note run = wl_run_inv [OF q' op, of evs "now + d" x "dq_status q x"]
  have "dq_status (wl_add_ready t ?p) x \<in> {Waiting, Again}"
    if "length (dq_channel q') \<le> takes evs" "now + d \<le> t"
  proof -
    have "dq_status ?p x \<in> {Waiting, Again} \<or> (\<exists>s. dq_times ?p x = Some s \<and> s \<le> t)"
      using run add(1) that by (auto simp: promised_def)
    moreover have "dq_status (wl_add_ready t ?p) x =
       (case dq_times ?p x of Some s \<Rightarrow> if s \<le> t then due (dq_status ?p x) else dq_status ?p x
        | None \<Rightarrow> dq_status ?p x)"
      using run wl_add_ready_result [of ?p t] by blast
    ultimately show ?thesis using due_due(2) by (auto split: option.splits)
  qed
  moreover have "dq_status ?p x = dq_status q x"
    if "0 < d" "\<not> scheduled q x" "\<forall>ev\<in>set evs. wl_time ev < now + d"
  proof -
    have "held_back (now + d) x (dq_status q x) ?p" using run add(2) [OF that(1,2)] that(3) by blast
    then show ?thesis by (simp add: held_back_def)
  qed
  ultimately show ?thesis by simp
qed

text \<open>An item delayed by 30 at time 0: nothing at 29, due at 30.\<close>

theorem delayed_item_becomes_due_witness:
  "\<exists>q'. dq_AddAfter 0 (newDelayingQueue :: nat delayq) 7 30 = Some q' \<and>
     dq_status (wl_run q' [Take 1, Pass 29]) 7 = Idle \<and>
     dq_status (wl_run q' ([Take 1, Pass 29] @ [Pass 30])) 7 \<in> {Waiting, Again}"
proof -
  let ?q = "newDelayingQueue :: nat delayq"
  have i: "dq_inv ?q" "\<not> dq_ShuttingDown ?q"
    by (simp_all add: dq_inv_def newDelayingQueue_def wq.inv_new pq.inv_nil dq_ShuttingDown_def
          wq_ShuttingDown_def wq.closing_new)
  define q' where "q' = ?q\<lparr>dq_channel := [\<lparr>wf_data = 7, wf_readyAt = 30\<rparr>]\<rparr>"
  have a: "dq_AddAfter 0 ?q 7 30 = Some q'"
    using i(2) by (simp add: dq_AddAfter_def q'_def newDelayingQueue_def channel_capacity_def)
  have s: "\<not> scheduled ?q 7" "dq_status ?q 7 = Idle"
    by (simp_all add: scheduled_def newDelayingQueue_def dq_times_def pq.times_nil dq_status_def wq.status_new)
  have "length (dq_channel q') \<le> takes [Take 1, Pass 29]" by (simp add: q'_def takes_def)
  with delayed_item_becomes_due [OF i a, of "[Take 1, Pass 29]" 30] a s show ?thesis by simp
qed

end
