(* ===== verification/ObjectKeys.thy ===== *)
theory ObjectKeys imports MTPrelude ObjectTracker begin

text \<open>
  The string keys of objects in caches and queues: \<open>MetaNamespaceKeyFunc\<close>,
  \<open>DeletionHandlingMetaNamespaceKeyFunc\<close> (the task queue's \<open>KeyFunc\<close>) and their inverse
  \<open>SplitMetaNamespaceKey\<close>, of \<open>vendor/k8s.io/client-go/tools/cache/store.go\<close>, \<open>controller.go\<close> and
  \<open>object-names.go\<close>.
\<close>

section \<open>The code\<close>

text \<open>
  What callers pass for an \<open>any\<close> object: a ready-made key, a tombstone with the key of a deleted
  object, an object with metadata, or something without metadata.
\<close>

datatype 'o key_arg =
    ExplicitKey string
  | DeletedFinalStateUnknown string "'o option"
  | MetaObject 'o
  | NoMeta string

record ObjectName =
  on_namespace :: string
  on_name :: string

definition ObjectName_String :: "ObjectName \<Rightarrow> string" where
  "ObjectName_String n =
     (if length (on_namespace n) > 0 then on_namespace n @ ''/'' @ on_name n else on_name n)"

definition MetaObjectToName :: "'o accessor \<Rightarrow> 'o \<Rightarrow> ObjectName" where
  "MetaObjectToName acc ob =
     (if length (acc_namespace acc ob) > 0
      then \<lparr>on_namespace = acc_namespace acc ob, on_name = acc_name acc ob\<rparr>
      else \<lparr>on_namespace = [], on_name = acc_name acc ob\<rparr>)"

text \<open>Only an object with metadata has a name: \<open>meta.Accessor\<close> refuses the rest.\<close>

definition ObjectToName :: "'o accessor \<Rightarrow> 'o key_arg \<Rightarrow> go_error + ObjectName" where
  "ObjectToName acc arg =
     (case arg of
        MetaObject ob \<Rightarrow> Inr (MetaObjectToName acc ob)
      | _ \<Rightarrow> Inl (Errorf ''object has no meta: %v'' [''object does not implement the Object interfaces'']))"

definition MetaNamespaceKeyFunc :: "'o accessor \<Rightarrow> 'o key_arg \<Rightarrow> go_error + string" where
  "MetaNamespaceKeyFunc acc arg =
     (case arg of
        ExplicitKey key \<Rightarrow> Inr key
      | _ \<Rightarrow> (case ObjectToName acc arg of Inl e \<Rightarrow> Inl e | Inr n \<Rightarrow> Inr (ObjectName_String n)))"

definition DeletionHandlingMetaNamespaceKeyFunc :: "'o accessor \<Rightarrow> 'o key_arg \<Rightarrow> go_error + string" where
  "DeletionHandlingMetaNamespaceKeyFunc acc arg =
     (case arg of
        DeletedFinalStateUnknown key ob \<Rightarrow> Inr key
      | _ \<Rightarrow> MetaNamespaceKeyFunc acc arg)"

definition SplitMetaNamespaceKey :: "string \<Rightarrow> go_error + string \<times> string" where
  "SplitMetaNamespaceKey key =
     (case Split1 key (CHR ''/'') of
        [n] \<Rightarrow> Inr ([], n)
      | [ns, n] \<Rightarrow> Inr (ns, n)
      | _ \<Rightarrow> Inl (Errorf ''unexpected key format: %q'' [key]))"

definition ParseObjectName :: "string \<Rightarrow> go_error + ObjectName" where
  "ParseObjectName str =
     (case SplitMetaNamespaceKey str of
        Inl e \<Rightarrow> Inl e | Inr (ns, n) \<Rightarrow> Inr \<lparr>on_namespace = ns, on_name = n\<rparr>)"

definition DeletionHandlingObjectToName :: "'o accessor \<Rightarrow> 'o key_arg \<Rightarrow> go_error + ObjectName" where
  "DeletionHandlingObjectToName acc arg =
     (case arg of
        DeletedFinalStateUnknown key ob \<Rightarrow> ParseObjectName key
      | _ \<Rightarrow> ObjectToName acc arg)"

lemmas key_defs =
  MetaNamespaceKeyFunc_def DeletionHandlingMetaNamespaceKeyFunc_def ObjectToName_def
  MetaObjectToName_def ObjectName_String_def SplitMetaNamespaceKey_def ParseObjectName_def
  DeletionHandlingObjectToName_def

section \<open>Keys and names\<close>

lemma KeyFunc_MetaObject [simp]:
  "DeletionHandlingMetaNamespaceKeyFunc acc (MetaObject ob) =
     Inr (if acc_namespace acc ob = [] then acc_name acc ob
          else acc_namespace acc ob @ ''/'' @ acc_name acc ob)"
  by (simp add: key_defs)

text \<open>The key of a cluster-scoped object is its name; that is what the controller relies on.\<close>

lemma KeyFunc_cluster_scoped:
  "GetNamespace u = [] \<Longrightarrow>
   DeletionHandlingMetaNamespaceKeyFunc unstructured_accessor (MetaObject u) = Inr (GetName u)"
  by simp

text \<open>C39. A key names its object: for a namespace and a name without a slash, splitting the key
  that the key function makes gives the namespace and the name back, for live objects and, with
  the same key, for tombstones; a key with more than one slash is refused.\<close>

theorem key_roundtrip:
  assumes "CHR ''/'' \<notin> set (acc_namespace acc ob)" and "CHR ''/'' \<notin> set (acc_name acc ob)"
  shows "\<exists>key. DeletionHandlingMetaNamespaceKeyFunc acc (MetaObject ob) = Inr key \<and>
    DeletionHandlingMetaNamespaceKeyFunc acc (DeletedFinalStateUnknown key (Some ob)) = Inr key \<and>
    SplitMetaNamespaceKey key = Inr (acc_namespace acc ob, acc_name acc ob) \<and>
    DeletionHandlingObjectToName acc (DeletedFinalStateUnknown key (Some ob)) =
      DeletionHandlingObjectToName acc (MetaObject ob) \<and>
    (count_list k (CHR ''/'') > 1 \<longrightarrow> (\<exists>e. SplitMetaNamespaceKey k = Inl e))"
proof -
  have "\<exists>e. SplitMetaNamespaceKey k = Inl e" if "count_list k (CHR ''/'') > 1"
    using that length_Split1 [of k "CHR ''/''"]
    by (auto simp: SplitMetaNamespaceKey_def split: list.splits)
  then show ?thesis
    using assms Split1_append [OF assms(1), of "acc_name acc ob"]
    by (auto simp: key_defs Split1_no_sep)
qed

definition ns_object :: obj where
  "ns_object = fmap_of_list
     [(''metadata'', JObj (fmap_of_list [(''name'', JStr ''tenant-a''), (''namespace'', JStr ''ns'')]))]"

lemma ns_object_fields [simp]: "GetName ns_object = ''tenant-a''" "GetNamespace ns_object = ''ns''"
  by (simp_all add: ns_object_def getter_defs NestedFieldNoCopy_def fmlookup_of_list)

theorem key_roundtrip_witness:
  "\<exists>key. DeletionHandlingMetaNamespaceKeyFunc unstructured_accessor (MetaObject ns_object) = Inr key
     \<and> SplitMetaNamespaceKey key = Inr (''ns'', ''tenant-a'')"
  using key_roundtrip [of unstructured_accessor ns_object "[]"] by auto

end
