(* ===== verification/TaskQueue.thy ===== *)
theory TaskQueue imports DelayingQueue ObjectKeys begin

text \<open>
  \<open>pkg/framework/taskqueue/taskqueue.go\<close>: a rate-limited queue of keys with a fixed number of
  worker goroutines.

  A goroutine of \<open>runInternal\<close> is its worker ID with the place it is at: before \<open>Get\<close>, in the
  sync function with a key, after the requeue or forget and before \<open>Done\<close>, or returned. Each of
  the queue calls it makes is one step of the pool; steps of different goroutines, of the callers
  of \<open>Enqueue\<close> and \<open>Shutdown\<close> and of the waiting loop interleave in any order. What the sync
  function returns is an input of the step. The resource name and the queue name are only logged.
\<close>

section \<open>The code\<close>

datatype worker = AtGet | Syncing string | Finishing string | Exited

record taskq =
  tq_queue :: "string ratelimitq"
  tq_workerDone :: "bool list"
  tq_numWorkers :: nat
  tq_goroutines :: "(nat \<times> worker) list"

abbreviation tq_delaying :: "taskq \<Rightarrow> string delayq" where
  "tq_delaying t \<equiv> rq_delaying (tq_queue t)"

definition with_delaying :: "taskq \<Rightarrow> string delayq \<Rightarrow> taskq" where
  "with_delaying t d = t\<lparr>tq_queue := (tq_queue t)\<lparr>rq_delaying := d\<rparr>\<rparr>"

definition NewPeriodicTaskQueueWithMultipleWorkers :: "(nat \<Rightarrow> int) \<Rightarrow> int \<Rightarrow> taskq option" where
  "NewPeriodicTaskQueueWithMultipleWorkers bucket numWorkers =
     (if numWorkers \<le> 0 then None
      else Some \<lparr>tq_queue = newRateLimitingQueue (DefaultControllerRateLimiter bucket),
                 tq_workerDone = replicate (nat numWorkers) False,
                 tq_numWorkers = nat numWorkers, tq_goroutines = []\<rparr>)"

definition tq_Len :: "taskq \<Rightarrow> nat" where
  "tq_Len t = wq_Len (dq_queue (tq_delaying t))"

definition tq_NumRequeues :: "'o accessor \<Rightarrow> taskq \<Rightarrow> 'o key_arg \<Rightarrow> nat" where
  "tq_NumRequeues acc t ob =
     (case DeletionHandlingMetaNamespaceKeyFunc acc ob of
        Inl err \<Rightarrow> 0
      | Inr key \<Rightarrow> rq_NumRequeues (tq_queue t) key)"

text \<open>The loop returns at the first object without a key.\<close>

fun tq_Enqueue :: "'o accessor \<Rightarrow> taskq \<Rightarrow> 'o key_arg list \<Rightarrow> taskq" where
  "tq_Enqueue acc t [] = t"
| "tq_Enqueue acc t (ob # objs) =
     (case DeletionHandlingMetaNamespaceKeyFunc acc ob of
        Inl err \<Rightarrow> t
      | Inr key \<Rightarrow> tq_Enqueue acc (with_delaying t (dq_Add (tq_delaying t) key)) objs)"

definition tq_Run :: "taskq \<Rightarrow> taskq" where
  "tq_Run t = t\<lparr>tq_goroutines := tq_goroutines t @ map (\<lambda>w. (w, AtGet)) [0..<tq_numWorkers t]\<rparr>"

text \<open>\<open>Shutdown\<close> shuts the queue down and then waits for every worker's channel to be closed.\<close>

definition tq_Shutdown :: "taskq \<Rightarrow> taskq" where
  "tq_Shutdown t = with_delaying t (dq_ShutDown (tq_delaying t))"

definition tq_Shutdown_waits :: "taskq \<Rightarrow> bool" where
  "tq_Shutdown_waits t \<longleftrightarrow> False \<in> set (tq_workerDone t)"

definition tq_ShuttingDown :: "taskq \<Rightarrow> bool" where
  "tq_ShuttingDown t = dq_ShuttingDown (tq_delaying t)"

text \<open>
  The three steps of one round of \<open>runInternal\<close>, for goroutine \<open>g\<close>. \<open>None\<close>: the goroutine is not
  there, or it blocks.
\<close>

definition worker_Get :: "taskq \<Rightarrow> nat \<Rightarrow> taskq outcome option" where
  "worker_Get t g =
     (case tq_goroutines t ! g of
        (workerID, AtGet) \<Rightarrow>
          (case dq_Get (tq_delaying t) of
             (Blocked, d) \<Rightarrow> None
           | (Shutdown, d) \<Rightarrow>
               if tq_workerDone t ! workerID then Some (Panic ''close of closed channel'')
               else Some (Return (t\<lparr>tq_workerDone := (tq_workerDone t)[workerID := True],
                                    tq_goroutines := (tq_goroutines t)[g := (workerID, Exited)]\<rparr>))
           | (Item key, d) \<Rightarrow>
               Some (Return ((with_delaying t d)
                       \<lparr>tq_goroutines := (tq_goroutines t)[g := (workerID, Syncing key)]\<rparr>)))
      | _ \<Rightarrow> None)"

definition worker_Synced :: "taskq \<Rightarrow> nat \<Rightarrow> error \<Rightarrow> int \<Rightarrow> taskq option" where
  "worker_Synced t g err now =
     (case tq_goroutines t ! g of
        (workerID, Syncing key) \<Rightarrow>
          map_option
            (\<lambda>q. t\<lparr>tq_queue := q, tq_goroutines := (tq_goroutines t)[g := (workerID, Finishing key)]\<rparr>)
            (case err of
               Some e \<Rightarrow> rq_AddRateLimited now (tq_queue t) key
             | None \<Rightarrow> Some (rq_Forget (tq_queue t) key))
      | _ \<Rightarrow> None)"

definition worker_Done :: "taskq \<Rightarrow> nat \<Rightarrow> taskq option" where
  "worker_Done t g =
     (case tq_goroutines t ! g of
        (workerID, Finishing key) \<Rightarrow>
          Some ((with_delaying t (dq_Done (tq_delaying t) key))
            \<lparr>tq_goroutines := (tq_goroutines t)[g := (workerID, AtGet)]\<rparr>)
      | _ \<Rightarrow> None)"

section \<open>The pool as a transition system\<close>

datatype 'o tq_event =
    EvEnqueue "'o key_arg list"
  | EvRun
  | EvGet nat
  | EvSynced nat error int
  | EvDone nat
  | EvReady int
  | EvTake int
  | EvShutdown

definition tq_next :: "'o accessor \<Rightarrow> taskq \<Rightarrow> 'o tq_event \<Rightarrow> taskq outcome option" where
  "tq_next acc t ev =
     (case ev of
        EvEnqueue objs \<Rightarrow> Some (Return (tq_Enqueue acc t objs))
      | EvRun \<Rightarrow> Some (Return (tq_Run t))
      | EvGet g \<Rightarrow> if g < length (tq_goroutines t) then worker_Get t g else None
      | EvSynced g err now \<Rightarrow>
          if g < length (tq_goroutines t) then map_option Return (worker_Synced t g err now) else None
      | EvDone g \<Rightarrow> if g < length (tq_goroutines t) then map_option Return (worker_Done t g) else None
      | EvReady now \<Rightarrow> Some (Return (with_delaying t (wl_add_ready now (tq_delaying t))))
      | EvTake now \<Rightarrow> Some (Return (with_delaying t (wl_take now (tq_delaying t))))
      | EvShutdown \<Rightarrow> Some (Return (tq_Shutdown t)))"

inductive tq_run :: "'o accessor \<Rightarrow> taskq \<Rightarrow> 'o tq_event list \<Rightarrow> taskq \<Rightarrow> bool"
  for acc :: "'o accessor" and t0 :: taskq where
  start: "tq_run acc t0 [] t0"
| step: "tq_run acc t0 evs t \<Longrightarrow> tq_next acc t ev = Some (Return t') \<Longrightarrow> tq_run acc t0 (evs @ [ev]) t'"

text \<open>The key a goroutine works on.\<close>

definition holds :: "taskq \<Rightarrow> nat \<Rightarrow> string \<Rightarrow> bool" where
  "holds t g key \<longleftrightarrow>
     g < length (tq_goroutines t) \<and> snd (tq_goroutines t ! g) \<in> {Syncing key, Finishing key}"

definition tq_status :: "taskq \<Rightarrow> string \<Rightarrow> status" where
  "tq_status t = dq_status (tq_delaying t)"

definition tq_inv :: "taskq \<Rightarrow> bool" where
  "tq_inv t \<longleftrightarrow>
     dq_inv (tq_delaying t) \<and> finite (dirty (tq_status t)) \<and>
     (\<forall>key. key \<in> busy (tq_status t) \<longleftrightarrow> (\<exists>g. holds t g key)) \<and>
     (\<forall>g g' key. holds t g key \<longrightarrow> holds t g' key \<longrightarrow> g = g')"

lemma with_delaying_simps [simp]:
  "rq_delaying (tq_queue (with_delaying t d)) = d" "tq_goroutines (with_delaying t d) = tq_goroutines t"
  "tq_workerDone (with_delaying t d) = tq_workerDone t" "tq_numWorkers (with_delaying t d) = tq_numWorkers t"
  "tq_status (with_delaying t d) = dq_status d" "holds (with_delaying t d) = holds t"
  by (simp_all add: with_delaying_def tq_status_def holds_def fun_eq_iff)

section \<open>Each step keeps the invariant\<close>

text \<open>A step that leaves the goroutines alone and changes no busy item.\<close>

lemma tq_inv_queue:
  assumes "tq_inv t" and "dq_inv d" and "busy (dq_status d) = busy (tq_status t)"
    and "finite (dirty (dq_status d))"
  shows "tq_inv (with_delaying t d)"
  using assms unfolding tq_inv_def by simp

lemma dq_status_wl_take:
  assumes "dq_inv q"
  shows "busy (dq_status (wl_take now q)) = busy (dq_status q)"
    and "\<exists>x. dirty (dq_status (wl_take now q)) \<subseteq> insert x (dirty (dq_status q))"
proof -
  have same: "dq_status (q\<lparr>dq_channel := c\<rparr>) = dq_status q"
    "dq_status (q\<lparr>dq_channel := c, dq_waiting := w\<rparr>) = dq_status q" for c w
    by (simp_all add: dq_status_def)
  have i: "dq_inv (q\<lparr>dq_channel := c\<rparr>)" for c using assms by (simp add: dq_inv_def)
  show "busy (dq_status (wl_take now q)) = busy (dq_status q)"
    by (cases "dq_channel q") (simp_all add: wl_take_def Let_def dq.busy_add [OF i] same)
  show "\<exists>x. dirty (dq_status (wl_take now q)) \<subseteq> insert x (dirty (dq_status q))"
    by (cases "dq_channel q") (auto simp: wl_take_def Let_def dq.dirty_add [OF i] same simp del: busy_dirty_iff)
qed

lemma dq_status_wl_add_ready:
  assumes "dq_inv q"
  shows "busy (dq_status (wl_add_ready now q)) = busy (dq_status q)"
    and "dirty (dq_status (wl_add_ready now q)) \<subseteq> dirty (dq_status q) \<union> dom (dq_times q)"
    and "dirty (dq_status q) \<subseteq> dirty (dq_status (wl_add_ready now q))"
proof -
  have "busy (dq_status (wl_add_ready now q)) = busy (dq_status q) \<and>
    dirty (dq_status (wl_add_ready now q)) \<subseteq> dirty (dq_status q) \<union> dom (dq_times q) \<and>
    dirty (dq_status q) \<subseteq> dirty (dq_status (wl_add_ready now q))"
  proof (cases "dq_ShuttingDown q")
    case True
    then show ?thesis by (simp add: wl_add_ready_def)
  next
    case False
    have "\<forall>x. dq_status (wl_add_ready now q) x = dq_status q x \<or>
      x \<in> dom (dq_times q) \<and> dq_status (wl_add_ready now q) x = due (dq_status q x)"
      using wl_add_ready_result [OF assms False, of now] by (auto split: option.splits if_splits)
    moreover have "due s \<in> {Processing, Again} \<longleftrightarrow> s \<in> {Processing, Again}" for s
      by (cases s) (simp_all add: due_def)
    ultimately have "\<forall>x. (dq_status (wl_add_ready now q) x \<in> {Processing, Again} \<longleftrightarrow> dq_status q x \<in> {Processing, Again})
      \<and> (dq_status (wl_add_ready now q) x \<in> {Waiting, Again} \<longrightarrow> dq_status q x \<in> {Waiting, Again} \<or> x \<in> dom (dq_times q))
      \<and> (dq_status q x \<in> {Waiting, Again} \<longrightarrow> dq_status (wl_add_ready now q) x \<in> {Waiting, Again})"
      using due_due(2) by metis
    then show ?thesis unfolding busy_def dirty_def by blast
  qed
  then show "busy (dq_status (wl_add_ready now q)) = busy (dq_status q)"
    and "dirty (dq_status (wl_add_ready now q)) \<subseteq> dirty (dq_status q) \<union> dom (dq_times q)"
    and "dirty (dq_status q) \<subseteq> dirty (dq_status (wl_add_ready now q))" by blast+
qed

lemma dq_AddAfter_status:
  assumes "dq_inv q" and "dq_AddAfter now q x d = Some q'"
  shows "dq_inv q'" and "busy (dq_status q') = busy (dq_status q)"
    and "dirty (dq_status q) \<subseteq> dirty (dq_status q')" and "dirty (dq_status q') \<subseteq> insert x (dirty (dq_status q))"
    and "dq_ShuttingDown q' = dq_ShuttingDown q" and "dq_ShuttingDown q \<Longrightarrow> q' = q"
proof -
  have "q' = q \<or> q' = dq_Add q x \<or> (\<exists>c. q' = q\<lparr>dq_channel := c\<rparr>)"
    using assms(2) by (auto simp: dq_AddAfter_def split: if_splits)
  then show "dq_inv q'" and "busy (dq_status q') = busy (dq_status q)"
    and "dirty (dq_status q) \<subseteq> dirty (dq_status q')" and "dirty (dq_status q') \<subseteq> insert x (dirty (dq_status q))"
    and "dq_ShuttingDown q' = dq_ShuttingDown q"
    using assms(1) dq.inv_add [OF assms(1), of x] dq.busy_add [OF assms(1), of x]
      dq.dirty_add [OF assms(1), of x] dq.closing_add [of q x]
    by (auto simp: dq_status_def dq_inv_def dq_ShuttingDown_def simp del: busy_dirty_iff split: if_splits)
  show "dq_ShuttingDown q \<Longrightarrow> q' = q" using assms(2) by (simp add: dq_AddAfter_def)
qed

text \<open>Enqueueing is adding the keys up to the first failure.\<close>

lemma tq_Enqueue_inv:
  "tq_inv t \<Longrightarrow>
   tq_inv (tq_Enqueue acc t objs) \<and> tq_goroutines (tq_Enqueue acc t objs) = tq_goroutines t \<and>
   dirty (tq_status t) \<subseteq> dirty (tq_status (tq_Enqueue acc t objs)) \<and>
   tq_ShuttingDown (tq_Enqueue acc t objs) = tq_ShuttingDown t"
proof (induction acc t objs rule: tq_Enqueue.induct)
  case (2 acc t ob objs)
  show ?case
  proof (cases "DeletionHandlingMetaNamespaceKeyFunc acc ob")
    case (Inr key)
    have d: "dq_inv (tq_delaying t)" "finite (dirty (dq_status (tq_delaying t)))"
      using 2(2) by (simp_all add: tq_inv_def tq_status_def)
    let ?t = "with_delaying t (dq_Add (tq_delaying t) key)"
    have "tq_inv ?t"
      using d by (intro tq_inv_queue [OF 2(2)]) (simp_all add: dq.inv_add dq.busy_add dq.dirty_add tq_status_def)
    from 2(1) [OF Inr this] Inr show ?thesis
      using dq.dirty_add [OF d(1), of key] dq.closing_add [of "tq_delaying t" key]
      by (auto simp: tq_status_def tq_ShuttingDown_def simp del: busy_dirty_iff split: if_splits)
  qed (use 2(2) in simp)
qed simp

lemma holds_update:
  assumes "g < length (tq_goroutines t)" and "tq_goroutines t' = (tq_goroutines t)[g := (w, s)]"
  shows "holds t' g' key \<longleftrightarrow> (if g' = g then s \<in> {Syncing key, Finishing key} else holds t g' key)"
  using assms by (auto simp: holds_def nth_list_update)

lemma worker_Get_Item:
  assumes "worker_Get t g = Some (Return t')" and "tq_delaying t' \<noteq> tq_delaying t"
  obtains w key d where "tq_goroutines t ! g = (w, AtGet)" "dq_Get (tq_delaying t) = (Item key, d)"
    "t' = (with_delaying t d)\<lparr>tq_goroutines := (tq_goroutines t)[g := (w, Syncing key)]\<rparr>"
  using assms
  by (auto simp: worker_Get_def split: prod.splits worker.splits get_result.splits if_splits)

lemma worker_Get_cases:
  assumes "worker_Get t g = Some (Return t')"
  obtains
    (item) w key d where "tq_goroutines t ! g = (w, AtGet)" "dq_Get (tq_delaying t) = (Item key, d)"
      "t' = (with_delaying t d)\<lparr>tq_goroutines := (tq_goroutines t)[g := (w, Syncing key)]\<rparr>"
  | (quit) w d where "tq_goroutines t ! g = (w, AtGet)" "dq_Get (tq_delaying t) = (Shutdown, d)"
      "\<not> tq_workerDone t ! w"
      "t' = t\<lparr>tq_workerDone := (tq_workerDone t)[w := True],
             tq_goroutines := (tq_goroutines t)[g := (w, Exited)]\<rparr>"
  using assms
  by (auto simp: worker_Get_def split: prod.splits worker.splits get_result.splits if_splits)

text \<open>Who holds what, as a relation: taking a free key and giving a key back.\<close>

definition exclusive :: "('g \<Rightarrow> 'k \<Rightarrow> bool) \<Rightarrow> 'k set \<Rightarrow> bool" where
  "exclusive h B \<longleftrightarrow> (\<forall>k. k \<in> B \<longleftrightarrow> (\<exists>g. h g k)) \<and> (\<forall>g g' k. h g k \<longrightarrow> h g' k \<longrightarrow> g = g')"

lemma exclusive_take:
  assumes "exclusive h B" and "\<And>k. \<not> h g k" and "key \<notin> B"
    and "\<And>g' k. h' g' k \<longleftrightarrow> (if g' = g then k = key else h g' k)"
  shows "exclusive h' (insert key B)"
  using assms unfolding exclusive_def by (metis insert_iff)

lemma exclusive_release:
  assumes "exclusive h B" and "\<And>k. h g k \<longleftrightarrow> k = key"
    and "\<And>g' k. h' g' k \<longleftrightarrow> g' \<noteq> g \<and> h g' k"
  shows "exclusive h' (B - {key})"
  using assms unfolding exclusive_def by (metis Diff_iff singleton_iff)

lemma tq_inv_exclusive:
  "tq_inv t \<longleftrightarrow> dq_inv (tq_delaying t) \<and> finite (dirty (tq_status t)) \<and>
     exclusive (holds t) (busy (tq_status t))"
  by (simp add: tq_inv_def exclusive_def)

lemma tq_inv_Get:
  assumes inv: "tq_inv t" and g: "g < length (tq_goroutines t)" and run: "worker_Get t g = Some (Return t')"
  shows "tq_inv t'"
  using run
proof (cases rule: worker_Get_cases)
  case (item w key d)
  have i: "dq_inv (tq_delaying t)" using inv by (simp add: tq_inv_def)
  note get = dq.get_item [OF i item(2)] and b = dq.busy_get [OF i item(2)]
  have st: "tq_status t' = dq_status d" and dl: "tq_delaying t' = d"
    using item(3) by (simp_all add: tq_status_def)
  have h: "holds t' g' k \<longleftrightarrow> (if g' = g then k = key else holds t g' k)" for g' k
    using holds_update [OF g, of t' w "Syncing key"] item(3) by auto
  have no: "\<not> holds t g k" for k using item(1) by (simp add: holds_def)
  have "exclusive (holds t) (busy (tq_status t))" using inv by (simp add: tq_inv_exclusive)
  from exclusive_take [OF this no _ h] b(1)
  have "exclusive (holds t') (insert key (busy (tq_status t)))" by (simp add: tq_status_def)
  then show ?thesis
    using inv get b(2,4) unfolding tq_inv_exclusive st dl by (simp add: tq_status_def)
next
  case (quit w d)
  have h: "holds t' g' k \<longleftrightarrow> holds t g' k" for g' k
    using holds_update [OF g, of t' w Exited] quit by (auto simp: holds_def)
  then show ?thesis using inv quit(4) by (simp add: tq_inv_def tq_status_def)
qed

lemma worker_Synced_cases:
  assumes "worker_Synced t g err now = Some t'"
  obtains w key where "tq_goroutines t ! g = (w, Syncing key)"
    "tq_goroutines t' = (tq_goroutines t)[g := (w, Finishing key)]"
    "tq_workerDone t' = tq_workerDone t" "tq_numWorkers t' = tq_numWorkers t"
    "(\<exists>e delay. err = Some e \<and> limiter_When (rq_limiter (tq_queue t)) key = (delay, rq_limiter (tq_queue t'))
        \<and> dq_AddAfter now (tq_delaying t) key delay = Some (tq_delaying t'))
     \<or> (err = None \<and> tq_delaying t' = tq_delaying t \<and>
        rq_limiter (tq_queue t') = limiter_Forget (rq_limiter (tq_queue t)) key)"
  using assms
  by (auto simp: worker_Synced_def rq_AddRateLimited_def rq_Forget_def
        split: prod.splits worker.splits option.splits)

lemma tq_inv_Synced:
  assumes inv: "tq_inv t" and g: "g < length (tq_goroutines t)" and run: "worker_Synced t g err now = Some t'"
  shows "tq_inv t'"
proof -
  obtain w key where w: "tq_goroutines t ! g = (w, Syncing key)"
    and w': "tq_goroutines t' = (tq_goroutines t)[g := (w, Finishing key)]"
    and d: "tq_delaying t' = tq_delaying t \<or> (\<exists>delay. dq_AddAfter now (tq_delaying t) key delay = Some (tq_delaying t'))"
    using run by (cases rule: worker_Synced_cases) auto
  have h: "holds t' g' k \<longleftrightarrow> holds t g' k" for g' k
    using holds_update [OF g w'] w g by (auto simp: holds_def)
  have i: "dq_inv (tq_delaying t)" using inv by (simp add: tq_inv_def)
  have fin: "finite (dirty (dq_status (tq_delaying t)))" using inv by (simp add: tq_inv_def tq_status_def)
  have "dq_inv (tq_delaying t') \<and> busy (tq_status t') = busy (tq_status t) \<and> finite (dirty (tq_status t'))"
    using d i fin dq_AddAfter_status [OF i] finite_subset [of _ "insert key (dirty (dq_status (tq_delaying t)))"]
    by (auto simp: tq_status_def simp del: busy_dirty_iff)
  with inv h show ?thesis unfolding tq_inv_def by simp
qed

lemma tq_inv_Done:
  assumes inv: "tq_inv t" and g: "g < length (tq_goroutines t)" and run: "worker_Done t g = Some t'"
  shows "tq_inv t'"
proof -
  obtain w key where w: "tq_goroutines t ! g = (w, Finishing key)"
    and t': "t' = (with_delaying t (dq_Done (tq_delaying t) key))
      \<lparr>tq_goroutines := (tq_goroutines t)[g := (w, AtGet)]\<rparr>"
    using run by (auto simp: worker_Done_def split: prod.splits worker.splits)
  have h: "holds t' g' k \<longleftrightarrow> g' \<noteq> g \<and> holds t g' k" for g' k
    using holds_update [OF g, of t' w AtGet] t' by auto
  have hg: "holds t g k \<longleftrightarrow> k = key" for k using w g by (auto simp: holds_def)
  have i: "dq_inv (tq_delaying t)" and b: "key \<in> busy (dq_status (tq_delaying t))"
    using inv hg by (auto simp: tq_inv_def tq_status_def)
  have "dq_inv (dq_Done (tq_delaying t) key)" using dq.inv_finish [OF i] b by simp
  moreover note dq.busy_finish [OF i b]
  moreover have "tq_status t' = dq_status (dq_Done (tq_delaying t) key)"
    and "tq_delaying t' = dq_Done (tq_delaying t) key" by (simp_all add: t' tq_status_def)
  moreover have "exclusive (holds t') (busy (tq_status t) - {key})"
    using inv exclusive_release [OF _ hg h] by (simp add: tq_inv_exclusive)
  ultimately show ?thesis using inv unfolding tq_inv_exclusive by (simp add: tq_status_def)
qed

lemma holds_Run [simp]: "holds (tq_Run t) = holds t"
proof (intro ext)
  fix g key
  let ?n = "length (tq_goroutines t)"
  show "holds (tq_Run t) g key = holds t g key"
  proof (cases "g < ?n")
    case False
    then have "snd (tq_goroutines (tq_Run t) ! g) = AtGet" if "g < ?n + tq_numWorkers t"
      using that by (simp add: tq_Run_def nth_append)
    with False show ?thesis by (auto simp: holds_def tq_Run_def)
  qed (simp add: holds_def tq_Run_def nth_append)
qed

lemma tq_inv_next:
  assumes inv: "tq_inv t" and run: "tq_next acc t ev = Some (Return t')"
  shows "tq_inv t'"
proof -
  have i: "dq_inv (tq_delaying t)" and fin: "finite (dirty (dq_status (tq_delaying t)))"
    using inv by (simp_all add: tq_inv_def tq_status_def)
  show ?thesis
  proof (cases ev)
    case (EvEnqueue objs)
    with run tq_Enqueue_inv [OF inv, of acc objs] show ?thesis by (auto simp: tq_next_def)
  next
    case EvRun
    have t': "t' = tq_Run t" using run EvRun by (simp add: tq_next_def)
    have "tq_status t' = tq_status t" and "tq_delaying t' = tq_delaying t"
      by (simp_all add: t' tq_Run_def tq_status_def)
    with inv show ?thesis by (simp add: tq_inv_def t' holds_Run)
  next
    case (EvGet g)
    with run tq_inv_Get [OF inv] show ?thesis by (simp add: tq_next_def split: if_splits)
  next
    case (EvSynced g err now)
    with run tq_inv_Synced [OF inv] show ?thesis by (auto simp: tq_next_def split: if_splits)
  next
    case (EvDone g)
    with run tq_inv_Done [OF inv] show ?thesis by (auto simp: tq_next_def split: if_splits)
  next
    case (EvReady now)
    let ?d = "wl_add_ready now (tq_delaying t)"
    note st = dq_status_wl_add_ready [OF i, of now]
    have "dq_inv ?d"
      using i wl_add_ready_result [OF i] by (cases "dq_ShuttingDown (tq_delaying t)") (simp_all add: wl_add_ready_def)
    moreover have "finite (dirty (dq_status ?d))"
      by (rule finite_subset [OF st(2)]) (simp add: fin dq_times_def pq_times_def finite_dom_map_of)
    ultimately have "tq_inv (with_delaying t ?d)" using st(1) by (intro tq_inv_queue [OF inv]) (simp_all add: tq_status_def)
    with run EvReady show ?thesis by (simp add: tq_next_def)
  next
    case (EvTake now)
    let ?d = "wl_take now (tq_delaying t)"
    obtain x where x: "dirty (dq_status ?d) \<subseteq> insert x (dirty (dq_status (tq_delaying t)))"
      using dq_status_wl_take(2) [OF i] by blast
    have "finite (dirty (dq_status ?d))" by (rule finite_subset [OF x]) (simp add: fin)
    then have "tq_inv (with_delaying t ?d)"
      using dq_status_wl_take(1) [OF i] wl_take_inv [OF i]
      by (intro tq_inv_queue [OF inv]) (simp_all add: tq_status_def)
    with run EvTake show ?thesis by (simp add: tq_next_def)
  next
    case EvShutdown
    let ?d = "dq_ShutDown (tq_delaying t)"
    have "tq_inv (with_delaying t ?d)"
      using i fin dq.inv_shut dq.status_shut [OF i] by (intro tq_inv_queue [OF inv]) (simp_all add: tq_status_def)
    with run EvShutdown show ?thesis by (simp add: tq_next_def tq_Shutdown_def)
  qed
qed

lemma tq_inv_run: "tq_run acc t0 evs t \<Longrightarrow> tq_inv t0 \<Longrightarrow> tq_inv t"
  by (induction rule: tq_run.induct) (auto intro: tq_inv_next)

lemma tq_new:
  assumes "NewPeriodicTaskQueueWithMultipleWorkers bucket n = Some t0"
  shows "tq_inv t0" and "tq_goroutines t0 = []" and "tq_workerDone t0 = replicate (tq_numWorkers t0) False"
    and "0 < tq_numWorkers t0" and "rq_limiter (tq_queue t0) = default_limiter Map.empty bucket 0"
proof -
  have t0: "t0 = \<lparr>tq_queue = newRateLimitingQueue (DefaultControllerRateLimiter bucket),
      tq_workerDone = replicate (nat n) False, tq_numWorkers = nat n, tq_goroutines = []\<rparr>" "0 < n"
    using assms by (auto simp: NewPeriodicTaskQueueWithMultipleWorkers_def split: if_splits)
  then show "tq_goroutines t0 = []" and "tq_workerDone t0 = replicate (tq_numWorkers t0) False"
    and "0 < tq_numWorkers t0" by simp_all
  show "rq_limiter (tq_queue t0) = default_limiter Map.empty bucket 0"
    by (simp add: t0 newRateLimitingQueue_def DefaultControllerRateLimiter_def default_limiter_def)
  have "tq_status t0 = dq_status newDelayingQueue" and d: "tq_delaying t0 = newDelayingQueue"
    by (simp_all add: t0 tq_status_def newRateLimitingQueue_def)
  then have "busy (tq_status t0) = {}" and "dirty (tq_status t0) = {}"
    by (auto simp: dq.status_new)
  then show "tq_inv t0" using d dq.inv_new by (simp add: tq_inv_exclusive exclusive_def holds_def t0)
qed

text \<open>C19. No key is synced by two workers at once: in every state the pool can reach, whatever was
  enqueued, failed and requeued, however many workers run, the goroutines that are in the sync
  function or have not yet called \<open>Done\<close> hold different keys, exactly those the work queue marks as
  being processed. The manager relies on this.\<close>

theorem one_worker_per_key:
  assumes "NewPeriodicTaskQueueWithMultipleWorkers bucket n = Some t0" and "tq_run acc t0 evs t"
  shows "(\<forall>g g' key. holds t g key \<and> holds t g' key \<longrightarrow> g = g') \<and>
    (\<forall>key. key \<in> wq_processing (dq_queue (tq_delaying t)) \<longleftrightarrow> (\<exists>g. holds t g key))"
proof -
  have "tq_inv t" using tq_inv_run [OF assms(2)] tq_new [OF assms(1)] by blast
  moreover have "wq_processing (dq_queue (tq_delaying t)) = busy (tq_status t)"
    by (auto simp: tq_status_def dq_status_def wq_status_cases)
  ultimately show ?thesis by (auto simp: tq_inv_exclusive exclusive_def)
qed

section \<open>Nothing enqueued is lost\<close>

text \<open>A key that is due stays due until a worker takes it.\<close>

lemma dirty_next:
  assumes inv: "tq_inv t" and run: "tq_next acc t ev = Some (Return t')" and key: "key \<in> dirty (tq_status t)"
  shows "key \<in> dirty (tq_status t') \<or> (\<exists>g. ev = EvGet g \<and> holds t' g key)"
proof -
  have i: "dq_inv (tq_delaying t)" using inv by (simp add: tq_inv_def)
  have k: "key \<in> dirty (dq_status (tq_delaying t))" using key by (simp add: tq_status_def)
  show ?thesis
  proof (cases ev)
    case (EvEnqueue objs)
    with run key tq_Enqueue_inv [OF inv] show ?thesis by (auto simp: tq_next_def simp del: busy_dirty_iff)
  next
    case EvRun
    with run key show ?thesis by (auto simp: tq_next_def tq_Run_def tq_status_def)
  next
    case (EvGet g)
    with run have g: "g < length (tq_goroutines t)" "worker_Get t g = Some (Return t')"
      by (simp_all add: tq_next_def split: if_splits)
    from g(2) show ?thesis
    proof (cases rule: worker_Get_cases)
      case (item w k' d)
      have "dirty (dq_status d) = dirty (dq_status (tq_delaying t)) - {k'}"
        by (rule dq.busy_get(4) [OF i item(2)])
      then show ?thesis
        using k item(3) EvGet g(1) by (cases "key = k'") (auto simp: tq_status_def holds_def simp del: busy_dirty_iff)
    qed (use key in \<open>simp add: tq_status_def\<close>)
  next
    case (EvSynced g err now)
    with run have "worker_Synced t g err now = Some t'" by (auto simp: tq_next_def split: if_splits)
    then show ?thesis
      using k
      by (cases rule: worker_Synced_cases)
        (auto simp: tq_status_def simp del: busy_dirty_iff intro: subsetD [OF dq_AddAfter_status(3) [OF i]])
  next
    case (EvDone g)
    with run have g: "g < length (tq_goroutines t)" and "worker_Done t g = Some t'"
      by (auto simp: tq_next_def split: if_splits)
    then obtain w k' where w: "tq_goroutines t ! g = (w, Finishing k')"
      and t': "tq_status t' = dq_status (dq_Done (tq_delaying t) k')"
      by (auto simp: worker_Done_def tq_status_def split: prod.splits worker.splits)
    have "holds t g k'" using w g by (simp add: holds_def)
    then have "k' \<in> busy (dq_status (tq_delaying t))" using inv by (auto simp: tq_inv_def tq_status_def)
    from dq.busy_finish(2) [OF i this] k t' show ?thesis by simp
  next
    case (EvReady now)
    with run k dq_status_wl_add_ready(3) [OF i, of now] show ?thesis
      by (auto simp: tq_next_def tq_status_def simp del: busy_dirty_iff)
  next
    case (EvTake now)
    have same: "dq_status (tq_delaying t\<lparr>dq_channel := c\<rparr>) = dq_status (tq_delaying t)"
      "dq_status (tq_delaying t\<lparr>dq_channel := c, dq_waiting := w\<rparr>) = dq_status (tq_delaying t)" for c w
      by (simp_all add: dq_status_def)
    have ic: "dq_inv (tq_delaying t\<lparr>dq_channel := c\<rparr>)" for c using i by (simp add: dq_inv_def)
    have "key \<in> dirty (dq_status (wl_take now (tq_delaying t)))"
      using k by (cases "dq_channel (tq_delaying t)")
        (auto simp: wl_take_def Let_def dq.dirty_add [OF ic] same simp del: busy_dirty_iff)
    with run EvTake show ?thesis by (auto simp: tq_next_def tq_status_def simp del: busy_dirty_iff)
  next
    case EvShutdown
    with run key dq.status_shut [OF i] show ?thesis
      by (auto simp: tq_next_def tq_Shutdown_def tq_status_def)
  qed
qed

text \<open>Enqueueing objects that have keys makes every key due, on an open queue.\<close>

lemma tq_Enqueue_due:
  "tq_inv t \<Longrightarrow> \<not> tq_ShuttingDown t \<Longrightarrow>
   \<forall>ob\<in>set objs. \<exists>k. DeletionHandlingMetaNamespaceKeyFunc acc ob = Inr k \<Longrightarrow>
   ob \<in> set objs \<Longrightarrow> DeletionHandlingMetaNamespaceKeyFunc acc ob = Inr key \<Longrightarrow>
   key \<in> dirty (tq_status (tq_Enqueue acc t objs))"
proof (induction acc t objs rule: tq_Enqueue.induct)
  case (2 acc t ob' objs)
  obtain k where k: "DeletionHandlingMetaNamespaceKeyFunc acc ob' = Inr k" using 2(4) by auto
  let ?t = "with_delaying t (dq_Add (tq_delaying t) k)"
  have d: "dq_inv (tq_delaying t)" "finite (dirty (dq_status (tq_delaying t)))"
    using 2(2) by (simp_all add: tq_inv_def tq_status_def)
  have inv: "tq_inv ?t"
    using d by (intro tq_inv_queue [OF 2(2)]) (simp_all add: dq.inv_add dq.busy_add dq.dirty_add tq_status_def)
  have op: "\<not> tq_ShuttingDown ?t" using 2(3) by (simp add: tq_ShuttingDown_def dq.closing_add)
  have kd: "k \<in> dirty (tq_status ?t)"
    using 2(3) dq.dirty_add [OF d(1), of k] by (simp add: tq_ShuttingDown_def del: busy_dirty_iff)
  show ?case
  proof (cases "ob \<in> set objs")
    case True
    with 2(1) [OF k inv op] 2(4,6) k show ?thesis by simp
  next
    case False
    then have "key = k" using 2(5,6) k by simp
    with kd tq_Enqueue_inv [OF inv, of acc objs] k show ?thesis by (auto simp del: busy_dirty_iff)
  qed
qed simp

text \<open>C20. An enqueued key is not lost: if all objects of an \<open>Enqueue\<close> on an open queue have keys, then
  after any further events each of these keys is still due, or some worker took it from the
  queue after the \<open>Enqueue\<close>; so a change of an object is always followed by a sync.\<close>

theorem enqueued_key_not_lost:
  assumes "NewPeriodicTaskQueueWithMultipleWorkers bucket n = Some t0" and "tq_run acc t0 evs t"
    and "\<not> tq_ShuttingDown t"
    and "\<forall>ob\<in>set objs. \<exists>k. DeletionHandlingMetaNamespaceKeyFunc acc ob = Inr k"
    and "ob \<in> set objs" and "DeletionHandlingMetaNamespaceKeyFunc acc ob = Inr key"
    and "tq_run acc (tq_Enqueue acc t objs) evs' t'"
  shows "key \<in> dirty (tq_status t') \<or>
    (\<exists>evs1 g evs2 s. evs' = evs1 @ EvGet g # evs2 \<and>
       tq_run acc (tq_Enqueue acc t objs) (evs1 @ [EvGet g]) s \<and> holds s g key)"
proof -
  have inv: "tq_inv t" using tq_inv_run [OF assms(2)] tq_new [OF assms(1)] by blast
  have inv': "tq_inv (tq_Enqueue acc t objs)" using tq_Enqueue_inv [OF inv] by blast
  have key: "key \<in> dirty (tq_status (tq_Enqueue acc t objs))"
    by (rule tq_Enqueue_due [OF inv assms(3-6)])
  show ?thesis
    using assms(7)
  proof (induction rule: tq_run.induct)
    case start
    then show ?case using key by blast
  next
    case (step es s ev s')
    note run = tq_run.step [OF step(1,2)]
    have "tq_inv s" using tq_inv_run [OF step(1) inv'] .
    from step(3) show ?case
    proof
      assume "key \<in> dirty (tq_status s)"
      from dirty_next [OF \<open>tq_inv s\<close> step(2) this] run show ?thesis by fastforce
    next
      assume "\<exists>evs1 g evs2 s. es = evs1 @ EvGet g # evs2 \<and>
        tq_run acc (tq_Enqueue acc t objs) (evs1 @ [EvGet g]) s \<and> holds s g key"
      then show ?thesis by (metis append.assoc append_Cons)
    qed
  qed
qed

text \<open>An example: two workers, the key \<open>a\<close> enqueued and taken by the first worker.\<close>

definition tq_ex0 :: taskq where
  "tq_ex0 = \<lparr>tq_queue = newRateLimitingQueue (DefaultControllerRateLimiter (\<lambda>_. 0)),
     tq_workerDone = [False, False], tq_numWorkers = 2, tq_goroutines = []\<rparr>"

definition tq_ex1 :: taskq where
  "tq_ex1 = tq_Enqueue unstructured_accessor (tq_Run tq_ex0) [ExplicitKey ''a'']"

definition tq_ex2 :: taskq where
  "tq_ex2 = (case worker_Get tq_ex1 0 of Some (Return t) \<Rightarrow> t | _ \<Rightarrow> tq_ex1)"

lemmas tq_ex_defs =
  tq_ex0_def tq_ex1_def tq_ex2_def tq_Run_def worker_Get_def with_delaying_def newRateLimitingQueue_def
  newDelayingQueue_def dq_Get_def dq_Add_def wq_defs DeletionHandlingMetaNamespaceKeyFunc_def
  MetaNamespaceKeyFunc_def upt_rec

lemma tq_ex0_new: "NewPeriodicTaskQueueWithMultipleWorkers (\<lambda>_. 0) 2 = Some tq_ex0"
  by (simp add: NewPeriodicTaskQueueWithMultipleWorkers_def tq_ex0_def numeral_2_eq_2)

lemma tq_ex_run:
  "tq_run unstructured_accessor tq_ex0 [EvRun, EvEnqueue [ExplicitKey ''a''], EvGet 0] tq_ex2"
proof -
  have "tq_run unstructured_accessor tq_ex0 ([] @ [EvRun]) (tq_Run tq_ex0)"
    by (rule tq_run.step [OF tq_run.start]) (simp add: tq_next_def)
  then have "tq_run unstructured_accessor tq_ex0 (([] @ [EvRun]) @ [EvEnqueue [ExplicitKey ''a'']]) tq_ex1"
    by (rule tq_run.step) (simp add: tq_next_def tq_ex1_def)
  then have "tq_run unstructured_accessor tq_ex0
      ((([] @ [EvRun]) @ [EvEnqueue [ExplicitKey ''a'']]) @ [EvGet 0]) tq_ex2"
    by (rule tq_run.step) (simp add: tq_next_def tq_ex_defs)
  then show ?thesis by simp
qed

lemma tq_ex2_holds: "holds tq_ex2 0 ''a''"
  by (simp add: holds_def tq_ex_defs)

theorem one_worker_per_key_witness: "holds tq_ex2 0 ''a'' \<and> \<not> holds tq_ex2 1 ''a''"
  using one_worker_per_key [OF tq_ex0_new tq_ex_run] tq_ex2_holds by (metis zero_neq_one)

theorem enqueued_key_not_lost_witness:
  "''a'' \<in> dirty (tq_status (tq_Enqueue unstructured_accessor tq_ex2 [ExplicitKey ''a'']))"
proof -
  have "\<not> tq_ShuttingDown tq_ex2"
    by (simp add: tq_ShuttingDown_def dq_ShuttingDown_def tq_ex_defs)
  from enqueued_key_not_lost [OF tq_ex0_new tq_ex_run this, of "[ExplicitKey ''a'']" "ExplicitKey ''a''" "''a''",
    OF _ _ _ tq_run.start] show ?thesis
    by (simp add: DeletionHandlingMetaNamespaceKeyFunc_def MetaNamespaceKeyFunc_def del: busy_dirty_iff)
qed

section \<open>Shutting down\<close>

text \<open>With one call of \<open>Run\<close>: goroutine \<open>i\<close> has worker ID \<open>i\<close>, and its channel is closed exactly when
  it has returned.\<close>

definition pool_inv :: "taskq \<Rightarrow> bool" where
  "pool_inv t \<longleftrightarrow>
     map fst (tq_goroutines t) = [0..<tq_numWorkers t] \<and>
     tq_workerDone t = map (\<lambda>(w, s). s = Exited) (tq_goroutines t)"

lemma pool_inv_nth:
  assumes "pool_inv t" and "g < length (tq_goroutines t)"
  shows "fst (tq_goroutines t ! g) = g" and "tq_workerDone t ! g \<longleftrightarrow> snd (tq_goroutines t ! g) = Exited"
proof -
  have "map fst (tq_goroutines t) ! g = [0..<tq_numWorkers t] ! g" using assms(1) by (simp add: pool_inv_def)
  moreover have "length (tq_goroutines t) = tq_numWorkers t"
    using assms(1) by (metis diff_zero length_map length_upt pool_inv_def)
  ultimately show "fst (tq_goroutines t ! g) = g" using assms(2) by simp
  show "tq_workerDone t ! g \<longleftrightarrow> snd (tq_goroutines t ! g) = Exited"
    using assms by (auto simp: pool_inv_def split: prod.split)
qed

lemma list_update_same: "g < length xs \<Longrightarrow> xs ! g = x \<Longrightarrow> xs[g := x] = xs"
  by auto

lemma pool_inv_length: "pool_inv t \<Longrightarrow> length (tq_workerDone t) = length (tq_goroutines t)"
  by (simp add: pool_inv_def)

lemma pool_inv_update:
  assumes "pool_inv t" and "g < length (tq_goroutines t)" and "tq_numWorkers t' = tq_numWorkers t"
    and "tq_goroutines t' = (tq_goroutines t)[g := (g, s)]"
    and "tq_workerDone t' = (tq_workerDone t)[g := (s = Exited)]"
  shows "pool_inv t'"
proof -
  have "map fst ((tq_goroutines t)[g := (g, s)]) = (map fst (tq_goroutines t))[g := g]"
    by (simp add: map_update)
  also have "\<dots> = map fst (tq_goroutines t)"
    using assms(2) pool_inv_nth(1) [OF assms(1,2)] by (intro list_update_same) simp_all
  finally show ?thesis using assms by (simp add: pool_inv_def map_update)
qed

lemma worker_Synced_fields:
  assumes "worker_Synced t g err now = Some t'"
  obtains w key where "tq_goroutines t ! g = (w, Syncing key)"
    "tq_goroutines t' = (tq_goroutines t)[g := (w, Finishing key)]"
    "tq_workerDone t' = tq_workerDone t" "tq_numWorkers t' = tq_numWorkers t"
  using assms by (cases rule: worker_Synced_cases) blast

lemma worker_Done_fields:
  assumes "worker_Done t g = Some t'"
  obtains w key where "tq_goroutines t ! g = (w, Finishing key)"
    "tq_goroutines t' = (tq_goroutines t)[g := (w, AtGet)]"
    "tq_workerDone t' = tq_workerDone t" "tq_numWorkers t' = tq_numWorkers t"
    "tq_delaying t' = dq_Done (tq_delaying t) key"
  using assms by (auto simp: worker_Done_def split: prod.splits worker.splits)

lemma tq_Enqueue_fields [simp]:
  "tq_goroutines (tq_Enqueue acc t objs) = tq_goroutines t"
  "tq_workerDone (tq_Enqueue acc t objs) = tq_workerDone t"
  "tq_numWorkers (tq_Enqueue acc t objs) = tq_numWorkers t"
  by (induction acc t objs rule: tq_Enqueue.induct) (simp_all split: sum.split)

lemma pool_inv_next:
  assumes inv: "pool_inv t" and run: "tq_next acc t ev = Some (Return t')" and "ev \<noteq> EvRun"
  shows "pool_inv t'"
proof (cases ev)
  case (EvGet g)
  with run have g: "g < length (tq_goroutines t)" and "worker_Get t g = Some (Return t')"
    by (simp_all add: tq_next_def split: if_splits)
  note id = pool_inv_nth [OF inv g]
  from \<open>worker_Get t g = Some (Return t')\<close> show ?thesis
  proof (cases rule: worker_Get_cases)
    case (item w key d)
    have "w = g" and "\<not> tq_workerDone t ! g" using id item(1) by simp_all
    then show ?thesis
      using item(3) g pool_inv_length [OF inv]
      by (intro pool_inv_update [OF inv g]) (auto intro: list_update_same [symmetric])
  next
    case (quit w d)
    then show ?thesis using id g by (intro pool_inv_update [OF inv g]) auto
  qed
next
  case (EvSynced g err now)
  with run have g: "g < length (tq_goroutines t)" and s: "worker_Synced t g err now = Some t'"
    by (auto simp: tq_next_def split: if_splits)
  note id = pool_inv_nth [OF inv g]
  from s show ?thesis
  proof (cases rule: worker_Synced_fields)
    case (1 w key)
    then show ?thesis using id g pool_inv_length [OF inv]
      by (intro pool_inv_update [OF inv g]) (auto intro: list_update_same [symmetric])
  qed
next
  case (EvDone g)
  with run have g: "g < length (tq_goroutines t)" and s: "worker_Done t g = Some t'"
    by (auto simp: tq_next_def split: if_splits)
  note id = pool_inv_nth [OF inv g]
  from s show ?thesis
  proof (cases rule: worker_Done_fields)
    case (1 w key)
    then show ?thesis using id g pool_inv_length [OF inv]
      by (intro pool_inv_update [OF inv g]) (auto intro: list_update_same [symmetric])
  qed
qed (use assms in \<open>auto simp: tq_next_def pool_inv_def tq_Shutdown_def\<close>)

text \<open>The steps of the workers, and how many of them are left once the queue is closed.\<close>

definition worker_event :: "'o tq_event \<Rightarrow> bool" where
  "worker_event ev = (case ev of EvGet g \<Rightarrow> True | EvSynced g err now \<Rightarrow> True | EvDone g \<Rightarrow> True | _ \<Rightarrow> False)"

definition worker_weight :: "worker \<Rightarrow> nat" where
  "worker_weight s = (case s of AtGet \<Rightarrow> 1 | Syncing k \<Rightarrow> 3 | Finishing k \<Rightarrow> 2 | Exited \<Rightarrow> 0)"

lemma worker_weight_simps [simp]:
  "worker_weight AtGet = 1" "worker_weight (Syncing k) = 3" "worker_weight (Finishing k) = 2"
  "worker_weight Exited = 0"
  by (simp_all add: worker_weight_def)

definition work_left :: "taskq \<Rightarrow> nat" where
  "work_left t = 4 * card (dirty (tq_status t)) + sum_list (map (worker_weight \<circ> snd) (tq_goroutines t))"

lemma sum_weight_update:
  assumes "g < length gs"
  shows "sum_list (map (worker_weight \<circ> snd) (gs[g := (w, s)])) + worker_weight (snd (gs ! g)) =
    sum_list (map (worker_weight \<circ> snd) gs) + worker_weight s"
proof -
  have "worker_weight (snd (gs ! g)) \<le> sum_list (map (worker_weight \<circ> snd) gs)"
    using assms by (metis comp_apply elem_le_sum_list length_map nth_map)
  then show ?thesis using assms by (simp add: map_update sum_list_update)
qed

lemma work_left_decreases:
  assumes inv: "tq_inv t" and cl: "tq_ShuttingDown t" and ev: "worker_event ev"
    and run: "tq_next acc t ev = Some (Return t')"
  shows "work_left t' < work_left t" and "tq_ShuttingDown t'"
proof -
  have i: "dq_inv (tq_delaying t)" and fin: "finite (dirty (dq_status (tq_delaying t)))"
    and cl': "dq_ShuttingDown (tq_delaying t)"
    using inv cl by (simp_all add: tq_inv_def tq_status_def tq_ShuttingDown_def)
  have "work_left t' < work_left t \<and> tq_ShuttingDown t'"
  proof (cases ev)
    case (EvGet g)
    with run have g: "g < length (tq_goroutines t)" and "worker_Get t g = Some (Return t')"
      by (simp_all add: tq_next_def split: if_splits)
    note up = sum_weight_update [OF g]
    from \<open>worker_Get t g = Some (Return t')\<close> show ?thesis
    proof (cases rule: worker_Get_cases)
      case (item w key d)
      note b = dq.busy_get [OF i item(2)]
      have "card (dirty (dq_status d)) + 1 = card (dirty (dq_status (tq_delaying t)))"
        using card_Suc_Diff1 [OF fin b(3)] unfolding b(4) by simp
      then show ?thesis
        using up [of w "Syncing key"] item dq.get_item [OF i item(2)] cl'
        by (simp add: work_left_def tq_status_def tq_ShuttingDown_def)
    next
      case (quit w d)
      then show ?thesis
        using up [of w Exited] cl by (simp add: work_left_def tq_status_def tq_ShuttingDown_def)
    qed
  next
    case (EvSynced g err now)
    with run have g: "g < length (tq_goroutines t)" and "worker_Synced t g err now = Some t'"
      by (auto simp: tq_next_def split: if_splits)
    from this(2) show ?thesis
    proof (cases rule: worker_Synced_cases)
      case (1 w key)
      then have "tq_delaying t' = tq_delaying t" using dq_AddAfter_status(6) [OF i _ cl'] by auto
      with 1 show ?thesis
        using sum_weight_update [OF g, of w "Finishing key"] cl
        by (simp add: work_left_def tq_status_def tq_ShuttingDown_def)
    qed
  next
    case (EvDone g)
    with run have g: "g < length (tq_goroutines t)" and "worker_Done t g = Some t'"
      by (auto simp: tq_next_def split: if_splits)
    from this(2) show ?thesis
    proof (cases rule: worker_Done_fields)
      case (1 w key)
      have "holds t g key" using 1(1) g by (simp add: holds_def)
      then have "key \<in> busy (dq_status (tq_delaying t))" using inv by (auto simp: tq_inv_def tq_status_def)
      from dq.busy_finish(2) [OF i this] 1 show ?thesis
        using sum_weight_update [OF g, of w AtGet] cl
        by (simp add: work_left_def tq_status_def tq_ShuttingDown_def dq.closing_finish)
    qed
  qed (use ev in \<open>simp_all add: worker_event_def\<close>)
  then show "work_left t' < work_left t" and "tq_ShuttingDown t'" by simp_all
qed

text \<open>On a closed queue no worker is stuck: one that has not returned has a step.\<close>

lemma worker_enabled:
  assumes inv: "tq_inv t" "pool_inv t" and cl: "tq_ShuttingDown t" and w: "tq_Shutdown_waits t"
  shows "\<exists>ev t'. worker_event ev \<and> tq_next acc t ev = Some (Return t')"
proof -
  obtain g where g: "g < length (tq_goroutines t)" "\<not> tq_workerDone t ! g"
    using w pool_inv_length [OF inv(2)] by (auto simp: tq_Shutdown_waits_def in_set_conv_nth)
  note id = pool_inv_nth [OF inv(2) g(1)]
  have i: "dq_inv (tq_delaying t)" using inv by (simp add: tq_inv_def)
  have cl': "dq_ShuttingDown (tq_delaying t)" using cl by (simp add: tq_ShuttingDown_def)
  obtain s where s: "tq_goroutines t ! g = (g, s)" using id(1) by (cases "tq_goroutines t ! g") auto
  show ?thesis
  proof (cases s)
    case AtGet
    obtain r d where r: "dq_Get (tq_delaying t) = (r, d)" by fastforce
    have "r \<noteq> Blocked" using dq.get_blocked [OF i] r cl' by auto
    then have "\<exists>t'. worker_Get t g = Some (Return t')"
      using s AtGet r g(2) by (cases r) (simp_all add: worker_Get_def)
    then show ?thesis
      using g(1) by (intro exI [of _ "EvGet g"]) (simp add: tq_next_def worker_event_def)
  next
    case (Syncing key)
    then have "\<exists>t'. worker_Synced t g None 0 = Some t'" using s by (simp add: worker_Synced_def)
    then show ?thesis
      using g(1) by (intro exI [of _ "EvSynced g None 0"]) (auto simp: tq_next_def worker_event_def)
  next
    case (Finishing key)
    then have "\<exists>t'. worker_Done t g = Some t'" using s by (simp add: worker_Done_def)
    then show ?thesis
      using g(1) by (intro exI [of _ "EvDone g"]) (auto simp: tq_next_def worker_event_def)
  next
    case Exited
    with s id(2) g(2) show ?thesis by simp
  qed
qed

text \<open>How often \<open>Run\<close> was called.\<close>

definition runs :: "'o tq_event list \<Rightarrow> nat" where
  "runs evs = length (filter (\<lambda>ev. ev = EvRun) evs)"

lemma runs_simps [simp]: "runs [] = 0" "runs (evs @ [ev]) = runs evs + (if ev = EvRun then 1 else 0)"
  by (simp_all add: runs_def)

definition idle_pool :: "taskq \<Rightarrow> bool" where
  "idle_pool t \<longleftrightarrow> tq_goroutines t = [] \<and> tq_workerDone t = replicate (tq_numWorkers t) False"

lemma idle_pool_next:
  assumes "idle_pool t" and "tq_next acc t ev = Some (Return t')" and "ev \<noteq> EvRun"
  shows "idle_pool t' \<and> tq_numWorkers t' = tq_numWorkers t"
  using assms by (cases ev) (auto simp: idle_pool_def tq_next_def tq_Shutdown_def)

lemma pool_inv_Run: "idle_pool t \<Longrightarrow> pool_inv (tq_Run t)"
  by (simp add: idle_pool_def pool_inv_def tq_Run_def o_def map_replicate_const)

lemma pool_run:
  "tq_run acc t0 evs t \<Longrightarrow> idle_pool t0 \<Longrightarrow>
   (runs evs = 0 \<longrightarrow> idle_pool t \<and> tq_numWorkers t = tq_numWorkers t0) \<and> (runs evs = 1 \<longrightarrow> pool_inv t)"
proof (induction rule: tq_run.induct)
  case (step evs t ev t')
  show ?case
  proof (cases "ev = EvRun")
    case True
    then have "t' = tq_Run t" using step(2) by (simp add: tq_next_def)
    with step True pool_inv_Run show ?thesis by simp
  next
    case False
    with step idle_pool_next [OF _ step(2) False] pool_inv_next [OF _ step(2) False] show ?thesis by auto
  qed
qed simp

lemma tq_ShuttingDown_next:
  assumes inv: "tq_inv t" and cl: "tq_ShuttingDown t \<or> ev = EvShutdown"
    and run: "tq_next acc t ev = Some (Return t')"
  shows "tq_ShuttingDown t'"
proof -
  have i: "dq_inv (tq_delaying t)" using inv by (simp add: tq_inv_def)
  show ?thesis
  proof (cases "worker_event ev")
    case True
    then have "ev \<noteq> EvShutdown" by (auto simp: worker_event_def)
    with work_left_decreases(2) [OF inv _ True run] cl show ?thesis by blast
  next
    case False
    with run cl i tq_Enqueue_inv [OF inv, of acc] dq.closing_shut [OF i] show ?thesis
      by (cases ev)
        (auto simp: tq_next_def worker_event_def tq_ShuttingDown_def tq_Run_def tq_Shutdown_def
          wl_add_ready_def wl_take_open)
  qed
qed

lemma tq_ShuttingDown_run:
  "tq_run acc t0 evs t \<Longrightarrow> tq_inv t0 \<Longrightarrow> EvShutdown \<in> set evs \<or> tq_ShuttingDown t0 \<Longrightarrow> tq_ShuttingDown t"
proof (induction rule: tq_run.induct)
  case (step evs t ev t')
  from tq_inv_run [OF step(1,4)] step show ?case by (auto intro: tq_ShuttingDown_next)
qed simp

lemma work_left_run:
  "tq_run acc t evs t' \<Longrightarrow> tq_inv t \<Longrightarrow> pool_inv t \<Longrightarrow> tq_ShuttingDown t \<Longrightarrow> \<forall>ev\<in>set evs. worker_event ev \<Longrightarrow>
   work_left t' + length evs \<le> work_left t \<and> tq_inv t' \<and> pool_inv t' \<and> tq_ShuttingDown t'"
proof (induction rule: tq_run.induct)
  case (step evs s ev s')
  then have s: "work_left s + length evs \<le> work_left t" "tq_inv s" "pool_inv s" "tq_ShuttingDown s"
    and ev: "worker_event ev" by auto
  then have "ev \<noteq> EvRun" by (auto simp: worker_event_def)
  from work_left_decreases [OF s(2,4) ev step(2)] tq_inv_next [OF s(2) step(2)]
    pool_inv_next [OF s(3) step(2) this] s(1)
  show ?case by simp
qed simp

text \<open>C21. \<open>Shutdown\<close> returns: after one \<open>Run\<close> and a \<open>Shutdown\<close>, the workers can make at most
  \<open>work_left\<close> more steps (four per due key and at most three per worker), and as long as
  \<open>Shutdown\<close> waits for a worker, some worker has a step to make. So if the sync function
  returns, the wait ends, whatever the workers' order.\<close>

theorem shutdown_completes:
  assumes "NewPeriodicTaskQueueWithMultipleWorkers bucket n = Some t0" and "tq_run acc t0 evs t"
    and "runs evs = 1" and "EvShutdown \<in> set evs"
    and "tq_run acc t evs' t'" and "\<forall>ev\<in>set evs'. worker_event ev"
  shows "length evs' \<le> work_left t \<and>
    (tq_Shutdown_waits t' \<longrightarrow> (\<exists>ev t''. worker_event ev \<and> tq_next acc t' ev = Some (Return t'')))"
proof -
  note new = tq_new [OF assms(1)]
  have "idle_pool t0" using new by (simp add: idle_pool_def)
  then have t: "tq_inv t" "pool_inv t" "tq_ShuttingDown t"
    using tq_inv_run [OF assms(2) new(1)] pool_run [OF assms(2)] assms(3)
      tq_ShuttingDown_run [OF assms(2) new(1)] assms(4) by simp_all
  from work_left_run [OF assms(5) t assms(6)]
  have "length evs' \<le> work_left t" "tq_inv t'" "pool_inv t'" "tq_ShuttingDown t'" by simp_all
  with worker_enabled show ?thesis by blast
qed

lemma tq_ex_shutdown_run:
  "tq_run unstructured_accessor tq_ex0 [EvRun, EvEnqueue [ExplicitKey ''a''], EvGet 0, EvShutdown] (tq_Shutdown tq_ex2)"
  using tq_run.step [OF tq_ex_run, of EvShutdown "tq_Shutdown tq_ex2"] by (simp add: tq_next_def)

theorem shutdown_completes_witness:
  "work_left (tq_Shutdown tq_ex2) = 4 \<and> tq_Shutdown_waits (tq_Shutdown tq_ex2) \<and>
   (\<exists>ev t''. worker_event ev \<and> tq_next unstructured_accessor (tq_Shutdown tq_ex2) ev = Some (Return t''))"
proof -
  have w: "tq_Shutdown_waits (tq_Shutdown tq_ex2)"
    by (simp add: tq_Shutdown_waits_def tq_Shutdown_def tq_ex_defs)
  have "dirty (tq_status (tq_Shutdown tq_ex2)) = {}"
    by (auto simp: tq_status_def tq_Shutdown_def dq_ShutDown_def dq_status_def wq_status_def tq_ex_defs
        split: if_splits)
  then have "work_left (tq_Shutdown tq_ex2) = 4"
    by (simp add: work_left_def tq_Shutdown_def tq_ex_defs)
  with w shutdown_completes [OF tq_ex0_new tq_ex_shutdown_run _ _ tq_run.start] show ?thesis
    by (simp add: runs_def)
qed

text \<open>\<open>Shutdown\<close> before \<open>Run\<close> waits forever: as long as \<open>Run\<close> has not been called there is no
  goroutine that could close a worker's channel, so whatever else happens \<open>Shutdown\<close> goes on
  waiting.\<close>

theorem shutdown_without_run_waits:
  assumes "NewPeriodicTaskQueueWithMultipleWorkers bucket n = Some t0" and "tq_run acc t0 evs t"
    and "runs evs = 0"
  shows "tq_Shutdown_waits t"
proof -
  note new = tq_new [OF assms(1)]
  have "idle_pool t0" using new by (simp add: idle_pool_def)
  with pool_run [OF assms(2)] assms(3) have "idle_pool t" "tq_numWorkers t = tq_numWorkers t0" by simp_all
  with new(4) show ?thesis by (simp add: idle_pool_def tq_Shutdown_waits_def)
qed

theorem shutdown_without_run_waits_witness: "tq_Shutdown_waits (tq_Shutdown tq_ex0)"
proof -
  have "tq_run unstructured_accessor tq_ex0 ([] @ [EvShutdown]) (tq_Shutdown tq_ex0)"
    by (rule tq_run.step [OF tq_run.start]) (simp add: tq_next_def)
  from shutdown_without_run_waits [OF tq_ex0_new this] show ?thesis by (simp add: runs_def)
qed

section \<open>Retries\<close>

text \<open>The limiter stays a default limiter; only the end of a sync changes it.\<close>

lemma tq_Enqueue_limiter [simp]: "rq_limiter (tq_queue (tq_Enqueue acc t objs)) = rq_limiter (tq_queue t)"
  by (induction acc t objs rule: tq_Enqueue.induct) (simp_all add: with_delaying_def split: sum.split)

lemma NumRequeues_default [simp]: "limiter_NumRequeues (default_limiter m bucket k) x = failures_of m x"
  by (simp add: default_limiter_def)

lemma Forget_default [simp]: "limiter_Forget (default_limiter m bucket k) x = default_limiter (m(x := None)) bucket k"
  by (simp add: default_limiter_def)

lemma limiter_same:
  assumes "tq_next acc t ev = Some (Return t')" and "\<And>g err now. ev \<noteq> EvSynced g err now"
  shows "rq_limiter (tq_queue t') = rq_limiter (tq_queue t)"
proof (cases ev)
  case (EvGet g)
  with assms have "worker_Get t g = Some (Return t')" by (simp add: tq_next_def split: if_splits)
  then show ?thesis by (cases rule: worker_Get_cases) (auto simp: with_delaying_def)
qed (use assms in \<open>auto simp: tq_next_def tq_Run_def tq_Shutdown_def with_delaying_def worker_Done_def
      split: if_splits prod.splits worker.splits\<close>)

lemma limiter_next:
  assumes "rq_limiter (tq_queue t) = default_limiter m bucket k" and "tq_next acc t ev = Some (Return t')"
  shows "\<exists>m k. rq_limiter (tq_queue t') = default_limiter m bucket k"
proof (cases "\<exists>g err now. ev = EvSynced g err now")
  case True
  then obtain g err now where "worker_Synced t g err now = Some t'"
    using assms(2) by (auto simp: tq_next_def split: if_splits)
  then show ?thesis
  proof (cases rule: worker_Synced_cases)
    case (1 w key)
    then have "rq_limiter (tq_queue t') \<in> {snd (limiter_When (rq_limiter (tq_queue t)) key),
      limiter_Forget (rq_limiter (tq_queue t)) key}" by auto
    then show ?thesis unfolding assms(1) by (auto simp: default_limiter_When)
  qed
next
  case False
  with limiter_same [OF assms(2)] assms(1) show ?thesis by (metis (no_types))
qed

lemma limiter_run:
  "tq_run acc t0 evs t \<Longrightarrow> rq_limiter (tq_queue t0) = default_limiter m bucket k \<Longrightarrow>
   \<exists>m k. rq_limiter (tq_queue t) = default_limiter m bucket k"
proof (induction rule: tq_run.induct)
  case (step evs t ev t')
  then obtain m k where "rq_limiter (tq_queue t) = default_limiter m bucket k" by blast
  from limiter_next [OF this step(2)] show ?case .
qed blast

text \<open>C22. A failed sync is retried and a successful one is not: when the sync of a key returns an
  error on an open queue, the key is on its way again (in the delaying channel, waiting for its
  time, or due) and its requeue count has grown by one; when it returns without an error the
  count is zero and the queue is as before.\<close>

theorem sync_result_handled:
  assumes "NewPeriodicTaskQueueWithMultipleWorkers bucket n = Some t0" and "tq_run acc t0 evs t"
    and "\<not> tq_ShuttingDown t" and "snd (tq_goroutines t ! g) = Syncing key"
    and "tq_next acc t (EvSynced g err now) = Some (Return t')"
  shows "if err = None
    then tq_delaying t' = tq_delaying t \<and> rq_NumRequeues (tq_queue t') key = 0
    else scheduled (tq_delaying t') key \<and>
         rq_NumRequeues (tq_queue t') key = rq_NumRequeues (tq_queue t) key + 1"
proof -
  have i: "dq_inv (tq_delaying t)"
    using tq_inv_run [OF assms(2) tq_new(1) [OF assms(1)]] by (simp add: tq_inv_def)
  obtain m k where l: "rq_limiter (tq_queue t) = default_limiter m bucket k"
    using limiter_run [OF assms(2) tq_new(5) [OF assms(1)]] by blast
  have op: "\<not> dq_ShuttingDown (tq_delaying t)" using assms(3) by (simp add: tq_ShuttingDown_def)
  have "worker_Synced t g err now = Some t'" using assms(5) by (auto simp: tq_next_def split: if_splits)
  then show ?thesis
  proof (cases rule: worker_Synced_cases)
    case (1 w key')
    then have "key' = key" using assms(4) by simp
    show ?thesis
    proof (cases err)
      case None
      with 1(5) l \<open>key' = key\<close> show ?thesis by (simp add: rq_NumRequeues_def)
    next
      case (Some e)
      with 1(5) obtain delay where d: "limiter_When (rq_limiter (tq_queue t)) key = (delay, rq_limiter (tq_queue t'))"
        "dq_AddAfter now (tq_delaying t) key delay = Some (tq_delaying t')"
        using \<open>key' = key\<close> by auto
      have "rq_limiter (tq_queue t') = default_limiter (m(key \<mapsto> failures_of m key + 1)) bucket (k + 1)"
        using d(1) unfolding l default_limiter_When by simp
      with l dq_AddAfter_scheduled(1) [OF i op d(2)] Some show ?thesis by (simp add: rq_NumRequeues_def)
    qed
  qed
qed

lemma tq_ex2_open: "\<not> tq_ShuttingDown tq_ex2"
  by (simp add: tq_ShuttingDown_def dq_ShuttingDown_def tq_ex_defs)

theorem sync_result_handled_witness:
  "\<exists>t'. tq_next unstructured_accessor tq_ex2 (EvSynced 0 (Some (Errorf ''x'' [])) 0) = Some (Return t') \<and>
     scheduled (tq_delaying t') ''a'' \<and> rq_NumRequeues (tq_queue t') ''a'' = 1"
proof -
  have s: "snd (tq_goroutines tq_ex2 ! 0) = Syncing ''a''" by (simp add: tq_ex_defs)
  have l: "rq_limiter (tq_queue tq_ex2) = default_limiter Map.empty (\<lambda>_. 0) 0"
    by (simp add: tq_ex_defs DefaultControllerRateLimiter_def default_limiter_def)
  have "dq_channel (tq_delaying tq_ex2) = []" by (simp add: tq_ex_defs)
  then have "\<exists>q. dq_AddAfter 0 (tq_delaying tq_ex2) ''a'' d = Some q" for d
    by (auto simp: dq_AddAfter_def channel_capacity_def)
  then have "\<exists>t'. worker_Synced tq_ex2 0 (Some (Errorf ''x'' [])) 0 = Some t'"
    using s l by (auto simp: worker_Synced_def rq_AddRateLimited_def default_limiter_When split: prod.split)
  moreover have "0 < length (tq_goroutines tq_ex2)" by (simp add: tq_ex_defs)
  ultimately obtain t' where
    t': "tq_next unstructured_accessor tq_ex2 (EvSynced 0 (Some (Errorf ''x'' [])) 0) = Some (Return t')"
    by (auto simp: tq_next_def)
  have "rq_NumRequeues (tq_queue tq_ex2) ''a'' = 0" using l by (simp add: rq_NumRequeues_def)
  with sync_result_handled [OF tq_ex0_new tq_ex_run tq_ex2_open s t'] t' show ?thesis by auto
qed

text \<open>\<open>Enqueue\<close> stops at the first object it cannot compute a key for: the objects after it are
  dropped, even those that have keys.\<close>

theorem enqueue_stops_at_bad_object:
  assumes "DeletionHandlingMetaNamespaceKeyFunc acc bad = Inl e"
  shows "tq_Enqueue acc t (objs @ bad # rest) = tq_Enqueue acc t objs"
proof (induction objs arbitrary: t)
  case Nil
  then show ?case using assms by simp
next
  case (Cons ob objs)
  then show ?case by (simp split: sum.split)
qed

theorem enqueue_stops_at_bad_object_witness:
  "tq_Enqueue unstructured_accessor tq_ex0 [NoMeta ''string'', ExplicitKey ''a''] = tq_ex0"
  using enqueue_stops_at_bad_object [of unstructured_accessor "NoMeta ''string''" _ tq_ex0 "[]" "[ExplicitKey ''a'']"]
  by (simp add: key_defs)

end
