(* ===== verification/Controller.thy ===== *)
theory Controller imports ManagerProps TaskQueue begin

text \<open>
  \<open>pkg/framework/controller.go\<close>: the controller between the informer of ProviderConfigs, the task
  queue and the manager. The informer's event handlers enqueue objects, a worker of the queue
  calls \<open>syncWrapper\<close> with a key, and \<open>sync\<close> starts or stops the controllers of the ProviderConfig
  the cache holds for the key.

  The cache is the indexer of the informer: \<open>lister key\<close> is what \<open>GetByKey\<close> answers, an error, no
  object, or an object (a pointer to an Unstructured, an object of another type, or nil). The
  context carries the tenant's UID to the manager, which does not read it (theory \<open>MtContext\<close>).
  Sync IDs are random and only logged.
\<close>

section \<open>The code\<close>

datatype cached =
    CachedUnstructured nat
  | CachedOther string
  | CachedNil

text \<open>The interface \<open>controllerManager\<close>, and the objects the cached pointers denote.\<close>

record 's controllerManager =
  cm_start :: "'s \<Rightarrow> nat \<Rightarrow> error outcome \<times> 's"
  cm_stop :: "'s \<Rightarrow> nat \<Rightarrow> error outcome \<times> 's"
  cm_object :: "'s \<Rightarrow> nat \<Rightarrow> obj"

definition ctl_sync ::
  "'s controllerManager \<Rightarrow> (string \<Rightarrow> go_error + cached option) \<Rightarrow> 's \<Rightarrow> string \<Rightarrow> error outcome \<times> 's" where
  "ctl_sync m lister s key =
     (case lister key of
        Inl err \<Rightarrow> (Return (Some (Wrapf ''failed to lookup providerConfig for key %s: %w'' [key] err)), s)
      | Inr None \<Rightarrow> (Return None, s)
      | Inr (Some CachedNil) \<Rightarrow> (Return None, s)
      | Inr (Some (CachedOther t)) \<Rightarrow>
          (Return (Some (Errorf ''expected *unstructured.Unstructured but got %T'' [t])), s)
      | Inr (Some (CachedUnstructured p)) \<Rightarrow>
          let u = cm_object m s p in
          if key \<noteq> GetName u
          then (Return (Some (Errorf ''mismatched tenant UID: %s != %s'' [key, GetName u])), s)
          else if \<not> IsZero (GetDeletionTimestamp u)
          then (case cm_stop m s p of
                  (Panic msg, s) \<Rightarrow> (Panic msg, s)
                | (Return (Some err), s) \<Rightarrow>
                    (Return (Some (Wrapf ''failed to stop controllers for providerConfig %s: %w'' [GetName u] err)), s)
                | (Return None, s) \<Rightarrow> (Return None, s))
          else (case cm_start m s p of
                  (Panic msg, s) \<Rightarrow> (Panic msg, s)
                | (Return (Some err), s) \<Rightarrow>
                    (Return (Some (Wrapf ''failed to start controllers for providerConfig %s: %w'' [GetName u] err)), s)
                | (Return None, s) \<Rightarrow> (Return None, s)))"

text \<open>The deferred function of \<open>syncWrapper\<close> turns a panic into an error.\<close>

definition ctl_syncWrapper ::
  "'s controllerManager \<Rightarrow> (string \<Rightarrow> go_error + cached option) \<Rightarrow> 's \<Rightarrow> string \<Rightarrow> error \<times> 's" where
  "ctl_syncWrapper m lister s key =
     (case ctl_sync m lister s key of
        (Return err, s) \<Rightarrow> (err, s)
      | (Panic r, s) \<Rightarrow> (Some (Errorf ''panic in sync worker: %v'' [r]), s))"

text \<open>The handlers: an update enqueues the new object, and there is no handler for deletions.\<close>

datatype 'o informer_event =
    Added 'o
  | Updated 'o 'o
  | Deleted "'o"

definition handler_enqueues :: "'o informer_event \<Rightarrow> 'o list" where
  "handler_enqueues ev =
     (case ev of
        Added ob \<Rightarrow> [ob]
      | Updated old cur \<Rightarrow> [cur]
      | Deleted ob \<Rightarrow> [])"

definition handle_event :: "'o accessor \<Rightarrow> taskq \<Rightarrow> 'o key_arg informer_event \<Rightarrow> taskq" where
  "handle_event acc t ev = tq_Enqueue acc t (handler_enqueues ev)"

definition controller_workersCount :: int where
  "controller_workersCount = 5"

definition newController_queue :: "(nat \<Rightarrow> int) \<Rightarrow> taskq option" where
  "newController_queue bucket = NewPeriodicTaskQueueWithMultipleWorkers bucket controller_workersCount"

text \<open>
  \<open>Run\<close>: what it does to the queue, in order, between which anything may happen: when the caches
  synced, it starts the workers, waits for the stop channel and shuts down; when they did not, it
  shuts down at once.
\<close>

definition controller_Run :: "bool \<Rightarrow> 'o tq_event list" where
  "controller_Run synced = (if synced then [EvRun] else []) @ [EvShutdown]"

definition is_lifecycle_event :: "'o tq_event \<Rightarrow> bool" where
  "is_lifecycle_event ev = (case ev of EvRun \<Rightarrow> True | EvShutdown \<Rightarrow> True | _ \<Rightarrow> False)"

section \<open>The interface of the manager\<close>

text \<open>
  What the controller relies on: a start that reports success for a live object leaves its key
  running, a stop that reports success leaves it not running, and neither touches another key.
\<close>

locale controller_manager =
  fixes m :: "'s controllerManager" and run_of :: "'s \<Rightarrow> string \<Rightarrow> bool" and ok :: "'s \<Rightarrow> bool"
  assumes start_runs: "ok s \<Longrightarrow> cm_start m s p = (Return None, s') \<Longrightarrow>
          IsZero (GetDeletionTimestamp (cm_object m s p)) \<Longrightarrow> run_of s' (GetName (cm_object m s p))"
    and start_ok: "ok s \<Longrightarrow> cm_start m s p = (r, s') \<Longrightarrow> ok s'"
    and start_other: "ok s \<Longrightarrow> cm_start m s p = (r, s') \<Longrightarrow> k \<noteq> GetName (cm_object m s p) \<Longrightarrow>
          run_of s' k = run_of s k"
    and start_failed: "ok s \<Longrightarrow> cm_start m s p = (Return (Some e), s') \<Longrightarrow> run_of s' k = run_of s k"
    and stop_stops: "ok s \<Longrightarrow> cm_stop m s p = (Return None, s') \<Longrightarrow>
          \<not> run_of s' (GetName (cm_object m s p))"
    and stop_ok: "ok s \<Longrightarrow> cm_stop m s p = (r, s') \<Longrightarrow> ok s'"
    and stop_other: "ok s \<Longrightarrow> cm_stop m s p = (r, s') \<Longrightarrow> k \<noteq> GetName (cm_object m s p) \<Longrightarrow>
          run_of s' k = run_of s k"
begin

lemma sync_cached:
  assumes "lister key = Inr (Some (CachedUnstructured p))" and "GetName (cm_object m s p) = key"
  shows "ctl_sync m lister s key =
    (let del = \<not> IsZero (GetDeletionTimestamp (cm_object m s p)) in
     case (if del then cm_stop m s p else cm_start m s p) of
       (Panic msg, s') \<Rightarrow> (Panic msg, s')
     | (Return err, s') \<Rightarrow>
         (Return (map_option (Wrapf (if del then ''failed to stop controllers for providerConfig %s: %w''
            else ''failed to start controllers for providerConfig %s: %w'') [key]) err), s'))"
  using assms unfolding ctl_sync_def Let_def
  by (auto split: prod.split outcome.split option.split)

text \<open>A sync that reports success has brought the key into the state its cached object asks for.\<close>

lemma sync_converges:
  assumes ok: "ok s" and cached: "lister key = Inr (Some (CachedUnstructured p))"
    and sync: "ctl_syncWrapper m lister s key = (None, s')"
  shows "run_of s' key \<longleftrightarrow> IsZero (GetDeletionTimestamp (cm_object m s p))"
proof -
  have name: "GetName (cm_object m s p) = key"
    using sync cached by (auto simp: ctl_syncWrapper_def ctl_sync_def Let_def split: if_splits)
  have c: "ctl_sync m lister s key = (Return None, s')"
    using sync by (auto simp: ctl_syncWrapper_def split: prod.splits outcome.splits)
  show ?thesis
  proof (cases "IsZero (GetDeletionTimestamp (cm_object m s p))")
    case True
    then have "cm_start m s p = (Return None, s')"
      using c sync_cached [where lister = lister, OF cached name] by (auto simp: Let_def split: prod.splits outcome.splits)
    from start_runs [OF ok this True] True name show ?thesis by simp
  next
    case False
    then have "cm_stop m s p = (Return None, s')"
      using c sync_cached [where lister = lister, OF cached name] by (auto simp: Let_def split: prod.splits outcome.splits)
    from stop_stops [OF ok this] False name show ?thesis by simp
  qed
qed

text \<open>A sync of a key touches no other key, whatever it reports.\<close>

lemma sync_other:
  assumes ok: "ok s" and sync: "ctl_syncWrapper m lister s key = (r, s')" and k: "k \<noteq> key"
  shows "run_of s' k = run_of s k \<and> ok s'"
proof (cases "\<exists>p. lister key = Inr (Some (CachedUnstructured p)) \<and> GetName (cm_object m s p) = key")
  case False
  then have "s' = s"
    using sync by (auto simp: ctl_syncWrapper_def ctl_sync_def Let_def
        split: sum.splits option.splits cached.splits if_splits)
  with ok show ?thesis by simp
next
  case True
  then obtain p where cached: "lister key = Inr (Some (CachedUnstructured p))"
    and name: "GetName (cm_object m s p) = key" by blast
  obtain q where "cm_stop m s p = (q, s') \<or> cm_start m s p = (q, s')"
    using sync sync_cached [where lister = lister, OF cached name]
    by (auto simp: ctl_syncWrapper_def Let_def split: prod.splits outcome.splits if_splits)
  then show ?thesis
    using stop_other [OF ok] stop_ok [OF ok] start_other [OF ok] start_ok [OF ok] name k by metis
qed

end

section \<open>The code's manager provides it\<close>

definition manager_ops :: "'w api \<Rightarrow> 'w starter \<Rightarrow> 'w mstate controllerManager" where
  "manager_ops api st =
     \<lparr>cm_start = StartControllersForProviderConfig api st,
      cm_stop = StopControllersForProviderConfig api,
      cm_object = objs\<rparr>"

definition is_running :: "'w mstate \<Rightarrow> string \<Rightarrow> bool" where
  "is_running s key \<longleftrightarrow> (\<exists>ch. view s key = Some (Some ch))"

lemma manager_ops_simps [simp]:
  "cm_start (manager_ops api st) = StartControllersForProviderConfig api st"
  "cm_stop (manager_ops api st) = StopControllersForProviderConfig api"
  "cm_object (manager_ops api st) = objs"
  by (simp_all add: manager_ops_def)

lemma Start_view:
  assumes "cm_inv (controllers s)" and "StartControllersForProviderConfig api st s pc = (out, s')"
  shows "cm_inv (controllers s')" and "k \<noteq> GetName (objs s pc) \<Longrightarrow> view s' k = view s k"
    and "out = Return (Some e) \<Longrightarrow> view s' = view s"
    and "out = Return None \<Longrightarrow> \<not> deleting s pc \<Longrightarrow> \<exists>ch. view s' (GetName (objs s pc)) = Some (Some ch)"
  using assms by (cases rule: Start_cases; auto simp: key_of_def)+

lemma Stop_view:
  assumes "cm_inv (controllers s)" and "StopControllersForProviderConfig api s pc = (out, s')"
  shows "cm_inv (controllers s')" and "k \<noteq> GetName (objs s pc) \<Longrightarrow> view s' k = view s k"
    and "out = Return None \<Longrightarrow> view s' (GetName (objs s pc)) = None"
  using assms by (cases rule: Stop_cases; simp add: key_of_def)+

interpretation mgr: controller_manager "manager_ops api st" is_running "\<lambda>s. cm_inv (controllers s)"
  for api :: "'w api" and st :: "'w starter"
proof unfold_locales
  fix s s' :: "'w mstate" and p r e k
  assume inv: "cm_inv (controllers s)"
  show "cm_start (manager_ops api st) s p = (Return None, s') \<Longrightarrow>
      IsZero (GetDeletionTimestamp (cm_object (manager_ops api st) s p)) \<Longrightarrow>
      is_running s' (GetName (cm_object (manager_ops api st) s p))"
    using Start_view(4) [OF inv] by (simp add: is_running_def deleting_def)
  show "cm_start (manager_ops api st) s p = (r, s') \<Longrightarrow> cm_inv (controllers s')"
    using Start_view(1) [OF inv] by simp
  show "cm_start (manager_ops api st) s p = (r, s') \<Longrightarrow>
      k \<noteq> GetName (cm_object (manager_ops api st) s p) \<Longrightarrow> is_running s' k = is_running s k"
    using Start_view(2) [OF inv] by (simp add: is_running_def)
  show "cm_start (manager_ops api st) s p = (Return (Some e), s') \<Longrightarrow> is_running s' k = is_running s k"
    using Start_view(3) [OF inv] by (simp add: is_running_def)
  show "cm_stop (manager_ops api st) s p = (Return None, s') \<Longrightarrow>
      \<not> is_running s' (GetName (cm_object (manager_ops api st) s p))"
    using Stop_view(3) [OF inv] by (simp add: is_running_def)
  show "cm_stop (manager_ops api st) s p = (r, s') \<Longrightarrow> cm_inv (controllers s')"
    using Stop_view(1) [OF inv] by simp
  show "cm_stop (manager_ops api st) s p = (r, s') \<Longrightarrow>
      k \<noteq> GetName (cm_object (manager_ops api st) s p) \<Longrightarrow> is_running s' k = is_running s k"
    using Stop_view(2) [OF inv] by (simp add: is_running_def)
qed

text \<open>A sync brings its key into the state the cached object asks for: when \<open>syncWrapper\<close> reports
  success, the controller of the key runs if the object is live and does not if it is being
  deleted; whatever it reports, a panic of the starter included, no other key has changed.\<close>

theorem sync_reconciles:
  assumes "reachable api st s" and "lister key = Inr (Some (CachedUnstructured p))"
    and "ctl_syncWrapper (manager_ops api st) lister s key = (err, s')"
  shows "(err = None \<longrightarrow> (is_running s' key \<longleftrightarrow> IsZero (GetDeletionTimestamp (objs s p)))) \<and>
    (\<forall>k. k \<noteq> key \<longrightarrow> is_running s' k = is_running s k)"
  using mgr.sync_converges [where lister = lister, OF reachable_cm_inv [OF assms(1)] assms(2)] assms(3)
    mgr.sync_other [OF reachable_cm_inv [OF assms(1)] assms(3)] by auto

theorem sync_reconciles_witness:
  "\<exists>s'. ctl_syncWrapper (manager_ops server_api (starter_ok 7)) (\<lambda>k. Inr (Some (CachedUnstructured 0)))
      (mgr0 [''fin''] []) ''p'' = (None, s') \<and> is_running s' ''p'' \<and> \<not> is_running s' ''q''"
proof -
  let ?l = "\<lambda>k :: string. Inr (Some (CachedUnstructured 0)) :: go_error + cached option"
  obtain e s' where r: "ctl_syncWrapper (manager_ops server_api (starter_ok 7)) ?l (mgr0 [''fin''] []) ''p'' = (e, s')"
    by fastforce
  have "fst (ctl_syncWrapper (manager_ops server_api (starter_ok 7)) ?l (mgr0 [''fin''] []) ''p'') = None"
    by (simp add: ctl_syncWrapper_def ctl_sync_def witness_defs)
  with r have e: "e = None" by simp
  have "\<not> is_running (mgr0 [''fin''] []) ''q''" by (simp add: is_running_def)
  then show ?thesis
    using sync_reconciles [where lister = ?l, OF mgr0_reachable refl r] r e by auto
qed

text \<open>When the caches do not sync, \<open>Run\<close> never returns: its deferred shutdown waits for workers
  that were never started, whatever the rest of the program does.\<close>

theorem failed_cache_sync_hangs:
  assumes "newController_queue bucket = Some t0" and "tq_run acc t0 evs t"
    and "filter is_lifecycle_event evs = controller_Run False"
  shows "tq_ShuttingDown t \<and> tq_Shutdown_waits t"
proof -
  note new = tq_new [OF assms(1) [unfolded newController_queue_def]]
  have "EvRun \<notin> set (filter is_lifecycle_event evs)" and "EvShutdown \<in> set (filter is_lifecycle_event evs)"
    unfolding assms(3) by (simp_all add: controller_Run_def)
  then have "runs evs = 0" and sh: "EvShutdown \<in> set evs"
    by (auto simp: runs_def filter_empty_conv is_lifecycle_event_def)
  have "idle_pool t0" using new by (simp add: idle_pool_def)
  with pool_run [OF assms(2)] \<open>runs evs = 0\<close> have "idle_pool t" "tq_numWorkers t = tq_numWorkers t0" by simp_all
  then have "tq_Shutdown_waits t" using new(4) by (simp add: idle_pool_def tq_Shutdown_waits_def)
  with tq_ShuttingDown_run [OF assms(2) new(1)] sh show ?thesis by blast
qed

lemma newController_queue_Some: "\<exists>t0. newController_queue bucket = Some t0"
  by (simp add: newController_queue_def controller_workersCount_def NewPeriodicTaskQueueWithMultipleWorkers_def)

theorem failed_cache_sync_hangs_witness:
  "\<exists>t0. newController_queue (\<lambda>_. 0) = Some t0 \<and> tq_Shutdown_waits (tq_Shutdown t0)"
proof -
  obtain t0 where t0: "newController_queue (\<lambda>_. 0) = Some t0" using newController_queue_Some by blast
  have "tq_run unstructured_accessor t0 ([] @ [EvShutdown]) (tq_Shutdown t0)"
    by (rule tq_run.step [OF tq_run.start]) (simp add: tq_next_def)
  from failed_cache_sync_hangs [OF t0 this] t0 show ?thesis
    by (simp add: is_lifecycle_event_def controller_Run_def)
qed

end
