(* ===== verification/System.thy ===== *)
theory System imports Controller begin

text \<open>
  The whole controller: the informer's cache with the notifications it has still to deliver, the
  task queue with its workers, and the manager with its API server and starter.

  The informer changes its cache first and calls the handlers later, so a change is visible to a
  worker before its event arrives. A new object is told as an addition, a changed one (a resync, too)
  as an update and a removed one as a deletion, and each event goes through the handlers of
  \<open>newController\<close>. A sync is one step here, made when its worker returns
  from it; workers, informer and waiting loop interleave in any order between these steps. The
  manager changes the cached object itself (\<open>SetFinalizers\<close>). The system is not shut down.
\<close>

record 'w sys =
  sys_pool :: taskq
  sys_mgr :: "'w mstate"
  sys_cache :: "string \<rightharpoonup> nat"
  sys_pending :: "obj informer_event list"

definition sys_lister :: "'w sys \<Rightarrow> string \<Rightarrow> go_error + cached option" where
  "sys_lister S key = Inr (map_option CachedUnstructured (sys_cache S key))"

abbreviation sys_handle :: "taskq \<Rightarrow> obj informer_event \<Rightarrow> taskq" where
  "sys_handle t ev \<equiv> handle_event unstructured_accessor t (map_informer_event MetaObject ev)"

text \<open>The event for an object that the informer puts into its cache.\<close>

definition upsert_event :: "'w sys \<Rightarrow> obj \<Rightarrow> obj informer_event" where
  "upsert_event S u =
     (case sys_cache S (GetName u) of
        None \<Rightarrow> Added u
      | Some q \<Rightarrow> Updated (objs (sys_mgr S) q) u)"

definition pool_event :: "obj tq_event \<Rightarrow> bool" where
  "pool_event ev = (case ev of EvSynced g err now \<Rightarrow> False | EvEnqueue obs \<Rightarrow> False | EvShutdown \<Rightarrow> False | _ \<Rightarrow> True)"

inductive sys_step :: "'w api \<Rightarrow> 'w starter \<Rightarrow> 'w sys \<Rightarrow> 'w sys \<Rightarrow> bool"
  for api :: "'w api" and st :: "'w starter" where
  cache_set: "GetNamespace u = [] \<Longrightarrow> p \<notin> ran (sys_cache S) \<Longrightarrow>
    sys_step api st S (S\<lparr>sys_cache := (sys_cache S)(GetName u \<mapsto> p),
      sys_mgr := (sys_mgr S)\<lparr>objs := (objs (sys_mgr S))(p := u)\<rparr>,
      sys_pending := sys_pending S @ [upsert_event S u]\<rparr>)"
| cache_delete: "sys_cache S key = Some p \<Longrightarrow>
    sys_step api st S (S\<lparr>sys_cache := (sys_cache S)(key := None),
      sys_pending := sys_pending S @ [Deleted (objs (sys_mgr S) p)]\<rparr>)"
| resync: "sys_cache S key = Some p \<Longrightarrow>
    sys_step api st S (S\<lparr>sys_pending := sys_pending S @ [Updated (objs (sys_mgr S) p) (objs (sys_mgr S) p)]\<rparr>)"
| notify: "sys_pending S = ev # rest \<Longrightarrow>
    sys_step api st S (S\<lparr>sys_pool := sys_handle (sys_pool S) ev, sys_pending := rest\<rparr>)"
| pool: "pool_event ev \<Longrightarrow> tq_next unstructured_accessor (sys_pool S) ev = Some (Return t) \<Longrightarrow>
    sys_step api st S (S\<lparr>sys_pool := t\<rparr>)"
| sync: "g < length (tq_goroutines (sys_pool S)) \<Longrightarrow> snd (tq_goroutines (sys_pool S) ! g) = Syncing key \<Longrightarrow>
    ctl_syncWrapper (manager_ops api st) (sys_lister S) (sys_mgr S) key = (err, m) \<Longrightarrow>
    tq_next unstructured_accessor (sys_pool S) (EvSynced g err now) = Some (Return t) \<Longrightarrow>
    sys_step api st S (S\<lparr>sys_pool := t, sys_mgr := m\<rparr>)"
| outside: "sys_step api st S (S\<lparr>sys_mgr := (sys_mgr S)\<lparr>world := w\<rparr>\<rparr>)"

text \<open>
  \<open>newController\<close> and \<open>New\<close>, over an informer that may have run before: \<open>keys\<close> are its objects in the order
  in which \<open>AddEventHandler\<close> finds them in the store and queues an add notification for each. The stop
  channel and \<open>HasSynced\<close>, which \<open>Run\<close> alone reads, appear in \<open>controller_Run\<close> as what it does once
  they are ready.
\<close>

definition newController ::
  "(nat \<Rightarrow> int) \<Rightarrow> 'w mstate \<Rightarrow> (string \<rightharpoonup> nat) \<Rightarrow> string list \<Rightarrow> 'w sys option" where
  "newController bucket manager cache keys =
     map_option (\<lambda>queue. \<lparr>sys_pool = queue, sys_mgr = manager, sys_cache = cache,
         sys_pending = map (\<lambda>key. Added (objs manager (the (cache key)))) keys\<rparr>)
       (newController_queue bucket)"

definition New ::
  "(nat \<Rightarrow> int) \<Rightarrow> string \<Rightarrow> (nat \<Rightarrow> obj) \<Rightarrow> 'w \<Rightarrow> (string \<rightharpoonup> nat) \<Rightarrow> string list \<Rightarrow> 'w sys option" where
  "New bucket fin heap w cache keys = newController bucket (newManager fin heap w) cache keys"

text \<open>An informer keeps an object under its key.\<close>

definition informer_cache :: "(nat \<Rightarrow> obj) \<Rightarrow> (string \<rightharpoonup> nat) \<Rightarrow> bool" where
  "informer_cache heap cache \<longleftrightarrow>
     (\<forall>key p. cache key = Some p \<longrightarrow> GetName (heap p) = key \<and> GetNamespace (heap p) = [])"

inductive sys_reachable :: "'w api \<Rightarrow> 'w starter \<Rightarrow> 'w sys \<Rightarrow> bool"
  for api :: "'w api" and st :: "'w starter" where
  init: "New bucket fin heap w cache keys = Some S \<Longrightarrow> set keys = dom cache \<Longrightarrow> informer_cache heap cache \<Longrightarrow>
    sys_reachable api st S"
| step: "sys_reachable api st S \<Longrightarrow> sys_step api st S S' \<Longrightarrow> sys_reachable api st S'"

section \<open>Settled keys are converged\<close>

text \<open>The controller of the key runs exactly when its cached object is not being deleted.\<close>

definition converged :: "'w sys \<Rightarrow> string \<Rightarrow> bool" where
  "converged S key \<longleftrightarrow>
     (\<forall>p. sys_cache S key = Some p \<longrightarrow>
        (is_running (sys_mgr S) key \<longleftrightarrow> IsZero (GetDeletionTimestamp (objs (sys_mgr S) p))))"

text \<open>Something about the key is still on its way: an event that tells of an object under it, a
  retry, an entry of the queue, or a worker that is about to sync it.\<close>

definition tells_of :: "obj informer_event \<Rightarrow> string \<Rightarrow> bool" where
  "tells_of ev key =
     (case ev of
        Added u \<Rightarrow> GetName u = key
      | Updated old u \<Rightarrow> GetName u = key
      | Deleted u \<Rightarrow> False)"

definition syncing :: "taskq \<Rightarrow> string \<Rightarrow> bool" where
  "syncing t key \<longleftrightarrow> (\<exists>g<length (tq_goroutines t). snd (tq_goroutines t ! g) = Syncing key)"

definition in_flight :: "'w sys \<Rightarrow> string \<Rightarrow> bool" where
  "in_flight S key \<longleftrightarrow>
     (\<exists>ev\<in>set (sys_pending S). tells_of ev key) \<or> scheduled (tq_delaying (sys_pool S)) key \<or> syncing (sys_pool S) key"

definition cluster_scoped :: "obj informer_event \<Rightarrow> bool" where
  "cluster_scoped ev \<longleftrightarrow>
     (case ev of Added u \<Rightarrow> GetNamespace u = [] | Updated old u \<Rightarrow> GetNamespace u = [] | Deleted u \<Rightarrow> True)"

definition sys_inv :: "'w sys \<Rightarrow> bool" where
  "sys_inv S \<longleftrightarrow>
     tq_inv (sys_pool S) \<and> \<not> tq_ShuttingDown (sys_pool S) \<and> cm_inv (controllers (sys_mgr S)) \<and>
     informer_cache (objs (sys_mgr S)) (sys_cache S) \<and>
     (\<forall>ev\<in>set (sys_pending S). cluster_scoped ev) \<and>
     (\<forall>key. in_flight S key \<or> converged S key)"

text \<open>What a start and a stop do to the cached objects: nothing but the finalizers.\<close>

definition same_object :: "obj \<Rightarrow> obj \<Rightarrow> bool" where
  "same_object u v \<longleftrightarrow> GetName u = GetName v \<and> GetNamespace u = GetNamespace v \<and>
     GetDeletionTimestamp u = GetDeletionTimestamp v"

lemma same_object_refl [simp]: "same_object u u" by (simp add: same_object_def)

lemma Start_objs:
  assumes "cm_inv (controllers s)" and "StartControllersForProviderConfig api st s pc = (out, s')"
  shows "same_object (objs s' p) (objs s p)"
  using assms by (cases rule: Start_cases) (auto simp: same_object_def ensured_state_def ensured_def split: if_splits)

lemma Stop_objs:
  assumes "cm_inv (controllers s)" and "StopControllersForProviderConfig api s pc = (out, s')"
  shows "same_object (objs s' p) (objs s p)"
  using assms by (cases rule: Stop_cases) simp_all

lemma syncWrapper_objs:
  assumes inv: "cm_inv (controllers s)" and run: "ctl_syncWrapper (manager_ops api st) lister s key = (err, s')"
  shows "same_object (objs s' p) (objs s p)"
proof (cases "\<exists>q. lister key = Inr (Some (CachedUnstructured q)) \<and> GetName (objs s q) = key")
  case False
  then have "s' = s"
    using run by (auto simp: ctl_syncWrapper_def ctl_sync_def Let_def
        split: sum.splits option.splits cached.splits if_splits)
  then show ?thesis by simp
next
  case True
  then obtain q where "lister key = Inr (Some (CachedUnstructured q))" "GetName (objs s q) = key" by blast
  then obtain r where "StopControllersForProviderConfig api s q = (r, s') \<or>
      StartControllersForProviderConfig api st s q = (r, s')"
    using run mgr.sync_cached [where lister = lister and p = q and key = key and s = s and api = api and st = st]
    by (auto simp: ctl_syncWrapper_def Let_def split: prod.splits outcome.splits if_splits)
  then show ?thesis using Start_objs [OF inv] Stop_objs [OF inv] by blast
qed

lemma syncing_update:
  assumes "g < length (tq_goroutines t)" and "tq_goroutines t' = (tq_goroutines t)[g := (w, s)]"
    and "snd (tq_goroutines t ! g) \<noteq> Syncing key" and "s \<noteq> Syncing key"
  shows "syncing t' key = syncing t key"
proof
  assume "syncing t' key"
  then show "syncing t key" using assms by (auto simp: syncing_def nth_list_update split: if_splits)
next
  assume "syncing t key"
  then obtain g' where "g' < length (tq_goroutines t)" "snd (tq_goroutines t ! g') = Syncing key"
    by (auto simp: syncing_def)
  moreover from this have "g' \<noteq> g" using assms(3) by auto
  ultimately show "syncing t' key" using assms(2) by (auto simp: syncing_def intro!: exI [of _ g'])
qed

lemma tq_open_next:
  assumes inv: "tq_inv t" and op: "\<not> tq_ShuttingDown t" and ev: "pool_event ev"
    and run: "tq_next acc t ev = Some (Return t')"
  shows "\<not> tq_ShuttingDown t'"
proof (cases ev)
  case (EvGet g)
  have i: "dq_inv (tq_delaying t)" using inv by (simp add: tq_inv_def)
  from EvGet run have "worker_Get t g = Some (Return t')" by (simp add: tq_next_def split: if_splits)
  then show ?thesis
  proof (cases rule: worker_Get_cases)
    case (item w key d)
    with dq.get_item [OF i item(2)] op show ?thesis by (simp add: tq_ShuttingDown_def)
  next
    case (quit w d)
    with op show ?thesis by (simp add: tq_ShuttingDown_def)
  qed
next
  case (EvDone g)
  from EvDone run have "worker_Done t g = Some t'" by (auto simp: tq_next_def split: if_splits)
  then show ?thesis using op
    by (cases rule: worker_Done_fields) (simp add: tq_ShuttingDown_def dq.closing_finish)
qed (use ev op run in \<open>auto simp: tq_next_def tq_Run_def pool_event_def tq_ShuttingDown_def wl_take_open
      wl_add_ready_open\<close>)

text \<open>Steps of the pool other than the end of a sync keep a key in flight.\<close>

lemma scheduled_next:
  assumes inv: "tq_inv t" and op: "\<not> tq_ShuttingDown t" and ev: "pool_event ev"
    and run: "tq_next acc t ev = Some (Return t')"
    and key: "scheduled (tq_delaying t) key \<or> syncing t key"
  shows "scheduled (tq_delaying t') key \<or> syncing t' key"
proof -
  have i: "dq_inv (tq_delaying t)" using inv by (simp add: tq_inv_def)
  have op': "\<not> dq_ShuttingDown (tq_delaying t)" using op by (simp add: tq_ShuttingDown_def)
  show ?thesis
  proof (cases ev)
    case EvRun
    then have t': "tq_delaying t' = tq_delaying t"
      "tq_goroutines t' = tq_goroutines t @ map (\<lambda>w. (w, AtGet)) [0..<tq_numWorkers t]"
      using run by (auto simp: tq_next_def tq_Run_def)
    have "syncing t key \<Longrightarrow> syncing t' key" unfolding syncing_def t'(2) by (auto simp: nth_append)
    with key t'(1) show ?thesis by auto
  next
    case (EvGet g)
    with run have g: "g < length (tq_goroutines t)" and "worker_Get t g = Some (Return t')"
      by (simp_all add: tq_next_def split: if_splits)
    from this(2) show ?thesis
    proof (cases rule: worker_Get_cases)
      case (item w k d)
      have ch: "dq_channel d = dq_channel (tq_delaying t)" "dq_times d = dq_times (tq_delaying t)"
        using item(2) by (auto simp: dq_Get_def dq_times_def split: prod.splits)
      note get = dq.get_item [OF i item(2)]
      have "syncing t' k" using item(3) g by (auto simp: syncing_def)
      moreover have "syncing t key \<Longrightarrow> syncing t' key"
        using item(1,3) g calculation syncing_update [of g t t' w "Syncing k" key] by (cases "key = k") auto
      moreover have "scheduled d key \<or> key = k" if "scheduled (tq_delaying t) key"
        using that get ch by (auto simp: scheduled_def)
      ultimately show ?thesis
        using key item(3) by auto
    next
      case (quit w d)
      with dq.get_shutdown [OF i quit(2)] op' show ?thesis by simp
    qed
  next
    case (EvDone g)
    with run have g: "g < length (tq_goroutines t)" and "worker_Done t g = Some t'"
      by (auto simp: tq_next_def split: if_splits)
    from this(2) show ?thesis
    proof (cases rule: worker_Done_fields)
      case (1 w k)
      have "holds t g k" using 1(1) g by (simp add: holds_def)
      then have b: "k \<in> busy (dq_status (tq_delaying t))" using inv by (auto simp: tq_inv_def tq_status_def)
      have "syncing t key \<Longrightarrow> syncing t' key"
        using 1(1) syncing_update [OF g 1(2), of key] by simp
      moreover have "scheduled (tq_delaying t') key" if "scheduled (tq_delaying t) key"
        using that dq.busy_finish(2) [OF i b] unfolding 1(5)
        by (auto simp: scheduled_def dq_times_def dq_Done_def dirty_def set_eq_iff)
      ultimately show ?thesis using key by auto
    qed
  next
    case (EvReady now)
    then have t': "t' = with_delaying t (wl_add_ready now (tq_delaying t))" using run by (simp add: tq_next_def)
    note r = wl_add_ready_result [OF i op', of now]
    have "scheduled (wl_add_ready now (tq_delaying t)) key" if "scheduled (tq_delaying t) key"
      using that r due_due(2) by (auto simp: scheduled_def split: option.splits if_splits)
    moreover have "syncing t' = syncing t" by (simp add: t' syncing_def fun_eq_iff)
    ultimately show ?thesis using key t' by auto
  next
    case (EvTake now)
    then have t': "t' = with_delaying t (wl_take now (tq_delaying t))" using run by (simp add: tq_next_def)
    have "syncing t' = syncing t" by (simp add: t' syncing_def fun_eq_iff)
    with key t' wl_take_scheduled [OF i op'] show ?thesis by auto
  qed (use ev in \<open>simp_all add: pool_event_def\<close>)
qed

abbreviation sys_enqueue :: "taskq \<Rightarrow> obj \<Rightarrow> taskq" where
  "sys_enqueue t u \<equiv> tq_Enqueue unstructured_accessor t [MetaObject u]"

lemma sys_enqueue_inv:
  assumes inv: "tq_inv t" and op: "\<not> tq_ShuttingDown t" and ns: "GetNamespace u = []"
  shows "tq_inv (sys_enqueue t u)" and "\<not> tq_ShuttingDown (sys_enqueue t u)"
    and "scheduled (tq_delaying (sys_enqueue t u)) (GetName u)"
    and "scheduled (tq_delaying t) key \<Longrightarrow> scheduled (tq_delaying (sys_enqueue t u)) key"
    and "syncing (sys_enqueue t u) = syncing t"
proof -
  have i: "dq_inv (tq_delaying t)" using inv by (simp add: tq_inv_def)
  have op': "\<not> dq_ShuttingDown (tq_delaying t)" using op by (simp add: tq_ShuttingDown_def)
  have eq: "sys_enqueue t u = with_delaying t (dq_Add (tq_delaying t) (GetName u))"
    using ns by simp
  show "tq_inv (sys_enqueue t u)" and "\<not> tq_ShuttingDown (sys_enqueue t u)"
    using tq_Enqueue_inv [OF inv, of unstructured_accessor "[MetaObject u]"] op
    by simp_all
  have d: "dirty (dq_status (dq_Add (tq_delaying t) (GetName u))) = insert (GetName u) (dirty (dq_status (tq_delaying t)))"
    using dq.dirty_add [OF i] op' by simp
  then have "x \<in> insert (GetName u) (dirty (dq_status (tq_delaying t))) \<Longrightarrow>
      dq_status (dq_Add (tq_delaying t) (GetName u)) x \<in> {Waiting, Again}" for x
    by (simp add: dirty_def set_eq_iff)
  then show "scheduled (tq_delaying (sys_enqueue t u)) (GetName u)"
    and "scheduled (tq_delaying t) key \<Longrightarrow> scheduled (tq_delaying (sys_enqueue t u)) key"
    unfolding eq by (auto simp: scheduled_def dq_times_def dq_Add_def dirty_def)
  show "syncing (sys_enqueue t u) = syncing t" by (simp add: eq syncing_def fun_eq_iff)
qed

lemma handle_event_cases:
  assumes "cluster_scoped ev"
  obtains (enqueued) u where "GetNamespace u = []" "sys_handle t ev = sys_enqueue t u" "tells_of ev = (=) (GetName u)"
  | (nothing) "sys_handle t ev = t" "tells_of ev = (\<lambda>_. False)"
  using assms
  by (cases ev) (auto simp: handle_event_def handler_enqueues_def cluster_scoped_def tells_of_def fun_eq_iff)

lemma handle_event_inv:
  assumes inv: "tq_inv t" and op: "\<not> tq_ShuttingDown t" and ev: "cluster_scoped ev"
  shows "tq_inv (sys_handle t ev)" and "\<not> tq_ShuttingDown (sys_handle t ev)"
    and "tells_of ev key \<or> scheduled (tq_delaying t) key \<Longrightarrow> scheduled (tq_delaying (sys_handle t ev)) key"
    and "syncing (sys_handle t ev) = syncing t"
  using ev inv op sys_enqueue_inv [OF inv op] by (cases rule: handle_event_cases [where t = t]; auto)+

lemma converged_frame:
  assumes "sys_cache S' key = sys_cache S key" and "is_running (sys_mgr S') key = is_running (sys_mgr S) key"
    and "\<And>p. sys_cache S key = Some p \<Longrightarrow> same_object (objs (sys_mgr S') p) (objs (sys_mgr S) p)"
    and "converged S key"
  shows "converged S' key"
  using assms by (simp add: converged_def same_object_def)

lemma informer_cache_same:
  assumes "informer_cache heap cache" and "\<And>p. same_object (heap' p) (heap p)"
  shows "informer_cache heap' cache"
  using assms by (simp add: informer_cache_def same_object_def)

lemma syncing_Synced:
  assumes inv: "tq_inv t" and g: "g < length (tq_goroutines t)" "snd (tq_goroutines t ! g) = Syncing k"
    and run: "tq_next acc t (EvSynced g err now) = Some (Return t')" and "key \<noteq> k"
  shows "syncing t' key = syncing t key"
proof -
  have "worker_Synced t g err now = Some t'" using run by (auto simp: tq_next_def split: if_splits)
  then show ?thesis
  proof (cases rule: worker_Synced_cases)
    case (1 w k')
    with g \<open>key \<noteq> k\<close> show ?thesis by (intro syncing_update [OF g(1) 1(2)]) auto
  qed
qed

lemma scheduled_Synced:
  assumes inv: "tq_inv t" and op: "\<not> tq_ShuttingDown t" and g: "snd (tq_goroutines t ! g) = Syncing k"
    and run: "tq_next acc t (EvSynced g err now) = Some (Return t')"
  shows "scheduled (tq_delaying t) key \<Longrightarrow> scheduled (tq_delaying t') key"
    and "err \<noteq> None \<Longrightarrow> scheduled (tq_delaying t') k" and "\<not> tq_ShuttingDown t'"
proof -
  have i: "dq_inv (tq_delaying t)" using inv by (simp add: tq_inv_def)
  have op': "\<not> dq_ShuttingDown (tq_delaying t)" using op by (simp add: tq_ShuttingDown_def)
  have "worker_Synced t g err now = Some t'" using run by (auto simp: tq_next_def split: if_splits)
  then have c: "(\<exists>d. dq_AddAfter now (tq_delaying t) k d = Some (tq_delaying t')) \<or>
    err = None \<and> tq_delaying t' = tq_delaying t"
    using g by (cases rule: worker_Synced_cases) auto
  then show "err \<noteq> None \<Longrightarrow> scheduled (tq_delaying t') k"
    using dq_AddAfter_scheduled(1) [OF i op'] by blast
  show "\<not> tq_ShuttingDown t'"
    using c op' dq_AddAfter_status(5) [OF i] by (auto simp: tq_ShuttingDown_def)
  show "scheduled (tq_delaying t') key" if "scheduled (tq_delaying t) key"
    using c
  proof
    assume "\<exists>d. dq_AddAfter now (tq_delaying t) k d = Some (tq_delaying t')"
    then obtain d where d: "dq_AddAfter now (tq_delaying t) k d = Some (tq_delaying t')" ..
    have "dirty (dq_status (tq_delaying t)) \<subseteq> dirty (dq_status (tq_delaying t'))"
      by (rule dq_AddAfter_status(3) [OF i d])
    moreover have "set (dq_channel (tq_delaying t)) \<subseteq> set (dq_channel (tq_delaying t'))"
      and "dq_times (tq_delaying t') = dq_times (tq_delaying t)"
      using dq_AddAfter_keeps [OF d] by simp_all
    ultimately show ?thesis using that by (auto simp: scheduled_def dirty_def)
  qed (use that in simp)
qed

text \<open>Every step keeps the invariant.\<close>

lemma sys_inv_sync:
  assumes inv: "sys_inv S" and g: "g < length (tq_goroutines (sys_pool S))"
    "snd (tq_goroutines (sys_pool S) ! g) = Syncing k"
    and sync: "ctl_syncWrapper (manager_ops api st) (sys_lister S) (sys_mgr S) k = (err, m)"
    and run: "tq_next unstructured_accessor (sys_pool S) (EvSynced g err now) = Some (Return t)"
  shows "sys_inv (S\<lparr>sys_pool := t, sys_mgr := m\<rparr>)"
proof -
  let ?S = "S\<lparr>sys_pool := t, sys_mgr := m\<rparr>"
  have i: "tq_inv (sys_pool S)" and op: "\<not> tq_ShuttingDown (sys_pool S)" and cm: "cm_inv (controllers (sys_mgr S))"
    using inv by (simp_all add: sys_inv_def)
  note sch = scheduled_Synced [OF i op g(2) run]
  note others = mgr.sync_other [OF cm sync] and obs = syncWrapper_objs [OF cm sync]
  have "in_flight ?S key \<or> converged ?S key" for key
  proof (cases "key = k")
    case True
    show ?thesis
    proof (cases err)
      case None
      have "converged ?S k"
        unfolding converged_def
      proof (intro allI impI)
        fix p assume "sys_cache ?S k = Some p"
        then have l: "sys_lister S k = Inr (Some (CachedUnstructured p))" by (simp add: sys_lister_def)
        have "is_running m k \<longleftrightarrow> IsZero (GetDeletionTimestamp (objs (sys_mgr S) p))"
          using mgr.sync_converges [OF cm l sync [unfolded None]] by simp
        with obs [of p] show "is_running (sys_mgr ?S) k \<longleftrightarrow> IsZero (GetDeletionTimestamp (objs (sys_mgr ?S) p))"
          by (simp add: same_object_def)
      qed
      with True show ?thesis by simp
    next
      case (Some e)
      with sch(2) True show ?thesis by (simp add: in_flight_def)
    qed
  next
    case False
    have "in_flight S key \<or> converged S key" using inv by (simp add: sys_inv_def)
    then show ?thesis
    proof
      assume "in_flight S key"
      with sch(1) syncing_Synced [OF i g run False] show ?thesis by (auto simp: in_flight_def)
    next
      assume "converged S key"
      then have "converged ?S key"
        using others False obs by (intro converged_frame [of ?S key S]) simp_all
      then show ?thesis ..
    qed
  qed
  moreover have "cm_inv (controllers m)" using others [of "k @ ''x''"] by simp
  moreover have "informer_cache (objs m) (sys_cache S)"
    using inv obs informer_cache_same [of "objs (sys_mgr S)" "sys_cache S" "objs m"] by (simp add: sys_inv_def)
  ultimately show ?thesis
    using inv tq_inv_next [OF i run] sch(3) by (simp add: sys_inv_def)
qed

text \<open>An event that joins the pending ones.\<close>

lemma sys_inv_event:
  assumes "sys_inv S" and "cluster_scoped ev"
  shows "sys_inv (S\<lparr>sys_pending := sys_pending S @ [ev]\<rparr>)"
  using assms by (auto simp: sys_inv_def in_flight_def converged_def)

lemma upsert_event_scoped [simp]: "cluster_scoped (upsert_event S u) \<longleftrightarrow> GetNamespace u = []"
  by (simp add: upsert_event_def cluster_scoped_def split: option.split)

lemma upsert_event_tells [simp]: "tells_of (upsert_event S u) key \<longleftrightarrow> GetName u = key"
  by (simp add: upsert_event_def tells_of_def split: option.split)

lemma sys_inv_step: "sys_step api st S S' \<Longrightarrow> sys_inv S \<Longrightarrow> sys_inv S'"
proof (induction rule: sys_step.induct)
  case (cache_set u p S)
  let ?S = "S\<lparr>sys_cache := (sys_cache S)(GetName u \<mapsto> p),
    sys_mgr := (sys_mgr S)\<lparr>objs := (objs (sys_mgr S))(p := u)\<rparr>,
    sys_pending := sys_pending S @ [upsert_event S u]\<rparr>"
  have "in_flight ?S key \<or> converged ?S key" for key
  proof (cases "key = GetName u")
    case True
    then show ?thesis by (simp add: in_flight_def)
  next
    case False
    have "in_flight S key \<Longrightarrow> in_flight ?S key" by (auto simp: in_flight_def)
    moreover have "converged ?S key" if "converged S key"
    proof (rule converged_frame [OF _ _ _ that])
      show "sys_cache ?S key = sys_cache S key" using False by simp
      show "is_running (sys_mgr ?S) key = is_running (sys_mgr S) key" by (simp add: is_running_def view_def)
      fix q assume "sys_cache S key = Some q"
      then have "q \<noteq> p" using cache_set(2) by (auto simp: ran_def)
      then show "same_object (objs (sys_mgr ?S) q) (objs (sys_mgr S) q)" by simp
    qed
    moreover have "in_flight S key \<or> converged S key" using cache_set(3) by (simp add: sys_inv_def)
    ultimately show ?thesis by blast
  qed
  moreover have "informer_cache (objs (sys_mgr ?S)) (sys_cache ?S)"
    using cache_set by (auto simp: sys_inv_def informer_cache_def ran_def)
  ultimately show ?case using cache_set by (auto simp: sys_inv_def)
next
  case (cache_delete S key p)
  let ?S = "S\<lparr>sys_cache := (sys_cache S)(key := None)\<rparr>"
  have "in_flight ?S k = in_flight S k" for k by (simp add: in_flight_def)
  moreover have "converged S k \<Longrightarrow> converged ?S k" for k by (auto simp: converged_def)
  ultimately have "sys_inv ?S" using cache_delete by (auto simp: sys_inv_def informer_cache_def)
  from sys_inv_event [OF this, of "Deleted (objs (sys_mgr S) p)"] show ?case by (simp add: cluster_scoped_def)
next
  case (resync S key p)
  then show ?case by (intro sys_inv_event) (auto simp: sys_inv_def informer_cache_def cluster_scoped_def)
next
  case (notify S ev rest)
  let ?S = "S\<lparr>sys_pool := sys_handle (sys_pool S) ev, sys_pending := rest\<rparr>"
  have i: "tq_inv (sys_pool S)" "\<not> tq_ShuttingDown (sys_pool S)" "cluster_scoped ev"
    using notify by (auto simp: sys_inv_def)
  note h = handle_event_inv [OF i]
  have "in_flight S k \<Longrightarrow> in_flight ?S k" for k
    using h(3,4) notify(1) by (auto simp: in_flight_def)
  moreover have "converged ?S k = converged S k" for k by (simp add: converged_def)
  ultimately show ?case using notify h(1,2) unfolding sys_inv_def by auto
next
  case (pool ev S t)
  let ?S = "S\<lparr>sys_pool := t\<rparr>"
  have i: "tq_inv (sys_pool S)" "\<not> tq_ShuttingDown (sys_pool S)" using pool by (auto simp: sys_inv_def)
  note sch = scheduled_next [OF i pool(1,2)]
  have "\<not> tq_ShuttingDown t" by (rule tq_open_next [OF i pool(1,2)])
  moreover have "in_flight S k \<Longrightarrow> in_flight ?S k" for k using sch [of k] by (auto simp: in_flight_def)
  moreover have "converged ?S k = converged S k" for k by (simp add: converged_def)
  ultimately show ?case using pool(3) tq_inv_next [OF i(1) pool(2)] unfolding sys_inv_def by auto
next
  case (sync g S key err m now t)
  then show ?case by (intro sys_inv_sync)
next
  case (outside S w)
  let ?S = "S\<lparr>sys_mgr := (sys_mgr S)\<lparr>world := w\<rparr>\<rparr>"
  have "in_flight ?S k = in_flight S k" and "converged ?S k = converged S k" for k
    by (simp_all add: in_flight_def converged_def is_running_def view_def)
  with outside show ?case by (simp add: sys_inv_def)
qed

lemma sys_inv_init:
  assumes "New bucket fin heap w cache keys = Some S" "set keys = dom cache" "informer_cache heap cache"
  shows "sys_inv S"
proof -
  from assms(1) obtain t0 where t0: "newController_queue bucket = Some t0" and
      S: "S = \<lparr>sys_pool = t0, sys_mgr = newManager fin heap w, sys_cache = cache,
        sys_pending = map (\<lambda>key. Added (heap (the (cache key)))) keys\<rparr>"
    by (auto simp: New_def newController_def newManager_def)
  note new = tq_new [OF t0 [unfolded newController_queue_def]]
  have d: "tq_delaying t0 = newDelayingQueue"
    using t0 by (auto simp: newController_queue_def NewPeriodicTaskQueueWithMultipleWorkers_def
        newRateLimitingQueue_def split: if_splits)
  have "\<not> tq_ShuttingDown t0" using dq.closing_new by (simp add: tq_ShuttingDown_def d)
  moreover have named: "GetName (heap (the (cache k))) = k \<and> GetNamespace (heap (the (cache k))) = []" if "k \<in> dom cache" for k
    using that assms(3) by (auto simp: informer_cache_def)
  then have "in_flight S k" if "k \<in> dom cache" for k
    using that assms(2) by (force simp: in_flight_def S tells_of_def)
  then have "in_flight S k \<or> converged S k" for k by (cases "k \<in> dom cache") (auto simp: converged_def S)
  moreover have "\<forall>ev\<in>set (sys_pending S). cluster_scoped ev"
    using named assms(2) by (simp add: S cluster_scoped_def)
  ultimately show ?thesis
    using new(1) cms.inv_empty assms(3) by (simp add: sys_inv_def) (simp add: S newManager_def)
qed

lemma sys_reachable_inv: "sys_reachable api st S \<Longrightarrow> sys_inv S"
  by (induction rule: sys_reachable.induct) (auto intro: sys_inv_init sys_inv_step)

text \<open>C1. Level-triggered reconciliation: in every state of the whole controller, for every key with
  a cached object, either something about the key is still on its way (an event for the object, be
  it an addition, an update or a resync, a retry, a queue entry, a worker about to sync it) or the key is converged: its controller runs exactly
  when the cached object is not being deleted. It holds under any interleaving of cache changes,
  notifications, five workers, failing API calls, failing and panicking starters, and for a controller
  made over an informer that already holds objects.\<close>

theorem settled_keys_converged:
  assumes "sys_reachable api st S" and "\<not> in_flight S key" and "sys_cache S key = Some p"
  shows "is_running (sys_mgr S) key \<longleftrightarrow> IsZero (GetDeletionTimestamp (objs (sys_mgr S) p))"
  using sys_reachable_inv [OF assms(1)] assms(2,3) by (auto simp: sys_inv_def converged_def)

text \<open>A run: the ProviderConfig \<open>p\<close> appears in the cache, is enqueued, and the first worker syncs it.\<close>

definition ex_pool :: taskq where
  "ex_pool = \<lparr>tq_queue = newRateLimitingQueue (DefaultControllerRateLimiter (\<lambda>_. 0)),
     tq_workerDone = replicate 5 False, tq_numWorkers = 5, tq_goroutines = []\<rparr>"

lemma ex_pool_new: "newController_queue (\<lambda>_. 0) = Some ex_pool"
  by (simp add: newController_queue_def controller_workersCount_def
        NewPeriodicTaskQueueWithMultipleWorkers_def ex_pool_def)

definition ex_sys0 :: "server sys" where
  "ex_sys0 = \<lparr>sys_pool = ex_pool,
     sys_mgr = newManager ''fin'' (\<lambda>_. mk_pc ''q'' []) (server_of [mk_pc ''p'' [''fin'']] []),
     sys_cache = Map.empty, sys_pending = []\<rparr>"

definition ex_sys1 :: "server sys" where
  "ex_sys1 = ex_sys0\<lparr>sys_cache := [''p'' \<mapsto> 1],
     sys_mgr := (sys_mgr ex_sys0)\<lparr>objs := (objs (sys_mgr ex_sys0))(1 := mk_pc ''p'' [''fin''])\<rparr>,
     sys_pending := [Added (mk_pc ''p'' [''fin''])]\<rparr>"

definition ex_sys2 :: "server sys" where
  "ex_sys2 = ex_sys1\<lparr>sys_pool := sys_handle ex_pool (Added (mk_pc ''p'' [''fin''])), sys_pending := []\<rparr>"

definition ex_sys3 :: "server sys" where
  "ex_sys3 = ex_sys2\<lparr>sys_pool := tq_Run (sys_pool ex_sys2)\<rparr>"

definition ex_sys4 :: "server sys" where
  "ex_sys4 = ex_sys3\<lparr>sys_pool :=
     (case worker_Get (sys_pool ex_sys3) 0 of Some (Return t) \<Rightarrow> t | _ \<Rightarrow> sys_pool ex_sys3)\<rparr>"

definition ex_sys5 :: "server sys" where
  "ex_sys5 = ex_sys4\<lparr>sys_pool := the (worker_Synced (sys_pool ex_sys4) 0 None 0),
     sys_mgr := snd (ctl_syncWrapper (manager_ops server_api (starter_ok 7)) (sys_lister ex_sys4)
                       (sys_mgr ex_sys4) ''p'')\<rparr>"

definition ex_delaying :: "string delayq" where
  "ex_delaying = newDelayingQueue\<lparr>dq_queue := newQueue\<lparr>wq_processing := {''p''}\<rparr>\<rparr>"

lemma ex_Get: "dq_Get (dq_Add newDelayingQueue ''p'') = (Item ''p'', ex_delaying)"
  by (simp add: dq_Get_def dq_Add_def newDelayingQueue_def wq_defs ex_delaying_def)

lemma ex_pool2: "sys_pool ex_sys2 = with_delaying ex_pool (dq_Add newDelayingQueue ''p'')"
  by (simp add: ex_sys2_def handle_event_def handler_enqueues_def ex_pool_def newRateLimitingQueue_def)

lemma ex_pool3:
  "sys_pool ex_sys3 = (with_delaying ex_pool (dq_Add newDelayingQueue ''p''))
     \<lparr>tq_goroutines := map (\<lambda>w. (w, AtGet)) [0, 1, 2, 3, 4]\<rparr>"
  by (simp add: ex_sys3_def ex_pool2 tq_Run_def with_delaying_def ex_pool_def upt_rec)

lemma ex_pool4_Get:
  "worker_Get (sys_pool ex_sys3) 0 = Some (Return ((with_delaying ex_pool ex_delaying)
     \<lparr>tq_goroutines := (0, Syncing ''p'') # map (\<lambda>w. (w, AtGet)) [1, 2, 3, 4]\<rparr>))"
  by (simp add: worker_Get_def ex_pool3 with_delaying_def ex_Get)

lemma ex_pool4:
  "sys_pool ex_sys4 = (with_delaying ex_pool ex_delaying)
     \<lparr>tq_goroutines := (0, Syncing ''p'') # map (\<lambda>w. (w, AtGet)) [1, 2, 3, 4]\<rparr>"
  by (simp add: ex_sys4_def ex_pool4_Get)

lemma ex_sys5_reachable: "sys_reachable server_api (starter_ok 7) ex_sys5"
proof -
  have "sys_reachable server_api (starter_ok 7) ex_sys0"
    by (rule sys_reachable.init [where bucket = "\<lambda>_. 0" and fin = "''fin''" and heap = "\<lambda>_. mk_pc ''q'' []" and
          w = "server_of [mk_pc ''p'' [''fin'']] []" and cache = Map.empty and keys = "[]"])
       (simp_all add: New_def newController_def ex_pool_new ex_sys0_def informer_cache_def)
  then have "sys_reachable server_api (starter_ok 7) ex_sys1"
  proof (rule sys_reachable.step)
    show "sys_step server_api (starter_ok 7) ex_sys0 ex_sys1"
      using sys_step.cache_set [of "mk_pc ''p'' [''fin'']" 1 ex_sys0 server_api "starter_ok 7"]
      by (simp add: ex_sys1_def) (simp add: ex_sys0_def upsert_event_def)
  qed
  then have "sys_reachable server_api (starter_ok 7) ex_sys2"
  proof (rule sys_reachable.step)
    show "sys_step server_api (starter_ok 7) ex_sys1 ex_sys2"
      using sys_step.notify [of ex_sys1 "Added (mk_pc ''p'' [''fin''])" "[]" server_api "starter_ok 7"]
      by (simp add: ex_sys2_def ex_sys1_def ex_sys0_def)
  qed
  then have "sys_reachable server_api (starter_ok 7) ex_sys3"
  proof (rule sys_reachable.step)
    show "sys_step server_api (starter_ok 7) ex_sys2 ex_sys3"
      unfolding ex_sys3_def by (rule sys_step.pool [of EvRun]) (simp_all add: pool_event_def tq_next_def)
  qed
  then have "sys_reachable server_api (starter_ok 7) ex_sys4"
  proof (rule sys_reachable.step)
    show "sys_step server_api (starter_ok 7) ex_sys3 ex_sys4"
      unfolding ex_sys4_def
      by (rule sys_step.pool [of "EvGet 0"]) (simp_all add: pool_event_def tq_next_def ex_pool4_Get, simp add: ex_pool3)
  qed
  then show ?thesis
  proof (rule sys_reachable.step)
    obtain err m where r: "ctl_syncWrapper (manager_ops server_api (starter_ok 7)) (sys_lister ex_sys4)
        (sys_mgr ex_sys4) ''p'' = (err, m)" by fastforce
    have "sys_mgr ex_sys4 = (sys_mgr ex_sys0)\<lparr>objs := (\<lambda>_. mk_pc ''q'' [])(1 := mk_pc ''p'' [''fin''])\<rparr>"
      and "sys_lister ex_sys4 ''p'' = Inr (Some (CachedUnstructured 1))"
      by (simp_all add: ex_sys4_def ex_sys3_def ex_sys2_def ex_sys1_def ex_sys0_def
            newManager_def sys_lister_def)
    then have "fst (ctl_syncWrapper (manager_ops server_api (starter_ok 7)) (sys_lister ex_sys4)
        (sys_mgr ex_sys4) ''p'') = None"
      by (simp add: ctl_syncWrapper_def ctl_sync_def ex_sys0_def witness_defs)
    with r have e: "err = None" by simp
    have w: "\<exists>t. worker_Synced (sys_pool ex_sys4) 0 None 0 = Some t"
      by (simp add: worker_Synced_def ex_pool4)
    show "sys_step server_api (starter_ok 7) ex_sys4 ex_sys5"
      unfolding ex_sys5_def r snd_conv
      by (rule sys_step.sync [OF _ _ r [unfolded e], of 0 0]) (use w ex_pool4 in \<open>auto simp: tq_next_def\<close>)
  qed
qed

lemma ex_sys5_settled:
  "sys_cache ex_sys5 ''p'' = Some 1" "\<not> in_flight ex_sys5 ''p''" "objs (sys_mgr ex_sys5) 1 = mk_pc ''p'' [''fin'']"
proof -
  show "sys_cache ex_sys5 ''p'' = Some 1" by (simp add: ex_sys5_def ex_sys4_def ex_sys3_def ex_sys2_def ex_sys1_def)
  have p: "sys_pending ex_sys5 = []" by (simp add: ex_sys5_def ex_sys4_def ex_sys3_def ex_sys2_def)
  have g: "tq_goroutines (sys_pool ex_sys5) = (0, Finishing ''p'') # map (\<lambda>w. (w, AtGet)) [1, 2, 3, 4]"
    by (simp add: ex_sys5_def worker_Synced_def ex_pool4)
  have s: "\<not> syncing (sys_pool ex_sys5) ''p''"
    unfolding syncing_def g by (auto simp: less_Suc_eq nth_Cons split: nat.splits)
  have d: "tq_delaying (sys_pool ex_sys5) = tq_delaying (sys_pool ex_sys4)"
    by (simp add: ex_sys5_def worker_Synced_def ex_pool4 rq_Forget_def)
  have "\<not> scheduled (tq_delaying (sys_pool ex_sys4)) ''p''"
    by (simp add: ex_pool4 scheduled_def dq_times_def pq_times_def dq_status_def wq_status_def ex_delaying_def
          newDelayingQueue_def newQueue_def)
  with p s d show "\<not> in_flight ex_sys5 ''p''" by (simp add: in_flight_def)
  show "objs (sys_mgr ex_sys5) 1 = mk_pc ''p'' [''fin'']"
    by (simp add: ex_sys5_def ex_sys4_def ex_sys3_def ex_sys2_def ex_sys1_def ex_sys0_def
          sys_lister_def ctl_syncWrapper_def ctl_sync_def witness_defs)
qed

theorem settled_keys_converged_witness:
  "\<not> in_flight ex_sys5 ''p'' \<and> is_running (sys_mgr ex_sys5) ''p''"
  using settled_keys_converged [OF ex_sys5_reachable ex_sys5_settled(2,1)] ex_sys5_settled(2,3) by simp

section \<open>An object that vanishes\<close>

text \<open>
  Only a sync of its cached object stops a controller, and there is no handler for deletions: the
  controller of an object that left the cache before a worker saw its deletion timestamp runs on,
  whatever happens while the object is away, although the key has nothing in flight.
\<close>

definition away :: "string \<Rightarrow> 'w api \<Rightarrow> 'w starter \<Rightarrow> 'w sys \<Rightarrow> 'w sys \<Rightarrow> bool" where
  "away key api st S S' \<longleftrightarrow> sys_step api st S S' \<and> sys_cache S' key = None"

lemma away_step:
  assumes "away key api st S S'" "sys_inv S" "sys_cache S key = None"
  shows "is_running (sys_mgr S') key = is_running (sys_mgr S) key \<and> sys_inv S'"
proof -
  from assms(1) have step: "sys_step api st S S'" by (simp add: away_def)
  then have "is_running (sys_mgr S') key = is_running (sys_mgr S) key"
  proof cases
    case (sync g k err m now t)
    have cm: "cm_inv (controllers (sys_mgr S))" using assms(2) by (simp add: sys_inv_def)
    have "is_running m key = is_running (sys_mgr S) key"
    proof (cases "k = key")
      case True
      then have "m = sys_mgr S" using sync(4) assms(3)
        by (simp add: ctl_syncWrapper_def ctl_sync_def sys_lister_def)
      then show ?thesis by simp
    next
      case False
      then show ?thesis using mgr.sync_other [OF cm sync(4)] by simp
    qed
    with sync(1) show ?thesis by simp
  qed (simp_all add: is_running_def view_def)
  with sys_inv_step [OF step assms(2)] show ?thesis by simp
qed

theorem vanished_runs_on:
  assumes "sys_reachable api st S" "sys_cache S key = None" "is_running (sys_mgr S) key"
    and "(away key api st)\<^sup>*\<^sup>* S S'"
  shows "is_running (sys_mgr S') key"
proof -
  have "is_running (sys_mgr S') key \<and> sys_inv S' \<and> sys_cache S' key = None"
    using assms(4)
    by (induction rule: rtranclp_induct)
       (use assms(2,3) sys_reachable_inv [OF assms(1)] in \<open>auto simp: away_step\<close>,
        auto simp: away_def)
  then show ?thesis by simp
qed

theorem vanished_runs_on_witness:
  "\<exists>S. sys_reachable server_api (starter_ok 7) S \<and> sys_cache S ''p'' = None \<and> \<not> in_flight S ''p''
    \<and> is_running (sys_mgr S) ''p''"
proof -
  let ?S = "ex_sys5\<lparr>sys_cache := (sys_cache ex_sys5)(''p'' := None),
    sys_pending := sys_pending ex_sys5 @ [Deleted (objs (sys_mgr ex_sys5) 1)]\<rparr>"
  have S: "sys_reachable server_api (starter_ok 7) ?S"
    by (rule sys_reachable.step [OF ex_sys5_reachable sys_step.cache_delete [OF ex_sys5_settled(1)]])
  have "converged ex_sys5 ''p''"
    using sys_reachable_inv [OF ex_sys5_reachable] ex_sys5_settled(2) by (auto simp: sys_inv_def)
  then have "is_running (sys_mgr ex_sys5) ''p''" using ex_sys5_settled(1,3) by (simp add: converged_def)
  then have "is_running (sys_mgr ?S) ''p''" by simp
  moreover from vanished_runs_on [OF S _ this rtranclp.rtrancl_refl] have "is_running (sys_mgr ?S) ''p''" by simp
  moreover have "\<not> in_flight ?S ''p''" using ex_sys5_settled(2) by (simp add: in_flight_def tells_of_def)
  ultimately show ?thesis using S by (intro exI [of _ ?S]) simp
qed

end
