(* ===== verification/IndexStore.thy ===== *)
theory IndexStore imports MTPrelude ObjectKeys "HOL-Library.AList" "HOL-Library.List_Lexorder" "HOL-Library.Char_ord" begin

text \<open>
  The indexed store under every informer: \<open>storeIndex\<close> and \<open>threadSafeMap\<close> of
  \<open>vendor/k8s.io/client-go/tools/cache/thread_safe_store.go\<close> and the \<open>cache\<close> of \<open>store.go\<close> that
  computes the keys. Go maps are association lists with distinct keys, so a call that ranges
  over a map returns one of the orders Go may return; what is proved of a result does not depend
  on the order. Resource versions, the store's metrics and the transformer are left out.

  The locale \<open>indexer\<close> is what the filtered cache and the listers rely on; the store is an
  interpretation of it.
\<close>

section \<open>Indexes\<close>

type_synonym 'i IndexFunc = "'i \<Rightarrow> go_error + string slice"
type_synonym index = "(string \<times> string list) list"

record 'i storeIndex =
  indexers :: "(string \<times> 'i IndexFunc) list"
  indices :: "(string \<times> index) list"

definition index_keys :: "index \<Rightarrow> string \<Rightarrow> string list" where
  "index_keys idx v = (case map_of idx v of None \<Rightarrow> [] | Some ks \<Rightarrow> ks)"

definition index_named :: "'i storeIndex \<Rightarrow> string \<Rightarrow> index" where
  "index_named i name = (case map_of (indices i) name of None \<Rightarrow> [] | Some idx \<Rightarrow> idx)"

definition addKeyToIndex :: "string \<Rightarrow> string \<Rightarrow> index \<Rightarrow> index" where
  "addKeyToIndex key v idx = AList.update v (List.insert key (index_keys idx v)) idx"

definition deleteKeyFromIndex :: "string \<Rightarrow> string \<Rightarrow> index \<Rightarrow> index" where
  "deleteKeyFromIndex key v idx =
     (case map_of idx v of
        None \<Rightarrow> idx
      | Some ks \<Rightarrow>
          let ks = removeAll key ks
          in if ks = [] then AList.delete v idx else AList.update v ks idx)"

text \<open>An index function is only called on an object that is there.\<close>

definition values_of :: "'i IndexFunc \<Rightarrow> 'i option \<Rightarrow> go_error + string list" where
  "values_of f ob = (case ob of None \<Rightarrow> Inr [] | Some ob \<Rightarrow> map_sum id elems (f ob))"

definition updateSingleIndex ::
  "string \<Rightarrow> 'i option \<Rightarrow> 'i option \<Rightarrow> string \<Rightarrow> 'i storeIndex \<Rightarrow> 'i storeIndex outcome" where
  "updateSingleIndex name oldObj newObj key i =
     (case map_of (indexers i) name of
        None \<Rightarrow> Panic ''indexer does not exist''
      | Some indexFunc \<Rightarrow>
          (case values_of indexFunc oldObj of
             Inl e \<Rightarrow> Panic ''unable to calculate an index entry''
           | Inr oldIndexValues \<Rightarrow>
               (case values_of indexFunc newObj of
                  Inl e \<Rightarrow> Panic ''unable to calculate an index entry''
                | Inr indexValues \<Rightarrow>
                    let idx = index_named i name
                    in if length indexValues = 1 \<and> length oldIndexValues = 1
                          \<and> hd indexValues = hd oldIndexValues
                       then Return (i\<lparr>indices := AList.update name idx (indices i)\<rparr>)
                       else Return (i\<lparr>indices := AList.update name
                              (fold (addKeyToIndex key) indexValues
                                 (fold (deleteKeyFromIndex key) oldIndexValues idx)) (indices i)\<rparr>))))"

fun update_named ::
  "string list \<Rightarrow> 'i option \<Rightarrow> 'i option \<Rightarrow> string \<Rightarrow> 'i storeIndex \<Rightarrow> 'i storeIndex outcome" where
  "update_named [] oldObj newObj key i = Return i"
| "update_named (name # names) oldObj newObj key i =
     (case updateSingleIndex name oldObj newObj key i of
        Panic msg \<Rightarrow> Panic msg
      | Return i \<Rightarrow> update_named names oldObj newObj key i)"

definition updateIndices :: "'i option \<Rightarrow> 'i option \<Rightarrow> string \<Rightarrow> 'i storeIndex \<Rightarrow> 'i storeIndex outcome" where
  "updateIndices oldObj newObj key i = update_named (map fst (indexers i)) oldObj newObj key i"

definition no_index :: "string \<Rightarrow> go_error" where
  "no_index indexName = Errorf ''Index with name %s does not exist'' [indexName]"

definition getKeysFromIndex :: "string \<Rightarrow> 'i \<Rightarrow> 'i storeIndex \<Rightarrow> go_error + string list" where
  "getKeysFromIndex indexName ob i =
     (case map_of (indexers i) indexName of
        None \<Rightarrow> Inl (no_index indexName)
      | Some indexFunc \<Rightarrow>
          (case indexFunc ob of
             Inl e \<Rightarrow> Inl e
           | Inr vals \<Rightarrow>
               let index = index_named i indexName; indexedValues = elems vals
               in if length indexedValues = 1 then Inr (index_keys index (hd indexedValues))
                  else Inr (fold (\<lambda>v. fold List.insert (index_keys index v)) indexedValues [])))"

definition getKeysByIndex :: "string \<Rightarrow> string \<Rightarrow> 'i storeIndex \<Rightarrow> go_error + string list" where
  "getKeysByIndex indexName indexedValue i =
     (case map_of (indexers i) indexName of
        None \<Rightarrow> Inl (no_index indexName)
      | Some indexFunc \<Rightarrow> Inr (index_keys (index_named i indexName) indexedValue))"

definition getIndexValues :: "string \<Rightarrow> 'i storeIndex \<Rightarrow> string list" where
  "getIndexValues indexName i = map fst (index_named i indexName)"

text \<open>The new names overwrite nothing: a name that is there already refuses the call.\<close>

definition addIndexers :: "(string \<times> 'i IndexFunc) list \<Rightarrow> 'i storeIndex \<Rightarrow> error \<times> 'i storeIndex" where
  "addIndexers newIndexers i =
     (if \<exists>name\<in>set (map fst newIndexers). name \<in> set (map fst (indexers i))
      then (Some (Errorf ''indexer conflict: %v''
              (filter (\<lambda>n. n \<in> set (map fst newIndexers)) (map fst (indexers i)))), i)
      else (None, i\<lparr>indexers := indexers i @ newIndexers\<rparr>))"

section \<open>The thread-safe map\<close>

record 'i threadSafeMap =
  items :: "(string \<times> 'i) list"
  index_of :: "'i storeIndex"

definition NewThreadSafeStore :: "(string \<times> 'i IndexFunc) list \<Rightarrow> 'i threadSafeMap" where
  "NewThreadSafeStore idxs = \<lparr>items = [], index_of = \<lparr>indexers = idxs, indices = []\<rparr>\<rparr>"

text \<open>\<open>Update\<close>, which \<open>Add\<close> calls: store, then reindex from the old object to the new one.\<close>

definition tsm_Update :: "string \<Rightarrow> 'i \<Rightarrow> 'i threadSafeMap \<Rightarrow> 'i threadSafeMap outcome" where
  "tsm_Update key ob c =
     (let oldObject = map_of (items c) key; c = c\<lparr>items := AList.update key ob (items c)\<rparr>
      in case updateIndices oldObject (Some ob) key (index_of c) of
           Panic msg \<Rightarrow> Panic msg
         | Return i \<Rightarrow> Return (c\<lparr>index_of := i\<rparr>))"

definition tsm_Delete :: "string \<Rightarrow> 'i threadSafeMap \<Rightarrow> 'i threadSafeMap outcome" where
  "tsm_Delete key c =
     (case map_of (items c) key of
        None \<Rightarrow> Return c
      | Some ob \<Rightarrow>
          (case updateIndices (Some ob) None key (index_of c) of
             Panic msg \<Rightarrow> Panic msg
           | Return i \<Rightarrow> Return (c\<lparr>index_of := i, items := AList.delete key (items c)\<rparr>)))"

definition tsm_Get :: "'i threadSafeMap \<Rightarrow> string \<Rightarrow> 'i option" where
  "tsm_Get c key = map_of (items c) key"

definition tsm_List :: "'i threadSafeMap \<Rightarrow> 'i list" where
  "tsm_List c = map snd (items c)"

definition tsm_ListKeys :: "'i threadSafeMap \<Rightarrow> string list" where
  "tsm_ListKeys c = map fst (items c)"

fun index_all :: "(string \<times> 'i) list \<Rightarrow> string list \<Rightarrow> 'i storeIndex \<Rightarrow> 'i storeIndex outcome" where
  "index_all [] names i = Return i"
| "index_all ((key, ob) # kvs) names i =
     (case update_named names None (Some ob) key i of
        Panic msg \<Rightarrow> Panic msg
      | Return i \<Rightarrow> index_all kvs names i)"

text \<open>\<open>Replace\<close> takes the new map over and rebuilds every index from nothing.\<close>

definition tsm_Replace :: "(string \<times> 'i) list \<Rightarrow> 'i threadSafeMap \<Rightarrow> 'i threadSafeMap outcome" where
  "tsm_Replace new_items c =
     (let i = (index_of c)\<lparr>indices := []\<rparr>
      in case index_all new_items (map fst (indexers i)) i of
           Panic msg \<Rightarrow> Panic msg
         | Return i \<Rightarrow> Return \<lparr>items = new_items, index_of = i\<rparr>)"

text \<open>The item of a key of an index: the code reads the map of items, whose value is nil if the
  key is not there.\<close>

definition items_at :: "'i threadSafeMap \<Rightarrow> string list \<Rightarrow> 'i option list" where
  "items_at c ks = map (map_of (items c)) ks"

definition tsm_Index :: "string \<Rightarrow> 'i \<Rightarrow> 'i threadSafeMap \<Rightarrow> go_error + 'i option list" where
  "tsm_Index indexName ob c = map_sum id (items_at c) (getKeysFromIndex indexName ob (index_of c))"

definition tsm_ByIndex :: "string \<Rightarrow> string \<Rightarrow> 'i threadSafeMap \<Rightarrow> go_error + 'i option list" where
  "tsm_ByIndex indexName indexedValue c =
     map_sum id (items_at c) (getKeysByIndex indexName indexedValue (index_of c))"

text \<open>\<open>sets.List\<close> returns the keys in increasing order.\<close>

definition tsm_IndexKeys :: "string \<Rightarrow> string \<Rightarrow> 'i threadSafeMap \<Rightarrow> go_error + string list" where
  "tsm_IndexKeys indexName indexedValue c =
     map_sum id sort (getKeysByIndex indexName indexedValue (index_of c))"

definition tsm_ListIndexFuncValues :: "string \<Rightarrow> 'i threadSafeMap \<Rightarrow> string list" where
  "tsm_ListIndexFuncValues indexName c = getIndexValues indexName (index_of c)"

definition tsm_GetIndexers :: "'i threadSafeMap \<Rightarrow> (string \<times> 'i IndexFunc) list" where
  "tsm_GetIndexers c = indexers (index_of c)"

definition tsm_AddIndexers ::
  "(string \<times> 'i IndexFunc) list \<Rightarrow> 'i threadSafeMap \<Rightarrow> (error \<times> 'i threadSafeMap) outcome" where
  "tsm_AddIndexers newIndexers c =
     (case addIndexers newIndexers (index_of c) of
        (Some e, i) \<Rightarrow> Return (Some e, c)
      | (None, i) \<Rightarrow>
          (case index_all (items c) (map fst newIndexers) i of
             Panic msg \<Rightarrow> Panic msg
           | Return i \<Rightarrow> Return (None, c\<lparr>index_of := i\<rparr>)))"


section \<open>The keyed cache\<close>

text \<open>
  The \<open>cache\<close> of \<open>store.go\<close> is a thread-safe map with a key function. Its objects are the \<open>any\<close>
  values of the key functions; \<open>nil_any\<close> is what reading a missing key of a Go map gives.
\<close>

type_synonym 'o cache = "'o key_arg threadSafeMap"
type_synonym 'o KeyFunc = "'o key_arg \<Rightarrow> go_error + string"

definition nil_any :: "'o key_arg" where
  "nil_any = NoMeta ''nil''"

definition KeyError :: "go_error \<Rightarrow> go_error" where
  "KeyError e = Wrapf ''couldn't create key for object %+v: %v'' [] e"

definition cache_Update ::
  "'o KeyFunc \<Rightarrow> 'o key_arg \<Rightarrow> 'o cache \<Rightarrow> (error \<times> 'o cache) outcome" where
  "cache_Update keyFunc ob c =
     (case keyFunc ob of
        Inl e \<Rightarrow> Return (Some (KeyError e), c)
      | Inr key \<Rightarrow> (case tsm_Update key ob c of Panic msg \<Rightarrow> Panic msg | Return c \<Rightarrow> Return (None, c)))"

definition cache_Add ::
  "'o KeyFunc \<Rightarrow> 'o key_arg \<Rightarrow> 'o cache \<Rightarrow> (error \<times> 'o cache) outcome" where
  "cache_Add keyFunc ob c =
     (case keyFunc ob of
        Inl e \<Rightarrow> Return (Some (KeyError e), c)
      | Inr key \<Rightarrow> (case tsm_Update key ob c of Panic msg \<Rightarrow> Panic msg | Return c \<Rightarrow> Return (None, c)))"

definition cache_Delete ::
  "'o KeyFunc \<Rightarrow> 'o key_arg \<Rightarrow> 'o cache \<Rightarrow> (error \<times> 'o cache) outcome" where
  "cache_Delete keyFunc ob c =
     (case keyFunc ob of
        Inl e \<Rightarrow> Return (Some (KeyError e), c)
      | Inr key \<Rightarrow> (case tsm_Delete key c of Panic msg \<Rightarrow> Panic msg | Return c \<Rightarrow> Return (None, c)))"

fun keyed_items ::
  "'o KeyFunc \<Rightarrow> 'o key_arg list \<Rightarrow> (string \<times> 'o key_arg) list \<Rightarrow> go_error + (string \<times> 'o key_arg) list" where
  "keyed_items keyFunc [] kvs = Inr kvs"
| "keyed_items keyFunc (ob # obs) kvs =
     (case keyFunc ob of
        Inl e \<Rightarrow> Inl (KeyError e)
      | Inr key \<Rightarrow> keyed_items keyFunc obs (AList.update key ob kvs))"

definition cache_Replace ::
  "'o KeyFunc \<Rightarrow> 'o key_arg list \<Rightarrow> 'o cache \<Rightarrow> (error \<times> 'o cache) outcome" where
  "cache_Replace keyFunc obs c =
     (case keyed_items keyFunc obs [] of
        Inl e \<Rightarrow> Return (Some e, c)
      | Inr kvs \<Rightarrow> (case tsm_Replace kvs c of Panic msg \<Rightarrow> Panic msg | Return c \<Rightarrow> Return (None, c)))"

text \<open>What reading the map gives: the item, whether it is there, and never an error.\<close>

definition found :: "'o key_arg option \<Rightarrow> 'o key_arg \<times> bool \<times> error" where
  "found x = (case x of None \<Rightarrow> (nil_any, False, None) | Some ob \<Rightarrow> (ob, True, None))"

definition cache_GetByKey :: "'o cache \<Rightarrow> string \<Rightarrow> 'o key_arg \<times> bool \<times> error" where
  "cache_GetByKey c key = found (tsm_Get c key)"

definition cache_Get :: "'o KeyFunc \<Rightarrow> 'o cache \<Rightarrow> 'o key_arg \<Rightarrow> 'o key_arg \<times> bool \<times> error" where
  "cache_Get keyFunc c ob =
     (case keyFunc ob of
        Inl e \<Rightarrow> (nil_any, False, Some (KeyError e))
      | Inr key \<Rightarrow> cache_GetByKey c key)"

definition nilable :: "'o key_arg option list \<Rightarrow> 'o key_arg list" where
  "nilable = map (\<lambda>ob. case ob of None \<Rightarrow> nil_any | Some ob \<Rightarrow> ob)"

definition cache_Index :: "'o cache \<Rightarrow> string \<Rightarrow> 'o key_arg \<Rightarrow> go_error + 'o key_arg list" where
  "cache_Index c indexName ob = map_sum id nilable (tsm_Index indexName ob c)"

definition cache_ByIndex :: "'o cache \<Rightarrow> string \<Rightarrow> string \<Rightarrow> go_error + 'o key_arg list" where
  "cache_ByIndex c indexName indexedValue = map_sum id nilable (tsm_ByIndex indexName indexedValue c)"

section \<open>The Indexer interface\<close>

text \<open>The methods of the interface \<open>cache.Indexer\<close> that read (\<open>index.go\<close>, \<open>store.go\<close>).\<close>

record 'o Indexer =
  ix_Index :: "string \<Rightarrow> 'o key_arg \<Rightarrow> go_error + 'o key_arg list"
  ix_IndexKeys :: "string \<Rightarrow> string \<Rightarrow> go_error + string list"
  ix_ListIndexFuncValues :: "string \<Rightarrow> string list"
  ix_ByIndex :: "string \<Rightarrow> string \<Rightarrow> go_error + 'o key_arg list"
  ix_GetIndexers :: "(string \<times> 'o key_arg IndexFunc) list"
  ix_List :: "'o key_arg list"
  ix_ListKeys :: "string list"
  ix_Get :: "'o key_arg \<Rightarrow> 'o key_arg \<times> bool \<times> error"
  ix_GetByKey :: "string \<Rightarrow> 'o key_arg \<times> bool \<times> error"

definition cache_Indexer :: "'o KeyFunc \<Rightarrow> 'o cache \<Rightarrow> 'o Indexer" where
  "cache_Indexer keyFunc c =
     \<lparr>ix_Index = cache_Index c,
      ix_IndexKeys = (\<lambda>indexName indexedValue. tsm_IndexKeys indexName indexedValue c),
      ix_ListIndexFuncValues = (\<lambda>indexName. tsm_ListIndexFuncValues indexName c),
      ix_ByIndex = cache_ByIndex c,
      ix_GetIndexers = tsm_GetIndexers c,
      ix_List = tsm_List c,
      ix_ListKeys = tsm_ListKeys c,
      ix_Get = cache_Get keyFunc c,
      ix_GetByKey = cache_GetByKey c\<rparr>"

section \<open>Indexes agree with the items\<close>

text \<open>\<open>index_ok f m idx\<close>: the index files exactly the keys of the items under their values.\<close>

definition index_values :: "'i IndexFunc \<Rightarrow> 'i \<Rightarrow> string set" where
  "index_values f ob = (case f ob of Inl e \<Rightarrow> {} | Inr vs \<Rightarrow> set (elems vs))"

definition index_tidy :: "index \<Rightarrow> bool" where
  "index_tidy idx \<longleftrightarrow> distinct (map fst idx) \<and> (\<forall>(v, ks)\<in>set idx. ks \<noteq> [] \<and> distinct ks)"

definition index_ok :: "'i IndexFunc \<Rightarrow> (string \<rightharpoonup> 'i) \<Rightarrow> index \<Rightarrow> bool" where
  "index_ok f m idx \<longleftrightarrow>
     index_tidy idx \<and>
     (\<forall>v k. k \<in> set (index_keys idx v) \<longleftrightarrow> (\<exists>ob. m k = Some ob \<and> v \<in> index_values f ob)) \<and>
     (\<forall>k ob. m k = Some ob \<longrightarrow> (\<exists>vs. f ob = Inr vs))"

definition store_ok :: "'i threadSafeMap \<Rightarrow> bool" where
  "store_ok c \<longleftrightarrow>
     distinct (map fst (items c)) \<and> distinct (map fst (indexers (index_of c))) \<and>
     (\<forall>name f. map_of (indexers (index_of c)) name = Some f
        \<longrightarrow> index_ok f (map_of (items c)) (index_named (index_of c) name)) \<and>
     (\<forall>name. map_of (indexers (index_of c)) name = None \<longrightarrow> index_named (index_of c) name = [])"

lemma index_keys_simps [simp]:
  "index_keys [] v = []"
  "index_keys (AList.update v ks idx) w = (if w = v then ks else index_keys idx w)"
  by (simp_all add: index_keys_def update_conv)

lemma index_keys_delete [simp]:
  "index_keys (AList.delete v idx) w = (if w = v then [] else index_keys idx w)"
  by (simp add: index_keys_def delete_conv)

lemma index_keys_map_of: "map_of idx v = Some ks \<Longrightarrow> index_keys idx v = ks"
  by (simp add: index_keys_def)

lemma distinct_index_keys: "index_tidy idx \<Longrightarrow> distinct (index_keys idx v)"
  by (auto simp: index_tidy_def index_keys_def split: option.splits dest: map_of_SomeD)

lemma index_tidy_update:
  "index_tidy idx \<Longrightarrow> ks \<noteq> [] \<Longrightarrow> distinct ks \<Longrightarrow> index_tidy (AList.update v ks idx)"
  by (induction idx) (auto simp: index_tidy_def update_keys)

lemma index_tidy_delete: "index_tidy idx \<Longrightarrow> index_tidy (AList.delete v idx)"
  by (auto simp: index_tidy_def AList.delete_eq distinct_map_filter)

lemma set_addKeyToIndex [simp]:
  "set (index_keys (addKeyToIndex key v idx) w)
   = (if w = v then insert key (set (index_keys idx w)) else set (index_keys idx w))"
  by (simp add: addKeyToIndex_def)

lemma set_deleteKeyFromIndex [simp]:
  "set (index_keys (deleteKeyFromIndex key v idx) w)
   = (if w = v then set (index_keys idx w) - {key} else set (index_keys idx w))"
proof (cases "map_of idx v")
  case None
  then show ?thesis by (simp add: deleteKeyFromIndex_def index_keys_def)
next
  case (Some ks)
  have "set ks - {key} = {}" if "removeAll key ks = []"
    using that by (metis list.set(1) set_removeAll)
  with Some show ?thesis by (simp add: deleteKeyFromIndex_def Let_def index_keys_map_of)
qed

lemma tidy_addKeyToIndex: "index_tidy idx \<Longrightarrow> index_tidy (addKeyToIndex key v idx)"
  unfolding addKeyToIndex_def
  by (rule index_tidy_update) (auto simp: distinct_index_keys List.insert_def)

lemma tidy_deleteKeyFromIndex:
  assumes "index_tidy idx" shows "index_tidy (deleteKeyFromIndex key v idx)"
  using assms distinct_index_keys [OF assms, of v]
  by (auto simp: deleteKeyFromIndex_def Let_def index_tidy_delete index_keys_map_of distinct_removeAll
           intro!: index_tidy_update simp del: set_removeAll split: option.splits)

lemma fold_addKeyToIndex:
  "index_tidy idx \<Longrightarrow> index_tidy (fold (addKeyToIndex key) vs idx)"
  "set (index_keys (fold (addKeyToIndex key) vs idx) w)
   = (if w \<in> set vs then insert key (set (index_keys idx w)) else set (index_keys idx w))"
  by (induction vs arbitrary: idx) (auto simp: tidy_addKeyToIndex)

lemma fold_deleteKeyFromIndex:
  "index_tidy idx \<Longrightarrow> index_tidy (fold (deleteKeyFromIndex key) vs idx)"
  "set (index_keys (fold (deleteKeyFromIndex key) vs idx) w)
   = (if w \<in> set vs then set (index_keys idx w) - {key} else set (index_keys idx w))"
  by (induction vs arbitrary: idx) (auto simp: tidy_deleteKeyFromIndex)


lemma values_of_set:
  "values_of f ob = Inr vs
   \<Longrightarrow> v \<in> set vs \<longleftrightarrow> (\<exists>x. ob = Some x \<and> v \<in> index_values f x)"
  by (auto simp: values_of_def index_values_def split: option.splits sum.splits)

lemma values_of_Inr: "values_of f (Some x) = Inr vs \<Longrightarrow> \<exists>ws. f x = Inr ws"
  by (cases "f x") (auto simp: values_of_def)

lemma index_total_upd:
  assumes "index_ok f m idx" "values_of f new = Inr news" "(m(key := new)) k = Some x"
  shows "\<exists>vs. f x = Inr vs"
  using assms values_of_Inr unfolding index_ok_def by (cases "k = key") auto

lemma index_ok_step:
  assumes ok: "index_ok f m idx"
    and old: "values_of f (m key) = Inr olds" and new: "values_of f new = Inr news"
  shows "index_ok f (m(key := new)) (fold (addKeyToIndex key) news (fold (deleteKeyFromIndex key) olds idx))"
proof -
  have "\<forall>k x. (m(key := new)) k = Some x \<longrightarrow> (\<exists>vs. f x = Inr vs)"
    using index_total_upd [OF ok new] by blast
  with ok show ?thesis unfolding index_ok_def
    by (simp add: fold_addKeyToIndex fold_deleteKeyFromIndex del: fun_upd_apply)
       (auto simp: values_of_set [OF old] values_of_set [OF new])
qed

lemma index_ok_same:
  assumes ok: "index_ok f m idx"
    and old: "values_of f (m key) = Inr vs" and new: "values_of f new = Inr vs"
  shows "index_ok f (m(key := new)) idx"
proof -
  have "\<forall>k x. (m(key := new)) k = Some x \<longrightarrow> (\<exists>vs. f x = Inr vs)"
    using index_total_upd [OF ok new] by blast
  with ok show ?thesis unfolding index_ok_def
    using values_of_set [OF old] values_of_set [OF new] by (simp del: fun_upd_apply) auto
qed

lemma index_named_simps [simp]:
  "index_named (i\<lparr>indices := AList.update n idx xs\<rparr>) n' = (if n' = n then idx else index_named (i\<lparr>indices := xs\<rparr>) n')"
  "index_named (i\<lparr>indices := []\<rparr>) n' = []"
  "index_named (i\<lparr>indices := indices i\<rparr>) n' = index_named i n'"
  "index_named (i\<lparr>indexers := fs\<rparr>) n' = index_named i n'"
  by (simp_all add: index_named_def update_conv)

lemma single_value_eq: "length xs = 1 \<Longrightarrow> length ys = 1 \<Longrightarrow> hd xs = hd ys \<Longrightarrow> xs = ys"
  by (cases xs; cases ys) auto

lemma updateSingleIndex_ok:
  assumes upd: "updateSingleIndex name (m key) new key i = Return i'"
    and f: "map_of (indexers i) name = Some f" and ok: "index_ok f m (index_named i name)"
  shows "indexers i' = indexers i \<and> index_ok f (m(key := new)) (index_named i' name)
         \<and> (\<forall>n. n \<noteq> name \<longrightarrow> index_named i' n = index_named i n)"
proof -
  obtain olds news where v: "values_of f (m key) = Inr olds" "values_of f new = Inr news"
    using upd f by (auto simp: updateSingleIndex_def split: sum.splits)
  show ?thesis
  proof (cases "length news = 1 \<and> length olds = 1 \<and> hd news = hd olds")
    case True
    then have "news = olds" using single_value_eq by blast
    with upd f v True show ?thesis
      by (auto simp: updateSingleIndex_def index_ok_same [OF ok, of key olds])
  next
    case False
    with upd f v show ?thesis
      by (auto simp: updateSingleIndex_def Let_def index_ok_step [OF ok v])
  qed
qed

lemma update_named_ok:
  assumes "update_named names (m key) new key i = Return i'" "distinct names"
    and "\<And>name. name \<in> set names \<Longrightarrow> \<exists>f. map_of (indexers i) name = Some f \<and> index_ok f m (index_named i name)"
  shows "indexers i' = indexers i
    \<and> (\<forall>name f. name \<in> set names \<longrightarrow> map_of (indexers i) name = Some f
         \<longrightarrow> index_ok f (m(key := new)) (index_named i' name))
    \<and> (\<forall>name. name \<notin> set names \<longrightarrow> index_named i' name = index_named i name)"
  using assms
proof (induction names arbitrary: i)
  case Nil
  then show ?case by simp
next
  case (Cons name names)
  obtain i1 where i1: "updateSingleIndex name (m key) new key i = Return i1"
      and rest: "update_named names (m key) new key i1 = Return i'"
    using Cons.prems(1) by (auto split: outcome.splits)
  obtain f where f: "map_of (indexers i) name = Some f" "index_ok f m (index_named i name)"
    using Cons.prems(3) [of name] by auto
  note s1 = updateSingleIndex_ok [OF i1 f]
  have pre: "\<exists>f. map_of (indexers i1) n = Some f \<and> index_ok f m (index_named i1 n)" if "n \<in> set names" for n
    using Cons.prems(2) Cons.prems(3) [of n] that s1 by (cases "n = name") auto
  have "distinct names" using Cons.prems(2) by simp
  note s2 = Cons.IH [OF rest this pre]
  show ?case
  proof (intro conjI allI impI)
    show "indexers i' = indexers i" using s1 s2 by simp
  next
    fix n g
    assume "n \<in> set (name # names)" "map_of (indexers i) n = Some g"
    then show "index_ok g (m(key := new)) (index_named i' n)"
      using s1 s2 f Cons.prems(2) by (cases "n = name") (simp_all add: fun_upd_def)
  next
    fix n
    assume "n \<notin> set (name # names)"
    then show "index_named i' n = index_named i n" using s1 s2 Cons.prems(2) by simp
  qed
qed

lemma keys_with_indexer: "name \<in> set (map fst xs) \<longleftrightarrow> (\<exists>f. map_of xs name = Some f)"
  by (metis map_of_eq_None_iff not_None_eq set_map)

lemma updateIndices_ok:
  assumes "updateIndices (m key) new key i = Return i'" and "distinct (map fst (indexers i))"
    and "\<And>name f. map_of (indexers i) name = Some f \<Longrightarrow> index_ok f m (index_named i name)"
  shows "indexers i' = indexers i
    \<and> (\<forall>name f. map_of (indexers i) name = Some f \<longrightarrow> index_ok f (m(key := new)) (index_named i' name))
    \<and> (\<forall>name. map_of (indexers i) name = None \<longrightarrow> index_named i' name = index_named i name)"
proof -
  have "\<exists>f. map_of (indexers i) name = Some f \<and> index_ok f m (index_named i name)"
    if "name \<in> set (map fst (indexers i))" for name
    using that assms(3) unfolding keys_with_indexer by blast
  from update_named_ok [OF assms(1) [unfolded updateIndices_def] assms(2) this]
  show ?thesis using keys_with_indexer by (metis option.distinct(1))
qed

section \<open>Every operation keeps the store well-formed\<close>

lemma store_okD:
  assumes "store_ok c"
  shows "distinct (map fst (items c))" "distinct (map fst (indexers (index_of c)))"
    "map_of (indexers (index_of c)) name = Some f \<Longrightarrow> index_ok f (map_of (items c)) (index_named (index_of c) name)"
    "map_of (indexers (index_of c)) name = None \<Longrightarrow> index_named (index_of c) name = []"
  using assms by (simp_all add: store_ok_def)

lemma index_ok_empty [simp]: "index_ok f Map.empty []"
  by (simp add: index_ok_def index_tidy_def)

lemma NewThreadSafeStore_ok: "distinct (map fst idxs) \<Longrightarrow> store_ok (NewThreadSafeStore idxs)"
  by (simp add: store_ok_def NewThreadSafeStore_def index_named_def)

lemma tsm_Update_ok:
  assumes "store_ok c" "tsm_Update key ob c = Return c'"
  shows "store_ok c'" "map_of (items c') = (map_of (items c))(key \<mapsto> ob)"
    "indexers (index_of c') = indexers (index_of c)"
proof -
  obtain i where upd: "updateIndices (map_of (items c) key) (Some ob) key (index_of c) = Return i"
      and c': "c' = c\<lparr>items := AList.update key ob (items c), index_of := i\<rparr>"
    using assms(2) by (auto simp: tsm_Update_def Let_def split: outcome.splits)
  note ok = updateIndices_ok [OF upd store_okD(2,3) [OF assms(1)]]
  show "store_ok c'" "map_of (items c') = (map_of (items c))(key \<mapsto> ob)"
       "indexers (index_of c') = indexers (index_of c)"
    using ok store_okD(1,2,4) [OF assms(1)] by (auto simp: c' store_ok_def update_conv' distinct_update)
qed

lemma tsm_Delete_ok:
  assumes "store_ok c" "tsm_Delete key c = Return c'"
  shows "store_ok c'" "map_of (items c') = (map_of (items c))(key := None)"
    "indexers (index_of c') = indexers (index_of c)"
proof -
  have "store_ok c' \<and> map_of (items c') = (map_of (items c))(key := None)
        \<and> indexers (index_of c') = indexers (index_of c)"
  proof (cases "map_of (items c) key")
    case None
    with assms show ?thesis by (auto simp: tsm_Delete_def fun_upd_idem)
  next
    case (Some ob)
    then obtain i where upd: "updateIndices (map_of (items c) key) None key (index_of c) = Return i"
        and c': "c' = c\<lparr>index_of := i, items := AList.delete key (items c)\<rparr>"
      using assms(2) by (auto simp: tsm_Delete_def split: outcome.splits)
    note ok = updateIndices_ok [OF upd store_okD(2,3) [OF assms(1)]]
    show ?thesis using ok store_okD(1,2,4) [OF assms(1)]
      by (auto simp: c' store_ok_def delete_conv' distinct_delete)
  qed
  then show "store_ok c'" "map_of (items c') = (map_of (items c))(key := None)"
    "indexers (index_of c') = indexers (index_of c)" by auto
qed

text \<open>\<open>index_all\<close> files the items one by one in indexes that hold the ones before.\<close>

lemma index_all_ok:
  assumes "index_all kvs names i = Return i'" "distinct names" "distinct (map fst kvs)"
    and "\<And>k. k \<in> set (map fst kvs) \<Longrightarrow> m k = None"
    and "\<And>name. name \<in> set names \<Longrightarrow> \<exists>f. map_of (indexers i) name = Some f \<and> index_ok f m (index_named i name)"
  shows "indexers i' = indexers i
    \<and> (\<forall>name f. name \<in> set names \<longrightarrow> map_of (indexers i) name = Some f
         \<longrightarrow> index_ok f (m ++ map_of kvs) (index_named i' name))
    \<and> (\<forall>name. name \<notin> set names \<longrightarrow> index_named i' name = index_named i name)"
  using assms
proof (induction kvs arbitrary: i m)
  case Nil
  then show ?case by fastforce
next
  case (Cons kv kvs)
  obtain key ob where kv: "kv = (key, ob)" by (cases kv)
  obtain i1 where i1: "update_named names None (Some ob) key i = Return i1"
      and rest: "index_all kvs names i1 = Return i'"
    using Cons.prems(1) by (auto simp: kv split: outcome.splits)
  have none: "m key = None" using Cons.prems(4) kv by auto
  note s1 = update_named_ok [OF i1 [folded none] Cons.prems(2,5)]
  have pre: "\<exists>f. map_of (indexers i1) n = Some f \<and> index_ok f (m(key \<mapsto> ob)) (index_named i1 n)"
    if "n \<in> set names" for n
    using that s1 Cons.prems(5) by fastforce
  have "m ++ map_of (kv # kvs) = m(key \<mapsto> ob) ++ map_of kvs"
    using Cons.prems(3) kv by (simp add: map_add_upd_left dom_map_of_conv_image_fst)
  moreover have "(m(key \<mapsto> ob)) k = None" if "k \<in> set (map fst kvs)" for k
    using that Cons.prems(3,4) kv by auto
  moreover have "distinct (map fst kvs)" using Cons.prems(3) by simp
  ultimately show ?case
    using s1 Cons.IH [OF rest Cons.prems(2) _ _ pre] by (simp del: fun_upd_apply)
qed


lemma tsm_Replace_ok:
  assumes "store_ok c" "distinct (map fst kvs)" "tsm_Replace kvs c = Return c'"
  shows "store_ok c'" "items c' = kvs" "indexers (index_of c') = indexers (index_of c)"
proof -
  let ?i = "(index_of c)\<lparr>indices := []\<rparr>" and ?names = "map fst (indexers (index_of c))"
  obtain i where all: "index_all kvs ?names ?i = Return i" and c': "c' = \<lparr>items = kvs, index_of = i\<rparr>"
    using assms(3) by (auto simp: tsm_Replace_def Let_def split: outcome.splits)
  have "\<exists>f. map_of (indexers ?i) n = Some f \<and> index_ok f Map.empty (index_named ?i n)"
    if "n \<in> set ?names" for n
    using that by (simp add: keys_with_indexer del: set_map)
  note ok = index_all_ok [OF all store_okD(2) [OF assms(1)] assms(2) _ this]
  have "index_named i n = []" if "map_of (indexers (index_of c)) n = None" for n
    using ok that keys_with_indexer [of n "indexers (index_of c)"] by (simp del: set_map)
  then show "store_ok c'" "items c' = kvs" "indexers (index_of c') = indexers (index_of c)"
    using ok store_okD(2) [OF assms(1)] assms(2) keys_with_indexer [of _ "indexers (index_of c)"]
    by (auto simp: c' store_ok_def simp del: set_map)
qed

lemma tsm_AddIndexers_ok:
  assumes "store_ok c" "distinct (map fst fs)" "tsm_AddIndexers fs c = Return (None, c')"
  shows "store_ok c' \<and> items c' = items c \<and> indexers (index_of c') = indexers (index_of c) @ fs"
proof -
  let ?i = "(index_of c)\<lparr>indexers := indexers (index_of c) @ fs\<rparr>"
  have new: "\<forall>n\<in>set (map fst fs). n \<notin> set (map fst (indexers (index_of c)))"
    using assms(3) by (auto simp: tsm_AddIndexers_def addIndexers_def split: if_splits)
  have no_index_yet: "index_named (index_of c) n = []" if "n \<in> set (map fst fs)" for n
    using new that store_okD(4) [OF assms(1)] keys_with_indexer by (metis option.exhaust)
  from new have "addIndexers fs (index_of c) = (None, ?i)" by (auto simp: addIndexers_def)
  with assms(3) obtain i where all: "index_all (items c) (map fst fs) ?i = Return i"
      and c': "c' = c\<lparr>index_of := i\<rparr>"
    by (auto simp: tsm_AddIndexers_def split: outcome.splits)
  have lookup: "map_of (indexers ?i) n = (if n \<in> set (map fst fs) then map_of fs n else map_of (indexers (index_of c)) n)" for n
    using new keys_with_indexer [of n fs] keys_with_indexer [of n "indexers (index_of c)"]
    by (auto simp: map_add_def split: option.splits simp del: set_map)
  have pre: "\<exists>f. map_of (indexers ?i) n = Some f \<and> index_ok f Map.empty (index_named ?i n)"
    if "n \<in> set (map fst fs)" for n
    using that no_index_yet [OF that] keys_with_indexer [of n fs] unfolding lookup by (simp del: set_map)
  note ok = index_all_ok [OF all assms(2) store_okD(1) [OF assms(1)] _ pre]
  have "index_ok f (map_of (items c)) (index_named i n)" if "map_of (indexers ?i) n = Some f" for n f
  proof (cases "n \<in> set (map fst fs)")
    case True
    then show ?thesis using ok that by (simp del: set_map)
  next
    case False
    then show ?thesis using ok that store_okD(3) [OF assms(1), of n f] unfolding lookup by (simp del: set_map)
  qed
  moreover have "index_named i n = []" if "map_of (indexers ?i) n = None" for n
  proof -
    have "n \<notin> set (map fst fs)" "map_of (indexers (index_of c)) n = None"
      using that keys_with_indexer [of n fs] unfolding lookup by (auto split: if_splits)
    then show ?thesis using ok store_okD(4) [OF assms(1), of n] by (simp del: set_map)
  qed
  moreover have "set (map fst (indexers (index_of c))) \<inter> set (map fst fs) = {}" using new by blast
  ultimately show ?thesis
    using ok assms(2) store_okD(1,2) [OF assms(1)] by (simp add: c' store_ok_def del: set_map)
qed


text \<open>The only panic is an index function that refuses an object.\<close>

lemma updateSingleIndex_returns:
  assumes "map_of (indexers i) name = Some f" "values_of f oldObj = Inr olds" "values_of f newObj = Inr news"
  obtains i' where "updateSingleIndex name oldObj newObj key i = Return i'" "indexers i' = indexers i"
proof -
  have "\<exists>i'. updateSingleIndex name oldObj newObj key i = Return i' \<and> indexers i' = indexers i"
    using assms by (simp add: updateSingleIndex_def Let_def)
  then show thesis using that by blast
qed

lemma update_named_returns:
  assumes "\<And>name. name \<in> set names \<Longrightarrow> \<exists>f olds news. map_of (indexers i) name = Some f
             \<and> values_of f oldObj = Inr olds \<and> values_of f newObj = Inr news"
  shows "\<exists>i'. update_named names oldObj newObj key i = Return i' \<and> indexers i' = indexers i"
  using assms
proof (induction names arbitrary: i)
  case Nil
  then show ?case by simp
next
  case (Cons name names)
  from Cons.prems [of name] obtain f olds news
    where f: "map_of (indexers i) name = Some f" "values_of f oldObj = Inr olds" "values_of f newObj = Inr news"
    by auto
  obtain i1 where i1: "updateSingleIndex name oldObj newObj key i = Return i1" "indexers i1 = indexers i"
    by (rule updateSingleIndex_returns [OF f])
  have "\<exists>i'. update_named names oldObj newObj key i1 = Return i' \<and> indexers i' = indexers i1"
    by (rule Cons.IH) (use Cons.prems i1(2) in auto)
  with i1 show ?case by auto
qed

lemma values_of_indexed:
  assumes "store_ok c" "map_of (indexers (index_of c)) name = Some f"
  shows "\<exists>vs. values_of f (map_of (items c) key) = Inr vs"
proof (cases "map_of (items c) key")
  case (Some x)
  then obtain vs where "f x = Inr vs" using store_okD(3) [OF assms] unfolding index_ok_def by blast
  with Some show ?thesis by (simp add: values_of_def)
qed (simp add: values_of_def)

lemma tsm_Update_returns:
  assumes "store_ok c" and total: "\<And>name f. map_of (indexers (index_of c)) name = Some f \<Longrightarrow> \<exists>vs. f x = Inr vs"
  shows "\<exists>c'. tsm_Update key x c = Return c'"
proof -
  have "\<exists>i'. update_named (map fst (indexers (index_of c))) (map_of (items c) key) (Some x) key (index_of c)
          = Return i' \<and> indexers i' = indexers (index_of c)"
  proof (rule update_named_returns)
    fix name assume "name \<in> set (map fst (indexers (index_of c)))"
    then obtain f where f: "map_of (indexers (index_of c)) name = Some f" using keys_with_indexer by metis
    then show "\<exists>f olds news. map_of (indexers (index_of c)) name = Some f
        \<and> values_of f (map_of (items c) key) = Inr olds \<and> values_of f (Some x) = Inr news"
      using values_of_indexed [OF assms(1) f, of key] total [OF f] by (auto simp: values_of_def)
  qed
  then show ?thesis by (auto simp: tsm_Update_def updateIndices_def Let_def)
qed

lemma index_all_returns:
  assumes "\<And>name x. name \<in> set names \<Longrightarrow> x \<in> snd ` set kvs \<Longrightarrow>
             \<exists>f vs. map_of (indexers i) name = Some f \<and> f x = Inr vs"
  shows "\<exists>i'. index_all kvs names i = Return i' \<and> indexers i' = indexers i"
  using assms
proof (induction kvs names i rule: index_all.induct)
  case (2 key ob kvs names i)
  have "\<exists>i'. update_named names None (Some ob) key i = Return i' \<and> indexers i' = indexers i"
  proof (rule update_named_returns)
    fix name assume "name \<in> set names"
    with "2.prems" [of name ob] show "\<exists>f olds news. map_of (indexers i) name = Some f
        \<and> values_of f None = Inr olds \<and> values_of f (Some ob) = Inr news"
      by (auto simp: values_of_def)
  qed
  then obtain i1 where i1: "update_named names None (Some ob) key i = Return i1" "indexers i1 = indexers i"
    by blast
  with "2.IH" [OF i1(1)] "2.prems" show ?case by auto
qed simp

text \<open>
  A store as its owner sees it: created, then changed by any calls that return. An argument
  that is a Go map has distinct keys.
\<close>

inductive store_reachable :: "'i threadSafeMap \<Rightarrow> bool" where
  created: "distinct (map fst fs) \<Longrightarrow> store_reachable (NewThreadSafeStore fs)"
| updated: "store_reachable c \<Longrightarrow> tsm_Update key x c = Return c' \<Longrightarrow> store_reachable c'"
| deleted: "store_reachable c \<Longrightarrow> tsm_Delete key c = Return c' \<Longrightarrow> store_reachable c'"
| replaced: "store_reachable c \<Longrightarrow> distinct (map fst kvs) \<Longrightarrow> tsm_Replace kvs c = Return c'
    \<Longrightarrow> store_reachable c'"
| indexed: "store_reachable c \<Longrightarrow> distinct (map fst fs) \<Longrightarrow> tsm_AddIndexers fs c = Return (err, c')
    \<Longrightarrow> store_reachable c'"

lemma tsm_AddIndexers_refused: "tsm_AddIndexers fs c = Return (Some e, c') \<Longrightarrow> c' = c"
  by (auto simp: tsm_AddIndexers_def split: prod.splits option.splits outcome.splits)

lemma store_reachable_ok: "store_reachable c \<Longrightarrow> store_ok c"
proof (induction rule: store_reachable.induct)
  case (indexed c fs err c')
  then show ?case
    using tsm_AddIndexers_ok tsm_AddIndexers_refused by (cases err) blast+
qed (blast intro: NewThreadSafeStore_ok tsm_Update_ok tsm_Delete_ok tsm_Replace_ok)+

section \<open>Listings\<close>

text \<open>\<open>lists_entries xs m\<close>: \<open>xs\<close> holds the value of every key of \<open>m\<close> exactly once, in some order.\<close>

definition lists_entries :: "'i list \<Rightarrow> ('k \<rightharpoonup> 'i) \<Rightarrow> bool" where
  "lists_entries xs m \<longleftrightarrow> (\<exists>ks. distinct ks \<and> set ks = dom m \<and> xs = map (\<lambda>k. the (m k)) ks)"

definition entries_where :: "('i \<Rightarrow> bool) \<Rightarrow> ('k \<rightharpoonup> 'i) \<Rightarrow> ('k \<rightharpoonup> 'i)" where
  "entries_where P m = (\<lambda>k. case m k of None \<Rightarrow> None | Some x \<Rightarrow> if P x then Some x else None)"

lemma entries_where_Some [simp]: "entries_where P m k = Some x \<longleftrightarrow> m k = Some x \<and> P x"
  by (auto simp: entries_where_def split: option.splits)

lemma entries_where_None: "entries_where P m k = None \<longleftrightarrow> (\<forall>x. m k = Some x \<longrightarrow> \<not> P x)"
  by (auto simp: entries_where_def split: option.splits)

lemma entries_where_twice [simp]:
  "entries_where P (entries_where Q m) = entries_where (\<lambda>x. P x \<and> Q x) m"
  by (auto simp: entries_where_def fun_eq_iff split: option.splits)

lemma entries_where_cong:
  "(\<And>x. x \<in> ran m \<Longrightarrow> P x = Q x) \<Longrightarrow> entries_where P m = entries_where Q m"
  by (auto simp: entries_where_def fun_eq_iff ranI split: option.splits)

lemma lists_entries_set: "lists_entries xs m \<Longrightarrow> set xs = ran m"
  by (force simp: lists_entries_def ran_def dom_def)

lemma lists_entries_filter:
  assumes "lists_entries xs m" shows "lists_entries (filter P xs) (entries_where P m)"
proof -
  obtain ks where ks: "distinct ks" "set ks = dom m" "xs = map (\<lambda>k. the (m k)) ks"
    using assms by (auto simp: lists_entries_def)
  let ?ks = "filter (\<lambda>k. P (the (m k))) ks"
  have "set ?ks = dom (entries_where P m)" using ks(2) by (auto simp: dom_def)
  moreover have "filter P xs = map (\<lambda>k. the (entries_where P m k)) ?ks"
    unfolding ks(3) filter_map o_def
    by (rule map_cong [OF refl]) (use ks(2) in \<open>auto simp: entries_where_def\<close>)
  ultimately show ?thesis unfolding lists_entries_def using ks(1) by (metis distinct_filter)
qed

lemma lists_entries_alist: "distinct (map fst kvs) \<Longrightarrow> lists_entries (map snd kvs) (map_of kvs)"
  unfolding lists_entries_def
  by (rule exI [where x = "map fst kvs"])
     (auto simp: dom_map_of_conv_image_fst comp_def intro!: map_cong)

section \<open>What readers of an indexer rely on\<close>

text \<open>
  An indexer shows the entries of a state. It finds each under its key, lists each once, and
  lists under a value of an index the entries the index function files there; an unknown index
  is an error.
\<close>

locale indexer =
  fixes ix :: "'s \<Rightarrow> 'o Indexer"
    and ok :: "'s \<Rightarrow> bool"
    and shown :: "'s \<Rightarrow> string \<rightharpoonup> 'o key_arg"
    and funcs :: "'s \<Rightarrow> string \<rightharpoonup> 'o key_arg IndexFunc"
  assumes list_all: "ok s \<Longrightarrow> lists_entries (ix_List (ix s)) (shown s)"
    and by_key: "ok s \<Longrightarrow> ix_GetByKey (ix s) key = found (shown s key)"
    and by_index: "ok s \<Longrightarrow> funcs s n = Some f
      \<Longrightarrow> \<exists>xs. ix_ByIndex (ix s) n v = Inr xs
            \<and> lists_entries xs (entries_where (\<lambda>x. v \<in> index_values f x) (shown s))"
    and filed: "ok s \<Longrightarrow> funcs s n = Some f \<Longrightarrow> x \<in> ran (shown s) \<Longrightarrow> \<exists>vs. f x = Inr vs"
    and by_no_index: "ok s \<Longrightarrow> funcs s n = None \<Longrightarrow> \<exists>e. ix_ByIndex (ix s) n v = Inl e"
begin

lemma set_List: "ok s \<Longrightarrow> set (ix_List (ix s)) = ran (shown s)"
  using list_all lists_entries_set by blast

lemma ByIndex_cases:
  assumes "ok s"
  obtains (unknown) e where "funcs s n = None" "ix_ByIndex (ix s) n v = Inl e"
    | (filed) f xs where "funcs s n = Some f" "ix_ByIndex (ix s) n v = Inr xs"
        "lists_entries xs (entries_where (\<lambda>x. v \<in> index_values f x) (shown s))"
  using by_index [OF assms] by_no_index [OF assms] by (cases "funcs s n") blast+

lemma ByIndex_subset: "ok s \<Longrightarrow> ix_ByIndex (ix s) n v = Inr xs \<Longrightarrow> set xs \<subseteq> ran (shown s)"
  by (rule ByIndex_cases [of s n v]) (auto dest!: lists_entries_set simp: ran_def)

end

lemma index_lists_entries:
  assumes "store_ok c" "map_of (indexers (index_of c)) n = Some f"
  shows "lists_entries (nilable (items_at c (index_keys (index_named (index_of c) n) v)))
           (entries_where (\<lambda>x. v \<in> index_values f x) (map_of (items c)))"
proof -
  let ?ks = "index_keys (index_named (index_of c) n) v"
    and ?m = "entries_where (\<lambda>x. v \<in> index_values f x) (map_of (items c))"
  have ok: "index_ok f (map_of (items c)) (index_named (index_of c) n)" by (rule store_okD(3) [OF assms])
  then have "distinct ?ks" by (simp add: index_ok_def distinct_index_keys)
  moreover have dom: "set ?ks = dom ?m" using ok by (auto simp: index_ok_def dom_def)
  moreover have "nilable (items_at c ?ks) = map (\<lambda>k. the (?m k)) ?ks"
    unfolding nilable_def items_at_def map_map o_def
  proof (rule map_cong [OF refl])
    fix k assume "k \<in> set ?ks"
    with dom obtain x where "?m k = Some x" by auto
    moreover from this have "map_of (items c) k = Some x" by simp
    ultimately show "(case map_of (items c) k of None \<Rightarrow> nil_any | Some ob \<Rightarrow> ob) = the (?m k)"
      by (simp add: entries_where_def)
  qed
  ultimately show ?thesis unfolding lists_entries_def by blast
qed

interpretation ci: indexer "cache_Indexer keyFunc" store_ok "\<lambda>c. map_of (items c)"
    "\<lambda>c. map_of (indexers (index_of c))"
  for keyFunc :: "'o KeyFunc"
proof
  fix c :: "'o cache" and key n v :: string and f x
  assume ok: "store_ok c"
  show "lists_entries (ix_List (cache_Indexer keyFunc c)) (map_of (items c))"
    using lists_entries_alist store_okD(1) [OF ok] by (simp add: cache_Indexer_def tsm_List_def)
  show "ix_GetByKey (cache_Indexer keyFunc c) key = found (map_of (items c) key)"
    by (simp add: cache_Indexer_def cache_GetByKey_def tsm_Get_def)
  show "\<exists>xs. ix_ByIndex (cache_Indexer keyFunc c) n v = Inr xs
          \<and> lists_entries xs (entries_where (\<lambda>x. v \<in> index_values f x) (map_of (items c)))"
    if "map_of (indexers (index_of c)) n = Some f"
    using index_lists_entries [OF ok that] that
    by (simp add: cache_Indexer_def cache_ByIndex_def tsm_ByIndex_def getKeysByIndex_def)
  show "\<exists>vs. f x = Inr vs"
    if "map_of (indexers (index_of c)) n = Some f" "x \<in> ran (map_of (items c))"
    using store_okD(3) [OF ok that(1)] that(2) by (auto simp: index_ok_def ran_def)
  show "\<exists>e. ix_ByIndex (cache_Indexer keyFunc c) n v = Inl e"
    if "map_of (indexers (index_of c)) n = None"
    using that by (simp add: cache_Indexer_def cache_ByIndex_def tsm_ByIndex_def getKeysByIndex_def)
qed


text \<open>C16. In every store that can be reached, a lookup in an index returns, each once, exactly the
  stored items that the index function files under the value: no index is ever stale.\<close>

theorem index_never_stale:
  assumes "store_reachable c" and "map_of (tsm_GetIndexers c) n = Some f"
  shows "\<exists>xs. cache_ByIndex c n v = Inr xs \<and>
           lists_entries xs (entries_where (\<lambda>x. v \<in> index_values f x) (tsm_Get c))"
  using ci.by_index [where n = n and f = f and v = v, OF store_reachable_ok [OF assms(1)]] assms(2)
  by (simp add: cache_Indexer_def tsm_GetIndexers_def tsm_Get_def [abs_def])

text \<open>Two objects filed by name, one deleted again.\<close>

definition by_first :: "string key_arg IndexFunc" where
  "by_first x = (case x of MetaObject n \<Rightarrow> Inr (Some [take 1 n]) | _ \<Rightarrow> Inl (Errorf ''no meta'' []))"

definition two_stored :: "string cache outcome" where
  "two_stored =
     (case tsm_Update ''k1'' (MetaObject ''aa'') (NewThreadSafeStore [(''first'', by_first)]) of
        Panic m \<Rightarrow> Panic m | Return c \<Rightarrow> tsm_Update ''k2'' (MetaObject ''ab'') c)"

lemmas store_eval =
  two_stored_def by_first_def NewThreadSafeStore_def tsm_Update_def updateIndices_def updateSingleIndex_def
  values_of_def index_named_def addKeyToIndex_def index_keys_def tsm_GetIndexers_def tsm_Get_def
  tsm_AddIndexers_def addIndexers_def

lemma two_stored_reachable: "\<exists>c. two_stored = Return c \<and> store_reachable c
  \<and> map_of (tsm_GetIndexers c) ''first'' = Some by_first
  \<and> tsm_Get c ''k1'' = Some (MetaObject ''aa'') \<and> tsm_Get c ''k2'' = Some (MetaObject ''ab'')"
proof -
  obtain c1 where c1: "tsm_Update ''k1'' (MetaObject ''aa'') (NewThreadSafeStore [(''first'', by_first)]) = Return c1"
      and i1: "indexers (index_of c1) = [(''first'', by_first)]" "items c1 = [(''k1'', MetaObject ''aa'')]"
    by (simp add: store_eval)
  have r1: "store_reachable c1" by (rule updated [OF created c1]) simp
  obtain c2 where c2: "tsm_Update ''k2'' (MetaObject ''ab'') c1 = Return c2"
    using c1 by (auto simp: store_eval)
  have "store_reachable c2" by (rule updated [OF r1 c2])
  moreover have "two_stored = Return c2" using c1 c2 by (simp add: two_stored_def)
  moreover note tsm_Update_ok(2,3) [OF store_reachable_ok [OF r1] c2]
  ultimately show ?thesis using i1
    by (intro exI [of _ c2]) (simp add: tsm_GetIndexers_def tsm_Get_def)
qed

theorem index_never_stale_witness:
  "\<exists>c xs. two_stored = Return c \<and> cache_ByIndex c ''first'' ''a'' = Inr xs
     \<and> lists_entries xs (entries_where (\<lambda>x. ''a'' \<in> index_values by_first x) (tsm_Get c))"
proof -
  obtain c where c: "two_stored = Return c" "store_reachable c"
      "map_of (tsm_GetIndexers c) ''first'' = Some by_first"
    using two_stored_reachable by blast
  from index_never_stale [OF c(2,3), of "''a''"] c(1) show ?thesis by blast
qed

end
