(* ===== verification/ApiTypes.thy ===== *)
theory ApiTypes imports MTPrelude ObjectTracker begin

text \<open>
  The typed API objects: \<open>ProviderConfig\<close> and \<open>Tenant\<close> of
  \<open>pkg/apis/providerconfig/v1_kubernetes_apis/providerconfig_types.go\<close> and
  \<open>pkg/apis/tenant/v1_kubernetes_apis/tenant_types.go\<close>, and the metadata they embed
  (\<open>TypeMeta\<close>, \<open>ListMeta\<close>, \<open>Condition\<close> and \<open>ObjectMeta\<close> of
  \<open>vendor/k8s.io/apimachinery/pkg/apis/meta/v1/types.go\<close>, with all their fields).

  The types are parametric in what a pointer, a slice or a map is: with values in their place
  (\<open>'a option\<close>, \<open>'a slice\<close>, maps) they are the objects themselves, with addresses they are the
  structs in memory that \<open>DeepCopy\<close> works on.
\<close>

section \<open>Metadata\<close>

record TypeMeta =
  tm_Kind :: string
  tm_APIVersion :: string

record ShardInfo =
  si_Selector :: string

text \<open>\<open>'n\<close>: pointer to an int64, \<open>'h\<close>: pointer to a shard info.\<close>

record ('n, 'h) ListMeta =
  lm_SelfLink :: string
  lm_ResourceVersion :: string
  lm_Continue :: string
  lm_RemainingItemCount :: 'n
  lm_ShardInfo :: 'h

type_synonym list_meta = "(int option, ShardInfo option) ListMeta"

record Condition =
  cond_Type :: string
  cond_Status :: string
  cond_ObservedGeneration :: int
  cond_LastTransitionTime :: int
  cond_Reason :: string
  cond_Message :: string

text \<open>\<open>'b\<close>: pointer to a bool.\<close>

record 'b OwnerReference =
  or_APIVersion :: string
  or_Kind :: string
  or_Name :: string
  or_UID :: string
  or_Controller :: 'b
  or_BlockOwnerDeletion :: 'b

text \<open>\<open>'y\<close>: slice of bytes (the build without the tag \<open>fieldsv1string\<close>).\<close>

record 'y FieldsV1 =
  fv_Raw :: 'y

text \<open>\<open>'t\<close>: pointer to a time, \<open>'v\<close>: pointer to fields.\<close>

record ('t, 'v) ManagedFieldsEntry =
  mf_Manager :: string
  mf_Operation :: string
  mf_APIVersion :: string
  mf_Time :: 't
  mf_FieldsType :: string
  mf_FieldsV1 :: 'v
  mf_Subresource :: string

text \<open>
  \<open>'t\<close>: pointer to a time, \<open>'g\<close>: pointer to an int64, \<open>'m\<close>: map of strings, \<open>'o\<close>: slice of owner
  references, \<open>'f\<close>: slice of strings, \<open>'e\<close>: slice of managed fields.
\<close>

record ('t, 'g, 'm, 'o, 'f, 'e) ObjectMeta =
  om_Name :: string
  om_GenerateName :: string
  om_Namespace :: string
  om_SelfLink :: string
  om_UID :: string
  om_ResourceVersion :: string
  om_Generation :: int
  om_CreationTimestamp :: int
  om_DeletionTimestamp :: 't
  om_DeletionGracePeriodSeconds :: 'g
  om_Labels :: 'm
  om_Annotations :: 'm
  om_OwnerReferences :: 'o
  om_Finalizers :: 'f
  om_ManagedFields :: 'e

type_synonym strmap = "(string, string) fmap"
type_synonym owner_reference = "bool option OwnerReference"
type_synonym fields_v1 = "char slice FieldsV1"
type_synonym managed_fields_entry = "(int option, fields_v1 option) ManagedFieldsEntry"
type_synonym object_meta =
  "(int option, int option, strmap option, owner_reference slice, string slice, managed_fields_entry slice) ObjectMeta"

text \<open>A nil map reads as an empty one.\<close>

definition om_GetLabels :: "object_meta \<Rightarrow> strmap" where
  "om_GetLabels m = (case om_Labels m of None \<Rightarrow> fmempty | Some ls \<Rightarrow> ls)"

definition om_accessor :: "object_meta accessor" where
  "om_accessor = \<lparr>acc_namespace = om_Namespace, acc_name = om_Name,
     acc_set_namespace = (\<lambda>m ns. m\<lparr>om_Namespace := ns\<rparr>)\<rparr>"

lemma om_accessor_simps [simp]:
  "acc_namespace om_accessor = om_Namespace" "acc_name om_accessor = om_Name"
  by (simp_all add: om_accessor_def)

section \<open>ProviderConfig\<close>

record Range =
  rg_CIDR :: string
  rg_IPv6CIDR :: string

record ProviderConfigSecondaryRange =
  sr_Name :: string
  sr_Range :: Range

text \<open>\<open>'r\<close>: pointer to a range, \<open>'p\<close>: slice of secondary ranges.\<close>

record ('r, 'p) ProviderConfigSubnetInfo =
  psi_Subnetwork :: string
  psi_CIDR :: string
  psi_NodeCIDRs :: 'r
  psi_PodRanges :: 'p

record ('r, 'p) ProviderNetworkConfig =
  pnc_Network :: string
  pnc_SubnetInfo :: "('r, 'p) ProviderConfigSubnetInfo"

record AuthConfig =
  ac_TokenURL :: string
  ac_TokenBody :: string

record PrincipalInfo =
  pi_ID :: string
  pi_Name :: string

text \<open>\<open>'a\<close>: pointer to an auth config, \<open>'i\<close>: pointer to a principal info.\<close>

record ('r, 'p, 'a, 'i) ProviderConfigSpec =
  ps_ProjectNumber :: "64 word"
  ps_ProjectID :: string
  ps_PSCConnectionID :: "64 word"
  ps_NetworkConfig :: "('r, 'p) ProviderNetworkConfig"
  ps_AuthConfig :: 'a
  ps_PrincipalInfo :: 'i

text \<open>\<open>'c\<close>: slice of conditions.\<close>

record 'c ProviderConfigStatus =
  pst_Conditions :: 'c

record ('t, 'g, 'm, 'o, 'f, 'e, 'r, 'p, 'a, 'i, 'c) ProviderConfig =
  pc_TypeMeta :: TypeMeta
  pc_ObjectMeta :: "('t, 'g, 'm, 'o, 'f, 'e) ObjectMeta"
  pc_Spec :: "('r, 'p, 'a, 'i) ProviderConfigSpec"
  pc_Status :: "'c ProviderConfigStatus"

type_synonym provider_config =
  "(int option, int option, strmap option, owner_reference slice, string slice, managed_fields_entry slice,
    Range option, ProviderConfigSecondaryRange slice, AuthConfig option, PrincipalInfo option, Condition slice) ProviderConfig"

text \<open>\<open>'n\<close> and \<open>'h\<close> as in \<open>ListMeta\<close>, \<open>'l\<close>: slice of objects.\<close>

record ('n, 'h, 'l) ProviderConfigList =
  pcl_TypeMeta :: TypeMeta
  pcl_ListMeta :: "('n, 'h) ListMeta"
  pcl_Items :: 'l

section \<open>Tenant\<close>

record SecondaryRange =
  tsr_Name :: string
  tsr_CIDR :: string

record 'p SubnetInfo =
  tsi_Subnetwork :: string
  tsi_CIDR :: string
  tsi_PodRanges :: 'p

record 'p NetworkConfig =
  tnc_Network :: string
  tnc_SubnetInfo :: "'p SubnetInfo"

record ('p, 'f) TenantSpec =
  ts_ProjectNumber :: "64 word"
  ts_ProjectID :: string
  ts_PSCConnectionID :: "64 word"
  ts_NetworkConfig :: "'p NetworkConfig"
  ts_UID :: string
  ts_EnableDataplaneOverGKFE :: bool
  ts_DNSAlias :: string
  ts_TenantCACerts :: 'f

record 'c TenantStatus =
  tst_Conditions :: 'c

record ('t, 'g, 'm, 'o, 'f, 'e, 'p, 'c) Tenant =
  tn_TypeMeta :: TypeMeta
  tn_ObjectMeta :: "('t, 'g, 'm, 'o, 'f, 'e) ObjectMeta"
  tn_Spec :: "('p, 'f) TenantSpec"
  tn_Status :: "'c TenantStatus"

type_synonym tenant =
  "(int option, int option, strmap option, owner_reference slice, string slice, managed_fields_entry slice,
    SecondaryRange slice, Condition slice) Tenant"

record ('n, 'h, 'l) TenantList =
  tnl_TypeMeta :: TypeMeta
  tnl_ListMeta :: "('n, 'h) ListMeta"
  tnl_Items :: 'l

end
