(* ===== verification/FilteredCache.thy ===== *)
theory FilteredCache imports MTPrelude ObjectKeys IndexStore ApiTypes begin

text \<open>
  The tenant's view of a shared store: \<open>pkg/filteredinformer/helpers.go\<close> and
  \<open>pkg/filteredinformer/filteredcache.go\<close>. \<open>labels\<close> is \<open>GetLabels\<close> of the objects' accessor. A
  \<open>providerConfigFilteredCache\<close> embeds an indexer, so the methods it does not override are those
  of the embedded one.

  The lemmas are proved once for any indexer that keeps the contract of \<open>IndexStore\<close>, and the
  view of a store indexed by the label keeps the contract again.
\<close>

section \<open>helpers.go\<close>

type_synonym 'o labels_of = "'o \<Rightarrow> (string, string) fmap"

definition providerConfigLabel :: string where
  "providerConfigLabel = ''tenancy.gke.io/provider-config''"

definition not_an_object :: go_error where
  "not_an_object = Errorf ''object does not implement the Object interfaces'' []"

text \<open>\<open>meta.Accessor\<close> takes objects with metadata and refuses every other value.\<close>

definition meta_Accessor :: "'o key_arg \<Rightarrow> go_error + 'o" where
  "meta_Accessor arg = (case arg of MetaObject ob \<Rightarrow> Inr ob | _ \<Rightarrow> Inl not_an_object)"

definition NewLabelIndexFunc :: "'o labels_of \<Rightarrow> string \<Rightarrow> 'o key_arg IndexFunc" where
  "NewLabelIndexFunc labels labelKey arg =
     (case meta_Accessor arg of
        Inl e \<Rightarrow> Inl (Wrapf ''object has no meta: %w'' [] e)
      | Inr metaObj \<Rightarrow>
          (case fmlookup (labels metaObj) labelKey of
             Some val \<Rightarrow> Inr (Some [val])
           | None \<Rightarrow> Inr None))"

definition MatchValue :: "string \<Rightarrow> bool \<Rightarrow> string \<Rightarrow> bool \<Rightarrow> bool" where
  "MatchValue val present expectedVal allowMissing = (if \<not> present then allowMissing else val = expectedVal)"

text \<open>A tombstone is judged by its last known object; one without an object has no metadata.\<close>

definition unpack_tombstone :: "'o key_arg \<Rightarrow> 'o key_arg" where
  "unpack_tombstone arg =
     (case arg of
        DeletedFinalStateUnknown key ob \<Rightarrow> (case ob of None \<Rightarrow> nil_any | Some ob \<Rightarrow> MetaObject ob)
      | _ \<Rightarrow> arg)"

definition isObjectMatchingValue ::
  "'o labels_of \<Rightarrow> 'o key_arg \<Rightarrow> string \<Rightarrow> string \<Rightarrow> bool \<Rightarrow> bool" where
  "isObjectMatchingValue labels arg filterKey filterValue allowMissing =
     (case meta_Accessor (unpack_tombstone arg) of
        Inl e \<Rightarrow> False
      | Inr metaObj \<Rightarrow>
          (case fmlookup (labels metaObj) filterKey of
             Some val \<Rightarrow> MatchValue val True filterValue allowMissing
           | None \<Rightarrow> MatchValue [] False filterValue allowMissing))"

fun getFilteredListByValue ::
  "'o labels_of \<Rightarrow> 'o key_arg list \<Rightarrow> string \<Rightarrow> string \<Rightarrow> bool \<Rightarrow> 'o key_arg list" where
  "getFilteredListByValue labels [] filterKey filterValue allowMissing = []"
| "getFilteredListByValue labels (item # rest) filterKey filterValue allowMissing =
     (if isObjectMatchingValue labels item filterKey filterValue allowMissing
      then item # getFilteredListByValue labels rest filterKey filterValue allowMissing
      else getFilteredListByValue labels rest filterKey filterValue allowMissing)"

section \<open>filteredcache.go\<close>

record 'o providerConfigFilteredCache =
  Indexer :: "'o Indexer"
  filterKey :: string
  filterValue :: string
  allowMissing :: bool

definition fc_ByIndex ::
  "'o labels_of \<Rightarrow> 'o providerConfigFilteredCache \<Rightarrow> string \<Rightarrow> string \<Rightarrow> go_error + 'o key_arg list" where
  "fc_ByIndex labels pc indexName indexedValue =
     (case ix_ByIndex (Indexer pc) indexName indexedValue of
        Inl e \<Rightarrow> Inl e
      | Inr objs \<Rightarrow> Inr (getFilteredListByValue labels objs (filterKey pc) (filterValue pc) (allowMissing pc)))"

definition fc_Index ::
  "'o labels_of \<Rightarrow> 'o providerConfigFilteredCache \<Rightarrow> string \<Rightarrow> 'o key_arg \<Rightarrow> go_error + 'o key_arg list" where
  "fc_Index labels pc indexName ob =
     (case ix_Index (Indexer pc) indexName ob of
        Inl e \<Rightarrow> Inl e
      | Inr objs \<Rightarrow> Inr (getFilteredListByValue labels objs (filterKey pc) (filterValue pc) (allowMissing pc)))"

definition fc_List :: "'o labels_of \<Rightarrow> 'o providerConfigFilteredCache \<Rightarrow> 'o key_arg list" where
  "fc_List labels pc =
     (case ix_ByIndex (Indexer pc) (filterKey pc) (filterValue pc) of
        Inr objs \<Rightarrow> objs
      | Inl e \<Rightarrow> getFilteredListByValue labels (ix_List (Indexer pc))
                   (filterKey pc) (filterValue pc) (allowMissing pc))"

fun keys_of_items :: "'o accessor \<Rightarrow> 'o key_arg list \<Rightarrow> string list" where
  "keys_of_items acc [] = []"
| "keys_of_items acc (item # rest) =
     (case MetaNamespaceKeyFunc acc item of
        Inr key \<Rightarrow> key # keys_of_items acc rest
      | Inl e \<Rightarrow> keys_of_items acc rest)"

definition fc_ListKeys :: "'o accessor \<Rightarrow> 'o labels_of \<Rightarrow> 'o providerConfigFilteredCache \<Rightarrow> string list" where
  "fc_ListKeys acc labels pc = keys_of_items acc (fc_List labels pc)"

definition fc_GetByKey ::
  "'o labels_of \<Rightarrow> 'o providerConfigFilteredCache \<Rightarrow> string \<Rightarrow> 'o key_arg \<times> bool \<times> error" where
  "fc_GetByKey labels pc key =
     (case ix_GetByKey (Indexer pc) key of
        (item, exists, err) \<Rightarrow>
          if \<not> exists \<or> err \<noteq> None then (nil_any, exists, err)
          else if isObjectMatchingValue labels item (filterKey pc) (filterValue pc) (allowMissing pc)
               then (item, True, None)
               else (nil_any, False, None))"

definition fc_Get ::
  "'o accessor \<Rightarrow> 'o labels_of \<Rightarrow> 'o providerConfigFilteredCache \<Rightarrow> 'o key_arg \<Rightarrow> 'o key_arg \<times> bool \<times> error" where
  "fc_Get acc labels pc ob =
     (case MetaNamespaceKeyFunc acc ob of
        Inl e \<Rightarrow> (nil_any, False, Some e)
      | Inr key \<Rightarrow> fc_GetByKey labels pc key)"

text \<open>The method set: the overridden methods, and the promoted ones of the embedded indexer.\<close>

definition fc_Indexer :: "'o accessor \<Rightarrow> 'o labels_of \<Rightarrow> 'o providerConfigFilteredCache \<Rightarrow> 'o Indexer" where
  "fc_Indexer acc labels pc = (Indexer pc)
     \<lparr>ix_ByIndex := fc_ByIndex labels pc, ix_Index := fc_Index labels pc,
      ix_List := fc_List labels pc, ix_ListKeys := fc_ListKeys acc labels pc,
      ix_Get := fc_Get acc labels pc, ix_GetByKey := fc_GetByKey labels pc\<rparr>"

lemmas fc_defs = fc_ByIndex_def fc_Index_def fc_List_def fc_ListKeys_def fc_GetByKey_def fc_Get_def

section \<open>Matching\<close>

text \<open>What a tenant may see of a map of entries.\<close>

definition visible ::
  "'o labels_of \<Rightarrow> string \<Rightarrow> string \<Rightarrow> bool \<Rightarrow> (string \<rightharpoonup> 'o key_arg) \<Rightarrow> (string \<rightharpoonup> 'o key_arg)" where
  "visible labels fkey val missing = entries_where (\<lambda>x. isObjectMatchingValue labels x fkey val missing)"

lemma getFilteredListByValue_filter:
  "getFilteredListByValue labels xs fkey val missing
   = filter (\<lambda>x. isObjectMatchingValue labels x fkey val missing) xs"
  by (induction xs) simp_all

lemma matching_MetaObject [simp]:
  "isObjectMatchingValue labels (MetaObject ob) fkey val missing
   = (case fmlookup (labels ob) fkey of None \<Rightarrow> missing | Some v \<Rightarrow> v = val)"
  by (simp add: isObjectMatchingValue_def unpack_tombstone_def meta_Accessor_def MatchValue_def split: option.splits)

lemma label_index_Inr: "NewLabelIndexFunc labels fkey x = Inr vs \<Longrightarrow> \<exists>ob. x = MetaObject ob"
  by (cases x) (simp_all add: NewLabelIndexFunc_def meta_Accessor_def)

text \<open>The label index files an object under a value exactly when it matches it strictly.\<close>

lemma label_index_values:
  "NewLabelIndexFunc labels fkey x = Inr vs
   \<Longrightarrow> v \<in> index_values (NewLabelIndexFunc labels fkey) x \<longleftrightarrow> isObjectMatchingValue labels x fkey v False"
  by (frule label_index_Inr)
     (auto simp: index_values_def NewLabelIndexFunc_def meta_Accessor_def split: option.splits)

lemma matching_missing: "isObjectMatchingValue labels x fkey v False \<Longrightarrow> isObjectMatchingValue labels x fkey v missing"
  by (auto simp: isObjectMatchingValue_def MatchValue_def split: sum.splits option.splits)

section \<open>The filtered view of an indexer\<close>

context indexer
begin

abbreviation pc :: "'s \<Rightarrow> string \<Rightarrow> string \<Rightarrow> bool \<Rightarrow> 'o providerConfigFilteredCache" where
  "pc s fkey val missing \<equiv>
     \<lparr>Indexer = ix s, filterKey = fkey, filterValue = val, allowMissing = missing\<rparr>"

lemma filtered_GetByKey:
  "ok s \<Longrightarrow> fc_GetByKey labels (pc s fkey val missing) key = found (visible labels fkey val missing (shown s) key)"
  by (simp add: fc_GetByKey_def by_key found_def visible_def entries_where_def split: option.splits)

lemma filtered_ByIndex:
  assumes "ok s" "funcs s n = Some f"
  shows "\<exists>xs. fc_ByIndex labels (pc s fkey val missing) n v = Inr xs
           \<and> lists_entries xs (entries_where (\<lambda>x. v \<in> index_values f x) (visible labels fkey val missing (shown s)))"
proof -
  let ?P = "\<lambda>x. isObjectMatchingValue labels x fkey val missing" and ?Q = "\<lambda>x. v \<in> index_values f x"
  obtain xs where xs: "ix_ByIndex (ix s) n v = Inr xs" "lists_entries xs (entries_where ?Q (shown s))"
    using by_index [OF assms, of v] by blast
  have "entries_where ?P (entries_where ?Q (shown s)) = entries_where ?Q (visible labels fkey val missing (shown s))"
    unfolding visible_def entries_where_twice by (rule entries_where_cong) blast
  with lists_entries_filter [OF xs(2), of ?P] xs(1) show ?thesis
    by (simp add: fc_ByIndex_def getFilteredListByValue_filter)
qed

lemma filtered_List_no_index:
  assumes "ok s" "funcs s fkey = None"
  shows "lists_entries (fc_List labels (pc s fkey val missing)) (visible labels fkey val missing (shown s))"
  using by_no_index [OF assms, of val] lists_entries_filter [OF list_all [OF assms(1)]]
  by (auto simp: fc_List_def getFilteredListByValue_filter visible_def)

text \<open>With the label's index, the list is that of the strict filter, whatever \<open>allowMissing\<close> is.\<close>

lemma filtered_List_index:
  assumes "ok s" "funcs s fkey = Some (NewLabelIndexFunc labels fkey)"
  shows "lists_entries (fc_List labels (pc s fkey val missing)) (visible labels fkey val False (shown s))"
proof -
  have "entries_where (\<lambda>x. val \<in> index_values (NewLabelIndexFunc labels fkey) x) (shown s)
        = visible labels fkey val False (shown s)"
    unfolding visible_def using filed [OF assms] label_index_values by (intro entries_where_cong) blast
  with by_index [OF assms, of val] show ?thesis by (auto simp: fc_List_def)
qed

text \<open>Nothing a read method returns is outside the view.\<close>

lemma filtered_isolated:
  assumes "ok s" "funcs s fkey = None \<or> funcs s fkey = Some (NewLabelIndexFunc labels fkey)"
  shows "set (fc_List labels (pc s fkey val missing)) \<subseteq> ran (visible labels fkey val missing (shown s))"
    and "fc_GetByKey labels (pc s fkey val missing) key = (item, True, err)
         \<Longrightarrow> item \<in> ran (visible labels fkey val missing (shown s))"
    and "fc_ByIndex labels (pc s fkey val missing) n v = Inr xs
         \<Longrightarrow> set xs \<subseteq> ran (visible labels fkey val missing (shown s))"
proof -
  have sub: "ran (visible labels fkey val False m) \<subseteq> ran (visible labels fkey val missing m)"
    for m :: "string \<rightharpoonup> 'o key_arg"
    unfolding visible_def ran_def using matching_missing by fastforce
  show "set (fc_List labels (pc s fkey val missing)) \<subseteq> ran (visible labels fkey val missing (shown s))"
    using assms(2) lists_entries_set [OF filtered_List_no_index [OF assms(1)]]
      lists_entries_set [OF filtered_List_index [OF assms(1)]] sub by blast
  show "item \<in> ran (visible labels fkey val missing (shown s))"
    if "fc_GetByKey labels (pc s fkey val missing) key = (item, True, err)"
    using that by (auto simp: filtered_GetByKey [OF assms(1)] found_def ran_def split: option.splits)
  show "set xs \<subseteq> ran (visible labels fkey val missing (shown s))"
    if "fc_ByIndex labels (pc s fkey val missing) n v = Inr xs"
  proof (cases "funcs s n")
    case None
    with that by_no_index [OF assms(1), of n v] show ?thesis by (auto simp: fc_ByIndex_def)
  next
    case (Some f)
    from filtered_ByIndex [OF assms(1) this, of labels fkey val missing v] that
    show ?thesis by (auto dest!: lists_entries_set simp: ran_def)
  qed
qed

end

text \<open>Over an indexer with the label's index, the strict view is an indexer of the visible entries.\<close>

locale label_indexer = indexer ix ok shown funcs
  for ix :: "'s \<Rightarrow> 'o Indexer" and ok shown funcs +
  fixes acc :: "'o accessor" and labels :: "'o labels_of" and fkey val :: string
  assumes label_index: "ok s \<Longrightarrow> funcs s fkey = Some (NewLabelIndexFunc labels fkey)"

sublocale label_indexer \<subseteq> tenant: indexer "\<lambda>s. fc_Indexer acc labels (pc s fkey val False)" ok
    "\<lambda>s. visible labels fkey val False (shown s)" funcs
proof
  fix s key n v f x
  assume s: "ok s"
  show "lists_entries (ix_List (fc_Indexer acc labels (pc s fkey val False))) (visible labels fkey val False (shown s))"
    using filtered_List_index [OF s label_index [OF s]] by (simp add: fc_Indexer_def)
  show "ix_GetByKey (fc_Indexer acc labels (pc s fkey val False)) key
        = found (visible labels fkey val False (shown s) key)"
    using filtered_GetByKey [OF s] by (simp add: fc_Indexer_def)
  show "\<exists>xs. ix_ByIndex (fc_Indexer acc labels (pc s fkey val False)) n v = Inr xs
          \<and> lists_entries xs (entries_where (\<lambda>x. v \<in> index_values f x) (visible labels fkey val False (shown s)))"
    if "funcs s n = Some f"
    using filtered_ByIndex [OF s that] by (simp add: fc_Indexer_def)
  show "\<exists>vs. f x = Inr vs" if "funcs s n = Some f" "x \<in> ran (visible labels fkey val False (shown s))"
    using filed [OF s that(1), of x] that(2) by (auto simp: visible_def ran_def)
  show "\<exists>e. ix_ByIndex (fc_Indexer acc labels (pc s fkey val False)) n v = Inl e" if "funcs s n = None"
    using by_no_index [OF s that, of v] by (auto simp: fc_Indexer_def fc_ByIndex_def)
qed

section \<open>The view of the informer's store\<close>

definition tenant_cache ::
  "'o KeyFunc \<Rightarrow> 'o cache \<Rightarrow> string \<Rightarrow> string \<Rightarrow> bool \<Rightarrow> 'o providerConfigFilteredCache" where
  "tenant_cache keyFunc c fkey val missing =
     \<lparr>Indexer = cache_Indexer keyFunc c, filterKey = fkey, filterValue = val, allowMissing = missing\<rparr>"

definition label_indexed :: "'o labels_of \<Rightarrow> string \<Rightarrow> 'o cache \<Rightarrow> bool" where
  "label_indexed labels fkey c \<longleftrightarrow>
     store_reachable c \<and> map_of (tsm_GetIndexers c) fkey = Some (NewLabelIndexFunc labels fkey)"

definition label_unindexed :: "string \<Rightarrow> 'o cache \<Rightarrow> bool" where
  "label_unindexed fkey c \<longleftrightarrow> store_reachable c \<and> map_of (tsm_GetIndexers c) fkey = None"

interpretation cl: label_indexer "cache_Indexer keyFunc" "label_indexed labels fkey" tsm_Get
    "\<lambda>c. map_of (tsm_GetIndexers c)" acc labels fkey val
  for keyFunc :: "'o KeyFunc" and acc labels fkey val
proof
  fix c :: "'o cache" and key n v :: string and f x
  assume "label_indexed labels fkey c"
  then have ok: "store_ok c" by (simp add: label_indexed_def store_reachable_ok)
  note defs = tsm_Get_def [abs_def] tsm_GetIndexers_def
  show "lists_entries (ix_List (cache_Indexer keyFunc c)) (tsm_Get c)"
    unfolding defs by (rule ci.list_all [OF ok])
  show "ix_GetByKey (cache_Indexer keyFunc c) key = found (tsm_Get c key)"
    unfolding defs by (rule ci.by_key [OF ok])
  show "\<exists>xs. ix_ByIndex (cache_Indexer keyFunc c) n v = Inr xs
          \<and> lists_entries xs (entries_where (\<lambda>x. v \<in> index_values f x) (tsm_Get c))"
    if "map_of (tsm_GetIndexers c) n = Some f"
    using that unfolding defs by (rule ci.by_index [OF ok])
  show "\<exists>vs. f x = Inr vs" if "map_of (tsm_GetIndexers c) n = Some f" "x \<in> ran (tsm_Get c)"
    using that unfolding defs by (rule ci.filed [OF ok])
  show "\<exists>e. ix_ByIndex (cache_Indexer keyFunc c) n v = Inl e" if "map_of (tsm_GetIndexers c) n = None"
    using that unfolding defs by (rule ci.by_no_index [OF ok])
qed (simp add: label_indexed_def)


lemma tenant_cache_fields [simp]:
  "Indexer (tenant_cache keyFunc c fkey val missing) = cache_Indexer keyFunc c"
  "filterKey (tenant_cache keyFunc c fkey val missing) = fkey"
  "filterValue (tenant_cache keyFunc c fkey val missing) = val"
  "allowMissing (tenant_cache keyFunc c fkey val missing) = missing"
  by (simp_all add: tenant_cache_def)

lemma store_reads: "tsm_Get c = map_of (items c)" "tsm_GetIndexers c = indexers (index_of c)"
  by (simp_all add: tsm_Get_def [abs_def] tsm_GetIndexers_def)

lemma unindexed_reads:
  assumes "label_unindexed fkey c"
  shows "lists_entries (fc_List labels (tenant_cache keyFunc c fkey val missing))
           (visible labels fkey val missing (tsm_Get c))"
    and "fc_GetByKey labels (tenant_cache keyFunc c fkey val missing) key
         = found (visible labels fkey val missing (tsm_Get c) key)"
proof -
  have ok: "store_ok c" and none: "map_of (indexers (index_of c)) fkey = None"
    using assms by (simp_all add: label_unindexed_def store_reachable_ok store_reads)
  show "lists_entries (fc_List labels (tenant_cache keyFunc c fkey val missing))
          (visible labels fkey val missing (tsm_Get c))"
    unfolding tenant_cache_def store_reads by (rule ci.filtered_List_no_index [OF ok none])
  show "fc_GetByKey labels (tenant_cache keyFunc c fkey val missing) key
        = found (visible labels fkey val missing (tsm_Get c) key)"
    unfolding tenant_cache_def store_reads by (rule ci.filtered_GetByKey [OF ok])
qed

lemma indexed_reads:
  assumes "label_indexed labels fkey c"
  shows "lists_entries (fc_List labels (tenant_cache keyFunc c fkey val missing))
           (visible labels fkey val False (tsm_Get c))"
    and "fc_GetByKey labels (tenant_cache keyFunc c fkey val missing) key
         = found (visible labels fkey val missing (tsm_Get c) key)"
  unfolding tenant_cache_def
  by (rule cl.filtered_List_index [OF assms cl.label_index [OF assms]])
     (rule cl.filtered_GetByKey [OF assms])

text \<open>A store that holds given labelled objects.\<close>

lemma label_index_total [simp]: "\<exists>vs. NewLabelIndexFunc labels fkey (MetaObject ob) = Inr vs"
  by (simp add: NewLabelIndexFunc_def meta_Accessor_def split: option.splits)

lemma labelled_store:
  "\<exists>c. store_reachable c \<and> tsm_GetIndexers c = [(fkey, NewLabelIndexFunc labels fkey)]
     \<and> tsm_Get c = map_of (map (\<lambda>(k, ob). (k, MetaObject ob)) kobs)"
proof (induction kobs)
  case Nil
  have "store_reachable (NewThreadSafeStore [(fkey, NewLabelIndexFunc labels fkey)])"
    by (rule created) simp
  then show ?case
    by (intro exI [of _ "NewThreadSafeStore [(fkey, NewLabelIndexFunc labels fkey)]"])
       (simp add: store_reads NewThreadSafeStore_def)
next
  case (Cons kob kobs)
  obtain k ob where kob: "kob = (k, ob)" by (cases kob)
  from Cons obtain c where c: "store_reachable c" "tsm_GetIndexers c = [(fkey, NewLabelIndexFunc labels fkey)]"
      "tsm_Get c = map_of (map (\<lambda>(k, ob). (k, MetaObject ob)) kobs)" by blast
  have ok: "store_ok c" using c(1) by (rule store_reachable_ok)
  have "\<exists>c'. tsm_Update k (MetaObject ob) c = Return c'"
    by (rule tsm_Update_returns [OF ok]) (use c(2) in \<open>auto simp: store_reads split: if_splits\<close>)
  then obtain c' where c': "tsm_Update k (MetaObject ob) c = Return c'" ..
  have "store_reachable c'" by (rule updated [OF c(1) c'])
  with tsm_Update_ok(2,3) [OF ok c'] c(2,3) show ?case
    by (intro exI [of _ c']) (simp add: store_reads kob)
qed

section \<open>Isolation and completeness\<close>

lemma ran_visible:
  "x \<in> ran (visible labels fkey val missing m) \<longleftrightarrow> x \<in> ran m \<and> isObjectMatchingValue labels x fkey val missing"
proof -
  have "visible labels fkey val missing m k = Some x \<longleftrightarrow>
      m k = Some x \<and> isObjectMatchingValue labels x fkey val missing" for k
    by (auto simp: visible_def entries_where_def split: option.split)
  then show ?thesis by (auto simp: ran_def)
qed

lemma fold_insert_set: "set (fold (\<lambda>v. fold List.insert (f v)) vs acc) = set acc \<union> (\<Union>v\<in>set vs. set (f v))"
  by (induction vs arbitrary: acc) (auto simp: union_set_fold [symmetric] simp flip: List.union_def)

text \<open>\<open>Index\<close> collects the keys its index has under the values of an object.\<close>

lemma index_keys_found:
  assumes "getKeysFromIndex n ob i = Inr ks" and "k \<in> set ks"
  shows "\<exists>f v. map_of (indexers i) n = Some f \<and> k \<in> set (index_keys (index_named i n) v)"
  using assms by (auto simp: getKeysFromIndex_def Let_def fold_insert_set split: option.splits sum.splits if_splits)

lemma cache_Index_stored:
  assumes ok: "store_ok c" and run: "cache_Index c n ob = Inr xs"
  shows "set xs \<subseteq> ran (map_of (items c))"
proof
  fix x assume "x \<in> set xs"
  with run obtain ks k where ks: "getKeysFromIndex n ob (index_of c) = Inr ks" "k \<in> set ks"
    and x: "x = (case map_of (items c) k of None \<Rightarrow> nil_any | Some y \<Rightarrow> y)"
    by (cases "getKeysFromIndex n ob (index_of c)") (auto simp: cache_Index_def tsm_Index_def items_at_def nilable_def)
  from index_keys_found [OF ks] obtain f v where f: "map_of (indexers (index_of c)) n = Some f"
    and v: "k \<in> set (index_keys (index_named (index_of c) n) v)" by blast
  from store_okD(3) [OF ok f] v obtain y where "map_of (items c) k = Some y" by (auto simp: index_ok_def)
  with x show "x \<in> ran (map_of (items c))" by (auto simp: ran_def)
qed

lemma keys_of_items_from: "key \<in> set (keys_of_items acc xs) \<Longrightarrow> \<exists>x\<in>set xs. MetaNamespaceKeyFunc acc x = Inr key"
  by (induction xs) (auto split: sum.splits)

text \<open>C9. Isolation. Over a store with or without the label's index, each of the six methods the
  tenant's cache overrides stays within the stored objects that match the tenant's filter: \<open>List\<close>,
  \<open>ByIndex\<close>, \<open>Index\<close>, \<open>GetByKey\<close> and \<open>Get\<close> return only such objects, and \<open>ListKeys\<close> only keys of such
  objects. The promoted \<open>IndexKeys\<close> and \<open>ListIndexFuncValues\<close> are not filtered and not covered: they
  answer for the whole store (theorem \<open>index_keys_leak\<close>).\<close>

theorem tenant_isolation:
  assumes "label_indexed labels fkey c \<or> label_unindexed fkey c"
  shows "let fc = tenant_cache keyFunc c fkey val missing;
             allowed = ran (visible labels fkey val missing (tsm_Get c))
         in set (fc_List labels fc) \<subseteq> allowed
          \<and> (\<forall>key\<in>set (fc_ListKeys acc labels fc). \<exists>x\<in>allowed. MetaNamespaceKeyFunc acc x = Inr key)
          \<and> (\<forall>n v xs. fc_ByIndex labels fc n v = Inr xs \<longrightarrow> set xs \<subseteq> allowed)
          \<and> (\<forall>n ob xs. fc_Index labels fc n ob = Inr xs \<longrightarrow> set xs \<subseteq> allowed)
          \<and> (\<forall>key item err. fc_GetByKey labels fc key = (item, True, err) \<longrightarrow> item \<in> allowed)
          \<and> (\<forall>ob item err. fc_Get acc labels fc ob = (item, True, err) \<longrightarrow> item \<in> allowed)"
proof -
  let ?fc = "tenant_cache keyFunc c fkey val missing"
  let ?allowed = "ran (visible labels fkey val missing (tsm_Get c))"
  have ok: "store_ok c" and idx: "map_of (indexers (index_of c)) fkey = None
      \<or> map_of (indexers (index_of c)) fkey = Some (NewLabelIndexFunc labels fkey)"
    using assms(1) by (auto simp: label_indexed_def label_unindexed_def store_reachable_ok store_reads)
  note iso = ci.filtered_isolated [where labels = labels and fkey = fkey and val = val and missing = missing
      and keyFunc = keyFunc, OF ok idx, folded tenant_cache_def store_reads]
  have "set xs \<subseteq> ?allowed" if index: "fc_Index labels ?fc n ob = Inr xs" for n ob xs
  proof -
    obtain ys where ys: "cache_Index c n ob = Inr ys"
      "xs = filter (\<lambda>x. isObjectMatchingValue labels x fkey val missing) ys"
      using index by (auto simp: fc_Index_def getFilteredListByValue_filter cache_Indexer_def split: sum.splits)
    with cache_Index_stored [OF ok ys(1)] show ?thesis by (auto simp: ran_visible store_reads)
  qed
  moreover have "\<exists>x\<in>?allowed. MetaNamespaceKeyFunc acc x = Inr key" if "key \<in> set (fc_ListKeys acc labels ?fc)" for key
    using that iso(1) keys_of_items_from by (fastforce simp: fc_ListKeys_def)
  moreover have "item \<in> ?allowed" if "fc_Get acc labels ?fc ob = (item, True, err)" for ob item err
    using that iso(2) by (auto simp: fc_Get_def split: sum.splits)
  ultimately show ?thesis using iso unfolding Let_def by blast
qed

text \<open>Two tenants' nodes and one without a label.\<close>

definition node :: "string \<Rightarrow> strmap \<Rightarrow> object_meta" where
  "node name labels = \<lparr>om_Name = name, om_GenerateName = [], om_Namespace = [], om_SelfLink = [], om_UID = [],
     om_ResourceVersion = [], om_Generation = 0, om_CreationTimestamp = 0, om_DeletionTimestamp = None,
     om_DeletionGracePeriodSeconds = None, om_Labels = Some labels, om_Annotations = None, om_OwnerReferences = None,
     om_Finalizers = None, om_ManagedFields = None\<rparr>"

definition tenant_label :: "string \<Rightarrow> strmap" where
  "tenant_label v = fmupd providerConfigLabel v fmempty"

lemma node_labels [simp]:
  "om_GetLabels (node n ls) = ls" "om_Name (node n ls) = n" "om_Namespace (node n ls) = []"
  "fmlookup (tenant_label v) providerConfigLabel = Some v"
  by (simp_all add: node_def om_GetLabels_def tenant_label_def)

definition demo_nodes :: "(string \<times> object_meta) list" where
  "demo_nodes = [(''n1'', node ''n1'' (tenant_label ''t1'')), (''n2'', node ''n2'' (tenant_label ''t2'')),
     (''n3'', node ''n3'' fmempty)]"

lemma demo_store:
  obtains c where "label_indexed om_GetLabels providerConfigLabel c"
    "tsm_Get c ''n1'' = Some (MetaObject (node ''n1'' (tenant_label ''t1'')))"
    "tsm_Get c ''n2'' = Some (MetaObject (node ''n2'' (tenant_label ''t2'')))"
    "tsm_Get c ''n3'' = Some (MetaObject (node ''n3'' fmempty))"
    "dom (tsm_Get c) = {''n1'', ''n2'', ''n3''}"
proof -
  obtain c where c: "store_reachable c"
      "tsm_GetIndexers c = [(providerConfigLabel, NewLabelIndexFunc om_GetLabels providerConfigLabel)]"
      "tsm_Get c = map_of (map (\<lambda>(k, ob). (k, MetaObject ob)) demo_nodes)"
    using labelled_store by blast
  show thesis
    by (rule that [of c]) (use c in \<open>auto simp: label_indexed_def demo_nodes_def\<close>)
qed

theorem tenant_isolation_witness:
  "\<exists>c. label_indexed om_GetLabels providerConfigLabel c \<and> tsm_Get c ''n2'' \<noteq> None
     \<and> (\<forall>key item err. fc_GetByKey om_GetLabels
           (tenant_cache (MetaNamespaceKeyFunc om_accessor) c providerConfigLabel ''t1'' False) key = (item, True, err)
         \<longrightarrow> item \<in> ran (visible om_GetLabels providerConfigLabel ''t1'' False (tsm_Get c)))"
proof -
  obtain c where c: "label_indexed om_GetLabels providerConfigLabel c"
      "tsm_Get c ''n2'' = Some (MetaObject (node ''n2'' (tenant_label ''t2'')))"
    by (rule demo_store)
  have "label_indexed om_GetLabels providerConfigLabel c \<or> label_unindexed providerConfigLabel c"
    using c(1) by simp
  note tenant_isolation [OF this, of "MetaNamespaceKeyFunc om_accessor" "''t1''" False om_accessor]
  then show ?thesis using c by (intro exI [of _ c]) (simp add: Let_def)
qed


text \<open>C10. Completeness: a strict tenant's cache lists every visible object once and finds it by its
  key, through the label's index or without it; a lenient one does without the index.\<close>

theorem tenant_view_complete:
  assumes "label_unindexed fkey c \<or> label_indexed labels fkey c \<and> \<not> missing"
  shows "lists_entries (fc_List labels (tenant_cache keyFunc c fkey val missing))
           (visible labels fkey val missing (tsm_Get c))
    \<and> (\<forall>key. fc_GetByKey labels (tenant_cache keyFunc c fkey val missing) key
             = found (visible labels fkey val missing (tsm_Get c) key))"
  using assms unindexed_reads indexed_reads by (cases missing) auto

theorem tenant_view_complete_witness:
  "\<exists>c. lists_entries (fc_List om_GetLabels
           (tenant_cache (MetaNamespaceKeyFunc om_accessor) c providerConfigLabel ''t1'' False))
         [''n1'' \<mapsto> MetaObject (node ''n1'' (tenant_label ''t1''))]"
proof -
  obtain c where c: "label_indexed om_GetLabels providerConfigLabel c"
    "tsm_Get c ''n1'' = Some (MetaObject (node ''n1'' (tenant_label ''t1'')))"
    "tsm_Get c ''n2'' = Some (MetaObject (node ''n2'' (tenant_label ''t2'')))"
    "tsm_Get c ''n3'' = Some (MetaObject (node ''n3'' fmempty))" "dom (tsm_Get c) = {''n1'', ''n2'', ''n3''}"
    by (rule demo_store)
  have none: "tsm_Get c k = None" if "k \<noteq> ''n1''" "k \<noteq> ''n2''" "k \<noteq> ''n3''" for k
    using c(5) that by (metis domIff insertE singletonD)
  have "visible om_GetLabels providerConfigLabel ''t1'' False (tsm_Get c)
        = [''n1'' \<mapsto> MetaObject (node ''n1'' (tenant_label ''t1''))]" (is "?v = ?m")
  proof
    fix k show "?v k = ?m k"
      using c none [of k]
      by (cases "k = ''n1''"; cases "k = ''n2''"; cases "k = ''n3''") (simp_all add: visible_def entries_where_def)
  qed
  moreover have "label_unindexed providerConfigLabel c
      \<or> label_indexed om_GetLabels providerConfigLabel c \<and> \<not> False" using c(1) by simp
  note tenant_view_complete [OF this, of "MetaNamespaceKeyFunc om_accessor" "''t1''"]
  ultimately show ?thesis by auto
qed

text \<open>A lenient tenant (\<open>allowMissing\<close>) over a store with the label's index gets an object
  without the label by its key, but never in its list: the list comes from the index.\<close>

theorem list_ignores_allowMissing:
  assumes "label_indexed labels fkey c" and "tsm_Get c key = Some (MetaObject ob)"
    and "fmlookup (labels ob) fkey = None"
  shows "fc_GetByKey labels (tenant_cache keyFunc c fkey val True) key = (MetaObject ob, True, None)
    \<and> MetaObject ob \<notin> set (fc_List labels (tenant_cache keyFunc c fkey val True))"
proof -
  have "MetaObject ob \<notin> ran (visible labels fkey val False (tsm_Get c))"
    using assms(3) by (auto simp: visible_def ran_def)
  with lists_entries_set [OF indexed_reads(1) [OF assms(1)]]
  have "MetaObject ob \<notin> set (fc_List labels (tenant_cache keyFunc c fkey val True))" by metis
  then show ?thesis
    using assms(2,3) by (simp add: indexed_reads(2) [OF assms(1)] found_def visible_def entries_where_def)
qed

theorem list_ignores_allowMissing_witness:
  "\<exists>c. tsm_Get c ''n3'' = Some (MetaObject (node ''n3'' fmempty))
     \<and> MetaObject (node ''n3'' fmempty) \<notin> set (fc_List om_GetLabels
           (tenant_cache (MetaNamespaceKeyFunc om_accessor) c providerConfigLabel ''t1'' True))"
proof -
  obtain c where c: "label_indexed om_GetLabels providerConfigLabel c"
      "tsm_Get c ''n3'' = Some (MetaObject (node ''n3'' fmempty))"
    by (rule demo_store)
  have "fmlookup (om_GetLabels (node ''n3'' fmempty)) providerConfigLabel = None" by simp
  from list_ignores_allowMissing [OF c this, of "MetaNamespaceKeyFunc om_accessor" "''t1''"] c(2)
  show ?thesis by blast
qed

text \<open>The promoted \<open>IndexKeys\<close> is not filtered: through the tenant's indexer it returns the keys
  of another tenant's objects, which the tenant's \<open>GetByKey\<close> hides.\<close>

theorem index_keys_leak:
  assumes "label_indexed labels fkey c" and "tsm_Get c key = Some (MetaObject ob)"
    and "fmlookup (labels ob) fkey = Some other" and "other \<noteq> val"
  shows "\<exists>ks. ix_IndexKeys (fc_Indexer acc labels (tenant_cache keyFunc c fkey val missing)) fkey other = Inr ks
              \<and> key \<in> set ks
              \<and> fc_GetByKey labels (tenant_cache keyFunc c fkey val missing) key = (nil_any, False, None)"
proof -
  have ok: "store_ok c" using assms(1) by (simp add: label_indexed_def store_reachable_ok)
  have idx: "map_of (indexers (index_of c)) fkey = Some (NewLabelIndexFunc labels fkey)"
    using assms(1) by (simp add: label_indexed_def store_reads)
  have "other \<in> index_values (NewLabelIndexFunc labels fkey) (MetaObject ob)"
    using assms(3) by (simp add: index_values_def NewLabelIndexFunc_def meta_Accessor_def)
  with store_okD(3) [OF ok idx] assms(2)
  have "key \<in> set (index_keys (index_named (index_of c) fkey) other)"
    unfolding index_ok_def store_reads by blast
  then show ?thesis
    using assms(2-4) idx indexed_reads(2) [OF assms(1), of keyFunc val missing key]
    by (simp add: fc_Indexer_def cache_Indexer_def tsm_IndexKeys_def getKeysByIndex_def found_def
        visible_def entries_where_def)
qed

theorem index_keys_leak_witness:
  "\<exists>c ks. ix_IndexKeys (fc_Indexer om_accessor om_GetLabels
         (tenant_cache (MetaNamespaceKeyFunc om_accessor) c providerConfigLabel ''t1'' False))
         providerConfigLabel ''t2'' = Inr ks \<and> ''n2'' \<in> set ks"
proof -
  obtain c where c: "label_indexed om_GetLabels providerConfigLabel c"
      "tsm_Get c ''n2'' = Some (MetaObject (node ''n2'' (tenant_label ''t2'')))"
    by (rule demo_store)
  have "fmlookup (om_GetLabels (node ''n2'' (tenant_label ''t2''))) providerConfigLabel = Some ''t2''"
    by simp
  from index_keys_leak [OF c this, of "''t1''" om_accessor "MetaNamespaceKeyFunc om_accessor" False]
  show ?thesis by auto
qed

end
