(* ===== verification/FilteredInformer.thy ===== *)
theory FilteredInformer imports MTPrelude ObjectKeys IndexStore FilteredCache begin

text \<open>
  The tenant's informer, \<open>pkg/filteredinformer/filteredinformer.go\<close>, over the shared informer it
  wraps (\<open>shared_informer.go\<close> and \<open>controller.go\<close> of \<open>vendor/k8s.io/client-go/tools/cache\<close>): one
  store, and listeners with the notifications that wait for their handler. A filtered informer
  registers a filtering handler, so the filter is evaluated when a notification is delivered,
  not when it is queued. A delivery holds no lock: receiving the notification, each call of the
  filter and the call of the handler are steps of their own, and a \<open>Cleanup\<close> may fall between any two.

  Resync periods are left out; whether a listener takes resyncs is a flag that may change at any
  time. \<open>rv\<close> reads a resource version.
\<close>

section \<open>The shared informer\<close>

datatype 'o notification =
    updateNotification "'o key_arg" "'o key_arg"
  | addNotification "'o key_arg" bool
  | deleteNotification "'o key_arg"

text \<open>The calls a handler receives.\<close>

datatype 'o handler_call =
    OnAdd "'o key_arg" bool
  | OnUpdate "'o key_arg" "'o key_arg"
  | OnDelete "'o key_arg"

text \<open>
  Where the goroutine of a listener is: at the receive of its loop, before a call of \<open>FilterFunc\<close> in
  \<open>OnAdd\<close>, \<open>OnUpdate\<close> (of the new object, then of the old one) or \<open>OnDelete\<close> of the filtering handler,
  or before the call of the handler proper.
\<close>

datatype 'o delivery =
    Receive
  | Filter_add "'o key_arg" bool
  | Filter_new "'o key_arg" "'o key_arg"
  | Filter_old "'o key_arg" "'o key_arg" bool
  | Filter_delete "'o key_arg"
  | Call "'o handler_call"

text \<open>A listener: the filtered informer whose filter guards its handler (none for a handler
  registered with the shared informer), what waits for it, the delivery in progress, and the
  calls its handler received.\<close>

record 'o listener =
  ls_filter :: "nat option"
  ls_syncing :: bool
  ls_pending :: "'o notification list"
  ls_stage :: "'o delivery"
  ls_calls :: "'o handler_call list"

record 'o sharedIndexInformer =
  si_indexer :: "'o cache"
  si_started :: bool
  si_stopped :: bool
  si_listeners :: "'o listener list"

definition si_AddIndexers ::
  "(string \<times> 'o key_arg IndexFunc) list \<Rightarrow> 'o sharedIndexInformer
   \<Rightarrow> (error \<times> 'o sharedIndexInformer) outcome" where
  "si_AddIndexers fs s =
     (if si_stopped s then Return (Some (Errorf ''indexer was not added because it has stopped already'' []), s)
      else case tsm_AddIndexers fs (si_indexer s) of
             Panic msg \<Rightarrow> Panic msg
           | Return (err, c) \<Rightarrow> Return (err, s\<lparr>si_indexer := c\<rparr>))"

text \<open>A handler that joins a started informer is first told of everything in the store.\<close>

definition si_AddEventHandler ::
  "nat option \<Rightarrow> 'o sharedIndexInformer \<Rightarrow> error \<times> 'o sharedIndexInformer" where
  "si_AddEventHandler flt s =
     (if si_stopped s
      then (Some (Errorf ''handler %v was not added to shared informer because it has stopped already'' []), s)
      else
        let pending = (if si_started s
              then map (\<lambda>item. addNotification item True) (tsm_List (si_indexer s)) else [])
        in (None, s\<lparr>si_listeners := si_listeners s @
              [\<lparr>ls_filter = flt, ls_syncing = True, ls_pending = pending, ls_stage = Receive, ls_calls = []\<rparr>]\<rparr>))"

definition distribute :: "'o notification \<Rightarrow> bool \<Rightarrow> 'o sharedIndexInformer \<Rightarrow> 'o sharedIndexInformer" where
  "distribute n isSync s = s\<lparr>si_listeners := map (\<lambda>l.
     if \<not> isSync \<or> ls_syncing l then l\<lparr>ls_pending := ls_pending l @ [n]\<rparr> else l) (si_listeners s)\<rparr>"

text \<open>An update that does not change the resource version is a resync event.\<close>

definition si_OnUpdate ::
  "('o \<Rightarrow> string) \<Rightarrow> 'o key_arg \<Rightarrow> 'o key_arg \<Rightarrow> 'o sharedIndexInformer \<Rightarrow> 'o sharedIndexInformer" where
  "si_OnUpdate rv old new s =
     (let isSync = (case (meta_Accessor new, meta_Accessor old) of
                      (Inr a, Inr b) \<Rightarrow> rv a = rv b | _ \<Rightarrow> False)
      in distribute (updateNotification old new) isSync s)"

text \<open>\<open>processDeltas\<close> for one delta: an added, updated, replaced or synced object, or a deletion.\<close>

datatype 'o delta = Upsert "'o key_arg" | Deleted "'o key_arg"

definition notify_with ::
  "('o sharedIndexInformer \<Rightarrow> 'o sharedIndexInformer) \<Rightarrow> (error \<times> 'o cache) outcome
   \<Rightarrow> 'o sharedIndexInformer \<Rightarrow> (error \<times> 'o sharedIndexInformer) outcome" where
  "notify_with notify result s =
     (case result of
        Panic msg \<Rightarrow> Panic msg
      | Return (Some e, c) \<Rightarrow> Return (Some e, s\<lparr>si_indexer := c\<rparr>)
      | Return (None, c) \<Rightarrow> Return (None, notify (s\<lparr>si_indexer := c\<rparr>)))"

definition processDelta ::
  "'o accessor \<Rightarrow> ('o \<Rightarrow> string) \<Rightarrow> bool \<Rightarrow> 'o delta \<Rightarrow> 'o sharedIndexInformer
   \<Rightarrow> (error \<times> 'o sharedIndexInformer) outcome" where
  "processDelta acc rv isInInitialList d s =
     (let keyFunc = DeletionHandlingMetaNamespaceKeyFunc acc; store = si_indexer s
      in case d of
           Upsert ob \<Rightarrow>
             (case cache_Get keyFunc store ob of
                (old, exists, err) \<Rightarrow>
                  if err = None \<and> exists
                  then notify_with (si_OnUpdate rv old ob) (cache_Update keyFunc ob store) s
                  else notify_with (distribute (addNotification ob isInInitialList) False)
                         (cache_Add keyFunc ob store) s)
         | Deleted ob \<Rightarrow>
             notify_with (distribute (deleteNotification ob) False) (cache_Delete keyFunc ob store) s)"

section \<open>filteredinformer.go\<close>

record ProviderConfigFilteredInformer =
  fi_filterKey :: string
  fi_filterValue :: string
  fi_allowMissing :: bool
  fi_stopped :: bool

text \<open>The shared informer and the filtered informers made over it, by reference.\<close>

record 'o informers =
  shared :: "'o sharedIndexInformer"
  filtered :: "ProviderConfigFilteredInformer list"

definition filterFunc :: "'o labels_of \<Rightarrow> ProviderConfigFilteredInformer \<Rightarrow> 'o key_arg \<Rightarrow> bool" where
  "filterFunc labels i ob =
     (if fi_stopped i then False
      else isObjectMatchingValue labels ob (fi_filterKey i) (fi_filterValue i) (fi_allowMissing i))"

text \<open>The label index is added if no index has its name; an error of \<open>AddIndexers\<close> is dropped.\<close>

definition NewFilteredInformer ::
  "'o labels_of \<Rightarrow> string \<Rightarrow> string \<Rightarrow> bool \<Rightarrow> 'o informers \<Rightarrow> (nat \<times> 'o informers) outcome" where
  "NewFilteredInformer labels fkey val missing w =
     (let added = (if map_of (tsm_GetIndexers (si_indexer (shared w))) fkey = None
                   then si_AddIndexers [(fkey, NewLabelIndexFunc labels fkey)] (shared w)
                   else Return (None, shared w))
      in case added of
           Panic msg \<Rightarrow> Panic msg
         | Return (err, s) \<Rightarrow>
             Return (length (filtered w),
               w\<lparr>shared := s, filtered := filtered w @
                   [\<lparr>fi_filterKey = fkey, fi_filterValue = val, fi_allowMissing = missing, fi_stopped = False\<rparr>]\<rparr>))"

definition NewProviderConfigFilteredInformer ::
  "'o labels_of \<Rightarrow> string \<Rightarrow> 'o informers \<Rightarrow> (nat \<times> 'o informers) outcome" where
  "NewProviderConfigFilteredInformer labels providerConfigName w =
     NewFilteredInformer labels providerConfigLabel providerConfigName False w"

definition fi_AddEventHandler :: "nat \<Rightarrow> 'o informers \<Rightarrow> error \<times> 'o informers" where
  "fi_AddEventHandler i w =
     (case si_AddEventHandler (Some i) (shared w) of (err, s) \<Rightarrow> (err, w\<lparr>shared := s\<rparr>))"

text \<open>With a resync period, which the model of the shared informer does not look at.\<close>

definition fi_AddEventHandlerWithResyncPeriod :: "int \<Rightarrow> nat \<Rightarrow> 'o informers \<Rightarrow> error \<times> 'o informers" where
  "fi_AddEventHandlerWithResyncPeriod resyncPeriod i w = fi_AddEventHandler i w"

definition fi_GetIndexer ::
  "'o KeyFunc \<Rightarrow> nat \<Rightarrow> 'o informers \<Rightarrow> 'o providerConfigFilteredCache" where
  "fi_GetIndexer keyFunc i w =
     (let inf = filtered w ! i
      in \<lparr>Indexer = cache_Indexer keyFunc (si_indexer (shared w)), filterKey = fi_filterKey inf,
          filterValue = fi_filterValue inf, allowMissing = fi_allowMissing inf\<rparr>)"

definition fi_GetStore :: "'o KeyFunc \<Rightarrow> nat \<Rightarrow> 'o informers \<Rightarrow> 'o providerConfigFilteredCache" where
  "fi_GetStore keyFunc i w = fi_GetIndexer keyFunc i w"

definition RemoveEventHandlers :: "nat \<Rightarrow> 'o informers \<Rightarrow> 'o informers" where
  "RemoveEventHandlers i w =
     w\<lparr>filtered := (filtered w)[i := (filtered w ! i)\<lparr>fi_stopped := True\<rparr>]\<rparr>"

definition fi_Cleanup :: "nat \<Rightarrow> 'o informers \<Rightarrow> 'o informers" where
  "fi_Cleanup i w = RemoveEventHandlers i w"

section \<open>Delivery\<close>

text \<open>\<open>run\<close> hands the notification to the method of the handler that its type names.\<close>

fun dispatch :: "nat option \<Rightarrow> 'o notification \<Rightarrow> 'o delivery" where
  "dispatch (Some i) (updateNotification old new) = Filter_new old new"
| "dispatch (Some i) (addNotification ob init) = Filter_add ob init"
| "dispatch (Some i) (deleteNotification ob) = Filter_delete ob"
| "dispatch None (updateNotification old new) = Call (OnUpdate old new)"
| "dispatch None (addNotification ob init) = Call (OnAdd ob init)"
| "dispatch None (deleteNotification ob) = Call (OnDelete ob)"

text \<open>\<open>FilteringResourceEventHandler\<close>: its methods up to the next call of \<open>FilterFunc\<close> or of the handler.\<close>

fun filter_step :: "('o key_arg \<Rightarrow> bool) \<Rightarrow> 'o delivery \<Rightarrow> 'o delivery" where
  "filter_step flt (Filter_add ob init) = (if \<not> flt ob then Receive else Call (OnAdd ob init))"
| "filter_step flt (Filter_new old new) = Filter_old old new (flt new)"
| "filter_step flt (Filter_old old new newer) =
     (let older = flt old
      in if newer \<and> older then Call (OnUpdate old new)
         else if newer \<and> \<not> older then Call (OnAdd new False)
         else if \<not> newer \<and> older then Call (OnDelete old)
         else Receive)"
| "filter_step flt (Filter_delete ob) = (if \<not> flt ob then Receive else Call (OnDelete ob))"
| "filter_step flt stage = stage"

definition listener_filter :: "'o labels_of \<Rightarrow> 'o informers \<Rightarrow> 'o listener \<Rightarrow> 'o key_arg \<Rightarrow> bool" where
  "listener_filter labels w l =
     (case ls_filter l of None \<Rightarrow> (\<lambda>_. True) | Some i \<Rightarrow> filterFunc labels (filtered w ! i))"

text \<open>One step of the listener's \<open>run\<close>: receive, a call of the filter, or the call of the handler.\<close>

definition listener_step :: "('o key_arg \<Rightarrow> bool) \<Rightarrow> 'o listener \<Rightarrow> 'o listener" where
  "listener_step flt l =
     (case ls_stage l of
        Receive \<Rightarrow>
          (case ls_pending l of
             [] \<Rightarrow> l
           | n # ns \<Rightarrow> l\<lparr>ls_pending := ns, ls_stage := dispatch (ls_filter l) n\<rparr>)
      | Call c \<Rightarrow> l\<lparr>ls_stage := Receive, ls_calls := ls_calls l @ [c]\<rparr>
      | stage \<Rightarrow> l\<lparr>ls_stage := filter_step flt stage\<rparr>)"

definition deliver :: "'o labels_of \<Rightarrow> nat \<Rightarrow> 'o informers \<Rightarrow> 'o informers" where
  "deliver labels j w =
     (let ls = si_listeners (shared w); l = ls ! j
      in w\<lparr>shared := (shared w)\<lparr>si_listeners := ls[j := listener_step (listener_filter labels w l) l]\<rparr>\<rparr>)"

definition new_informers :: "(string \<times> 'o key_arg IndexFunc) list \<Rightarrow> 'o informers" where
  "new_informers fs = \<lparr>shared = \<lparr>si_indexer = NewThreadSafeStore fs, si_started = False,
     si_stopped = False, si_listeners = []\<rparr>, filtered = []\<rparr>"

end
