(* ===== verification/TenantEvents.thy ===== *)
theory TenantEvents imports MTPrelude ObjectKeys IndexStore FilteredCache FilteredInformer begin

text \<open>
  What the handlers of a tenant see over any run of a shared informer and the filtered informers
  made over it: deltas from the server, handlers that come late, notifications delivered with any
  delay, a filter call or a handler call at a time, informers cleaned up in between. The main result is a refinement: an event handler that keeps a
  map of the objects it was told of keeps, once its queue is empty, exactly the tenant's visible
  objects.
\<close>

section \<open>Runs\<close>

text \<open>The last known object of a deletion event.\<close>

definition deleted_object :: "'o key_arg \<Rightarrow> 'o option" where
  "deleted_object arg = (case unpack_tombstone arg of MetaObject ob \<Rightarrow> Some ob | _ \<Rightarrow> None)"

text \<open>
  What the events of the API server guarantee, relative to the store: an object of an update has
  metadata and is the stored one if its resource version is; a deletion carries an object with the
  labels it had in the store.
\<close>

definition server_delta ::
  "'o accessor \<Rightarrow> 'o labels_of \<Rightarrow> ('o \<Rightarrow> string) \<Rightarrow> (string \<rightharpoonup> 'o key_arg) \<Rightarrow> 'o delta \<Rightarrow> bool" where
  "server_delta acc labels rv m d =
     (case d of
        Upsert arg \<Rightarrow> (\<exists>ob. arg = MetaObject ob \<and>
          (\<forall>k old. DeletionHandlingMetaNamespaceKeyFunc acc arg = Inr k \<longrightarrow> m k = Some (MetaObject old)
             \<longrightarrow> rv old = rv ob \<longrightarrow> old = ob))
      | Deleted arg \<Rightarrow> (\<exists>ob. deleted_object arg = Some ob \<and>
          (\<forall>k old. DeletionHandlingMetaNamespaceKeyFunc acc arg = Inr k \<longrightarrow> m k = Some (MetaObject old)
             \<longrightarrow> labels old = labels ob)))"

inductive inf_step ::
  "'o accessor \<Rightarrow> 'o labels_of \<Rightarrow> ('o \<Rightarrow> string) \<Rightarrow> 'o informers \<Rightarrow> 'o informers \<Rightarrow> bool"
  for acc labels rv where
  make: "NewFilteredInformer labels fkey val missing w = Return (i, w') \<Longrightarrow> inf_step acc labels rv w w'"
| handler: "i < length (filtered w) \<Longrightarrow> fi_AddEventHandler i w = (err, w') \<Longrightarrow> inf_step acc labels rv w w'"
| plain_handler: "si_AddEventHandler None (shared w) = (err, s) \<Longrightarrow>
    inf_step acc labels rv w (w\<lparr>shared := s\<rparr>)"
| run: "inf_step acc labels rv w (w\<lparr>shared := (shared w)\<lparr>si_started := True\<rparr>\<rparr>)"
| stop: "inf_step acc labels rv w (w\<lparr>shared := (shared w)\<lparr>si_stopped := True\<rparr>\<rparr>)"
| delta: "si_started (shared w) \<Longrightarrow> server_delta acc labels rv (tsm_Get (si_indexer (shared w))) d \<Longrightarrow>
    processDelta acc rv init d (shared w) = Return (err, s) \<Longrightarrow>
    inf_step acc labels rv w (w\<lparr>shared := s\<rparr>)"
| delivery: "j < length (si_listeners (shared w)) \<Longrightarrow> inf_step acc labels rv w (deliver labels j w)"
| resync: "length flags = length (si_listeners (shared w)) \<Longrightarrow>
    inf_step acc labels rv w (w\<lparr>shared := (shared w)\<lparr>si_listeners :=
      map2 (\<lambda>l b. l\<lparr>ls_syncing := b\<rparr>) (si_listeners (shared w)) flags\<rparr>\<rparr>)"
| cleanup: "i < length (filtered w) \<Longrightarrow> inf_step acc labels rv w (fi_Cleanup i w)"

inductive inf_reachable ::
  "'o accessor \<Rightarrow> 'o labels_of \<Rightarrow> ('o \<Rightarrow> string) \<Rightarrow> 'o informers \<Rightarrow> bool"
  for acc labels rv where
  created: "distinct (map fst fs) \<Longrightarrow> inf_reachable acc labels rv (new_informers fs)"
| stepped: "inf_reachable acc labels rv w \<Longrightarrow> inf_step acc labels rv w w' \<Longrightarrow> inf_reachable acc labels rv w'"

section \<open>A handler's own view\<close>

fun call_effect :: "'o accessor \<Rightarrow> 'o handler_call \<Rightarrow> (string \<rightharpoonup> 'o key_arg) \<Rightarrow> (string \<rightharpoonup> 'o key_arg)" where
  "call_effect acc (OnAdd x init) v =
     (case DeletionHandlingMetaNamespaceKeyFunc acc x of Inl e \<Rightarrow> v | Inr k \<Rightarrow> v(k \<mapsto> x))"
| "call_effect acc (OnUpdate old x) v =
     (case DeletionHandlingMetaNamespaceKeyFunc acc x of Inl e \<Rightarrow> v | Inr k \<Rightarrow> v(k \<mapsto> x))"
| "call_effect acc (OnDelete x) v =
     (case DeletionHandlingMetaNamespaceKeyFunc acc x of Inl e \<Rightarrow> v | Inr k \<Rightarrow> v(k := None))"

definition replay :: "'o accessor \<Rightarrow> 'o handler_call list \<Rightarrow> (string \<rightharpoonup> 'o key_arg)" where
  "replay acc calls = fold (call_effect acc) calls Map.empty"

text \<open>What a delivery in progress and a notification become when the filter answers the same throughout.\<close>

fun stage_calls :: "('o key_arg \<Rightarrow> bool) \<Rightarrow> 'o delivery \<Rightarrow> 'o handler_call list" where
  "stage_calls flt Receive = []"
| "stage_calls flt (Filter_add ob init) = (if flt ob then [OnAdd ob init] else [])"
| "stage_calls flt (Filter_new old new) =
     (if flt new then if flt old then [OnUpdate old new] else [OnAdd new False]
      else if flt old then [OnDelete old] else [])"
| "stage_calls flt (Filter_old old new newer) =
     (if newer then if flt old then [OnUpdate old new] else [OnAdd new False]
      else if flt old then [OnDelete old] else [])"
| "stage_calls flt (Filter_delete ob) = (if flt ob then [OnDelete ob] else [])"
| "stage_calls flt (Call c) = [c]"

abbreviation filtering_handler :: "('o key_arg \<Rightarrow> bool) \<Rightarrow> 'o notification \<Rightarrow> 'o handler_call list" where
  "filtering_handler flt n \<equiv> stage_calls flt (dispatch (Some 0) n)"

lemma dispatch_filtered: "dispatch (Some i) n = dispatch (Some 0) n"
  by (cases n) simp_all

lemma stage_calls_step: "\<forall>c. s \<noteq> Call c \<Longrightarrow> stage_calls flt (filter_step flt s) = stage_calls flt s"
  by (cases s) (simp_all add: Let_def)

text \<open>What is on its way to a handler of an informer that is not cleaned up.\<close>

definition matches :: "'o labels_of \<Rightarrow> ProviderConfigFilteredInformer \<Rightarrow> 'o key_arg \<Rightarrow> bool" where
  "matches labels i ob = isObjectMatchingValue labels ob (fi_filterKey i) (fi_filterValue i) (fi_allowMissing i)"

definition due_calls :: "'o labels_of \<Rightarrow> ProviderConfigFilteredInformer \<Rightarrow> 'o listener \<Rightarrow> 'o handler_call list" where
  "due_calls labels i l = ls_calls l @ stage_calls (matches labels i) (ls_stage l) @
     concat (map (filtering_handler (matches labels i)) (ls_pending l))"

definition tenant_view :: "'o labels_of \<Rightarrow> ProviderConfigFilteredInformer \<Rightarrow> (string \<rightharpoonup> 'o key_arg) \<Rightarrow> (string \<rightharpoonup> 'o key_arg)" where
  "tenant_view labels i m = visible labels (fi_filterKey i) (fi_filterValue i) (fi_allowMissing i) m"

lemma tenant_view_simps:
  "tenant_view labels i (m(k \<mapsto> x)) = (if matches labels i x then (tenant_view labels i m)(k \<mapsto> x)
     else (tenant_view labels i m)(k := None))"
  "tenant_view labels i (m(k := None)) = (tenant_view labels i m)(k := None)"
  "tenant_view labels i Map.empty = Map.empty"
  by (auto simp: tenant_view_def visible_def entries_where_def matches_def fun_eq_iff)

lemma tenant_view_None:
  "m k = None \<Longrightarrow> tenant_view labels i m k = None"
  "m k = Some x \<Longrightarrow> \<not> matches labels i x \<Longrightarrow> tenant_view labels i m k = None"
  by (simp_all add: tenant_view_def visible_def entries_where_def matches_def)

definition store_keyed :: "'o accessor \<Rightarrow> (string \<rightharpoonup> 'o key_arg) \<Rightarrow> bool" where
  "store_keyed acc m \<longleftrightarrow>
     (\<forall>k x. m k = Some x \<longrightarrow> DeletionHandlingMetaNamespaceKeyFunc acc x = Inr k \<and> (\<exists>ob. x = MetaObject ob))"

text \<open>One more notification keeps the view in step with the store.\<close>

lemma replay_append: "fold (call_effect acc) (xs @ ys) v = fold (call_effect acc) ys (fold (call_effect acc) xs v)"
  by simp

lemma add_in_step:
  assumes "DeletionHandlingMetaNamespaceKeyFunc acc x = Inr k" "m k = None"
  shows "fold (call_effect acc) (filtering_handler (matches labels i) (addNotification x init)) (tenant_view labels i m)
         = tenant_view labels i (m(k \<mapsto> x))"
  using assms tenant_view_None(1) [where m = m and k = k and labels = labels and i = i, OF assms(2)]
  by (auto simp: tenant_view_simps fun_upd_idem)

lemma update_in_step:
  assumes "DeletionHandlingMetaNamespaceKeyFunc acc x = Inr k"
    and "DeletionHandlingMetaNamespaceKeyFunc acc old = Inr k" "m k = Some old"
  shows "fold (call_effect acc) (filtering_handler (matches labels i) (updateNotification old x)) (tenant_view labels i m)
         = tenant_view labels i (m(k \<mapsto> x))"
  using assms tenant_view_None(2) [where m = m and k = k and labels = labels and i = i, OF assms(3)]
  by (auto simp: tenant_view_simps fun_upd_idem Let_def)

lemma delete_in_step:
  assumes "DeletionHandlingMetaNamespaceKeyFunc acc x = Inr k"
    and "\<And>old. m k = Some old \<Longrightarrow> matches labels i old = matches labels i x"
  shows "fold (call_effect acc) (filtering_handler (matches labels i) (deleteNotification x)) (tenant_view labels i m)
         = tenant_view labels i (m(k := None))"
proof (cases "matches labels i x")
  case True
  with assms(1) show ?thesis by (simp add: tenant_view_simps)
next
  case False
  then have "tenant_view labels i m k = None"
    using assms(2) tenant_view_None by (metis option.exhaust)
  with False show ?thesis by (simp add: tenant_view_simps fun_upd_idem)
qed

lemma initial_list_in_step:
  assumes "distinct (map fst kvs)"
    and "\<forall>(k, x)\<in>set kvs. DeletionHandlingMetaNamespaceKeyFunc acc x = Inr k"
    and "\<forall>k\<in>set (map fst kvs). m k = None"
  shows "fold (call_effect acc)
      (concat (map (\<lambda>(k, x). filtering_handler (matches labels i) (addNotification x True)) kvs)) (tenant_view labels i m)
    = tenant_view labels i (m ++ map_of kvs)"
  using assms
proof (induction kvs arbitrary: m)
  case (Cons kv kvs)
  obtain k x where kv: "kv = (k, x)" by (cases kv)
  have key: "DeletionHandlingMetaNamespaceKeyFunc acc x = Inr k" "m k = None" using Cons.prems kv by auto
  define m' where "m' = m(k \<mapsto> x)"
  have "m' ++ map_of kvs = m ++ map_of (kv # kvs)"
    using Cons.prems(1) kv by (simp add: m'_def map_add_upd_left dom_map_of_conv_image_fst)
  moreover have "fold (call_effect acc) (filtering_handler (matches labels i) (addNotification x True)) (tenant_view labels i m)
      = tenant_view labels i m'"
    unfolding m'_def by (rule add_in_step [where m = m and k = k, OF key])
  moreover have "\<forall>k'\<in>set (map fst kvs). m' k' = None" using Cons.prems kv by (auto simp: m'_def)
  ultimately show ?case
    using Cons.IH [of m'] Cons.prems(1,2) kv
    by (simp del: stage_calls.simps dispatch.simps fun_upd_apply)
qed simp


section \<open>The invariant\<close>

definition in_step ::
  "'o accessor \<Rightarrow> 'o labels_of \<Rightarrow> ProviderConfigFilteredInformer list \<Rightarrow> (string \<rightharpoonup> 'o key_arg) \<Rightarrow> 'o listener \<Rightarrow> bool" where
  "in_step acc labels fs m l \<longleftrightarrow>
     (\<forall>i. ls_filter l = Some i \<longrightarrow> i < length fs \<and>
        (\<not> fi_stopped (fs ! i) \<longrightarrow>
           replay acc (due_calls labels (fs ! i) l) = tenant_view labels (fs ! i) m))"

definition inf_inv :: "'o accessor \<Rightarrow> 'o labels_of \<Rightarrow> 'o informers \<Rightarrow> bool" where
  "inf_inv acc labels w \<longleftrightarrow>
     store_reachable (si_indexer (shared w)) \<and> store_keyed acc (tsm_Get (si_indexer (shared w))) \<and>
     (\<not> si_started (shared w) \<longrightarrow> items (si_indexer (shared w)) = []) \<and>
     (\<forall>l\<in>set (si_listeners (shared w)).
        in_step acc labels (filtered w) (tsm_Get (si_indexer (shared w))) l)"

lemma in_step_more: "in_step acc labels fs m l \<Longrightarrow> in_step acc labels (fs @ gs) m l"
  by (auto simp: in_step_def nth_append)

lemma in_step_cleanup:
  "in_step acc labels fs m l \<Longrightarrow> in_step acc labels (fs[i := (fs ! i)\<lparr>fi_stopped := True\<rparr>]) m l"
proof -
  assume step: "in_step acc labels fs m l"
  let ?fs = "fs[i := (fs ! i)\<lparr>fi_stopped := True\<rparr>]"
  have "fi_stopped (?fs ! j) \<or> ?fs ! j = fs ! j" if "j < length fs" for j
    using that by (cases "i = j") auto
  then show "in_step acc labels ?fs m l"
    using step unfolding in_step_def length_list_update by metis
qed

lemma in_step_flags: "in_step acc labels fs m (l\<lparr>ls_syncing := b\<rparr>) = in_step acc labels fs m l"
  by (simp add: in_step_def due_calls_def)

lemma due_calls_append:
  "replay acc (due_calls labels i (l\<lparr>ls_pending := ls_pending l @ [n]\<rparr>))
   = fold (call_effect acc) (filtering_handler (matches labels i) n) (replay acc (due_calls labels i l))"
  by (simp add: due_calls_def replay_def)

lemma in_step_notified:
  assumes "in_step acc labels fs m l"
    and "\<And>i. fold (call_effect acc) (filtering_handler (matches labels i) n) (tenant_view labels i m)
              = tenant_view labels i m'"
  shows "in_step acc labels fs m' (l\<lparr>ls_pending := ls_pending l @ [n]\<rparr>)"
  using assms unfolding in_step_def due_calls_append by simp

lemma in_step_distribute:
  assumes "\<forall>l\<in>set (si_listeners s). in_step acc labels fs m l"
    and n: "\<And>i. fold (call_effect acc) (filtering_handler (matches labels i) n) (tenant_view labels i m)
              = tenant_view labels i m'"
    and quiet: "isSync \<Longrightarrow> m' = m"
  shows "\<forall>l\<in>set (si_listeners (distribute n isSync s)). in_step acc labels fs m' l"
proof
  fix l assume "l \<in> set (si_listeners (distribute n isSync s))"
  then obtain l0 where l0: "l0 \<in> set (si_listeners s)"
      "l = (if \<not> isSync \<or> ls_syncing l0 then l0\<lparr>ls_pending := ls_pending l0 @ [n]\<rparr> else l0)"
    by (auto simp: distribute_def)
  show "in_step acc labels fs m' l"
    using in_step_notified [OF bspec [OF assms(1) l0(1)] n] assms(1) l0 quiet by auto
qed

lemma distribute_fields [simp]:
  "si_indexer (distribute n b s) = si_indexer s" "si_started (distribute n b s) = si_started s"
  "si_stopped (distribute n b s) = si_stopped s"
  by (simp_all add: distribute_def)

lemma processDelta_Upsert:
  assumes "processDelta acc rv init (Upsert (MetaObject ob)) s = Return (err, s')"
    and k: "DeletionHandlingMetaNamespaceKeyFunc acc (MetaObject ob) = Inr k"
  obtains c where "tsm_Update k (MetaObject ob) (si_indexer s) = Return c"
    "s' = (case tsm_Get (si_indexer s) k of
             None \<Rightarrow> distribute (addNotification (MetaObject ob) init) False (s\<lparr>si_indexer := c\<rparr>)
           | Some old \<Rightarrow> si_OnUpdate rv old (MetaObject ob) (s\<lparr>si_indexer := c\<rparr>))"
  using assms
  by (cases "tsm_Get (si_indexer s) k")
     (auto simp: processDelta_def Let_def cache_Get_def cache_GetByKey_def found_def notify_with_def
        cache_Update_def cache_Add_def split: outcome.splits)

lemma processDelta_Deleted:
  assumes "processDelta acc rv init (Deleted arg) s = Return (err, s')"
    and k: "DeletionHandlingMetaNamespaceKeyFunc acc arg = Inr k"
  obtains c where "tsm_Delete k (si_indexer s) = Return c"
    "s' = distribute (deleteNotification arg) False (s\<lparr>si_indexer := c\<rparr>)"
  using assms
  by (auto simp: processDelta_def Let_def notify_with_def cache_Delete_def split: outcome.splits)

lemma MetaObject_key: "\<exists>k. DeletionHandlingMetaNamespaceKeyFunc acc (MetaObject ob) = Inr k"
  by (simp add: key_defs)

lemma deleted_object_key:
  "deleted_object arg = Some ob \<Longrightarrow> \<exists>k. DeletionHandlingMetaNamespaceKeyFunc acc arg = Inr k"
  by (auto simp: deleted_object_def unpack_tombstone_def nil_any_def key_defs split: key_arg.splits option.splits)

lemma deleted_object_matches:
  assumes "deleted_object arg = Some ob" "labels old = labels ob"
  shows "matches labels i (MetaObject old) = matches labels i arg"
proof -
  have "unpack_tombstone arg = MetaObject ob"
    using assms(1) by (auto simp: deleted_object_def split: key_arg.splits)
  then show ?thesis
    using assms(2) by (simp add: matches_def isObjectMatchingValue_def meta_Accessor_def unpack_tombstone_def)
qed


lemma inf_invD:
  assumes "inf_inv acc labels w"
  shows "store_reachable (si_indexer (shared w))" "store_keyed acc (tsm_Get (si_indexer (shared w)))"
    "\<not> si_started (shared w) \<Longrightarrow> items (si_indexer (shared w)) = []"
    "\<forall>l\<in>set (si_listeners (shared w)). in_step acc labels (filtered w) (tsm_Get (si_indexer (shared w))) l"
  using assms by (simp_all add: inf_inv_def)

lemma store_keyed_upd:
  "store_keyed acc m \<Longrightarrow> DeletionHandlingMetaNamespaceKeyFunc acc (MetaObject ob) = Inr k
   \<Longrightarrow> store_keyed acc (m(k \<mapsto> MetaObject ob))"
  "store_keyed acc m \<Longrightarrow> store_keyed acc (m(k := None))"
  by (auto simp: store_keyed_def)

lemma store_reads_upd:
  assumes "store_reachable c"
  shows "tsm_Update k x c = Return c' \<Longrightarrow> store_reachable c' \<and> tsm_Get c' = (tsm_Get c)(k \<mapsto> x)"
    and "tsm_Delete k c = Return c' \<Longrightarrow> store_reachable c' \<and> tsm_Get c' = (tsm_Get c)(k := None)"
  using store_reachable.updated [OF assms] store_reachable.deleted [OF assms]
    tsm_Update_ok(2) [OF store_reachable_ok [OF assms]] tsm_Delete_ok(2) [OF store_reachable_ok [OF assms]]
  by (simp_all add: store_reads)

lemma in_step_set_indexer:
  "(\<forall>l\<in>set (si_listeners (s\<lparr>si_indexer := c\<rparr>)). P l) = (\<forall>l\<in>set (si_listeners s). P l)"
  by simp

lemma delta_keeps:
  assumes inv: "inf_inv acc labels w" and started: "si_started (shared w)"
    and d: "server_delta acc labels rv (tsm_Get (si_indexer (shared w))) d"
    and step: "processDelta acc rv init d (shared w) = Return (err, s)"
  shows "inf_inv acc labels (w\<lparr>shared := s\<rparr>)"
proof -
  let ?m = "tsm_Get (si_indexer (shared w))"
  note i = inf_invD [OF inv]
  show ?thesis
  proof (cases d)
    case (Upsert arg)
    with d obtain ob where ob: "arg = MetaObject ob" by (auto simp: server_delta_def)
    obtain k where k: "DeletionHandlingMetaNamespaceKeyFunc acc (MetaObject ob) = Inr k"
      using MetaObject_key [of acc ob] by blast
    obtain c where c: "tsm_Update k (MetaObject ob) (si_indexer (shared w)) = Return c"
      and s: "s = (case ?m k of
             None \<Rightarrow> distribute (addNotification (MetaObject ob) init) False ((shared w)\<lparr>si_indexer := c\<rparr>)
           | Some old \<Rightarrow> si_OnUpdate rv old (MetaObject ob) ((shared w)\<lparr>si_indexer := c\<rparr>))"
      by (rule processDelta_Upsert [OF step [unfolded Upsert ob] k])
    have c': "store_reachable c" "tsm_Get c = ?m(k \<mapsto> MetaObject ob)"
      using store_reads_upd(1) [OF i(1) c] by auto
    have "\<forall>l\<in>set (si_listeners s). in_step acc labels (filtered w) (tsm_Get c) l"
    proof (cases "?m k")
      case None
      then have s: "s = distribute (addNotification (MetaObject ob) init) False ((shared w)\<lparr>si_indexer := c\<rparr>)"
        using s by simp
      show ?thesis unfolding s c'(2)
        by (rule in_step_distribute [where m = ?m])
           (use i(4) add_in_step [where m = ?m and k = k, OF k None] in \<open>simp_all del: stage_calls.simps dispatch.simps\<close>)
    next
      case (Some old)
      then obtain oldob where old: "old = MetaObject oldob" "DeletionHandlingMetaNamespaceKeyFunc acc old = Inr k"
        using i(2) Some unfolding store_keyed_def by blast
      define isSync where "isSync = (rv ob = rv oldob)"
      have s: "s = distribute (updateNotification old (MetaObject ob)) isSync ((shared w)\<lparr>si_indexer := c\<rparr>)"
        using s Some old(1) by (simp add: si_OnUpdate_def meta_Accessor_def isSync_def)
      have "?m(k \<mapsto> MetaObject ob) = ?m" if isSync
        using that d k Some old(1) by (auto simp: server_delta_def Upsert ob isSync_def fun_upd_idem)
      then show ?thesis unfolding s c'(2)
        by (intro in_step_distribute [where m = ?m])
           (use i(4) update_in_step [where m = ?m and k = k, OF k old(2) Some] in
             \<open>simp_all del: stage_calls.simps dispatch.simps\<close>)
    qed
    moreover have "si_indexer s = c" "si_started s"
      using s started by (auto simp: si_OnUpdate_def Let_def split: option.splits)
    ultimately show ?thesis
      using c' i(2) store_keyed_upd(1) [OF i(2) k] by (simp add: inf_inv_def)
  next
    case (Deleted arg)
    with d obtain ob where ob: "deleted_object arg = Some ob" by (auto simp: server_delta_def)
    obtain k where k: "DeletionHandlingMetaNamespaceKeyFunc acc arg = Inr k"
      using deleted_object_key [OF ob, of acc] by blast
    obtain c where c: "tsm_Delete k (si_indexer (shared w)) = Return c"
      and s: "s = distribute (deleteNotification arg) False ((shared w)\<lparr>si_indexer := c\<rparr>)"
      by (rule processDelta_Deleted [OF step [unfolded Deleted] k])
    have c': "store_reachable c" "tsm_Get c = ?m(k := None)"
      using store_reads_upd(2) [OF i(1) c] by auto
    have "matches labels f old = matches labels f arg" if m: "?m k = Some old" for old f
    proof -
      obtain oldob where old: "old = MetaObject oldob" using i(2) m unfolding store_keyed_def by blast
      with d k m ob have "labels oldob = labels ob" by (auto simp: server_delta_def Deleted)
      then show ?thesis unfolding old by (rule deleted_object_matches [OF ob])
    qed
    note del = delete_in_step [where m = ?m and k = k, OF k this]
    have "\<forall>l\<in>set (si_listeners s). in_step acc labels (filtered w) (tsm_Get c) l"
      unfolding s c'(2)
      by (rule in_step_distribute [where m = ?m])
         (use i(4) del in \<open>simp_all del: stage_calls.simps dispatch.simps\<close>)
    then show ?thesis
      using c' started store_keyed_upd(2) [OF i(2)] by (simp add: inf_inv_def s)
  qed
qed


lemma si_AddIndexers_keeps:
  assumes "si_AddIndexers [(fkey, f)] s = Return (err, s')" "store_reachable (si_indexer s)"
  shows "store_reachable (si_indexer s') \<and> items (si_indexer s') = items (si_indexer s)
    \<and> si_listeners s' = si_listeners s \<and> si_started s' = si_started s \<and> si_stopped s' = si_stopped s"
proof (cases "si_stopped s")
  case True
  with assms show ?thesis by (simp add: si_AddIndexers_def)
next
  case False
  with assms(1) obtain c where c: "tsm_AddIndexers [(fkey, f)] (si_indexer s) = Return (err, c)"
      "s' = s\<lparr>si_indexer := c\<rparr>"
    by (auto simp: si_AddIndexers_def split: outcome.splits)
  have "store_reachable c" by (rule indexed [OF assms(2) _ c(1)]) simp
  moreover have "items c = items (si_indexer s)"
  proof (cases err)
    case None
    then show ?thesis
      using tsm_AddIndexers_ok [OF store_reachable_ok [OF assms(2)], of "[(fkey, f)]" c] c(1) by simp
  next
    case (Some e)
    then show ?thesis using tsm_AddIndexers_refused c(1) by blast
  qed
  ultimately show ?thesis using c(2) by simp
qed

lemma make_keeps:
  assumes inv: "inf_inv acc labels w" and step: "NewFilteredInformer labels fkey val missing w = Return (i, w')"
  shows "inf_inv acc labels w'"
proof -
  let ?new = "\<lparr>fi_filterKey = fkey, fi_filterValue = val, fi_allowMissing = missing, fi_stopped = False\<rparr>"
  obtain s where w': "w' = w\<lparr>shared := s, filtered := filtered w @ [?new]\<rparr>"
      and s: "store_reachable (si_indexer s) \<and> items (si_indexer s) = items (si_indexer (shared w))
        \<and> si_listeners s = si_listeners (shared w) \<and> si_started s = si_started (shared w)"
  proof (cases "map_of (tsm_GetIndexers (si_indexer (shared w))) fkey")
    case None
    then obtain err s where s: "si_AddIndexers [(fkey, NewLabelIndexFunc labels fkey)] (shared w) = Return (err, s)"
        "w' = w\<lparr>shared := s, filtered := filtered w @ [?new]\<rparr>"
      using step by (auto simp: NewFilteredInformer_def split: outcome.splits)
    show thesis by (rule that [OF s(2)]) (use si_AddIndexers_keeps [OF s(1) inf_invD(1) [OF inv]] in simp)
  next
    case (Some f)
    with step have "w' = w\<lparr>shared := shared w, filtered := filtered w @ [?new]\<rparr>"
      by (simp add: NewFilteredInformer_def)
    then show thesis by (rule that) (use inf_invD(1) [OF inv] in simp)
  qed
  have "\<forall>l\<in>set (si_listeners s). in_step acc labels (filtered w') (tsm_Get (si_indexer s)) l"
    using inf_invD(4) [OF inv] s unfolding w' by (simp add: store_reads in_step_more)
  then show ?thesis
    using inf_invD(2,3) [OF inv] s unfolding inf_inv_def w' by (simp add: store_reads)
qed

lemma initial_in_step:
  assumes "store_reachable c" "store_keyed acc (tsm_Get c)"
  shows "replay acc (due_calls labels i \<lparr>ls_filter = flt, ls_syncing = b,
             ls_pending = map (\<lambda>item. addNotification item True) (tsm_List c), ls_stage = Receive, ls_calls = []\<rparr>)
         = tenant_view labels i (tsm_Get c)"
proof -
  have d: "distinct (map fst (items c))" using store_okD(1) [OF store_reachable_ok [OF assms(1)]] .
  then have "\<forall>(k, x)\<in>set (items c). DeletionHandlingMetaNamespaceKeyFunc acc x = Inr k"
    using assms(2) unfolding store_keyed_def store_reads by auto
  from initial_list_in_step [OF d this, of Map.empty labels i] show ?thesis
    by (simp add: replay_def due_calls_def store_reads tsm_List_def tenant_view_simps(3) comp_def
        case_prod_unfold del: stage_calls.simps(2-) dispatch.simps)
qed

lemma handler_keeps:
  assumes inv: "inf_inv acc labels w" and i: "\<And>i. flt = Some i \<Longrightarrow> i < length (filtered w)"
    and step: "si_AddEventHandler flt (shared w) = (err, s)"
  shows "inf_inv acc labels (w\<lparr>shared := s\<rparr>)"
proof (cases "si_stopped (shared w)")
  case True
  with step have "s = shared w" by (simp add: si_AddEventHandler_def)
  with inv show ?thesis by simp
next
  case False
  let ?c = "si_indexer (shared w)"
  define l where "l = \<lparr>ls_filter = flt, ls_syncing = True, ls_pending =
      (if si_started (shared w) then map (\<lambda>item. addNotification item True) (tsm_List ?c) else []),
      ls_stage = Receive, ls_calls = ([] :: 'a handler_call list)\<rparr>"
  have s: "s = (shared w)\<lparr>si_listeners := si_listeners (shared w) @ [l]\<rparr>"
    using False step by (auto simp: si_AddEventHandler_def Let_def l_def)
  have pending: "(if si_started (shared w) then map (\<lambda>item. addNotification item True) (tsm_List ?c) else [])
      = map (\<lambda>item. addNotification item True) (tsm_List ?c)"
    using inf_invD(3) [OF inv] by (auto simp: tsm_List_def)
  have "in_step acc labels (filtered w) (tsm_Get ?c) l"
    unfolding in_step_def
    using i initial_in_step [OF inf_invD(1,2) [OF inv]] by (simp add: l_def pending)
  then show ?thesis using inv by (simp add: inf_inv_def s)
qed

lemma listener_step_due:
  assumes "ls_filter l = Some i"
  shows "due_calls labels f (listener_step (matches labels f) l) = due_calls labels f l"
  using assms stage_calls_step [of "ls_stage l" "matches labels f"]
  by (cases "ls_stage l"; cases "ls_pending l")
     (simp_all add: listener_step_def due_calls_def dispatch_filtered [of i] del: stage_calls.simps(2-5) dispatch.simps)

lemma listener_step_fields [simp]:
  "ls_filter (listener_step flt l) = ls_filter l" "ls_syncing (listener_step flt l) = ls_syncing l"
  by (simp_all add: listener_step_def split: delivery.split list.split)

lemma deliver_keeps:
  assumes inv: "inf_inv acc labels w" and j: "j < length (si_listeners (shared w))"
  shows "inf_inv acc labels (deliver labels j w)"
proof -
  let ?l = "si_listeners (shared w) ! j" and ?m = "tsm_Get (si_indexer (shared w))"
  let ?l' = "listener_step (listener_filter labels w ?l) ?l"
  have "in_step acc labels (filtered w) ?m ?l" using inf_invD(4) [OF inv] j by simp
  moreover have "listener_filter labels w ?l = matches labels (filtered w ! i)"
    if "ls_filter ?l = Some i" "\<not> fi_stopped (filtered w ! i)" for i
    using that by (simp add: listener_filter_def filterFunc_def matches_def fun_eq_iff)
  ultimately have "in_step acc labels (filtered w) ?m ?l'"
    using listener_step_due [of ?l] by (simp add: in_step_def)
  then have "\<forall>l\<in>set ((si_listeners (shared w))[j := ?l']). in_step acc labels (filtered w) ?m l"
    using inf_invD(4) [OF inv] set_update_subset_insert by fastforce
  then show ?thesis using inv by (simp add: inf_inv_def deliver_def Let_def)
qed

lemma inf_inv_step: "inf_step acc labels rv w w' \<Longrightarrow> inf_inv acc labels w \<Longrightarrow> inf_inv acc labels w'"
proof (induction rule: inf_step.induct)
  case (make fkey val missing w i w')
  then show ?case using make_keeps by blast
next
  case (handler i w err w')
  then show ?case
    using handler_keeps [of acc labels w "Some i"] by (auto simp: fi_AddEventHandler_def split: prod.splits)
next
  case (plain_handler w err s)
  then show ?case using handler_keeps [of acc labels w None] by auto
next
  case (delta w d init err s)
  then show ?case using delta_keeps by blast
next
  case (delivery j w)
  then show ?case using deliver_keeps by blast
next
  case (resync flags w)
  then show ?case by (auto simp: inf_inv_def in_step_flags set_zip)
next
  case (cleanup i w)
  then show ?case by (auto simp: inf_inv_def fi_Cleanup_def RemoveEventHandlers_def intro: in_step_cleanup)
qed (auto simp: inf_inv_def)

lemma inf_reachable_inv: "inf_reachable acc labels rv w \<Longrightarrow> inf_inv acc labels w"
proof (induction rule: inf_reachable.induct)
  case (created fs)
  then show ?case
    by (auto simp: inf_inv_def new_informers_def NewThreadSafeStore_def store_keyed_def store_reads
        intro: store_reachable.created [unfolded NewThreadSafeStore_def])
next
  case (stepped w w')
  then show ?case using inf_inv_step by blast
qed


section \<open>What a handler is told\<close>

text \<open>The objects a call is about.\<close>

fun call_objects :: "'o handler_call \<Rightarrow> 'o key_arg set" where
  "call_objects (OnAdd x init) = {x}"
| "call_objects (OnUpdate old x) = {old, x}"
| "call_objects (OnDelete x) = {x}"

lemma filterFunc_matches: "filterFunc labels i x \<Longrightarrow> matches labels i x"
  by (simp add: filterFunc_def matches_def split: if_splits)

text \<open>Of the listeners only the filter, the delivery in progress and the calls matter below.\<close>

definition heard_by :: "'o listener \<Rightarrow> nat option \<times> 'o delivery \<times> 'o handler_call list" where
  "heard_by l = (ls_filter l, ls_stage l, ls_calls l)"

definition heard :: "'o informers \<Rightarrow> (nat option \<times> 'o delivery \<times> 'o handler_call list) list" where
  "heard w = map heard_by (si_listeners (shared w))"

lemma listeners_after_delta:
  assumes "processDelta acc rv init d s = Return (err, s')"
  shows "map heard_by (si_listeners s') = map heard_by (si_listeners s)"
proof -
  have dist: "map heard_by (si_listeners (distribute n b t)) = map heard_by (si_listeners t)"
    for n b and t :: "'a sharedIndexInformer"
    by (auto simp: distribute_def heard_by_def)
  have notify: "map heard_by (si_listeners s') = map heard_by (si_listeners s)"
    if "notify_with f r s = Return (err, s')"
       "\<And>t. map heard_by (si_listeners (f t)) = map heard_by (si_listeners t)" for f r
    using that by (auto simp: notify_with_def split: outcome.splits prod.splits option.splits)
  show ?thesis
    using assms
    by (auto simp: processDelta_def Let_def dist si_OnUpdate_def split: delta.splits prod.splits if_splits
        dest!: notify)
qed

lemma heard_simps [simp]:
  "heard (w\<lparr>filtered := fs\<rparr>) = heard w"
  "heard (w\<lparr>shared := (shared w)\<lparr>si_started := b\<rparr>\<rparr>) = heard w"
  "heard (w\<lparr>shared := (shared w)\<lparr>si_stopped := b\<rparr>\<rparr>) = heard w"
  by (simp_all add: heard_def)

text \<open>The filter of a listener, as it answers in a state.\<close>

definition asked :: "'o labels_of \<Rightarrow> 'o informers \<Rightarrow> nat option \<Rightarrow> 'o key_arg \<Rightarrow> bool" where
  "asked labels w flt = (case flt of None \<Rightarrow> (\<lambda>_. True) | Some i \<Rightarrow> filterFunc labels (filtered w ! i))"

inductive hear_step :: "'o labels_of \<Rightarrow> 'o informers \<Rightarrow> 'o informers \<Rightarrow> bool" for labels where
  quiet: "heard w' = heard w \<Longrightarrow> filtered w' = filtered w \<Longrightarrow> hear_step labels w w'"
| joined: "heard w' = heard w @ [(flt, Receive, [])] \<Longrightarrow> (\<And>i. flt = Some i \<Longrightarrow> i < length (filtered w)) \<Longrightarrow>
    filtered w' = filtered w \<Longrightarrow> hear_step labels w w'"
| informer: "heard w' = heard w \<Longrightarrow> filtered w' = filtered w @ [fi] \<Longrightarrow> hear_step labels w w'"
| received: "j < length (heard w) \<Longrightarrow> heard w ! j = (flt, Receive, cs) \<Longrightarrow>
    heard w' = (heard w)[j := (flt, dispatch flt n, cs)] \<Longrightarrow> filtered w' = filtered w \<Longrightarrow> hear_step labels w w'"
| asks: "j < length (heard w) \<Longrightarrow> heard w ! j = (flt, stage, cs) \<Longrightarrow>
    heard w' = (heard w)[j := (flt, filter_step (asked labels w flt) stage, cs)] \<Longrightarrow>
    filtered w' = filtered w \<Longrightarrow> hear_step labels w w'"
| called: "j < length (heard w) \<Longrightarrow> heard w ! j = (flt, Call c, cs) \<Longrightarrow>
    heard w' = (heard w)[j := (flt, Receive, cs @ [c])] \<Longrightarrow> filtered w' = filtered w \<Longrightarrow> hear_step labels w w'"
| cleaned: "i < length (filtered w) \<Longrightarrow> heard w' = heard w \<Longrightarrow>
    filtered w' = (filtered w)[i := (filtered w ! i)\<lparr>fi_stopped := True\<rparr>] \<Longrightarrow> hear_step labels w w'"

lemma heard_handler:
  assumes "si_AddEventHandler flt (shared w) = (err, s)"
  shows "heard (w\<lparr>shared := s\<rparr>) = heard w \<or> heard (w\<lparr>shared := s\<rparr>) = heard w @ [(flt, Receive, [])]"
  using assms by (auto simp: si_AddEventHandler_def heard_def heard_by_def Let_def split: if_splits)

lemma si_AddIndexers_listeners:
  "si_AddIndexers fs s = Return (err, s') \<Longrightarrow> si_listeners s' = si_listeners s"
  by (auto simp: si_AddIndexers_def split: if_splits outcome.splits)

lemma inf_step_heard: "inf_step acc labels rv w w' \<Longrightarrow> hear_step labels w w'"
proof (induction rule: inf_step.induct)
  case (make fkey val missing w i w')
  then show ?case
    by (intro hear_step.informer)
       (auto simp: NewFilteredInformer_def Let_def heard_def dest!: si_AddIndexers_listeners
          split: outcome.splits prod.splits if_splits)
next
  case (handler i w err w')
  then obtain s where s: "si_AddEventHandler (Some i) (shared w) = (err, s)" "w' = w\<lparr>shared := s\<rparr>"
    by (auto simp: fi_AddEventHandler_def split: prod.splits)
  from heard_handler [OF s(1)] show ?case
    using handler(1) unfolding s(2) by (auto intro: hear_step.quiet hear_step.joined)
next
  case (plain_handler w err s)
  from heard_handler [OF this] show ?case by (auto intro: hear_step.quiet hear_step.joined)
next
  case (delta w d init err s)
  then show ?case using listeners_after_delta by (auto simp: heard_def intro!: hear_step.quiet)
next
  case (delivery j w)
  let ?l = "si_listeners (shared w) ! j"
  have j: "j < length (heard w)" "heard w ! j = heard_by ?l" using delivery by (simp_all add: heard_def)
  have h: "heard (deliver labels j w) = (heard w)[j := heard_by (listener_step (listener_filter labels w ?l) ?l)]"
    "filtered (deliver labels j w) = filtered w"
    by (simp_all add: heard_def deliver_def Let_def map_update)
  have flt: "listener_filter labels w ?l = asked labels w (ls_filter ?l)"
    by (simp add: listener_filter_def asked_def)
  show ?case
  proof (cases "ls_stage ?l = Receive \<or> (\<exists>c. ls_stage ?l = Call c)")
    case False
    then have "heard_by (listener_step (listener_filter labels w ?l) ?l)
        = (ls_filter ?l, filter_step (asked labels w (ls_filter ?l)) (ls_stage ?l), ls_calls ?l)"
      unfolding flt by (cases "ls_stage ?l") (simp_all add: listener_step_def heard_by_def)
    with j h show ?thesis by (intro hear_step.asks [of j w "ls_filter ?l"]) (simp_all add: heard_by_def)
  next
    case True
    show ?thesis
    proof (cases "ls_stage ?l = Receive \<and> ls_pending ?l = []")
      case True
      with j h show ?thesis by (intro hear_step.quiet) (simp_all add: listener_step_def list_update_same_conv)
    next
      case False
      show ?thesis
      proof (cases "ls_stage ?l = Receive")
        case True
        with False obtain n ns where "ls_pending ?l = n # ns" by (auto simp: neq_Nil_conv)
        with True j h show ?thesis
          by (intro hear_step.received [of j w "ls_filter ?l" _ _ n]) (simp_all add: listener_step_def heard_by_def)
      next
        case False
        with \<open>ls_stage ?l = Receive \<or> _\<close> obtain c where "ls_stage ?l = Call c" by blast
        with j h show ?thesis
          by (intro hear_step.called [of j w "ls_filter ?l" c]) (simp_all add: listener_step_def heard_by_def)
      qed
    qed
  qed
next
  case (resync flags w)
  have "heard (w\<lparr>shared := (shared w)\<lparr>si_listeners :=
      map2 (\<lambda>l b. l\<lparr>ls_syncing := b\<rparr>) (si_listeners (shared w)) flags\<rparr>\<rparr>) = heard w"
    using resync by (simp add: heard_def heard_by_def list_eq_iff_nth_eq)
  then show ?case by (intro hear_step.quiet) simp_all
next
  case (cleanup i w)
  then show ?case
    by (intro hear_step.cleaned [of i]) (simp_all add: fi_Cleanup_def RemoveEventHandlers_def heard_def)
qed (auto intro: hear_step.quiet)


text \<open>What a handler was told, and what it may still be told of the delivery in progress, matches.\<close>

definition entry_match ::
  "'o labels_of \<Rightarrow> ProviderConfigFilteredInformer list \<Rightarrow> nat option \<times> 'o delivery \<times> 'o handler_call list \<Rightarrow> bool" where
  "entry_match labels fs h \<longleftrightarrow>
     (case h of (flt, stage, cs) \<Rightarrow> \<forall>i. flt = Some i \<longrightarrow> i < length fs \<and>
        (\<forall>c\<in>set cs. \<forall>x\<in>call_objects c. matches labels (fs ! i) x) \<and>
        (\<forall>c. stage = Call c \<longrightarrow> (\<forall>x\<in>call_objects c. matches labels (fs ! i) x)) \<and>
        (\<forall>old new. stage = Filter_old old new True \<longrightarrow> matches labels (fs ! i) new))"

definition heard_match :: "'o labels_of \<Rightarrow> 'o informers \<Rightarrow> bool" where
  "heard_match labels w \<longleftrightarrow> (\<forall>h\<in>set (heard w). entry_match labels (filtered w) h)"

lemma matches_stopped [simp]: "matches labels (i\<lparr>fi_stopped := b\<rparr>) = matches labels i"
  by (simp add: matches_def fun_eq_iff)

lemma heard_match_update:
  assumes "heard_match labels w" and "heard w' = (heard w)[j := h]" and "filtered w' = filtered w"
    and "entry_match labels (filtered w) h"
  shows "heard_match labels w'"
  using assms set_update_subset_insert [of "heard w" j h] unfolding heard_match_def by auto

lemma entry_match_at:
  "heard_match labels w \<Longrightarrow> j < length (heard w) \<Longrightarrow> entry_match labels (filtered w) (heard w ! j)"
  by (simp add: heard_match_def)

lemma entry_match_filter:
  assumes "entry_match labels (filtered w) (flt, stage, cs)"
  shows "entry_match labels (filtered w) (flt, filter_step (asked labels w flt) stage, cs)"
  using assms
  by (cases stage) (auto simp: entry_match_def asked_def Let_def dest: filterFunc_matches)

lemma heard_match_step: "hear_step labels w w' \<Longrightarrow> heard_match labels w \<Longrightarrow> heard_match labels w'"
proof (induction rule: hear_step.induct)
  case (informer w' w fi)
  then show ?case by (fastforce simp: heard_match_def entry_match_def nth_append)
next
  case (received j w flt cs w' n)
  then show ?case
    using entry_match_at [OF received(5,1)]
    by (intro heard_match_update [OF received(5,3,4)])
       (cases flt; cases n; simp add: entry_match_def)
next
  case (asks j w flt stage cs w')
  then show ?case
    using entry_match_at [OF asks(5,1)]
    by (intro heard_match_update [OF asks(5,3,4)] entry_match_filter) simp
next
  case (called j w flt c cs w')
  then show ?case
    using entry_match_at [OF called(5,1)]
    by (intro heard_match_update [OF called(5,3,4)]) (auto simp: entry_match_def)
next
  case (cleaned i w w')
  then show ?case by (auto simp: heard_match_def entry_match_def nth_list_update)
qed (auto simp: heard_match_def entry_match_def)

lemma heard_match_reachable: "inf_reachable acc labels rv w \<Longrightarrow> heard_match labels w"
proof (induction rule: inf_reachable.induct)
  case (created fs)
  show ?case by (simp add: heard_match_def heard_def new_informers_def)
next
  case (stepped w w')
  then show ?case using heard_match_step inf_step_heard by blast
qed

text \<open>
  The one call a listener of a cleaned informer may still make: the filter had let the object
  through before. Between its two filter calls an update of a matching object becomes an addition.
\<close>

definition late_call :: "'o delivery \<Rightarrow> 'o handler_call option" where
  "late_call stage =
     (case stage of
        Call c \<Rightarrow> Some c
      | Filter_old old new newer \<Rightarrow> if newer then Some (OnAdd new False) else None
      | _ \<Rightarrow> None)"

lemma late_call_simps [simp]:
  "late_call Receive = None" "late_call (Call c) = Some c"
  "late_call (dispatch (Some i) n) = None"
  "late_call (filter_step (\<lambda>x. False) stage) = late_call stage"
proof -
  show "late_call (dispatch (Some i) n) = None" by (cases n) (simp_all add: late_call_def)
  show "late_call (filter_step (\<lambda>x. False) stage) = late_call stage"
    by (cases stage) (simp_all add: late_call_def Let_def)
qed (simp_all add: late_call_def)

text \<open>From \<open>cs\<close> calls at the cleanup, and the late call \<open>lc\<close>, the listener has come no further.\<close>

definition deaf ::
  "nat \<Rightarrow> nat \<Rightarrow> 'o handler_call list \<Rightarrow> 'o handler_call option \<Rightarrow> 'o informers \<Rightarrow> bool" where
  "deaf i j cs lc w \<longleftrightarrow> j < length (heard w) \<and> i < length (filtered w) \<and> fi_stopped (filtered w ! i) \<and>
     (\<exists>stage cs'. heard w ! j = (Some i, stage, cs') \<and>
        (cs' = cs \<and> late_call stage = lc \<or> late_call stage = None \<and> (\<exists>c. lc = Some c \<and> cs' = cs @ [c])))"

lemma asked_stopped: "fi_stopped (filtered w ! i) \<Longrightarrow> asked labels w (Some i) = (\<lambda>x. False)"
  by (simp add: asked_def filterFunc_def fun_eq_iff)

lemma deaf_update:
  assumes "deaf i j cs lc w" and "heard w' = (heard w)[j' := h]" and "filtered w' = filtered w"
    and "j' = j \<Longrightarrow> \<exists>stage cs'. h = (Some i, stage, cs') \<and>
        (cs' = cs \<and> late_call stage = lc \<or> late_call stage = None \<and> (\<exists>c. lc = Some c \<and> cs' = cs @ [c]))"
  shows "deaf i j cs lc w'"
  using assms by (cases "j' = j") (auto simp: deaf_def)

lemma deaf_step: "hear_step labels w w' \<Longrightarrow> deaf i j cs lc w \<Longrightarrow> deaf i j cs lc w'"
proof (induction rule: hear_step.induct)
  case (received j' w flt cs' w' n)
  then show ?case by (intro deaf_update [OF received(5,3,4)]) (auto simp: deaf_def)
next
  case (asks j' w flt stage cs' w')
  then have "asked labels w (Some i) = (\<lambda>x. False)" by (intro asked_stopped) (simp add: deaf_def)
  with asks show ?case by (intro deaf_update [OF asks(5,3,4)]) (auto simp: deaf_def)
next
  case (called j' w flt c cs' w')
  then show ?case by (intro deaf_update [OF called(5,3,4)]) (auto simp: deaf_def)
next
  case (cleaned i' w w')
  then show ?case by (cases "i' = i") (auto simp: deaf_def)
qed (auto simp: deaf_def nth_append)


section \<open>Properties\<close>

text \<open>C3. Refinement: in every reachable state, a handler registered with a tenant's informer that
  has been told of everything pending knows, by replaying its calls, exactly the objects of the
  store that the tenant may see, however the deltas, late registrations and deliveries interleave.\<close>

theorem handler_knows_view:
  assumes "inf_reachable acc labels rv w" and "l \<in> set (si_listeners (shared w))"
    and "ls_filter l = Some i" and "\<not> fi_stopped (filtered w ! i)"
    and "ls_pending l = []" and "ls_stage l = Receive"
  shows "replay acc (ls_calls l) = tenant_view labels (filtered w ! i) (tsm_Get (si_indexer (shared w)))"
proof -
  have "in_step acc labels (filtered w) (tsm_Get (si_indexer (shared w))) l"
    using inf_invD(4) [OF inf_reachable_inv [OF assms(1)]] assms(2) by blast
  then show ?thesis using assms(3-6) by (simp add: in_step_def due_calls_def)
qed

text \<open>A handler registered with a tenant's informer is never told of an object, as old or as new,
  that does not match the tenant's filter.\<close>

theorem handler_hears_only_matches:
  assumes "inf_reachable acc labels rv w" and "l \<in> set (si_listeners (shared w))"
    and "ls_filter l = Some i" and "c \<in> set (ls_calls l)" and "x \<in> call_objects c"
  shows "isObjectMatchingValue labels x (fi_filterKey (filtered w ! i)) (fi_filterValue (filtered w ! i))
           (fi_allowMissing (filtered w ! i))"
proof -
  have "(ls_filter l, ls_stage l, ls_calls l) \<in> set (heard w)"
    using assms(2) by (force simp: heard_def heard_by_def)
  then have "entry_match labels (filtered w) (ls_filter l, ls_stage l, ls_calls l)"
    using heard_match_reachable [OF assms(1)] unfolding heard_match_def by blast
  then show ?thesis using assms(3-5) by (simp add: entry_match_def matches_def)
qed

text \<open>C26. After \<open>Cleanup\<close> of an informer a handler of it is told of nothing that its filter had not let
  through before. Whatever happens next, the calls of the handler stay those it had, except for one
  call of the delivery that was in progress: the call that was about to be made, or, when \<open>Cleanup\<close>
  came between the two filter calls of an update whose new object had matched, an addition of it. The
  notifications queued for the handler, and one received whose object was not yet let through, are
  dropped.\<close>

theorem silent_after_cleanup:
  assumes "(inf_step acc labels rv)\<^sup>*\<^sup>* (fi_Cleanup i w) w'"
    and "i < length (filtered w)" "j < length (si_listeners (shared w))"
    and "ls_filter (si_listeners (shared w) ! j) = Some i"
  shows "let before = si_listeners (shared w) ! j; after = si_listeners (shared w') ! j
    in ls_calls after = ls_calls before \<or>
       (\<exists>c. ls_calls after = ls_calls before @ [c] \<and>
          (ls_stage before = Call c \<or>
           (\<exists>old new. ls_stage before = Filter_old old new True \<and> c = OnAdd new False)))"
proof -
  let ?l = "si_listeners (shared w) ! j"
  have "deaf i j (ls_calls ?l) (late_call (ls_stage ?l)) (fi_Cleanup i w)"
    using assms(2-4) by (simp add: deaf_def heard_def heard_by_def fi_Cleanup_def RemoveEventHandlers_def)
  with assms(1) have "deaf i j (ls_calls ?l) (late_call (ls_stage ?l)) w'"
    by (induction rule: rtranclp_induct) (blast intro: deaf_step inf_step_heard)+
  then have "ls_calls (si_listeners (shared w') ! j) = ls_calls ?l \<or>
      (\<exists>c. ls_calls (si_listeners (shared w') ! j) = ls_calls ?l @ [c] \<and> late_call (ls_stage ?l) = Some c)"
    by (auto simp: deaf_def heard_def heard_by_def)
  then show ?thesis by (auto simp: Let_def late_call_def split: delivery.splits if_splits)
qed


section \<open>A run\<close>

text \<open>An informer for tenant \<open>t1\<close>, a handler, and one node of \<open>t1\<close> that arrives and is delivered.\<close>

definition n1 :: "object_meta key_arg" where
  "n1 = MetaObject (node ''n1'' (tenant_label ''t1''))"

definition demo_informer :: ProviderConfigFilteredInformer where
  "demo_informer = \<lparr>fi_filterKey = providerConfigLabel, fi_filterValue = ''t1'',
     fi_allowMissing = False, fi_stopped = False\<rparr>"

definition demo_world :: "object_meta listener \<Rightarrow> (string \<times> object_meta key_arg) list \<Rightarrow> (string \<times> index) list
    \<Rightarrow> object_meta informers" where
  "demo_world l its idxs =
     \<lparr>shared = \<lparr>si_indexer = \<lparr>items = its, index_of =
          \<lparr>indexers = [(providerConfigLabel, NewLabelIndexFunc om_GetLabels providerConfigLabel)], indices = idxs\<rparr>\<rparr>,
        si_started = True, si_stopped = False, si_listeners = [l]\<rparr>,
      filtered = [demo_informer]\<rparr>"

definition demo_at :: "object_meta notification list \<Rightarrow> object_meta delivery \<Rightarrow> object_meta handler_call list
    \<Rightarrow> object_meta listener" where
  "demo_at ns stage cs = \<lparr>ls_filter = Some 0, ls_syncing = True, ls_pending = ns, ls_stage = stage, ls_calls = cs\<rparr>"

abbreviation demo_listener :: "object_meta notification list \<Rightarrow> object_meta handler_call list \<Rightarrow> object_meta listener" where
  "demo_listener ns cs \<equiv> demo_at ns Receive cs"

abbreviation demo_reachable :: "object_meta informers \<Rightarrow> bool" where
  "demo_reachable \<equiv> inf_reachable om_accessor om_GetLabels om_ResourceVersion"

lemma demo_start: "demo_reachable (demo_world (demo_listener [] []) [] [])"
proof -
  let ?w0 = "new_informers [] :: object_meta informers"
  obtain w1 where w1: "NewFilteredInformer om_GetLabels providerConfigLabel ''t1'' False ?w0 = Return (0, w1)"
      and w1_eq: "w1 = \<lparr>shared = \<lparr>si_indexer = \<lparr>items = [], index_of = \<lparr>indexers =
          [(providerConfigLabel, NewLabelIndexFunc om_GetLabels providerConfigLabel)], indices = []\<rparr>\<rparr>,
        si_started = False, si_stopped = False, si_listeners = []\<rparr>, filtered = [demo_informer]\<rparr>"
    by (simp add: NewFilteredInformer_def new_informers_def NewThreadSafeStore_def tsm_GetIndexers_def
        si_AddIndexers_def tsm_AddIndexers_def addIndexers_def demo_informer_def)
  have r1: "demo_reachable w1"
    by (rule inf_reachable.stepped [OF inf_reachable.created inf_step.make [OF w1]]) simp
  obtain err w2 where w2: "fi_AddEventHandler 0 w1 = (err, w2)" by fastforce
  have "demo_reachable w2"
    by (rule inf_reachable.stepped [OF r1 inf_step.handler [OF _ w2]]) (simp add: w1_eq)
  from inf_reachable.stepped [OF this inf_step.run] show ?thesis
    using w2 by (auto simp: w1_eq fi_AddEventHandler_def si_AddEventHandler_def demo_world_def demo_at_def)
qed

lemma n1_key: "DeletionHandlingMetaNamespaceKeyFunc om_accessor n1 = Inr ''n1''"
  by (simp add: n1_def key_defs)

lemma n1_label: "NewLabelIndexFunc om_GetLabels providerConfigLabel n1 = Inr (Some [''t1''])"
  by (simp add: n1_def NewLabelIndexFunc_def meta_Accessor_def)

lemma n1_matches: "isObjectMatchingValue om_GetLabels n1 providerConfigLabel ''t1'' False"
  by (simp add: n1_def)

lemma demo_delta:
  "\<exists>idxs. demo_reachable (demo_world (demo_listener [addNotification n1 False] []) [(''n1'', n1)] idxs)"
proof -
  let ?w = "demo_world (demo_listener [] []) [] []"
  have "\<exists>idxs. processDelta om_accessor om_ResourceVersion False (Upsert n1) (shared ?w)
      = Return (None, shared (demo_world (demo_listener [addNotification n1 False] []) [(''n1'', n1)] idxs))"
    by (simp add: processDelta_def Let_def cache_Get_def cache_GetByKey_def n1_key tsm_Get_def found_def
        notify_with_def cache_Add_def tsm_Update_def updateIndices_def updateSingleIndex_def values_of_def
        n1_label distribute_def demo_world_def demo_at_def)
  then obtain idxs where "processDelta om_accessor om_ResourceVersion False (Upsert n1) (shared ?w)
      = Return (None, shared (demo_world (demo_listener [addNotification n1 False] []) [(''n1'', n1)] idxs))" ..
  then have "inf_step om_accessor om_GetLabels om_ResourceVersion ?w
      (?w\<lparr>shared := shared (demo_world (demo_listener [addNotification n1 False] []) [(''n1'', n1)] idxs)\<rparr>)"
    by (rule inf_step.delta [rotated 2]) (simp_all add: demo_world_def server_delta_def tsm_Get_def n1_def)
  from inf_reachable.stepped [OF demo_start this] show ?thesis
    by (intro exI [of _ idxs]) (simp add: demo_world_def)
qed

lemma demo_step:
  assumes "demo_reachable (demo_world l its idxs)"
    and "listener_step (filterFunc om_GetLabels demo_informer) l = l'" and "ls_filter l = Some 0"
  shows "demo_reachable (demo_world l' its idxs)"
proof -
  have "deliver om_GetLabels 0 (demo_world l its idxs) = demo_world l' its idxs"
    using assms(2,3) by (simp add: deliver_def demo_world_def listener_filter_def)
  then show ?thesis
    using inf_reachable.stepped [OF assms(1) inf_step.delivery [of 0]] by (simp add: demo_world_def)
qed

lemma demo_filter: "filterFunc om_GetLabels demo_informer n1"
  using n1_matches by (simp add: filterFunc_def demo_informer_def)

text \<open>The addition is received and let through, then the handler is called.\<close>

lemma demo_calling:
  obtains idxs where "demo_reachable (demo_world (demo_at [] (Call (OnAdd n1 False)) []) [(''n1'', n1)] idxs)"
proof -
  from demo_delta obtain idxs where
    "demo_reachable (demo_world (demo_listener [addNotification n1 False] []) [(''n1'', n1)] idxs)" ..
  then have "demo_reachable (demo_world (demo_at [] (Filter_add n1 False) []) [(''n1'', n1)] idxs)"
    by (rule demo_step) (simp_all add: listener_step_def demo_at_def)
  then have "demo_reachable (demo_world (demo_at [] (Call (OnAdd n1 False)) []) [(''n1'', n1)] idxs)"
    by (rule demo_step) (simp_all add: listener_step_def demo_at_def demo_filter)
  then show thesis by (rule that)
qed

lemma demo_delivered:
  obtains idxs where "demo_reachable (demo_world (demo_listener [] [OnAdd n1 False]) [(''n1'', n1)] idxs)"
proof -
  obtain idxs where "demo_reachable (demo_world (demo_at [] (Call (OnAdd n1 False)) []) [(''n1'', n1)] idxs)"
    by (rule demo_calling)
  then have "demo_reachable (demo_world (demo_listener [] [OnAdd n1 False]) [(''n1'', n1)] idxs)"
    by (rule demo_step) (simp_all add: listener_step_def demo_at_def)
  then show thesis by (rule that)
qed

theorem handler_knows_view_witness:
  "\<exists>idxs. replay om_accessor [OnAdd n1 False]
     = tenant_view om_GetLabels demo_informer
         (tsm_Get (si_indexer (shared (demo_world (demo_listener [] [OnAdd n1 False]) [(''n1'', n1)] idxs))))"
proof -
  obtain idxs where "demo_reachable (demo_world (demo_listener [] [OnAdd n1 False]) [(''n1'', n1)] idxs)"
    by (rule demo_delivered)
  from handler_knows_view [OF this, of "demo_listener [] [OnAdd n1 False]" 0] show ?thesis
    by (intro exI [of _ idxs]) (simp add: demo_world_def demo_at_def demo_informer_def)
qed

theorem handler_hears_only_matches_witness:
  "isObjectMatchingValue om_GetLabels n1 providerConfigLabel ''t1'' False"
proof -
  obtain idxs where "demo_reachable (demo_world (demo_listener [] [OnAdd n1 False]) [(''n1'', n1)] idxs)"
    by (rule demo_delivered)
  from handler_hears_only_matches [OF this, of "demo_listener [] [OnAdd n1 False]" 0 "OnAdd n1 False" n1]
  show ?thesis by (simp add: demo_world_def demo_at_def demo_informer_def)
qed

text \<open>
  Cleaned up before the filter was asked, the informer drops the notification; cleaned up after it, the
  handler is still called, in a state that can be reached, and never again.
\<close>

lemma inf_steps_deliver:
  "j < length (si_listeners (shared w)) \<Longrightarrow> inf_step acc labels rv w (deliver labels j w)"
  by (rule inf_step.delivery)

theorem silent_after_cleanup_witness:
  "\<exists>idxs. let w = demo_world (demo_at [] (Call (OnAdd n1 False)) []) [(''n1'', n1)] idxs;
       w' = deliver om_GetLabels 0 (fi_Cleanup 0 w); w'' = deliver om_GetLabels 0 w'
     in demo_reachable w \<and> ls_calls (si_listeners (shared w') ! 0) = [OnAdd n1 False] \<and>
        ls_calls (si_listeners (shared w'') ! 0) = [OnAdd n1 False]"
proof -
  obtain idxs where r: "demo_reachable (demo_world (demo_at [] (Call (OnAdd n1 False)) []) [(''n1'', n1)] idxs)"
    by (rule demo_calling)
  define w where "w = demo_world (demo_at [] (Call (OnAdd n1 False)) []) [(''n1'', n1)] idxs"
  define w' where "w' = deliver om_GetLabels 0 (fi_Cleanup 0 w)"
  let ?step = "inf_step om_accessor om_GetLabels om_ResourceVersion"
  note defs = w_def w'_def demo_world_def fi_Cleanup_def RemoveEventHandlers_def deliver_def Let_def
  have "?step (fi_Cleanup 0 w) w'" unfolding w'_def by (rule inf_steps_deliver) (simp add: defs)
  moreover have "?step w' (deliver om_GetLabels 0 w')" by (rule inf_steps_deliver) (simp add: defs)
  ultimately have "?step\<^sup>*\<^sup>* (fi_Cleanup 0 w) (deliver om_GetLabels 0 w')" by (meson r_into_rtranclp rtranclp_trans)
  from silent_after_cleanup [OF this, of 0]
  have "ls_calls (si_listeners (shared (deliver om_GetLabels 0 w')) ! 0) \<in> {[], [OnAdd n1 False]}"
    by (auto simp: w_def demo_world_def demo_at_def Let_def)
  moreover have "ls_calls (si_listeners (shared w') ! 0) = [OnAdd n1 False]"
    by (simp add: defs demo_at_def listener_step_def)
  moreover have "ls_calls (si_listeners (shared (deliver om_GetLabels 0 w')) ! 0) = [OnAdd n1 False]"
    by (simp add: defs demo_at_def listener_step_def)
  ultimately show ?thesis using r by (intro exI [of _ idxs]) (simp add: Let_def w_def w'_def)
qed

end
