(* ===== verification/SchemeRegister.thy ===== *)
theory SchemeRegister imports MTPrelude Unstructured ObjectTracker begin

text \<open>
  The type registry: \<open>runtime.Scheme\<close> (\<open>vendor/k8s.io/apimachinery/pkg/runtime/scheme.go\<close>,
  \<open>scheme_builder.go\<close>, \<open>pkg/apis/meta/v1/register.go\<close>) and what this repository registers in
  it: \<open>zz_generated.register.go\<close> of the ProviderConfig and the Tenant package and the two
  clientset schemes (\<open>scheme/register.go\<close>, and \<open>fake/register.go\<close> for the fake clientsets).

  A Go type is its package and its name. Conversion and defaulting functions are left out.
\<close>

section \<open>Schemes\<close>

record go_type =
  ty_pkg :: string
  ty_name :: string

record Scheme =
  gvkToType :: "gvk \<rightharpoonup> go_type"
  typeToGVK :: "go_type \<Rightarrow> gvk list"
  unversionedTypes :: "go_type \<rightharpoonup> gvk"
  unversionedKinds :: "string \<rightharpoonup> go_type"
  observedVersions :: "GroupVersion list"

definition NewScheme :: Scheme where
  "NewScheme = \<lparr>gvkToType = Map.empty, typeToGVK = (\<lambda>_. []), unversionedTypes = Map.empty,
     unversionedKinds = Map.empty, observedVersions = []\<rparr>"

definition APIVersionInternal :: string where
  "APIVersionInternal = ''__internal''"

definition addObservedVersion :: "GroupVersion \<Rightarrow> Scheme \<Rightarrow> Scheme" where
  "addObservedVersion version s =
     (if gv_version version = [] \<or> gv_version version = APIVersionInternal then s
      else if version \<in> set (observedVersions s) then s
      else s\<lparr>observedVersions := observedVersions s @ [version]\<rparr>)"

definition gvk_GroupVersion :: "gvk \<Rightarrow> GroupVersion" where
  "gvk_GroupVersion k = \<lparr>gv_group = gvk_group k, gv_version = gvk_version k\<rparr>"

definition AddKnownTypeWithName :: "gvk \<Rightarrow> go_type \<Rightarrow> Scheme \<Rightarrow> Scheme outcome" where
  "AddKnownTypeWithName k t s =
     (let s = addObservedVersion (gvk_GroupVersion k) s
      in if gvk_version k = [] then Panic ''version is required on all types''
         else if (case gvkToType s k of None \<Rightarrow> False | Some oldT \<Rightarrow> oldT \<noteq> t)
         then Panic ''Double registration of different types''
         else
           let s = s\<lparr>gvkToType := (gvkToType s)(k \<mapsto> t)\<rparr>
           in if k \<in> set (typeToGVK s t) then Return s
              else Return (s\<lparr>typeToGVK := (typeToGVK s)(t := typeToGVK s t @ [k])\<rparr>))"

fun add_types :: "GroupVersion \<Rightarrow> go_type list \<Rightarrow> Scheme \<Rightarrow> Scheme outcome" where
  "add_types gv [] s = Return s"
| "add_types gv (t # ts) s =
     (case AddKnownTypeWithName (WithKind gv (ty_name t)) t s of
        Panic msg \<Rightarrow> Panic msg
      | Return s \<Rightarrow> add_types gv ts s)"

definition AddKnownTypes :: "GroupVersion \<Rightarrow> go_type list \<Rightarrow> Scheme \<Rightarrow> Scheme outcome" where
  "AddKnownTypes gv types s = add_types gv types (addObservedVersion gv s)"

fun add_unversioned :: "GroupVersion \<Rightarrow> go_type list \<Rightarrow> Scheme \<Rightarrow> Scheme outcome" where
  "add_unversioned version [] s = Return s"
| "add_unversioned version (t # ts) s =
     (let k = WithKind version (ty_name t);
          s = s\<lparr>unversionedTypes := (unversionedTypes s)(t \<mapsto> k)\<rparr>
      in if (case unversionedKinds s (gvk_kind k) of None \<Rightarrow> False | Some old \<Rightarrow> t \<noteq> old)
         then Panic ''kind name must be unique in scheme''
         else add_unversioned version ts
                (s\<lparr>unversionedKinds := (unversionedKinds s)(gvk_kind k \<mapsto> t)\<rparr>))"

definition AddUnversionedTypes :: "GroupVersion \<Rightarrow> go_type list \<Rightarrow> Scheme \<Rightarrow> Scheme outcome" where
  "AddUnversionedTypes version types s =
     (case AddKnownTypes version types (addObservedVersion version s) of
        Panic msg \<Rightarrow> Panic msg
      | Return s \<Rightarrow> add_unversioned version types s)"

section \<open>Scheme builders\<close>

type_synonym SchemeBuilder = "(Scheme \<Rightarrow> (error \<times> Scheme) outcome) list"

fun AddToScheme :: "SchemeBuilder \<Rightarrow> Scheme \<Rightarrow> (error \<times> Scheme) outcome" where
  "AddToScheme [] s = Return (None, s)"
| "AddToScheme (f # fs) s =
     (case f s of
        Panic msg \<Rightarrow> Panic msg
      | Return (Some err, s) \<Rightarrow> Return (Some err, s)
      | Return (None, s) \<Rightarrow> AddToScheme fs s)"

definition sb_Register :: "SchemeBuilder \<Rightarrow> SchemeBuilder \<Rightarrow> SchemeBuilder" where
  "sb_Register sb funcs = sb @ funcs"

section \<open>The meta types every group version gets\<close>

definition metav1 :: "string \<Rightarrow> go_type" where
  "metav1 n = \<lparr>ty_pkg = ''k8s.io/apimachinery/pkg/apis/meta/v1'', ty_name = n\<rparr>"

definition optionsTypes :: "go_type list" where
  "optionsTypes = map metav1 [''ListOptions'', ''GetOptions'', ''DeleteOptions'', ''CreateOptions'',
     ''UpdateOptions'', ''PatchOptions'']"

definition Unversioned :: GroupVersion where
  "Unversioned = \<lparr>gv_group = [], gv_version = ''v1''\<rparr>"

definition bind_scheme :: "Scheme outcome \<Rightarrow> (Scheme \<Rightarrow> 'a outcome) \<Rightarrow> 'a outcome" where
  "bind_scheme r f = (case r of Panic msg \<Rightarrow> Panic msg | Return s \<Rightarrow> f s)"

definition AddToGroupVersion :: "GroupVersion \<Rightarrow> Scheme \<Rightarrow> Scheme outcome" where
  "AddToGroupVersion gv s =
     bind_scheme (AddKnownTypeWithName (WithKind gv ''WatchEvent'') (metav1 ''WatchEvent'') s) (\<lambda>s.
     bind_scheme (AddKnownTypeWithName
         (WithKind \<lparr>gv_group = gv_group gv, gv_version = APIVersionInternal\<rparr> ''WatchEvent'')
         (metav1 ''InternalEvent'') s) (\<lambda>s.
     bind_scheme (AddKnownTypes gv optionsTypes s) (\<lambda>s.
     AddUnversionedTypes Unversioned
       (map metav1 [''Status'', ''APIVersions'', ''APIGroupList'', ''APIGroup'', ''APIResourceList'']) s)))"

section \<open>ProviderConfig: zz_generated.register.go\<close>

definition pc_GroupName :: string where
  "pc_GroupName = ''cloud.gke.io''"

definition pc_SchemeGroupVersion :: GroupVersion where
  "pc_SchemeGroupVersion = \<lparr>gv_group = pc_GroupName, gv_version = ''v1_kubernetes_apis''\<rparr>"

definition WithResource :: "GroupVersion \<Rightarrow> string \<Rightarrow> GroupVersionResource" where
  "WithResource gv resource =
     \<lparr>gvr_group = gv_group gv, gvr_version = gv_version gv, gvr_resource = resource\<rparr>"

text \<open>A group resource is a resource whose version is not looked at.\<close>

definition GroupResource :: "GroupVersionResource \<Rightarrow> GroupVersionResource" where
  "GroupResource r = r\<lparr>gvr_version := []\<rparr>"

definition pc_Resource :: "string \<Rightarrow> GroupVersionResource" where
  "pc_Resource resource = GroupResource (WithResource pc_SchemeGroupVersion resource)"

definition pc_type :: "string \<Rightarrow> go_type" where
  "pc_type n = \<lparr>ty_pkg =
     ''github.com/GoogleCloudPlatform/gke-enterprise-mt/pkg/apis/providerconfig/v1_kubernetes_apis'', ty_name = n\<rparr>"

definition pc_addKnownTypes :: "Scheme \<Rightarrow> (error \<times> Scheme) outcome" where
  "pc_addKnownTypes scheme =
     bind_scheme (AddKnownTypes pc_SchemeGroupVersion [pc_type ''ProviderConfig'', pc_type ''ProviderConfigList''] scheme)
       (\<lambda>scheme. bind_scheme (AddToGroupVersion pc_SchemeGroupVersion scheme) (\<lambda>scheme. Return (None, scheme)))"

text \<open>The package's builder after its \<open>init\<close>.\<close>

definition pc_SchemeBuilder :: SchemeBuilder where
  "pc_SchemeBuilder = sb_Register [] [pc_addKnownTypes]"

section \<open>Tenant: zz_generated.register.go\<close>

definition tenant_GroupName :: string where
  "tenant_GroupName = ''tenancy.gke.io''"

definition tenant_SchemeGroupVersion :: GroupVersion where
  "tenant_SchemeGroupVersion = \<lparr>gv_group = tenant_GroupName, gv_version = ''v1_kubernetes_apis''\<rparr>"

definition tenant_Resource :: "string \<Rightarrow> GroupVersionResource" where
  "tenant_Resource resource = GroupResource (WithResource tenant_SchemeGroupVersion resource)"

definition tenant_type :: "string \<Rightarrow> go_type" where
  "tenant_type n = \<lparr>ty_pkg =
     ''github.com/GoogleCloudPlatform/gke-enterprise-mt/pkg/apis/tenant/v1_kubernetes_apis'', ty_name = n\<rparr>"

definition tenant_addKnownTypes :: "Scheme \<Rightarrow> (error \<times> Scheme) outcome" where
  "tenant_addKnownTypes scheme =
     bind_scheme (AddKnownTypes tenant_SchemeGroupVersion [tenant_type ''Tenant'', tenant_type ''TenantList''] scheme)
       (\<lambda>scheme. bind_scheme (AddToGroupVersion tenant_SchemeGroupVersion scheme) (\<lambda>scheme. Return (None, scheme)))"

definition tenant_SchemeBuilder :: SchemeBuilder where
  "tenant_SchemeBuilder = sb_Register [] [tenant_addKnownTypes]"

section \<open>The clientsets' schemes\<close>

text \<open>The package variable and \<open>init\<close> of \<open>scheme/register.go\<close>: a failing builder panics (\<open>Must\<close>).\<close>

definition init_scheme :: "SchemeBuilder \<Rightarrow> Scheme outcome" where
  "init_scheme sb =
     bind_scheme (AddToGroupVersion \<lparr>gv_group = [], gv_version = ''v1''\<rparr> NewScheme) (\<lambda>s.
       case AddToScheme sb s of
         Panic msg \<Rightarrow> Panic msg
       | Return (Some err, s) \<Rightarrow> Panic ''Must''
       | Return (None, s) \<Rightarrow> Return s)"

definition pc_clientset_scheme :: "Scheme outcome" where
  "pc_clientset_scheme = init_scheme [AddToScheme pc_SchemeBuilder]"

definition tenant_clientset_scheme :: "Scheme outcome" where
  "tenant_clientset_scheme = init_scheme [AddToScheme tenant_SchemeBuilder]"

text \<open>The fake clientsets keep schemes of their own, made the same way.\<close>

definition pc_fake_scheme :: "Scheme outcome" where
  "pc_fake_scheme = init_scheme [AddToScheme pc_SchemeBuilder]"

definition tenant_fake_scheme :: "Scheme outcome" where
  "tenant_fake_scheme = init_scheme [AddToScheme tenant_SchemeBuilder]"

section \<open>Registrations\<close>

text \<open>A scheme is well-formed when its two tables agree and every kind has a version.\<close>

definition scheme_ok :: "Scheme \<Rightarrow> bool" where
  "scheme_ok s \<longleftrightarrow>
     (\<forall>k t. gvkToType s k = Some t \<longleftrightarrow> k \<in> set (typeToGVK s t)) \<and>
     (\<forall>t. distinct (typeToGVK s t)) \<and> (\<forall>k\<in>dom (gvkToType s). gvk_version k \<noteq> [])"

lemma NewScheme_ok: "scheme_ok NewScheme"
  by (simp add: scheme_ok_def NewScheme_def)

lemma addObservedVersion_types [simp]:
  "gvkToType (addObservedVersion v s) = gvkToType s" "typeToGVK (addObservedVersion v s) = typeToGVK s"
  "unversionedKinds (addObservedVersion v s) = unversionedKinds s"
  by (simp_all add: addObservedVersion_def)

lemma addObservedVersion_ok [simp]: "scheme_ok (addObservedVersion v s) = scheme_ok s"
  by (simp add: scheme_ok_def)

text \<open>What a registration needs and what it leaves: the kind is free or already this type's.\<close>

lemma AddKnownTypeWithName_returns:
  assumes "gvk_version k \<noteq> []" "gvkToType s k = None \<or> gvkToType s k = Some t"
  obtains s' where "AddKnownTypeWithName k t s = Return s'" "gvkToType s' = (gvkToType s)(k \<mapsto> t)"
    "unversionedKinds s' = unversionedKinds s"
proof -
  have "\<exists>s'. AddKnownTypeWithName k t s = Return s' \<and> gvkToType s' = (gvkToType s)(k \<mapsto> t)
      \<and> unversionedKinds s' = unversionedKinds s"
    using assms by (cases "k \<in> set (typeToGVK s t)") (auto simp: AddKnownTypeWithName_def Let_def)
  then show thesis using that by blast
qed

lemma AddKnownTypeWithName_ok:
  assumes "scheme_ok s" "AddKnownTypeWithName k t s = Return s'"
  shows "scheme_ok s'"
proof -
  let ?s = "(addObservedVersion (gvk_GroupVersion k) s)\<lparr>gvkToType := (gvkToType s)(k \<mapsto> t)\<rparr>"
  have v: "gvk_version k \<noteq> []" and free: "gvkToType s k = None \<or> gvkToType s k = Some t"
    using assms(2) by (cases "gvkToType s k"; auto simp: AddKnownTypeWithName_def Let_def split: if_splits)+
  have s': "s' = (if k \<in> set (typeToGVK s t) then ?s else ?s\<lparr>typeToGVK := (typeToGVK s)(t := typeToGVK s t @ [k])\<rparr>)"
    using assms(2) v free by (auto simp: AddKnownTypeWithName_def Let_def split: if_splits)
  show ?thesis
  proof (cases "k \<in> set (typeToGVK s t)")
    case True
    then have "(gvkToType s)(k \<mapsto> t) = gvkToType s" using assms(1) by (auto simp: scheme_ok_def fun_upd_idem)
    with True assms(1) show ?thesis by (simp add: s' scheme_ok_def)
  next
    case False
    have none: "gvkToType s k = None" using False free assms(1) by (auto simp: scheme_ok_def)
    then have "k \<notin> set (typeToGVK s t')" for t'
      using assms(1) unfolding scheme_ok_def by (metis option.distinct(1))
    with False none assms(1) v show ?thesis by (auto simp: s' scheme_ok_def)
  qed
qed

lemma add_types_ok: "scheme_ok s \<Longrightarrow> add_types gv ts s = Return s' \<Longrightarrow> scheme_ok s'"
  by (induction gv ts s rule: add_types.induct)
     (auto split: outcome.splits dest: AddKnownTypeWithName_ok)

lemma add_unversioned_tables:
  "add_unversioned gv ts s = Return s' \<Longrightarrow> gvkToType s' = gvkToType s \<and> typeToGVK s' = typeToGVK s"
  by (induction gv ts s rule: add_unversioned.induct) (auto simp: Let_def split: if_splits)

lemma AddKnownTypes_ok: "scheme_ok s \<Longrightarrow> AddKnownTypes gv ts s = Return s' \<Longrightarrow> scheme_ok s'"
  unfolding AddKnownTypes_def by (rule add_types_ok) simp_all

lemma AddUnversionedTypes_ok: "scheme_ok s \<Longrightarrow> AddUnversionedTypes gv ts s = Return s' \<Longrightarrow> scheme_ok s'"
proof -
  assume ok: "scheme_ok s" and add: "AddUnversionedTypes gv ts s = Return s'"
  then obtain s1 where s1: "AddKnownTypes gv ts (addObservedVersion gv s) = Return s1"
      "add_unversioned gv ts s1 = Return s'"
    by (auto simp: AddUnversionedTypes_def split: outcome.splits)
  have "scheme_ok s1" by (rule AddKnownTypes_ok [OF _ s1(1)]) (simp add: ok)
  then show "scheme_ok s'" using add_unversioned_tables [OF s1(2)] by (simp add: scheme_ok_def)
qed


text \<open>
  What is registered under a kind, whatever the order: schemes whose entries all agree with this
  plan can be extended by any planned registration without a panic.
\<close>

definition planned :: "gvk \<Rightarrow> go_type" where
  "planned k =
     (if gvk_kind k = ''WatchEvent''
      then metav1 (if gvk_version k = APIVersionInternal then ''InternalEvent'' else ''WatchEvent'')
      else if gvk_kind k \<in> {''ProviderConfig'', ''ProviderConfigList''} then pc_type (gvk_kind k)
      else if gvk_kind k \<in> {''Tenant'', ''TenantList''} then tenant_type (gvk_kind k)
      else metav1 (gvk_kind k))"

definition conforms :: "Scheme \<Rightarrow> bool" where
  "conforms s \<longleftrightarrow> scheme_ok s \<and> (\<forall>k t. gvkToType s k = Some t \<longrightarrow> t = planned k)
     \<and> (\<forall>n t. unversionedKinds s n = Some t \<longrightarrow> t = metav1 n)"

text \<open>\<open>extends P r s\<close>: the call returns a conforming scheme with the old entries and those of \<open>P\<close>.\<close>

definition extends :: "gvk set \<Rightarrow> Scheme outcome \<Rightarrow> Scheme \<Rightarrow> bool" where
  "extends P r s \<longleftrightarrow> (\<exists>s'. r = Return s' \<and> conforms s' \<and> gvkToType s \<subseteq>\<^sub>m gvkToType s'
     \<and> (\<forall>k\<in>P. gvkToType s' k = Some (planned k)))"

lemma extends_bind:
  assumes "extends P r s" "\<And>s'. conforms s' \<Longrightarrow> extends Q (f s') s'"
  shows "extends (P \<union> Q) (bind_scheme r f) s"
proof -
  obtain s1 where s1: "r = Return s1" "conforms s1" "gvkToType s \<subseteq>\<^sub>m gvkToType s1"
      "\<forall>k\<in>P. gvkToType s1 k = Some (planned k)"
    using assms(1) by (auto simp: extends_def)
  obtain s2 where s2: "f s1 = Return s2" "conforms s2" "gvkToType s1 \<subseteq>\<^sub>m gvkToType s2"
      "\<forall>k\<in>Q. gvkToType s2 k = Some (planned k)"
    using assms(2) [OF s1(2)] by (auto simp: extends_def)
  have "\<forall>k\<in>P. gvkToType s2 k = Some (planned k)" using s1(4) s2(3) by (metis domIff map_le_def option.distinct(1))
  with s1 s2 show ?thesis unfolding extends_def bind_scheme_def by (auto intro: map_le_trans)
qed

lemma extends_named:
  assumes "conforms s" "t = planned k" "gvk_version k \<noteq> []"
  shows "extends {k} (AddKnownTypeWithName k t s) s"
proof -
  have free: "gvkToType s k = None \<or> gvkToType s k = Some t"
    using assms(1,2) by (cases "gvkToType s k") (auto simp: conforms_def)
  obtain s' where s': "AddKnownTypeWithName k t s = Return s'" "gvkToType s' = (gvkToType s)(k \<mapsto> t)"
      "unversionedKinds s' = unversionedKinds s"
    by (rule AddKnownTypeWithName_returns [OF assms(3) free])
  have "scheme_ok s'" using AddKnownTypeWithName_ok [OF _ s'(1)] assms(1) by (simp add: conforms_def)
  then have "conforms s'" using assms(1,2) s'(2,3) by (simp add: conforms_def)
  moreover have "gvkToType s \<subseteq>\<^sub>m gvkToType s'" using free s'(2) by (auto simp: map_le_def)
  ultimately show ?thesis using s'(1,2) assms(2) by (simp add: extends_def)
qed

lemma extends_types:
  assumes "conforms s" "gv_version gv \<noteq> []" "\<forall>t\<in>set ts. t = planned (WithKind gv (ty_name t))"
  shows "extends ((\<lambda>t. WithKind gv (ty_name t)) ` set ts) (add_types gv ts s) s"
  using assms
proof (induction ts arbitrary: s)
  case Nil
  then show ?case by (simp add: extends_def)
next
  case (Cons t ts)
  have "extends ({WithKind gv (ty_name t)} \<union> (\<lambda>t. WithKind gv (ty_name t)) ` set ts)
      (bind_scheme (AddKnownTypeWithName (WithKind gv (ty_name t)) t s) (add_types gv ts)) s"
    by (rule extends_bind [OF extends_named Cons.IH]) (use Cons.prems in \<open>auto simp: WithKind_def\<close>)
  then show ?case by (simp add: bind_scheme_def)
qed

lemma conforms_observed [simp]: "conforms (addObservedVersion v s) = conforms s"
  by (simp add: conforms_def)

lemma extends_known:
  assumes "conforms s" "gv_version gv \<noteq> []" "\<forall>t\<in>set ts. t = planned (WithKind gv (ty_name t))"
  shows "extends ((\<lambda>t. WithKind gv (ty_name t)) ` set ts) (AddKnownTypes gv ts s) s"
  using extends_types [OF _ assms(2,3), of "addObservedVersion gv s"] assms(1)
  by (simp add: AddKnownTypes_def extends_def)

lemma extends_unversioned_loop:
  assumes "conforms s" "\<forall>t\<in>set ts. t = metav1 (ty_name t)"
  shows "extends {} (add_unversioned gv ts s) s"
  using assms
proof (induction ts arbitrary: s)
  case Nil
  then show ?case by (simp add: extends_def)
next
  case (Cons t ts)
  let ?s = "s\<lparr>unversionedTypes := (unversionedTypes s)(t \<mapsto> WithKind gv (ty_name t)),
      unversionedKinds := (unversionedKinds s)(ty_name t \<mapsto> t)\<rparr>"
  have "conforms ?s" using Cons.prems by (auto simp: conforms_def scheme_ok_def)
  from Cons.IH [OF this] Cons.prems(2) have "extends {} (add_unversioned gv ts ?s) s"
    by (simp add: extends_def)
  moreover have "\<not> (\<exists>old. unversionedKinds s (ty_name t) = Some old \<and> t \<noteq> old)"
    using Cons.prems by (auto simp: conforms_def)
  ultimately show ?case by (auto simp: Let_def WithKind_def split: option.splits)
qed

lemma extends_unversioned:
  assumes "conforms s" "gv_version gv \<noteq> []"
    and "\<forall>t\<in>set ts. t = planned (WithKind gv (ty_name t)) \<and> t = metav1 (ty_name t)"
  shows "extends {} (AddUnversionedTypes gv ts s) s"
proof -
  have "extends ((\<lambda>t. WithKind gv (ty_name t)) ` set ts \<union> {})
      (bind_scheme (AddKnownTypes gv ts (addObservedVersion gv s)) (add_unversioned gv ts)) (addObservedVersion gv s)"
    by (rule extends_bind [OF extends_known extends_unversioned_loop]) (use assms in auto)
  then show ?thesis by (auto simp: AddUnversionedTypes_def extends_def bind_scheme_def)
qed

lemma planned_meta:
  "planned (WithKind gv ''WatchEvent'')
   = metav1 (if gv_version gv = APIVersionInternal then ''InternalEvent'' else ''WatchEvent'')"
  "\<forall>t\<in>set optionsTypes. t = planned (WithKind gv (ty_name t))"
  by (simp_all add: planned_def WithKind_def optionsTypes_def metav1_def)

lemma extends_group_version:
  assumes "conforms s" "gv_version gv \<noteq> []" "gv_version gv \<noteq> APIVersionInternal"
  shows "extends {} (AddToGroupVersion gv s) s"
proof -
  have "extends ({WithKind gv ''WatchEvent''} \<union> ({WithKind \<lparr>gv_group = gv_group gv, gv_version = APIVersionInternal\<rparr> ''WatchEvent''}
      \<union> ((\<lambda>t. WithKind gv (ty_name t)) ` set optionsTypes \<union> {}))) (AddToGroupVersion gv s) s"
    unfolding AddToGroupVersion_def
  proof (rule extends_bind [OF extends_named], rule assms(1))
    fix s1 assume s1: "conforms s1"
    show "extends ({WithKind \<lparr>gv_group = gv_group gv, gv_version = APIVersionInternal\<rparr> ''WatchEvent''}
      \<union> ((\<lambda>t. WithKind gv (ty_name t)) ` set optionsTypes \<union> {}))
      (bind_scheme (AddKnownTypeWithName (WithKind \<lparr>gv_group = gv_group gv, gv_version = APIVersionInternal\<rparr> ''WatchEvent'')
         (metav1 ''InternalEvent'') s1) (\<lambda>s. bind_scheme (AddKnownTypes gv optionsTypes s) (\<lambda>s.
       AddUnversionedTypes Unversioned
         (map metav1 [''Status'', ''APIVersions'', ''APIGroupList'', ''APIGroup'', ''APIResourceList'']) s))) s1"
    proof (rule extends_bind [OF extends_named], rule s1)
      fix s2 assume s2: "conforms s2"
      show "extends ((\<lambda>t. WithKind gv (ty_name t)) ` set optionsTypes \<union> {})
        (bind_scheme (AddKnownTypes gv optionsTypes s2) (\<lambda>s.
         AddUnversionedTypes Unversioned
           (map metav1 [''Status'', ''APIVersions'', ''APIGroupList'', ''APIGroup'', ''APIResourceList'']) s)) s2"
        by (rule extends_bind [OF extends_known extends_unversioned])
           (use s2 assms(2) planned_meta(2) in \<open>simp_all add: planned_def WithKind_def metav1_def Unversioned_def\<close>)
    qed (simp_all add: planned_def WithKind_def APIVersionInternal_def)
  qed (use assms in \<open>simp_all add: planned_def WithKind_def\<close>)
  then show ?thesis by (auto simp: extends_def)
qed


section \<open>The two packages compose\<close>

definition kinds_of :: "GroupVersion \<Rightarrow> string list \<Rightarrow> gvk set" where
  "kinds_of gv ns = WithKind gv ` set ns"

lemma pc_builder_extends:
  assumes "conforms s"
  shows "\<exists>s'. AddToScheme pc_SchemeBuilder s = Return (None, s') \<and> conforms s' \<and> gvkToType s \<subseteq>\<^sub>m gvkToType s'
     \<and> (\<forall>k\<in>kinds_of pc_SchemeGroupVersion [''ProviderConfig'', ''ProviderConfigList'']. gvkToType s' k = Some (planned k))"
proof -
  have "extends ((\<lambda>t. WithKind pc_SchemeGroupVersion (ty_name t)) ` set [pc_type ''ProviderConfig'', pc_type ''ProviderConfigList''] \<union> {})
      (bind_scheme (AddKnownTypes pc_SchemeGroupVersion [pc_type ''ProviderConfig'', pc_type ''ProviderConfigList''] s)
        (AddToGroupVersion pc_SchemeGroupVersion)) s"
    by (rule extends_bind [OF extends_known extends_group_version])
       (use assms in \<open>simp_all add: planned_def WithKind_def pc_type_def pc_SchemeGroupVersion_def APIVersionInternal_def\<close>)
  then show ?thesis
    by (auto simp: extends_def pc_SchemeBuilder_def sb_Register_def pc_addKnownTypes_def bind_scheme_def kinds_of_def
        pc_type_def split: outcome.splits)
qed

lemma tenant_builder_extends:
  assumes "conforms s"
  shows "\<exists>s'. AddToScheme tenant_SchemeBuilder s = Return (None, s') \<and> conforms s' \<and> gvkToType s \<subseteq>\<^sub>m gvkToType s'
     \<and> (\<forall>k\<in>kinds_of tenant_SchemeGroupVersion [''Tenant'', ''TenantList'']. gvkToType s' k = Some (planned k))"
proof -
  have "extends ((\<lambda>t. WithKind tenant_SchemeGroupVersion (ty_name t)) ` set [tenant_type ''Tenant'', tenant_type ''TenantList''] \<union> {})
      (bind_scheme (AddKnownTypes tenant_SchemeGroupVersion [tenant_type ''Tenant'', tenant_type ''TenantList''] s)
        (AddToGroupVersion tenant_SchemeGroupVersion)) s"
    by (rule extends_bind [OF extends_known extends_group_version])
       (use assms in \<open>simp_all add: planned_def WithKind_def tenant_type_def tenant_SchemeGroupVersion_def APIVersionInternal_def\<close>)
  then show ?thesis
    by (auto simp: extends_def tenant_SchemeBuilder_def sb_Register_def tenant_addKnownTypes_def bind_scheme_def
        kinds_of_def tenant_type_def split: outcome.splits)
qed

definition repo_builders :: "(Scheme \<Rightarrow> (error \<times> Scheme) outcome) set" where
  "repo_builders = {AddToScheme pc_SchemeBuilder, AddToScheme tenant_SchemeBuilder}"

lemma builders_compose:
  assumes "conforms s" "set sb \<subseteq> repo_builders"
  shows "\<exists>s'. AddToScheme sb s = Return (None, s') \<and> conforms s' \<and> gvkToType s \<subseteq>\<^sub>m gvkToType s'
    \<and> (AddToScheme pc_SchemeBuilder \<in> set sb \<longrightarrow>
         (\<forall>k\<in>kinds_of pc_SchemeGroupVersion [''ProviderConfig'', ''ProviderConfigList'']. gvkToType s' k = Some (planned k)))
    \<and> (AddToScheme tenant_SchemeBuilder \<in> set sb \<longrightarrow>
         (\<forall>k\<in>kinds_of tenant_SchemeGroupVersion [''Tenant'', ''TenantList'']. gvkToType s' k = Some (planned k)))"
  using assms
proof (induction sb arbitrary: s)
  case Nil
  then show ?case by simp
next
  case (Cons f sb)
  have grow: "gvkToType s2 k = Some x" if "gvkToType s1 \<subseteq>\<^sub>m gvkToType s2" "gvkToType s1 k = Some x" for s1 s2 k x
    using that by (metis domI map_le_def)
  from Cons.prems(2) consider "f = AddToScheme pc_SchemeBuilder" | "f = AddToScheme tenant_SchemeBuilder"
    by (auto simp: repo_builders_def)
  then obtain s1 where s1: "f s = Return (None, s1)" "conforms s1" "gvkToType s \<subseteq>\<^sub>m gvkToType s1"
      "f = AddToScheme pc_SchemeBuilder \<Longrightarrow>
         \<forall>k\<in>kinds_of pc_SchemeGroupVersion [''ProviderConfig'', ''ProviderConfigList'']. gvkToType s1 k = Some (planned k)"
      "f = AddToScheme tenant_SchemeBuilder \<Longrightarrow>
         \<forall>k\<in>kinds_of tenant_SchemeGroupVersion [''Tenant'', ''TenantList'']. gvkToType s1 k = Some (planned k)"
  proof cases
    case 1
    with pc_builder_extends [OF Cons.prems(1)] tenant_builder_extends [OF Cons.prems(1)] show thesis
      by (cases "AddToScheme pc_SchemeBuilder = AddToScheme tenant_SchemeBuilder") (auto intro!: that)
  next
    case 2
    with pc_builder_extends [OF Cons.prems(1)] tenant_builder_extends [OF Cons.prems(1)] show thesis
      by (cases "AddToScheme pc_SchemeBuilder = AddToScheme tenant_SchemeBuilder") (auto intro!: that)
  qed
  have "set sb \<subseteq> repo_builders" using Cons.prems(2) by simp
  from Cons.IH [OF s1(2) this] obtain s2 where s2: "AddToScheme sb s1 = Return (None, s2)" "conforms s2"
      "gvkToType s1 \<subseteq>\<^sub>m gvkToType s2"
      "AddToScheme pc_SchemeBuilder \<in> set sb \<Longrightarrow>
         \<forall>k\<in>kinds_of pc_SchemeGroupVersion [''ProviderConfig'', ''ProviderConfigList'']. gvkToType s2 k = Some (planned k)"
      "AddToScheme tenant_SchemeBuilder \<in> set sb \<Longrightarrow>
         \<forall>k\<in>kinds_of tenant_SchemeGroupVersion [''Tenant'', ''TenantList'']. gvkToType s2 k = Some (planned k)"
    by auto
  show ?case
    using s1 s2 grow [OF s2(3)] map_le_trans [OF s1(3) s2(3)] by (intro exI [of _ s2]) auto
qed

text \<open>Initialising a scheme with any of the builders of the repository.\<close>

lemma init_scheme_built:
  assumes "set sb \<subseteq> repo_builders"
  shows "\<exists>s. init_scheme sb = Return s \<and> scheme_ok s
    \<and> (AddToScheme pc_SchemeBuilder \<in> set sb \<longrightarrow>
         gvkToType s (WithKind pc_SchemeGroupVersion ''ProviderConfig'') = Some (pc_type ''ProviderConfig''))
    \<and> (AddToScheme tenant_SchemeBuilder \<in> set sb \<longrightarrow>
         gvkToType s (WithKind tenant_SchemeGroupVersion ''Tenant'') = Some (tenant_type ''Tenant''))"
proof -
  have "conforms NewScheme" using NewScheme_ok by (simp add: conforms_def NewScheme_def)
  then have "extends {} (AddToGroupVersion \<lparr>gv_group = [], gv_version = ''v1''\<rparr> NewScheme) NewScheme"
    by (rule extends_group_version) (simp_all add: APIVersionInternal_def)
  then obtain s1 where s1: "AddToGroupVersion \<lparr>gv_group = [], gv_version = ''v1''\<rparr> NewScheme = Return s1" "conforms s1"
    by (auto simp: extends_def)
  from builders_compose [OF s1(2) assms] obtain s2 where s2: "AddToScheme sb s1 = Return (None, s2)" "conforms s2"
      "AddToScheme pc_SchemeBuilder \<in> set sb \<Longrightarrow>
         \<forall>k\<in>kinds_of pc_SchemeGroupVersion [''ProviderConfig'', ''ProviderConfigList'']. gvkToType s2 k = Some (planned k)"
      "AddToScheme tenant_SchemeBuilder \<in> set sb \<Longrightarrow>
         \<forall>k\<in>kinds_of tenant_SchemeGroupVersion [''Tenant'', ''TenantList'']. gvkToType s2 k = Some (planned k)"
    by auto
  have "planned (WithKind pc_SchemeGroupVersion ''ProviderConfig'') = pc_type ''ProviderConfig''"
       "planned (WithKind tenant_SchemeGroupVersion ''Tenant'') = tenant_type ''Tenant''"
    by (simp_all add: planned_def WithKind_def)
  with s1(1) s2 show ?thesis
    by (intro exI [of _ s2]) (simp add: init_scheme_def bind_scheme_def conforms_def kinds_of_def)
qed

lemma pc_clientset_scheme_built:
  "\<exists>s. pc_clientset_scheme = Return s
     \<and> gvkToType s (WithKind pc_SchemeGroupVersion ''ProviderConfig'') = Some (pc_type ''ProviderConfig'')"
  using init_scheme_built [of "[AddToScheme pc_SchemeBuilder]"]
  by (auto simp: repo_builders_def pc_clientset_scheme_def)

text \<open>The clientset schemes are built without a panic and compose: the builders of the two packages
  can be applied to one scheme in any order and any number of times, no kind is registered for two
  types, the tables stay inverse to each other, and every kind of an applied package maps to its type.\<close>

theorem schemes_compose:
  assumes "set sb \<subseteq> repo_builders"
  shows "\<exists>s. init_scheme sb = Return s \<and> scheme_ok s
    \<and> (AddToScheme pc_SchemeBuilder \<in> set sb \<longrightarrow>
         gvkToType s (WithKind pc_SchemeGroupVersion ''ProviderConfig'') = Some (pc_type ''ProviderConfig''))
    \<and> (AddToScheme tenant_SchemeBuilder \<in> set sb \<longrightarrow>
         gvkToType s (WithKind tenant_SchemeGroupVersion ''Tenant'') = Some (tenant_type ''Tenant''))"
  by (rule init_scheme_built [OF assms])

theorem schemes_compose_witness:
  "\<exists>s. pc_clientset_scheme = Return s
     \<and> gvkToType s (WithKind pc_SchemeGroupVersion ''ProviderConfig'') = Some (pc_type ''ProviderConfig'')"
  using schemes_compose [of "[AddToScheme pc_SchemeBuilder]"]
  by (auto simp: repo_builders_def pc_clientset_scheme_def)

end
