(* ===== verification/Listers.thy ===== *)
theory Listers imports MTPrelude ObjectKeys IndexStore FilteredCache ApiTypes SchemeRegister begin

text \<open>
  Listers over an indexer: \<open>ListAll\<close> and \<open>ListAllByNamespace\<close> of
  \<open>vendor/k8s.io/client-go/tools/cache/listers.go\<close>, the generic \<open>ResourceIndexer\<close> of
  \<open>vendor/k8s.io/client-go/listers/generic_helpers.go\<close> (under the Node and Lease listers) and the
  generated \<open>TenantLister\<close> and \<open>ProviderConfigLister\<close> of \<open>pkg/tenant/client/listers\<close> and
  \<open>pkg/providerconfig/client/listers\<close>.

  A label selector is what the code asks of it. Go's type assertion \<open>m.(T)\<close> panics on an item
  that is not an object.
\<close>

section \<open>cache/listers.go\<close>

record selector =
  sel_nothing :: bool
  sel_Empty :: bool
  sel_Matches :: "strmap \<Rightarrow> bool"

definition MatchesNothing :: "selector \<Rightarrow> bool" where
  "MatchesNothing sel = sel_nothing sel"

text \<open>The append function of the listers, with its type assertion.\<close>

definition appendFn :: "'o key_arg \<Rightarrow> 'o list \<Rightarrow> 'o list outcome" where
  "appendFn m ret = (case m of MetaObject ob \<Rightarrow> Return (ret @ [ob]) | _ \<Rightarrow> Panic ''interface conversion'')"

fun list_matching ::
  "'o labels_of \<Rightarrow> selector \<Rightarrow> ('o \<Rightarrow> bool) \<Rightarrow> 'o key_arg list \<Rightarrow> 'o list \<Rightarrow> ('o list \<times> error) outcome" where
  "list_matching labels sel also_ok [] ret = Return (ret, None)"
| "list_matching labels sel also_ok (m # ms) ret =
     (case meta_Accessor m of
        Inl e \<Rightarrow> Return (ret, Some e)
      | Inr metadata \<Rightarrow>
          if also_ok metadata \<and> sel_Matches sel (labels metadata)
          then (case appendFn m ret of
                  Panic msg \<Rightarrow> Panic msg
                | Return ret \<Rightarrow> list_matching labels sel also_ok ms ret)
          else list_matching labels sel also_ok ms ret)"

fun append_all :: "'o key_arg list \<Rightarrow> 'o list \<Rightarrow> ('o list \<times> error) outcome" where
  "append_all [] ret = Return (ret, None)"
| "append_all (m # ms) ret =
     (case appendFn m ret of Panic msg \<Rightarrow> Panic msg | Return ret \<Rightarrow> append_all ms ret)"

definition ListAll :: "'o labels_of \<Rightarrow> 'o Indexer \<Rightarrow> selector \<Rightarrow> ('o list \<times> error) outcome" where
  "ListAll labels store sel =
     (if MatchesNothing sel then Return ([], None)
      else if sel_Empty sel then append_all (ix_List store) []
      else list_matching labels sel (\<lambda>_. True) (ix_List store) [])"

text \<open>
  The lookup by namespace asks the index for a fresh object with the namespace, made here from
  \<open>blank\<close>; without the index, or with an error, every object is looked at.
\<close>

definition ListAllByNamespace ::
  "'o accessor \<Rightarrow> 'o labels_of \<Rightarrow> 'o \<Rightarrow> 'o Indexer \<Rightarrow> string \<Rightarrow> selector \<Rightarrow> ('o list \<times> error) outcome" where
  "ListAllByNamespace acc labels blank store namespace sel =
     (if MatchesNothing sel then Return ([], None)
      else if namespace = [] then ListAll labels store sel
      else case ix_Index store ''namespace'' (MetaObject (acc_set_namespace acc blank namespace)) of
             Inl e \<Rightarrow> list_matching labels sel (\<lambda>metadata. acc_namespace acc metadata = namespace)
                        (ix_List store) []
           | Inr objs \<Rightarrow>
               if sel_Empty sel then append_all objs []
               else list_matching labels sel (\<lambda>_. True) objs [])"

definition MetaNamespaceIndexFunc :: "'o accessor \<Rightarrow> 'o key_arg IndexFunc" where
  "MetaNamespaceIndexFunc acc arg =
     (case meta_Accessor arg of
        Inl e \<Rightarrow> Inl (Wrapf ''object has no meta: %v'' [] e)
      | Inr metadata \<Rightarrow> Inr (Some [acc_namespace acc metadata]))"

section \<open>generic_helpers.go\<close>

record 'o ResourceIndexer =
  ri_indexer :: "'o Indexer"
  ri_resource :: GroupVersionResource
  ri_namespace :: string

definition listers_New :: "'o Indexer \<Rightarrow> GroupVersionResource \<Rightarrow> 'o ResourceIndexer" where
  "listers_New ix resource = \<lparr>ri_indexer = ix, ri_resource = resource, ri_namespace = []\<rparr>"

definition NewNamespaced :: "'o ResourceIndexer \<Rightarrow> string \<Rightarrow> 'o ResourceIndexer" where
  "NewNamespaced parent namespace =
     \<lparr>ri_indexer = ri_indexer parent, ri_resource = ri_resource parent, ri_namespace = namespace\<rparr>"

definition ri_List ::
  "'o accessor \<Rightarrow> 'o labels_of \<Rightarrow> 'o \<Rightarrow> 'o ResourceIndexer \<Rightarrow> selector \<Rightarrow> ('o list \<times> error) outcome" where
  "ri_List acc labels blank l sel = ListAllByNamespace acc labels blank (ri_indexer l) (ri_namespace l) sel"

text \<open>The result of a lookup by key: the error, a NotFound, or the object.\<close>

definition as_lookup ::
  "'o key_arg \<times> bool \<times> error \<Rightarrow> GroupVersionResource \<Rightarrow> string \<Rightarrow> (go_error + 'o) outcome" where
  "as_lookup r resource name =
     (case r of (obj, exists, err) \<Rightarrow>
        (case err of
           Some e \<Rightarrow> Return (Inl e)
         | None \<Rightarrow>
             if \<not> exists then Return (Inl (NewNotFound resource name))
             else case obj of MetaObject ob \<Rightarrow> Return (Inr ob) | _ \<Rightarrow> Panic ''interface conversion''))"

definition ri_Get :: "'o ResourceIndexer \<Rightarrow> string \<Rightarrow> (go_error + 'o) outcome" where
  "ri_Get l name =
     (let key = (if ri_namespace l = [] then name else ri_namespace l @ ''/'' @ name)
      in as_lookup (ix_GetByKey (ri_indexer l) key) (ri_resource l) name)"

section \<open>The generated listers\<close>

definition tn_accessor :: "tenant accessor" where
  "tn_accessor = \<lparr>acc_namespace = (\<lambda>t. om_Namespace (tn_ObjectMeta t)), acc_name = (\<lambda>t. om_Name (tn_ObjectMeta t)),
     acc_set_namespace = (\<lambda>t ns. t\<lparr>tn_ObjectMeta := (tn_ObjectMeta t)\<lparr>om_Namespace := ns\<rparr>\<rparr>)\<rparr>"

definition pc_accessor :: "provider_config accessor" where
  "pc_accessor = \<lparr>acc_namespace = (\<lambda>t. om_Namespace (pc_ObjectMeta t)), acc_name = (\<lambda>t. om_Name (pc_ObjectMeta t)),
     acc_set_namespace = (\<lambda>t ns. t\<lparr>pc_ObjectMeta := (pc_ObjectMeta t)\<lparr>om_Namespace := ns\<rparr>\<rparr>)\<rparr>"

definition tn_labels :: "tenant labels_of" where
  "tn_labels t = om_GetLabels (tn_ObjectMeta t)"

definition pc_labels :: "provider_config labels_of" where
  "pc_labels t = om_GetLabels (pc_ObjectMeta t)"

record tenantLister =
  tl_indexer :: "tenant Indexer"

definition NewTenantLister :: "tenant Indexer \<Rightarrow> tenantLister" where
  "NewTenantLister ix = \<lparr>tl_indexer = ix\<rparr>"

definition tenantLister_List :: "tenantLister \<Rightarrow> selector \<Rightarrow> (tenant list \<times> error) outcome" where
  "tenantLister_List s sel = ListAll tn_labels (tl_indexer s) sel"

record tenantNamespaceLister =
  tnl_indexer :: "tenant Indexer"
  tnl_namespace :: string

definition tenantLister_Tenants :: "tenantLister \<Rightarrow> string \<Rightarrow> tenantNamespaceLister" where
  "tenantLister_Tenants s namespace = \<lparr>tnl_indexer = tl_indexer s, tnl_namespace = namespace\<rparr>"

definition tenantNamespaceLister_List ::
  "tenant \<Rightarrow> tenantNamespaceLister \<Rightarrow> selector \<Rightarrow> (tenant list \<times> error) outcome" where
  "tenantNamespaceLister_List blank s sel =
     ListAllByNamespace tn_accessor tn_labels blank (tnl_indexer s) (tnl_namespace s) sel"

definition tenantNamespaceLister_Get :: "tenantNamespaceLister \<Rightarrow> string \<Rightarrow> (go_error + tenant) outcome" where
  "tenantNamespaceLister_Get s name =
     as_lookup (ix_GetByKey (tnl_indexer s) (tnl_namespace s @ ''/'' @ name)) (tenant_Resource ''tenant'') name"

record providerConfigLister =
  pl_indexer :: "provider_config Indexer"

definition NewProviderConfigLister :: "provider_config Indexer \<Rightarrow> providerConfigLister" where
  "NewProviderConfigLister ix = \<lparr>pl_indexer = ix\<rparr>"

definition providerConfigLister_List :: "providerConfigLister \<Rightarrow> selector \<Rightarrow> (provider_config list \<times> error) outcome" where
  "providerConfigLister_List s sel = ListAll pc_labels (pl_indexer s) sel"

record providerConfigNamespaceLister =
  pnl_indexer :: "provider_config Indexer"
  pnl_namespace :: string

definition providerConfigLister_ProviderConfigs :: "providerConfigLister \<Rightarrow> string \<Rightarrow> providerConfigNamespaceLister" where
  "providerConfigLister_ProviderConfigs s namespace = \<lparr>pnl_indexer = pl_indexer s, pnl_namespace = namespace\<rparr>"

definition providerConfigNamespaceLister_List ::
  "provider_config \<Rightarrow> providerConfigNamespaceLister \<Rightarrow> selector \<Rightarrow> (provider_config list \<times> error) outcome" where
  "providerConfigNamespaceLister_List blank s sel =
     ListAllByNamespace pc_accessor pc_labels blank (pnl_indexer s) (pnl_namespace s) sel"

definition providerConfigNamespaceLister_Get ::
  "providerConfigNamespaceLister \<Rightarrow> string \<Rightarrow> (go_error + provider_config) outcome" where
  "providerConfigNamespaceLister_Get s name =
     as_lookup (ix_GetByKey (pnl_indexer s) (pnl_namespace s @ ''/'' @ name)) (pc_Resource ''providerconfig'') name"


section \<open>Listing\<close>

definition sel_accepts :: "selector \<Rightarrow> strmap \<Rightarrow> bool" where
  "sel_accepts sel ls \<longleftrightarrow> \<not> sel_nothing sel \<and> (sel_Empty sel \<or> sel_Matches sel ls)"

definition accepted :: "'o labels_of \<Rightarrow> selector \<Rightarrow> 'o key_arg \<Rightarrow> bool" where
  "accepted labels sel x \<longleftrightarrow> (\<exists>ob. x = MetaObject ob \<and> sel_accepts sel (labels ob))"

lemma append_all_objects: "append_all (map MetaObject obs) ret = Return (ret @ obs, None)"
  by (induction obs arbitrary: ret) (simp_all add: appendFn_def)

lemma list_matching_objects:
  "list_matching labels sel P (map MetaObject obs) ret
   = Return (ret @ filter (\<lambda>ob. P ob \<and> sel_Matches sel (labels ob)) obs, None)"
  by (induction obs arbitrary: ret) (simp_all add: appendFn_def meta_Accessor_def)

lemma objects_list:
  assumes "\<forall>x\<in>set xs. \<exists>ob. x = MetaObject ob" shows "\<exists>obs. xs = map MetaObject obs"
  using assms
proof (induction xs)
  case (Cons x xs)
  then obtain ob obs where "x = MetaObject ob" "xs = map MetaObject obs" by auto
  then have "x # xs = map MetaObject (ob # obs)" by simp
  then show ?case by (rule exI)
qed simp

definition only_objects :: "('k \<rightharpoonup> 'o key_arg) \<Rightarrow> bool" where
  "only_objects m \<longleftrightarrow> (\<forall>x\<in>ran m. \<exists>ob. x = MetaObject ob)"

context indexer
begin

lemma ListAll_exact:
  assumes "ok s" "only_objects (shown s)"
  shows "\<exists>ret. ListAll labels (ix s) sel = Return (ret, None)
           \<and> lists_entries (map MetaObject ret) (entries_where (accepted labels sel) (shown s))"
proof -
  obtain obs where obs: "ix_List (ix s) = map MetaObject obs"
    using assms(2) set_List [OF assms(1)] objects_list unfolding only_objects_def by metis
  have "ListAll labels (ix s) sel = Return (filter (\<lambda>ob. sel_accepts sel (labels ob)) obs, None)"
    by (simp add: ListAll_def MatchesNothing_def obs append_all_objects list_matching_objects sel_accepts_def)
  moreover have "map MetaObject (filter (\<lambda>ob. sel_accepts sel (labels ob)) obs)
      = filter (accepted labels sel) (ix_List (ix s))"
    unfolding obs filter_map by (simp add: comp_def accepted_def)
  ultimately show ?thesis using lists_entries_filter [OF list_all [OF assms(1)], of "accepted labels sel"] by auto
qed

lemma lookup_found:
  assumes "ok s"
  shows "as_lookup (ix_GetByKey (ix s) key) resource name =
    (case shown s key of
       None \<Rightarrow> Return (Inl (NewNotFound resource name))
     | Some (MetaObject ob) \<Rightarrow> Return (Inr ob)
     | Some _ \<Rightarrow> Panic ''interface conversion'')"
  by (simp add: by_key [OF assms] found_def as_lookup_def split: option.splits key_arg.splits)

end

interpretation cr: indexer "cache_Indexer keyFunc" store_reachable tsm_Get "\<lambda>c. map_of (tsm_GetIndexers c)"
  for keyFunc :: "'o KeyFunc"
proof
  fix c :: "'o cache" and key n v :: string and f x
  assume "store_reachable c"
  then have ok: "store_ok c" by (rule store_reachable_ok)
  show "lists_entries (ix_List (cache_Indexer keyFunc c)) (tsm_Get c)"
    unfolding store_reads by (rule ci.list_all [OF ok])
  show "ix_GetByKey (cache_Indexer keyFunc c) key = found (tsm_Get c key)"
    unfolding store_reads by (rule ci.by_key [OF ok])
  show "\<exists>xs. ix_ByIndex (cache_Indexer keyFunc c) n v = Inr xs
          \<and> lists_entries xs (entries_where (\<lambda>x. v \<in> index_values f x) (tsm_Get c))"
    if "map_of (tsm_GetIndexers c) n = Some f"
    using that unfolding store_reads by (rule ci.by_index [OF ok])
  show "\<exists>vs. f x = Inr vs" if "map_of (tsm_GetIndexers c) n = Some f" "x \<in> ran (tsm_Get c)"
    using that unfolding store_reads by (rule ci.filed [OF ok])
  show "\<exists>e. ix_ByIndex (cache_Indexer keyFunc c) n v = Inl e" if "map_of (tsm_GetIndexers c) n = None"
    using that unfolding store_reads by (rule ci.by_no_index [OF ok])
qed

text \<open>A store of cluster-scoped objects, each under the key of \<open>MetaNamespaceKeyFunc\<close>.\<close>

definition cluster_scoped :: "'o accessor \<Rightarrow> (string \<rightharpoonup> 'o key_arg) \<Rightarrow> bool" where
  "cluster_scoped acc m \<longleftrightarrow>
     (\<forall>k x. m k = Some x \<longrightarrow> (\<exists>ob. x = MetaObject ob \<and> acc_namespace acc ob = []
        \<and> CHR ''/'' \<notin> set (acc_name acc ob) \<and> MetaNamespaceKeyFunc acc x = Inr k))"

lemma cluster_scoped_key:
  assumes "cluster_scoped acc m" "m k = Some x"
  obtains ob where "x = MetaObject ob" "k = acc_name acc ob" "CHR ''/'' \<notin> set k"
proof -
  obtain ob where ob: "x = MetaObject ob" "acc_namespace acc ob = []" "CHR ''/'' \<notin> set (acc_name acc ob)"
      "MetaNamespaceKeyFunc acc x = Inr k"
    using assms unfolding cluster_scoped_def by blast
  then have "k = acc_name acc ob" by (simp add: key_defs)
  with ob show thesis using that by simp
qed

lemma cluster_scoped_objects: "cluster_scoped acc m \<Longrightarrow> only_objects m"
  by (fastforce simp: cluster_scoped_def only_objects_def ran_def)

text \<open>The generated listers list exactly the stored objects the selector accepts, each once.\<close>

theorem tenant_lister_exact:
  assumes "store_reachable c" and "cluster_scoped tn_accessor (tsm_Get c)"
  shows "\<exists>ret. tenantLister_List (NewTenantLister (cache_Indexer keyFunc c)) sel = Return (ret, None)
    \<and> lists_entries (map MetaObject ret) (entries_where (accepted tn_labels sel) (tsm_Get c))"
  using cr.ListAll_exact [where keyFunc = keyFunc and labels = tn_labels and sel = sel,
      OF assms(1) cluster_scoped_objects [OF assms(2)]]
  by (simp add: tenantLister_List_def NewTenantLister_def)

text \<open>Tenants are cluster-scoped, so they are stored under their bare names, but the generated
  namespaced lister looks up \<open>namespace/name\<close>: it reports NotFound for every tenant, even with the
  empty namespace.\<close>

theorem namespaced_lister_misses:
  assumes "store_reachable c" and "cluster_scoped tn_accessor (tsm_Get c)"
  shows "tenantNamespaceLister_Get (tenantLister_Tenants (NewTenantLister (cache_Indexer keyFunc c)) namespace) name
    = Return (Inl (NewNotFound (tenant_Resource ''tenant'') name))"
proof -
  have "tsm_Get c (namespace @ ''/'' @ name) = None"
  proof (rule ccontr)
    assume "tsm_Get c (namespace @ ''/'' @ name) \<noteq> None"
    then obtain x where "tsm_Get c (namespace @ ''/'' @ name) = Some x" by blast
    with assms(2) have "CHR ''/'' \<notin> set (namespace @ ''/'' @ name)" by (rule cluster_scoped_key)
    then show False by simp
  qed
  then show ?thesis
    using cr.lookup_found [where keyFunc = keyFunc and key = "namespace @ ''/'' @ name", OF assms(1)]
    by (simp add: tenantNamespaceLister_Get_def tenantLister_Tenants_def NewTenantLister_def)
qed

text \<open>One tenant in a store.\<close>

definition demo_tenant :: tenant where
  "demo_tenant = \<lparr>tn_TypeMeta = \<lparr>tm_Kind = ''Tenant'', tm_APIVersion = ''tenancy.gke.io/v1''\<rparr>,
     tn_ObjectMeta = node ''t1'' fmempty,
     tn_Spec = \<lparr>ts_ProjectNumber = 1, ts_ProjectID = ''p'', ts_PSCConnectionID = 0,
       ts_NetworkConfig = \<lparr>tnc_Network = ''n'', tnc_SubnetInfo = \<lparr>tsi_Subnetwork = ''s'', tsi_CIDR = ''10.0.0.0/16'', tsi_PodRanges = None\<rparr>\<rparr>,
       ts_UID = ''u'', ts_EnableDataplaneOverGKFE = False, ts_DNSAlias = [], ts_TenantCACerts = None\<rparr>,
     tn_Status = \<lparr>tst_Conditions = None\<rparr>\<rparr>"

lemma demo_tenant_store:
  obtains c where "store_reachable c" "tsm_Get c = [''t1'' \<mapsto> MetaObject demo_tenant]"
    "cluster_scoped tn_accessor (tsm_Get c)"
proof -
  obtain c where c: "store_reachable c" "tsm_Get c = map_of (map (\<lambda>(k, ob). (k, MetaObject ob)) [(''t1'', demo_tenant)])"
    using labelled_store [of "[]" tn_labels "[(''t1'', demo_tenant)]"] by blast
  show thesis
    by (rule that [OF c(1)])
       (use c(2) in \<open>simp_all add: cluster_scoped_def tn_accessor_def demo_tenant_def key_defs\<close>)
qed

theorem tenant_lister_exact_witness:
  "\<exists>c ret. tsm_Get c = [''t1'' \<mapsto> MetaObject demo_tenant]
     \<and> tenantLister_List (NewTenantLister (cache_Indexer (MetaNamespaceKeyFunc tn_accessor) c))
         \<lparr>sel_nothing = False, sel_Empty = True, sel_Matches = (\<lambda>_. True)\<rparr> = Return (ret, None)"
proof -
  obtain c where c: "store_reachable c" "tsm_Get c = [''t1'' \<mapsto> MetaObject demo_tenant]"
      "cluster_scoped tn_accessor (tsm_Get c)" by (rule demo_tenant_store)
  from tenant_lister_exact [OF c(1,3), of "MetaNamespaceKeyFunc tn_accessor"
      "\<lparr>sel_nothing = False, sel_Empty = True, sel_Matches = (\<lambda>_. True)\<rparr>"] c(2)
  show ?thesis by blast
qed

theorem namespaced_lister_misses_witness:
  "\<exists>c. tsm_Get c = [''t1'' \<mapsto> MetaObject demo_tenant]
     \<and> tenantNamespaceLister_Get (tenantLister_Tenants
         (NewTenantLister (cache_Indexer (MetaNamespaceKeyFunc tn_accessor) c)) []) ''t1''
       = Return (Inl (NewNotFound (tenant_Resource ''tenant'') ''t1''))"
proof -
  obtain c where c: "store_reachable c" "tsm_Get c = [''t1'' \<mapsto> MetaObject demo_tenant]"
      "cluster_scoped tn_accessor (tsm_Get c)" by (rule demo_tenant_store)
  from namespaced_lister_misses [OF c(1,3)] c(2) show ?thesis by blast
qed

end
