(* ===== verification/FilteredFactory.thy ===== *)
theory FilteredFactory imports MTPrelude IndexStore FilteredCache FilteredInformer Listers begin

text \<open>
  \<open>pkg/filteredinformer/filteredfactory.go\<close>: a tenant's informer factory over the shared one. The
  parent factory keeps one shared informer for nodes and one for leases; tenants' factories live in
  a heap, and the wrappers of the \<open>Core().V1().Nodes()\<close> chain carry the reference of theirs.
\<close>

section \<open>State\<close>

datatype resource_kind = Nodes | Leases

record FilteredSharedInformerFactory =
  ff_filterKey :: string
  ff_filterValue :: string
  ff_allowMissing :: bool
  ff_informers :: "(resource_kind \<times> nat) list"
  ff_nodeInformer :: "nat option"
  ff_leaseInformer :: "nat option"

record 'o tenant_factories =
  parent :: "resource_kind \<Rightarrow> 'o informers"
  factories :: "FilteredSharedInformerFactory list"

definition set_factory :: "nat \<Rightarrow> FilteredSharedInformerFactory \<Rightarrow> 'o tenant_factories \<Rightarrow> 'o tenant_factories" where
  "set_factory r f w = w\<lparr>factories := (factories w)[r := f]\<rparr>"

definition NewFilteredSharedInformerFactory ::
  "string \<Rightarrow> string \<Rightarrow> bool \<Rightarrow> 'o tenant_factories \<Rightarrow> nat \<times> 'o tenant_factories" where
  "NewFilteredSharedInformerFactory key value missing w =
     (length (factories w),
      w\<lparr>factories := factories w @
          [\<lparr>ff_filterKey = key, ff_filterValue = value, ff_allowMissing = missing,
            ff_informers = [], ff_nodeInformer = None, ff_leaseInformer = None\<rparr>]\<rparr>)"

section \<open>Cleanup\<close>

definition cleanup_one :: "resource_kind \<times> nat \<Rightarrow> 'o tenant_factories \<Rightarrow> 'o tenant_factories" where
  "cleanup_one ki w = w\<lparr>parent := (parent w)(fst ki := fi_Cleanup (snd ki) (parent w (fst ki)))\<rparr>"

definition ff_Cleanup :: "nat \<Rightarrow> 'o tenant_factories \<Rightarrow> 'o tenant_factories" where
  "ff_Cleanup r w =
     (let w = fold cleanup_one (ff_informers (factories w ! r)) w
      in set_factory r ((factories w ! r)\<lparr>ff_informers := []\<rparr>) w)"

section \<open>The wrappers\<close>

record FilteredCoreWrapper = cw_factory :: nat
record FilteredCoreV1Wrapper = cw1_factory :: nat
record FilteredCoordinationWrapper = ow_factory :: nat
record FilteredCoordinationV1Wrapper = ow1_factory :: nat
record FilteredNodeInformer = ni_factory :: nat
record FilteredLeaseInformer = le_factory :: nat

definition ff_Core :: "nat \<Rightarrow> FilteredCoreWrapper" where
  "ff_Core f = \<lparr>cw_factory = f\<rparr>"

definition ff_Coordination :: "nat \<Rightarrow> FilteredCoordinationWrapper" where
  "ff_Coordination f = \<lparr>ow_factory = f\<rparr>"

definition core_V1 :: "FilteredCoreWrapper \<Rightarrow> FilteredCoreV1Wrapper" where
  "core_V1 w = \<lparr>cw1_factory = cw_factory w\<rparr>"

definition core_Nodes :: "FilteredCoreV1Wrapper \<Rightarrow> FilteredNodeInformer" where
  "core_Nodes w = \<lparr>ni_factory = cw1_factory w\<rparr>"

definition coordination_V1 :: "FilteredCoordinationWrapper \<Rightarrow> FilteredCoordinationV1Wrapper" where
  "coordination_V1 w = \<lparr>ow1_factory = ow_factory w\<rparr>"

definition coordination_Leases :: "FilteredCoordinationV1Wrapper \<Rightarrow> FilteredLeaseInformer" where
  "coordination_Leases w = \<lparr>le_factory = ow1_factory w\<rparr>"

section \<open>Informers and listers\<close>

definition NodeInformer_Informer ::
  "'o labels_of \<Rightarrow> FilteredNodeInformer \<Rightarrow> 'o tenant_factories \<Rightarrow> (nat \<times> 'o tenant_factories) outcome" where
  "NodeInformer_Informer labels i w =
     (let r = ni_factory i; f = factories w ! r
      in case ff_nodeInformer f of
           Some i \<Rightarrow> Return (i, w)
         | None \<Rightarrow>
             (case NewFilteredInformer labels (ff_filterKey f) (ff_filterValue f) (ff_allowMissing f)
                     (parent w Nodes) of
                Panic msg \<Rightarrow> Panic msg
              | Return (i, p) \<Rightarrow>
                  let f = f\<lparr>ff_informers := ff_informers f @ [(Nodes, i)], ff_nodeInformer := Some i\<rparr>
                  in Return (i, set_factory r f (w\<lparr>parent := (parent w)(Nodes := p)\<rparr>))))"

definition LeaseInformer_Informer ::
  "'o labels_of \<Rightarrow> FilteredLeaseInformer \<Rightarrow> 'o tenant_factories \<Rightarrow> (nat \<times> 'o tenant_factories) outcome" where
  "LeaseInformer_Informer labels i w =
     (let r = le_factory i; f = factories w ! r
      in case ff_leaseInformer f of
           Some i \<Rightarrow> Return (i, w)
         | None \<Rightarrow>
             (case NewFilteredInformer labels (ff_filterKey f) (ff_filterValue f) (ff_allowMissing f)
                     (parent w Leases) of
                Panic msg \<Rightarrow> Panic msg
              | Return (i, p) \<Rightarrow>
                  let f = f\<lparr>ff_informers := ff_informers f @ [(Leases, i)], ff_leaseInformer := Some i\<rparr>
                  in Return (i, set_factory r f (w\<lparr>parent := (parent w)(Leases := p)\<rparr>))))"

text \<open>\<open>NewNodeLister\<close> and \<open>NewLeaseLister\<close> over the filtered indexer of the informer.\<close>

definition core_Resource :: "string \<Rightarrow> GroupVersionResource" where
  "core_Resource resource = \<lparr>gvr_group = [], gvr_version = [], gvr_resource = resource\<rparr>"

definition coordination_Resource :: "string \<Rightarrow> GroupVersionResource" where
  "coordination_Resource resource = \<lparr>gvr_group = ''coordination.k8s.io'', gvr_version = [], gvr_resource = resource\<rparr>"

definition NodeInformer_Lister ::
  "'o accessor \<Rightarrow> 'o labels_of \<Rightarrow> FilteredNodeInformer \<Rightarrow> 'o tenant_factories \<Rightarrow> ('o ResourceIndexer \<times> 'o tenant_factories) outcome" where
  "NodeInformer_Lister acc labels i w =
     (case NodeInformer_Informer labels i w of
        Panic msg \<Rightarrow> Panic msg
      | Return (ref, w) \<Rightarrow>
          Return (listers_New (fc_Indexer acc labels
                    (fi_GetIndexer (DeletionHandlingMetaNamespaceKeyFunc acc) ref (parent w Nodes)))
                  (core_Resource ''node''), w))"

definition LeaseInformer_Lister ::
  "'o accessor \<Rightarrow> 'o labels_of \<Rightarrow> FilteredLeaseInformer \<Rightarrow> 'o tenant_factories \<Rightarrow> ('o ResourceIndexer \<times> 'o tenant_factories) outcome" where
  "LeaseInformer_Lister acc labels i w =
     (case LeaseInformer_Informer labels i w of
        Panic msg \<Rightarrow> Panic msg
      | Return (ref, w) \<Rightarrow>
          Return (listers_New (fc_Indexer acc labels
                    (fi_GetIndexer (DeletionHandlingMetaNamespaceKeyFunc acc) ref (parent w Leases)))
                  (coordination_Resource ''lease''), w))"

section \<open>Runs of several factories\<close>

inductive fac_step :: "'o labels_of \<Rightarrow> 'o tenant_factories \<Rightarrow> 'o tenant_factories \<Rightarrow> bool" for labels where
  create: "NewFilteredSharedInformerFactory key val missing w = (r, w') \<Longrightarrow> fac_step labels w w'"
| node: "r < length (factories w) \<Longrightarrow>
    NodeInformer_Informer labels (core_Nodes (core_V1 (ff_Core r))) w = Return (i, w') \<Longrightarrow> fac_step labels w w'"
| lease: "r < length (factories w) \<Longrightarrow>
    LeaseInformer_Informer labels (coordination_Leases (coordination_V1 (ff_Coordination r))) w = Return (i, w') \<Longrightarrow>
    fac_step labels w w'"
| clean: "r < length (factories w) \<Longrightarrow> fac_step labels w (ff_Cleanup r w)"
| background: "(\<And>k. filtered (p k) = filtered (parent w k)) \<Longrightarrow> fac_step labels w (w\<lparr>parent := p\<rparr>)"

inductive fac_reachable :: "'o labels_of \<Rightarrow> 'o tenant_factories \<Rightarrow> bool" for labels where
  start: "(\<And>k. filtered (p k) = []) \<Longrightarrow> fac_reachable labels \<lparr>parent = p, factories = []\<rparr>"
| more: "fac_reachable labels w \<Longrightarrow> fac_step labels w w' \<Longrightarrow> fac_reachable labels w'"

text \<open>The informers a factory lists exist, and no other factory lists them.\<close>

definition fac_inv :: "'o tenant_factories \<Rightarrow> bool" where
  "fac_inv w \<longleftrightarrow>
     (\<forall>r<length (factories w). \<forall>(k, i)\<in>set (ff_informers (factories w ! r)). i < length (filtered (parent w k))) \<and>
     (\<forall>r<length (factories w). \<forall>r'<length (factories w). r \<noteq> r' \<longrightarrow>
        set (ff_informers (factories w ! r)) \<inter> set (ff_informers (factories w ! r')) = {})"

lemma NewFilteredInformer_filtered:
  assumes "NewFilteredInformer labels fkey val missing p = Return (i, p')"
  shows "i = length (filtered p) \<and> filtered p' = filtered p @
    [\<lparr>fi_filterKey = fkey, fi_filterValue = val, fi_allowMissing = missing, fi_stopped = False\<rparr>]"
  using assms by (auto simp: NewFilteredInformer_def Let_def split: outcome.splits prod.splits if_splits)

text \<open>A factory that gets a fresh informer keeps the invariant.\<close>

lemma fac_inv_new:
  assumes inv: "fac_inv w" and r: "r < length (factories w)"
    and p: "filtered p' = filtered (parent w k) @ [x]" and i: "i = length (filtered (parent w k))"
    and f: "ff_informers f = ff_informers (factories w ! r) @ [(k, i)]"
  shows "fac_inv (set_factory r f (w\<lparr>parent := (parent w)(k := p')\<rparr>))"
proof -
  let ?w = "set_factory r f (w\<lparr>parent := (parent w)(k := p')\<rparr>)"
  have len: "length (factories ?w) = length (factories w)" by (simp add: set_factory_def)
  have list: "set (ff_informers (factories ?w ! r')) =
      (if r' = r then insert (k, i) (set (ff_informers (factories w ! r))) else set (ff_informers (factories w ! r')))"
    if "r' < length (factories w)" for r'
    using that f by (simp add: set_factory_def)
  have fresh: "(k, i) \<notin> set (ff_informers (factories w ! r'))" if "r' < length (factories w)" for r'
    using inv that i unfolding fac_inv_def by fastforce
  have grow: "length (filtered (parent w k')) \<le> length (filtered (parent ?w k'))"
    "i < length (filtered (parent ?w k))" for k'
    using p i by (simp_all add: set_factory_def)
  have "i' < length (filtered (parent ?w k'))"
    if "r' < length (factories w)" "(k', i') \<in> set (ff_informers (factories ?w ! r'))" for r' k' i'
  proof -
    have "(k', i') = (k, i) \<or> (k', i') \<in> set (ff_informers (factories w ! r'))"
      using that(2) list [OF that(1)] by (auto split: if_splits)
    then show ?thesis
      using inv that(1) grow unfolding fac_inv_def by (fastforce intro: less_le_trans)
  qed
  moreover have "set (ff_informers (factories ?w ! r1)) \<inter> set (ff_informers (factories ?w ! r2)) = {}"
    if "r1 < length (factories w)" "r2 < length (factories w)" "r1 \<noteq> r2" for r1 r2
    using that inv fresh list unfolding fac_inv_def by auto
  ultimately show ?thesis unfolding fac_inv_def len by blast
qed

lemma nth_list_update_all: "xs[i := x] ! j = (if i = j \<and> j < length xs then x else xs ! j)"
proof (cases "i < length xs")
  case True
  then show ?thesis by (auto simp: nth_list_update)
next
  case False
  then show ?thesis by (metis leI list_update_beyond)
qed

lemma cleanup_one_facts [simp]:
  "factories (cleanup_one ki w) = factories w"
  "length (filtered (parent (cleanup_one ki w) k)) = length (filtered (parent w k))"
  by (simp_all add: cleanup_one_def fi_Cleanup_def RemoveEventHandlers_def)

lemma cleanup_one_nth [simp]:
  "filtered (parent (cleanup_one (k', i') w) k) ! i =
     (if (k', i') = (k, i) \<and> i < length (filtered (parent w k))
      then (filtered (parent w k) ! i)\<lparr>fi_stopped := True\<rparr> else filtered (parent w k) ! i)"
  by (cases "k' = k") (auto simp: cleanup_one_def fi_Cleanup_def RemoveEventHandlers_def nth_list_update_all)

lemma fold_cleanup_facts [simp]:
  "factories (fold cleanup_one kis w) = factories w"
  "length (filtered (parent (fold cleanup_one kis w) k)) = length (filtered (parent w k))"
  by (induction kis arbitrary: w) simp_all

lemma fold_cleanup_nth:
  "filtered (parent (fold cleanup_one kis w) k) ! i =
     (if (k, i) \<in> set kis \<and> i < length (filtered (parent w k))
      then (filtered (parent w k) ! i)\<lparr>fi_stopped := True\<rparr> else filtered (parent w k) ! i)"
proof (induction kis arbitrary: w)
  case (Cons ki kis)
  obtain k' i' where "ki = (k', i')" by (cases ki)
  then show ?case using Cons.IH [of "cleanup_one ki w"] by auto
qed simp

lemma ff_Cleanup_facts:
  "length (factories (ff_Cleanup r w)) = length (factories w)"
  "length (filtered (parent (ff_Cleanup r w) k)) = length (filtered (parent w k))"
  "filtered (parent (ff_Cleanup r w) k) ! i =
     (if (k, i) \<in> set (ff_informers (factories w ! r)) \<and> i < length (filtered (parent w k))
      then (filtered (parent w k) ! i)\<lparr>fi_stopped := True\<rparr> else filtered (parent w k) ! i)"
  "r < length (factories w) \<Longrightarrow> r' < length (factories w) \<Longrightarrow> factories (ff_Cleanup r w) ! r' =
     (if r' = r then (factories w ! r)\<lparr>ff_informers := []\<rparr> else factories w ! r')"
  by (simp_all add: ff_Cleanup_def set_factory_def fold_cleanup_nth)

lemma fac_inv_step: "fac_step labels w w' \<Longrightarrow> fac_inv w \<Longrightarrow> fac_inv w'"
proof (induction rule: fac_step.induct)
  case (create key val missing w r w')
  define n where "n = length (factories w)"
  have w': "parent w' = parent w" "length (factories w') = Suc n"
    using create(1) by (auto simp: NewFilteredSharedInformerFactory_def n_def)
  have infs: "ff_informers (factories w' ! r') = (if r' < n then ff_informers (factories w ! r') else [])"
    if "r' < Suc n" for r'
    using create(1) that by (auto simp: NewFilteredSharedInformerFactory_def nth_append less_Suc_eq n_def)
  show ?case
    unfolding fac_inv_def w'
  proof (intro conjI allI impI)
    fix r' assume "r' < Suc n"
    then show "\<forall>(k, i)\<in>set (ff_informers (factories w' ! r')). i < length (filtered (parent w k))"
      using create(2) infs by (auto simp: fac_inv_def n_def)
  next
    fix r1 r2 assume "r1 < Suc n" "r2 < Suc n" "r1 \<noteq> r2"
    then show "set (ff_informers (factories w' ! r1)) \<inter> set (ff_informers (factories w' ! r2)) = {}"
      using create(2) infs by (cases "r1 < n"; cases "r2 < n") (auto simp: fac_inv_def n_def)
  qed
next
  case (node r w i w')
  let ?f = "factories w ! r"
  show ?case
  proof (cases "ff_nodeInformer ?f")
    case None
    with node(2) obtain p where p: "NewFilteredInformer labels (ff_filterKey ?f) (ff_filterValue ?f)
          (ff_allowMissing ?f) (parent w Nodes) = Return (i, p)"
        "w' = set_factory r (?f\<lparr>ff_informers := ff_informers ?f @ [(Nodes, i)], ff_nodeInformer := Some i\<rparr>)
           (w\<lparr>parent := (parent w)(Nodes := p)\<rparr>)"
      by (auto simp: NodeInformer_Informer_def Let_def core_Nodes_def core_V1_def ff_Core_def split: outcome.splits)
    show ?thesis unfolding p(2)
      using NewFilteredInformer_filtered [OF p(1)] node(1,3) by (intro fac_inv_new) auto
  next
    case (Some j)
    with node show ?thesis
      by (auto simp: NodeInformer_Informer_def Let_def core_Nodes_def core_V1_def ff_Core_def)
  qed
next
  case (lease r w i w')
  let ?f = "factories w ! r"
  show ?case
  proof (cases "ff_leaseInformer ?f")
    case None
    with lease(2) obtain p where p: "NewFilteredInformer labels (ff_filterKey ?f) (ff_filterValue ?f)
          (ff_allowMissing ?f) (parent w Leases) = Return (i, p)"
        "w' = set_factory r (?f\<lparr>ff_informers := ff_informers ?f @ [(Leases, i)], ff_leaseInformer := Some i\<rparr>)
           (w\<lparr>parent := (parent w)(Leases := p)\<rparr>)"
      by (auto simp: LeaseInformer_Informer_def Let_def coordination_Leases_def coordination_V1_def
          ff_Coordination_def split: outcome.splits)
    show ?thesis unfolding p(2)
      using NewFilteredInformer_filtered [OF p(1)] lease(1,3) by (intro fac_inv_new) auto
  next
    case (Some j)
    with lease show ?thesis
      by (auto simp: LeaseInformer_Informer_def Let_def coordination_Leases_def coordination_V1_def ff_Coordination_def)
  qed
next
  case (clean r w)
  then show ?case unfolding fac_inv_def ff_Cleanup_facts(1,2)
    by (simp add: ff_Cleanup_facts(4))
next
  case (background p w)
  then show ?case by (simp add: fac_inv_def)
qed

lemma fac_reachable_inv: "fac_reachable labels w \<Longrightarrow> fac_inv w"
  by (induction rule: fac_reachable.induct) (simp add: fac_inv_def, blast intro: fac_inv_step)

section \<open>Properties\<close>

text \<open>C27. Cleaning up one tenant's factory stops its informers and spares the informers of every other
  tenant's factory, over any history of factories, informers and cleanups.\<close>

theorem cleanup_spares_others:
  assumes "fac_reachable labels w" and "r < length (factories w)" and "r' < length (factories w)" and "r \<noteq> r'"
  shows "(\<forall>(k, i)\<in>set (ff_informers (factories w ! r)). fi_stopped (filtered (parent (ff_Cleanup r w) k) ! i))
    \<and> (\<forall>(k, i)\<in>set (ff_informers (factories w ! r')).
         filtered (parent (ff_Cleanup r w) k) ! i = filtered (parent w k) ! i)"
proof -
  have "i < length (filtered (parent w k))" if "(k, i) \<in> set (ff_informers (factories w ! r))" for k i
    using fac_reachable_inv [OF assms(1)] assms(2) that unfolding fac_inv_def by blast
  moreover have "(k, i) \<notin> set (ff_informers (factories w ! r))"
    if "(k, i) \<in> set (ff_informers (factories w ! r'))" for k i
    using fac_reachable_inv [OF assms(1)] assms(2-4) that unfolding fac_inv_def by blast
  ultimately show ?thesis by (auto simp: ff_Cleanup_facts)
qed

text \<open>The informer of a factory is made once; after the factory's \<open>Cleanup\<close> the cached reference
  stays, so \<open>Nodes().Informer()\<close> hands out the stopped informer again and handlers added to it are
  never called.\<close>

theorem cleaned_factory_reuses_stopped:
  assumes "fac_reachable labels w" and "r < length (factories w)"
    and "NodeInformer_Informer labels \<lparr>ni_factory = r\<rparr> w = Return (i, w1)"
    and "(Nodes, i) \<in> set (ff_informers (factories w1 ! r))"
  shows "NodeInformer_Informer labels \<lparr>ni_factory = r\<rparr> w1 = Return (i, w1)
    \<and> NodeInformer_Informer labels \<lparr>ni_factory = r\<rparr> (ff_Cleanup r w1) = Return (i, ff_Cleanup r w1)
    \<and> fi_stopped (filtered (parent (ff_Cleanup r w1) Nodes) ! i)"
proof -
  have step: "fac_step labels w w1"
    by (rule fac_step.node [OF assms(2), of labels i]) (simp add: assms(3) core_Nodes_def core_V1_def ff_Core_def)
  have r1: "r < length (factories w1)" and cached: "ff_nodeInformer (factories w1 ! r) = Some i"
    using assms(2,3) by (auto simp: NodeInformer_Informer_def Let_def set_factory_def
        split: option.splits outcome.splits)
  have "i < length (filtered (parent w1 Nodes))"
    using fac_reachable_inv [OF fac_reachable.more [OF assms(1) step]] r1 assms(4) unfolding fac_inv_def by blast
  then show ?thesis
    using cached r1 assms(4) ff_Cleanup_facts(4) [OF r1 r1]
    by (simp add: NodeInformer_Informer_def Let_def ff_Cleanup_facts(3))
qed


text \<open>Two tenants' factories over one store; the first has made its node informer.\<close>

definition demo_parent :: "object_meta informers" where
  "demo_parent = new_informers [(providerConfigLabel, NewLabelIndexFunc om_GetLabels providerConfigLabel)]"

definition demo_tenants :: "object_meta tenant_factories" where
  "demo_tenants = snd (NewFilteredSharedInformerFactory providerConfigLabel ''t2'' False
     (snd (NewFilteredSharedInformerFactory providerConfigLabel ''t1'' False
       \<lparr>parent = (\<lambda>_. demo_parent), factories = []\<rparr>)))"

lemma demo_tenants_facts:
  "fac_reachable om_GetLabels demo_tenants" "length (factories demo_tenants) = 2"
proof -
  let ?w0 = "\<lparr>parent = (\<lambda>_. demo_parent), factories = []\<rparr>"
  have "fac_reachable om_GetLabels ?w0"
    by (rule fac_reachable.start) (simp add: demo_parent_def new_informers_def)
  then have "fac_reachable om_GetLabels (snd (NewFilteredSharedInformerFactory providerConfigLabel ''t1'' False ?w0))"
    by (rule fac_reachable.more) (rule fac_step.create [OF surjective_pairing])
  then show "fac_reachable om_GetLabels demo_tenants"
    unfolding demo_tenants_def
    by (rule fac_reachable.more) (rule fac_step.create [OF surjective_pairing])
  show "length (factories demo_tenants) = 2"
    by (simp add: demo_tenants_def NewFilteredSharedInformerFactory_def)
qed

lemma demo_node_informer:
  obtains w where "NodeInformer_Informer om_GetLabels \<lparr>ni_factory = 0\<rparr> demo_tenants = Return (0, w)"
    "fac_reachable om_GetLabels w" "length (factories w) = 2" "ff_informers (factories w ! 0) = [(Nodes, 0)]"
proof -
  have "\<exists>w. NodeInformer_Informer om_GetLabels \<lparr>ni_factory = 0\<rparr> demo_tenants = Return (0, w)
      \<and> length (factories w) = 2 \<and> ff_informers (factories w ! 0) = [(Nodes, 0)]"
    by (simp add: NodeInformer_Informer_def demo_tenants_def NewFilteredSharedInformerFactory_def
        NewFilteredInformer_def demo_parent_def new_informers_def NewThreadSafeStore_def tsm_GetIndexers_def
        set_factory_def Let_def)
  then obtain w where w: "NodeInformer_Informer om_GetLabels \<lparr>ni_factory = 0\<rparr> demo_tenants = Return (0, w)"
      "length (factories w) = 2" "ff_informers (factories w ! 0) = [(Nodes, 0)]" by blast
  have "fac_step om_GetLabels demo_tenants w"
    by (rule fac_step.node [of 0]) (use demo_tenants_facts(2) w(1) in \<open>simp_all add: core_Nodes_def core_V1_def ff_Core_def\<close>)
  then show thesis using that w fac_reachable.more [OF demo_tenants_facts(1)] by blast
qed

theorem cleanup_spares_others_witness:
  "\<exists>w. fac_reachable om_GetLabels w \<and> ff_informers (factories w ! 0) = [(Nodes, 0)]
     \<and> fi_stopped (filtered (parent (ff_Cleanup 0 w) Nodes) ! 0)"
proof -
  obtain w where w: "fac_reachable om_GetLabels w" "length (factories w) = 2"
      "ff_informers (factories w ! 0) = [(Nodes, 0)]" by (rule demo_node_informer)
  from cleanup_spares_others [OF w(1), of 0 1] w show ?thesis by auto
qed

theorem cleaned_factory_reuses_stopped_witness:
  "\<exists>w. NodeInformer_Informer om_GetLabels \<lparr>ni_factory = 0\<rparr> (ff_Cleanup 0 w) = Return (0, ff_Cleanup 0 w)
     \<and> fi_stopped (filtered (parent (ff_Cleanup 0 w) Nodes) ! 0)"
proof -
  obtain w where w: "NodeInformer_Informer om_GetLabels \<lparr>ni_factory = 0\<rparr> demo_tenants = Return (0, w)"
      "ff_informers (factories w ! 0) = [(Nodes, 0)]" by (rule demo_node_informer)
  from cleaned_factory_reuses_stopped [OF demo_tenants_facts(1) _ w(1)] w(2) demo_tenants_facts(2)
  show ?thesis by auto
qed

end
