(* ===== verification/GoHeap.thy ===== *)
theory GoHeap imports MTPrelude "HOL-Library.Monad_Syntax" begin

text \<open>
  A memory for the code whose claim is about aliasing, the generated \<open>DeepCopy\<close> functions, and
  the contract of a deep copy.

  A cell is what one address holds: a struct, the array behind a slice, or a map. A pointer is
  \<open>nat option\<close>; a slice is the array's address, the offset and the length; a map is the address
  of its cell. The locale \<open>deep_copy\<close> is the contract: the copy reads as the original does, and
  what it reaches is fresh. The contract is kept by the combinators from which the code builds
  its copies: plain assignment, \<open>new\<close>, \<open>make\<close>, a loop over the elements, and one field after
  the other.
\<close>

section \<open>Memory\<close>

record 'c mem =
  m_next :: nat
  m_cells :: "nat \<Rightarrow> 'c option"

type_synonym ptr = "nat option"
type_synonym slice_header = "(nat \<times> nat \<times> nat) option"

text \<open>A typed read of a cell; \<open>prj\<close> is the partial inverse of the constructor of the type.\<close>

definition load :: "('c \<Rightarrow> 'v option) \<Rightarrow> 'c mem \<Rightarrow> nat \<Rightarrow> 'v option" where
  "load prj m a = (case m_cells m a of None \<Rightarrow> None | Some c \<Rightarrow> prj c)"

definition store :: "('v \<Rightarrow> 'c) \<Rightarrow> nat \<Rightarrow> 'v \<Rightarrow> 'c mem \<Rightarrow> 'c mem" where
  "store mk a v m = m\<lparr>m_cells := (m_cells m)(a \<mapsto> mk v)\<rparr>"

text \<open>\<open>new\<close> and \<open>make\<close>: an unused address; its cell is written when its contents are known.\<close>

definition reserve :: "'c mem \<Rightarrow> nat \<times> 'c mem" where
  "reserve m = (m_next m, m\<lparr>m_next := Suc (m_next m)\<rparr>)"

definition mem_ok :: "'c mem \<Rightarrow> bool" where
  "mem_ok m \<longleftrightarrow> (\<forall>a. m_cells m a \<noteq> None \<longrightarrow> a < m_next m)"

definition grows :: "'c mem \<Rightarrow> 'c mem \<Rightarrow> bool" where
  "grows m m' \<longleftrightarrow> m_next m \<le> m_next m' \<and> (\<forall>a<m_next m. m_cells m' a = m_cells m a)"

definition agree :: "nat set \<Rightarrow> 'c mem \<Rightarrow> 'c mem \<Rightarrow> bool" where
  "agree A m m' \<longleftrightarrow> (\<forall>a\<in>A. m_cells m' a = m_cells m a)"

lemma grows_refl [simp, intro]: "grows m m"
  by (simp add: grows_def)

lemma grows_trans [trans]: "grows m m1 \<Longrightarrow> grows m1 m2 \<Longrightarrow> grows m m2"
  by (fastforce simp: grows_def)

lemma agree_mono: "agree B m m' \<Longrightarrow> A \<subseteq> B \<Longrightarrow> agree A m m'"
  by (auto simp: agree_def)

lemma agree_Un [simp]: "agree (A \<union> B) m m' \<longleftrightarrow> agree A m m' \<and> agree B m m'"
  by (auto simp: agree_def)

lemma agree_insert [simp]:
  "agree (insert a A) m m' \<longleftrightarrow> m_cells m' a = m_cells m a \<and> agree A m m'"
  by (auto simp: agree_def)

lemma agree_UN [simp]: "agree (\<Union> (f ` A)) m m' \<longleftrightarrow> (\<forall>x\<in>A. agree (f x) m m')"
  by (auto simp: agree_def)

lemma agree_empty [simp]: "agree {} m m'"
  by (simp add: agree_def)

lemma grows_agree: "grows m m' \<Longrightarrow> (\<And>a. a \<in> A \<Longrightarrow> a < m_next m) \<Longrightarrow> agree A m m'"
  by (simp add: grows_def agree_def)

lemma load_cong: "m_cells m' a = m_cells m a \<Longrightarrow> load prj m' a = load prj m a"
  by (simp add: load_def)

lemma load_alloc: "mem_ok m \<Longrightarrow> load prj m a = Some v \<Longrightarrow> a < m_next m"
  by (fastforce simp: load_def mem_ok_def split: option.splits)

lemma store_cells [simp]: "m_cells (store mk a v m) = (m_cells m)(a \<mapsto> mk v)"
  "m_next (store mk a v m) = m_next m"
  by (simp_all add: store_def)

lemma load_store [simp]:
  "(\<And>v. prj (mk v) = Some v) \<Longrightarrow> load prj (store mk a v m) a = Some v"
  by (simp add: load_def)

lemma reserve_props:
  assumes "reserve m = (a, m')"
  shows "a = m_next m" "m_next m' = Suc (m_next m)" "m_cells m' = m_cells m" "grows m m'"
    "mem_ok m \<Longrightarrow> mem_ok m'"
  using assms by (auto simp: reserve_def grows_def mem_ok_def less_Suc_eq)

lemma store_fresh:
  assumes "grows m m'" "a < m_next m'" "m_next m \<le> a" "mem_ok m'"
  shows "grows m (store mk a v m')" "mem_ok (store mk a v m')"
  using assms by (auto simp: grows_def mem_ok_def)

section \<open>The contract of a deep copy\<close>

text \<open>
  \<open>copy v m\<close> copies the value \<open>v\<close> held in memory \<open>m\<close> (\<open>None\<close> when it dereferences an address
  that holds nothing of the type); \<open>rd m v\<close> is what \<open>v\<close> means, with every pointer followed;
  \<open>fp m v\<close> are the addresses it reaches.
\<close>

locale deep_copy =
  fixes copy :: "'v \<Rightarrow> 'c mem \<Rightarrow> ('v \<times> 'c mem) option"
    and rd :: "'c mem \<Rightarrow> 'v \<Rightarrow> 'u option"
    and fp :: "'c mem \<Rightarrow> 'v \<Rightarrow> nat set"
  assumes rd_local: "agree (fp m v) m m' \<Longrightarrow> rd m' v = rd m v"
    and fp_local: "agree (fp m v) m m' \<Longrightarrow> fp m' v = fp m v"
    and fp_alloc: "mem_ok m \<Longrightarrow> rd m v = Some u \<Longrightarrow> fp m v \<subseteq> {..<m_next m}"
    and copied: "mem_ok m \<Longrightarrow> rd m v = Some u \<Longrightarrow>
      \<exists>v' m'. copy v m = Some (v', m') \<and> mem_ok m' \<and> grows m m' \<and> rd m' v' = Some u
        \<and> fp m' v' \<subseteq> {m_next m..<m_next m'}"
begin

lemma copyE:
  assumes "mem_ok m" "rd m v = Some u"
  obtains v' m' where "copy v m = Some (v', m')" "mem_ok m'" "grows m m'" "rd m' v' = Some u"
    "fp m' v' \<subseteq> {m_next m..<m_next m'}"
  using copied [OF assms] by blast

lemma grown:
  assumes "mem_ok m" "rd m v = Some u" "grows m m'"
  shows "rd m' v = Some u" "fp m' v = fp m v"
proof -
  have "agree (fp m v) m m'"
    by (rule grows_agree [OF assms(3)]) (use fp_alloc [OF assms(1,2)] in auto)
  then show "rd m' v = Some u" "fp m' v = fp m v"
    using rd_local fp_local assms(2) by auto
qed

text \<open>Writes to what the copy reaches do not show in the original, nor the other way round.\<close>

lemma independent:
  assumes "mem_ok m" "rd m v = Some u"
  shows "\<exists>v' m'. copy v m = Some (v', m') \<and> rd m' v' = Some u
    \<and> (\<forall>w. agree (- fp m' v') m' w \<longrightarrow> rd w v = Some u)
    \<and> (\<forall>w. agree (- fp m' v) m' w \<longrightarrow> rd w v' = Some u)"
proof -
  obtain v' m' where c: "copy v m = Some (v', m')" "mem_ok m'" "grows m m'" "rd m' v' = Some u"
    "fp m' v' \<subseteq> {m_next m..<m_next m'}"
    using copyE [OF assms] by blast
  have o: "rd m' v = Some u" "fp m' v \<subseteq> {..<m_next m}"
    using grown [OF assms c(3)] fp_alloc [OF assms] by auto
  have disj: "fp m' v \<subseteq> - fp m' v'" "fp m' v' \<subseteq> - fp m' v"
    using o(2) c(5) by fastforce+
  have "rd w v = Some u" if "agree (- fp m' v') m' w" for w
    using rd_local [OF agree_mono [OF that disj(1)]] o(1) by simp
  moreover have "rd w v' = Some u" if "agree (- fp m' v) m' w" for w
    using rd_local [OF agree_mono [OF that disj(2)]] c(4) by simp
  ultimately show ?thesis using c(1,4) by blast
qed

end

section \<open>Combinators\<close>

text \<open>Plain assignment, of values without pointers.\<close>

definition copy_flat :: "'v \<Rightarrow> 'c mem \<Rightarrow> ('v \<times> 'c mem) option" where
  "copy_flat v m = Some (v, m)"

definition rd_flat :: "'c mem \<Rightarrow> 'v \<Rightarrow> 'v option" where
  "rd_flat m v = Some v"

definition fp_flat :: "'c mem \<Rightarrow> 'v \<Rightarrow> nat set" where
  "fp_flat m v = {}"

lemma deep_copy_flat: "deep_copy copy_flat rd_flat fp_flat"
  by unfold_locales (simp_all add: copy_flat_def rd_flat_def fp_flat_def)

text \<open>One copy after the other.\<close>

definition copy_pair ::
  "('v \<Rightarrow> 'c mem \<Rightarrow> ('v \<times> 'c mem) option) \<Rightarrow> ('w \<Rightarrow> 'c mem \<Rightarrow> ('w \<times> 'c mem) option)
   \<Rightarrow> 'v \<times> 'w \<Rightarrow> 'c mem \<Rightarrow> (('v \<times> 'w) \<times> 'c mem) option" where
  "copy_pair c1 c2 p m = do { (v, m) \<leftarrow> c1 (fst p) m; (w, m) \<leftarrow> c2 (snd p) m; Some ((v, w), m) }"

definition rd_pair ::
  "('c mem \<Rightarrow> 'v \<Rightarrow> 'u option) \<Rightarrow> ('c mem \<Rightarrow> 'w \<Rightarrow> 't option) \<Rightarrow> 'c mem \<Rightarrow> 'v \<times> 'w \<Rightarrow> ('u \<times> 't) option" where
  "rd_pair r1 r2 m p = do { u \<leftarrow> r1 m (fst p); t \<leftarrow> r2 m (snd p); Some (u, t) }"

definition fp_pair ::
  "('c mem \<Rightarrow> 'v \<Rightarrow> nat set) \<Rightarrow> ('c mem \<Rightarrow> 'w \<Rightarrow> nat set) \<Rightarrow> 'c mem \<Rightarrow> 'v \<times> 'w \<Rightarrow> nat set" where
  "fp_pair f1 f2 m p = f1 m (fst p) \<union> f2 m (snd p)"

lemma deep_copy_pair:
  assumes "deep_copy c1 r1 f1" "deep_copy c2 r2 f2"
  shows "deep_copy (copy_pair c1 c2) (rd_pair r1 r2) (fp_pair f1 f2)"
proof
  fix m m' :: "'b mem" and p :: "'a \<times> 'd"
  assume "agree (fp_pair f1 f2 m p) m m'"
  then have a: "agree (f1 m (fst p)) m m'" "agree (f2 m (snd p)) m m'"
    by (simp_all add: fp_pair_def)
  show "rd_pair r1 r2 m' p = rd_pair r1 r2 m p"
    using deep_copy.rd_local [OF assms(1) a(1)] deep_copy.rd_local [OF assms(2) a(2)]
    by (simp add: rd_pair_def)
  show "fp_pair f1 f2 m' p = fp_pair f1 f2 m p"
    using deep_copy.fp_local [OF assms(1) a(1)] deep_copy.fp_local [OF assms(2) a(2)]
    by (simp add: fp_pair_def)
next
  fix m :: "'b mem" and p :: "'a \<times> 'd" and u
  assume ok: "mem_ok m" and "rd_pair r1 r2 m p = Some u"
  then obtain u1 u2 where u: "r1 m (fst p) = Some u1" "r2 m (snd p) = Some u2" "u = (u1, u2)"
    by (auto simp: rd_pair_def bind_eq_Some_conv)
  show "fp_pair f1 f2 m p \<subseteq> {..<m_next m}"
    using deep_copy.fp_alloc [OF assms(1) ok u(1)] deep_copy.fp_alloc [OF assms(2) ok u(2)]
    by (simp add: fp_pair_def)
  obtain v m1 where 1: "c1 (fst p) m = Some (v, m1)" "mem_ok m1" "grows m m1" "r1 m1 v = Some u1"
    "f1 m1 v \<subseteq> {m_next m..<m_next m1}"
    using deep_copy.copyE [OF assms(1) ok u(1)] by blast
  have "r2 m1 (snd p) = Some u2"
    using deep_copy.grown [OF assms(2) ok u(2) 1(3)] by simp
  then obtain w m2 where 2: "c2 (snd p) m1 = Some (w, m2)" "mem_ok m2" "grows m1 m2" "r2 m2 w = Some u2"
    "f2 m2 w \<subseteq> {m_next m1..<m_next m2}"
    using deep_copy.copyE [OF assms(2) 1(2)] by blast
  have "r1 m2 v = Some u1" "f1 m2 v = f1 m1 v"
    using deep_copy.grown [OF assms(1) 1(2,4) 2(3)] by simp_all
  moreover have "m_next m \<le> m_next m1" "m_next m1 \<le> m_next m2"
    using 1(3) 2(3) by (simp_all add: grows_def)
  ultimately show "\<exists>v' m'. copy_pair c1 c2 p m = Some (v', m') \<and> mem_ok m' \<and> grows m m'
      \<and> rd_pair r1 r2 m' v' = Some u \<and> fp_pair f1 f2 m' v' \<subseteq> {m_next m..<m_next m'}"
    using 1 2 u(3) by (fastforce simp: copy_pair_def rd_pair_def fp_pair_def intro: grows_trans)
qed

text \<open>
  A struct: the part \<open>get s\<close> that is copied is put back; the rest is assigned. \<open>build\<close> makes the
  meaning of the struct from the meaning of the copied part.
\<close>

definition copy_struct ::
  "('s \<Rightarrow> 'v) \<Rightarrow> ('v \<Rightarrow> 's \<Rightarrow> 's) \<Rightarrow> ('v \<Rightarrow> 'c mem \<Rightarrow> ('v \<times> 'c mem) option)
   \<Rightarrow> 's \<Rightarrow> 'c mem \<Rightarrow> ('s \<times> 'c mem) option" where
  "copy_struct get put c s m = do { (v, m) \<leftarrow> c (get s) m; Some (put v s, m) }"

definition rd_struct ::
  "('s \<Rightarrow> 'v) \<Rightarrow> ('s \<Rightarrow> 'u \<Rightarrow> 't) \<Rightarrow> ('c mem \<Rightarrow> 'v \<Rightarrow> 'u option) \<Rightarrow> 'c mem \<Rightarrow> 's \<Rightarrow> 't option" where
  "rd_struct get build r m s = map_option (build s) (r m (get s))"

definition fp_struct :: "('s \<Rightarrow> 'v) \<Rightarrow> ('c mem \<Rightarrow> 'v \<Rightarrow> nat set) \<Rightarrow> 'c mem \<Rightarrow> 's \<Rightarrow> nat set" where
  "fp_struct get f m s = f m (get s)"

lemma deep_copy_struct:
  assumes c: "deep_copy c r f"
    and get: "\<And>v s. get (put v s) = v" and build: "\<And>v s. build (put v s) = build s"
  shows "deep_copy (copy_struct get put c) (rd_struct get build r) (fp_struct get f)"
proof
  fix m m' :: "'b mem" and s
  assume "agree (fp_struct get f m s) m m'"
  then have a: "agree (f m (get s)) m m'" by (simp add: fp_struct_def)
  show "rd_struct get build r m' s = rd_struct get build r m s"
    using deep_copy.rd_local [OF c a] by (simp add: rd_struct_def)
  show "fp_struct get f m' s = fp_struct get f m s"
    using deep_copy.fp_local [OF c a] by (simp add: fp_struct_def)
next
  fix m :: "'b mem" and s t
  assume ok: "mem_ok m" and "rd_struct get build r m s = Some t"
  then obtain u where u: "r m (get s) = Some u" "t = build s u"
    by (auto simp: rd_struct_def)
  show "fp_struct get f m s \<subseteq> {..<m_next m}"
    using deep_copy.fp_alloc [OF c ok u(1)] by (simp add: fp_struct_def)
  obtain v m1 where "c (get s) m = Some (v, m1)" "mem_ok m1" "grows m m1" "r m1 v = Some u"
    "f m1 v \<subseteq> {m_next m..<m_next m1}"
    using deep_copy.copyE [OF c ok u(1)] by blast
  then show "\<exists>v' m'. copy_struct get put c s m = Some (v', m') \<and> mem_ok m' \<and> grows m m'
      \<and> rd_struct get build r m' v' = Some t \<and> fp_struct get f m' v' \<subseteq> {m_next m..<m_next m'}"
    using u(2) get build by (auto simp: copy_struct_def rd_struct_def fp_struct_def)
qed

text \<open>\<open>if in.F != nil { *out = new(T); (**in).DeepCopyInto(*out) }\<close>\<close>

definition copy_new ::
  "('v \<Rightarrow> 'c) \<Rightarrow> ('c \<Rightarrow> 'v option) \<Rightarrow> ('v \<Rightarrow> 'c mem \<Rightarrow> ('v \<times> 'c mem) option)
   \<Rightarrow> ptr \<Rightarrow> 'c mem \<Rightarrow> (ptr \<times> 'c mem) option" where
  "copy_new mk prj c p m = (case p of
     None \<Rightarrow> Some (None, m)
   | Some a \<Rightarrow> (let (b, m1) = reserve m in do {
       v \<leftarrow> load prj m1 a;
       (v, m2) \<leftarrow> c v m1;
       Some (Some b, store mk b v m2) }))"

definition rd_new :: "('c \<Rightarrow> 'v option) \<Rightarrow> ('c mem \<Rightarrow> 'v \<Rightarrow> 'u option) \<Rightarrow> 'c mem \<Rightarrow> ptr \<Rightarrow> 'u option option" where
  "rd_new prj r m p = (case p of
     None \<Rightarrow> Some None
   | Some a \<Rightarrow> do { v \<leftarrow> load prj m a; u \<leftarrow> r m v; Some (Some u) })"

definition fp_new :: "('c \<Rightarrow> 'v option) \<Rightarrow> ('c mem \<Rightarrow> 'v \<Rightarrow> nat set) \<Rightarrow> 'c mem \<Rightarrow> ptr \<Rightarrow> nat set" where
  "fp_new prj f m p = (case p of
     None \<Rightarrow> {}
   | Some a \<Rightarrow> insert a (case load prj m a of None \<Rightarrow> {} | Some v \<Rightarrow> f m v))"

lemma deep_copy_new:
  assumes c: "deep_copy c r f" and mk: "\<And>v. prj (mk v) = Some v"
  shows "deep_copy (copy_new mk prj c) (rd_new prj r) (fp_new prj f)"
proof
  fix m m' :: "'b mem" and p
  assume a: "agree (fp_new prj f m p) m m'"
  have "rd_new prj r m' p = rd_new prj r m p \<and> fp_new prj f m' p = fp_new prj f m p"
  proof (cases p)
    case (Some b)
    then have l: "load prj m' b = load prj m b" using a by (auto intro!: load_cong simp: fp_new_def)
    show ?thesis
    proof (cases "load prj m b")
      case (Some v)
      then have "agree (f m v) m m'" using a \<open>p = Some b\<close> by (simp add: fp_new_def)
      from deep_copy.rd_local [OF c this] deep_copy.fp_local [OF c this] show ?thesis
        using Some l \<open>p = Some b\<close> by (simp add: rd_new_def fp_new_def)
    qed (use l \<open>p = Some b\<close> in \<open>simp add: rd_new_def fp_new_def\<close>)
  qed (simp add: rd_new_def fp_new_def)
  then show "rd_new prj r m' p = rd_new prj r m p" "fp_new prj f m' p = fp_new prj f m p" by simp_all
next
  fix m :: "'b mem" and p t
  assume ok: "mem_ok m" and t: "rd_new prj r m p = Some t"
  have "fp_new prj f m p \<subseteq> {..<m_next m} \<and> (\<exists>v' m'. copy_new mk prj c p m = Some (v', m') \<and> mem_ok m'
     \<and> grows m m' \<and> rd_new prj r m' v' = Some t \<and> fp_new prj f m' v' \<subseteq> {m_next m..<m_next m'})"
  proof (cases p)
    case None
    then show ?thesis using t ok by (simp add: rd_new_def fp_new_def copy_new_def)
  next
    case (Some a)
    then obtain v u where u: "load prj m a = Some v" "r m v = Some u" "t = Some u"
      using t by (auto simp: rd_new_def bind_eq_Some_conv)
    obtain b m1 where R: "reserve m = (b, m1)" by fastforce
    note R' = reserve_props [OF R]
    have 1: "load prj m1 a = Some v" "r m1 v = Some u" "mem_ok m1"
      using u R' deep_copy.grown [OF c ok u(2) R'(4)] ok by (simp_all add: load_def)
    obtain v' m2 where 2: "c v m1 = Some (v', m2)" "mem_ok m2" "grows m1 m2" "r m2 v' = Some u"
      "f m2 v' \<subseteq> {m_next m1..<m_next m2}"
      using deep_copy.copyE [OF c 1(3,2)] by blast
    have b: "b < m_next m2" "m_next m \<le> b" using 2(3) R' by (auto simp: grows_def)
    let ?m = "store mk b v' m2"
    have "agree (f m2 v') m2 ?m" using 2(5) R' by (auto simp: agree_def)
    then have 3: "r ?m v' = Some u" "f ?m v' = f m2 v'"
      using deep_copy.rd_local [OF c] deep_copy.fp_local [OF c] 2(4) by auto
    have "grows m ?m" "mem_ok ?m"
      using store_fresh [OF grows_trans [OF R'(4) 2(3)] b 2(2), of mk v'] by simp_all
    moreover have "fp_new prj f m p \<subseteq> {..<m_next m}"
      using deep_copy.fp_alloc [OF c ok u(2)] load_alloc [OF ok u(1)] Some u(1) by (auto simp: fp_new_def)
    ultimately show ?thesis
      using Some R 1 2 3 u(3) b R' mk by (fastforce simp: copy_new_def rd_new_def fp_new_def)
  qed
  then show "fp_new prj f m p \<subseteq> {..<m_next m}"
    "\<exists>v' m'. copy_new mk prj c p m = Some (v', m') \<and> mem_ok m' \<and> grows m m'
      \<and> rd_new prj r m' v' = Some t \<and> fp_new prj f m' v' \<subseteq> {m_next m..<m_next m'}" by simp_all
qed

text \<open>A loop over the elements, then a slice: \<open>*out = make([]T, len(*in))\<close> and an element copy each.\<close>

primrec copy_elems :: "('v \<Rightarrow> 'c mem \<Rightarrow> ('v \<times> 'c mem) option) \<Rightarrow> 'v list \<Rightarrow> 'c mem \<Rightarrow> ('v list \<times> 'c mem) option" where
  "copy_elems c [] m = Some ([], m)"
| "copy_elems c (v # vs) m = do { (v, m) \<leftarrow> c v m; (vs, m) \<leftarrow> copy_elems c vs m; Some (v # vs, m) }"

primrec rd_elems :: "('c mem \<Rightarrow> 'v \<Rightarrow> 'u option) \<Rightarrow> 'c mem \<Rightarrow> 'v list \<Rightarrow> 'u list option" where
  "rd_elems r m [] = Some []"
| "rd_elems r m (v # vs) = do { u \<leftarrow> r m v; us \<leftarrow> rd_elems r m vs; Some (u # us) }"

definition fp_elems :: "('c mem \<Rightarrow> 'v \<Rightarrow> nat set) \<Rightarrow> 'c mem \<Rightarrow> 'v list \<Rightarrow> nat set" where
  "fp_elems f m vs = (\<Union>v\<in>set vs. f m v)"

lemma fp_elems_simps [simp]: "fp_elems f m [] = {}" "fp_elems f m (v # vs) = f m v \<union> fp_elems f m vs"
  by (simp_all add: fp_elems_def)

lemma rd_elems_local:
  assumes "deep_copy c r f"
  shows "agree (fp_elems f m vs) m m' \<Longrightarrow> rd_elems r m' vs = rd_elems r m vs"
  by (induction vs) (auto dest!: deep_copy.rd_local [OF assms])

lemma fp_elems_local:
  assumes "deep_copy c r f"
  shows "agree (fp_elems f m vs) m m' \<Longrightarrow> fp_elems f m' vs = fp_elems f m vs"
  by (induction vs) (auto dest!: deep_copy.fp_local [OF assms])

lemma fp_elems_alloc:
  assumes "deep_copy c r f" "mem_ok m"
  shows "rd_elems r m vs = Some us \<Longrightarrow> fp_elems f m vs \<subseteq> {..<m_next m}"
proof (induction vs arbitrary: us)
  case (Cons v vs)
  then obtain u us' where "r m v = Some u" "rd_elems r m vs = Some us'"
    by (auto simp: bind_eq_Some_conv)
  then show ?case using deep_copy.fp_alloc [OF assms, of v u] Cons.IH by simp
qed simp

lemma copy_elems_copied:
  assumes c: "deep_copy c r f"
  shows "mem_ok m \<Longrightarrow> rd_elems r m vs = Some us \<Longrightarrow>
      \<exists>vs' m'. copy_elems c vs m = Some (vs', m') \<and> mem_ok m' \<and> grows m m' \<and> rd_elems r m' vs' = Some us
        \<and> fp_elems f m' vs' \<subseteq> {m_next m..<m_next m'}"
proof (induction vs arbitrary: us m)
  case (Cons v vs)
  obtain u us' where u: "r m v = Some u" "rd_elems r m vs = Some us'" "us = u # us'"
    using Cons.prems(2) by (auto simp: bind_eq_Some_conv)
  obtain v' m1 where 1: "c v m = Some (v', m1)" "mem_ok m1" "grows m m1" "r m1 v' = Some u"
    "f m1 v' \<subseteq> {m_next m..<m_next m1}"
    using deep_copy.copyE [OF c Cons.prems(1) u(1)] by blast
  have "agree (fp_elems f m vs) m m1"
    by (rule grows_agree [OF 1(3)]) (use fp_elems_alloc [OF c Cons.prems(1) u(2)] in auto)
  then have "rd_elems r m1 vs = Some us'"
    using rd_elems_local [OF c] u(2) by simp
  then obtain vs' m2 where 2: "copy_elems c vs m1 = Some (vs', m2)" "mem_ok m2" "grows m1 m2"
    "rd_elems r m2 vs' = Some us'" "fp_elems f m2 vs' \<subseteq> {m_next m1..<m_next m2}"
    using Cons.IH [OF 1(2)] by blast
  have 3: "r m2 v' = Some u" "f m2 v' = f m1 v'"
    using deep_copy.grown [OF c 1(2,4) 2(3)] by simp_all
  have "m_next m \<le> m_next m1" "m_next m1 \<le> m_next m2"
    using 1(3) 2(3) by (simp_all add: grows_def)
  then have "fp_elems f m2 (v' # vs') \<subseteq> {m_next m..<m_next m2}"
    using 1(5) 2(5) 3(2) by fastforce
  then show ?case
    using 1(1) 2(1,2,4) 3(1) u(3) grows_trans [OF 1(3) 2(3)] by simp
qed simp

lemma copy_elems_length: "copy_elems c vs m = Some (vs', m') \<Longrightarrow> length vs' = length vs"
  by (induction vs arbitrary: vs' m) (auto simp: bind_eq_Some_conv)

lemma rd_elems_length: "rd_elems r m vs = Some us \<Longrightarrow> length us = length vs"
  by (induction vs arbitrary: us) (auto simp: bind_eq_Some_conv)

definition slice_elems :: "('c \<Rightarrow> 'v list option) \<Rightarrow> 'c mem \<Rightarrow> nat \<times> nat \<times> nat \<Rightarrow> 'v list option" where
  "slice_elems prj m h = (case h of (a, off, n) \<Rightarrow> do {
     xs \<leftarrow> load prj m a;
     if off + n \<le> length xs then Some (take n (drop off xs)) else None })"

definition copy_slice ::
  "('v list \<Rightarrow> 'c) \<Rightarrow> ('c \<Rightarrow> 'v list option) \<Rightarrow> ('v \<Rightarrow> 'c mem \<Rightarrow> ('v \<times> 'c mem) option)
   \<Rightarrow> slice_header \<Rightarrow> 'c mem \<Rightarrow> (slice_header \<times> 'c mem) option" where
  "copy_slice mk prj c s m = (case s of
     None \<Rightarrow> Some (None, m)
   | Some h \<Rightarrow> (let (b, m1) = reserve m in do {
       vs \<leftarrow> slice_elems prj m1 h;
       (vs, m2) \<leftarrow> copy_elems c vs m1;
       Some (Some (b, 0, length vs), store mk b vs m2) }))"

definition rd_slice ::
  "('c \<Rightarrow> 'v list option) \<Rightarrow> ('c mem \<Rightarrow> 'v \<Rightarrow> 'u option) \<Rightarrow> 'c mem \<Rightarrow> slice_header \<Rightarrow> 'u slice option" where
  "rd_slice prj r m s = (case s of
     None \<Rightarrow> Some None
   | Some h \<Rightarrow> do { vs \<leftarrow> slice_elems prj m h; us \<leftarrow> rd_elems r m vs; Some (Some us) })"

definition fp_slice ::
  "('c \<Rightarrow> 'v list option) \<Rightarrow> ('c mem \<Rightarrow> 'v \<Rightarrow> nat set) \<Rightarrow> 'c mem \<Rightarrow> slice_header \<Rightarrow> nat set" where
  "fp_slice prj f m s = (case s of
     None \<Rightarrow> {}
   | Some h \<Rightarrow> insert (fst h) (case slice_elems prj m h of None \<Rightarrow> {} | Some vs \<Rightarrow> fp_elems f m vs))"

lemma slice_elems_cong: "m_cells m' (fst h) = m_cells m (fst h) \<Longrightarrow> slice_elems prj m' h = slice_elems prj m h"
  by (cases h) (simp add: slice_elems_def load_def)

lemma slice_elems_alloc: "mem_ok m \<Longrightarrow> slice_elems prj m h = Some vs \<Longrightarrow> fst h < m_next m"
  by (cases h) (auto simp: slice_elems_def bind_eq_Some_conv intro: load_alloc)

lemma slice_elems_made: "(\<And>v. prj (mk v) = Some v) \<Longrightarrow> slice_elems prj (store mk b vs m) (b, 0, length vs) = Some vs"
  by (simp add: slice_elems_def)

lemma deep_copy_slice:
  assumes c: "deep_copy c r f" and mk: "\<And>v. prj (mk v) = Some v"
  shows "deep_copy (copy_slice mk prj c) (rd_slice prj r) (fp_slice prj f)"
proof
  fix m m' :: "'b mem" and s
  assume a: "agree (fp_slice prj f m s) m m'"
  have "rd_slice prj r m' s = rd_slice prj r m s \<and> fp_slice prj f m' s = fp_slice prj f m s"
  proof (cases s)
    case (Some h)
    then have l: "slice_elems prj m' h = slice_elems prj m h"
      using a by (auto intro!: slice_elems_cong simp: fp_slice_def)
    show ?thesis
    proof (cases "slice_elems prj m h")
      case (Some vs)
      then have "agree (fp_elems f m vs) m m'" using a \<open>s = Some h\<close> by (simp add: fp_slice_def)
      from rd_elems_local [OF c this] fp_elems_local [OF c this] show ?thesis
        using Some l \<open>s = Some h\<close> by (simp add: rd_slice_def fp_slice_def)
    qed (use l \<open>s = Some h\<close> in \<open>simp add: rd_slice_def fp_slice_def\<close>)
  qed (simp add: rd_slice_def fp_slice_def)
  then show "rd_slice prj r m' s = rd_slice prj r m s" "fp_slice prj f m' s = fp_slice prj f m s"
    by simp_all
next
  fix m :: "'b mem" and s t
  assume ok: "mem_ok m" and t: "rd_slice prj r m s = Some t"
  have "fp_slice prj f m s \<subseteq> {..<m_next m} \<and> (\<exists>v' m'. copy_slice mk prj c s m = Some (v', m') \<and> mem_ok m'
     \<and> grows m m' \<and> rd_slice prj r m' v' = Some t \<and> fp_slice prj f m' v' \<subseteq> {m_next m..<m_next m'})"
  proof (cases s)
    case None
    then show ?thesis using t ok by (simp add: rd_slice_def fp_slice_def copy_slice_def)
  next
    case (Some h)
    then obtain vs us where u: "slice_elems prj m h = Some vs" "rd_elems r m vs = Some us" "t = Some us"
      using t by (auto simp: rd_slice_def bind_eq_Some_conv)
    obtain b m1 where R: "reserve m = (b, m1)" by fastforce
    note R' = reserve_props [OF R]
    have "agree (fp_elems f m vs) m m1" using R'(3) by (simp add: agree_def)
    then have 1: "slice_elems prj m1 h = Some vs" "rd_elems r m1 vs = Some us" "mem_ok m1"
      using u R' ok rd_elems_local [OF c] slice_elems_cong [of m1 h m prj] by simp_all
    obtain vs' m2 where 2: "copy_elems c vs m1 = Some (vs', m2)" "mem_ok m2" "grows m1 m2"
      "rd_elems r m2 vs' = Some us" "fp_elems f m2 vs' \<subseteq> {m_next m1..<m_next m2}"
      using copy_elems_copied [OF c 1(3,2)] by blast
    have b: "b < m_next m2" "m_next m \<le> b" using 2(3) R' by (auto simp: grows_def)
    let ?m = "store mk b vs' m2"
    have "agree (fp_elems f m2 vs') m2 ?m" using 2(5) R' by (auto simp: agree_def)
    then have 3: "rd_elems r ?m vs' = Some us" "fp_elems f ?m vs' = fp_elems f m2 vs'"
      using rd_elems_local [OF c] fp_elems_local [OF c] 2(4) by auto
    have "grows m ?m" "mem_ok ?m"
      using store_fresh [OF grows_trans [OF R'(4) 2(3)] b 2(2), of mk vs'] by simp_all
    moreover have "fp_slice prj f m s \<subseteq> {..<m_next m}"
      using fp_elems_alloc [OF c ok u(2)] slice_elems_alloc [OF ok u(1)] Some u(1) by (auto simp: fp_slice_def)
    moreover have "slice_elems prj ?m (b, 0, length vs') = Some vs'"
      by (rule slice_elems_made) (rule mk)
    moreover have "fp_elems f m2 vs' \<subseteq> {m_next m..<m_next m2}" using 2(5) R'(2) by fastforce
    ultimately show ?thesis
      using Some R 1(1) 2(1) 3 u(3) b by (simp add: copy_slice_def rd_slice_def fp_slice_def)
  qed
  then show "fp_slice prj f m s \<subseteq> {..<m_next m}"
    "\<exists>v' m'. copy_slice mk prj c s m = Some (v', m') \<and> mem_ok m' \<and> grows m m'
      \<and> rd_slice prj r m' v' = Some t \<and> fp_slice prj f m' v' \<subseteq> {m_next m..<m_next m'}" by simp_all
qed

end
