(* ===== verification/DeepCopy.thy ===== *)
theory DeepCopy imports GoHeap ApiTypes begin

text \<open>
  The generated deep copies: \<open>zz_generated.deepcopy.go\<close> of
  \<open>pkg/apis/providerconfig/v1_kubernetes_apis\<close> and \<open>pkg/apis/tenant/v1_kubernetes_apis\<close>, with the
  vendored copies of \<open>ObjectMeta\<close>, \<open>ListMeta\<close> and \<open>Condition\<close> they call, and of the owner references,
  managed fields and shard info in these. The structs are those of \<open>ApiTypes\<close> with addresses for pointers, slices and maps.

  \<open>T_DeepCopyInto x m\<close> gives what \<open>x.DeepCopyInto(out)\<close> leaves in \<open>*out\<close>; \<open>T_DeepCopy p m\<close> follows
  the pointer \<open>p\<close>. For each type, \<open>T_rd\<close> reads the struct as the value of \<open>ApiTypes\<close> it stands for,
  \<open>T_fp\<close> is the set of addresses it reaches, and the three are an instance of \<open>deep_copy\<close>.
\<close>

section \<open>The cells of the memory\<close>

type_synonym lm_mem = "(ptr, ptr) ListMeta"
type_synonym or_mem = "ptr OwnerReference"
type_synonym fv_mem = "slice_header FieldsV1"
type_synonym mf_mem = "(ptr, ptr) ManagedFieldsEntry"
type_synonym om_mem = "(ptr, ptr, ptr, slice_header, slice_header, slice_header) ObjectMeta"
type_synonym subnet_mem = "(ptr, slice_header) ProviderConfigSubnetInfo"
type_synonym network_mem = "(ptr, slice_header) ProviderNetworkConfig"
type_synonym spec_mem = "(ptr, slice_header, ptr, ptr) ProviderConfigSpec"
type_synonym status_mem = "slice_header ProviderConfigStatus"
type_synonym pc_mem =
  "(ptr, ptr, ptr, slice_header, slice_header, slice_header, ptr, slice_header, ptr, ptr, slice_header) ProviderConfig"
type_synonym pcl_mem = "(ptr, ptr, slice_header) ProviderConfigList"
type_synonym tsubnet_mem = "slice_header SubnetInfo"
type_synonym tnetwork_mem = "slice_header NetworkConfig"
type_synonym tspec_mem = "(slice_header, slice_header) TenantSpec"
type_synonym tstatus_mem = "slice_header TenantStatus"
type_synonym tn_mem =
  "(ptr, ptr, ptr, slice_header, slice_header, slice_header, slice_header, slice_header) Tenant"
type_synonym tnl_mem = "(ptr, ptr, slice_header) TenantList"

datatype cell =
    Time_cell int
  | Int64_cell int
  | StringMap_cell strmap
  | Strings_cell "string list"
  | Conditions_cell "Condition list"
  | AuthConfig_cell AuthConfig
  | PrincipalInfo_cell PrincipalInfo
  | Range_cell Range
  | ProviderConfigSecondaryRange_cell ProviderConfigSecondaryRange
  | ProviderConfigSecondaryRanges_cell "ProviderConfigSecondaryRange list"
  | ProviderConfigSubnetInfo_cell subnet_mem
  | ProviderNetworkConfig_cell network_mem
  | ProviderConfigSpec_cell spec_mem
  | ProviderConfigStatus_cell status_mem
  | ProviderConfig_cell pc_mem
  | ProviderConfigs_cell "pc_mem list"
  | ProviderConfigList_cell pcl_mem
  | SecondaryRange_cell SecondaryRange
  | SecondaryRanges_cell "SecondaryRange list"
  | SubnetInfo_cell tsubnet_mem
  | NetworkConfig_cell tnetwork_mem
  | TenantSpec_cell tspec_mem
  | TenantStatus_cell tstatus_mem
  | Tenant_cell tn_mem
  | Tenants_cell "tn_mem list"
  | TenantList_cell tnl_mem
  | Bool_cell bool
  | Bytes_cell "char list"
  | ShardInfo_cell ShardInfo
  | OwnerReferences_cell "or_mem list"
  | FieldsV1_cell fv_mem
  | ManagedFieldsEntries_cell "mf_mem list"

definition as_Time :: "cell \<Rightarrow> int option" where
  "as_Time c = (case c of Time_cell x \<Rightarrow> Some x | _ \<Rightarrow> None)"

definition as_Int64 :: "cell \<Rightarrow> int option" where
  "as_Int64 c = (case c of Int64_cell x \<Rightarrow> Some x | _ \<Rightarrow> None)"

definition as_StringMap :: "cell \<Rightarrow> strmap option" where
  "as_StringMap c = (case c of StringMap_cell x \<Rightarrow> Some x | _ \<Rightarrow> None)"

definition as_Strings :: "cell \<Rightarrow> (string list) option" where
  "as_Strings c = (case c of Strings_cell x \<Rightarrow> Some x | _ \<Rightarrow> None)"

definition as_Conditions :: "cell \<Rightarrow> (Condition list) option" where
  "as_Conditions c = (case c of Conditions_cell x \<Rightarrow> Some x | _ \<Rightarrow> None)"

definition as_AuthConfig :: "cell \<Rightarrow> AuthConfig option" where
  "as_AuthConfig c = (case c of AuthConfig_cell x \<Rightarrow> Some x | _ \<Rightarrow> None)"

definition as_PrincipalInfo :: "cell \<Rightarrow> PrincipalInfo option" where
  "as_PrincipalInfo c = (case c of PrincipalInfo_cell x \<Rightarrow> Some x | _ \<Rightarrow> None)"

definition as_Range :: "cell \<Rightarrow> Range option" where
  "as_Range c = (case c of Range_cell x \<Rightarrow> Some x | _ \<Rightarrow> None)"

definition as_ProviderConfigSecondaryRange :: "cell \<Rightarrow> ProviderConfigSecondaryRange option" where
  "as_ProviderConfigSecondaryRange c = (case c of ProviderConfigSecondaryRange_cell x \<Rightarrow> Some x | _ \<Rightarrow> None)"

definition as_ProviderConfigSecondaryRanges :: "cell \<Rightarrow> (ProviderConfigSecondaryRange list) option" where
  "as_ProviderConfigSecondaryRanges c = (case c of ProviderConfigSecondaryRanges_cell x \<Rightarrow> Some x | _ \<Rightarrow> None)"

definition as_ProviderConfigSubnetInfo :: "cell \<Rightarrow> subnet_mem option" where
  "as_ProviderConfigSubnetInfo c = (case c of ProviderConfigSubnetInfo_cell x \<Rightarrow> Some x | _ \<Rightarrow> None)"

definition as_ProviderNetworkConfig :: "cell \<Rightarrow> network_mem option" where
  "as_ProviderNetworkConfig c = (case c of ProviderNetworkConfig_cell x \<Rightarrow> Some x | _ \<Rightarrow> None)"

definition as_ProviderConfigSpec :: "cell \<Rightarrow> spec_mem option" where
  "as_ProviderConfigSpec c = (case c of ProviderConfigSpec_cell x \<Rightarrow> Some x | _ \<Rightarrow> None)"

definition as_ProviderConfigStatus :: "cell \<Rightarrow> status_mem option" where
  "as_ProviderConfigStatus c = (case c of ProviderConfigStatus_cell x \<Rightarrow> Some x | _ \<Rightarrow> None)"

definition as_ProviderConfig :: "cell \<Rightarrow> pc_mem option" where
  "as_ProviderConfig c = (case c of ProviderConfig_cell x \<Rightarrow> Some x | _ \<Rightarrow> None)"

definition as_ProviderConfigs :: "cell \<Rightarrow> (pc_mem list) option" where
  "as_ProviderConfigs c = (case c of ProviderConfigs_cell x \<Rightarrow> Some x | _ \<Rightarrow> None)"

definition as_ProviderConfigList :: "cell \<Rightarrow> pcl_mem option" where
  "as_ProviderConfigList c = (case c of ProviderConfigList_cell x \<Rightarrow> Some x | _ \<Rightarrow> None)"

definition as_SecondaryRange :: "cell \<Rightarrow> SecondaryRange option" where
  "as_SecondaryRange c = (case c of SecondaryRange_cell x \<Rightarrow> Some x | _ \<Rightarrow> None)"

definition as_SecondaryRanges :: "cell \<Rightarrow> (SecondaryRange list) option" where
  "as_SecondaryRanges c = (case c of SecondaryRanges_cell x \<Rightarrow> Some x | _ \<Rightarrow> None)"

definition as_SubnetInfo :: "cell \<Rightarrow> tsubnet_mem option" where
  "as_SubnetInfo c = (case c of SubnetInfo_cell x \<Rightarrow> Some x | _ \<Rightarrow> None)"

definition as_NetworkConfig :: "cell \<Rightarrow> tnetwork_mem option" where
  "as_NetworkConfig c = (case c of NetworkConfig_cell x \<Rightarrow> Some x | _ \<Rightarrow> None)"

definition as_TenantSpec :: "cell \<Rightarrow> tspec_mem option" where
  "as_TenantSpec c = (case c of TenantSpec_cell x \<Rightarrow> Some x | _ \<Rightarrow> None)"

definition as_TenantStatus :: "cell \<Rightarrow> tstatus_mem option" where
  "as_TenantStatus c = (case c of TenantStatus_cell x \<Rightarrow> Some x | _ \<Rightarrow> None)"

definition as_Tenant :: "cell \<Rightarrow> tn_mem option" where
  "as_Tenant c = (case c of Tenant_cell x \<Rightarrow> Some x | _ \<Rightarrow> None)"

definition as_Tenants :: "cell \<Rightarrow> (tn_mem list) option" where
  "as_Tenants c = (case c of Tenants_cell x \<Rightarrow> Some x | _ \<Rightarrow> None)"

definition as_TenantList :: "cell \<Rightarrow> tnl_mem option" where
  "as_TenantList c = (case c of TenantList_cell x \<Rightarrow> Some x | _ \<Rightarrow> None)"

definition as_Bool :: "cell \<Rightarrow> bool option" where
  "as_Bool c = (case c of Bool_cell x \<Rightarrow> Some x | _ \<Rightarrow> None)"

definition as_Bytes :: "cell \<Rightarrow> (char list) option" where
  "as_Bytes c = (case c of Bytes_cell x \<Rightarrow> Some x | _ \<Rightarrow> None)"

definition as_ShardInfo :: "cell \<Rightarrow> ShardInfo option" where
  "as_ShardInfo c = (case c of ShardInfo_cell x \<Rightarrow> Some x | _ \<Rightarrow> None)"

definition as_OwnerReferences :: "cell \<Rightarrow> (or_mem list) option" where
  "as_OwnerReferences c = (case c of OwnerReferences_cell x \<Rightarrow> Some x | _ \<Rightarrow> None)"

definition as_FieldsV1 :: "cell \<Rightarrow> fv_mem option" where
  "as_FieldsV1 c = (case c of FieldsV1_cell x \<Rightarrow> Some x | _ \<Rightarrow> None)"

definition as_ManagedFieldsEntries :: "cell \<Rightarrow> (mf_mem list) option" where
  "as_ManagedFieldsEntries c = (case c of ManagedFieldsEntries_cell x \<Rightarrow> Some x | _ \<Rightarrow> None)"

lemma as_cells [simp]:
  "as_Time (Time_cell x0) = Some x0"
  "as_Int64 (Int64_cell x1) = Some x1"
  "as_StringMap (StringMap_cell x2) = Some x2"
  "as_Strings (Strings_cell x3) = Some x3"
  "as_Conditions (Conditions_cell x4) = Some x4"
  "as_AuthConfig (AuthConfig_cell x5) = Some x5"
  "as_PrincipalInfo (PrincipalInfo_cell x6) = Some x6"
  "as_Range (Range_cell x7) = Some x7"
  "as_ProviderConfigSecondaryRange (ProviderConfigSecondaryRange_cell x8) = Some x8"
  "as_ProviderConfigSecondaryRanges (ProviderConfigSecondaryRanges_cell x9) = Some x9"
  "as_ProviderConfigSubnetInfo (ProviderConfigSubnetInfo_cell x10) = Some x10"
  "as_ProviderNetworkConfig (ProviderNetworkConfig_cell x11) = Some x11"
  "as_ProviderConfigSpec (ProviderConfigSpec_cell x12) = Some x12"
  "as_ProviderConfigStatus (ProviderConfigStatus_cell x13) = Some x13"
  "as_ProviderConfig (ProviderConfig_cell x14) = Some x14"
  "as_ProviderConfigs (ProviderConfigs_cell x15) = Some x15"
  "as_ProviderConfigList (ProviderConfigList_cell x16) = Some x16"
  "as_SecondaryRange (SecondaryRange_cell x17) = Some x17"
  "as_SecondaryRanges (SecondaryRanges_cell x18) = Some x18"
  "as_SubnetInfo (SubnetInfo_cell x19) = Some x19"
  "as_NetworkConfig (NetworkConfig_cell x20) = Some x20"
  "as_TenantSpec (TenantSpec_cell x21) = Some x21"
  "as_TenantStatus (TenantStatus_cell x22) = Some x22"
  "as_Tenant (Tenant_cell x23) = Some x23"
  "as_Tenants (Tenants_cell x24) = Some x24"
  "as_TenantList (TenantList_cell x25) = Some x25"
  "as_Bool (Bool_cell x26) = Some x26"
  "as_Bytes (Bytes_cell x27) = Some x27"
  "as_ShardInfo (ShardInfo_cell x28) = Some x28"
  "as_OwnerReferences (OwnerReferences_cell x29) = Some x29"
  "as_FieldsV1 (FieldsV1_cell x30) = Some x30"
  "as_ManagedFieldsEntries (ManagedFieldsEntries_cell x31) = Some x31"
  by (simp_all add: as_Time_def as_Int64_def as_StringMap_def as_Strings_def as_Conditions_def as_AuthConfig_def as_PrincipalInfo_def as_Range_def as_ProviderConfigSecondaryRange_def as_ProviderConfigSecondaryRanges_def as_ProviderConfigSubnetInfo_def as_ProviderNetworkConfig_def as_ProviderConfigSpec_def as_ProviderConfigStatus_def as_ProviderConfig_def as_ProviderConfigs_def as_ProviderConfigList_def as_SecondaryRange_def as_SecondaryRanges_def as_SubnetInfo_def as_NetworkConfig_def as_TenantSpec_def as_TenantStatus_def as_Tenant_def as_Tenants_def as_TenantList_def
    as_Bool_def as_Bytes_def as_ShardInfo_def as_OwnerReferences_def as_FieldsV1_def as_ManagedFieldsEntries_def)

type_synonym memory = "cell mem"

section \<open>Metadata (vendored)\<close>

text \<open>Pointers, maps and slices of values without pointers.\<close>

lemmas new_Time = deep_copy_new [where mk = Time_cell and prj = as_Time, OF deep_copy_flat as_cells(1)]
lemmas new_Int64 = deep_copy_new [where mk = Int64_cell and prj = as_Int64, OF deep_copy_flat as_cells(2)]
lemmas new_StringMap = deep_copy_new [where mk = StringMap_cell and prj = as_StringMap, OF deep_copy_flat as_cells(3)]
lemmas new_Bool = deep_copy_new [where mk = Bool_cell and prj = as_Bool, OF deep_copy_flat as_cells(27)]
lemmas new_ShardInfo = deep_copy_new [where mk = ShardInfo_cell and prj = as_ShardInfo, OF deep_copy_flat as_cells(29)]
lemmas new_AuthConfig = deep_copy_new [where mk = AuthConfig_cell and prj = as_AuthConfig, OF deep_copy_flat as_cells(6)]
lemmas new_PrincipalInfo = deep_copy_new [where mk = PrincipalInfo_cell and prj = as_PrincipalInfo, OF deep_copy_flat as_cells(7)]
lemmas new_Range = deep_copy_new [where mk = Range_cell and prj = as_Range, OF deep_copy_flat as_cells(8)]

lemmas slice_Strings = deep_copy_slice [where mk = Strings_cell and prj = as_Strings, OF deep_copy_flat as_cells(4)]
lemmas slice_Bytes = deep_copy_slice [where mk = Bytes_cell and prj = as_Bytes, OF deep_copy_flat as_cells(28)]
lemmas slice_ProviderConfigSecondaryRanges = deep_copy_slice [where mk = ProviderConfigSecondaryRanges_cell and prj = as_ProviderConfigSecondaryRanges, OF deep_copy_flat as_cells(10)]
lemmas slice_SecondaryRanges = deep_copy_slice [where mk = SecondaryRanges_cell and prj = as_SecondaryRanges, OF deep_copy_flat as_cells(19)]

definition Condition_DeepCopyInto :: "Condition \<Rightarrow> memory \<Rightarrow> (Condition \<times> memory) option" where
  "Condition_DeepCopyInto x m = Some (x\<lparr>cond_LastTransitionTime := cond_LastTransitionTime x\<rparr>, m)"

lemma Condition_DeepCopyInto_flat: "Condition_DeepCopyInto = copy_flat"
  by (intro ext) (simp add: Condition_DeepCopyInto_def copy_flat_def)

lemma slice_Conditions:
  "deep_copy (copy_slice Conditions_cell as_Conditions Condition_DeepCopyInto)
     (rd_slice as_Conditions rd_flat) (fp_slice as_Conditions fp_flat)"
  unfolding Condition_DeepCopyInto_flat by (rule deep_copy_slice [OF deep_copy_flat]) simp

definition OwnerReference_DeepCopyInto :: "or_mem \<Rightarrow> memory \<Rightarrow> (or_mem \<times> memory) option" where
  "OwnerReference_DeepCopyInto x m = do {
     (x1, m) \<leftarrow> copy_new Bool_cell as_Bool copy_flat (or_Controller x) m;
     (x2, m) \<leftarrow> copy_new Bool_cell as_Bool copy_flat (or_BlockOwnerDeletion x) m;
     Some (x\<lparr>or_Controller := x1,
         or_BlockOwnerDeletion := x2\<rparr>, m) }"

definition OwnerReference_rd :: "memory \<Rightarrow> or_mem \<Rightarrow> owner_reference option" where
  "OwnerReference_rd = rd_struct (\<lambda>x. (or_Controller x, or_BlockOwnerDeletion x))
     (\<lambda>x (x1, x2). \<lparr>or_APIVersion = or_APIVersion x, or_Kind = or_Kind x, or_Name = or_Name x, or_UID = or_UID x, or_Controller = x1, or_BlockOwnerDeletion = x2\<rparr>)
     (rd_pair (rd_new as_Bool rd_flat) (rd_new as_Bool rd_flat))"

definition OwnerReference_fp :: "memory \<Rightarrow> or_mem \<Rightarrow> nat set" where
  "OwnerReference_fp = fp_struct (\<lambda>x. (or_Controller x, or_BlockOwnerDeletion x))
     (fp_pair (fp_new as_Bool fp_flat) (fp_new as_Bool fp_flat))"

lemma OwnerReference_DeepCopyInto_struct: "OwnerReference_DeepCopyInto = copy_struct (\<lambda>x. (or_Controller x, or_BlockOwnerDeletion x))
     (\<lambda>(x1, x2) x. x\<lparr>or_Controller := x1,
         or_BlockOwnerDeletion := x2\<rparr>)
     (copy_pair (copy_new Bool_cell as_Bool copy_flat) (copy_new Bool_cell as_Bool copy_flat))"
  by (intro ext) (simp add: OwnerReference_DeepCopyInto_def copy_struct_def copy_pair_def split: Option.bind_split)

interpretation ownerReference: deep_copy OwnerReference_DeepCopyInto OwnerReference_rd OwnerReference_fp
  unfolding OwnerReference_DeepCopyInto_struct OwnerReference_rd_def OwnerReference_fp_def
  by (rule deep_copy_struct [OF deep_copy_pair [OF new_Bool new_Bool]]) (auto split: prod.splits)

lemmas slice_OwnerReferences = deep_copy_slice [where mk = OwnerReferences_cell and prj = as_OwnerReferences, OF ownerReference.deep_copy_axioms as_cells(30)]

definition FieldsV1_DeepCopyInto :: "fv_mem \<Rightarrow> memory \<Rightarrow> (fv_mem \<times> memory) option" where
  "FieldsV1_DeepCopyInto x m = do {
     (x1, m) \<leftarrow> copy_slice Bytes_cell as_Bytes copy_flat (fv_Raw x) m;
     Some (x\<lparr>fv_Raw := x1\<rparr>, m) }"

definition FieldsV1_rd :: "memory \<Rightarrow> fv_mem \<Rightarrow> fields_v1 option" where
  "FieldsV1_rd = rd_struct fv_Raw
     (\<lambda>x x1. \<lparr>fv_Raw = x1\<rparr>)
     (rd_slice as_Bytes rd_flat)"

definition FieldsV1_fp :: "memory \<Rightarrow> fv_mem \<Rightarrow> nat set" where
  "FieldsV1_fp = fp_struct fv_Raw
     (fp_slice as_Bytes fp_flat)"

lemma FieldsV1_DeepCopyInto_struct: "FieldsV1_DeepCopyInto = copy_struct fv_Raw
     (\<lambda>x1 x. x\<lparr>fv_Raw := x1\<rparr>)
     (copy_slice Bytes_cell as_Bytes copy_flat)"
  by (intro ext) (simp add: FieldsV1_DeepCopyInto_def copy_struct_def copy_pair_def split: Option.bind_split)

interpretation fieldsV1: deep_copy FieldsV1_DeepCopyInto FieldsV1_rd FieldsV1_fp
  unfolding FieldsV1_DeepCopyInto_struct FieldsV1_rd_def FieldsV1_fp_def
  by (rule deep_copy_struct [OF slice_Bytes]) (auto split: prod.splits)

lemmas new_FieldsV1 = deep_copy_new [where mk = FieldsV1_cell and prj = as_FieldsV1, OF fieldsV1.deep_copy_axioms as_cells(31)]

definition ManagedFieldsEntry_DeepCopyInto :: "mf_mem \<Rightarrow> memory \<Rightarrow> (mf_mem \<times> memory) option" where
  "ManagedFieldsEntry_DeepCopyInto x m = do {
     (x1, m) \<leftarrow> copy_new Time_cell as_Time copy_flat (mf_Time x) m;
     (x2, m) \<leftarrow> copy_new FieldsV1_cell as_FieldsV1 FieldsV1_DeepCopyInto (mf_FieldsV1 x) m;
     Some (x\<lparr>mf_Time := x1,
         mf_FieldsV1 := x2\<rparr>, m) }"

definition ManagedFieldsEntry_rd :: "memory \<Rightarrow> mf_mem \<Rightarrow> managed_fields_entry option" where
  "ManagedFieldsEntry_rd = rd_struct (\<lambda>x. (mf_Time x, mf_FieldsV1 x))
     (\<lambda>x (x1, x2). \<lparr>mf_Manager = mf_Manager x, mf_Operation = mf_Operation x, mf_APIVersion = mf_APIVersion x, mf_Time = x1, mf_FieldsType = mf_FieldsType x, mf_FieldsV1 = x2, mf_Subresource = mf_Subresource x\<rparr>)
     (rd_pair (rd_new as_Time rd_flat) (rd_new as_FieldsV1 FieldsV1_rd))"

definition ManagedFieldsEntry_fp :: "memory \<Rightarrow> mf_mem \<Rightarrow> nat set" where
  "ManagedFieldsEntry_fp = fp_struct (\<lambda>x. (mf_Time x, mf_FieldsV1 x))
     (fp_pair (fp_new as_Time fp_flat) (fp_new as_FieldsV1 FieldsV1_fp))"

lemma ManagedFieldsEntry_DeepCopyInto_struct: "ManagedFieldsEntry_DeepCopyInto = copy_struct (\<lambda>x. (mf_Time x, mf_FieldsV1 x))
     (\<lambda>(x1, x2) x. x\<lparr>mf_Time := x1,
         mf_FieldsV1 := x2\<rparr>)
     (copy_pair (copy_new Time_cell as_Time copy_flat) (copy_new FieldsV1_cell as_FieldsV1 FieldsV1_DeepCopyInto))"
  by (intro ext) (simp add: ManagedFieldsEntry_DeepCopyInto_def copy_struct_def copy_pair_def split: Option.bind_split)

interpretation managedFieldsEntry: deep_copy ManagedFieldsEntry_DeepCopyInto ManagedFieldsEntry_rd ManagedFieldsEntry_fp
  unfolding ManagedFieldsEntry_DeepCopyInto_struct ManagedFieldsEntry_rd_def ManagedFieldsEntry_fp_def
  by (rule deep_copy_struct [OF deep_copy_pair [OF new_Time new_FieldsV1]]) (auto split: prod.splits)

lemmas slice_ManagedFieldsEntries = deep_copy_slice [where mk = ManagedFieldsEntries_cell and prj = as_ManagedFieldsEntries, OF managedFieldsEntry.deep_copy_axioms as_cells(32)]

definition ObjectMeta_DeepCopyInto :: "om_mem \<Rightarrow> memory \<Rightarrow> (om_mem \<times> memory) option" where
  "ObjectMeta_DeepCopyInto x m = do {
     (x1, m) \<leftarrow> copy_new Time_cell as_Time copy_flat (om_DeletionTimestamp x) m;
     (x2, m) \<leftarrow> copy_new Int64_cell as_Int64 copy_flat (om_DeletionGracePeriodSeconds x) m;
     (x3, m) \<leftarrow> copy_new StringMap_cell as_StringMap copy_flat (om_Labels x) m;
     (x4, m) \<leftarrow> copy_new StringMap_cell as_StringMap copy_flat (om_Annotations x) m;
     (x5, m) \<leftarrow> copy_slice OwnerReferences_cell as_OwnerReferences OwnerReference_DeepCopyInto (om_OwnerReferences x) m;
     (x6, m) \<leftarrow> copy_slice Strings_cell as_Strings copy_flat (om_Finalizers x) m;
     (x7, m) \<leftarrow> copy_slice ManagedFieldsEntries_cell as_ManagedFieldsEntries ManagedFieldsEntry_DeepCopyInto (om_ManagedFields x) m;
     Some (x\<lparr>om_DeletionTimestamp := x1,
         om_DeletionGracePeriodSeconds := x2,
         om_Labels := x3,
         om_Annotations := x4,
         om_OwnerReferences := x5,
         om_Finalizers := x6,
         om_ManagedFields := x7\<rparr>, m) }"

definition ObjectMeta_rd :: "memory \<Rightarrow> om_mem \<Rightarrow> object_meta option" where
  "ObjectMeta_rd = rd_struct (\<lambda>x. (om_DeletionTimestamp x, om_DeletionGracePeriodSeconds x, om_Labels x, om_Annotations x, om_OwnerReferences x, om_Finalizers x, om_ManagedFields x))
     (\<lambda>x (x1, x2, x3, x4, x5, x6, x7). \<lparr>om_Name = om_Name x, om_GenerateName = om_GenerateName x, om_Namespace = om_Namespace x, om_SelfLink = om_SelfLink x, om_UID = om_UID x, om_ResourceVersion = om_ResourceVersion x, om_Generation = om_Generation x, om_CreationTimestamp = om_CreationTimestamp x, om_DeletionTimestamp = x1, om_DeletionGracePeriodSeconds = x2, om_Labels = x3, om_Annotations = x4, om_OwnerReferences = x5, om_Finalizers = x6, om_ManagedFields = x7\<rparr>)
     (rd_pair (rd_new as_Time rd_flat) (rd_pair (rd_new as_Int64 rd_flat) (rd_pair (rd_new as_StringMap rd_flat) (rd_pair (rd_new as_StringMap rd_flat) (rd_pair (rd_slice as_OwnerReferences OwnerReference_rd) (rd_pair (rd_slice as_Strings rd_flat) (rd_slice as_ManagedFieldsEntries ManagedFieldsEntry_rd)))))))"

definition ObjectMeta_fp :: "memory \<Rightarrow> om_mem \<Rightarrow> nat set" where
  "ObjectMeta_fp = fp_struct (\<lambda>x. (om_DeletionTimestamp x, om_DeletionGracePeriodSeconds x, om_Labels x, om_Annotations x, om_OwnerReferences x, om_Finalizers x, om_ManagedFields x))
     (fp_pair (fp_new as_Time fp_flat) (fp_pair (fp_new as_Int64 fp_flat) (fp_pair (fp_new as_StringMap fp_flat) (fp_pair (fp_new as_StringMap fp_flat) (fp_pair (fp_slice as_OwnerReferences OwnerReference_fp) (fp_pair (fp_slice as_Strings fp_flat) (fp_slice as_ManagedFieldsEntries ManagedFieldsEntry_fp)))))))"

lemma ObjectMeta_DeepCopyInto_struct: "ObjectMeta_DeepCopyInto = copy_struct (\<lambda>x. (om_DeletionTimestamp x, om_DeletionGracePeriodSeconds x, om_Labels x, om_Annotations x, om_OwnerReferences x, om_Finalizers x, om_ManagedFields x))
     (\<lambda>(x1, x2, x3, x4, x5, x6, x7) x. x\<lparr>om_DeletionTimestamp := x1,
         om_DeletionGracePeriodSeconds := x2,
         om_Labels := x3,
         om_Annotations := x4,
         om_OwnerReferences := x5,
         om_Finalizers := x6,
         om_ManagedFields := x7\<rparr>)
     (copy_pair (copy_new Time_cell as_Time copy_flat) (copy_pair (copy_new Int64_cell as_Int64 copy_flat) (copy_pair (copy_new StringMap_cell as_StringMap copy_flat) (copy_pair (copy_new StringMap_cell as_StringMap copy_flat) (copy_pair (copy_slice OwnerReferences_cell as_OwnerReferences OwnerReference_DeepCopyInto) (copy_pair (copy_slice Strings_cell as_Strings copy_flat) (copy_slice ManagedFieldsEntries_cell as_ManagedFieldsEntries ManagedFieldsEntry_DeepCopyInto)))))))"
  by (intro ext) (simp add: ObjectMeta_DeepCopyInto_def copy_struct_def copy_pair_def split: Option.bind_split)

interpretation objectMeta: deep_copy ObjectMeta_DeepCopyInto ObjectMeta_rd ObjectMeta_fp
  unfolding ObjectMeta_DeepCopyInto_struct ObjectMeta_rd_def ObjectMeta_fp_def
  by (rule deep_copy_struct [OF deep_copy_pair [OF new_Time deep_copy_pair [OF new_Int64 deep_copy_pair [OF new_StringMap deep_copy_pair [OF new_StringMap deep_copy_pair [OF slice_OwnerReferences deep_copy_pair [OF slice_Strings slice_ManagedFieldsEntries]]]]]]]) (auto split: prod.splits)

definition ListMeta_DeepCopyInto :: "lm_mem \<Rightarrow> memory \<Rightarrow> (lm_mem \<times> memory) option" where
  "ListMeta_DeepCopyInto x m = do {
     (x1, m) \<leftarrow> copy_new Int64_cell as_Int64 copy_flat (lm_RemainingItemCount x) m;
     (x2, m) \<leftarrow> copy_new ShardInfo_cell as_ShardInfo copy_flat (lm_ShardInfo x) m;
     Some (x\<lparr>lm_RemainingItemCount := x1,
         lm_ShardInfo := x2\<rparr>, m) }"

definition ListMeta_rd :: "memory \<Rightarrow> lm_mem \<Rightarrow> list_meta option" where
  "ListMeta_rd = rd_struct (\<lambda>x. (lm_RemainingItemCount x, lm_ShardInfo x))
     (\<lambda>x (x1, x2). \<lparr>lm_SelfLink = lm_SelfLink x, lm_ResourceVersion = lm_ResourceVersion x, lm_Continue = lm_Continue x, lm_RemainingItemCount = x1, lm_ShardInfo = x2\<rparr>)
     (rd_pair (rd_new as_Int64 rd_flat) (rd_new as_ShardInfo rd_flat))"

definition ListMeta_fp :: "memory \<Rightarrow> lm_mem \<Rightarrow> nat set" where
  "ListMeta_fp = fp_struct (\<lambda>x. (lm_RemainingItemCount x, lm_ShardInfo x))
     (fp_pair (fp_new as_Int64 fp_flat) (fp_new as_ShardInfo fp_flat))"

lemma ListMeta_DeepCopyInto_struct: "ListMeta_DeepCopyInto = copy_struct (\<lambda>x. (lm_RemainingItemCount x, lm_ShardInfo x))
     (\<lambda>(x1, x2) x. x\<lparr>lm_RemainingItemCount := x1,
         lm_ShardInfo := x2\<rparr>)
     (copy_pair (copy_new Int64_cell as_Int64 copy_flat) (copy_new ShardInfo_cell as_ShardInfo copy_flat))"
  by (intro ext) (simp add: ListMeta_DeepCopyInto_def copy_struct_def copy_pair_def split: Option.bind_split)

interpretation listMeta: deep_copy ListMeta_DeepCopyInto ListMeta_rd ListMeta_fp
  unfolding ListMeta_DeepCopyInto_struct ListMeta_rd_def ListMeta_fp_def
  by (rule deep_copy_struct [OF deep_copy_pair [OF new_Int64 new_ShardInfo]]) (auto split: prod.splits)

section \<open>ProviderConfig\<close>

definition AuthConfig_DeepCopyInto :: "AuthConfig \<Rightarrow> memory \<Rightarrow> (AuthConfig \<times> memory) option" where
  "AuthConfig_DeepCopyInto x m = Some (x, m)"

lemma AuthConfig_DeepCopyInto_flat: "AuthConfig_DeepCopyInto = copy_flat"
  by (intro ext) (simp add: AuthConfig_DeepCopyInto_def copy_flat_def)

definition AuthConfig_DeepCopy :: "ptr \<Rightarrow> memory \<Rightarrow> (ptr \<times> memory) option" where
  "AuthConfig_DeepCopy = copy_new AuthConfig_cell as_AuthConfig AuthConfig_DeepCopyInto"

definition PrincipalInfo_DeepCopyInto :: "PrincipalInfo \<Rightarrow> memory \<Rightarrow> (PrincipalInfo \<times> memory) option" where
  "PrincipalInfo_DeepCopyInto x m = Some (x, m)"

lemma PrincipalInfo_DeepCopyInto_flat: "PrincipalInfo_DeepCopyInto = copy_flat"
  by (intro ext) (simp add: PrincipalInfo_DeepCopyInto_def copy_flat_def)

definition PrincipalInfo_DeepCopy :: "ptr \<Rightarrow> memory \<Rightarrow> (ptr \<times> memory) option" where
  "PrincipalInfo_DeepCopy = copy_new PrincipalInfo_cell as_PrincipalInfo PrincipalInfo_DeepCopyInto"

definition Range_DeepCopyInto :: "Range \<Rightarrow> memory \<Rightarrow> (Range \<times> memory) option" where
  "Range_DeepCopyInto x m = Some (x, m)"

lemma Range_DeepCopyInto_flat: "Range_DeepCopyInto = copy_flat"
  by (intro ext) (simp add: Range_DeepCopyInto_def copy_flat_def)

definition Range_DeepCopy :: "ptr \<Rightarrow> memory \<Rightarrow> (ptr \<times> memory) option" where
  "Range_DeepCopy = copy_new Range_cell as_Range Range_DeepCopyInto"

definition ProviderConfigSecondaryRange_DeepCopyInto :: "ProviderConfigSecondaryRange \<Rightarrow> memory \<Rightarrow> (ProviderConfigSecondaryRange \<times> memory) option" where
  "ProviderConfigSecondaryRange_DeepCopyInto x m = Some (x\<lparr>sr_Range := sr_Range x\<rparr>, m)"

lemma ProviderConfigSecondaryRange_DeepCopyInto_flat: "ProviderConfigSecondaryRange_DeepCopyInto = copy_flat"
  by (intro ext) (simp add: ProviderConfigSecondaryRange_DeepCopyInto_def copy_flat_def)

definition ProviderConfigSecondaryRange_DeepCopy :: "ptr \<Rightarrow> memory \<Rightarrow> (ptr \<times> memory) option" where
  "ProviderConfigSecondaryRange_DeepCopy = copy_new ProviderConfigSecondaryRange_cell as_ProviderConfigSecondaryRange ProviderConfigSecondaryRange_DeepCopyInto"

definition ProviderConfigSubnetInfo_DeepCopyInto :: "subnet_mem \<Rightarrow> memory \<Rightarrow> (subnet_mem \<times> memory) option" where
  "ProviderConfigSubnetInfo_DeepCopyInto x m = do {
     (x1, m) \<leftarrow> copy_new Range_cell as_Range copy_flat (psi_NodeCIDRs x) m;
     (x2, m) \<leftarrow> copy_slice ProviderConfigSecondaryRanges_cell as_ProviderConfigSecondaryRanges copy_flat (psi_PodRanges x) m;
     Some (x\<lparr>psi_NodeCIDRs := x1,
         psi_PodRanges := x2\<rparr>, m) }"

definition ProviderConfigSubnetInfo_rd :: "memory \<Rightarrow> subnet_mem \<Rightarrow> (Range option, ProviderConfigSecondaryRange slice) ProviderConfigSubnetInfo option" where
  "ProviderConfigSubnetInfo_rd = rd_struct (\<lambda>x. (psi_NodeCIDRs x, psi_PodRanges x))
     (\<lambda>x (x1, x2). \<lparr>psi_Subnetwork = psi_Subnetwork x, psi_CIDR = psi_CIDR x, psi_NodeCIDRs = x1, psi_PodRanges = x2\<rparr>)
     (rd_pair (rd_new as_Range rd_flat) (rd_slice as_ProviderConfigSecondaryRanges rd_flat))"

definition ProviderConfigSubnetInfo_fp :: "memory \<Rightarrow> subnet_mem \<Rightarrow> nat set" where
  "ProviderConfigSubnetInfo_fp = fp_struct (\<lambda>x. (psi_NodeCIDRs x, psi_PodRanges x))
     (fp_pair (fp_new as_Range fp_flat) (fp_slice as_ProviderConfigSecondaryRanges fp_flat))"

lemma ProviderConfigSubnetInfo_DeepCopyInto_struct: "ProviderConfigSubnetInfo_DeepCopyInto = copy_struct (\<lambda>x. (psi_NodeCIDRs x, psi_PodRanges x))
     (\<lambda>(x1, x2) x. x\<lparr>psi_NodeCIDRs := x1,
         psi_PodRanges := x2\<rparr>)
     (copy_pair (copy_new Range_cell as_Range copy_flat) (copy_slice ProviderConfigSecondaryRanges_cell as_ProviderConfigSecondaryRanges copy_flat))"
  by (intro ext) (simp add: ProviderConfigSubnetInfo_DeepCopyInto_def copy_struct_def copy_pair_def split: Option.bind_split)

interpretation providerConfigSubnetInfo: deep_copy ProviderConfigSubnetInfo_DeepCopyInto ProviderConfigSubnetInfo_rd ProviderConfigSubnetInfo_fp
  unfolding ProviderConfigSubnetInfo_DeepCopyInto_struct ProviderConfigSubnetInfo_rd_def ProviderConfigSubnetInfo_fp_def
  by (rule deep_copy_struct [OF deep_copy_pair [OF new_Range slice_ProviderConfigSecondaryRanges]]) (auto split: prod.splits)

definition ProviderConfigSubnetInfo_DeepCopy :: "ptr \<Rightarrow> memory \<Rightarrow> (ptr \<times> memory) option" where
  "ProviderConfigSubnetInfo_DeepCopy = copy_new ProviderConfigSubnetInfo_cell as_ProviderConfigSubnetInfo ProviderConfigSubnetInfo_DeepCopyInto"

definition ProviderNetworkConfig_DeepCopyInto :: "network_mem \<Rightarrow> memory \<Rightarrow> (network_mem \<times> memory) option" where
  "ProviderNetworkConfig_DeepCopyInto x m = do {
     (x1, m) \<leftarrow> ProviderConfigSubnetInfo_DeepCopyInto (pnc_SubnetInfo x) m;
     Some (x\<lparr>pnc_SubnetInfo := x1\<rparr>, m) }"

definition ProviderNetworkConfig_rd :: "memory \<Rightarrow> network_mem \<Rightarrow> (Range option, ProviderConfigSecondaryRange slice) ProviderNetworkConfig option" where
  "ProviderNetworkConfig_rd = rd_struct pnc_SubnetInfo
     (\<lambda>x x1. \<lparr>pnc_Network = pnc_Network x, pnc_SubnetInfo = x1\<rparr>)
     ProviderConfigSubnetInfo_rd"

definition ProviderNetworkConfig_fp :: "memory \<Rightarrow> network_mem \<Rightarrow> nat set" where
  "ProviderNetworkConfig_fp = fp_struct pnc_SubnetInfo
     ProviderConfigSubnetInfo_fp"

lemma ProviderNetworkConfig_DeepCopyInto_struct: "ProviderNetworkConfig_DeepCopyInto = copy_struct pnc_SubnetInfo
     (\<lambda>x1 x. x\<lparr>pnc_SubnetInfo := x1\<rparr>)
     ProviderConfigSubnetInfo_DeepCopyInto"
  by (intro ext) (simp add: ProviderNetworkConfig_DeepCopyInto_def copy_struct_def copy_pair_def split: Option.bind_split)

interpretation providerNetworkConfig: deep_copy ProviderNetworkConfig_DeepCopyInto ProviderNetworkConfig_rd ProviderNetworkConfig_fp
  unfolding ProviderNetworkConfig_DeepCopyInto_struct ProviderNetworkConfig_rd_def ProviderNetworkConfig_fp_def
  by (rule deep_copy_struct [OF providerConfigSubnetInfo.deep_copy_axioms]) (auto split: prod.splits)

definition ProviderNetworkConfig_DeepCopy :: "ptr \<Rightarrow> memory \<Rightarrow> (ptr \<times> memory) option" where
  "ProviderNetworkConfig_DeepCopy = copy_new ProviderNetworkConfig_cell as_ProviderNetworkConfig ProviderNetworkConfig_DeepCopyInto"

definition ProviderConfigSpec_DeepCopyInto :: "spec_mem \<Rightarrow> memory \<Rightarrow> (spec_mem \<times> memory) option" where
  "ProviderConfigSpec_DeepCopyInto x m = do {
     (x1, m) \<leftarrow> ProviderNetworkConfig_DeepCopyInto (ps_NetworkConfig x) m;
     (x2, m) \<leftarrow> copy_new AuthConfig_cell as_AuthConfig copy_flat (ps_AuthConfig x) m;
     (x3, m) \<leftarrow> copy_new PrincipalInfo_cell as_PrincipalInfo copy_flat (ps_PrincipalInfo x) m;
     Some (x\<lparr>ps_NetworkConfig := x1,
         ps_AuthConfig := x2,
         ps_PrincipalInfo := x3\<rparr>, m) }"

definition ProviderConfigSpec_rd :: "memory \<Rightarrow> spec_mem \<Rightarrow> (Range option, ProviderConfigSecondaryRange slice, AuthConfig option, PrincipalInfo option) ProviderConfigSpec option" where
  "ProviderConfigSpec_rd = rd_struct (\<lambda>x. (ps_NetworkConfig x, ps_AuthConfig x, ps_PrincipalInfo x))
     (\<lambda>x (x1, x2, x3). \<lparr>ps_ProjectNumber = ps_ProjectNumber x, ps_ProjectID = ps_ProjectID x, ps_PSCConnectionID = ps_PSCConnectionID x, ps_NetworkConfig = x1, ps_AuthConfig = x2, ps_PrincipalInfo = x3\<rparr>)
     (rd_pair ProviderNetworkConfig_rd (rd_pair (rd_new as_AuthConfig rd_flat) (rd_new as_PrincipalInfo rd_flat)))"

definition ProviderConfigSpec_fp :: "memory \<Rightarrow> spec_mem \<Rightarrow> nat set" where
  "ProviderConfigSpec_fp = fp_struct (\<lambda>x. (ps_NetworkConfig x, ps_AuthConfig x, ps_PrincipalInfo x))
     (fp_pair ProviderNetworkConfig_fp (fp_pair (fp_new as_AuthConfig fp_flat) (fp_new as_PrincipalInfo fp_flat)))"

lemma ProviderConfigSpec_DeepCopyInto_struct: "ProviderConfigSpec_DeepCopyInto = copy_struct (\<lambda>x. (ps_NetworkConfig x, ps_AuthConfig x, ps_PrincipalInfo x))
     (\<lambda>(x1, x2, x3) x. x\<lparr>ps_NetworkConfig := x1,
         ps_AuthConfig := x2,
         ps_PrincipalInfo := x3\<rparr>)
     (copy_pair ProviderNetworkConfig_DeepCopyInto (copy_pair (copy_new AuthConfig_cell as_AuthConfig copy_flat) (copy_new PrincipalInfo_cell as_PrincipalInfo copy_flat)))"
  by (intro ext) (simp add: ProviderConfigSpec_DeepCopyInto_def copy_struct_def copy_pair_def split: Option.bind_split)

interpretation providerConfigSpec: deep_copy ProviderConfigSpec_DeepCopyInto ProviderConfigSpec_rd ProviderConfigSpec_fp
  unfolding ProviderConfigSpec_DeepCopyInto_struct ProviderConfigSpec_rd_def ProviderConfigSpec_fp_def
  by (rule deep_copy_struct [OF deep_copy_pair [OF providerNetworkConfig.deep_copy_axioms deep_copy_pair [OF new_AuthConfig new_PrincipalInfo]]]) (auto split: prod.splits)

definition ProviderConfigSpec_DeepCopy :: "ptr \<Rightarrow> memory \<Rightarrow> (ptr \<times> memory) option" where
  "ProviderConfigSpec_DeepCopy = copy_new ProviderConfigSpec_cell as_ProviderConfigSpec ProviderConfigSpec_DeepCopyInto"

definition ProviderConfigStatus_DeepCopyInto :: "status_mem \<Rightarrow> memory \<Rightarrow> (status_mem \<times> memory) option" where
  "ProviderConfigStatus_DeepCopyInto x m = do {
     (x1, m) \<leftarrow> copy_slice Conditions_cell as_Conditions Condition_DeepCopyInto (pst_Conditions x) m;
     Some (x\<lparr>pst_Conditions := x1\<rparr>, m) }"

definition ProviderConfigStatus_rd :: "memory \<Rightarrow> status_mem \<Rightarrow> Condition slice ProviderConfigStatus option" where
  "ProviderConfigStatus_rd = rd_struct pst_Conditions
     (\<lambda>x x1. \<lparr>pst_Conditions = x1\<rparr>)
     (rd_slice as_Conditions rd_flat)"

definition ProviderConfigStatus_fp :: "memory \<Rightarrow> status_mem \<Rightarrow> nat set" where
  "ProviderConfigStatus_fp = fp_struct pst_Conditions
     (fp_slice as_Conditions fp_flat)"

lemma ProviderConfigStatus_DeepCopyInto_struct: "ProviderConfigStatus_DeepCopyInto = copy_struct pst_Conditions
     (\<lambda>x1 x. x\<lparr>pst_Conditions := x1\<rparr>)
     (copy_slice Conditions_cell as_Conditions Condition_DeepCopyInto)"
  by (intro ext) (simp add: ProviderConfigStatus_DeepCopyInto_def copy_struct_def copy_pair_def split: Option.bind_split)

interpretation providerConfigStatus: deep_copy ProviderConfigStatus_DeepCopyInto ProviderConfigStatus_rd ProviderConfigStatus_fp
  unfolding ProviderConfigStatus_DeepCopyInto_struct ProviderConfigStatus_rd_def ProviderConfigStatus_fp_def
  by (rule deep_copy_struct [OF slice_Conditions]) (auto split: prod.splits)

definition ProviderConfigStatus_DeepCopy :: "ptr \<Rightarrow> memory \<Rightarrow> (ptr \<times> memory) option" where
  "ProviderConfigStatus_DeepCopy = copy_new ProviderConfigStatus_cell as_ProviderConfigStatus ProviderConfigStatus_DeepCopyInto"

definition ProviderConfig_DeepCopyInto :: "pc_mem \<Rightarrow> memory \<Rightarrow> (pc_mem \<times> memory) option" where
  "ProviderConfig_DeepCopyInto x m = do {
     (x1, m) \<leftarrow> ObjectMeta_DeepCopyInto (pc_ObjectMeta x) m;
     (x2, m) \<leftarrow> ProviderConfigSpec_DeepCopyInto (pc_Spec x) m;
     (x3, m) \<leftarrow> ProviderConfigStatus_DeepCopyInto (pc_Status x) m;
     Some (x\<lparr>pc_ObjectMeta := x1,
         pc_Spec := x2,
         pc_Status := x3\<rparr>, m) }"

definition ProviderConfig_rd :: "memory \<Rightarrow> pc_mem \<Rightarrow> provider_config option" where
  "ProviderConfig_rd = rd_struct (\<lambda>x. (pc_ObjectMeta x, pc_Spec x, pc_Status x))
     (\<lambda>x (x1, x2, x3). \<lparr>pc_TypeMeta = pc_TypeMeta x, pc_ObjectMeta = x1, pc_Spec = x2, pc_Status = x3\<rparr>)
     (rd_pair ObjectMeta_rd (rd_pair ProviderConfigSpec_rd ProviderConfigStatus_rd))"

definition ProviderConfig_fp :: "memory \<Rightarrow> pc_mem \<Rightarrow> nat set" where
  "ProviderConfig_fp = fp_struct (\<lambda>x. (pc_ObjectMeta x, pc_Spec x, pc_Status x))
     (fp_pair ObjectMeta_fp (fp_pair ProviderConfigSpec_fp ProviderConfigStatus_fp))"

lemma ProviderConfig_DeepCopyInto_struct: "ProviderConfig_DeepCopyInto = copy_struct (\<lambda>x. (pc_ObjectMeta x, pc_Spec x, pc_Status x))
     (\<lambda>(x1, x2, x3) x. x\<lparr>pc_ObjectMeta := x1,
         pc_Spec := x2,
         pc_Status := x3\<rparr>)
     (copy_pair ObjectMeta_DeepCopyInto (copy_pair ProviderConfigSpec_DeepCopyInto ProviderConfigStatus_DeepCopyInto))"
  by (intro ext) (simp add: ProviderConfig_DeepCopyInto_def copy_struct_def copy_pair_def split: Option.bind_split)

interpretation providerConfig: deep_copy ProviderConfig_DeepCopyInto ProviderConfig_rd ProviderConfig_fp
  unfolding ProviderConfig_DeepCopyInto_struct ProviderConfig_rd_def ProviderConfig_fp_def
  by (rule deep_copy_struct [OF deep_copy_pair [OF objectMeta.deep_copy_axioms deep_copy_pair [OF providerConfigSpec.deep_copy_axioms providerConfigStatus.deep_copy_axioms]]]) (auto split: prod.splits)

definition ProviderConfig_DeepCopy :: "ptr \<Rightarrow> memory \<Rightarrow> (ptr \<times> memory) option" where
  "ProviderConfig_DeepCopy = copy_new ProviderConfig_cell as_ProviderConfig ProviderConfig_DeepCopyInto"

lemmas slice_ProviderConfigs = deep_copy_slice [where mk = ProviderConfigs_cell and prj = as_ProviderConfigs, OF providerConfig.deep_copy_axioms as_cells(16)]

definition ProviderConfigList_DeepCopyInto :: "pcl_mem \<Rightarrow> memory \<Rightarrow> (pcl_mem \<times> memory) option" where
  "ProviderConfigList_DeepCopyInto x m = do {
     (x1, m) \<leftarrow> ListMeta_DeepCopyInto (pcl_ListMeta x) m;
     (x2, m) \<leftarrow> copy_slice ProviderConfigs_cell as_ProviderConfigs ProviderConfig_DeepCopyInto (pcl_Items x) m;
     Some (x\<lparr>pcl_ListMeta := x1,
         pcl_Items := x2\<rparr>, m) }"

definition ProviderConfigList_rd :: "memory \<Rightarrow> pcl_mem \<Rightarrow> (int option, ShardInfo option, provider_config slice) ProviderConfigList option" where
  "ProviderConfigList_rd = rd_struct (\<lambda>x. (pcl_ListMeta x, pcl_Items x))
     (\<lambda>x (x1, x2). \<lparr>pcl_TypeMeta = pcl_TypeMeta x, pcl_ListMeta = x1, pcl_Items = x2\<rparr>)
     (rd_pair ListMeta_rd (rd_slice as_ProviderConfigs ProviderConfig_rd))"

definition ProviderConfigList_fp :: "memory \<Rightarrow> pcl_mem \<Rightarrow> nat set" where
  "ProviderConfigList_fp = fp_struct (\<lambda>x. (pcl_ListMeta x, pcl_Items x))
     (fp_pair ListMeta_fp (fp_slice as_ProviderConfigs ProviderConfig_fp))"

lemma ProviderConfigList_DeepCopyInto_struct: "ProviderConfigList_DeepCopyInto = copy_struct (\<lambda>x. (pcl_ListMeta x, pcl_Items x))
     (\<lambda>(x1, x2) x. x\<lparr>pcl_ListMeta := x1,
         pcl_Items := x2\<rparr>)
     (copy_pair ListMeta_DeepCopyInto (copy_slice ProviderConfigs_cell as_ProviderConfigs ProviderConfig_DeepCopyInto))"
  by (intro ext) (simp add: ProviderConfigList_DeepCopyInto_def copy_struct_def copy_pair_def split: Option.bind_split)

interpretation providerConfigList: deep_copy ProviderConfigList_DeepCopyInto ProviderConfigList_rd ProviderConfigList_fp
  unfolding ProviderConfigList_DeepCopyInto_struct ProviderConfigList_rd_def ProviderConfigList_fp_def
  by (rule deep_copy_struct [OF deep_copy_pair [OF listMeta.deep_copy_axioms slice_ProviderConfigs]]) (auto split: prod.splits)

definition ProviderConfigList_DeepCopy :: "ptr \<Rightarrow> memory \<Rightarrow> (ptr \<times> memory) option" where
  "ProviderConfigList_DeepCopy = copy_new ProviderConfigList_cell as_ProviderConfigList ProviderConfigList_DeepCopyInto"

section \<open>Tenant\<close>

definition SecondaryRange_DeepCopyInto :: "SecondaryRange \<Rightarrow> memory \<Rightarrow> (SecondaryRange \<times> memory) option" where
  "SecondaryRange_DeepCopyInto x m = Some (x, m)"

lemma SecondaryRange_DeepCopyInto_flat: "SecondaryRange_DeepCopyInto = copy_flat"
  by (intro ext) (simp add: SecondaryRange_DeepCopyInto_def copy_flat_def)

definition SecondaryRange_DeepCopy :: "ptr \<Rightarrow> memory \<Rightarrow> (ptr \<times> memory) option" where
  "SecondaryRange_DeepCopy = copy_new SecondaryRange_cell as_SecondaryRange SecondaryRange_DeepCopyInto"

definition SubnetInfo_DeepCopyInto :: "tsubnet_mem \<Rightarrow> memory \<Rightarrow> (tsubnet_mem \<times> memory) option" where
  "SubnetInfo_DeepCopyInto x m = do {
     (x1, m) \<leftarrow> copy_slice SecondaryRanges_cell as_SecondaryRanges copy_flat (tsi_PodRanges x) m;
     Some (x\<lparr>tsi_PodRanges := x1\<rparr>, m) }"

definition SubnetInfo_rd :: "memory \<Rightarrow> tsubnet_mem \<Rightarrow> SecondaryRange slice SubnetInfo option" where
  "SubnetInfo_rd = rd_struct tsi_PodRanges
     (\<lambda>x x1. \<lparr>tsi_Subnetwork = tsi_Subnetwork x, tsi_CIDR = tsi_CIDR x, tsi_PodRanges = x1\<rparr>)
     (rd_slice as_SecondaryRanges rd_flat)"

definition SubnetInfo_fp :: "memory \<Rightarrow> tsubnet_mem \<Rightarrow> nat set" where
  "SubnetInfo_fp = fp_struct tsi_PodRanges
     (fp_slice as_SecondaryRanges fp_flat)"

lemma SubnetInfo_DeepCopyInto_struct: "SubnetInfo_DeepCopyInto = copy_struct tsi_PodRanges
     (\<lambda>x1 x. x\<lparr>tsi_PodRanges := x1\<rparr>)
     (copy_slice SecondaryRanges_cell as_SecondaryRanges copy_flat)"
  by (intro ext) (simp add: SubnetInfo_DeepCopyInto_def copy_struct_def copy_pair_def split: Option.bind_split)

interpretation subnetInfo: deep_copy SubnetInfo_DeepCopyInto SubnetInfo_rd SubnetInfo_fp
  unfolding SubnetInfo_DeepCopyInto_struct SubnetInfo_rd_def SubnetInfo_fp_def
  by (rule deep_copy_struct [OF slice_SecondaryRanges]) (auto split: prod.splits)

definition SubnetInfo_DeepCopy :: "ptr \<Rightarrow> memory \<Rightarrow> (ptr \<times> memory) option" where
  "SubnetInfo_DeepCopy = copy_new SubnetInfo_cell as_SubnetInfo SubnetInfo_DeepCopyInto"

definition NetworkConfig_DeepCopyInto :: "tnetwork_mem \<Rightarrow> memory \<Rightarrow> (tnetwork_mem \<times> memory) option" where
  "NetworkConfig_DeepCopyInto x m = do {
     (x1, m) \<leftarrow> SubnetInfo_DeepCopyInto (tnc_SubnetInfo x) m;
     Some (x\<lparr>tnc_SubnetInfo := x1\<rparr>, m) }"

definition NetworkConfig_rd :: "memory \<Rightarrow> tnetwork_mem \<Rightarrow> SecondaryRange slice NetworkConfig option" where
  "NetworkConfig_rd = rd_struct tnc_SubnetInfo
     (\<lambda>x x1. \<lparr>tnc_Network = tnc_Network x, tnc_SubnetInfo = x1\<rparr>)
     SubnetInfo_rd"

definition NetworkConfig_fp :: "memory \<Rightarrow> tnetwork_mem \<Rightarrow> nat set" where
  "NetworkConfig_fp = fp_struct tnc_SubnetInfo
     SubnetInfo_fp"

lemma NetworkConfig_DeepCopyInto_struct: "NetworkConfig_DeepCopyInto = copy_struct tnc_SubnetInfo
     (\<lambda>x1 x. x\<lparr>tnc_SubnetInfo := x1\<rparr>)
     SubnetInfo_DeepCopyInto"
  by (intro ext) (simp add: NetworkConfig_DeepCopyInto_def copy_struct_def copy_pair_def split: Option.bind_split)

interpretation networkConfig: deep_copy NetworkConfig_DeepCopyInto NetworkConfig_rd NetworkConfig_fp
  unfolding NetworkConfig_DeepCopyInto_struct NetworkConfig_rd_def NetworkConfig_fp_def
  by (rule deep_copy_struct [OF subnetInfo.deep_copy_axioms]) (auto split: prod.splits)

definition NetworkConfig_DeepCopy :: "ptr \<Rightarrow> memory \<Rightarrow> (ptr \<times> memory) option" where
  "NetworkConfig_DeepCopy = copy_new NetworkConfig_cell as_NetworkConfig NetworkConfig_DeepCopyInto"

definition TenantSpec_DeepCopyInto :: "tspec_mem \<Rightarrow> memory \<Rightarrow> (tspec_mem \<times> memory) option" where
  "TenantSpec_DeepCopyInto x m = do {
     (x1, m) \<leftarrow> NetworkConfig_DeepCopyInto (ts_NetworkConfig x) m;
     (x2, m) \<leftarrow> copy_slice Strings_cell as_Strings copy_flat (ts_TenantCACerts x) m;
     Some (x\<lparr>ts_NetworkConfig := x1,
         ts_TenantCACerts := x2\<rparr>, m) }"

definition TenantSpec_rd :: "memory \<Rightarrow> tspec_mem \<Rightarrow> (SecondaryRange slice, string slice) TenantSpec option" where
  "TenantSpec_rd = rd_struct (\<lambda>x. (ts_NetworkConfig x, ts_TenantCACerts x))
     (\<lambda>x (x1, x2). \<lparr>ts_ProjectNumber = ts_ProjectNumber x, ts_ProjectID = ts_ProjectID x, ts_PSCConnectionID = ts_PSCConnectionID x, ts_NetworkConfig = x1, ts_UID = ts_UID x, ts_EnableDataplaneOverGKFE = ts_EnableDataplaneOverGKFE x, ts_DNSAlias = ts_DNSAlias x, ts_TenantCACerts = x2\<rparr>)
     (rd_pair NetworkConfig_rd (rd_slice as_Strings rd_flat))"

definition TenantSpec_fp :: "memory \<Rightarrow> tspec_mem \<Rightarrow> nat set" where
  "TenantSpec_fp = fp_struct (\<lambda>x. (ts_NetworkConfig x, ts_TenantCACerts x))
     (fp_pair NetworkConfig_fp (fp_slice as_Strings fp_flat))"

lemma TenantSpec_DeepCopyInto_struct: "TenantSpec_DeepCopyInto = copy_struct (\<lambda>x. (ts_NetworkConfig x, ts_TenantCACerts x))
     (\<lambda>(x1, x2) x. x\<lparr>ts_NetworkConfig := x1,
         ts_TenantCACerts := x2\<rparr>)
     (copy_pair NetworkConfig_DeepCopyInto (copy_slice Strings_cell as_Strings copy_flat))"
  by (intro ext) (simp add: TenantSpec_DeepCopyInto_def copy_struct_def copy_pair_def split: Option.bind_split)

interpretation tenantSpec: deep_copy TenantSpec_DeepCopyInto TenantSpec_rd TenantSpec_fp
  unfolding TenantSpec_DeepCopyInto_struct TenantSpec_rd_def TenantSpec_fp_def
  by (rule deep_copy_struct [OF deep_copy_pair [OF networkConfig.deep_copy_axioms slice_Strings]]) (auto split: prod.splits)

definition TenantSpec_DeepCopy :: "ptr \<Rightarrow> memory \<Rightarrow> (ptr \<times> memory) option" where
  "TenantSpec_DeepCopy = copy_new TenantSpec_cell as_TenantSpec TenantSpec_DeepCopyInto"

definition TenantStatus_DeepCopyInto :: "tstatus_mem \<Rightarrow> memory \<Rightarrow> (tstatus_mem \<times> memory) option" where
  "TenantStatus_DeepCopyInto x m = do {
     (x1, m) \<leftarrow> copy_slice Conditions_cell as_Conditions Condition_DeepCopyInto (tst_Conditions x) m;
     Some (x\<lparr>tst_Conditions := x1\<rparr>, m) }"

definition TenantStatus_rd :: "memory \<Rightarrow> tstatus_mem \<Rightarrow> Condition slice TenantStatus option" where
  "TenantStatus_rd = rd_struct tst_Conditions
     (\<lambda>x x1. \<lparr>tst_Conditions = x1\<rparr>)
     (rd_slice as_Conditions rd_flat)"

definition TenantStatus_fp :: "memory \<Rightarrow> tstatus_mem \<Rightarrow> nat set" where
  "TenantStatus_fp = fp_struct tst_Conditions
     (fp_slice as_Conditions fp_flat)"

lemma TenantStatus_DeepCopyInto_struct: "TenantStatus_DeepCopyInto = copy_struct tst_Conditions
     (\<lambda>x1 x. x\<lparr>tst_Conditions := x1\<rparr>)
     (copy_slice Conditions_cell as_Conditions Condition_DeepCopyInto)"
  by (intro ext) (simp add: TenantStatus_DeepCopyInto_def copy_struct_def copy_pair_def split: Option.bind_split)

interpretation tenantStatus: deep_copy TenantStatus_DeepCopyInto TenantStatus_rd TenantStatus_fp
  unfolding TenantStatus_DeepCopyInto_struct TenantStatus_rd_def TenantStatus_fp_def
  by (rule deep_copy_struct [OF slice_Conditions]) (auto split: prod.splits)

definition TenantStatus_DeepCopy :: "ptr \<Rightarrow> memory \<Rightarrow> (ptr \<times> memory) option" where
  "TenantStatus_DeepCopy = copy_new TenantStatus_cell as_TenantStatus TenantStatus_DeepCopyInto"

definition Tenant_DeepCopyInto :: "tn_mem \<Rightarrow> memory \<Rightarrow> (tn_mem \<times> memory) option" where
  "Tenant_DeepCopyInto x m = do {
     (x1, m) \<leftarrow> ObjectMeta_DeepCopyInto (tn_ObjectMeta x) m;
     (x2, m) \<leftarrow> TenantSpec_DeepCopyInto (tn_Spec x) m;
     (x3, m) \<leftarrow> TenantStatus_DeepCopyInto (tn_Status x) m;
     Some (x\<lparr>tn_ObjectMeta := x1,
         tn_Spec := x2,
         tn_Status := x3\<rparr>, m) }"

definition Tenant_rd :: "memory \<Rightarrow> tn_mem \<Rightarrow> tenant option" where
  "Tenant_rd = rd_struct (\<lambda>x. (tn_ObjectMeta x, tn_Spec x, tn_Status x))
     (\<lambda>x (x1, x2, x3). \<lparr>tn_TypeMeta = tn_TypeMeta x, tn_ObjectMeta = x1, tn_Spec = x2, tn_Status = x3\<rparr>)
     (rd_pair ObjectMeta_rd (rd_pair TenantSpec_rd TenantStatus_rd))"

definition Tenant_fp :: "memory \<Rightarrow> tn_mem \<Rightarrow> nat set" where
  "Tenant_fp = fp_struct (\<lambda>x. (tn_ObjectMeta x, tn_Spec x, tn_Status x))
     (fp_pair ObjectMeta_fp (fp_pair TenantSpec_fp TenantStatus_fp))"

lemma Tenant_DeepCopyInto_struct: "Tenant_DeepCopyInto = copy_struct (\<lambda>x. (tn_ObjectMeta x, tn_Spec x, tn_Status x))
     (\<lambda>(x1, x2, x3) x. x\<lparr>tn_ObjectMeta := x1,
         tn_Spec := x2,
         tn_Status := x3\<rparr>)
     (copy_pair ObjectMeta_DeepCopyInto (copy_pair TenantSpec_DeepCopyInto TenantStatus_DeepCopyInto))"
  by (intro ext) (simp add: Tenant_DeepCopyInto_def copy_struct_def copy_pair_def split: Option.bind_split)

interpretation tenant: deep_copy Tenant_DeepCopyInto Tenant_rd Tenant_fp
  unfolding Tenant_DeepCopyInto_struct Tenant_rd_def Tenant_fp_def
  by (rule deep_copy_struct [OF deep_copy_pair [OF objectMeta.deep_copy_axioms deep_copy_pair [OF tenantSpec.deep_copy_axioms tenantStatus.deep_copy_axioms]]]) (auto split: prod.splits)

definition Tenant_DeepCopy :: "ptr \<Rightarrow> memory \<Rightarrow> (ptr \<times> memory) option" where
  "Tenant_DeepCopy = copy_new Tenant_cell as_Tenant Tenant_DeepCopyInto"

lemmas slice_Tenants = deep_copy_slice [where mk = Tenants_cell and prj = as_Tenants, OF tenant.deep_copy_axioms as_cells(25)]

definition TenantList_DeepCopyInto :: "tnl_mem \<Rightarrow> memory \<Rightarrow> (tnl_mem \<times> memory) option" where
  "TenantList_DeepCopyInto x m = do {
     (x1, m) \<leftarrow> ListMeta_DeepCopyInto (tnl_ListMeta x) m;
     (x2, m) \<leftarrow> copy_slice Tenants_cell as_Tenants Tenant_DeepCopyInto (tnl_Items x) m;
     Some (x\<lparr>tnl_ListMeta := x1,
         tnl_Items := x2\<rparr>, m) }"

definition TenantList_rd :: "memory \<Rightarrow> tnl_mem \<Rightarrow> (int option, ShardInfo option, tenant slice) TenantList option" where
  "TenantList_rd = rd_struct (\<lambda>x. (tnl_ListMeta x, tnl_Items x))
     (\<lambda>x (x1, x2). \<lparr>tnl_TypeMeta = tnl_TypeMeta x, tnl_ListMeta = x1, tnl_Items = x2\<rparr>)
     (rd_pair ListMeta_rd (rd_slice as_Tenants Tenant_rd))"

definition TenantList_fp :: "memory \<Rightarrow> tnl_mem \<Rightarrow> nat set" where
  "TenantList_fp = fp_struct (\<lambda>x. (tnl_ListMeta x, tnl_Items x))
     (fp_pair ListMeta_fp (fp_slice as_Tenants Tenant_fp))"

lemma TenantList_DeepCopyInto_struct: "TenantList_DeepCopyInto = copy_struct (\<lambda>x. (tnl_ListMeta x, tnl_Items x))
     (\<lambda>(x1, x2) x. x\<lparr>tnl_ListMeta := x1,
         tnl_Items := x2\<rparr>)
     (copy_pair ListMeta_DeepCopyInto (copy_slice Tenants_cell as_Tenants Tenant_DeepCopyInto))"
  by (intro ext) (simp add: TenantList_DeepCopyInto_def copy_struct_def copy_pair_def split: Option.bind_split)

interpretation tenantList: deep_copy TenantList_DeepCopyInto TenantList_rd TenantList_fp
  unfolding TenantList_DeepCopyInto_struct TenantList_rd_def TenantList_fp_def
  by (rule deep_copy_struct [OF deep_copy_pair [OF listMeta.deep_copy_axioms slice_Tenants]]) (auto split: prod.splits)

definition TenantList_DeepCopy :: "ptr \<Rightarrow> memory \<Rightarrow> (ptr \<times> memory) option" where
  "TenantList_DeepCopy = copy_new TenantList_cell as_TenantList TenantList_DeepCopyInto"

section \<open>\<open>DeepCopyObject\<close>\<close>

text \<open>
  A \<open>runtime.Object\<close> that is not nil is a dynamic type with a pointer; \<open>None\<close> is the nil
  interface. An interface that holds a nil pointer is not nil.
\<close>

datatype runtime_object =
    ProviderConfig_object ptr
  | ProviderConfigList_object ptr
  | Tenant_object ptr
  | TenantList_object ptr

definition ProviderConfig_DeepCopyObject :: "ptr \<Rightarrow> memory \<Rightarrow> (runtime_object option \<times> memory) option" where
  "ProviderConfig_DeepCopyObject p m = do {
     (c, m) \<leftarrow> ProviderConfig_DeepCopy p m;
     Some (if c \<noteq> None then Some (ProviderConfig_object c) else None, m) }"

definition ProviderConfigList_DeepCopyObject :: "ptr \<Rightarrow> memory \<Rightarrow> (runtime_object option \<times> memory) option" where
  "ProviderConfigList_DeepCopyObject p m = do {
     (c, m) \<leftarrow> ProviderConfigList_DeepCopy p m;
     Some (if c \<noteq> None then Some (ProviderConfigList_object c) else None, m) }"

definition Tenant_DeepCopyObject :: "ptr \<Rightarrow> memory \<Rightarrow> (runtime_object option \<times> memory) option" where
  "Tenant_DeepCopyObject p m = do {
     (c, m) \<leftarrow> Tenant_DeepCopy p m;
     Some (if c \<noteq> None then Some (Tenant_object c) else None, m) }"

definition TenantList_DeepCopyObject :: "ptr \<Rightarrow> memory \<Rightarrow> (runtime_object option \<times> memory) option" where
  "TenantList_DeepCopyObject p m = do {
     (c, m) \<leftarrow> TenantList_DeepCopy p m;
     Some (if c \<noteq> None then Some (TenantList_object c) else None, m) }"

text \<open>
  What an interface value stands for in a memory, and the addresses it reaches: \<open>at\<close> and \<open>reach\<close>
  of the two list types, through their pointers.
\<close>

datatype meaning =
    AProviderConfig provider_config
  | AProviderConfigList "(int option, ShardInfo option, provider_config slice) ProviderConfigList"
  | ATenant tenant
  | ATenantList "(int option, ShardInfo option, tenant slice) TenantList"

definition object_at :: "memory \<Rightarrow> runtime_object \<Rightarrow> meaning option" where
  "object_at m ob = (case ob of
     ProviderConfig_object p \<Rightarrow> do { u \<leftarrow> rd_new as_ProviderConfig ProviderConfig_rd m p; map_option AProviderConfig u }
   | ProviderConfigList_object p \<Rightarrow> do { u \<leftarrow> rd_new as_ProviderConfigList ProviderConfigList_rd m p; map_option AProviderConfigList u }
   | Tenant_object p \<Rightarrow> do { u \<leftarrow> rd_new as_Tenant Tenant_rd m p; map_option ATenant u }
   | TenantList_object p \<Rightarrow> do { u \<leftarrow> rd_new as_TenantList TenantList_rd m p; map_option ATenantList u })"

definition object_reach :: "memory \<Rightarrow> runtime_object \<Rightarrow> nat set" where
  "object_reach m ob = (case ob of
     ProviderConfig_object p \<Rightarrow> fp_new as_ProviderConfig ProviderConfig_fp m p
   | ProviderConfigList_object p \<Rightarrow> fp_new as_ProviderConfigList ProviderConfigList_fp m p
   | Tenant_object p \<Rightarrow> fp_new as_Tenant Tenant_fp m p
   | TenantList_object p \<Rightarrow> fp_new as_TenantList TenantList_fp m p)"

text \<open>The method of the dynamic type.\<close>

definition DeepCopyObject :: "runtime_object \<Rightarrow> memory \<Rightarrow> (runtime_object option \<times> memory) option" where
  "DeepCopyObject ob m = (case ob of
     ProviderConfig_object p \<Rightarrow> ProviderConfig_DeepCopyObject p m
   | ProviderConfigList_object p \<Rightarrow> ProviderConfigList_DeepCopyObject p m
   | Tenant_object p \<Rightarrow> Tenant_DeepCopyObject p m
   | TenantList_object p \<Rightarrow> TenantList_DeepCopyObject p m)"

interpretation pc_ptr: deep_copy ProviderConfig_DeepCopy
  "rd_new as_ProviderConfig ProviderConfig_rd" "fp_new as_ProviderConfig ProviderConfig_fp"
  unfolding ProviderConfig_DeepCopy_def
  by (rule deep_copy_new [OF providerConfig.deep_copy_axioms]) simp

interpretation pcl_ptr: deep_copy ProviderConfigList_DeepCopy
  "rd_new as_ProviderConfigList ProviderConfigList_rd" "fp_new as_ProviderConfigList ProviderConfigList_fp"
  unfolding ProviderConfigList_DeepCopy_def
  by (rule deep_copy_new [OF providerConfigList.deep_copy_axioms]) simp

interpretation tn_ptr: deep_copy Tenant_DeepCopy
  "rd_new as_Tenant Tenant_rd" "fp_new as_Tenant Tenant_fp"
  unfolding Tenant_DeepCopy_def
  by (rule deep_copy_new [OF tenant.deep_copy_axioms]) simp

interpretation tnl_ptr: deep_copy TenantList_DeepCopy
  "rd_new as_TenantList TenantList_rd" "fp_new as_TenantList TenantList_fp"
  unfolding TenantList_DeepCopy_def
  by (rule deep_copy_new [OF tenantList.deep_copy_axioms]) simp

lemma copy_of_nil [simp]: "copy_new mk prj c None m = Some (None, m)"
  by (simp add: copy_new_def)

lemma rd_new_not_nil: "rd_new prj r m p = Some (Some u) \<Longrightarrow> p \<noteq> None"
  by (cases p) (simp_all add: rd_new_def)

text \<open>The shape shared by the four types: from a deep copy of the pointer to that of the interface.\<close>

lemma object_copy:
  assumes c: "deep_copy c (rd_new prj r) f" and ok: "mem_ok m" and u: "object_at m (mk p) = Some u"
    and at: "\<And>m p. object_at m (mk p) = do { u \<leftarrow> rd_new prj r m p; map_option A u }"
    and reach: "\<And>m p. object_reach m (mk p) = f m p"
    and code: "\<And>m p. DeepCopyObject (mk p) m = do { (q, m) \<leftarrow> c p m; Some (if q \<noteq> None then Some (mk q) else None, m) }"
  shows "\<exists>ob' m'. DeepCopyObject (mk p) m = Some (Some ob', m') \<and> object_at m' ob' = Some u
    \<and> (\<forall>w. agree (- object_reach m' ob') m' w \<longrightarrow> object_at w (mk p) = Some u)
    \<and> (\<forall>w. agree (- object_reach m' (mk p)) m' w \<longrightarrow> object_at w ob' = Some u)"
proof -
  obtain x where x: "rd_new prj r m p = Some (Some x)" "u = A x"
    using u by (auto simp: at bind_eq_Some_conv)
  obtain q m' where q: "c p m = Some (q, m')" "rd_new prj r m' q = Some (Some x)"
      "\<forall>w. agree (- f m' q) m' w \<longrightarrow> rd_new prj r w p = Some (Some x)"
      "\<forall>w. agree (- f m' p) m' w \<longrightarrow> rd_new prj r w q = Some (Some x)"
    using deep_copy.independent [OF c ok x(1)] by blast
  have "q \<noteq> None" using rd_new_not_nil [OF q(2)] .
  then show ?thesis
    using q x(2) by (intro exI [of _ "mk q"] exI [of _ m']) (simp add: at reach code)
qed

lemmas DeepCopyObject_defs = DeepCopyObject_def ProviderConfig_DeepCopyObject_def
  ProviderConfigList_DeepCopyObject_def Tenant_DeepCopyObject_def TenantList_DeepCopyObject_def

section \<open>Properties\<close>

text \<open>C8.
  A deep copy of an API object or list is faithful and independent: \<open>DeepCopyObject\<close> of any object
  of the two APIs that is well formed in memory returns an object that stands for the same
  value; whatever is then written at the addresses that the copy reaches, the original still
  stands for the value it had; and whatever is written at those that the original reaches, the
  copy does.
\<close>

theorem deep_copy_independent:
  assumes ok: "mem_ok m" and u: "object_at m ob = Some u"
  shows "\<exists>ob' m'. DeepCopyObject ob m = Some (Some ob', m') \<and> object_at m' ob' = Some u
    \<and> (\<forall>w. agree (- object_reach m' ob') m' w \<longrightarrow> object_at w ob = Some u)
    \<and> (\<forall>w. agree (- object_reach m' ob) m' w \<longrightarrow> object_at w ob' = Some u)"
proof (cases ob)
  case (ProviderConfig_object p)
  show ?thesis unfolding ProviderConfig_object
    by (rule object_copy [where mk = ProviderConfig_object and A = AProviderConfig, OF pc_ptr.deep_copy_axioms ok])
      (use u ProviderConfig_object in \<open>simp_all add: object_at_def object_reach_def DeepCopyObject_defs\<close>)
next
  case (ProviderConfigList_object p)
  show ?thesis unfolding ProviderConfigList_object
    by (rule object_copy [where mk = ProviderConfigList_object and A = AProviderConfigList, OF pcl_ptr.deep_copy_axioms ok])
      (use u ProviderConfigList_object in \<open>simp_all add: object_at_def object_reach_def DeepCopyObject_defs\<close>)
next
  case (Tenant_object p)
  show ?thesis unfolding Tenant_object
    by (rule object_copy [where mk = Tenant_object and A = ATenant, OF tn_ptr.deep_copy_axioms ok])
      (use u Tenant_object in \<open>simp_all add: object_at_def object_reach_def DeepCopyObject_defs\<close>)
next
  case (TenantList_object p)
  show ?thesis unfolding TenantList_object
    by (rule object_copy [where mk = TenantList_object and A = ATenantList, OF tnl_ptr.deep_copy_axioms ok])
      (use u TenantList_object in \<open>simp_all add: object_at_def object_reach_def DeepCopyObject_defs\<close>)
qed

definition demo_labels :: strmap where
  "demo_labels = fmap_of_list [(''team'', ''a'')]"

definition demo_pc :: pc_mem where
  "demo_pc = \<lparr>pc_TypeMeta = \<lparr>tm_Kind = ''ProviderConfig'', tm_APIVersion = ''v1''\<rparr>,
     pc_ObjectMeta = \<lparr>om_Name = ''t1'', om_GenerateName = [], om_Namespace = [], om_SelfLink = [], om_UID = ''u'',
       om_ResourceVersion = ''7'', om_Generation = 1, om_CreationTimestamp = 5, om_DeletionTimestamp = None,
       om_DeletionGracePeriodSeconds = None, om_Labels = Some 2, om_Annotations = None,
       om_OwnerReferences = Some (5, 0, 1), om_Finalizers = Some (3, 1, 1), om_ManagedFields = Some (7, 0, 1)\<rparr>,
     pc_Spec = \<lparr>ps_ProjectNumber = 12, ps_ProjectID = ''p'', ps_PSCConnectionID = 0,
       ps_NetworkConfig = \<lparr>pnc_Network = ''n'', pnc_SubnetInfo = \<lparr>psi_Subnetwork = ''s'', psi_CIDR = [],
         psi_NodeCIDRs = None, psi_PodRanges = None\<rparr>\<rparr>,
       ps_AuthConfig = Some 4, ps_PrincipalInfo = None\<rparr>,
     pc_Status = \<lparr>pst_Conditions = None\<rparr>\<rparr>"

definition demo_list :: pcl_mem where
  "demo_list = \<lparr>pcl_TypeMeta = \<lparr>tm_Kind = ''ProviderConfigList'', tm_APIVersion = ''v1''\<rparr>,
     pcl_ListMeta = \<lparr>lm_SelfLink = [], lm_ResourceVersion = ''9'', lm_Continue = [], lm_RemainingItemCount = None,
       lm_ShardInfo = None\<rparr>,
     pcl_Items = Some (1, 0, 2)\<rparr>"

text \<open>
  A list of two objects that share the map of labels, a slice into a larger array, an owner and the
  fields of a manager.
\<close>

definition demo_memory :: memory where
  "demo_memory = \<lparr>m_next = 10, m_cells = (\<lambda>a.
     if a = 0 then Some (ProviderConfigList_cell demo_list)
     else if a = 1 then Some (ProviderConfigs_cell [demo_pc, demo_pc])
     else if a = 2 then Some (StringMap_cell demo_labels)
     else if a = 3 then Some (Strings_cell [''f0'', ''f1'', ''f2''])
     else if a = 4 then Some (AuthConfig_cell \<lparr>ac_TokenURL = ''url'', ac_TokenBody = ''body''\<rparr>)
     else if a = 5 then Some (OwnerReferences_cell [\<lparr>or_APIVersion = ''v1'', or_Kind = ''Namespace'', or_Name = ''n'',
       or_UID = ''o'', or_Controller = Some 6, or_BlockOwnerDeletion = Some 6\<rparr>])
     else if a = 6 then Some (Bool_cell True)
     else if a = 7 then Some (ManagedFieldsEntries_cell [\<lparr>mf_Manager = ''kubectl'', mf_Operation = ''Apply'',
       mf_APIVersion = ''v1'', mf_Time = None, mf_FieldsType = ''FieldsV1'', mf_FieldsV1 = Some 8, mf_Subresource = []\<rparr>])
     else if a = 8 then Some (FieldsV1_cell \<lparr>fv_Raw = Some (9, 0, 2)\<rparr>)
     else if a = 9 then Some (Bytes_cell ''{}'')
     else None)\<rparr>"

lemmas rd_defs = rd_new_def rd_slice_def rd_struct_def rd_pair_def rd_flat_def slice_elems_def load_def
  ProviderConfigList_rd_def ListMeta_rd_def ProviderConfig_rd_def ObjectMeta_rd_def OwnerReference_rd_def
  ManagedFieldsEntry_rd_def FieldsV1_rd_def ProviderConfigSpec_rd_def
  ProviderNetworkConfig_rd_def ProviderConfigSubnetInfo_rd_def ProviderConfigStatus_rd_def

lemma demo_memory_ok: "mem_ok demo_memory"
  by (simp add: mem_ok_def demo_memory_def)

lemma demo_memory_at: "\<exists>l. object_at demo_memory (ProviderConfigList_object (Some 0)) = Some (AProviderConfigList l)
  \<and> map_option length (pcl_Items l) = Some 2
  \<and> map_option (map (om_Finalizers \<circ> pc_ObjectMeta)) (pcl_Items l) = Some [Some [''f1''], Some [''f1'']]"
  by (simp add: object_at_def rd_defs demo_memory_def demo_list_def demo_pc_def)

theorem deep_copy_independent_witness:
  "\<exists>u ob' m'. object_at demo_memory (ProviderConfigList_object (Some 0)) = Some u
    \<and> DeepCopyObject (ProviderConfigList_object (Some 0)) demo_memory = Some (Some ob', m')
    \<and> object_at m' ob' = Some u
    \<and> (\<forall>w. agree (- object_reach m' ob') m' w \<longrightarrow>
          object_at w (ProviderConfigList_object (Some 0)) = Some u)"
proof -
  obtain l where l: "object_at demo_memory (ProviderConfigList_object (Some 0)) = Some (AProviderConfigList l)"
    using demo_memory_at by blast
  show ?thesis using deep_copy_independent [OF demo_memory_ok l] l by blast
qed

definition dynamic_type :: "runtime_object \<Rightarrow> string" where
  "dynamic_type ob = (case ob of ProviderConfig_object p \<Rightarrow> ''*ProviderConfig''
     | ProviderConfigList_object p \<Rightarrow> ''*ProviderConfigList''
     | Tenant_object p \<Rightarrow> ''*Tenant'' | TenantList_object p \<Rightarrow> ''*TenantList'')"

definition object_ptr :: "runtime_object \<Rightarrow> ptr" where
  "object_ptr ob = (case ob of ProviderConfig_object p \<Rightarrow> p | ProviderConfigList_object p \<Rightarrow> p
     | Tenant_object p \<Rightarrow> p | TenantList_object p \<Rightarrow> p)"

lemma copy_new_nil: "copy_new mk prj c p m = Some (q, m') \<Longrightarrow> q = None \<longleftrightarrow> p = None"
  by (cases p) (auto simp: copy_new_def bind_eq_Some_conv split: prod.splits)

lemmas pointer_copies = ProviderConfig_DeepCopy_def ProviderConfigList_DeepCopy_def
  Tenant_DeepCopy_def TenantList_DeepCopy_def

lemma object_copy_type:
  assumes "do { (q, m) \<leftarrow> copy_new mk prj c p m; Some (if q \<noteq> None then Some (k q) else None, m) } = Some (r, m')"
  shows "(r = None \<longleftrightarrow> p = None) \<and> (r = None \<longrightarrow> m' = m) \<and> (\<forall>ob'. r = Some ob' \<longrightarrow> (\<exists>a. ob' = k (Some a)))"
proof -
  obtain q where q: "copy_new mk prj c p m = Some (q, m')" "r = (if q \<noteq> None then Some (k q) else None)"
    using assms by (auto simp: bind_eq_Some_conv)
  have "q = None \<longleftrightarrow> p = None" using q(1) by (rule copy_new_nil)
  moreover have "p = None \<Longrightarrow> m' = m" using q(1) by simp
  ultimately show ?thesis using q(2) by auto
qed

text \<open>C29. \<open>DeepCopyObject\<close> keeps the dynamic type: the interface it returns is nil exactly when the
  receiver was a nil pointer (and then it touched no memory), so it never returns an interface
  that holds a nil pointer; otherwise it holds a pointer of the receiver's type.
\<close>

theorem deep_copy_type:
  assumes "DeepCopyObject ob m = Some (r, m')"
  shows "(r = None \<longleftrightarrow> object_ptr ob = None) \<and> (r = None \<longrightarrow> m' = m)
    \<and> (\<forall>ob'. r = Some ob' \<longrightarrow> dynamic_type ob' = dynamic_type ob \<and> object_ptr ob' \<noteq> None)"
proof (cases ob)
  case (ProviderConfig_object p)
  from object_copy_type [OF assms [unfolded this DeepCopyObject_defs pointer_copies runtime_object.case]]
  show ?thesis using ProviderConfig_object by (auto simp: object_ptr_def dynamic_type_def)
next
  case (ProviderConfigList_object p)
  from object_copy_type [OF assms [unfolded this DeepCopyObject_defs pointer_copies runtime_object.case]]
  show ?thesis using ProviderConfigList_object by (auto simp: object_ptr_def dynamic_type_def)
next
  case (Tenant_object p)
  from object_copy_type [OF assms [unfolded this DeepCopyObject_defs pointer_copies runtime_object.case]]
  show ?thesis using Tenant_object by (auto simp: object_ptr_def dynamic_type_def)
next
  case (TenantList_object p)
  from object_copy_type [OF assms [unfolded this DeepCopyObject_defs pointer_copies runtime_object.case]]
  show ?thesis using TenantList_object by (auto simp: object_ptr_def dynamic_type_def)
qed

theorem deep_copy_type_witness:
  "\<exists>ob' m'. DeepCopyObject (ProviderConfigList_object (Some 0)) demo_memory = Some (Some ob', m')
    \<and> dynamic_type ob' = ''*ProviderConfigList'' \<and> object_ptr ob' \<noteq> None"
proof -
  obtain l where l: "object_at demo_memory (ProviderConfigList_object (Some 0)) = Some (AProviderConfigList l)"
    using demo_memory_at by blast
  obtain q m' where q: "ProviderConfigList_DeepCopy (Some 0) demo_memory = Some (q, m')"
    using pcl_ptr.copied [OF demo_memory_ok, of "Some 0" "Some l"] l
    by (auto simp: object_at_def bind_eq_Some_conv)
  then have "q \<noteq> None"
    by (auto simp: ProviderConfigList_DeepCopy_def dest: copy_new_nil)
  with q have c: "DeepCopyObject (ProviderConfigList_object (Some 0)) demo_memory
      = Some (Some (ProviderConfigList_object q), m')"
    by (simp add: DeepCopyObject_defs)
  from deep_copy_type [OF c] show ?thesis
    using c by (auto simp: dynamic_type_def)
qed

end
