(* ===== verification/Prometheus.thy ===== *)
theory Prometheus imports MTPrelude Complex_Main "HOL-Library.List_Lexorder" "HOL-Library.Char_ord" begin

text \<open>
  The part of \<open>github.com/prometheus/client_golang\<close> that \<open>pkg/mtmetrics\<close> rests on: descriptors,
  counters, gauges and histograms, their vectors, and \<open>Registry.Register\<close>.

  \<^item> A collector is a pointer into \<open>p_objects\<close>: a vector with its children, or a single metric.
  \<^item> What a metric shows is a function of the updates it got; \<open>mt_log\<close> is their sequence, so
    that nothing depends on how floats are added.
  \<^item> The hashes \<open>id\<close> and \<open>dimHash\<close> of a descriptor and of label values are what is hashed:
    collisions of the 64-bit hashes are not modelled.
  \<^item> Every collector here has one descriptor; native histograms, exemplars and time stamps are
    left out.
\<close>

section \<open>Floats and UTF-8\<close>

text \<open>A \<open>float64\<close>, up to the sign of zero.\<close>

datatype float64 = Finite rat | PosInf | NegInf | NaN

fun f_less :: "float64 \<Rightarrow> float64 \<Rightarrow> bool" where
  "f_less NaN y = False"
| "f_less x NaN = False"
| "f_less (Finite a) (Finite b) = (a < b)"
| "f_less NegInf y = (y \<noteq> NegInf)"
| "f_less x PosInf = (x \<noteq> PosInf)"
| "f_less x y = False"

definition f_neg :: "float64 \<Rightarrow> bool" where
  "f_neg v = f_less v (Finite 0)"

definition f_ge :: "float64 \<Rightarrow> float64 \<Rightarrow> bool" where
  "f_ge x y \<longleftrightarrow> f_less y x \<or> (x = y \<and> x \<noteq> NaN)"

text \<open>\<open>utf8.ValidString\<close>: no overlong forms, no surrogates, at most U+10FFFF.\<close>

definition continues :: "nat \<Rightarrow> bool" where
  "continues b \<longleftrightarrow> 0x80 \<le> b \<and> b \<le> 0xBF"

fun utf8_bytes :: "nat list \<Rightarrow> bool" where
  "utf8_bytes [] = True"
| "utf8_bytes [a] = (a < 0x80)"
| "utf8_bytes [a, b] =
     (if a < 0x80 then utf8_bytes [b] else 0xC2 \<le> a \<and> a \<le> 0xDF \<and> continues b)"
| "utf8_bytes [a, b, c] =
     (if a < 0x80 then utf8_bytes [b, c]
      else if a \<le> 0xDF then 0xC2 \<le> a \<and> continues b \<and> utf8_bytes [c]
      else a \<le> 0xEF \<and> continues b \<and> continues c \<and> (a = 0xE0 \<longrightarrow> 0xA0 \<le> b) \<and> (a = 0xED \<longrightarrow> b \<le> 0x9F))"
| "utf8_bytes (a # b # c # d # s) =
     (if a < 0x80 then utf8_bytes (b # c # d # s)
      else if a \<le> 0xDF then 0xC2 \<le> a \<and> continues b \<and> utf8_bytes (c # d # s)
      else if a \<le> 0xEF then continues b \<and> continues c \<and> (a = 0xE0 \<longrightarrow> 0xA0 \<le> b)
        \<and> (a = 0xED \<longrightarrow> b \<le> 0x9F) \<and> utf8_bytes (d # s)
      else a \<le> 0xF4 \<and> continues b \<and> continues c \<and> continues d \<and> (a = 0xF0 \<longrightarrow> 0x90 \<le> b)
        \<and> (a = 0xF4 \<longrightarrow> b \<le> 0x8F) \<and> utf8_bytes s)"

definition ValidString :: "string \<Rightarrow> bool" where
  "ValidString s = utf8_bytes (map of_char s)"

section \<open>Descriptors\<close>

record Opts =
  op_Namespace :: string
  op_Subsystem :: string
  op_Name :: string
  op_Help :: string
  op_Unit :: string
  op_ConstLabels :: "(string, string) fmap"

definition BuildFQName :: "string \<Rightarrow> string \<Rightarrow> string \<Rightarrow> string" where
  "BuildFQName namespace subsystem name =
     (if name = [] then []
      else (if namespace \<noteq> [] then namespace @ ''_'' else [])
        @ (if subsystem \<noteq> [] then subsystem @ ''_'' else []) @ name)"

definition IsValidMetricName :: "string \<Rightarrow> bool" where
  "IsValidMetricName n \<longleftrightarrow> n \<noteq> [] \<and> ValidString n"

definition IsValidLabelName :: "string \<Rightarrow> bool" where
  "IsValidLabelName l \<longleftrightarrow> l \<noteq> [] \<and> ValidString l"

definition checkLabelName :: "string \<Rightarrow> bool" where
  "checkLabelName l \<longleftrightarrow> IsValidLabelName l \<and> take 2 l \<noteq> ''__''"

definition validateLabelValues :: "string list \<Rightarrow> nat \<Rightarrow> error" where
  "validateLabelValues vals expected =
     (if length vals \<noteq> expected
      then Some (Wrapf ''%w: expected %d label values but got %d in %#v'' vals
             (Errorf ''inconsistent label cardinality'' []))
      else case find (\<lambda>v. \<not> ValidString v) vals of
             Some v \<Rightarrow> Some (Errorf ''label value %q is not valid UTF-8'' [v])
           | None \<Rightarrow> None)"

record Desc =
  fqName :: string
  d_help :: string
  unit_ :: string
  constLabels :: "(string, string) fmap"
  variableLabels :: "string list"
  desc_id :: "string list"
  dimHash :: "string \<times> string \<times> string list"
  desc_err :: error

text \<open>
  Of several invalid constant labels, the code reports the one that the iteration over the map
  meets first; the model reports the smallest.
\<close>

definition NewDesc :: "string \<Rightarrow> string \<Rightarrow> string list \<Rightarrow> (string, string) fmap \<Rightarrow> string \<Rightarrow> Desc" where
  "NewDesc name hlp variable consts un = (
     let d = \<lparr>fqName = name, d_help = hlp, unit_ = un, constLabels = consts, variableLabels = variable,
           desc_id = [], dimHash = ([], [], []), desc_err = None\<rparr>;
         constNames = sorted_list_of_fset (fmdom consts);
         labelValues = name # map (\<lambda>n. the (fmlookup consts n)) constNames;
         labelNames = constNames @ map (\<lambda>l. CHR ''$'' # l) variable
     in if \<not> IsValidMetricName name
        then d\<lparr>desc_err := Some (Errorf ''%q is not a valid metric name'' [name])\<rparr>
        else case find (\<lambda>l. \<not> checkLabelName l) constNames of
          Some l \<Rightarrow> d\<lparr>desc_err := Some (Errorf ''%q is not a valid label name for metric %q'' [l, name])\<rparr>
        | None \<Rightarrow> (case validateLabelValues labelValues (length labelValues) of
            Some e \<Rightarrow> d\<lparr>desc_err := Some e\<rparr>
          | None \<Rightarrow> (case find (\<lambda>l. \<not> checkLabelName l) variable of
              Some l \<Rightarrow> d\<lparr>desc_err := Some (Errorf ''%q is not a valid label name for metric %q'' [l, name])\<rparr>
            | None \<Rightarrow>
                if \<not> distinct (constNames @ variable)
                then d\<lparr>desc_err := Some (Errorf
                  ''duplicate label names in constant and variable labels for metric %q'' [name])\<rparr>
                else d\<lparr>desc_id := labelValues, dimHash := (hlp, un, sort labelNames)\<rparr>)))"

section \<open>Metrics and vectors\<close>

datatype kind = CounterK | GaugeK | HistogramK | SummaryK

datatype update = Inc | Add float64 | Observe float64

record metric =
  mt_kind :: kind
  mt_desc :: Desc
  mt_labels :: "string list"
  mt_log :: "update list"

record metric_vec =
  vec_kind :: kind
  vec_desc :: Desc
  vec_buckets :: "float64 list"
  vec_children :: "(string list \<times> nat) list"

datatype collector = Vec metric_vec | Metric metric

record Registry =
  collectorsByID :: "string list \<rightharpoonup> nat"
  descIDs :: "string list set"
  dimHashesByName :: "string \<rightharpoonup> string \<times> string \<times> string list"

record prom =
  p_next :: nat
  p_objects :: "nat \<Rightarrow> collector option"
  p_registries :: "nat \<Rightarrow> Registry"

definition put :: "collector \<Rightarrow> prom \<Rightarrow> nat \<times> prom" where
  "put c p = (p_next p, p\<lparr>p_next := Suc (p_next p), p_objects := (p_objects p)(p_next p \<mapsto> c)\<rparr>)"

definition set_object :: "nat \<Rightarrow> collector \<Rightarrow> prom \<Rightarrow> prom" where
  "set_object a c p = p\<lparr>p_objects := (p_objects p)(a \<mapsto> c)\<rparr>"

definition opts_desc :: "Opts \<Rightarrow> string list \<Rightarrow> Desc" where
  "opts_desc opts names =
     NewDesc (BuildFQName (op_Namespace opts) (op_Subsystem opts) (op_Name opts))
       (op_Help opts) names (op_ConstLabels opts) (op_Unit opts)"

definition NewCounter :: "Opts \<Rightarrow> prom \<Rightarrow> nat \<times> prom" where
  "NewCounter opts = put (Metric \<lparr>mt_kind = CounterK, mt_desc = opts_desc opts [], mt_labels = [], mt_log = []\<rparr>)"

definition NewGauge :: "Opts \<Rightarrow> prom \<Rightarrow> nat \<times> prom" where
  "NewGauge opts = put (Metric \<lparr>mt_kind = GaugeK, mt_desc = opts_desc opts [], mt_labels = [], mt_log = []\<rparr>)"

definition NewCounterVec :: "Opts \<Rightarrow> string list \<Rightarrow> prom \<Rightarrow> nat \<times> prom" where
  "NewCounterVec opts names = put (Vec \<lparr>vec_kind = CounterK, vec_desc = opts_desc opts names,
     vec_buckets = [], vec_children = []\<rparr>)"

definition NewGaugeVec :: "Opts \<Rightarrow> string list \<Rightarrow> prom \<Rightarrow> nat \<times> prom" where
  "NewGaugeVec opts names = put (Vec \<lparr>vec_kind = GaugeK, vec_desc = opts_desc opts names,
     vec_buckets = [], vec_children = []\<rparr>)"

text \<open>The options of a histogram are the common ones and the upper bounds of its buckets.\<close>

type_synonym HistogramOpts = "Opts \<times> float64 list"

definition NewHistogramVec :: "HistogramOpts \<Rightarrow> string list \<Rightarrow> prom \<Rightarrow> nat \<times> prom" where
  "NewHistogramVec opts names = put (Vec \<lparr>vec_kind = HistogramK, vec_desc = opts_desc (fst opts) names,
     vec_buckets = snd opts, vec_children = []\<rparr>)"

fun increasing :: "float64 list \<Rightarrow> bool" where
  "increasing (x # y # xs) = (\<not> f_ge x y \<and> increasing (y # xs))"
| "increasing xs = True"

definition newHistogram :: "Desc \<Rightarrow> float64 list \<Rightarrow> string list \<Rightarrow> metric outcome" where
  "newHistogram d buckets labelValues =
     (if length (variableLabels d) \<noteq> length labelValues then Panic ''inconsistent label cardinality''
      else if ''le'' \<in> set (variableLabels d) \<or> ''le'' |\<in>| fmdom (constLabels d)
      then Panic ''\"le\" is not allowed as label name in histograms''
      else if \<not> increasing buckets then Panic ''histogram buckets must be in increasing order''
      else Return \<lparr>mt_kind = HistogramK, mt_desc = d, mt_labels = labelValues, mt_log = []\<rparr>)"

definition NewHistogram :: "HistogramOpts \<Rightarrow> prom \<Rightarrow> (nat \<times> prom) outcome" where
  "NewHistogram opts p = (case newHistogram (opts_desc (fst opts) []) (snd opts) [] of
     Panic msg \<Rightarrow> Panic msg
   | Return m \<Rightarrow> Return (put (Metric m) p))"

text \<open>The \<open>newMetric\<close> function of a vector.\<close>

definition newMetric :: "metric_vec \<Rightarrow> string list \<Rightarrow> metric outcome" where
  "newMetric v lvs =
     (if vec_kind v = HistogramK then newHistogram (vec_desc v) (vec_buckets v) lvs
      else if length lvs \<noteq> length (variableLabels (vec_desc v)) then Panic ''inconsistent label cardinality''
      else Return \<lparr>mt_kind = vec_kind v, mt_desc = vec_desc v, mt_labels = lvs, mt_log = []\<rparr>)"

text \<open>\<open>GetMetricWithLabelValues\<close> of a vector without curried labels.\<close>

definition GetMetricWithLabelValues :: "nat \<Rightarrow> string list \<Rightarrow> prom \<Rightarrow> ((go_error + nat) \<times> prom) outcome" where
  "GetMetricWithLabelValues a lvs p = (case p_objects p a of
     Some (Vec v) \<Rightarrow>
       (case validateLabelValues lvs (length (variableLabels (vec_desc v))) of
          Some e \<Rightarrow> Return (Inl e, p)
        | None \<Rightarrow>
            (case map_of (vec_children v) lvs of
               Some c \<Rightarrow> Return (Inr c, p)
             | None \<Rightarrow>
                 (case newMetric v lvs of
                    Panic msg \<Rightarrow> Panic msg
                  | Return m \<Rightarrow>
                      (let (c, p) = put (Metric m) p
                       in Return (Inr c, set_object a
                            (Vec (v\<lparr>vec_children := vec_children v @ [(lvs, c)]\<rparr>)) p)))))
   | _ \<Rightarrow> Panic ''invalid memory address or nil pointer dereference'')"

definition WithLabelValues :: "nat \<Rightarrow> string list \<Rightarrow> prom \<Rightarrow> (nat \<times> prom) outcome" where
  "WithLabelValues a lvs p = (case GetMetricWithLabelValues a lvs p of
     Panic msg \<Rightarrow> Panic msg
   | Return (Inl e, p) \<Rightarrow> Panic (case e of Errorf fmt args \<Rightarrow> fmt | Wrapf fmt args e \<Rightarrow> fmt | ApiStatus r m \<Rightarrow> m)
   | Return (Inr c, p) \<Rightarrow> Return (c, p))"

definition vec_Reset :: "nat \<Rightarrow> prom \<Rightarrow> prom" where
  "vec_Reset a p = (case p_objects p a of
     Some (Vec v) \<Rightarrow> set_object a (Vec (v\<lparr>vec_children := []\<rparr>)) p
   | _ \<Rightarrow> p)"

text \<open>\<open>Inc\<close>, \<open>Add\<close> and \<open>Observe\<close> through an interface, dispatched on what the pointer holds.\<close>

definition metric_update :: "update \<Rightarrow> nat \<Rightarrow> prom \<Rightarrow> prom outcome" where
  "metric_update u a p = (case p_objects p a of
     Some (Metric m) \<Rightarrow>
       (if mt_kind m = CounterK \<and> (case u of Add v \<Rightarrow> f_neg v | _ \<Rightarrow> False)
        then Panic ''counter cannot decrease in value''
        else Return (set_object a (Metric (m\<lparr>mt_log := mt_log m @ [u]\<rparr>)) p))
   | _ \<Rightarrow> Panic ''invalid memory address or nil pointer dereference'')"

section \<open>Type assertions\<close>

definition is_vec :: "kind \<Rightarrow> prom \<Rightarrow> nat \<Rightarrow> bool" where
  "is_vec k p a = (case p_objects p a of Some (Vec v) \<Rightarrow> vec_kind v = k | _ \<Rightarrow> False)"

text \<open>
  Assertions to interfaces look at the method set: the methods of \<open>Counter\<close> are methods of a gauge
  too, and those of \<open>Histogram\<close> methods of a summary.
\<close>

definition is_Counter :: "prom \<Rightarrow> nat \<Rightarrow> bool" where
  "is_Counter p a = (case p_objects p a of Some (Metric m) \<Rightarrow> mt_kind m \<in> {CounterK, GaugeK} | _ \<Rightarrow> False)"

definition is_Gauge :: "prom \<Rightarrow> nat \<Rightarrow> bool" where
  "is_Gauge p a = (case p_objects p a of Some (Metric m) \<Rightarrow> mt_kind m = GaugeK | _ \<Rightarrow> False)"

definition is_Histogram :: "prom \<Rightarrow> nat \<Rightarrow> bool" where
  "is_Histogram p a = (case p_objects p a of Some (Metric m) \<Rightarrow> mt_kind m \<in> {HistogramK, SummaryK} | _ \<Rightarrow> False)"

section \<open>Registration\<close>

text \<open>An error of \<open>Register\<close>: \<open>AlreadyRegisteredError\<close> with the existing collector, or another.\<close>

datatype reg_error = AlreadyRegistered nat | RegError go_error

primrec reg_error_text :: "reg_error \<Rightarrow> go_error" where
  "reg_error_text (AlreadyRegistered c) = Errorf ''duplicate metrics collector registration attempted'' []"
| "reg_error_text (RegError e) = e"

definition collector_desc :: "collector \<Rightarrow> Desc" where
  "collector_desc c = (case c of Vec v \<Rightarrow> vec_desc v | Metric m \<Rightarrow> mt_desc m)"

definition empty_registry :: Registry where
  "empty_registry = \<lparr>collectorsByID = Map.empty, descIDs = {}, dimHashesByName = Map.empty\<rparr>"

definition NewRegistry :: "prom \<Rightarrow> nat \<times> prom" where
  "NewRegistry p = (p_next p, p\<lparr>p_next := Suc (p_next p),
     p_registries := (p_registries p)(p_next p := empty_registry)\<rparr>)"

definition Register :: "nat \<Rightarrow> nat \<Rightarrow> prom \<Rightarrow> reg_error option \<times> prom" where
  "Register r a p = (case p_objects p a of
     None \<Rightarrow> (None, p)
   | Some c \<Rightarrow>
     (let reg = p_registries p r; d = collector_desc c;
          duplicate = desc_id d \<in> descIDs reg
      in case desc_err d of
           Some e \<Rightarrow> (Some (RegError (Wrapf ''descriptor %s is invalid: %w'' [fqName d] e)), p)
         | None \<Rightarrow>
             if (case dimHashesByName reg (fqName d) of None \<Rightarrow> False | Some h \<Rightarrow> h \<noteq> dimHash d)
             then (Some (RegError (Errorf ''a previously registered descriptor with the same fully-qualified name as %s has different label names or a different help string'' [fqName d])), p)
             else (case collectorsByID reg (desc_id d) of
               Some existing \<Rightarrow> (Some (AlreadyRegistered existing), p)
             | None \<Rightarrow>
                 if duplicate
                 then (Some (RegError (Errorf ''descriptor %s already exists with the same fully-qualified name and const label values'' [fqName d])), p)
                 else (None, p\<lparr>p_registries := (p_registries p)(r := reg\<lparr>
                   collectorsByID := (collectorsByID reg)(desc_id d \<mapsto> a),
                   descIDs := insert (desc_id d) (descIDs reg),
                   dimHashesByName := (dimHashesByName reg)(fqName d \<mapsto> dimHash d)\<rparr>)\<rparr>))))"

end
