(* ===== verification/Metrics.thy ===== *)
theory Metrics imports Prometheus begin

text \<open>
  \<open>pkg/mtmetrics/metrics.go\<close> and \<open>pkg/mtmetrics/mt_metrics.go\<close>: the tracker of global metrics, the
  single-tenant factory, and the multi-tenant factory with its dual-emitting counters and
  histograms.

  The tracker is passed as a state of its own; every operation on it holds its lock from start to
  end, so operations are atomic. A returned interface value is a pointer (\<open>std_\<close> operations) or one
  of the wrapper structs. A Go call returns a value or an error (\<open>go_error + 'a\<close>), or panics.
\<close>

definition obind :: "'a outcome \<Rightarrow> ('a \<Rightarrow> 'b outcome) \<Rightarrow> 'b outcome" where
  "obind r f = (case r of Panic msg \<Rightarrow> Panic msg | Return x \<Rightarrow> f x)"

lemma obind_simps [simp]: "obind (Return x) f = f x" "obind (Panic msg) f = Panic msg"
  by (simp_all add: obind_def)

lemma obind_Return_iff: "obind r f = Return y \<longleftrightarrow> (\<exists>x. r = Return x \<and> f x = Return y)"
  by (cases r) simp_all

section \<open>Register, or take what is registered\<close>

text \<open>
  The pattern of every constructor: register the new collector; when the registry says it has
  one already, use that one if it has the wanted type.
\<close>

definition register_or_existing ::
  "nat \<Rightarrow> nat \<Rightarrow> (prom \<Rightarrow> nat \<Rightarrow> bool) \<Rightarrow> (go_error \<Rightarrow> go_error) \<Rightarrow> (go_error \<Rightarrow> go_error) \<Rightarrow> prom
   \<Rightarrow> (go_error + nat) \<times> prom" where
  "register_or_existing reg c is_T mismatch other p = (case Register reg c p of
     (None, p) \<Rightarrow> (Inr c, p)
   | (Some err, p) \<Rightarrow> (case err of
        AlreadyRegistered existing \<Rightarrow>
          (if is_T p existing then (Inr existing, p) else (Inl (mismatch (reg_error_text err)), p))
      | RegError e \<Rightarrow> (Inl (other e), p)))"

section \<open>The single-tenant factory\<close>

record stdMetricFactory =
  std_reg :: nat

definition NewStdMetricFactory :: "nat \<Rightarrow> stdMetricFactory" where
  "NewStdMetricFactory r = \<lparr>std_reg = r\<rparr>"

definition std_Cleanup :: "stdMetricFactory \<Rightarrow> prom \<Rightarrow> prom" where
  "std_Cleanup f p = p"

definition different_type :: "Opts \<Rightarrow> go_error \<Rightarrow> go_error" where
  "different_type opts e = Errorf ''metric %q already registered with different type'' [op_Name opts]"

definition std_NewCounterVec :: "stdMetricFactory \<Rightarrow> Opts \<Rightarrow> string list \<Rightarrow> prom \<Rightarrow> (go_error + nat) \<times> prom" where
  "std_NewCounterVec f opts labelNames p =
     (let (vec, p) = NewCounterVec opts labelNames p
      in register_or_existing (std_reg f) vec (is_vec CounterK) (different_type opts) id p)"

definition std_NewGaugeVec :: "stdMetricFactory \<Rightarrow> Opts \<Rightarrow> string list \<Rightarrow> prom \<Rightarrow> (go_error + nat) \<times> prom" where
  "std_NewGaugeVec f opts labelNames p =
     (let (vec, p) = NewGaugeVec opts labelNames p
      in register_or_existing (std_reg f) vec (is_vec GaugeK) (different_type opts) id p)"

definition std_NewHistogramVec :: "stdMetricFactory \<Rightarrow> HistogramOpts \<Rightarrow> string list \<Rightarrow> prom \<Rightarrow> (go_error + nat) \<times> prom" where
  "std_NewHistogramVec f opts labelNames p =
     (let (vec, p) = NewHistogramVec opts labelNames p
      in register_or_existing (std_reg f) vec (is_vec HistogramK) (different_type (fst opts)) id p)"

definition std_NewCounter :: "stdMetricFactory \<Rightarrow> Opts \<Rightarrow> prom \<Rightarrow> (go_error + nat) \<times> prom" where
  "std_NewCounter f opts p =
     (let (c, p) = NewCounter opts p
      in register_or_existing (std_reg f) c is_Counter (different_type opts) id p)"

definition std_NewGauge :: "stdMetricFactory \<Rightarrow> Opts \<Rightarrow> prom \<Rightarrow> (go_error + nat) \<times> prom" where
  "std_NewGauge f opts p =
     (let (g, p) = NewGauge opts p
      in register_or_existing (std_reg f) g is_Gauge (different_type opts) id p)"

definition std_NewHistogram :: "stdMetricFactory \<Rightarrow> HistogramOpts \<Rightarrow> prom \<Rightarrow> ((go_error + nat) \<times> prom) outcome" where
  "std_NewHistogram f opts p = obind (NewHistogram opts p) (\<lambda>(h, p).
     Return (register_or_existing (std_reg f) h is_Histogram (different_type (fst opts)) id p))"

section \<open>The tracker of global metrics\<close>

record GlobalMetricsTracker =
  collectors :: "string \<rightharpoonup> nat"
  metricLabels :: "string \<rightharpoonup> string list"

definition NewGlobalMetricsTracker :: GlobalMetricsTracker where
  "NewGlobalMetricsTracker = \<lparr>collectors = Map.empty, metricLabels = Map.empty\<rparr>"

text \<open>The loop over the labels compares element by element, after the lengths: equality of lists.\<close>

definition validateLabelsLocked ::
  "string \<Rightarrow> string list \<Rightarrow> GlobalMetricsTracker \<Rightarrow> error \<times> GlobalMetricsTracker" where
  "validateLabelsLocked name labelNames t = (case metricLabels t name of
     Some storedLabels \<Rightarrow>
       (if length storedLabels \<noteq> length labelNames
           \<or> (\<exists>i<length storedLabels. storedLabels ! i \<noteq> labelNames ! i)
        then (Some (Errorf ''metric %q already registered with different labels: expected %v, got %v'' [name]), t)
        else (None, t))
   | None \<Rightarrow> (None, t\<lparr>metricLabels := (metricLabels t)(name \<mapsto> labelNames)\<rparr>))"

definition opts_key :: "Opts \<Rightarrow> string" where
  "opts_key opts = BuildFQName (op_Namespace opts) (op_Subsystem opts) (op_Name opts)"

text \<open>The body that the four \<open>getOrCreate\<close> functions share, for a type and a constructor.\<close>

definition getOrCreate ::
  "string \<Rightarrow> string list \<Rightarrow> (prom \<Rightarrow> nat \<Rightarrow> bool) \<Rightarrow> string \<Rightarrow> (prom \<Rightarrow> (nat \<times> prom) outcome) \<Rightarrow> nat
   \<Rightarrow> GlobalMetricsTracker \<Rightarrow> prom \<Rightarrow> ((go_error + nat) \<times> GlobalMetricsTracker \<times> prom) outcome" where
  "getOrCreate key labelNames is_T type_error create reg t p =
     (case validateLabelsLocked key labelNames t of
        (Some e, t) \<Rightarrow> Return (Inl e, t, p)
      | (None, t) \<Rightarrow>
          (case collectors t key of
             Some c \<Rightarrow> Return (if is_T p c then Inr c
               else Inl (Errorf ''metric %s already registered with different type'' [key]), t, p)
           | None \<Rightarrow> obind (create p) (\<lambda>(cv, p).
               case register_or_existing reg cv is_T (Wrapf type_error []) id p of
                 (Inl e, p) \<Rightarrow> Return (Inl e, t, p)
               | (Inr cv, p) \<Rightarrow> Return (Inr cv, t\<lparr>collectors := (collectors t)(key \<mapsto> cv)\<rparr>, p))))"

definition getOrCreateCounterVec where
  "getOrCreateCounterVec opts labelNames reg = getOrCreate (opts_key opts) labelNames (is_vec CounterK)
     ''metric registered but not of type *prometheus.CounterVec: %w''
     (\<lambda>p. Return (NewCounterVec opts labelNames p)) reg"

definition getOrCreateHistogramVec where
  "getOrCreateHistogramVec opts labelNames reg = getOrCreate (opts_key (fst opts)) labelNames (is_vec HistogramK)
     ''metric registered but not of type *prometheus.HistogramVec: %w''
     (\<lambda>p. Return (NewHistogramVec opts labelNames p)) reg"

definition getOrCreateCounter where
  "getOrCreateCounter opts reg = getOrCreate (opts_key opts) [] is_Counter
     ''metric registered but not of type prometheus.Counter: %w''
     (\<lambda>p. Return (NewCounter opts p)) reg"

definition getOrCreateHistogram where
  "getOrCreateHistogram opts reg = getOrCreate (opts_key (fst opts)) [] is_Histogram
     ''metric registered but not of type prometheus.Histogram: %w''
     (NewHistogram opts) reg"

section \<open>Dual emission\<close>

text \<open>The interface fields of the wrappers may be nil.\<close>

record mtCounter =
  c_Counter :: "nat option"
  c_global :: "nat option"

record mtObserver =
  o_Observer :: "nat option"
  o_global :: "nat option"

record mtHistogram =
  h_Histogram :: "nat option"
  h_global :: "nat option"

definition update_unless_nil :: "update \<Rightarrow> nat option \<Rightarrow> prom \<Rightarrow> prom outcome" where
  "update_unless_nil u a p = (case a of None \<Rightarrow> Return p | Some c \<Rightarrow> metric_update u c p)"

definition mtCounter_Inc :: "mtCounter \<Rightarrow> prom \<Rightarrow> prom outcome" where
  "mtCounter_Inc c p = obind (update_unless_nil Inc (c_Counter c) p) (update_unless_nil Inc (c_global c))"

definition mtCounter_Add :: "mtCounter \<Rightarrow> float64 \<Rightarrow> prom \<Rightarrow> prom outcome" where
  "mtCounter_Add c v p =
     obind (update_unless_nil (Add v) (c_Counter c) p) (update_unless_nil (Add v) (c_global c))"

definition mtObserver_Observe :: "mtObserver \<Rightarrow> float64 \<Rightarrow> prom \<Rightarrow> prom outcome" where
  "mtObserver_Observe ob v p =
     obind (update_unless_nil (Observe v) (o_Observer ob) p) (update_unless_nil (Observe v) (o_global ob))"

definition mtHistogram_Observe :: "mtHistogram \<Rightarrow> float64 \<Rightarrow> prom \<Rightarrow> prom outcome" where
  "mtHistogram_Observe h v p =
     obind (update_unless_nil (Observe v) (h_Histogram h) p) (update_unless_nil (Observe v) (h_global h))"

record mtCounterVec =
  cv_tenantUID :: string
  cv_local :: "nat option"
  cv_global :: "nat option"

record mtObserverVec =
  ov_tenantUID :: string
  ov_local :: "nat option"
  ov_global :: "nat option"

definition child_unless_nil :: "nat option \<Rightarrow> string list \<Rightarrow> prom \<Rightarrow> (nat option \<times> prom) outcome" where
  "child_unless_nil a lvs p = (case a of
     None \<Rightarrow> Return (None, p)
   | Some v \<Rightarrow> obind (WithLabelValues v lvs p) (\<lambda>(c, p). Return (Some c, p)))"

definition mtCounterVec_WithLabelValues :: "mtCounterVec \<Rightarrow> string list \<Rightarrow> prom \<Rightarrow> (mtCounter \<times> prom) outcome" where
  "mtCounterVec_WithLabelValues v lvs p =
     obind (child_unless_nil (cv_local v) (lvs @ [cv_tenantUID v]) p) (\<lambda>(local, p).
     obind (child_unless_nil (cv_global v) lvs p) (\<lambda>(global, p).
       Return (\<lparr>c_Counter = local, c_global = global\<rparr>, p)))"

definition mtObserverVec_WithLabelValues :: "mtObserverVec \<Rightarrow> string list \<Rightarrow> prom \<Rightarrow> (mtObserver \<times> prom) outcome" where
  "mtObserverVec_WithLabelValues v lvs p =
     obind (child_unless_nil (ov_local v) (lvs @ [ov_tenantUID v]) p) (\<lambda>(local, p).
     obind (child_unless_nil (ov_global v) lvs p) (\<lambda>(global, p).
       Return (\<lparr>o_Observer = local, o_global = global\<rparr>, p)))"

definition mtCounterVec_Reset :: "mtCounterVec \<Rightarrow> prom \<Rightarrow> prom" where
  "mtCounterVec_Reset v p = (case cv_local v of None \<Rightarrow> p | Some a \<Rightarrow> vec_Reset a p)"

definition mtObserverVec_Reset :: "mtObserverVec \<Rightarrow> prom \<Rightarrow> prom" where
  "mtObserverVec_Reset v p = (case ov_local v of None \<Rightarrow> p | Some a \<Rightarrow> vec_Reset a p)"

section \<open>The multi-tenant factory\<close>

text \<open>The field \<open>tracker\<close> is the tracker that the operations are passed.\<close>

record mtMetricFactory =
  f_tenantUID :: string
  f_globalReg :: nat
  f_localRegistry :: nat

definition NewMTMetricFactory :: "string \<Rightarrow> nat \<Rightarrow> prom \<Rightarrow> mtMetricFactory \<times> prom" where
  "NewMTMetricFactory tenantUID globalReg p =
     (let (r, p) = NewRegistry p
      in (\<lparr>f_tenantUID = tenantUID, f_globalReg = globalReg, f_localRegistry = r\<rparr>, p))"

definition mt_Registry :: "mtMetricFactory \<Rightarrow> nat" where
  "mt_Registry f = f_localRegistry f"

definition mt_Cleanup :: "mtMetricFactory \<Rightarrow> prom \<Rightarrow> prom" where
  "mt_Cleanup f p = p"

definition mt_NewCounterVec ::
  "mtMetricFactory \<Rightarrow> Opts \<Rightarrow> string list \<Rightarrow> GlobalMetricsTracker \<Rightarrow> prom
   \<Rightarrow> ((go_error + mtCounterVec) \<times> GlobalMetricsTracker \<times> prom) outcome" where
  "mt_NewCounterVec f opts labelNames t p =
     obind (getOrCreateCounterVec opts labelNames (f_globalReg f) t p) (\<lambda>(r, t, p). case r of
       Inl e \<Rightarrow> Return (Inl (Wrapf ''failed to get/create global counter vec: %w'' [] e), t, p)
     | Inr globalVec \<Rightarrow>
        (let (localVec, p) = NewCounterVec opts (labelNames @ [''tenant_uid'']) p
         in case register_or_existing (f_localRegistry f) localVec (is_vec CounterK)
              (\<lambda>_. Errorf ''local counter vec %q already registered with different type'' [op_Name opts])
              (Wrapf ''failed to register local counter vec: %w'' []) p of
            (Inl e, p) \<Rightarrow> Return (Inl e, t, p)
          | (Inr localVec, p) \<Rightarrow> Return (Inr \<lparr>cv_tenantUID = f_tenantUID f, cv_local = Some localVec,
              cv_global = Some globalVec\<rparr>, t, p)))"

definition mt_NewGaugeVec :: "mtMetricFactory \<Rightarrow> Opts \<Rightarrow> string list \<Rightarrow> go_error + nat" where
  "mt_NewGaugeVec f opts labelNames = Inl (Errorf ''NewGaugeVec not implemented in CL 3'' [])"

definition mt_NewHistogramVec ::
  "mtMetricFactory \<Rightarrow> HistogramOpts \<Rightarrow> string list \<Rightarrow> GlobalMetricsTracker \<Rightarrow> prom
   \<Rightarrow> ((go_error + mtObserverVec) \<times> GlobalMetricsTracker \<times> prom) outcome" where
  "mt_NewHistogramVec f opts labelNames t p =
     obind (getOrCreateHistogramVec opts labelNames (f_globalReg f) t p) (\<lambda>(r, t, p). case r of
       Inl e \<Rightarrow> Return (Inl (Wrapf ''failed to get/create global histogram vec: %w'' [] e), t, p)
     | Inr globalVec \<Rightarrow>
        (let (localVec, p) = NewHistogramVec opts (labelNames @ [''tenant_uid'']) p
         in case register_or_existing (f_localRegistry f) localVec (is_vec HistogramK)
              (\<lambda>_. Errorf ''local histogram vec %q already registered with different type'' [op_Name (fst opts)])
              (Wrapf ''failed to register local histogram vec: %w'' []) p of
            (Inl e, p) \<Rightarrow> Return (Inl e, t, p)
          | (Inr localVec, p) \<Rightarrow> Return (Inr \<lparr>ov_tenantUID = f_tenantUID f, ov_local = Some localVec,
              ov_global = Some globalVec\<rparr>, t, p)))"

definition mt_NewCounter ::
  "mtMetricFactory \<Rightarrow> Opts \<Rightarrow> GlobalMetricsTracker \<Rightarrow> prom
   \<Rightarrow> ((go_error + mtCounter) \<times> GlobalMetricsTracker \<times> prom) outcome" where
  "mt_NewCounter f opts t p =
     obind (getOrCreateCounter opts (f_globalReg f) t p) (\<lambda>(r, t, p). case r of
       Inl e \<Rightarrow> Return (Inl (Wrapf ''failed to get/create global counter: %w'' [] e), t, p)
     | Inr globalCounter \<Rightarrow>
        (let (localVec, p) = NewCounterVec opts [''tenant_uid''] p
         in case register_or_existing (f_localRegistry f) localVec (is_vec CounterK)
              (Wrapf ''local metric registered but not of type *prometheus.CounterVec: %w'' []) id p of
            (Inl e, p) \<Rightarrow> Return (Inl e, t, p)
          | (Inr localVec, p) \<Rightarrow> obind (WithLabelValues localVec [f_tenantUID f] p) (\<lambda>(c, p).
              Return (Inr \<lparr>c_Counter = Some c, c_global = Some globalCounter\<rparr>, t, p))))"

definition mt_NewGauge :: "mtMetricFactory \<Rightarrow> Opts \<Rightarrow> go_error + nat" where
  "mt_NewGauge f opts = Inl (Errorf ''NewGauge not implemented in CL 3'' [])"

definition mt_NewHistogram ::
  "mtMetricFactory \<Rightarrow> HistogramOpts \<Rightarrow> GlobalMetricsTracker \<Rightarrow> prom
   \<Rightarrow> ((go_error + mtHistogram) \<times> GlobalMetricsTracker \<times> prom) outcome" where
  "mt_NewHistogram f opts t p =
     obind (getOrCreateHistogram opts (f_globalReg f) t p) (\<lambda>(r, t, p). case r of
       Inl e \<Rightarrow> Return (Inl (Wrapf ''failed to get/create global histogram: %w'' [] e), t, p)
     | Inr globalHist \<Rightarrow>
        (let (localVec, p) = NewHistogramVec opts [''tenant_uid''] p
         in case register_or_existing (f_localRegistry f) localVec (is_vec HistogramK)
              (Wrapf ''local metric registered but not of type *prometheus.HistogramVec: %w'' []) id p of
            (Inl e, p) \<Rightarrow> Return (Inl e, t, p)
          | (Inr localVec, p) \<Rightarrow> obind (WithLabelValues localVec [f_tenantUID f] p) (\<lambda>(localObs, p).
              if is_Histogram p localObs
              then Return (Inr \<lparr>h_Histogram = Some localObs, h_global = Some globalHist\<rparr>, t, p)
              else Return (Inl (Errorf ''failed to cast local observer to Histogram'' []), t, p))))"

end
