(* ===== verification/DualEmission.thy ===== *)
theory DualEmission imports Metrics begin

text \<open>
  What the dual-emitting counters of several tenants count: each tenant's local counter records
  that tenant's updates, the shared global counter those of all tenants, in order.
\<close>

section \<open>Children of a set of vectors\<close>

definition child_addr :: "prom \<Rightarrow> nat \<Rightarrow> string list \<Rightarrow> nat option" where
  "child_addr p a lvs = (case p_objects p a of Some (Vec v) \<Rightarrow> map_of (vec_children v) lvs | _ \<Rightarrow> None)"

text \<open>The updates that the child of a vector for some label values has got.\<close>

definition child_log :: "prom \<Rightarrow> nat \<Rightarrow> string list \<Rightarrow> update list" where
  "child_log p a lvs = (case child_addr p a lvs of
     None \<Rightarrow> []
   | Some c \<Rightarrow> (case p_objects p c of Some (Metric m) \<Rightarrow> mt_log m | _ \<Rightarrow> []))"

definition vec_labels :: "prom \<Rightarrow> nat \<Rightarrow> string list option" where
  "vec_labels p a = (case p_objects p a of
     Some (Vec v) \<Rightarrow> if vec_kind v = CounterK then Some (variableLabels (vec_desc v)) else None | _ \<Rightarrow> None)"

definition heap_ok :: "prom \<Rightarrow> bool" where
  "heap_ok p \<longleftrightarrow> (\<forall>a. p_objects p a \<noteq> None \<longrightarrow> a < p_next p)"

text \<open>The vectors \<open>V\<close> are counter vectors whose children are counters of their own.\<close>

definition vecs_ok :: "nat set \<Rightarrow> prom \<Rightarrow> bool" where
  "vecs_ok V p \<longleftrightarrow> heap_ok p \<and> (\<forall>a\<in>V. vec_labels p a \<noteq> None)
     \<and> (\<forall>a\<in>V. \<forall>l c. child_addr p a l = Some c \<longrightarrow>
          (\<exists>m. p_objects p c = Some (Metric m) \<and> mt_kind m = CounterK))
     \<and> (\<forall>a\<in>V. \<forall>b\<in>V. \<forall>l l' c. child_addr p a l = Some c \<longrightarrow> child_addr p b l' = Some c \<longrightarrow> a = b \<and> l = l')"

lemma vecs_okD:
  assumes "vecs_ok V p"
  shows "heap_ok p"
    "a \<in> V \<Longrightarrow> vec_labels p a \<noteq> None"
    "a \<in> V \<Longrightarrow> child_addr p a l = Some c \<Longrightarrow> \<exists>m. p_objects p c = Some (Metric m) \<and> mt_kind m = CounterK"
    "a \<in> V \<Longrightarrow> b \<in> V \<Longrightarrow> child_addr p a l = Some c \<Longrightarrow> child_addr p b l' = Some c \<Longrightarrow> a = b \<and> l = l'"
  using assms unfolding vecs_ok_def by blast+

lemma vec_labels_Vec:
  "vec_labels p a = Some ns \<Longrightarrow> \<exists>v. p_objects p a = Some (Vec v) \<and> vec_kind v = CounterK \<and> variableLabels (vec_desc v) = ns"
  by (auto simp: vec_labels_def split: option.splits collector.splits if_splits)

lemma child_not_vec: "vecs_ok V p \<Longrightarrow> a \<in> V \<Longrightarrow> child_addr p a l = Some c \<Longrightarrow> c \<notin> V"
  using vecs_okD(2,3) vec_labels_Vec by fastforce

text \<open>Getting a child creates it when it is not there, and changes no log.\<close>

lemma with_label_values:
  assumes ok: "vecs_ok V p" and a: "a \<in> V" "vec_labels p a = Some ns"
    and lvs: "validateLabelValues lvs (length ns) = None"
  shows "\<exists>c p'. WithLabelValues a lvs p = Return (c, p') \<and> vecs_ok V p' \<and> child_addr p' a lvs = Some c
    \<and> (\<forall>b\<in>V. vec_labels p' b = vec_labels p b)
    \<and> (\<forall>b\<in>V. \<forall>l. child_log p' b l = child_log p b l)
    \<and> (\<forall>b\<in>V. \<forall>l x. child_addr p b l = Some x \<longrightarrow> child_addr p' b l = Some x)"
proof -
  obtain v where v: "p_objects p a = Some (Vec v)" "vec_kind v = CounterK" "variableLabels (vec_desc v) = ns"
    using vec_labels_Vec [OF a(2)] by blast
  have len: "length lvs = length ns" using lvs by (auto simp: validateLabelValues_def split: if_splits)
  show ?thesis
  proof (cases "map_of (vec_children v) lvs")
    case (Some c)
    then have "WithLabelValues a lvs p = Return (c, p)"
      using v lvs by (simp add: WithLabelValues_def GetMetricWithLabelValues_def)
    then show ?thesis using ok Some v(1) by (simp add: child_addr_def)
  next
    case None
    define m where "m = \<lparr>mt_kind = CounterK, mt_desc = vec_desc v, mt_labels = lvs, mt_log = []\<rparr>"
    define c where "c = p_next p"
    define v' where "v' = v\<lparr>vec_children := vec_children v @ [(lvs, c)]\<rparr>"
    define p' where "p' = set_object a (Vec v') (snd (put (Metric m) p))"
    have W: "WithLabelValues a lvs p = Return (c, p')"
      using v lvs len None
      by (simp add: WithLabelValues_def GetMetricWithLabelValues_def newMetric_def put_def p'_def c_def m_def v'_def)
    have fresh: "p_objects p c = None" "a \<noteq> c" "\<And>x. p_objects p x \<noteq> None \<Longrightarrow> x \<noteq> c"
      using vecs_okD(1) [OF ok] v(1) by (auto simp: heap_ok_def c_def)
    have obs: "p_objects p' x = (if x = a then Some (Vec v') else if x = c then Some (Metric m) else p_objects p x)" for x
      using fresh(2) by (simp add: p'_def put_def set_object_def c_def)
    have caddr: "child_addr p' b l = (if b = a \<and> l = lvs then Some c else child_addr p b l)" if "b \<in> V" for b l
    proof -
      have "b \<noteq> c" using vecs_okD(2) [OF ok that] fresh(1) by (auto simp: vec_labels_def)
      then show ?thesis using obs v(1) None by (auto simp: child_addr_def v'_def map_add_def split: option.splits)
    qed
    have old: "x \<noteq> c \<and> x \<noteq> a" if "b \<in> V" "child_addr p b l = Some x" for b l x
      using vecs_okD(3) [OF ok that] fresh v(1) by auto
    have labels: "vec_labels p' b = vec_labels p b" if "b \<in> V" for b
      using vecs_okD(2) [OF ok that] obs v fresh(1) by (auto simp: vec_labels_def v'_def)
    have "heap_ok p'"
      using vecs_okD(1) [OF ok] v(1) by (auto simp: heap_ok_def obs p'_def put_def set_object_def c_def less_Suc_eq)
    moreover have "\<exists>m. p_objects p' x = Some (Metric m) \<and> mt_kind m = CounterK"
      if "b \<in> V" "child_addr p' b l = Some x" for b l x
      using that vecs_okD(3) [OF ok that(1)] old [OF that(1)] caddr [OF that(1)] obs fresh(2)
      by (auto simp: m_def split: if_splits)
    moreover have "b = d \<and> l = l'"
      if "b \<in> V" "d \<in> V" "child_addr p' b l = Some x" "child_addr p' d l' = Some x" for b d l l' x
      using that caddr [OF that(1), of l] caddr [OF that(2), of l'] old [OF that(1), of l x]
        old [OF that(2), of l' x] vecs_okD(4) [OF ok that(1,2), of l x l']
      by (auto split: if_splits)
    ultimately have "vecs_ok V p'"
      using labels vecs_okD(2) [OF ok] unfolding vecs_ok_def by metis
    moreover have "child_log p' b l = child_log p b l" if "b \<in> V" for b l
      using caddr [OF that, of l] old [OF that, of l] obs fresh(2) None v(1)
      by (auto simp: child_log_def m_def child_addr_def split: option.splits)
    ultimately show ?thesis using W labels caddr a(1) None v(1)
      by (auto simp: child_addr_def)
  qed
qed

text \<open>An update of a child shows in that child's log only.\<close>

lemma update_child:
  assumes ok: "vecs_ok V p" and a: "a \<in> V" "child_addr p a lvs = Some c"
    and u: "case u of Add v \<Rightarrow> \<not> f_neg v | _ \<Rightarrow> True"
  shows "\<exists>p'. metric_update u c p = Return p' \<and> vecs_ok V p'
    \<and> (\<forall>b\<in>V. vec_labels p' b = vec_labels p b)
    \<and> (\<forall>b\<in>V. \<forall>l. child_addr p' b l = child_addr p b l)
    \<and> (\<forall>b\<in>V. \<forall>l. child_log p' b l = (if b = a \<and> l = lvs then child_log p b l @ [u] else child_log p b l))"
proof -
  obtain m where m: "p_objects p c = Some (Metric m)" "mt_kind m = CounterK"
    using vecs_okD(3) [OF ok a] by blast
  define p' where "p' = set_object c (Metric (m\<lparr>mt_log := mt_log m @ [u]\<rparr>)) p"
  have upd: "metric_update u c p = Return p'"
    using m u by (auto simp: metric_update_def p'_def split: update.splits)
  have obs: "p_objects p' x = (if x = c then Some (Metric (m\<lparr>mt_log := mt_log m @ [u]\<rparr>)) else p_objects p x)" for x
    by (simp add: p'_def set_object_def)
  have notc: "b \<noteq> c" if "b \<in> V" for b
    using that child_not_vec [OF ok a] by auto
  have labels: "vec_labels p' b = vec_labels p b" and caddr: "child_addr p' b l = child_addr p b l" if "b \<in> V" for b l
    using notc [OF that] obs by (simp_all add: vec_labels_def child_addr_def)
  have log: "child_log p' b l = (if b = a \<and> l = lvs then child_log p b l @ [u] else child_log p b l)" if "b \<in> V" for b l
  proof (cases "child_addr p b l = Some c")
    case True
    then have "b = a \<and> l = lvs" using vecs_okD(4) [OF ok that a(1) _ a(2)] by blast
    then show ?thesis using True caddr [OF that] obs m by (simp add: child_log_def)
  next
    case False
    then have "\<not> (b = a \<and> l = lvs)" using a by auto
    then show ?thesis using False caddr [OF that] obs by (auto simp: child_log_def split: option.splits)
  qed
  have "heap_ok p'" using vecs_okD(1) [OF ok] m(1) obs by (auto simp: heap_ok_def p'_def set_object_def)
  moreover have "\<exists>m. p_objects p' x = Some (Metric m) \<and> mt_kind m = CounterK"
    if "b \<in> V" "child_addr p b l = Some x" for b l x
    using vecs_okD(3) [OF ok that] obs m(2) by auto
  ultimately have "vecs_ok V p'"
    using ok labels caddr unfolding vecs_ok_def by (metis (no_types, lifting))
  then show ?thesis using upd labels caddr log by blast
qed


section \<open>Runs of updates by several tenants\<close>

text \<open>
  One update by a tenant's code: the counter for the label values, then \<open>Inc\<close> (\<open>None\<close>) or
  \<open>Add v\<close>. A run is a sequence of updates, each by the tenant with the given number.
\<close>

definition count_on :: "mtCounterVec \<Rightarrow> string list \<Rightarrow> float64 option \<Rightarrow> prom \<Rightarrow> prom outcome" where
  "count_on v lvs u p = obind (mtCounterVec_WithLabelValues v lvs p) (\<lambda>(c, p).
     case u of None \<Rightarrow> mtCounter_Inc c p | Some x \<Rightarrow> mtCounter_Add c x p)"

primrec count_run :: "mtCounterVec list \<Rightarrow> (nat \<times> string list \<times> float64 option) list \<Rightarrow> prom \<Rightarrow> prom outcome" where
  "count_run vs [] p = Return p"
| "count_run vs (x # xs) p =
     (case x of (i, lvs, u) \<Rightarrow> obind (count_on (vs ! i) lvs u p) (count_run vs xs))"

definition as_update :: "float64 option \<Rightarrow> update" where
  "as_update u = (case u of None \<Rightarrow> Inc | Some x \<Rightarrow> Add x)"

text \<open>An update a counter accepts: the label values fit the labels, and nothing negative is added.\<close>

definition acceptable :: "nat \<Rightarrow> nat \<Rightarrow> nat \<times> string list \<times> float64 option \<Rightarrow> bool" where
  "acceptable tenants labels x = (case x of (i, lvs, u) \<Rightarrow>
     i < tenants \<and> validateLabelValues lvs labels = None \<and> (case u of None \<Rightarrow> True | Some v \<Rightarrow> \<not> f_neg v))"

text \<open>The vectors of tenants that share the global one: \<open>g\<close> is the global vector, with labels \<open>ns\<close>.\<close>

definition sharing :: "nat \<Rightarrow> string list \<Rightarrow> mtCounterVec list \<Rightarrow> prom \<Rightarrow> bool" where
  "sharing g ns vs p \<longleftrightarrow> vec_labels p g = Some ns
     \<and> (\<forall>v\<in>set vs. cv_global v = Some g \<and> ValidString (cv_tenantUID v)
          \<and> (\<exists>a. cv_local v = Some a \<and> a \<noteq> g \<and> vec_labels p a = Some (ns @ [''tenant_uid''])))
     \<and> distinct (map cv_local vs)"

definition vec_set :: "nat \<Rightarrow> mtCounterVec list \<Rightarrow> nat set" where
  "vec_set g vs = insert g {a. Some a \<in> cv_local ` set vs}"

lemma validate_snoc:
  assumes "validateLabelValues lvs n = None" "ValidString s"
  shows "validateLabelValues (lvs @ [s]) (Suc n) = None"
  using assms by (auto simp: validateLabelValues_def find_None_iff split: if_splits option.splits)

lemma mt_add_inc: "(case u of None \<Rightarrow> mtCounter_Inc c p | Some x \<Rightarrow> mtCounter_Add c x p)
    = obind (update_unless_nil (as_update u) (c_Counter c) p) (update_unless_nil (as_update u) (c_global c))"
  by (simp add: mtCounter_Inc_def mtCounter_Add_def as_update_def split: option.splits)

lemma count_on_logs:
  assumes ok: "vecs_ok (vec_set g vs) p" and sh: "sharing g ns vs p"
    and v: "v \<in> set vs" "cv_local v = Some a"
    and lvs: "validateLabelValues lvs (length ns) = None"
    and u: "case u of None \<Rightarrow> True | Some x \<Rightarrow> \<not> f_neg x"
  shows "\<exists>q. count_on v lvs u p = Return q \<and> vecs_ok (vec_set g vs) q \<and> sharing g ns vs q
    \<and> (\<forall>b\<in>vec_set g vs. \<forall>l. child_log q b l =
         (if b = g \<and> l = lvs \<or> b = a \<and> l = lvs @ [cv_tenantUID v]
          then child_log p b l @ [as_update u] else child_log p b l))"
proof -
  let ?V = "vec_set g vs" and ?ll = "lvs @ [cv_tenantUID v]"
  have a: "a \<in> ?V" "vec_labels p a = Some (ns @ [''tenant_uid''])" "a \<noteq> g" "cv_global v = Some g"
    "ValidString (cv_tenantUID v)"
    using sh v by (force simp: sharing_def vec_set_def)+
  have g: "g \<in> ?V" "vec_labels p g = Some ns"
    using sh by (auto simp: sharing_def vec_set_def)
  have vl: "validateLabelValues ?ll (length (ns @ [''tenant_uid''])) = None"
    using validate_snoc [OF lvs a(5)] by simp
  obtain c1 p1 where 1: "WithLabelValues a ?ll p = Return (c1, p1)" "vecs_ok ?V p1" "child_addr p1 a ?ll = Some c1"
    "\<forall>b\<in>?V. vec_labels p1 b = vec_labels p b" "\<forall>b\<in>?V. \<forall>l. child_log p1 b l = child_log p b l"
    using with_label_values [OF ok a(1,2) vl] by blast
  have g1: "vec_labels p1 g = Some ns" using 1(4) g by simp
  obtain c2 p2 where 2: "WithLabelValues g lvs p1 = Return (c2, p2)" "vecs_ok ?V p2" "child_addr p2 g lvs = Some c2"
    "\<forall>b\<in>?V. vec_labels p2 b = vec_labels p1 b" "\<forall>b\<in>?V. \<forall>l. child_log p2 b l = child_log p1 b l"
    "\<forall>b\<in>?V. \<forall>l x. child_addr p1 b l = Some x \<longrightarrow> child_addr p2 b l = Some x"
    using with_label_values [OF 1(2) g(1) g1 lvs] by blast
  have u': "case as_update u of Add v \<Rightarrow> \<not> f_neg v | _ \<Rightarrow> True"
    using u by (simp add: as_update_def split: option.splits)
  have c1: "child_addr p2 a ?ll = Some c1" using 2(6) a(1) 1(3) by blast
  obtain p3 where 3: "metric_update (as_update u) c1 p2 = Return p3" "vecs_ok ?V p3"
    "\<forall>b\<in>?V. vec_labels p3 b = vec_labels p2 b" "\<forall>b\<in>?V. \<forall>l. child_addr p3 b l = child_addr p2 b l"
    "\<forall>b\<in>?V. \<forall>l. child_log p3 b l = (if b = a \<and> l = ?ll then child_log p2 b l @ [as_update u] else child_log p2 b l)"
    using update_child [OF 2(2) a(1) c1 u'] by blast
  have c2: "child_addr p3 g lvs = Some c2" using 3(4) g(1) 2(3) by simp
  obtain p4 where 4: "metric_update (as_update u) c2 p3 = Return p4" "vecs_ok ?V p4"
    "\<forall>b\<in>?V. vec_labels p4 b = vec_labels p3 b"
    "\<forall>b\<in>?V. \<forall>l. child_log p4 b l = (if b = g \<and> l = lvs then child_log p3 b l @ [as_update u] else child_log p3 b l)"
    using update_child [OF 3(2) g(1) c2 u'] by blast
  have "count_on v lvs u p = Return p4"
    using 1(1) 2(1) 3(1) 4(1) v(2) a(4)
    by (simp add: count_on_def mt_add_inc mtCounterVec_WithLabelValues_def child_unless_nil_def update_unless_nil_def)
  moreover have labels: "\<forall>b\<in>?V. vec_labels p4 b = vec_labels p b" using 1(4) 2(4) 3(3) 4(3) by simp
  moreover have "sharing g ns vs p4"
    using sh labels by (fastforce simp: sharing_def vec_set_def image_iff)
  moreover have "child_log p4 b l = (if b = g \<and> l = lvs \<or> b = a \<and> l = ?ll
      then child_log p b l @ [as_update u] else child_log p b l)" if "b \<in> ?V" for b l
    using that 1(5) 2(5) 3(5) 4(4) a(3) by auto
  ultimately show ?thesis using 4(2) by blast
qed

lemma count_run_logs:
  assumes "vecs_ok (vec_set g vs) p" "sharing g ns vs p" "\<forall>x\<in>set xs. acceptable (length vs) (length ns) x"
  shows "\<exists>q. count_run vs xs p = Return q
    \<and> (\<forall>l. child_log q g l = child_log p g l @ map (\<lambda>(i, l, u). as_update u) (filter (\<lambda>(i, l', u). l' = l) xs))
    \<and> (\<forall>i<length vs. \<forall>a l. cv_local (vs ! i) = Some a \<longrightarrow>
         child_log q a (l @ [cv_tenantUID (vs ! i)]) = child_log p a (l @ [cv_tenantUID (vs ! i)])
           @ map (\<lambda>(i, l, u). as_update u) (filter (\<lambda>(j, l', u). j = i \<and> l' = l) xs))"
  using assms
proof (induction xs arbitrary: p)
  case (Cons x xs)
  obtain i lvs u where x: "x = (i, lvs, u)" by (cases x)
  have acc: "i < length vs" "validateLabelValues lvs (length ns) = None" "case u of None \<Rightarrow> True | Some x \<Rightarrow> \<not> f_neg x"
    using Cons.prems(3) x by (auto simp: acceptable_def)
  have v: "vs ! i \<in> set vs" using acc(1) by simp
  then obtain a where a: "cv_local (vs ! i) = Some a" "a \<noteq> g"
    using Cons.prems(2) by (auto simp: sharing_def)
  obtain p1 where 1: "count_on (vs ! i) lvs u p = Return p1" "vecs_ok (vec_set g vs) p1" "sharing g ns vs p1"
    "\<forall>b\<in>vec_set g vs. \<forall>l. child_log p1 b l =
         (if b = g \<and> l = lvs \<or> b = a \<and> l = lvs @ [cv_tenantUID (vs ! i)]
          then child_log p b l @ [as_update u] else child_log p b l)"
    using count_on_logs [OF Cons.prems(1,2) v a(1) acc(2,3)] by blast
  obtain q where q: "count_run vs xs p1 = Return q"
    "\<forall>l. child_log q g l = child_log p1 g l @ map (\<lambda>(i, l, u). as_update u) (filter (\<lambda>(i, l', u). l' = l) xs)"
    "\<forall>i<length vs. \<forall>a l. cv_local (vs ! i) = Some a \<longrightarrow>
         child_log q a (l @ [cv_tenantUID (vs ! i)]) = child_log p1 a (l @ [cv_tenantUID (vs ! i)])
           @ map (\<lambda>(i, l, u). as_update u) (filter (\<lambda>(j, l', u). j = i \<and> l' = l) xs)"
    using Cons.IH [OF 1(2,3)] Cons.prems(3) by auto
  have gV: "g \<in> vec_set g vs" by (simp add: vec_set_def)
  have "child_log q g l = child_log p g l @ map (\<lambda>(i, l, u). as_update u) (filter (\<lambda>(i, l', u). l' = l) (x # xs))" for l
    using q(2) 1(4) gV a(2) x by auto
  moreover have "child_log q b (l @ [cv_tenantUID (vs ! j)]) = child_log p b (l @ [cv_tenantUID (vs ! j)])
      @ map (\<lambda>(i, l, u). as_update u) (filter (\<lambda>(k, l', u). k = j \<and> l' = l) (x # xs))"
    if j: "j < length vs" "cv_local (vs ! j) = Some b" for j b l
  proof -
    have bV: "b \<in> vec_set g vs" using imageI [OF nth_mem [OF j(1)], of cv_local] j(2) by (simp add: vec_set_def)
    have "b \<noteq> g" using Cons.prems(2) nth_mem [OF j(1)] j(2) by (auto simp: sharing_def dest!: bspec)
    have "b = a \<longleftrightarrow> j = i"
    proof -
      have "distinct (map cv_local vs)" using Cons.prems(2) by (simp add: sharing_def)
      then have "map cv_local vs ! j = map cv_local vs ! i \<longleftrightarrow> j = i"
        using j(1) acc(1) by (intro nth_eq_iff_index_eq) simp_all
      then show ?thesis using j a(1) acc(1) by simp
    qed
    then show ?thesis using q(3) j 1(4) bV \<open>b \<noteq> g\<close> x by auto
  qed
  ultimately show ?case using q(1) 1(1) x by simp
qed simp


section \<open>Creation of the vectors\<close>

text \<open>The factories of several tenants, and a counter vector made by each, with the same options.\<close>

primrec new_factories :: "string list \<Rightarrow> nat \<Rightarrow> prom \<Rightarrow> mtMetricFactory list \<times> prom" where
  "new_factories [] g p = ([], p)"
| "new_factories (uid # uids) g p =
     (let (f, p) = NewMTMetricFactory uid g p; (fs, p) = new_factories uids g p in (f # fs, p))"

primrec new_vecs ::
  "mtMetricFactory list \<Rightarrow> Opts \<Rightarrow> string list \<Rightarrow> GlobalMetricsTracker \<Rightarrow> prom
   \<Rightarrow> ((go_error + mtCounterVec list) \<times> GlobalMetricsTracker \<times> prom) outcome" where
  "new_vecs [] opts names t p = Return (Inr [], t, p)"
| "new_vecs (f # fs) opts names t p = obind (mt_NewCounterVec f opts names t p) (\<lambda>(r, t, p). case r of
     Inl e \<Rightarrow> Return (Inl e, t, p)
   | Inr v \<Rightarrow> obind (new_vecs fs opts names t p) (\<lambda>(r, t, p). case r of
       Inl e \<Rightarrow> Return (Inl e, t, p)
     | Inr vs \<Rightarrow> Return (Inr (v # vs), t, p)))"

lemma new_factories_props:
  "new_factories uids g p = (fs, q) \<Longrightarrow> map f_tenantUID fs = uids \<and> (\<forall>f\<in>set fs. f_globalReg f = g)
     \<and> distinct (map f_localRegistry fs) \<and> (\<forall>f\<in>set fs. p_next p \<le> f_localRegistry f \<and> f_localRegistry f < p_next q)
     \<and> (\<forall>f\<in>set fs. p_registries q (f_localRegistry f) = empty_registry)
     \<and> (\<forall>r<p_next p. p_registries q r = p_registries p r) \<and> p_objects q = p_objects p \<and> p_next p \<le> p_next q"
proof (induction uids arbitrary: p fs)
  case (Cons uid uids)
  obtain f p1 fs' where f: "NewMTMetricFactory uid g p = (f, p1)" "new_factories uids g p1 = (fs', q)" "fs = f # fs'"
    using Cons.prems by (auto simp: Let_def split: prod.splits)
  have p1: "f_tenantUID f = uid" "f_globalReg f = g" "f_localRegistry f = p_next p" "p_next p1 = Suc (p_next p)"
    "p_objects p1 = p_objects p" "p_registries p1 = (p_registries p)(p_next p := empty_registry)"
    using f(1) by (auto simp: NewMTMetricFactory_def NewRegistry_def Let_def)
  note IH = Cons.IH [OF f(2)]
  have "p_registries q (f_localRegistry f) = empty_registry"
    using IH p1 by simp
  then show ?case using IH p1 f(3) by (fastforce simp del: fun_upd_apply simp: fun_upd_def)
qed simp

text \<open>The state in which the global vector of the options is still to be made, or is there, unused.\<close>

definition global_ready :: "Opts \<Rightarrow> string list \<Rightarrow> nat \<Rightarrow> GlobalMetricsTracker \<Rightarrow> prom \<Rightarrow> bool" where
  "global_ready opts names G t p \<longleftrightarrow>
     (collectors t (opts_key opts) = None \<and> metricLabels t (opts_key opts) = None \<and> p_registries p G = empty_registry)"

definition global_made :: "Opts \<Rightarrow> string list \<Rightarrow> nat \<Rightarrow> GlobalMetricsTracker \<Rightarrow> prom \<Rightarrow> bool" where
  "global_made opts names g t p \<longleftrightarrow>
     collectors t (opts_key opts) = Some g \<and> metricLabels t (opts_key opts) = Some names
     \<and> p_objects p g = Some (Vec \<lparr>vec_kind = CounterK, vec_desc = opts_desc opts names, vec_buckets = [], vec_children = []\<rparr>)"

lemma opts_desc_simps [simp]:
  "fqName (opts_desc opts names) = opts_key opts" "variableLabels (opts_desc opts names) = names"
  by (auto simp: opts_desc_def NewDesc_def opts_key_def Let_def split: option.splits if_splits)

lemma Register_empty:
  assumes "p_registries p r = empty_registry" "p_objects p a = Some c" "desc_err (collector_desc c) = None"
  shows "\<exists>reg. Register r a p = (None, p\<lparr>p_registries := (p_registries p)(r := reg)\<rparr>)"
  using assms by (auto simp: Register_def empty_registry_def Let_def)

lemma register_fresh_vec:
  assumes "p_registries p r = empty_registry" "desc_err (opts_desc opts names) = None"
    and "NewCounterVec opts names p = (a, p1)"
  shows "\<exists>reg. register_or_existing r a T mismatch other p1 = (Inr a, p1\<lparr>p_registries := (p_registries p1)(r := reg)\<rparr>)"
proof -
  have "p_registries p1 r = empty_registry"
    "p_objects p1 a = Some (Vec \<lparr>vec_kind = CounterK, vec_desc = opts_desc opts names, vec_buckets = [], vec_children = []\<rparr>)"
    using assms(1,3) by (auto simp: NewCounterVec_def put_def)
  then show ?thesis
    using Register_empty [of p1 r a] assms(2) by (fastforce simp: register_or_existing_def collector_desc_def)
qed

text \<open>The first tenant makes the global vector; the others find it.\<close>

lemma global_vec:
  assumes "heap_ok p" and valid: "desc_err (opts_desc opts names) = None"
    and st: "global_ready opts names G t p \<or> global_made opts names g t p"
  shows "\<exists>g' t' p'. getOrCreateCounterVec opts names G t p = Return (Inr g', t', p') \<and> heap_ok p'
    \<and> global_made opts names g' t' p' \<and> (global_made opts names g t p \<longrightarrow> g' = g) \<and> p_next p \<le> p_next p'
    \<and> (\<forall>r. r \<noteq> G \<longrightarrow> p_registries p' r = p_registries p r)
    \<and> (\<forall>a<p_next p. p_objects p' a = p_objects p a)"
proof (cases "global_made opts names g t p")
  case True
  then have "getOrCreateCounterVec opts names G t p = Return (Inr g, t, p)"
    by (simp add: getOrCreateCounterVec_def getOrCreate_def validateLabelsLocked_def global_made_def is_vec_def)
  then show ?thesis using True assms(1) by blast
next
  case False
  then have ready: "collectors t (opts_key opts) = None" "metricLabels t (opts_key opts) = None"
    "p_registries p G = empty_registry"
    using st by (auto simp: global_ready_def)
  obtain a p1 where new: "NewCounterVec opts names p = (a, p1)" by fastforce
  obtain reg where reg: "register_or_existing G a (is_vec CounterK)
      (Wrapf ''metric registered but not of type *prometheus.CounterVec: %w'' []) id p1
      = (Inr a, p1\<lparr>p_registries := (p_registries p1)(G := reg)\<rparr>)"
    using register_fresh_vec [OF ready(3) valid new] by blast
  let ?t = "t\<lparr>metricLabels := (metricLabels t)(opts_key opts \<mapsto> names), collectors := (collectors t)(opts_key opts \<mapsto> a)\<rparr>"
  let ?p = "p1\<lparr>p_registries := (p_registries p1)(G := reg)\<rparr>"
  have "getOrCreateCounterVec opts names G t p = Return (Inr a, ?t, ?p)"
    using ready new reg by (simp add: getOrCreateCounterVec_def getOrCreate_def validateLabelsLocked_def)
  moreover have "global_made opts names a ?t ?p" "heap_ok ?p" "p_next p \<le> p_next ?p"
    "\<forall>r. r \<noteq> G \<longrightarrow> p_registries ?p r = p_registries p r" "\<forall>b<p_next p. p_objects ?p b = p_objects p b"
    using new assms(1) by (auto simp: global_made_def NewCounterVec_def put_def heap_ok_def less_Suc_eq)
  ultimately show ?thesis using False by blast
qed

definition unused_vec :: "Opts \<Rightarrow> string list \<Rightarrow> collector" where
  "unused_vec opts names = Vec \<lparr>vec_kind = CounterK, vec_desc = opts_desc opts names, vec_buckets = [], vec_children = []\<rparr>"

lemma tenant_vec:
  assumes ok: "heap_ok p" and valid: "desc_err (opts_desc opts names) = None"
      "desc_err (opts_desc opts (names @ [''tenant_uid''])) = None"
    and st: "global_ready opts names G t p \<or> global_made opts names g t p"
    and f: "f_globalReg f = G" "f_localRegistry f \<noteq> G" "p_registries p (f_localRegistry f) = empty_registry"
  shows "\<exists>a g' t' p'. mt_NewCounterVec f opts names t p
       = Return (Inr \<lparr>cv_tenantUID = f_tenantUID f, cv_local = Some a, cv_global = Some g'\<rparr>, t', p')
    \<and> heap_ok p' \<and> global_made opts names g' t' p' \<and> (global_made opts names g t p \<longrightarrow> g' = g)
    \<and> p_objects p' a = Some (unused_vec opts (names @ [''tenant_uid'']))
    \<and> a \<noteq> g' \<and> p_next p \<le> a \<and> a < p_next p' \<and> g' < p_next p' \<and> p_next p \<le> p_next p'
    \<and> (\<forall>r. r \<noteq> G \<longrightarrow> r \<noteq> f_localRegistry f \<longrightarrow> p_registries p' r = p_registries p r)
    \<and> (\<forall>x<p_next p. p_objects p' x = p_objects p x)"
proof -
  obtain g' t' p1 where 1: "getOrCreateCounterVec opts names G t p = Return (Inr g', t', p1)" "heap_ok p1"
    "global_made opts names g' t' p1" "global_made opts names g t p \<longrightarrow> g' = g" "p_next p \<le> p_next p1"
    "\<forall>r. r \<noteq> G \<longrightarrow> p_registries p1 r = p_registries p r" "\<forall>a<p_next p. p_objects p1 a = p_objects p a"
    using global_vec [OF ok valid(1) st] by blast
  obtain a p2 where new: "NewCounterVec opts (names @ [''tenant_uid'']) p1 = (a, p2)" by fastforce
  have a: "a = p_next p1" "p_next p2 = Suc (p_next p1)" "p_registries p2 = p_registries p1"
    "\<forall>x. p_objects p2 x = (if x = a then Some (unused_vec opts (names @ [''tenant_uid''])) else p_objects p1 x)"
    using new by (auto simp: NewCounterVec_def put_def unused_vec_def)
  have empty: "p_registries p1 (f_localRegistry f) = empty_registry" using 1(6) f(2,3) by simp
  obtain reg where reg: "register_or_existing (f_localRegistry f) a (is_vec CounterK)
      (\<lambda>_. Errorf ''local counter vec %q already registered with different type'' [op_Name opts])
      (Wrapf ''failed to register local counter vec: %w'' []) p2
      = (Inr a, p2\<lparr>p_registries := (p_registries p2)(f_localRegistry f := reg)\<rparr>)"
    using register_fresh_vec [OF empty valid(2) new] by blast
  let ?p = "p2\<lparr>p_registries := (p_registries p2)(f_localRegistry f := reg)\<rparr>"
  have g': "p_objects p1 g' \<noteq> None" using 1(3) by (simp add: global_made_def)
  then have "g' < p_next p1" using 1(2) by (auto simp: heap_ok_def)
  moreover have "mt_NewCounterVec f opts names t p
       = Return (Inr \<lparr>cv_tenantUID = f_tenantUID f, cv_local = Some a, cv_global = Some g'\<rparr>, t', ?p)"
    using 1(1) new reg f(1) by (simp add: mt_NewCounterVec_def)
  moreover have "heap_ok ?p" using 1(2) a by (auto simp: heap_ok_def less_Suc_eq)
  moreover have "global_made opts names g' t' ?p" using 1(3) a g' \<open>g' < p_next p1\<close> by (simp add: global_made_def)
  moreover have "\<forall>r. r \<noteq> G \<longrightarrow> r \<noteq> f_localRegistry f \<longrightarrow> p_registries ?p r = p_registries p r"
    using 1(6) a(3) by simp
  moreover have "\<forall>x<p_next p. p_objects ?p x = p_objects p x" using 1(5,7) a by auto
  moreover have "p_objects ?p a = Some (unused_vec opts (names @ [''tenant_uid'']))" using a by simp
  moreover have "p_next p \<le> a" "a < p_next ?p" "p_next p \<le> p_next ?p" "g' < p_next ?p" "a \<noteq> g'"
    using 1(5) a \<open>g' < p_next p1\<close> by simp_all
  ultimately show ?thesis using 1(4) by blast
qed

lemma new_vecs_made:
  assumes valid: "desc_err (opts_desc opts names) = None"
      "desc_err (opts_desc opts (names @ [''tenant_uid''])) = None"
  shows "heap_ok p \<Longrightarrow> global_ready opts names G t p \<or> global_made opts names g t p \<Longrightarrow>
    (\<forall>f\<in>set fs. f_globalReg f = G \<and> f_localRegistry f \<noteq> G \<and> p_registries p (f_localRegistry f) = empty_registry) \<Longrightarrow>
    distinct (map f_localRegistry fs) \<Longrightarrow>
    \<exists>vs g' t' p'. new_vecs fs opts names t p = Return (Inr vs, t', p') \<and> heap_ok p'
      \<and> map cv_tenantUID vs = map f_tenantUID fs
      \<and> (fs \<noteq> [] \<longrightarrow> global_made opts names g' t' p') \<and> (global_made opts names g t p \<longrightarrow> global_made opts names g t' p' \<and> g' = g)
      \<and> (\<forall>v\<in>set vs. \<exists>a. cv_local v = Some a \<and> cv_global v = Some g' \<and> a \<noteq> g' \<and> p_next p \<le> a \<and> a < p_next p'
           \<and> p_objects p' a = Some (unused_vec opts (names @ [''tenant_uid''])))
      \<and> distinct (map cv_local vs) \<and> p_next p \<le> p_next p' \<and> (\<forall>x<p_next p. p_objects p' x = p_objects p x)"
proof (induction fs arbitrary: t p g)
  case Nil
  then show ?case by auto
next
  case (Cons f fs)
  have f: "f_globalReg f = G" "f_localRegistry f \<noteq> G" "p_registries p (f_localRegistry f) = empty_registry"
    using Cons.prems(3) by auto
  obtain a g1 t1 p1 where 1: "mt_NewCounterVec f opts names t p
       = Return (Inr \<lparr>cv_tenantUID = f_tenantUID f, cv_local = Some a, cv_global = Some g1\<rparr>, t1, p1)"
    "heap_ok p1" "global_made opts names g1 t1 p1" "global_made opts names g t p \<longrightarrow> g1 = g"
    "p_objects p1 a = Some (unused_vec opts (names @ [''tenant_uid'']))"
    "a \<noteq> g1" "p_next p \<le> a" "a < p_next p1" "g1 < p_next p1" "p_next p \<le> p_next p1"
    "\<forall>r. r \<noteq> G \<longrightarrow> r \<noteq> f_localRegistry f \<longrightarrow> p_registries p1 r = p_registries p r"
    "\<forall>x<p_next p. p_objects p1 x = p_objects p x"
    using tenant_vec [OF Cons.prems(1) valid Cons.prems(2) f] by blast
  have fs: "\<forall>f\<in>set fs. f_globalReg f = G \<and> f_localRegistry f \<noteq> G \<and> p_registries p1 (f_localRegistry f) = empty_registry"
  proof
    fix f' assume f': "f' \<in> set fs"
    then have "f_localRegistry f' \<noteq> f_localRegistry f"
      using Cons.prems(4) by (metis distinct.simps(2) image_eqI list.set_map list.simps(9))
    then show "f_globalReg f' = G \<and> f_localRegistry f' \<noteq> G \<and> p_registries p1 (f_localRegistry f') = empty_registry"
      using Cons.prems(3) 1(11) f' by simp
  qed
  obtain vs g' t' p' where 2: "new_vecs fs opts names t1 p1 = Return (Inr vs, t', p')" "heap_ok p'"
    "map cv_tenantUID vs = map f_tenantUID fs" "global_made opts names g1 t' p'" "g' = g1"
    "\<forall>v\<in>set vs. \<exists>a. cv_local v = Some a \<and> cv_global v = Some g' \<and> a \<noteq> g' \<and> p_next p1 \<le> a \<and> a < p_next p'
           \<and> p_objects p' a = Some (unused_vec opts (names @ [''tenant_uid'']))"
    "distinct (map cv_local vs)" "p_next p1 \<le> p_next p'" "\<forall>x<p_next p1. p_objects p' x = p_objects p1 x"
    using Cons.IH [OF 1(2) disjI2 [OF 1(3)] fs] Cons.prems(4) 1(3) by auto
  let ?v = "\<lparr>cv_tenantUID = f_tenantUID f, cv_local = Some a, cv_global = Some g1\<rparr>"
  have "new_vecs (f # fs) opts names t p = Return (Inr (?v # vs), t', p')"
    using 1(1) 2(1) by simp
  moreover have "Some a \<notin> set (map cv_local vs)" using 2(6) 1(8) by fastforce
  then have "distinct (map cv_local (?v # vs))" using 2(7) by simp
  moreover have "\<forall>v\<in>set (?v # vs). \<exists>a. cv_local v = Some a \<and> cv_global v = Some g1 \<and> a \<noteq> g1 \<and> p_next p \<le> a
      \<and> a < p_next p' \<and> p_objects p' a = Some (unused_vec opts (names @ [''tenant_uid'']))"
  proof
    fix v assume "v \<in> set (?v # vs)"
    then consider "v = ?v" | "v \<in> set vs" by auto
    then show "\<exists>a. cv_local v = Some a \<and> cv_global v = Some g1 \<and> a \<noteq> g1 \<and> p_next p \<le> a
      \<and> a < p_next p' \<and> p_objects p' a = Some (unused_vec opts (names @ [''tenant_uid'']))"
    proof cases
      case 1
      then show ?thesis using 2(8,9) \<open>p_objects p1 a = _\<close> \<open>a \<noteq> g1\<close> \<open>p_next p \<le> a\<close> \<open>a < p_next p1\<close> by simp
    next
      case 2
      then show ?thesis using \<open>\<forall>v\<in>set vs. _\<close> \<open>g' = g1\<close> \<open>p_next p \<le> p_next p1\<close> by fastforce
    qed
  qed
  moreover have "map cv_tenantUID (?v # vs) = map f_tenantUID (f # fs)" using 2(3) by simp
  moreover have "\<forall>x<p_next p. p_objects p' x = p_objects p x" "p_next p \<le> p_next p'"
    using 1(10,12) 2(8,9) by auto
  moreover have "global_made opts names g t p \<longrightarrow> global_made opts names g t' p' \<and> g1 = g"
    using 1(4) 2(4) by blast
  ultimately show ?case using 2(2,4) by blast
qed

text \<open>The process at its start: a global registry, a tracker, a factory for each tenant.\<close>

definition empty_prom :: prom where
  "empty_prom = \<lparr>p_next = 0, p_objects = (\<lambda>_. None), p_registries = (\<lambda>_. empty_registry)\<rparr>"

definition tenants_setup ::
  "string list \<Rightarrow> Opts \<Rightarrow> string list \<Rightarrow> ((go_error + mtCounterVec list) \<times> GlobalMetricsTracker \<times> prom) outcome" where
  "tenants_setup uids opts names =
     (let (G, p) = NewRegistry empty_prom; (fs, p) = new_factories uids G p
      in new_vecs fs opts names NewGlobalMetricsTracker p)"

lemma tenants_setup_sharing:
  assumes valid: "desc_err (opts_desc opts names) = None"
      "desc_err (opts_desc opts (names @ [''tenant_uid''])) = None"
    and uids: "uids \<noteq> []" "\<forall>u\<in>set uids. ValidString u"
  shows "\<exists>vs t p g. tenants_setup uids opts names = Return (Inr vs, t, p) \<and> map cv_tenantUID vs = uids
    \<and> sharing g names vs p \<and> vecs_ok (vec_set g vs) p \<and> (\<forall>a\<in>vec_set g vs. \<forall>l. child_addr p a l = None)"
proof -
  obtain fs p1 where fs: "new_factories uids 0 (snd (NewRegistry empty_prom)) = (fs, p1)" by fastforce
  note F = new_factories_props [OF fs]
  have start: "p_next (snd (NewRegistry empty_prom)) = 1" "p_objects (snd (NewRegistry empty_prom)) = (\<lambda>_. None)"
    "p_registries (snd (NewRegistry empty_prom)) 0 = empty_registry"
    by (simp_all add: NewRegistry_def empty_prom_def)
  have "heap_ok p1" using F start by (simp add: heap_ok_def)
  moreover have "global_ready opts names 0 NewGlobalMetricsTracker p1"
    using F start by (simp add: global_ready_def NewGlobalMetricsTracker_def)
  moreover have "\<forall>f\<in>set fs. f_globalReg f = 0 \<and> f_localRegistry f \<noteq> 0 \<and> p_registries p1 (f_localRegistry f) = empty_registry"
    using F start(1) by auto
  ultimately obtain vs g t p where v0: "new_vecs fs opts names NewGlobalMetricsTracker p1 = Return (Inr vs, t, p)" "heap_ok p"
    "map cv_tenantUID vs = map f_tenantUID fs" "fs \<noteq> [] \<longrightarrow> global_made opts names g t p"
    "\<forall>v\<in>set vs. \<exists>a. cv_local v = Some a \<and> cv_global v = Some g \<and> a \<noteq> g \<and> p_next p1 \<le> a \<and> a < p_next p
           \<and> p_objects p a = Some (unused_vec opts (names @ [''tenant_uid'']))"
    "distinct (map cv_local vs)"
    using new_vecs_made [OF valid, of p1 0 NewGlobalMetricsTracker 0 fs] F by auto
  have v: "new_vecs fs opts names NewGlobalMetricsTracker p1 = Return (Inr vs, t, p)" "heap_ok p"
    "map cv_tenantUID vs = map f_tenantUID fs" "fs \<noteq> [] \<longrightarrow> global_made opts names g t p"
    "\<forall>v\<in>set vs. \<exists>a. cv_local v = Some a \<and> cv_global v = Some g \<and> a \<noteq> g
           \<and> p_objects p a = Some (unused_vec opts (names @ [''tenant_uid'']))"
    "distinct (map cv_local vs)"
    using v0 by fastforce+
  have uid: "map cv_tenantUID vs = uids" "fs \<noteq> []" using v(3) F uids(1) by auto
  have g: "p_objects p g = Some (unused_vec opts names)"
    using v(4) uid(2) by (simp add: global_made_def unused_vec_def)
  have V: "\<exists>ns. p_objects p a = Some (unused_vec opts ns)" if aV: "a \<in> vec_set g vs" for a
  proof (cases "a = g")
    case False
    then obtain w where "w \<in> set vs" "cv_local w = Some a" using aV by (auto simp: vec_set_def image_iff dest: sym)
    then show ?thesis using v(5) by fastforce
  qed (use g in blast)
  have none: "\<forall>a\<in>vec_set g vs. \<forall>l. child_addr p a l = None"
    using V by (fastforce simp: child_addr_def unused_vec_def)
  have "\<forall>a\<in>vec_set g vs. vec_labels p a \<noteq> None"
    using V by (fastforce simp: vec_labels_def unused_vec_def)
  then have "vecs_ok (vec_set g vs) p" using none v(2) by (simp add: vecs_ok_def)
  moreover have "\<forall>v\<in>set vs. ValidString (cv_tenantUID v)"
    using uids(2) uid(1) by (metis image_eqI image_set)
  then have "sharing g names vs p"
    using g v(5,6) by (fastforce simp: sharing_def vec_labels_def unused_vec_def)
  moreover have "tenants_setup uids opts names = Return (Inr vs, t, p)"
    using v(1) fs by (simp add: tenants_setup_def NewRegistry_def empty_prom_def)
  ultimately show ?thesis using uid(1) none by blast
qed

section \<open>The property\<close>

text \<open>C4.
  Dual emission. Tenants with factories that share a tracker and a global registry all make a
  counter vector with the same options: this succeeds for each, all are given the same global
  vector, and after any sequence of \<open>Inc\<close> and \<open>Add\<close> by the tenants, in any interleaving and with
  any label values, the global counter for some label values has got exactly the updates for
  those values, of all tenants and in order, and the local counter of a tenant exactly the
  updates that this tenant made for those values.
\<close>

theorem dual_emission:
  assumes "desc_err (opts_desc opts names) = None"
      "desc_err (opts_desc opts (names @ [''tenant_uid''])) = None"
    and "uids \<noteq> []" "\<forall>u\<in>set uids. ValidString u"
    and "\<forall>x\<in>set xs. acceptable (length uids) (length names) x"
  shows "\<exists>vs t p q g. tenants_setup uids opts names = Return (Inr vs, t, p) \<and> length vs = length uids
    \<and> count_run vs xs p = Return q
    \<and> (\<forall>i<length uids. cv_global (vs ! i) = Some g)
    \<and> (\<forall>l. child_log q g l = map (\<lambda>(i, l, u). as_update u) (filter (\<lambda>(i, l', u). l' = l) xs))
    \<and> (\<forall>i<length uids. \<exists>a. cv_local (vs ! i) = Some a \<and> (\<forall>l. child_log q a (l @ [uids ! i])
         = map (\<lambda>(i, l, u). as_update u) (filter (\<lambda>(j, l', u). j = i \<and> l' = l) xs)))"
proof -
  obtain vs t p g where s: "tenants_setup uids opts names = Return (Inr vs, t, p)" "map cv_tenantUID vs = uids"
    "sharing g names vs p" "vecs_ok (vec_set g vs) p" "\<forall>a\<in>vec_set g vs. \<forall>l. child_addr p a l = None"
    using tenants_setup_sharing [OF assms(1-4)] by blast
  have len: "length vs = length uids" using s(2) by (metis length_map)
  have log0: "child_log p a l = []" if "a \<in> vec_set g vs" for a l
    using s(5) that by (simp add: child_log_def)
  obtain q where q: "count_run vs xs p = Return q"
    "\<forall>l. child_log q g l = child_log p g l @ map (\<lambda>(i, l, u). as_update u) (filter (\<lambda>(i, l', u). l' = l) xs)"
    "\<forall>i<length vs. \<forall>a l. cv_local (vs ! i) = Some a \<longrightarrow>
         child_log q a (l @ [cv_tenantUID (vs ! i)]) = child_log p a (l @ [cv_tenantUID (vs ! i)])
           @ map (\<lambda>(i, l, u). as_update u) (filter (\<lambda>(j, l', u). j = i \<and> l' = l) xs)"
    using count_run_logs [OF s(4,3), of xs] assms(5) len by auto
  have "cv_global (vs ! i) = Some g \<and> (\<exists>a. cv_local (vs ! i) = Some a \<and> (\<forall>l. child_log q a (l @ [uids ! i])
         = map (\<lambda>(i, l, u). as_update u) (filter (\<lambda>(j, l', u). j = i \<and> l' = l) xs)))" if i: "i < length uids" for i
  proof -
    have v: "vs ! i \<in> set vs" using i len by simp
    then obtain a where a: "cv_local (vs ! i) = Some a" "cv_global (vs ! i) = Some g"
      using s(3) by (auto simp: sharing_def)
    have aV: "a \<in> vec_set g vs" using imageI [OF v, of cv_local] a(1) by (simp add: vec_set_def)
    have uid: "cv_tenantUID (vs ! i) = uids ! i" using nth_map [of i vs cv_tenantUID] s(2) i len by metis
    have "child_log q a (l @ [uids ! i]) = map (\<lambda>(i, l, u). as_update u) (filter (\<lambda>(j, l', u). j = i \<and> l' = l) xs)" for l
      using q(3) [rule_format, of i a l] i len a(1) log0 [OF aV] uid by simp
    then show ?thesis using a by blast
  qed
  moreover have "child_log q g l = map (\<lambda>(i, l, u). as_update u) (filter (\<lambda>(i, l', u). l' = l) xs)" for l
    using q(2) log0 [of g] by (simp add: vec_set_def)
  ultimately show ?thesis using s(1) len q(1) by blast
qed

definition demo_opts :: Opts where
  "demo_opts = \<lparr>op_Namespace = ''mt'', op_Subsystem = [], op_Name = ''requests'', op_Help = ''h'',
     op_Unit = [], op_ConstLabels = fmempty\<rparr>"

lemmas desc_eval = opts_desc_def NewDesc_def demo_opts_def BuildFQName_def IsValidMetricName_def
  IsValidLabelName_def checkLabelName_def validateLabelValues_def ValidString_def continues_def Let_def sorted_list_of_fset.rep_eq

lemma demo_descs:
  "desc_err (opts_desc demo_opts [''code'']) = None"
  "desc_err (opts_desc demo_opts ([''code''] @ [''tenant_uid''])) = None"
  by (simp_all add: desc_eval)

definition demo_run :: "(nat \<times> string list \<times> float64 option) list" where
  "demo_run = [(0, [''200''], None), (1, [''200''], Some (Finite 2)), (0, [''500''], None)]"

theorem dual_emission_witness:
  "\<exists>vs t p q g a. tenants_setup [''t1'', ''t2''] demo_opts [''code''] = Return (Inr vs, t, p)
    \<and> count_run vs demo_run p = Return q
    \<and> child_log q g [''200''] = [Inc, Add (Finite 2)]
    \<and> cv_global (vs ! 0) = Some g \<and> cv_global (vs ! 1) = Some g
    \<and> cv_local (vs ! 1) = Some a \<and> child_log q a [''200'', ''t2''] = [Add (Finite 2)]"
proof -
  have valid: "\<forall>u\<in>set [''t1'', ''t2'']. ValidString u" by (simp add: ValidString_def)
  have acc: "\<forall>x\<in>set demo_run. acceptable (length [''t1'', ''t2'']) (length [''code'']) x"
    by (simp add: demo_run_def acceptable_def validateLabelValues_def ValidString_def f_neg_def)
  obtain vs t p q g where d: "tenants_setup [''t1'', ''t2''] demo_opts [''code''] = Return (Inr vs, t, p)"
    "count_run vs demo_run p = Return q"
    "\<forall>i<length [''t1'', ''t2'']. cv_global (vs ! i) = Some g"
    "\<forall>l. child_log q g l = map (\<lambda>(i, l, u). as_update u) (filter (\<lambda>(i, l', u). l' = l) demo_run)"
    "\<forall>i<length [''t1'', ''t2'']. \<exists>a. cv_local (vs ! i) = Some a \<and> (\<forall>l. child_log q a (l @ [[''t1'', ''t2''] ! i])
         = map (\<lambda>(i, l, u). as_update u) (filter (\<lambda>(j, l', u). j = i \<and> l' = l) demo_run))"
    using dual_emission [OF demo_descs _ valid acc] by blast
  have "1 < length [''t1'', ''t2'']" by simp
  from d(5) [rule_format, OF this] obtain a where a: "cv_local (vs ! 1) = Some a"
      "\<forall>l. child_log q a (l @ [[''t1'', ''t2''] ! 1])
         = map (\<lambda>(i, l, u). as_update u) (filter (\<lambda>(j, l', u). j = 1 \<and> l' = l) demo_run)"
    by blast
  have "child_log q a [''200'', ''t2''] = [Add (Finite 2)]"
    using a(2) [rule_format, of "[''200'']"] by (simp add: demo_run_def as_update_def)
  moreover have "child_log q g [''200''] = [Inc, Add (Finite 2)]" using d(4) by (simp add: demo_run_def as_update_def)
  moreover have "cv_global (vs ! 0) = Some g" "cv_global (vs ! 1) = Some g" using d(3) by simp_all
  ultimately show ?thesis using d(1,2) a(1) by blast
qed

end
