(* ===== verification/TrackerSafety.thy ===== *)
theory TrackerSafety imports DualEmission begin

text \<open>
  The tracker of global metrics over whole runs of a process: every operation of
  \<open>pkg/mtmetrics\<close> and of the Prometheus client, in any order and with any arguments. What the
  tracker holds always fits what it recorded; and what goes wrong when it does not hold anything.
\<close>

section \<open>Steps of a process\<close>

inductive metrics_step :: "GlobalMetricsTracker \<times> prom \<Rightarrow> GlobalMetricsTracker \<times> prom \<Rightarrow> bool" where
  step_counter_vec: "getOrCreateCounterVec opts names r t p = Return (x, t', p') \<Longrightarrow> metrics_step (t, p) (t', p')"
| step_histogram_vec: "getOrCreateHistogramVec hopts names r t p = Return (x, t', p') \<Longrightarrow> metrics_step (t, p) (t', p')"
| step_counter: "getOrCreateCounter opts r t p = Return (x, t', p') \<Longrightarrow> metrics_step (t, p) (t', p')"
| step_histogram: "getOrCreateHistogram hopts r t p = Return (x, t', p') \<Longrightarrow> metrics_step (t, p) (t', p')"
| step_new: "collector_desc c = NewDesc n h names consts u \<Longrightarrow> put c p = (a, p') \<Longrightarrow> metrics_step (t, p) (t, p')"
| step_registry: "NewRegistry p = (r, p') \<Longrightarrow> metrics_step (t, p) (t, p')"
| step_register: "Register r a p = (e, p') \<Longrightarrow> metrics_step (t, p) (t, p')"
| step_child: "WithLabelValues a lvs p = Return (c, p') \<Longrightarrow> metrics_step (t, p) (t, p')"
| step_update: "metric_update up a p = Return p' \<Longrightarrow> metrics_step (t, p) (t, p')"
| step_reset: "vec_Reset a p = p' \<Longrightarrow> metrics_step (t, p) (t, p')"

inductive metrics_reachable :: "GlobalMetricsTracker \<times> prom \<Rightarrow> bool" where
  reach_start: "metrics_reachable (NewGlobalMetricsTracker, empty_prom)"
| reach_step: "metrics_reachable s \<Longrightarrow> metrics_step s s' \<Longrightarrow> metrics_reachable s'"

section \<open>Descriptors do not change\<close>

definition desc_at :: "prom \<Rightarrow> nat \<Rightarrow> Desc option" where
  "desc_at p a = map_option collector_desc (p_objects p a)"

definition genuine :: "Desc \<Rightarrow> bool" where
  "genuine d \<longleftrightarrow> (\<exists>n h names consts u. d = NewDesc n h names consts u)"

text \<open>\<open>p'\<close> has the objects of \<open>p\<close>, with their descriptors, and perhaps new ones.\<close>

definition keeps :: "prom \<Rightarrow> prom \<Rightarrow> bool" where
  "keeps p p' \<longleftrightarrow> (\<forall>a d. desc_at p a = Some d \<longrightarrow> desc_at p' a = Some d)"

definition regs_ok :: "prom \<Rightarrow> bool" where
  "regs_ok p \<longleftrightarrow> (\<forall>r i a. collectorsByID (p_registries p r) i = Some a \<longrightarrow>
     (\<exists>d. desc_at p a = Some d \<and> desc_err d = None \<and> desc_id d = i
        \<and> dimHashesByName (p_registries p r) (fqName d) = Some (dimHash d)))"

definition prom_ok :: "prom \<Rightarrow> bool" where
  "prom_ok p \<longleftrightarrow> heap_ok p \<and> (\<forall>a d. desc_at p a = Some d \<longrightarrow> genuine d) \<and> regs_ok p"

text \<open>
  A genuine descriptor that is valid tells its name and its number of labels by its identity and
  its dimensions.
\<close>

lemma NewDesc_fields [simp]:
  "fqName (NewDesc n h names consts u) = n" "variableLabels (NewDesc n h names consts u) = names"
  by (auto simp: NewDesc_def Let_def split: option.splits if_splits)

lemma NewDesc_hashes:
  assumes "desc_err (NewDesc n h names consts u) = None"
  shows "hd (desc_id (NewDesc n h names consts u)) = n"
    and "length (snd (snd (dimHash (NewDesc n h names consts u)))) + 1
      = length (desc_id (NewDesc n h names consts u)) + length names"
  using assms by (auto simp: NewDesc_def Let_def split: option.splits if_splits)

lemma genuine_hashes:
  assumes "genuine d" "desc_err d = None"
  shows "hd (desc_id d) = fqName d"
    and "length (snd (snd (dimHash d))) + 1 = length (desc_id d) + length (variableLabels d)"
  using assms NewDesc_hashes by (auto simp: genuine_def)

lemma genuine_same_id_name:
  assumes "genuine d" "genuine e" "desc_err d = None" "desc_err e = None" "desc_id d = desc_id e"
  shows "fqName d = fqName e"
  using genuine_hashes(1) [OF assms(1,3)] genuine_hashes(1) [OF assms(2,4)] assms(5) by simp

lemma genuine_fits:
  assumes "genuine d" "genuine e" "desc_err d = None" "desc_err e = None"
    and "desc_id d = desc_id e" "dimHash d = dimHash e"
  shows "length (variableLabels d) = length (variableLabels e)"
  using genuine_hashes(2) [OF assms(1,3)] genuine_hashes(2) [OF assms(2,4)] assms(5,6) by simp

lemma genuine_opts_desc [simp]: "genuine (opts_desc opts names)"
  unfolding genuine_def opts_desc_def by blast

section \<open>Every operation keeps the objects and the registries in order\<close>

lemma keeps_refl [simp]: "keeps p p"
  by (simp add: keeps_def)

lemma keeps_trans: "keeps p q \<Longrightarrow> keeps q r \<Longrightarrow> keeps p r"
  by (simp add: keeps_def)

lemma regs_ok_keeps:
  assumes "regs_ok p" "keeps p p'" "p_registries p' = p_registries p"
  shows "regs_ok p'"
  using assms unfolding regs_ok_def keeps_def by metis

lemma put_ok:
  assumes "prom_ok p" "genuine (collector_desc c)" "put c p = (a, p')"
  shows "prom_ok p' \<and> keeps p p' \<and> desc_at p' a = Some (collector_desc c) \<and> p_registries p' = p_registries p"
proof -
  have p': "a = p_next p" "p' = p\<lparr>p_next := Suc (p_next p), p_objects := (p_objects p)(p_next p \<mapsto> c)\<rparr>"
    using assms(3) by (auto simp: put_def)
  have new: "p_objects p (p_next p) = None" using assms(1) by (auto simp: prom_ok_def heap_ok_def)
  have k: "keeps p p'" using new p'(2) by (auto simp: keeps_def desc_at_def)
  have "genuine d" if "desc_at p' b = Some d" for b d
    using that assms(1,2) p'(2) by (auto simp: prom_ok_def desc_at_def split: if_splits)
  moreover have "heap_ok p'" using assms(1) p'(2) by (auto simp: prom_ok_def heap_ok_def less_Suc_eq)
  moreover have "regs_ok p'" using regs_ok_keeps [OF _ k] assms(1) p'(2) by (simp add: prom_ok_def)
  ultimately show ?thesis using k p' by (simp add: prom_ok_def desc_at_def)
qed

text \<open>Replacing an object by one with the same descriptor.\<close>

lemma set_object_ok:
  assumes "prom_ok p" "desc_at p a = Some (collector_desc c)"
  shows "prom_ok (set_object a c p) \<and> keeps p (set_object a c p)"
proof -
  have d: "desc_at (set_object a c p) b = desc_at p b" for b
    using assms(2) by (auto simp: desc_at_def set_object_def)
  then have k: "keeps p (set_object a c p)" by (simp add: keeps_def)
  have "heap_ok (set_object a c p)"
    using assms by (auto simp: prom_ok_def heap_ok_def set_object_def desc_at_def)
  moreover have "regs_ok (set_object a c p)"
    using regs_ok_keeps [OF _ k] assms(1) by (simp add: prom_ok_def set_object_def)
  ultimately show ?thesis using k assms(1) d by (simp add: prom_ok_def)
qed

lemma Register_ok:
  assumes ok: "prom_ok p" and reg: "Register r a p = (e, p')"
  shows "prom_ok p' \<and> keeps p p' \<and> (\<forall>b. desc_at p' b = desc_at p b)"
    and "e = None \<Longrightarrow> desc_at p a = Some d \<Longrightarrow> desc_err d = None"
    and "e = Some (AlreadyRegistered x) \<Longrightarrow> desc_at p a = Some d \<Longrightarrow>
      \<exists>d'. desc_at p x = Some d' \<and> fqName d' = fqName d \<and> length (variableLabels d') = length (variableLabels d)"
proof -
  have same: "\<forall>b. desc_at p' b = desc_at p b"
    using reg by (auto simp: Register_def desc_at_def Let_def split: option.splits if_splits)
  have "heap_ok p'" using ok reg
    by (auto simp: prom_ok_def heap_ok_def Register_def Let_def split: option.splits if_splits)
  moreover have "regs_ok p'"
  proof (cases "p' = p")
    case True
    then show ?thesis using ok by (simp add: prom_ok_def)
  next
    case False
    then obtain c where c: "p_objects p a = Some c" using reg by (cases "p_objects p a") (auto simp: Register_def)
    let ?d = "collector_desc c"
    let ?reg = "p_registries p r"
    let ?reg' = "?reg\<lparr>collectorsByID := (collectorsByID ?reg)(desc_id ?d \<mapsto> a),
       descIDs := insert (desc_id ?d) (descIDs ?reg), dimHashesByName := (dimHashesByName ?reg)(fqName ?d \<mapsto> dimHash ?d)\<rparr>"
    have new: "desc_err ?d = None" "p' = p\<lparr>p_registries := (p_registries p)(r := ?reg')\<rparr>"
      "dimHashesByName ?reg (fqName ?d) \<in> {None, Some (dimHash ?d)}"
      using reg False c by (auto simp: Register_def Let_def split: option.splits if_splits)
    have "\<exists>d. desc_at p' b = Some d \<and> desc_err d = None \<and> desc_id d = i
        \<and> dimHashesByName (p_registries p' s) (fqName d) = Some (dimHash d)"
      if b: "collectorsByID (p_registries p' s) i = Some b" for s i b
    proof (cases "s = r \<and> i = desc_id ?d")
      case True
      then have "b = a" using b new(2) by simp
      then show ?thesis using True c new same by (simp add: desc_at_def)
    next
      case False
      then have "collectorsByID (p_registries p s) i = Some b" using b new(2) by (auto split: if_splits)
      then obtain d where d: "desc_at p b = Some d" "desc_err d = None" "desc_id d = i"
        "dimHashesByName (p_registries p s) (fqName d) = Some (dimHash d)"
        using ok unfolding prom_ok_def regs_ok_def by blast
      then have "dimHashesByName (p_registries p' s) (fqName d) = Some (dimHash d)"
        using new(2,3) by auto
      then show ?thesis using d same by auto
    qed
    then show ?thesis unfolding regs_ok_def by blast
  qed
  ultimately show "prom_ok p' \<and> keeps p p' \<and> (\<forall>b. desc_at p' b = desc_at p b)"
    using ok same by (simp add: prom_ok_def keeps_def)
  show "desc_err d = None" if "e = None" "desc_at p a = Some d"
    using that reg by (auto simp: Register_def desc_at_def Let_def split: option.splits if_splits)
  show "\<exists>d'. desc_at p x = Some d' \<and> fqName d' = fqName d \<and> length (variableLabels d') = length (variableLabels d)"
    if e: "e = Some (AlreadyRegistered x)" and d: "desc_at p a = Some d"
  proof -
    have R: "desc_err d = None" "dimHashesByName (p_registries p r) (fqName d) \<in> {None, Some (dimHash d)}"
      "collectorsByID (p_registries p r) (desc_id d) = Some x"
      using e d reg by (auto simp: Register_def desc_at_def Let_def split: option.splits if_splits)
    obtain d' where d': "desc_at p x = Some d'" "desc_err d' = None" "desc_id d' = desc_id d"
      "dimHashesByName (p_registries p r) (fqName d') = Some (dimHash d')"
      using ok R(3) unfolding prom_ok_def regs_ok_def by blast
    have gen: "genuine d" "genuine d'" using ok d d'(1) by (auto simp: prom_ok_def)
    have "fqName d' = fqName d" using genuine_same_id_name [OF gen(2,1) d'(2) R(1) d'(3)] .
    moreover have "dimHash d' = dimHash d" using R(2) d'(4) \<open>fqName d' = fqName d\<close> by simp
    ultimately show ?thesis using d'(1) genuine_fits [OF gen(2,1) d'(2) R(1) d'(3)] by blast
  qed
qed


lemma newMetric_desc: "newMetric v lvs = Return m \<Longrightarrow> mt_desc m = vec_desc v"
  by (auto simp: newMetric_def newHistogram_def split: if_splits)

lemma WithLabelValues_ok:
  assumes ok: "prom_ok p" and w: "WithLabelValues a lvs p = Return (c, p')"
  shows "prom_ok p' \<and> keeps p p'"
proof -
  obtain v where v: "p_objects p a = Some (Vec v)"
    using w by (auto simp: WithLabelValues_def GetMetricWithLabelValues_def split: option.splits collector.splits)
  show ?thesis
  proof (cases "map_of (vec_children v) lvs")
    case (Some x)
    then have "p' = p" using w v
      by (auto simp: WithLabelValues_def GetMetricWithLabelValues_def split: option.splits go_error.splits)
    then show ?thesis using ok by simp
  next
    case None
    then obtain m q where m: "newMetric v lvs = Return m" "put (Metric m) p = (c, q)"
      "p' = set_object a (Vec (v\<lparr>vec_children := vec_children v @ [(lvs, c)]\<rparr>)) q"
      using w v by (auto simp: WithLabelValues_def GetMetricWithLabelValues_def Let_def
          split: option.splits go_error.splits outcome.splits prod.splits)
    have dv: "desc_at p a = Some (vec_desc v)" using v by (simp add: desc_at_def collector_desc_def)
    have "genuine (collector_desc (Metric m))"
      using ok dv newMetric_desc [OF m(1)] by (simp add: prom_ok_def collector_desc_def)
    then have q: "prom_ok q" "keeps p q" using put_ok [OF ok _ m(2)] by blast+
    have "desc_at q a = Some (vec_desc v)" using q(2) dv by (simp add: keeps_def)
    then show ?thesis
      using set_object_ok [OF q(1), of a "Vec (v\<lparr>vec_children := vec_children v @ [(lvs, c)]\<rparr>)"] keeps_trans [OF q(2)] m(3)
      by (simp add: collector_desc_def)
  qed
qed

lemma metric_update_ok:
  assumes ok: "prom_ok p" and u: "metric_update up a p = Return p'"
  shows "prom_ok p' \<and> keeps p p'"
proof -
  obtain m where m: "p_objects p a = Some (Metric m)" "p' = set_object a (Metric (m\<lparr>mt_log := mt_log m @ [up]\<rparr>)) p"
    using u by (auto simp: metric_update_def split: option.splits collector.splits if_splits)
  then show ?thesis using set_object_ok [OF ok, of a "Metric (m\<lparr>mt_log := mt_log m @ [up]\<rparr>)"]
    by (simp add: desc_at_def collector_desc_def)
qed

lemma vec_Reset_ok:
  assumes ok: "prom_ok p"
  shows "prom_ok (vec_Reset a p) \<and> keeps p (vec_Reset a p)"
proof (cases "\<exists>v. p_objects p a = Some (Vec v)")
  case True
  then obtain v where v: "p_objects p a = Some (Vec v)" by blast
  then show ?thesis using set_object_ok [OF ok, of a "Vec (v\<lparr>vec_children := []\<rparr>)"]
    by (simp add: vec_Reset_def desc_at_def collector_desc_def)
next
  case False
  then have "vec_Reset a p = p" by (auto simp: vec_Reset_def split: option.splits collector.splits)
  then show ?thesis using ok by simp
qed

lemma NewRegistry_ok:
  assumes ok: "prom_ok p" and r: "NewRegistry p = (r, p')"
  shows "prom_ok p' \<and> keeps p p'"
proof -
  have p': "p' = p\<lparr>p_next := Suc (p_next p), p_registries := (p_registries p)(p_next p := empty_registry)\<rparr>"
    using r by (auto simp: NewRegistry_def)
  then have d: "desc_at p' b = desc_at p b" for b by (simp add: desc_at_def)
  have "regs_ok p'" using ok d p' by (simp add: prom_ok_def regs_ok_def empty_registry_def)
  moreover have "heap_ok p'" using ok p' by (auto simp: prom_ok_def heap_ok_def less_Suc_eq)
  ultimately show ?thesis using ok d by (simp add: prom_ok_def keeps_def)
qed

lemma register_or_existing_ok:
  assumes ok: "prom_ok p" and d: "desc_at p c = Some d"
    and reg: "register_or_existing r c T mismatch other p = (x, p')"
  shows "prom_ok p' \<and> keeps p p' \<and> (\<forall>y. x = Inr y \<longrightarrow>
    (\<exists>d'. desc_at p' y = Some d' \<and> fqName d' = fqName d \<and> length (variableLabels d') = length (variableLabels d)))"
proof -
  obtain e q where R: "Register r c p = (e, q)" by fastforce
  note R' = Register_ok [OF ok R]
  show ?thesis
  proof (cases e)
    case None
    then show ?thesis using reg R R'(1) d by (auto simp: register_or_existing_def)
  next
    case (Some err)
    then have q: "p' = q" using reg R
      by (auto simp: register_or_existing_def split: reg_error.splits if_splits)
    have "\<exists>d'. desc_at p' y = Some d' \<and> fqName d' = fqName d \<and> length (variableLabels d') = length (variableLabels d)"
      if "x = Inr y" for y
    proof -
      have "e = Some (AlreadyRegistered y)" using that reg R Some
        by (auto simp: register_or_existing_def split: reg_error.splits if_splits)
      then show ?thesis using R'(1,3) d q by metis
    qed
    then show ?thesis using R'(1) q by blast
  qed
qed

section \<open>The tracker\<close>

definition tracker_ok :: "GlobalMetricsTracker \<Rightarrow> prom \<Rightarrow> bool" where
  "tracker_ok t p \<longleftrightarrow> (\<forall>key c. collectors t key = Some c \<longrightarrow> (\<exists>d names.
     desc_at p c = Some d \<and> metricLabels t key = Some names \<and> fqName d = key
     \<and> length (variableLabels d) = length names))"

lemma tracker_ok_keeps: "tracker_ok t p \<Longrightarrow> keeps p p' \<Longrightarrow> tracker_ok t p'"
  unfolding tracker_ok_def keeps_def by metis

text \<open>The loop over the labels decides equality of the lists.\<close>

lemma validateLabelsLocked_eq: "validateLabelsLocked name names t = (case metricLabels t name of
     Some stored \<Rightarrow> (if stored = names then None else Some (Errorf
       ''metric %q already registered with different labels: expected %v, got %v'' [name]), t)
   | None \<Rightarrow> (None, t\<lparr>metricLabels := (metricLabels t)(name \<mapsto> names)\<rparr>))"
proof -
  have "(length s \<noteq> length names \<or> (\<exists>i<length s. s ! i \<noteq> names ! i)) = (s \<noteq> names)" for s :: "string list"
    by (metis nth_equalityI)
  then show ?thesis by (simp add: validateLabelsLocked_def split: option.split)
qed

lemma validate_keeps_labels:
  assumes "validateLabelsLocked key names t = (e, t')"
  shows "collectors t' = collectors t"
    and "metricLabels t k = Some ns \<Longrightarrow> metricLabels t' k = Some ns"
    and "e = None \<Longrightarrow> metricLabels t' key = Some names"
  using assms by (auto simp: validateLabelsLocked_eq split: option.splits if_splits)

lemma getOrCreate_ok:
  assumes ok: "prom_ok p" "tracker_ok t p"
    and create: "\<And>cv p1. create p = Return (cv, p1) \<Longrightarrow> prom_ok p1 \<and> keeps p p1
      \<and> (\<exists>d. desc_at p1 cv = Some d \<and> fqName d = key \<and> length (variableLabels d) = length names)"
    and call: "getOrCreate key names T msg create r t p = Return (x, t', p')"
  shows "prom_ok p' \<and> tracker_ok t' p'"
proof -
  obtain e t1 where V: "validateLabelsLocked key names t = (e, t1)" by fastforce
  note V' = validate_keeps_labels [OF V]
  have t1: "tracker_ok t1 p" using ok(2) V'(1,2) unfolding tracker_ok_def by metis
  show ?thesis
  proof (cases "e = None \<and> collectors t1 key = None")
    case False
    then have "t' = t1" "p' = p" using call V by (auto simp: getOrCreate_def split: option.splits)
    then show ?thesis using ok(1) t1 by simp
  next
    case True
    then obtain cv p1 where c: "create p = Return (cv, p1)"
      using call V by (auto simp: getOrCreate_def obind_Return_iff)
    obtain d where d: "prom_ok p1" "keeps p p1" "desc_at p1 cv = Some d" "fqName d = key"
      "length (variableLabels d) = length names"
      using create [OF c] by blast
    obtain y q where R: "register_or_existing r cv T (Wrapf msg []) id p1 = (y, q)" by fastforce
    have q: "prom_ok q" "keeps p q" "\<forall>z. y = Inr z \<longrightarrow>
        (\<exists>d'. desc_at q z = Some d' \<and> fqName d' = key \<and> length (variableLabels d') = length names)"
      using register_or_existing_ok [OF d(1,3) R] keeps_trans [OF d(2)] d(4,5) by auto
    have p': "p' = q" "case y of Inl _ \<Rightarrow> t' = t1 | Inr z \<Rightarrow> t' = t1\<lparr>collectors := (collectors t1)(key \<mapsto> z)\<rparr>"
      using call V True c R by (auto simp: getOrCreate_def split: sum.splits)
    have "tracker_ok t' q"
    proof (cases y)
      case (Inl a)
      then show ?thesis using p'(2) tracker_ok_keeps [OF t1 q(2)] by simp
    next
      case (Inr z)
      then show ?thesis using p'(2) tracker_ok_keeps [OF t1 q(2)] q(3) V'(3) True
        by (auto simp: tracker_ok_def)
    qed
    then show ?thesis using p'(1) q(1) by simp
  qed
qed

definition created :: "prom \<Rightarrow> string \<Rightarrow> string list \<Rightarrow> nat \<times> prom \<Rightarrow> bool" where
  "created p key names x \<longleftrightarrow> prom_ok (snd x) \<and> keeps p (snd x) \<and> (\<exists>d. desc_at (snd x) (fst x) = Some d
     \<and> fqName d = key \<and> length (variableLabels d) = length names)"

lemma put_created:
  assumes "prom_ok p" "collector_desc c = opts_desc opts names"
  shows "created p (opts_key opts) names (put c p)"
  using put_ok [OF assms(1), of c "fst (put c p)" "snd (put c p)"] assms(2) by (simp add: created_def)

lemma constructors_created:
  assumes "prom_ok p"
  shows "created p (opts_key opts) names (NewCounterVec opts names p)"
    and "created p (opts_key (fst hopts)) names (NewHistogramVec hopts names p)"
    and "created p (opts_key opts) [] (NewCounter opts p)"
    and "NewHistogram hopts p = Return x \<Longrightarrow> created p (opts_key (fst hopts)) [] x"
  using put_created [OF assms]
  by (auto simp: NewCounterVec_def NewHistogramVec_def NewCounter_def NewHistogram_def newHistogram_def
      collector_desc_def split: outcome.splits if_splits)

lemma getOrCreate_created:
  assumes "getOrCreate key names T msg create r t p = Return (x, t', p')" "prom_ok p" "tracker_ok t p"
    and "\<And>y. create p = Return y \<Longrightarrow> created p key names y"
  shows "prom_ok p' \<and> tracker_ok t' p'"
  using getOrCreate_ok [OF assms(2,3) _ assms(1)] assms(4) by (fastforce simp: created_def)

lemma metrics_step_ok:
  assumes "metrics_step s s'" "prom_ok (snd s)" "tracker_ok (fst s) (snd s)"
  shows "prom_ok (snd s') \<and> tracker_ok (fst s') (snd s')"
  using assms
proof (induction rule: metrics_step.induct)
  case (step_counter_vec opts names r t p x t' p')
  then show ?case using getOrCreate_created [OF step_counter_vec.hyps [unfolded getOrCreateCounterVec_def]]
      constructors_created(1) by auto
next
  case (step_histogram_vec hopts names r t p x t' p')
  then show ?case using getOrCreate_created [OF step_histogram_vec.hyps [unfolded getOrCreateHistogramVec_def]]
      constructors_created(2) by auto
next
  case (step_counter opts r t p x t' p')
  then show ?case using getOrCreate_created [OF step_counter.hyps [unfolded getOrCreateCounter_def]]
      constructors_created(3) by auto
next
  case (step_histogram hopts r t p x t' p')
  then show ?case using getOrCreate_created [OF step_histogram.hyps [unfolded getOrCreateHistogram_def]]
      constructors_created(4) by auto
next
  case (step_new c n h names cl u p a p' t)
  then have "genuine (collector_desc c)" unfolding genuine_def by blast
  then show ?case using put_ok [OF _ _ step_new.hyps(2)] step_new.prems tracker_ok_keeps by auto
next
  case (step_registry p r p' t)
  then show ?case using NewRegistry_ok tracker_ok_keeps by fastforce
next
  case (step_register r a p e p' t)
  then show ?case using Register_ok(1) [OF _ step_register.hyps] tracker_ok_keeps by auto
next
  case (step_child a lvs p c p' t)
  then show ?case using WithLabelValues_ok tracker_ok_keeps by fastforce
next
  case (step_update up a p p' t)
  then show ?case using metric_update_ok tracker_ok_keeps by fastforce
next
  case (step_reset a p p' t)
  then show ?case using vec_Reset_ok tracker_ok_keeps by fastforce
qed

lemma metrics_reachable_ok: "metrics_reachable s \<Longrightarrow> prom_ok (snd s) \<and> tracker_ok (fst s) (snd s)"
proof (induction rule: metrics_reachable.induct)
  case reach_start
  show ?case by (simp add: prom_ok_def tracker_ok_def heap_ok_def regs_ok_def desc_at_def
      NewGlobalMetricsTracker_def empty_prom_def empty_registry_def)
qed (use metrics_step_ok in blast)

text \<open>
  When a lookup returns for valid label values of the right number: it finds a child, or the vector
  may make one, which \<open>newHistogram\<close> refuses with a panic for a label "le" and for buckets out of order.
\<close>

definition may_create :: "metric_vec \<Rightarrow> bool" where
  "may_create v \<longleftrightarrow> vec_kind v \<noteq> HistogramK \<or>
     ''le'' \<notin> set (variableLabels (vec_desc v)) \<and> ''le'' |\<notin>| fmdom (constLabels (vec_desc v)) \<and>
     increasing (vec_buckets v)"

lemma newMetric_returns:
  assumes "length lvs = length (variableLabels (vec_desc v))"
  shows "(\<exists>m. newMetric v lvs = Return m) \<longleftrightarrow> may_create v"
  using assms by (auto simp: newMetric_def newHistogram_def may_create_def)

lemma WithLabelValues_returns:
  assumes v: "p_objects p c = Some (Vec v)"
    and valid: "validateLabelValues lvs (length (variableLabels (vec_desc v))) = None"
  shows "(\<exists>x. WithLabelValues c lvs p = Return x) \<longleftrightarrow> lvs \<in> fst ` set (vec_children v) \<or> may_create v"
proof (cases "map_of (vec_children v) lvs")
  case None
  have "length lvs = length (variableLabels (vec_desc v))"
    using valid by (auto simp: validateLabelValues_def split: if_splits)
  moreover from None have "lvs \<notin> fst ` set (vec_children v)" by (simp add: map_of_eq_None_iff)
  ultimately show ?thesis using newMetric_returns [of lvs v] None v valid
    by (cases "newMetric v lvs") (auto simp: WithLabelValues_def GetMetricWithLabelValues_def Let_def split: prod.splits)
next
  case (Some x)
  then have "lvs \<in> fst ` set (vec_children v)" by (force dest: map_of_SomeD)
  with Some v valid show ?thesis by (auto simp: WithLabelValues_def GetMetricWithLabelValues_def)
qed

text \<open>C14.
  What the tracker holds fits what it recorded, in every reachable state of a process, whatever
  was registered directly at the registries and whichever calls failed: the collector under a
  name has that fully-qualified name and as many variable labels as were recorded for it. So when
  it is a vector, a lookup of label values of that number (and valid) returns, with one exception:
  a histogram vector that has no child for the values yet panics when "le" is one of its labels or
  its buckets are not in increasing order, which nothing on the way into the tracker checks.
\<close>

theorem tracked_collector_fits:
  assumes "metrics_reachable (t, p)" "collectors t key = Some c"
  shows "\<exists>d names. desc_at p c = Some d \<and> metricLabels t key = Some names \<and> fqName d = key
    \<and> length (variableLabels d) = length names
    \<and> (\<forall>v lvs. p_objects p c = Some (Vec v) \<and> validateLabelValues lvs (length names) = None \<longrightarrow>
         ((\<exists>x. WithLabelValues c lvs p = Return x) \<longleftrightarrow>
          lvs \<in> fst ` set (vec_children v) \<or> vec_kind v \<noteq> HistogramK \<or>
          ''le'' \<notin> set (variableLabels d) \<and> ''le'' |\<notin>| fmdom (constLabels d) \<and> increasing (vec_buckets v)))"
proof -
  have "tracker_ok t p" using metrics_reachable_ok [OF assms(1)] by simp
  then obtain d names where d: "desc_at p c = Some d" "metricLabels t key = Some names" "fqName d = key"
    "length (variableLabels d) = length names"
    using assms(2) unfolding tracker_ok_def by blast
  have "(\<exists>x. WithLabelValues c lvs p = Return x) \<longleftrightarrow>
      lvs \<in> fst ` set (vec_children v) \<or> vec_kind v \<noteq> HistogramK \<or>
      ''le'' \<notin> set (variableLabels d) \<and> ''le'' |\<notin>| fmdom (constLabels d) \<and> increasing (vec_buckets v)"
    if v: "p_objects p c = Some (Vec v)" "validateLabelValues lvs (length names) = None" for v lvs
  proof -
    have e: "d = vec_desc v" using d(1) v(1) by (simp add: desc_at_def collector_desc_def)
    from WithLabelValues_returns [OF v(1), of lvs] v(2) d(4) show ?thesis by (simp add: e may_create_def)
  qed
  then show ?thesis using d by blast
qed

text \<open>A process with a global registry and one tracked counter vector.\<close>

lemma demo_tracked:
  "\<exists>t p g. metrics_reachable (t, p) \<and> collectors t (opts_key demo_opts) = Some g
    \<and> metricLabels t (opts_key demo_opts) = Some [''code'']"
proof -
  obtain r p1 where r: "NewRegistry empty_prom = (r, p1)" by fastforce
  have 1: "metrics_reachable (NewGlobalMetricsTracker, p1)"
    by (rule reach_step [OF reach_start step_registry [OF r]])
  have "heap_ok p1" "global_ready demo_opts [''code''] r NewGlobalMetricsTracker p1"
    using r by (auto simp: NewRegistry_def empty_prom_def heap_ok_def global_ready_def NewGlobalMetricsTracker_def)
  then obtain g t p where g: "getOrCreateCounterVec demo_opts [''code''] r NewGlobalMetricsTracker p1 = Return (Inr g, t, p)"
    "global_made demo_opts [''code''] g t p"
    using global_vec [OF _ demo_descs(1), of p1 r NewGlobalMetricsTracker 0] by blast
  then have "metrics_reachable (t, p)" using reach_step [OF 1 step_counter_vec] by blast
  then show ?thesis using g(2) by (auto simp: global_made_def)
qed

theorem tracked_collector_fits_witness:
  "\<exists>t p c d. metrics_reachable (t, p) \<and> collectors t (opts_key demo_opts) = Some c
    \<and> desc_at p c = Some d \<and> fqName d = ''mt_requests'' \<and> length (variableLabels d) = 1"
proof -
  obtain t p g where g: "metrics_reachable (t, p)" "collectors t (opts_key demo_opts) = Some g"
    "metricLabels t (opts_key demo_opts) = Some [''code'']"
    using demo_tracked by blast
  obtain d where "desc_at p g = Some d" "fqName d = opts_key demo_opts" "length (variableLabels d) = length [''code'']"
    using tracked_collector_fits [OF g(1,2)] g(3) by auto
  then show ?thesis using g(1,2) by (intro exI) (auto simp: opts_key_def demo_opts_def BuildFQName_def)
qed

section \<open>A failed registration\<close>

text \<open>
  The tracker records the labels of a metric before it is registered, and does not take them back
  when the registration fails: after a failed \<open>getOrCreateCounterVec\<close> of a new name nothing is
  tracked under the name, yet every later call with other labels, corrected ones say, is
  refused as if the metric were registered with the labels that failed.
\<close>

theorem failed_registration_blocks_labels:
  assumes "collectors t (opts_key opts) = None" "metricLabels t (opts_key opts) = None"
    and "getOrCreateCounterVec opts names r t p = Return (Inl e, t', p')"
  shows "collectors t' (opts_key opts) = None
    \<and> (\<forall>opts' names' r' q. opts_key opts' = opts_key opts \<longrightarrow> names' \<noteq> names \<longrightarrow>
         getOrCreateCounterVec opts' names' r' t' q = Return (Inl (Errorf
           ''metric %q already registered with different labels: expected %v, got %v'' [opts_key opts]), t', q))"
proof -
  have "t' = t\<lparr>metricLabels := (metricLabels t)(opts_key opts \<mapsto> names)\<rparr>"
    using assms by (auto simp: getOrCreateCounterVec_def getOrCreate_def validateLabelsLocked_eq
        split: sum.splits prod.splits)
  then show ?thesis using assms(1)
    by (auto simp: getOrCreateCounterVec_def getOrCreate_def validateLabelsLocked_eq)
qed

text \<open>A label name that starts with two underscores is invalid; the corrected name is refused.\<close>

theorem failed_registration_blocks_labels_witness:
  "\<exists>t p. (\<exists>e. getOrCreateCounterVec demo_opts [''__code''] 0 NewGlobalMetricsTracker empty_prom = Return (Inl e, t, p))
    \<and> (\<exists>e. getOrCreateCounterVec demo_opts [''code''] 0 t p = Return (Inl e, t, p))"
proof -
  have "desc_err (opts_desc demo_opts [''__code'']) \<noteq> None" by (simp add: desc_eval)
  then obtain e t p where call: "getOrCreateCounterVec demo_opts [''__code''] 0 NewGlobalMetricsTracker empty_prom
      = Return (Inl e, t, p)"
    by (auto simp: getOrCreateCounterVec_def getOrCreate_def validateLabelsLocked_eq NewGlobalMetricsTracker_def
        NewCounterVec_def put_def empty_prom_def register_or_existing_def Register_def collector_desc_def)
  have "collectors NewGlobalMetricsTracker (opts_key demo_opts) = None"
    "metricLabels NewGlobalMetricsTracker (opts_key demo_opts) = None"
    by (simp_all add: NewGlobalMetricsTracker_def)
  from failed_registration_blocks_labels [OF this call] show ?thesis
    using call by (intro exI [of _ t] exI [of _ p]) auto
qed

end
