(* ===== verification/FactoryReuse.thy ===== *)
theory FactoryReuse imports TrackerSafety "HOL-Library.Multiset" begin

text \<open>
  What a factory returns for a name that is registered already: the existing collector when its
  type is the wanted one, an error otherwise; and the two cases in which that test is too weak.
\<close>

section \<open>Asking twice\<close>

definition fresh_vec :: "kind \<Rightarrow> Opts \<Rightarrow> float64 list \<Rightarrow> string list \<Rightarrow> collector" where
  "fresh_vec k opts buckets names =
     Vec \<lparr>vec_kind = k, vec_desc = opts_desc opts names, vec_buckets = buckets, vec_children = []\<rparr>"

lemma is_vec_put: "is_vec k p x \<Longrightarrow> heap_ok p \<Longrightarrow> is_vec k (snd (put c p)) x"
  by (auto simp: is_vec_def put_def heap_ok_def split: option.splits)

text \<open>
  After a registration with a result, the registry answers the same for any other collector with
  the same descriptor.
\<close>

lemma register_twice:
  assumes ok: "prom_ok p" and new: "put (fresh_vec k opts bs names) p = (a, p1)"
    and reg: "register_or_existing r a (is_vec k) mismatch other p1 = (Inr x, p2)"
    and again: "put (fresh_vec k opts bs' names) p2 = (b, p3)"
  shows "register_or_existing r b (is_vec k) mismatch' other' p3 = (Inr x, p3)"
    and "is_vec k p2 x" "prom_ok p2"
proof -
  let ?d = "opts_desc opts names"
  have d1: "prom_ok p1" "desc_at p1 a = Some ?d" and k1: "is_vec k p1 a"
    using put_ok [OF ok _ new] new by (auto simp: fresh_vec_def collector_desc_def is_vec_def put_def)
  show ok2: "prom_ok p2" using register_or_existing_ok [OF d1 reg] by blast
  obtain e q where R: "Register r a p1 = (e, q)" by fastforce
  note R' = Register_ok [OF d1(1) R]
  have q: "p2 = q" "p_objects p2 = p_objects p1" "p_next p2 = p_next p1"
    using reg R by (auto simp: register_or_existing_def Register_def Let_def
        split: option.splits reg_error.splits if_splits)
  have x: "collectorsByID (p_registries p2 r) (desc_id ?d) = Some x" "desc_err ?d = None"
    "dimHashesByName (p_registries p2 r) (fqName ?d) \<in> {None, Some (dimHash ?d)}" "is_vec k p2 x"
    using reg R k1 d1(2) q(1)
    by (auto simp: register_or_existing_def Register_def Let_def desc_at_def is_vec_def
        split: option.splits reg_error.splits if_splits)
  show "is_vec k p2 x" by (rule x(4))
  have p3: "p_registries p3 = p_registries p2" "desc_at p3 b = Some ?d"
    using again put_ok [OF ok2 _ again] by (auto simp: fresh_vec_def collector_desc_def)
  have "is_vec k p3 x" using is_vec_put [OF x(4)] ok2 again by (metis prom_ok_def snd_conv)
  moreover obtain cb where "p_objects p3 b = Some cb" "collector_desc cb = ?d"
    using p3(2) by (auto simp: desc_at_def)
  ultimately show "register_or_existing r b (is_vec k) mismatch' other' p3 = (Inr x, p3)"
    using x(1-3) p3(1) by (auto simp: register_or_existing_def Register_def Let_def split: option.splits)
qed

lemma getOrCreateCounterVec_done:
  assumes ok: "prom_ok p" and tracked: "\<And>c. collectors t (opts_key opts) = Some c \<Longrightarrow> metricLabels t (opts_key opts) \<noteq> None"
    and call: "getOrCreateCounterVec opts names r t p = Return (Inr g, t', p')"
  shows "collectors t' (opts_key opts) = Some g \<and> metricLabels t' (opts_key opts) = Some names
    \<and> is_vec CounterK p' g \<and> prom_ok p'"
proof (cases "collectors t (opts_key opts)")
  case (Some c)
  then show ?thesis using call ok tracked [OF Some]
    by (auto simp: getOrCreateCounterVec_def getOrCreate_def validateLabelsLocked_eq split: option.splits if_splits)
next
  case None
  obtain a p1 where new: "put (fresh_vec CounterK opts [] names) p = (a, p1)" by fastforce
  then have cr: "NewCounterVec opts names p = (a, p1)" by (simp add: NewCounterVec_def fresh_vec_def)
  let ?m = "Wrapf ''metric registered but not of type *prometheus.CounterVec: %w'' []"
  obtain y q where reg: "register_or_existing r a (is_vec CounterK) ?m id p1 = (y, q)" by fastforce
  have y: "y = Inr g" "p' = q" "collectors t' (opts_key opts) = Some g" "metricLabels t' (opts_key opts) = Some names"
    using call None cr reg
    by (auto simp: getOrCreateCounterVec_def getOrCreate_def validateLabelsLocked_eq
        split: option.splits if_splits sum.splits)
  then show ?thesis using register_twice(2,3) [OF ok new] reg by (metis surj_pair)
qed

text \<open>
  Creating a counter vector twice gives the same one: when a tenant's factory has returned a
  counter vector for some options and labels, in any reachable state, asking again returns the
  same wrapper (the same local and the same global vector), without an error and without
  changing the tracker.
\<close>

theorem counter_vec_created_once:
  assumes reach: "metrics_reachable (t, p)"
    and first: "mt_NewCounterVec f opts names t p = Return (Inr v, t', p')"
  shows "\<exists>p''. mt_NewCounterVec f opts names t' p' = Return (Inr v, t', p'')"
proof -
  have ok: "prom_ok p" "tracker_ok t p" using metrics_reachable_ok [OF reach] by simp_all
  obtain y t1 p1 where y: "getOrCreateCounterVec opts names (f_globalReg f) t p = Return (y, t1, p1)"
    using first by (auto simp: mt_NewCounterVec_def obind_Return_iff)
  obtain g where "y = Inr g" using first y by (cases y) (auto simp: mt_NewCounterVec_def)
  with y have 1: "getOrCreateCounterVec opts names (f_globalReg f) t p = Return (Inr g, t1, p1)" by simp
  have done1: "collectors t1 (opts_key opts) = Some g" "metricLabels t1 (opts_key opts) = Some names"
    "is_vec CounterK p1 g" "prom_ok p1"
    using getOrCreateCounterVec_done [OF ok(1) _ 1] ok(2) unfolding tracker_ok_def by (metis option.distinct(1))+
  obtain a p2 where new: "put (fresh_vec CounterK opts [] (names @ [''tenant_uid''])) p1 = (a, p2)" by fastforce
  then have cr: "NewCounterVec opts (names @ [''tenant_uid'']) p1 = (a, p2)" by (simp add: NewCounterVec_def fresh_vec_def)
  let ?m = "\<lambda>_. Errorf ''local counter vec %q already registered with different type'' [op_Name opts]"
  let ?o = "Wrapf ''failed to register local counter vec: %w'' []"
  obtain l where reg: "register_or_existing (f_localRegistry f) a (is_vec CounterK) ?m ?o p2 = (Inr l, p')"
    and v: "v = \<lparr>cv_tenantUID = f_tenantUID f, cv_local = Some l, cv_global = Some g\<rparr>" and t': "t' = t1"
    using first 1 cr by (auto simp: mt_NewCounterVec_def split: sum.splits prod.splits)
  obtain b p3 where again: "put (fresh_vec CounterK opts [] (names @ [''tenant_uid''])) p' = (b, p3)" by fastforce
  then have cr2: "NewCounterVec opts (names @ [''tenant_uid'']) p' = (b, p3)" by (simp add: NewCounterVec_def fresh_vec_def)
  have reg2: "register_or_existing (f_localRegistry f) b (is_vec CounterK) ?m ?o p3 = (Inr l, p3)"
    using register_twice(1) [OF done1(4) new reg again] .
  have "p_objects p' = p_objects p2"
    using reg by (auto simp: register_or_existing_def Register_def Let_def
        split: option.splits reg_error.splits if_splits prod.splits)
  then have "is_vec CounterK p' g" using is_vec_put [OF done1(3)] done1(4) new
    by (metis is_vec_def prom_ok_def snd_conv)
  then have "getOrCreateCounterVec opts names (f_globalReg f) t1 p' = Return (Inr g, t1, p')"
    using done1(1,2) by (simp add: getOrCreateCounterVec_def getOrCreate_def validateLabelsLocked_eq)
  then show ?thesis using cr2 reg2 v t' by (simp add: mt_NewCounterVec_def)
qed

text \<open>The first tenant of a process asks for its counter vector, twice.\<close>

lemma demo_first_vec:
  "\<exists>f p v t' p'. metrics_reachable (NewGlobalMetricsTracker, p) \<and> f_globalReg f < p_next p \<and> f_localRegistry f < p_next p
    \<and> mt_NewCounterVec f demo_opts [''code''] NewGlobalMetricsTracker p = Return (Inr v, t', p')"
proof -
  obtain G p1 where G: "NewRegistry empty_prom = (G, p1)" by fastforce
  obtain l p2 where l: "NewRegistry p1 = (l, p2)" by fastforce
  let ?f = "\<lparr>f_tenantUID = ''t1'', f_globalReg = G, f_localRegistry = l\<rparr>"
  have reach: "metrics_reachable (NewGlobalMetricsTracker, p2)"
    by (rule reach_step [OF reach_step [OF reach_start step_registry [OF G]] step_registry [OF l]])
  have "heap_ok p2" "global_ready demo_opts [''code''] G NewGlobalMetricsTracker p2"
    "l \<noteq> G" "p_registries p2 l = empty_registry" "G < p_next p2" "l < p_next p2"
    using G l by (auto simp: NewRegistry_def empty_prom_def heap_ok_def global_ready_def NewGlobalMetricsTracker_def)
  then show ?thesis
    using tenant_vec [OF _ demo_descs, of p2 G NewGlobalMetricsTracker 0 ?f] reach by fastforce
qed

theorem counter_vec_created_once_witness:
  "\<exists>f p v t' p' p''. mt_NewCounterVec f demo_opts [''code''] NewGlobalMetricsTracker p = Return (Inr v, t', p')
    \<and> mt_NewCounterVec f demo_opts [''code''] t' p' = Return (Inr v, t', p'')"
proof -
  obtain f p v t' p' where f: "metrics_reachable (NewGlobalMetricsTracker, p)"
    "mt_NewCounterVec f demo_opts [''code''] NewGlobalMetricsTracker p = Return (Inr v, t', p')"
    using demo_first_vec by blast
  show ?thesis using counter_vec_created_once [OF f] f(2) by blast
qed

section \<open>Type tests that are too weak\<close>

text \<open>
  The type of an existing metric is tested by its methods only. When a gauge is registered and a
  counter of the same name, help and labels is asked for, the scalar constructor returns the
  gauge as a counter, without the error that the code has for a different type, and this
  counter accepts a decrease; for vectors, the same situation is the error.
\<close>

theorem gauge_passes_for_counter:
  assumes "p_registries p (std_reg f) = empty_registry" "desc_err (opts_desc opts []) = None"
  shows "(\<exists>g p1 p2 p3. std_NewGauge f opts p = (Inr g, p1) \<and> std_NewCounter f opts p1 = (Inr g, p2)
      \<and> metric_update (Add (Finite (-1))) g p2 = Return p3)
    \<and> (\<exists>v p1 p2. std_NewGaugeVec f opts [] p = (Inr v, p1)
      \<and> std_NewCounterVec f opts [] p1 = (Inl (Errorf ''metric %q already registered with different type'' [op_Name opts]), p2))"
proof
  show "\<exists>g p1 p2 p3. std_NewGauge f opts p = (Inr g, p1) \<and> std_NewCounter f opts p1 = (Inr g, p2)
      \<and> metric_update (Add (Finite (-1))) g p2 = Return p3"
    using assms
    by (simp add: std_NewGauge_def NewGauge_def std_NewCounter_def NewCounter_def put_def register_or_existing_def
        Register_def empty_registry_def Let_def collector_desc_def is_Counter_def metric_update_def)
  show "\<exists>v p1 p2. std_NewGaugeVec f opts [] p = (Inr v, p1)
      \<and> std_NewCounterVec f opts [] p1 = (Inl (Errorf ''metric %q already registered with different type'' [op_Name opts]), p2)"
    using assms
    by (simp add: std_NewGaugeVec_def NewGaugeVec_def std_NewCounterVec_def NewCounterVec_def put_def register_or_existing_def
        Register_def empty_registry_def Let_def collector_desc_def is_vec_def different_type_def)
qed

lemma demo_opts_scalar: "desc_err (opts_desc demo_opts []) = None"
  by (simp add: desc_eval)

theorem gauge_passes_for_counter_witness:
  "\<exists>g p1 p2 p3. std_NewGauge (NewStdMetricFactory 0) demo_opts empty_prom = (Inr g, p1)
    \<and> std_NewCounter (NewStdMetricFactory 0) demo_opts p1 = (Inr g, p2)
    \<and> metric_update (Add (Finite (-1))) g p2 = Return p3"
proof -
  have "p_registries empty_prom (std_reg (NewStdMetricFactory 0)) = empty_registry"
    by (simp add: empty_prom_def)
  from gauge_passes_for_counter [OF this demo_opts_scalar] show ?thesis by blast
qed

text \<open>Labels in another order are the same to a registry.\<close>

lemma opts_desc_permuted:
  assumes "mset names = mset names'" "desc_err (opts_desc opts names) = None" "desc_err (opts_desc opts names') = None"
  shows "desc_id (opts_desc opts names) = desc_id (opts_desc opts names')"
    and "dimHash (opts_desc opts names) = dimHash (opts_desc opts names')"
proof -
  have "mset (map (\<lambda>l. CHR ''$'' # l) names) = mset (map (\<lambda>l. CHR ''$'' # l) names')"
    using assms(1) by (metis mset_map)
  then have "sort (xs @ map (\<lambda>l. CHR ''$'' # l) names) = sort (xs @ map (\<lambda>l. CHR ''$'' # l) names')" for xs
    by (intro properties_for_sort) simp_all
  then show "desc_id (opts_desc opts names) = desc_id (opts_desc opts names')"
    "dimHash (opts_desc opts names) = dimHash (opts_desc opts names')"
    using assms(2,3) by (auto simp: opts_desc_def NewDesc_def Let_def split: option.splits if_splits)
qed

text \<open>
  The labels of an adopted vector may come in another order. When a counter vector is registered
  directly at the global registry, a tenant's factory that asks for the same metric with the
  labels in another order is given that vector without an error; label values are matched by
  position, so the shared metric gets them under the wrong labels.
\<close>

theorem permuted_labels_adopted:
  assumes "p_registries p r = empty_registry" "mset names' = mset names"
    and "desc_err (opts_desc opts names) = None" "desc_err (opts_desc opts names') = None"
  shows "\<exists>v p1 t p2. std_NewCounterVec (NewStdMetricFactory r) opts names' p = (Inr v, p1)
    \<and> getOrCreateCounterVec opts names r NewGlobalMetricsTracker p1 = Return (Inr v, t, p2)
    \<and> metricLabels t (opts_key opts) = Some names \<and> vec_labels p2 v = Some names'"
  using assms(1,3,4) opts_desc_permuted [OF assms(2,4,3)]
  by (simp add: std_NewCounterVec_def NewStdMetricFactory_def NewCounterVec_def put_def register_or_existing_def
      Register_def empty_registry_def Let_def collector_desc_def is_vec_def getOrCreateCounterVec_def getOrCreate_def
      validateLabelsLocked_eq NewGlobalMetricsTracker_def vec_labels_def)

theorem permuted_labels_adopted_witness:
  "\<exists>v p1 t p2. std_NewCounterVec (NewStdMetricFactory 0) demo_opts [''method'', ''code''] empty_prom = (Inr v, p1)
    \<and> getOrCreateCounterVec demo_opts [''code'', ''method''] 0 NewGlobalMetricsTracker p1 = Return (Inr v, t, p2)
    \<and> vec_labels p2 v = Some [''method'', ''code'']"
proof -
  have "p_registries empty_prom 0 = empty_registry" by (simp add: empty_prom_def)
  moreover have "desc_err (opts_desc demo_opts [''code'', ''method'']) = None"
    "desc_err (opts_desc demo_opts [''method'', ''code'']) = None"
    by (simp_all add: desc_eval)
  moreover have "mset [''method'', ''code''] = mset [''code'', ''method'']" by simp
  ultimately show ?thesis using permuted_labels_adopted by blast
qed

end
