(* ===== verification/MetricFactories.thy ===== *)
theory MetricFactories imports FactoryReuse begin

text \<open>
  The interfaces of \<open>pkg/mtmetrics/metrics.go\<close> with the types that implement them, and what a factory
  promises whatever its type is: a vector it has made stays the vector it makes, whatever the process
  does with its registries and its metrics in the meantime.
\<close>

section \<open>What no step takes back\<close>

text \<open>
  A later state of a process has the objects of an earlier one, of the same types, and its registries
  have the collectors of the earlier ones.
\<close>

definition collector_type :: "collector \<Rightarrow> bool \<times> kind" where
  "collector_type c = (case c of Vec v \<Rightarrow> (True, vec_kind v) | Metric m \<Rightarrow> (False, mt_kind m))"

definition type_at :: "prom \<Rightarrow> nat \<rightharpoonup> bool \<times> kind" where
  "type_at p a = map_option collector_type (p_objects p a)"

definition registry_extends :: "Registry \<Rightarrow> Registry \<Rightarrow> bool" where
  "registry_extends r r' \<longleftrightarrow> collectorsByID r \<subseteq>\<^sub>m collectorsByID r' \<and> dimHashesByName r \<subseteq>\<^sub>m dimHashesByName r'"

definition extends :: "prom \<Rightarrow> prom \<Rightarrow> bool" where
  "extends p p' \<longleftrightarrow> p_next p \<le> p_next p' \<and> type_at p \<subseteq>\<^sub>m type_at p'
     \<and> (\<forall>r<p_next p. registry_extends (p_registries p r) (p_registries p' r))"

lemma is_vec_type: "is_vec k p a \<longleftrightarrow> type_at p a = Some (True, k)"
  by (auto simp: is_vec_def type_at_def collector_type_def split: option.splits collector.splits)

lemma registry_extends_refl [simp]: "registry_extends r r"
  by (simp add: registry_extends_def)

lemma extends_refl [simp]: "extends p p"
  by (simp add: extends_def)

lemma extends_trans: "extends p q \<Longrightarrow> extends q r \<Longrightarrow> extends p r"
  unfolding extends_def registry_extends_def by (meson le_trans less_le_trans map_le_trans)

lemma extends_is_vec: "extends p p' \<Longrightarrow> is_vec k p a \<Longrightarrow> is_vec k p' a"
  unfolding extends_def is_vec_type map_le_def by (metis domI)

lemma put_extends:
  assumes "heap_ok p" "put c p = (a, p')"
  shows "extends p p'"
proof -
  have "p_objects p (p_next p) = None" using assms(1) by (auto simp: heap_ok_def)
  then show ?thesis using assms(2) by (auto simp: put_def extends_def type_at_def map_le_def)
qed

lemma set_object_extends: "type_at p a = Some (collector_type c) \<Longrightarrow> extends p (set_object a c p)"
  by (auto simp: extends_def set_object_def type_at_def map_le_def)

lemma NewRegistry_extends: "NewRegistry p = (r, p') \<Longrightarrow> extends p p'"
  by (auto simp: NewRegistry_def extends_def type_at_def map_le_def)

lemma Register_extends: "Register r a p = (e, p') \<Longrightarrow> extends p p'"
  by (auto simp: Register_def Let_def extends_def registry_extends_def type_at_def map_le_def
      split: option.splits if_splits)

lemma register_or_existing_extends: "register_or_existing r c T m other p = (x, p') \<Longrightarrow> extends p p'"
  using Register_extends by (auto simp: register_or_existing_def split: prod.splits option.splits reg_error.splits if_splits)

lemma WithLabelValues_extends:
  assumes "heap_ok p" "WithLabelValues a lvs p = Return (c, p')"
  shows "extends p p'"
proof -
  obtain v where v: "p_objects p a = Some (Vec v)"
    using assms(2) by (auto simp: WithLabelValues_def GetMetricWithLabelValues_def split: option.splits collector.splits)
  then consider "p' = p" | m q where "put (Metric m) p = (c, q)"
      "p' = set_object a (Vec (v\<lparr>vec_children := vec_children v @ [(lvs, c)]\<rparr>)) q"
    using assms(2) by (auto simp: WithLabelValues_def GetMetricWithLabelValues_def Let_def
        split: option.splits go_error.splits outcome.splits prod.splits)
  then show ?thesis
  proof cases
    case (2 m q)
    have a: "a < p_next p" using v assms(1) by (auto simp: heap_ok_def)
    then have "p_objects q a = Some (Vec v)" using v 2(1) by (auto simp: put_def)
    then show ?thesis
      unfolding 2(2) using extends_trans [OF put_extends [OF assms(1) 2(1)] set_object_extends]
      by (simp add: type_at_def collector_type_def)
  qed simp
qed

lemma metric_update_extends: "metric_update up a p = Return p' \<Longrightarrow> extends p p'"
  by (auto simp: metric_update_def type_at_def collector_type_def split: option.splits collector.splits if_splits
      intro!: set_object_extends)

lemma vec_Reset_extends: "extends p (vec_Reset a p)"
  by (auto simp: vec_Reset_def type_at_def collector_type_def split: option.splits collector.splits
      intro!: set_object_extends)

text \<open>The tracker forgets nothing either.\<close>

definition tracker_extends :: "GlobalMetricsTracker \<Rightarrow> GlobalMetricsTracker \<Rightarrow> bool" where
  "tracker_extends t t' \<longleftrightarrow> collectors t \<subseteq>\<^sub>m collectors t' \<and> metricLabels t \<subseteq>\<^sub>m metricLabels t'"

lemma tracker_extends_refl [simp]: "tracker_extends t t"
  by (simp add: tracker_extends_def)

lemma getOrCreate_extends:
  assumes "getOrCreate key names T msg create r t p = Return (x, t', p')"
    and "\<And>y q. create p = Return (y, q) \<Longrightarrow> extends p q"
  shows "tracker_extends t t' \<and> extends p p'"
proof -
  obtain e t1 where V: "validateLabelsLocked key names t = (e, t1)" by fastforce
  then have t1: "tracker_extends t t1" "collectors t1 = collectors t"
    by (auto simp: validateLabelsLocked_eq tracker_extends_def map_le_def split: option.splits if_splits)
  show ?thesis
  proof (cases "e = None \<and> collectors t1 key = None")
    case False
    then show ?thesis using assms(1) V t1 by (auto simp: getOrCreate_def split: option.splits)
  next
    case True
    then obtain cv p1 where c: "create p = Return (cv, p1)"
      using assms(1) V by (auto simp: getOrCreate_def obind_Return_iff)
    obtain y q where R: "register_or_existing r cv T (Wrapf msg []) id p1 = (y, q)" by fastforce
    have "extends p q" by (rule extends_trans [OF assms(2) [OF c] register_or_existing_extends [OF R]])
    moreover have "p' = q" "case y of Inl _ \<Rightarrow> t' = t1 | Inr z \<Rightarrow> t' = t1\<lparr>collectors := (collectors t1)(key \<mapsto> z)\<rparr>"
      using assms(1) V True c R by (auto simp: getOrCreate_def split: sum.splits)
    ultimately show ?thesis using t1 True by (auto simp: tracker_extends_def map_le_def split: sum.splits)
  qed
qed

lemma metrics_step_extends:
  assumes "metrics_step s s'" "prom_ok (snd s)"
  shows "tracker_extends (fst s) (fst s') \<and> extends (snd s) (snd s')"
proof -
  note new = put_extends [OF assms(2) [unfolded prom_ok_def, THEN conjunct1]]
  from assms show ?thesis
  proof (induction rule: metrics_step.induct)
    case (step_counter_vec opts names r t p x t' p')
    show ?case using getOrCreate_extends [OF step_counter_vec.hyps [unfolded getOrCreateCounterVec_def]] step_counter_vec.prems
      by (auto simp: NewCounterVec_def prom_ok_def intro: put_extends)
  next
    case (step_histogram_vec hopts names r t p x t' p')
    show ?case using getOrCreate_extends [OF step_histogram_vec.hyps [unfolded getOrCreateHistogramVec_def]] step_histogram_vec.prems
      by (auto simp: NewHistogramVec_def prom_ok_def intro: put_extends)
  next
    case (step_counter opts r t p x t' p')
    show ?case using getOrCreate_extends [OF step_counter.hyps [unfolded getOrCreateCounter_def]] step_counter.prems
      by (auto simp: NewCounter_def prom_ok_def intro: put_extends)
  next
    case (step_histogram hopts r t p x t' p')
    have "extends p q" if "NewHistogram hopts p = Return (y, q)" for y q
      using that step_histogram.prems by (auto simp: NewHistogram_def prom_ok_def split: outcome.splits intro: put_extends)
    then show ?case using getOrCreate_extends [OF step_histogram.hyps [unfolded getOrCreateHistogram_def]] by simp
  qed (auto simp: prom_ok_def intro: put_extends NewRegistry_extends Register_extends WithLabelValues_extends
      metric_update_extends vec_Reset_extends)
qed

lemma map_sum_Inr_iff: "map_sum f g x = Inr y \<longleftrightarrow> (\<exists>z. x = Inr z \<and> y = g z)"
  by (cases x) auto

section \<open>A registered vector\<close>

definition registered_as :: "nat \<Rightarrow> Desc \<Rightarrow> kind \<Rightarrow> nat \<Rightarrow> prom \<Rightarrow> bool" where
  "registered_as r d k x p \<longleftrightarrow> r < p_next p \<and> desc_err d = None \<and> is_vec k p x
     \<and> collectorsByID (p_registries p r) (desc_id d) = Some x
     \<and> dimHashesByName (p_registries p r) (fqName d) = Some (dimHash d)"

lemma registered_extends: "registered_as r d k x p \<Longrightarrow> extends p p' \<Longrightarrow> registered_as r d k x p'"
  using extends_is_vec [of p p' k x]
  by (auto simp: registered_as_def extends_def registry_extends_def map_le_def) (metis domI)+

abbreviation make_vec where
  "make_vec r k opts bs names mismatch other p \<equiv>
     (let (vec, p) = put (fresh_vec k opts bs names) p in register_or_existing r vec (is_vec k) mismatch other p)"

lemma make_vec_registers:
  assumes ok: "prom_ok p" "r < p_next p" and make: "make_vec r k opts bs names mismatch other p = (Inr x, p')"
  shows "registered_as r (opts_desc opts names) k x p'" and "extends p p'" and "prom_ok p'"
proof -
  obtain a p1 where new: "put (fresh_vec k opts bs names) p = (a, p1)" by fastforce
  with make have reg: "register_or_existing r a (is_vec k) mismatch other p1 = (Inr x, p')" by simp
  obtain b p3 where "put (fresh_vec k opts bs names) p' = (b, p3)" by fastforce
  note twice = register_twice(2,3) [OF ok(1) new reg this]
  show "prom_ok p'" by (rule twice(2))
  have ext: "extends p p1" "extends p1 p'"
    using put_extends [OF _ new] ok(1) register_or_existing_extends [OF reg] by (simp_all add: prom_ok_def)
  then show "extends p p'" by (rule extends_trans)
  then have r: "r < p_next p'" using ok(2) by (simp add: extends_def)
  let ?d = "opts_desc opts names"
  have d: "desc_at p1 a = Some ?d" using put_ok [OF ok(1) _ new] by (auto simp: fresh_vec_def collector_desc_def)
  then have x: "collectorsByID (p_registries p' r) (desc_id ?d) = Some x" "desc_err ?d = None"
    "dimHashesByName (p_registries p' r) (fqName ?d) \<in> {None, Some (dimHash ?d)}"
    using reg by (auto simp: register_or_existing_def Register_def Let_def desc_at_def
        split: option.splits reg_error.splits if_splits)
  from twice(2) x(1) obtain e where e: "desc_at p' x = Some e" "desc_err e = None" "desc_id e = desc_id ?d"
      "dimHashesByName (p_registries p' r) (fqName e) = Some (dimHash e)" "genuine e"
    unfolding prom_ok_def regs_ok_def by metis
  then have "fqName e = fqName ?d" using genuine_same_id_name [OF e(5) genuine_opts_desc e(2) x(2)] by simp
  with e(4) x twice(1) r show "registered_as r ?d k x p'" by (simp add: registered_as_def)
qed

lemma make_vec_again:
  assumes "heap_ok p" "registered_as r (opts_desc opts names) k x p"
  shows "\<exists>p'. make_vec r k opts bs names mismatch other p = (Inr x, p') \<and> extends p p'"
proof -
  obtain a p1 where new: "put (fresh_vec k opts bs names) p = (a, p1)" by fastforce
  then have ext: "extends p p1" by (rule put_extends [OF assms(1)])
  with assms(2) have "registered_as r (opts_desc opts names) k x p1" by (rule registered_extends)
  moreover have "p_objects p1 a = Some (fresh_vec k opts bs names)" using new by (auto simp: put_def)
  ultimately have "register_or_existing r a (is_vec k) mismatch other p1 = (Inr x, p1)"
    by (simp add: registered_as_def register_or_existing_def Register_def Let_def fresh_vec_def collector_desc_def)
  with new ext show ?thesis by simp
qed

text \<open>What the tracker keeps of a vector it holds.\<close>

definition tracked_as :: "string \<Rightarrow> string list \<Rightarrow> kind \<Rightarrow> nat \<Rightarrow> GlobalMetricsTracker \<Rightarrow> prom \<Rightarrow> bool" where
  "tracked_as key names k g t p \<longleftrightarrow> collectors t key = Some g \<and> metricLabels t key = Some names \<and> is_vec k p g"

lemma tracked_extends: "tracked_as key names k g t p \<Longrightarrow> tracker_extends t t' \<Longrightarrow> extends p p' \<Longrightarrow> tracked_as key names k g t' p'"
  using extends_is_vec [of p p' k g] by (auto simp: tracked_as_def tracker_extends_def map_le_def) (metis domI)+

lemma getOrCreate_again:
  "tracked_as key names k g t p \<Longrightarrow> getOrCreate key names (is_vec k) msg create r t p = Return (Inr g, t, p)"
  by (simp add: tracked_as_def getOrCreate_def validateLabelsLocked_eq)

lemma getOrCreate_tracks:
  assumes ok: "prom_ok p" "tracker_ok t p"
    and call: "getOrCreate key names (is_vec k) msg (\<lambda>p. Return (put (fresh_vec k opts bs names) p)) r t p = Return (Inr g, t', p')"
  shows "tracked_as key names k g t' p'"
proof (cases "collectors t key")
  case (Some c)
  then obtain l where "metricLabels t key = Some l" using ok(2) unfolding tracker_ok_def by blast
  then show ?thesis using call Some
    by (auto simp: getOrCreate_def validateLabelsLocked_eq tracked_as_def split: if_splits)
next
  case None
  obtain a p1 where new: "put (fresh_vec k opts bs names) p = (a, p1)" by fastforce
  obtain y q where reg: "register_or_existing r a (is_vec k) (Wrapf msg []) id p1 = (y, q)" by fastforce
  have y: "y = Inr g" "p' = q" "collectors t' key = Some g" "metricLabels t' key = Some names"
    using call None new reg
    by (auto simp: getOrCreate_def validateLabelsLocked_eq split: option.splits if_splits sum.splits)
  then show ?thesis using register_twice(2) [OF ok(1) new] reg by (metis surj_pair tracked_as_def)
qed

lemma make_vec_steps:
  assumes "make_vec r k opts bs names mismatch other p = (y, p')"
  shows "metrics_step\<^sup>*\<^sup>* (t, p) (t, p')"
proof -
  obtain a p1 where new: "put (fresh_vec k opts bs names) p = (a, p1)" by fastforce
  have "metrics_step (t, p) (t, p1)"
    by (rule step_new [OF _ new]) (simp add: fresh_vec_def collector_desc_def opts_desc_def)
  moreover have "\<exists>e. Register r a p1 = (e, p')"
    using assms new by (auto simp: register_or_existing_def split: prod.splits option.splits reg_error.splits if_splits)
  ultimately show ?thesis by (metis step_register converse_rtranclp_into_rtranclp r_into_rtranclp)
qed

section \<open>The interfaces and their types\<close>

text \<open>
  A value of an interface is a value of one of the types that implement it. The types of the Prometheus
  client are references to a vector; gauges have no implementation of their own in this package.
\<close>

type_synonym metrics_state = "GlobalMetricsTracker \<times> prom"

datatype MetricFactory = StdMetricFactory stdMetricFactory | MTMetricFactory mtMetricFactory
datatype CounterVec = PromCounterVec nat | MTCounterVec mtCounterVec
datatype GaugeVec = PromGaugeVec nat
datatype ObserverVec = PromHistogramVec nat | MTObserverVec mtObserverVec

fun mf_NewCounterVec ::
  "MetricFactory \<Rightarrow> Opts \<times> string list \<Rightarrow> metrics_state \<Rightarrow> ((go_error + CounterVec) \<times> metrics_state) outcome" where
  "mf_NewCounterVec (StdMetricFactory f) (opts, labelNames) (t, p) =
     (let (r, p) = std_NewCounterVec f opts labelNames p in Return (map_sum id PromCounterVec r, t, p))"
| "mf_NewCounterVec (MTMetricFactory f) (opts, labelNames) (t, p) =
     obind (mt_NewCounterVec f opts labelNames t p) (\<lambda>(r, t, p). Return (map_sum id MTCounterVec r, t, p))"

fun mf_NewGaugeVec ::
  "MetricFactory \<Rightarrow> Opts \<times> string list \<Rightarrow> metrics_state \<Rightarrow> ((go_error + GaugeVec) \<times> metrics_state) outcome" where
  "mf_NewGaugeVec (StdMetricFactory f) (opts, labelNames) (t, p) =
     (let (r, p) = std_NewGaugeVec f opts labelNames p in Return (map_sum id PromGaugeVec r, t, p))"
| "mf_NewGaugeVec (MTMetricFactory f) (opts, labelNames) (t, p) =
     Return (map_sum id PromGaugeVec (mt_NewGaugeVec f opts labelNames), t, p)"

fun mf_NewHistogramVec ::
  "MetricFactory \<Rightarrow> HistogramOpts \<times> string list \<Rightarrow> metrics_state \<Rightarrow> ((go_error + ObserverVec) \<times> metrics_state) outcome" where
  "mf_NewHistogramVec (StdMetricFactory f) (opts, labelNames) (t, p) =
     (let (r, p) = std_NewHistogramVec f opts labelNames p in Return (map_sum id PromHistogramVec r, t, p))"
| "mf_NewHistogramVec (MTMetricFactory f) (opts, labelNames) (t, p) =
     obind (mt_NewHistogramVec f opts labelNames t p) (\<lambda>(r, t, p). Return (map_sum id MTObserverVec r, t, p))"

fun factory_registries :: "MetricFactory \<Rightarrow> nat set" where
  "factory_registries (StdMetricFactory f) = {std_reg f}"
| "factory_registries (MTMetricFactory f) = {f_globalReg f, f_localRegistry f}"

text \<open>The state of a process in which the registries of a factory have been made.\<close>

definition metrics_ok :: "MetricFactory \<Rightarrow> metrics_state \<Rightarrow> bool" where
  "metrics_ok F s \<longleftrightarrow> prom_ok (snd s) \<and> tracker_ok (fst s) (snd s) \<and> (\<forall>r\<in>factory_registries F. r < p_next (snd s))"

lemma metrics_ok_step: "metrics_ok F s \<Longrightarrow> metrics_step s s' \<Longrightarrow> metrics_ok F s'"
  using metrics_step_ok [of s s'] metrics_step_extends [of s s'] by (auto simp: metrics_ok_def extends_def)

lemma metrics_ok_steps: "metrics_step\<^sup>*\<^sup>* s s' \<Longrightarrow> metrics_ok F s \<Longrightarrow> metrics_ok F s'"
  by (induction rule: rtranclp_induct) (auto intro: metrics_ok_step)

section \<open>What a factory promises\<close>

text \<open>
  The contract of a constructor: what it returned for a request \<open>holds\<close>, every step keeps what holds, and
  the constructor returns what holds. The client's lemma: the same request is always answered alike.
\<close>

locale lasting_constructor =
  fixes make :: "'q \<Rightarrow> 's \<Rightarrow> ((go_error + 'v) \<times> 's) outcome" and holds :: "'q \<Rightarrow> 'v \<Rightarrow> 's \<Rightarrow> bool"
    and step :: "'s \<Rightarrow> 's \<Rightarrow> bool" and ok :: "'s \<Rightarrow> bool"
  assumes made: "ok s \<Longrightarrow> make q s = Return (Inr v, s') \<Longrightarrow> holds q v s' \<and> ok s'"
    and step_ok: "ok s \<Longrightarrow> step s s' \<Longrightarrow> ok s'"
    and step_holds: "ok s \<Longrightarrow> holds q v s \<Longrightarrow> step s s' \<Longrightarrow> holds q v s'"
    and again: "ok s \<Longrightarrow> holds q v s \<Longrightarrow> \<exists>s'. make q s = Return (Inr v, s')"
begin

lemma still_holds: "step\<^sup>*\<^sup>* s s' \<Longrightarrow> ok s \<Longrightarrow> holds q v s \<Longrightarrow> holds q v s' \<and> ok s'"
  by (induction rule: rtranclp_induct) (auto intro: step_ok step_holds)

lemma lasts:
  assumes "ok s" "make q s = Return (Inr v, s')" "step\<^sup>*\<^sup>* s' s2"
  shows "\<exists>s3. make q s2 = Return (Inr v, s3)"
  using still_holds [OF assms(3)] made [OF assms(1,2)] again by blast

end

lemma fresh_vecs:
  "NewCounterVec opts names p = put (fresh_vec CounterK opts [] names) p"
  "NewGaugeVec opts names p = put (fresh_vec GaugeK opts [] names) p"
  "NewHistogramVec (opts, bs) names p = put (fresh_vec HistogramK opts bs names) p"
  by (simp_all add: NewCounterVec_def NewGaugeVec_def NewHistogramVec_def fresh_vec_def)

lemma std_vecs:
  "std_NewCounterVec f opts names p = make_vec (std_reg f) CounterK opts [] names (different_type opts) id p"
  "std_NewGaugeVec f opts names p = make_vec (std_reg f) GaugeK opts [] names (different_type opts) id p"
  "std_NewHistogramVec f (opts, bs) names p = make_vec (std_reg f) HistogramK opts bs names (different_type opts) id p"
  by (simp_all add: std_NewCounterVec_def std_NewGaugeVec_def std_NewHistogramVec_def fresh_vecs)

text \<open>A standard factory's vector is registered; a tenant's is a tracked global and a registered local one.\<close>

definition std_vec :: "stdMetricFactory \<Rightarrow> kind \<Rightarrow> Opts \<Rightarrow> string list \<Rightarrow> nat \<Rightarrow> metrics_state \<Rightarrow> bool" where
  "std_vec f k opts names x s \<longleftrightarrow> registered_as (std_reg f) (opts_desc opts names) k x (snd s)"

definition mt_vec :: "mtMetricFactory \<Rightarrow> kind \<Rightarrow> Opts \<Rightarrow> string list \<Rightarrow> nat \<Rightarrow> nat \<Rightarrow> metrics_state \<Rightarrow> bool" where
  "mt_vec f k opts names l g s \<longleftrightarrow> tracked_as (opts_key opts) names k g (fst s) (snd s)
     \<and> registered_as (f_localRegistry f) (opts_desc opts (names @ [''tenant_uid''])) k l (snd s)"

lemma vecs_step:
  assumes "metrics_ok F s" "metrics_step s s'"
  shows "std_vec f k opts names x s \<Longrightarrow> std_vec f k opts names x s'"
    and "mt_vec f' k opts names l g s \<Longrightarrow> mt_vec f' k opts names l g s'"
  using metrics_step_extends [OF assms(2)] assms(1)
  by (auto simp: std_vec_def mt_vec_def metrics_ok_def intro: registered_extends tracked_extends)

lemma std_vec_made:
  assumes "metrics_ok (StdMetricFactory f) (t, p)"
    and "make_vec (std_reg f) k opts bs names mismatch other p = (Inr x, p')"
  shows "std_vec f k opts names x (t, p') \<and> metrics_ok (StdMetricFactory f) (t, p')"
  using make_vec_registers(1) [OF _ _ assms(2)] metrics_ok_steps [OF make_vec_steps [OF assms(2)] assms(1)] assms(1)
  by (simp add: std_vec_def metrics_ok_def)

lemma mt_vec_made:
  assumes ok: "metrics_ok (MTMetricFactory f) (t, p)"
    and first: "getOrCreate (opts_key opts) names (is_vec k) msg (\<lambda>p. Return (put (fresh_vec k opts bs names) p)) r t p
      = Return (Inr g, t1, p1)" "metrics_step (t, p) (t1, p1)"
    and second: "make_vec (f_localRegistry f) k opts bs (names @ [''tenant_uid'']) mismatch other p1 = (Inr l, p')"
  shows "mt_vec f k opts names l g (t1, p') \<and> metrics_ok (MTMetricFactory f) (t1, p')"
proof -
  have ok1: "metrics_ok (MTMetricFactory f) (t1, p1)" by (rule metrics_ok_step [OF ok first(2)])
  have "tracked_as (opts_key opts) names k g t1 p1"
    using getOrCreate_tracks [OF _ _ first(1)] ok by (simp add: metrics_ok_def)
  moreover note make_vec_registers(1,2) [OF _ _ second]
  ultimately show ?thesis
    using ok1 metrics_ok_steps [OF make_vec_steps [OF second] ok1] tracked_extends
    by (auto simp: mt_vec_def metrics_ok_def)
qed

fun counter_vec_holds :: "MetricFactory \<Rightarrow> Opts \<times> string list \<Rightarrow> CounterVec \<Rightarrow> metrics_state \<Rightarrow> bool" where
  "counter_vec_holds (StdMetricFactory f) (opts, names) (PromCounterVec x) s = std_vec f CounterK opts names x s"
| "counter_vec_holds (MTMetricFactory f) (opts, names) (MTCounterVec v) s =
     (\<exists>l g. v = \<lparr>cv_tenantUID = f_tenantUID f, cv_local = Some l, cv_global = Some g\<rparr> \<and> mt_vec f CounterK opts names l g s)"
| "counter_vec_holds _ _ _ s = False"

fun gauge_vec_holds :: "MetricFactory \<Rightarrow> Opts \<times> string list \<Rightarrow> GaugeVec \<Rightarrow> metrics_state \<Rightarrow> bool" where
  "gauge_vec_holds (StdMetricFactory f) (opts, names) (PromGaugeVec x) s = std_vec f GaugeK opts names x s"
| "gauge_vec_holds _ _ _ s = False"

fun histogram_vec_holds :: "MetricFactory \<Rightarrow> HistogramOpts \<times> string list \<Rightarrow> ObserverVec \<Rightarrow> metrics_state \<Rightarrow> bool" where
  "histogram_vec_holds (StdMetricFactory f) (opts, names) (PromHistogramVec x) s = std_vec f HistogramK (fst opts) names x s"
| "histogram_vec_holds (MTMetricFactory f) (opts, names) (MTObserverVec v) s =
     (\<exists>l g. v = \<lparr>ov_tenantUID = f_tenantUID f, ov_local = Some l, ov_global = Some g\<rparr> \<and> mt_vec f HistogramK (fst opts) names l g s)"
| "histogram_vec_holds _ _ _ s = False"

lemma metrics_okD: "metrics_ok F s \<Longrightarrow> heap_ok (snd s)" "metrics_ok F s \<Longrightarrow> prom_ok (snd s)"
  by (simp_all add: metrics_ok_def prom_ok_def)

lemma mt_counter_made:
  assumes "metrics_ok (MTMetricFactory f) (t, p)" "mt_NewCounterVec f opts names t p = Return (Inr v, t', p')"
  shows "counter_vec_holds (MTMetricFactory f) (opts, names) (MTCounterVec v) (t', p') \<and> metrics_ok (MTMetricFactory f) (t', p')"
proof -
  obtain y t1 p1 where y: "getOrCreateCounterVec opts names (f_globalReg f) t p = Return (y, t1, p1)"
    using assms(2) by (auto simp: mt_NewCounterVec_def obind_Return_iff)
  with assms(2) obtain g where "y = Inr g" by (cases y) (auto simp: mt_NewCounterVec_def)
  with y have g: "getOrCreateCounterVec opts names (f_globalReg f) t p = Return (Inr g, t1, p1)" by simp
  let ?make = "make_vec (f_localRegistry f) CounterK opts [] (names @ [''tenant_uid''])
      (\<lambda>_. Errorf ''local counter vec %q already registered with different type'' [op_Name opts])
      (Wrapf ''failed to register local counter vec: %w'' []) p1"
  obtain l where l: "?make = (Inr l, p')" "t' = t1"
      "v = \<lparr>cv_tenantUID = f_tenantUID f, cv_local = Some l, cv_global = Some g\<rparr>"
    using assms(2) g by (auto simp: mt_NewCounterVec_def fresh_vecs split: sum.splits prod.splits)
  show ?thesis
    using mt_vec_made [OF assms(1) g [unfolded getOrCreateCounterVec_def fresh_vecs] step_counter_vec [OF g] l(1)] l(2,3) by simp
qed

lemma mt_histogram_made:
  assumes "metrics_ok (MTMetricFactory f) (t, p)" "mt_NewHistogramVec f (opts, bs) names t p = Return (Inr v, t', p')"
  shows "histogram_vec_holds (MTMetricFactory f) ((opts, bs), names) (MTObserverVec v) (t', p') \<and> metrics_ok (MTMetricFactory f) (t', p')"
proof -
  obtain y t1 p1 where y: "getOrCreateHistogramVec (opts, bs) names (f_globalReg f) t p = Return (y, t1, p1)"
    using assms(2) by (auto simp: mt_NewHistogramVec_def obind_Return_iff)
  with assms(2) obtain g where "y = Inr g" by (cases y) (auto simp: mt_NewHistogramVec_def)
  with y have g: "getOrCreateHistogramVec (opts, bs) names (f_globalReg f) t p = Return (Inr g, t1, p1)" by simp
  let ?make = "make_vec (f_localRegistry f) HistogramK opts bs (names @ [''tenant_uid''])
      (\<lambda>_. Errorf ''local histogram vec %q already registered with different type'' [op_Name opts])
      (Wrapf ''failed to register local histogram vec: %w'' []) p1"
  obtain l where l: "?make = (Inr l, p')" "t' = t1"
      "v = \<lparr>ov_tenantUID = f_tenantUID f, ov_local = Some l, ov_global = Some g\<rparr>"
    using assms(2) g by (auto simp: mt_NewHistogramVec_def fresh_vecs split: sum.splits prod.splits)
  show ?thesis
    using mt_vec_made [OF assms(1) g [unfolded getOrCreateHistogramVec_def fresh_vecs fst_conv] step_histogram_vec [OF g] l(1)] l(2,3)
    by simp
qed

text \<open>Both constructors of a tenant's factory return what holds.\<close>

lemma mt_again:
  assumes ok: "heap_ok p" and vec: "mt_vec f k opts names l g (t, p)"
  shows "k = CounterK \<Longrightarrow> \<exists>p'. mt_NewCounterVec f opts names t p =
      Return (Inr \<lparr>cv_tenantUID = f_tenantUID f, cv_local = Some l, cv_global = Some g\<rparr>, t, p')"
    and "k = HistogramK \<Longrightarrow> \<exists>p'. mt_NewHistogramVec f (opts, bs) names t p =
      Return (Inr \<lparr>ov_tenantUID = f_tenantUID f, ov_local = Some l, ov_global = Some g\<rparr>, t, p')"
proof -
  note v = vec [unfolded mt_vec_def fst_conv snd_conv]
  note got = getOrCreate_again [OF v [THEN conjunct1]]
  note l = make_vec_again [OF ok v [THEN conjunct2]]
  show "\<exists>p'. mt_NewCounterVec f opts names t p =
      Return (Inr \<lparr>cv_tenantUID = f_tenantUID f, cv_local = Some l, cv_global = Some g\<rparr>, t, p')" if "k = CounterK"
    using l [of "[]" "\<lambda>_. Errorf ''local counter vec %q already registered with different type'' [op_Name opts]"
        "Wrapf ''failed to register local counter vec: %w'' []"] that
    by (auto simp: mt_NewCounterVec_def getOrCreateCounterVec_def got [unfolded that] fresh_vecs split: prod.splits)
  show "\<exists>p'. mt_NewHistogramVec f (opts, bs) names t p =
      Return (Inr \<lparr>ov_tenantUID = f_tenantUID f, ov_local = Some l, ov_global = Some g\<rparr>, t, p')" if "k = HistogramK"
    using l [of bs "\<lambda>_. Errorf ''local histogram vec %q already registered with different type'' [op_Name opts]"
        "Wrapf ''failed to register local histogram vec: %w'' []"] that
    by (auto simp: mt_NewHistogramVec_def getOrCreateHistogramVec_def got [unfolded that] fresh_vecs split: prod.splits)
qed

text \<open>The constructors keep the contract: a standard factory's, for a type \<open>wrap\<close> of the interface.\<close>

lemma std_contract:
  assumes "metrics_ok (StdMetricFactory f) (t, p)"
  shows "(let (r, p) = make_vec (std_reg f) k opts bs names mismatch other p in Return (map_sum id wrap r, t, p)) = Return (Inr v, s') \<Longrightarrow>
      \<exists>x. v = wrap x \<and> std_vec f k opts names x s' \<and> metrics_ok (StdMetricFactory f) s'"
    and "std_vec f k opts names x (t, p) \<Longrightarrow>
      \<exists>s'. (let (r, p) = make_vec (std_reg f) k opts bs names mismatch other p in Return (map_sum id wrap r, t, p)) = Return (Inr (wrap x), s')"
proof -
  let ?new = "make_vec (std_reg f) k opts bs names mismatch other p"
  show "\<exists>x. v = wrap x \<and> std_vec f k opts names x s' \<and> metrics_ok (StdMetricFactory f) s'"
    if made: "(let (r, p) = ?new in Return (map_sum id wrap r, t, p)) = Return (Inr v, s')"
  proof -
    obtain y p' where y: "?new = (y, p')" by (metis surj_pair)
    then obtain x where "y = Inr x" "v = wrap x" "s' = (t, p')" using made by (auto simp: map_sum_Inr_iff split: prod.splits)
    then show ?thesis using std_vec_made [OF assms] y by blast
  qed
  show "\<exists>s'. (let (r, p) = ?new in Return (map_sum id wrap r, t, p)) = Return (Inr (wrap x), s')"
    if "std_vec f k opts names x (t, p)"
    using make_vec_again [of p "std_reg f" opts names k x bs mismatch other] that metrics_okD(1) [OF assms]
    by (auto simp: std_vec_def split: prod.splits)
qed

lemma mf_counter_vec_contract:
  assumes "metrics_ok F s"
  shows "mf_NewCounterVec F q s = Return (Inr v, s') \<Longrightarrow> counter_vec_holds F q v s' \<and> metrics_ok F s'"
    and "counter_vec_holds F q v s \<Longrightarrow> \<exists>s'. mf_NewCounterVec F q s = Return (Inr v, s')"
proof -
  obtain opts names t p where q: "q = (opts, names)" "s = (t, p)" by (metis surj_pair)
  note std = std_contract [where k = CounterK and opts = opts and names = names and bs = "[]" and wrap = PromCounterVec]
  show "counter_vec_holds F q v s' \<and> metrics_ok F s'" if "mf_NewCounterVec F q s = Return (Inr v, s')"
    using that assms unfolding q
    by (cases F) (auto simp: std_vecs obind_Return_iff map_sum_Inr_iff dest: std(1) mt_counter_made)
  show "\<exists>s'. mf_NewCounterVec F q s = Return (Inr v, s')" if "counter_vec_holds F q v s"
    using that assms mt_again(1) [of p _ CounterK opts names _ _ t] metrics_okD(1) [OF assms] unfolding q
    by (cases F; cases v) (fastforce simp: std_vecs dest: std(2))+
qed

lemma mf_gauge_vec_contract:
  assumes "metrics_ok F s"
  shows "mf_NewGaugeVec F q s = Return (Inr v, s') \<Longrightarrow> gauge_vec_holds F q v s' \<and> metrics_ok F s'"
    and "gauge_vec_holds F q v s \<Longrightarrow> \<exists>s'. mf_NewGaugeVec F q s = Return (Inr v, s')"
proof -
  obtain opts names t p where q: "q = (opts, names)" "s = (t, p)" by (metis surj_pair)
  note std = std_contract [where k = GaugeK and opts = opts and names = names and bs = "[]" and wrap = PromGaugeVec]
  show "gauge_vec_holds F q v s' \<and> metrics_ok F s'" if "mf_NewGaugeVec F q s = Return (Inr v, s')"
    using that assms unfolding q by (cases F) (auto simp: std_vecs mt_NewGaugeVec_def dest: std(1))
  show "\<exists>s'. mf_NewGaugeVec F q s = Return (Inr v, s')" if "gauge_vec_holds F q v s"
    using that assms unfolding q by (cases F; cases v) (fastforce simp: std_vecs dest: std(2))+
qed

lemma mf_histogram_vec_contract:
  assumes "metrics_ok F s"
  shows "mf_NewHistogramVec F q s = Return (Inr v, s') \<Longrightarrow> histogram_vec_holds F q v s' \<and> metrics_ok F s'"
    and "histogram_vec_holds F q v s \<Longrightarrow> \<exists>s'. mf_NewHistogramVec F q s = Return (Inr v, s')"
proof -
  obtain opts bs names t p where q: "q = ((opts, bs), names)" "s = (t, p)" by (metis surj_pair)
  note std = std_contract [where k = HistogramK and opts = opts and names = names and bs = bs and wrap = PromHistogramVec]
  show "histogram_vec_holds F q v s' \<and> metrics_ok F s'" if "mf_NewHistogramVec F q s = Return (Inr v, s')"
    using that assms unfolding q
    by (cases F) (auto simp: std_vecs obind_Return_iff map_sum_Inr_iff dest: std(1) mt_histogram_made)
  show "\<exists>s'. mf_NewHistogramVec F q s = Return (Inr v, s')" if "histogram_vec_holds F q v s"
    using that assms mt_again(2) [of p _ HistogramK opts names _ _ t bs] metrics_okD(1) [OF assms] unfolding q
    by (cases F; cases v) (fastforce simp: std_vecs dest: std(2))+
qed

lemma vec_holds_step:
  assumes "metrics_ok F s" "metrics_step s s'"
  shows "counter_vec_holds F q v s \<Longrightarrow> counter_vec_holds F q v s'"
    and "gauge_vec_holds F q w s \<Longrightarrow> gauge_vec_holds F q w s'"
    and "histogram_vec_holds F h x s \<Longrightarrow> histogram_vec_holds F h x s'"
  using vecs_step [OF assms]
  by ((cases F; cases q; cases v; auto)[1], (cases F; cases q; cases w; auto)[1], (cases F; cases h; cases x; auto)[1])

interpretation counter_vecs: lasting_constructor "mf_NewCounterVec F" "counter_vec_holds F" metrics_step "metrics_ok F"
  for F by unfold_locales (auto intro: metrics_ok_step vec_holds_step(1) dest: mf_counter_vec_contract)

interpretation gauge_vecs: lasting_constructor "mf_NewGaugeVec F" "gauge_vec_holds F" metrics_step "metrics_ok F"
  for F by unfold_locales (auto intro: metrics_ok_step vec_holds_step(2) dest: mf_gauge_vec_contract)

interpretation histogram_vecs: lasting_constructor "mf_NewHistogramVec F" "histogram_vec_holds F" metrics_step "metrics_ok F"
  for F by unfold_locales (auto intro: metrics_ok_step vec_holds_step(3) dest: mf_histogram_vec_contract)

section \<open>The property\<close>

definition lasts :: "(metrics_state \<Rightarrow> ((go_error + 'v) \<times> metrics_state) outcome) \<Rightarrow> metrics_state \<Rightarrow> bool" where
  "lasts new s \<longleftrightarrow> (\<forall>v s1 s2. new s = Return (Inr v, s1) \<longrightarrow> metrics_step\<^sup>*\<^sup>* s1 s2 \<longrightarrow> (\<exists>s3. new s2 = Return (Inr v, s3)))"

text \<open>C28.
  A vector is made once. Whatever the type of a factory, single-tenant or multi-tenant: once it has
  returned a counter, gauge or histogram vector for some options and labels, it returns this vector
  whenever it is asked again with them, without an error, after any operations of this and of other
  factories, of the registries and of the metrics, resets included. (Nothing here unregisters a
  collector.)
\<close>

theorem metric_vectors_last:
  assumes "metrics_reachable s" "\<forall>r\<in>factory_registries F. r < p_next (snd s)"
  shows "lasts (mf_NewCounterVec F q) s \<and> lasts (mf_NewGaugeVec F q) s \<and> lasts (mf_NewHistogramVec F h) s"
proof -
  have "metrics_ok F s" using metrics_reachable_ok [OF assms(1)] assms(2) by (simp add: metrics_ok_def)
  then show ?thesis
    unfolding lasts_def using counter_vecs.lasts gauge_vecs.lasts histogram_vecs.lasts by blast
qed

text \<open>A tenant makes its first counter vector, the vector at address 2 is reset, and it asks again.\<close>

theorem metric_vectors_last_witness:
  "\<exists>f p v t' p' s3. mf_NewCounterVec (MTMetricFactory f) (demo_opts, [''code'']) (NewGlobalMetricsTracker, p) = Return (Inr v, t', p')
    \<and> mf_NewCounterVec (MTMetricFactory f) (demo_opts, [''code'']) (t', vec_Reset 2 p') = Return (Inr v, s3)"
proof -
  obtain f p v t' p' where f: "metrics_reachable (NewGlobalMetricsTracker, p)" "f_globalReg f < p_next p" "f_localRegistry f < p_next p"
    "mt_NewCounterVec f demo_opts [''code''] NewGlobalMetricsTracker p = Return (Inr v, t', p')"
    using demo_first_vec by blast
  then have new: "mf_NewCounterVec (MTMetricFactory f) (demo_opts, [''code'']) (NewGlobalMetricsTracker, p) = Return (Inr (MTCounterVec v), t', p')"
    by simp
  have "metrics_step\<^sup>*\<^sup>* (t', p') (t', vec_Reset 2 p')" using step_reset by blast
  then show ?thesis
    using metric_vectors_last [OF f(1), of "MTMetricFactory f" "(demo_opts, [''code''])"] f(2,3) new
    unfolding lasts_def by fastforce
qed

end
