(* ===== verification/MultiGather.thy ===== *)
theory MultiGather imports Prometheus "HOL-Library.Multiset" "HOL-Library.Product_Lexorder" begin

text \<open>
  \<open>pkg/mtmetrics/gatherer.go\<close>: the gatherers of the tenants, and \<open>Gatherers.Gather\<close> of the
  Prometheus client, which merges what they gather.

  A gatherer is a parameter: the model holds what it returns when it is called, its metric
  families and its errors (\<open>nil\<close> as no error, a \<open>MultiError\<close> as several).
\<close>

section \<open>Gathered metrics (vendored)\<close>

datatype metric_type = COUNTER | GAUGE | SUMMARY | UNTYPED | HISTOGRAM

text \<open>\<open>'v\<close>: what a metric shows; \<open>mo_payload\<close> says for which type it is.\<close>

record 'v dto_metric =
  mo_Label :: "(string \<times> string) list"
  mo_payload :: metric_type
  mo_value :: 'v
  mo_TimestampMs :: "int option"

record 'v MetricFamily =
  mf_Name :: string
  mf_Help :: string
  mf_Type :: metric_type
  mf_Metric :: "'v dto_metric list"

type_synonym 'v gathered = "'v MetricFamily list \<times> go_error list"

definition HasSuffix :: "string \<Rightarrow> string \<Rightarrow> bool" where
  "HasSuffix s suf \<longleftrightarrow> length suf \<le> length s \<and> drop (length s - length suf) s = suf"

definition without_suffix :: "string \<Rightarrow> string" where
  "without_suffix name =
     (if HasSuffix name ''_count'' then take (length name - 6) name
      else if HasSuffix name ''_sum'' then take (length name - 4) name
      else if HasSuffix name ''_bucket'' then take (length name - 7) name else [])"

definition checkSuffixCollisions :: "'v MetricFamily \<Rightarrow> (string \<rightharpoonup> 'v MetricFamily) \<Rightarrow> error" where
  "checkSuffixCollisions mf mfs = (
     let newName = mf_Name mf; newType = mf_Type mf; base = without_suffix newName;
         base_type = (if base = [] then None else map_option mf_Type (mfs base));
         taken = (\<lambda>suf. mfs (newName @ suf) \<noteq> None)
     in if base_type = Some SUMMARY \<and> \<not> HasSuffix newName ''_bucket''
        then Some (Errorf ''collected metric named %q collides with previously collected summary named %q'' [newName, base])
        else if base_type = Some HISTOGRAM
        then Some (Errorf ''collected metric named %q collides with previously collected histogram named %q'' [newName, base])
        else if newType \<in> {SUMMARY, HISTOGRAM} \<and> taken ''_count''
        then Some (Errorf ''collected histogram or summary named %q collides with previously collected metric named %q''
               [newName, newName @ ''_count''])
        else if newType \<in> {SUMMARY, HISTOGRAM} \<and> taken ''_sum''
        then Some (Errorf ''collected histogram or summary named %q collides with previously collected metric named %q''
               [newName, newName @ ''_sum''])
        else if newType = HISTOGRAM \<and> taken ''_bucket''
        then Some (Errorf ''collected histogram named %q collides with previously collected metric named %q''
               [newName, newName @ ''_bucket''])
        else None)"

text \<open>
  The hash of a metric is what is hashed: its name, its labels in the order of their names, and
  its time stamp.
\<close>

type_synonym metric_hash = "string \<times> (string \<times> string) list \<times> int option"

fun check_labels :: "string \<Rightarrow> metric_type \<Rightarrow> string \<Rightarrow> (string \<times> string) list \<Rightarrow> error" where
  "check_labels name ty prev [] = None"
| "check_labels name ty prev ((n, v) # ls) =
     (if n = prev then Some (Errorf ''collected metric %q has two or more labels with the same name: %s'' [name, n])
      else if \<not> checkLabelName n then Some (Errorf ''collected metric %q has a label with an invalid name: %s'' [name, n])
      else if ty = SUMMARY \<and> n = ''quantile'' then Some (Errorf ''collected metric %q must not have an explicit %q label'' [name, n])
      else if \<not> ValidString v then Some (Errorf ''collected metric %q has a label named %q whose value is not utf8: %#v'' [name, n, v])
      else check_labels name ty n ls)"

definition sorted_labels :: "'v dto_metric \<Rightarrow> (string \<times> string) list" where
  "sorted_labels m = sort_key fst (mo_Label m)"

definition hash_of :: "string \<Rightarrow> 'v dto_metric \<Rightarrow> metric_hash" where
  "hash_of name m = (name, sorted_labels m, mo_TimestampMs m)"

definition checkMetricConsistency :: "'v MetricFamily \<Rightarrow> 'v dto_metric \<Rightarrow> metric_hash set \<Rightarrow> error \<times> metric_hash set" where
  "checkMetricConsistency mf m hashes =
     (if mf_Type mf \<noteq> mo_payload m
      then (Some (Errorf ''collected metric %q is not a %s'' [mf_Name mf]), hashes)
      else case check_labels (mf_Name mf) (mo_payload m) [] (mo_Label m) of
        Some e \<Rightarrow> (Some e, hashes)
      | None \<Rightarrow>
          if hash_of (mf_Name mf) m \<in> hashes
          then (Some (Errorf ''collected metric %q was collected before with the same name and label values'' [mf_Name mf]), hashes)
          else (None, insert (hash_of (mf_Name mf) m) hashes))"

section \<open>\<open>Gatherers.Gather\<close> (vendored)\<close>

record 'v gather_state =
  gs_families :: "string \<rightharpoonup> 'v MetricFamily"
  gs_hashes :: "metric_hash set"
  gs_errs :: "go_error list"

definition add_err :: "go_error \<Rightarrow> 'v gather_state \<Rightarrow> 'v gather_state" where
  "add_err e st = st\<lparr>gs_errs := gs_errs st @ [e]\<rparr>"

definition gather_metric :: "string \<Rightarrow> 'v gather_state \<Rightarrow> 'v dto_metric \<Rightarrow> 'v gather_state" where
  "gather_metric name st m = (case gs_families st name of
     None \<Rightarrow> st
   | Some ex \<Rightarrow> (case checkMetricConsistency ex m (gs_hashes st) of
        (Some e, _) \<Rightarrow> add_err e st
      | (None, hashes) \<Rightarrow> st\<lparr>gs_hashes := hashes, gs_families := (gs_families st)(name \<mapsto>
          ex\<lparr>mf_Metric := mf_Metric ex @ [m\<lparr>mo_Label := sorted_labels m\<rparr>]\<rparr>)\<rparr>))"

definition gather_family :: "'v gather_state \<Rightarrow> 'v MetricFamily \<Rightarrow> 'v gather_state" where
  "gather_family st mf = (case gs_families st (mf_Name mf) of
     Some ex \<Rightarrow>
       if mf_Help ex \<noteq> mf_Help mf
       then add_err (Errorf ''gathered metric family %s has help %q but should have %q'' [mf_Name mf, mf_Help mf, mf_Help ex]) st
       else if mf_Type ex \<noteq> mf_Type mf
       then add_err (Errorf ''gathered metric family %s has type %s but should have %s'' [mf_Name mf]) st
       else foldl (gather_metric (mf_Name mf)) st (mf_Metric mf)
   | None \<Rightarrow> (case checkSuffixCollisions mf (gs_families st) of
        Some e \<Rightarrow> add_err e st
      | None \<Rightarrow> foldl (gather_metric (mf_Name mf))
          (st\<lparr>gs_families := (gs_families st)(mf_Name mf \<mapsto> mf\<lparr>mf_Metric := []\<rparr>)\<rparr>) (mf_Metric mf)))"

definition gather_one :: "'v gather_state \<Rightarrow> 'v gathered \<Rightarrow> 'v gather_state" where
  "gather_one st g = foldl gather_family
     (st\<lparr>gs_errs := gs_errs st @ map (Wrapf ''[from Gatherer #%d] %w'' []) (snd g)\<rparr>) (fst g)"

definition metric_order :: "'v dto_metric \<Rightarrow> nat \<times> string list \<times> nat \<times> int" where
  "metric_order m = (length (mo_Label m), map snd (mo_Label m),
     (case mo_TimestampMs m of Some t \<Rightarrow> (0, t) | None \<Rightarrow> (1, 0)))"

text \<open>\<open>names\<close>: the names in the map, in order.\<close>

definition NormalizeMetricFamilies :: "string list \<Rightarrow> (string \<rightharpoonup> 'v MetricFamily) \<Rightarrow> 'v MetricFamily list" where
  "NormalizeMetricFamilies names mfs =
     map (\<lambda>mf. mf\<lparr>mf_Metric := sort_key metric_order (mf_Metric mf)\<rparr>)
       (filter (\<lambda>mf. mf_Metric mf \<noteq> []) (List.map_filter mfs names))"

definition Gatherers_Gather :: "'v gathered list \<Rightarrow> 'v gathered" where
  "Gatherers_Gather gs = (
     let st = foldl gather_one \<lparr>gs_families = Map.empty, gs_hashes = {}, gs_errs = []\<rparr> gs
     in (NormalizeMetricFamilies (sort (remdups (map mf_Name (concat (map fst gs))))) (gs_families st), gs_errs st))"

section \<open>The gatherers of the tenants\<close>

record 'g MultiGatherer =
  gatherers :: "(string, 'g) fmap"

definition NewMultiGatherer :: "'g MultiGatherer" where
  "NewMultiGatherer = \<lparr>gatherers = fmempty\<rparr>"

definition mg_Register :: "string \<Rightarrow> 'g \<Rightarrow> 'g MultiGatherer \<Rightarrow> error \<times> 'g MultiGatherer" where
  "mg_Register tenantUID g m = (case fmlookup (gatherers m) tenantUID of
     Some _ \<Rightarrow> (Some (Errorf ''tenant %q already registered'' [tenantUID]), m)
   | None \<Rightarrow> (None, m\<lparr>gatherers := fmupd tenantUID g (gatherers m)\<rparr>))"

definition mg_Unregister :: "string \<Rightarrow> 'g MultiGatherer \<Rightarrow> 'g MultiGatherer" where
  "mg_Unregister tenantUID m = m\<lparr>gatherers := fmdrop tenantUID (gatherers m)\<rparr>"

definition mg_Gather :: "'v gathered MultiGatherer \<Rightarrow> 'v gathered" where
  "mg_Gather m = Gatherers_Gather
     (List.map_filter (fmlookup (gatherers m)) (sorted_list_of_fset (fmdom (gatherers m))))"


section \<open>Families that go together\<close>

text \<open>The metrics of a name, in the order of the families, and every metric with its name.\<close>

definition named :: "string \<Rightarrow> 'v MetricFamily list \<Rightarrow> 'v dto_metric list" where
  "named n mfs = concat (map mf_Metric (filter (\<lambda>mf. mf_Name mf = n) mfs))"

definition hashes_of :: "'v MetricFamily list \<Rightarrow> metric_hash list" where
  "hashes_of mfs = concat (map (\<lambda>mf. map (hash_of (mf_Name mf)) (mf_Metric mf)) mfs)"

definition normal :: "'v dto_metric \<Rightarrow> 'v dto_metric" where
  "normal m = m\<lparr>mo_Label := sorted_labels m\<rparr>"

lemma hashes_of_simps [simp]:
  "hashes_of [] = []" "hashes_of (mf # F) = map (hash_of (mf_Name mf)) (mf_Metric mf) @ hashes_of F"
  "hashes_of (F @ G) = hashes_of F @ hashes_of G"
  by (simp_all add: hashes_of_def)

lemma named_simps [simp]:
  "named n [] = []" "named n (mf # F) = (if mf_Name mf = n then mf_Metric mf else []) @ named n F"
  "named n (F @ G) = named n F @ named n G"
  by (simp_all add: named_def)

text \<open>A family with the help and the type that everybody gives its name, and well-formed metrics.\<close>

definition family_ok :: "(string \<Rightarrow> string) \<Rightarrow> (string \<Rightarrow> metric_type) \<Rightarrow> 'v MetricFamily \<Rightarrow> bool" where
  "family_ok H T mf \<longleftrightarrow> mf_Help mf = H (mf_Name mf) \<and> mf_Type mf = T (mf_Name mf)
     \<and> (\<forall>m\<in>set (mf_Metric mf). mo_payload m = T (mf_Name mf)
          \<and> check_labels (mf_Name mf) (mo_payload m) [] (mo_Label m) = None)"

definition suffix_free :: "string set \<Rightarrow> bool" where
  "suffix_free N \<longleftrightarrow> (\<forall>n\<in>N. \<forall>suf\<in>{''_count'', ''_sum'', ''_bucket''}. n @ suf \<notin> N)"

lemma suffix_free_mono:
  assumes "suffix_free N" "M \<subseteq> N"
  shows "suffix_free M"
  unfolding suffix_free_def
proof (intro ballI notI)
  fix n suf assume h: "n \<in> M" "suf \<in> {''_count'', ''_sum'', ''_bucket''}" "n @ suf \<in> M"
  then have "n \<in> N" "n @ suf \<in> N" using assms(2) by blast+
  then show False using assms(1) h(2) unfolding suffix_free_def by blast
qed

lemma HasSuffix_append: "HasSuffix s suf \<Longrightarrow> take (length s - length suf) s @ suf = s"
  unfolding HasSuffix_def by (metis append_take_drop_id)

lemma without_suffix_append:
  assumes "without_suffix n \<noteq> []"
  obtains suf where "suf \<in> {''_count'', ''_sum'', ''_bucket''}" "without_suffix n @ suf = n"
proof -
  consider "HasSuffix n ''_count''" | "\<not> HasSuffix n ''_count''" "HasSuffix n ''_sum''"
    | "\<not> HasSuffix n ''_count''" "\<not> HasSuffix n ''_sum''" "HasSuffix n ''_bucket''"
    using assms unfolding without_suffix_def by presburger
  then show ?thesis
  proof cases
    case 1
    then show ?thesis using HasSuffix_append [OF 1] that [of "''_count''"] by (simp add: without_suffix_def eval_nat_numeral)
  next
    case 2
    then show ?thesis using HasSuffix_append [OF 2(2)] that [of "''_sum''"] by (simp add: without_suffix_def eval_nat_numeral)
  next
    case 3
    then show ?thesis using HasSuffix_append [OF 3(3)] that [of "''_bucket''"] by (simp add: without_suffix_def eval_nat_numeral)
  qed
qed

lemma no_suffix_collision:
  assumes free: "suffix_free N" and mf: "mf_Name mf \<in> N" and dom: "dom mfs \<subseteq> N"
  shows "checkSuffixCollisions mf mfs = None"
proof -
  have out: "mfs x = None" if "x \<notin> N" for x using that dom by blast
  have "mfs (mf_Name mf @ suf) = None" if "suf \<in> {''_count'', ''_sum'', ''_bucket''}" for suf
    using free mf that unfolding suffix_free_def by (intro out) blast
  then have "mfs (mf_Name mf @ ''_count'') = None" "mfs (mf_Name mf @ ''_sum'') = None" "mfs (mf_Name mf @ ''_bucket'') = None"
    by simp_all
  moreover have "mfs (without_suffix (mf_Name mf)) = None" if nil: "without_suffix (mf_Name mf) \<noteq> []"
  proof -
    obtain suf where "suf \<in> {''_count'', ''_sum'', ''_bucket''}" "without_suffix (mf_Name mf) @ suf = mf_Name mf"
      using without_suffix_append [OF nil] .
    then show ?thesis using free mf unfolding suffix_free_def by (intro out) metis
  qed
  ultimately show ?thesis by (auto simp: checkSuffixCollisions_def Let_def)
qed

text \<open>The state after the families \<open>F\<close>, when nothing was wrong with them.\<close>

definition gathered_state :: "(string \<Rightarrow> string) \<Rightarrow> (string \<Rightarrow> metric_type) \<Rightarrow> 'v MetricFamily list \<Rightarrow> 'v gather_state" where
  "gathered_state H T F = \<lparr>
     gs_families = (\<lambda>n. if n \<in> mf_Name ` set F
       then Some \<lparr>mf_Name = n, mf_Help = H n, mf_Type = T n, mf_Metric = map normal (named n F)\<rparr> else None),
     gs_hashes = set (hashes_of F), gs_errs = []\<rparr>"

lemma gather_metric_ok:
  assumes "gs_families st n = Some ex" "mf_Name ex = n" "mf_Type ex = mo_payload m"
    and "check_labels n (mo_payload m) [] (mo_Label m) = None" "hash_of n m \<notin> gs_hashes st"
  shows "gather_metric n st m = st\<lparr>gs_hashes := insert (hash_of n m) (gs_hashes st),
    gs_families := (gs_families st)(n \<mapsto> ex\<lparr>mf_Metric := mf_Metric ex @ [normal m]\<rparr>)\<rparr>"
  using assms by (simp add: gather_metric_def checkMetricConsistency_def normal_def)

lemma gather_metrics_ok:
  assumes "gs_families st n = Some ex" "mf_Name ex = n"
    and "\<forall>m\<in>set ms. mf_Type ex = mo_payload m \<and> check_labels n (mo_payload m) [] (mo_Label m) = None"
    and "distinct (map (hash_of n) ms)" "set (map (hash_of n) ms) \<inter> gs_hashes st = {}"
  shows "foldl (gather_metric n) st ms = st\<lparr>gs_hashes := gs_hashes st \<union> set (map (hash_of n) ms),
    gs_families := (gs_families st)(n \<mapsto> ex\<lparr>mf_Metric := mf_Metric ex @ map normal ms\<rparr>)\<rparr>"
  using assms
proof (induction ms arbitrary: st ex)
  case Nil
  then show ?case by (simp add: fun_upd_idem)
next
  case (Cons m ms)
  let ?ex = "ex\<lparr>mf_Metric := mf_Metric ex @ [normal m]\<rparr>"
  let ?st = "st\<lparr>gs_hashes := insert (hash_of n m) (gs_hashes st), gs_families := (gs_families st)(n \<mapsto> ?ex)\<rparr>"
  have 1: "gather_metric n st m = ?st"
    using Cons.prems by (intro gather_metric_ok) auto
  have "foldl (gather_metric n) ?st ms = ?st\<lparr>gs_hashes := gs_hashes ?st \<union> set (map (hash_of n) ms),
    gs_families := (gs_families ?st)(n \<mapsto> ?ex\<lparr>mf_Metric := mf_Metric ?ex @ map normal ms\<rparr>)\<rparr>"
    by (rule Cons.IH) (use Cons.prems in auto)
  then show ?case using 1 by (simp add: fun_upd_def cong: if_cong)
qed

lemma gather_family_ok:
  assumes ok: "family_ok H T mf" and free: "suffix_free N" "mf_Name ` set (F @ [mf]) \<subseteq> N"
    and new: "distinct (hashes_of (F @ [mf]))"
  shows "gather_family (gathered_state H T F) mf = gathered_state H T (F @ [mf])"
proof -
  let ?st = "gathered_state H T F" and ?n = "mf_Name mf"
  let ?ex = "\<lparr>mf_Name = ?n, mf_Help = H ?n, mf_Type = T ?n, mf_Metric = map normal (named ?n F)\<rparr>"
  let ?st1 = "?st\<lparr>gs_families := (gs_families ?st)(?n \<mapsto> ?ex)\<rparr>"
  have nil: "named ?n F = []" if "?n \<notin> mf_Name ` set F"
    using that by (induction F) auto
  have "gather_family ?st mf = foldl (gather_metric ?n) ?st1 (mf_Metric mf)"
  proof (cases "?n \<in> mf_Name ` set F")
    case True
    then have "gs_families ?st ?n = Some ?ex" by (simp add: gathered_state_def)
    then show ?thesis using ok by (simp add: gather_family_def family_ok_def fun_upd_idem)
  next
    case False
    have "dom (gs_families ?st) \<subseteq> N" using free(2) by (auto simp: gathered_state_def split: if_splits)
    then have "checkSuffixCollisions mf (gs_families ?st) = None"
      using no_suffix_collision [OF free(1), of mf] free(2) by simp
    moreover have "mf\<lparr>mf_Metric := []\<rparr> = ?ex" using nil [OF False] ok by (simp add: family_ok_def)
    moreover have "gs_families ?st ?n = None" using False by (simp add: gathered_state_def)
    ultimately show ?thesis by (simp add: gather_family_def)
  qed
  also have "\<dots> = ?st1\<lparr>gs_hashes := gs_hashes ?st1 \<union> set (map (hash_of ?n) (mf_Metric mf)),
      gs_families := (gs_families ?st1)(?n \<mapsto> ?ex\<lparr>mf_Metric := mf_Metric ?ex @ map normal (mf_Metric mf)\<rparr>)\<rparr>"
  proof (rule gather_metrics_ok)
    show "distinct (map (hash_of ?n) (mf_Metric mf))" "set (map (hash_of ?n) (mf_Metric mf)) \<inter> gs_hashes ?st1 = {}"
      using new by (simp_all add: gathered_state_def Int_commute)
  qed (use ok in \<open>auto simp: family_ok_def\<close>)
  also have "\<dots> = gathered_state H T (F @ [mf])"
    by (simp add: gathered_state_def fun_eq_iff)
  finally show ?thesis .
qed

lemma gather_families_ok:
  assumes "suffix_free (mf_Name ` set F)"
  shows "\<forall>mf\<in>set F. family_ok H T mf \<Longrightarrow> distinct (hashes_of F) \<Longrightarrow> F = F1 @ F2 \<Longrightarrow>
    foldl gather_family (gathered_state H T F1) F2 = gathered_state H T F"
proof (induction F2 arbitrary: F1)
  case (Cons mf F2)
  have "distinct (hashes_of (F1 @ [mf]))" using Cons.prems(2,3) by auto
  then have "gather_family (gathered_state H T F1) mf = gathered_state H T (F1 @ [mf])"
    using Cons.prems(1,3) by (intro gather_family_ok [OF _ assms]) auto
  then show ?case using Cons.IH [of "F1 @ [mf]"] Cons.prems by simp
qed simp


text \<open>Gathering families that go together: no error, and every metric is kept under its name.\<close>

lemma gather_ones: "\<forall>g\<in>set gs. snd g = [] \<Longrightarrow> foldl gather_one st gs = foldl gather_family st (concat (map fst gs))"
  by (induction gs arbitrary: st) (simp_all add: gather_one_def)

lemma named_notin: "n \<notin> mf_Name ` set F \<Longrightarrow> named n F = []"
  by (induction F) auto

lemma Normalize_named:
  assumes "distinct names" "\<And>n mf. fams n = Some mf \<Longrightarrow> mf_Name mf = n"
  shows "mset (named n (NormalizeMetricFamilies names fams)) =
    (if n \<in> set names then (case fams n of None \<Rightarrow> {#} | Some mf \<Rightarrow> mset (mf_Metric mf)) else {#})"
  using assms(1)
proof (induction names)
  case (Cons a names)
  have "NormalizeMetricFamilies (a # names) fams = (case fams a of
      Some mf \<Rightarrow> (if mf_Metric mf \<noteq> [] then [mf\<lparr>mf_Metric := sort_key metric_order (mf_Metric mf)\<rparr>] else [])
    | None \<Rightarrow> []) @ NormalizeMetricFamilies names fams"
    by (simp add: NormalizeMetricFamilies_def map_filter_simps split: option.split)
  then show ?case using Cons assms(2) by (auto split: option.splits)
qed (simp add: NormalizeMetricFamilies_def map_filter_simps)

lemma Gatherers_Gather_ok:
  fixes gs :: "'v gathered list"
  assumes "\<forall>g\<in>set gs. snd g = []" and F: "F = concat (map fst gs)"
    and "\<forall>mf\<in>set F. family_ok H T mf" "suffix_free (mf_Name ` set F)" "distinct (hashes_of F)"
  shows "snd (Gatherers_Gather gs) = []"
    and "mset (named n (fst (Gatherers_Gather gs))) = mset (map normal (named n F))"
proof -
  have "\<lparr>gs_families = Map.empty, gs_hashes = {}, gs_errs = []\<rparr> = (gathered_state H T [] :: 'v gather_state)"
    by (simp add: gathered_state_def)
  then have st: "foldl gather_one \<lparr>gs_families = Map.empty, gs_hashes = {}, gs_errs = []\<rparr> gs = gathered_state H T F"
    using gather_ones [OF assms(1)] gather_families_ok [OF assms(4,3,5), of "[]" F] F by simp
  then show "snd (Gatherers_Gather gs) = []"
    by (simp add: Gatherers_Gather_def gathered_state_def)
  have "mset (named n (NormalizeMetricFamilies (sort (remdups (map mf_Name F))) (gs_families (gathered_state H T F))))
      = (if n \<in> set (sort (remdups (map mf_Name F))) then
           (case gs_families (gathered_state H T F) n of None \<Rightarrow> {#} | Some mf \<Rightarrow> mset (mf_Metric mf)) else {#})"
    by (rule Normalize_named) (auto simp: gathered_state_def split: if_splits)
  also have "\<dots> = mset (map normal (named n F))"
    using named_notin [of n F] by (auto simp: gathered_state_def)
  finally show "mset (named n (fst (Gatherers_Gather gs))) = mset (map normal (named n F))"
    using st F by (simp add: Gatherers_Gather_def Let_def)
qed

section \<open>Scraping all tenants\<close>

text \<open>What a tenant's registry gathers: no error, and every metric labelled with the tenant.\<close>

definition tenant_gathers :: "(string \<Rightarrow> string) \<Rightarrow> (string \<Rightarrow> metric_type) \<Rightarrow> string \<Rightarrow> 'v gathered \<Rightarrow> bool" where
  "tenant_gathers H T uid g \<longleftrightarrow> snd g = [] \<and> distinct (hashes_of (fst g))
     \<and> (\<forall>mf\<in>set (fst g). family_ok H T mf
          \<and> (\<forall>m\<in>set (mf_Metric mf). \<forall>v. (''tenant_uid'', v) \<in> set (mo_Label m) \<longleftrightarrow> v = uid))"

lemma tenant_hash:
  assumes "tenant_gathers H T uid g" "h \<in> set (hashes_of (fst g))"
  shows "(''tenant_uid'', v) \<in> set (fst (snd h)) \<longleftrightarrow> v = uid"
proof -
  obtain mf m where "mf \<in> set (fst g)" "m \<in> set (mf_Metric mf)" "h = hash_of (mf_Name mf) m"
    using assms(2) by (auto simp: hashes_of_def)
  then show ?thesis using assms(1) by (auto simp: tenant_gathers_def hash_of_def sorted_labels_def)
qed

lemma set_hashes_concat: "set (hashes_of (concat (map f us))) = (\<Union>u\<in>set us. set (hashes_of (f u)))"
  by (induction us) simp_all

lemma tenants_distinct:
  assumes "distinct uids" "\<forall>u\<in>set uids. tenant_gathers H T u (G u)"
  shows "distinct (hashes_of (concat (map (\<lambda>u. fst (G u)) uids)))"
  using assms
proof (induction uids)
  case (Cons u uids)
  have "set (hashes_of (fst (G u))) \<inter> set (hashes_of (concat (map (\<lambda>u. fst (G u)) uids))) = {}"
  proof (rule ccontr)
    assume "\<not> ?thesis"
    then obtain h u' where h: "h \<in> set (hashes_of (fst (G u)))" "u' \<in> set uids" "h \<in> set (hashes_of (fst (G u')))"
      by (auto simp: set_hashes_concat)
    have "(''tenant_uid'', u) \<in> set (fst (snd h))"
      using tenant_hash [OF _ h(1)] Cons.prems(2) by auto
    moreover have "(''tenant_uid'', u) \<notin> set (fst (snd h))"
      using tenant_hash [OF _ h(3)] Cons.prems h(2) by auto
    ultimately show False by blast
  qed
  moreover have "distinct (hashes_of (fst (G u)))" using Cons.prems(2) by (simp add: tenant_gathers_def)
  ultimately show ?case using Cons by simp
qed simp

text \<open>C15.
  A scrape of all tenants loses nothing. When what each registered tenant gathers is labelled with
  its own \<open>tenant_uid\<close>, and the tenants agree on the help and the type of each metric name (no
  name being another with a histogram suffix), \<open>MultiGatherer.Gather\<close> returns no error, and under
  every name exactly the metrics of all registered tenants, each as often as it was gathered
  (with its labels in the order of their names).
\<close>

theorem multi_gather_complete:
  fixes mg :: "'v gathered MultiGatherer"
  assumes tenants: "\<forall>u g. fmlookup (gatherers mg) u = Some g \<longrightarrow> tenant_gathers H T u g"
    and free: "suffix_free {mf_Name mf |u g mf. fmlookup (gatherers mg) u = Some g \<and> mf \<in> set (fst g)}"
  shows "snd (mg_Gather mg) = []
    \<and> mset (named n (fst (mg_Gather mg)))
      = (\<Sum>u\<in>fset (fmdom (gatherers mg)). mset (map normal (named n (fst (the (fmlookup (gatherers mg) u))))))"
proof -
  let ?G = "\<lambda>u. the (fmlookup (gatherers mg) u)"
  define uids where "uids = sorted_list_of_fset (fmdom (gatherers mg))"
  have uids: "set uids = fset (fmdom (gatherers mg))" "distinct uids"
    unfolding uids_def by (simp_all add: sorted_list_of_fset.rep_eq)
  have lookup: "\<exists>g. fmlookup (gatherers mg) u = Some g" if "u \<in> set uids" for u
    using that uids(1) by (simp add: fmlookup_dom_iff)
  have gs: "List.map_filter (fmlookup (gatherers mg)) uids = map ?G uids"
    using lookup by (induction uids) (fastforce simp: map_filter_simps)+
  define F where "F = concat (map (\<lambda>u. fst (?G u)) uids)"
  have t: "\<forall>u\<in>set uids. tenant_gathers H T u (?G u)" using tenants lookup by fastforce
  have F: "F = concat (map fst (map ?G uids))" by (simp add: F_def comp_def)
  have errs: "\<forall>g\<in>set (map ?G uids). snd g = []" using t by (simp add: tenant_gathers_def)
  have fam: "\<forall>mf\<in>set F. family_ok H T mf" using t by (auto simp: F_def tenant_gathers_def)
  have dist: "distinct (hashes_of F)" unfolding F_def by (rule tenants_distinct [OF uids(2) t])
  have "mf_Name ` set F \<subseteq> {mf_Name mf |u g mf. fmlookup (gatherers mg) u = Some g \<and> mf \<in> set (fst g)}"
  proof
    fix x assume "x \<in> mf_Name ` set F"
    then obtain mf u where "x = mf_Name mf" "mf \<in> set (fst (?G u))" "u \<in> set uids" by (auto simp: F_def)
    moreover obtain g where "fmlookup (gatherers mg) u = Some g" using lookup \<open>u \<in> set uids\<close> by blast
    ultimately show "x \<in> {mf_Name mf |u g mf. fmlookup (gatherers mg) u = Some g \<and> mf \<in> set (fst g)}" by (cases g) auto
  qed
  then have suf: "suffix_free (mf_Name ` set F)" by (rule suffix_free_mono [OF free])
  note ok = Gatherers_Gather_ok [OF errs F fam suf dist]
  have "mset (map normal (named n (concat (map (\<lambda>u. fst (?G u)) us)))) = (\<Sum>u\<leftarrow>us. mset (map normal (named n (fst (?G u)))))" for us
    by (induction us) simp_all
  then have "mset (map normal (named n F)) = (\<Sum>u\<in>set uids. mset (map normal (named n (fst (?G u)))))"
    using uids(2) by (simp add: F_def sum_list_distinct_conv_sum_set)
  then show ?thesis using ok gs uids(1) by (simp add: mg_Gather_def uids_def)
qed

text \<open>Two tenants with a counter each.\<close>

definition demo_family :: "string \<Rightarrow> int \<Rightarrow> int MetricFamily" where
  "demo_family uid v = \<lparr>mf_Name = ''mt_requests'', mf_Help = ''h'', mf_Type = COUNTER,
     mf_Metric = [\<lparr>mo_Label = [(''code'', ''200''), (''tenant_uid'', uid)], mo_payload = COUNTER,
       mo_value = v, mo_TimestampMs = None\<rparr>]\<rparr>"

definition demo_gatherers :: "int gathered MultiGatherer" where
  "demo_gatherers = snd (mg_Register ''t2'' ([demo_family ''t2'' 7], [])
     (snd (mg_Register ''t1'' ([demo_family ''t1'' 5], []) NewMultiGatherer)))"

lemma demo_gatherers_eq:
  "gatherers demo_gatherers = fmupd ''t2'' ([demo_family ''t2'' 7], []) (fmupd ''t1'' ([demo_family ''t1'' 5], []) fmempty)"
  by (simp add: demo_gatherers_def mg_Register_def NewMultiGatherer_def)

lemma demo_tenant_gathers:
  assumes "ValidString uid"
  shows "tenant_gathers (\<lambda>_. ''h'') (\<lambda>_. COUNTER) uid ([demo_family uid v], [])"
  using assms by (simp add: tenant_gathers_def family_ok_def demo_family_def checkLabelName_def IsValidLabelName_def
      ValidString_def)

theorem multi_gather_complete_witness:
  "snd (mg_Gather demo_gatherers) = []
    \<and> image_mset mo_value (mset (named ''mt_requests'' (fst (mg_Gather demo_gatherers)))) = {#5, 7#}"
proof -
  have t: "\<forall>u g. fmlookup (gatherers demo_gatherers) u = Some g \<longrightarrow>
      tenant_gathers (\<lambda>_. ''h'') (\<lambda>_. COUNTER) u g"
    using demo_tenant_gathers [of "''t1''" 5] demo_tenant_gathers [of "''t2''" 7]
    by (auto simp: demo_gatherers_eq ValidString_def)
  have "{mf_Name mf |u g mf. fmlookup (gatherers demo_gatherers) u = Some g \<and> mf \<in> set (fst g)} \<subseteq> {''mt_requests''}"
    by (auto simp: demo_gatherers_eq demo_family_def split: if_splits)
  then have free: "suffix_free {mf_Name mf |u g mf. fmlookup (gatherers demo_gatherers) u = Some g \<and> mf \<in> set (fst g)}"
    unfolding suffix_free_def by fastforce
  have doms: "fset (fmdom (gatherers demo_gatherers)) = {''t1'', ''t2''}" by (auto simp: demo_gatherers_eq)
  have "(\<Sum>u\<in>fset (fmdom (gatherers demo_gatherers)). mset (map normal (named ''mt_requests''
      (fst (the (fmlookup (gatherers demo_gatherers) u)))))) = mset (map normal (mf_Metric (demo_family ''t1'' 5)))
      + mset (map normal (mf_Metric (demo_family ''t2'' 7)))"
    unfolding doms by (simp add: demo_gatherers_eq) (simp add: demo_family_def)
  then show ?thesis
    using multi_gather_complete [OF t free, of "''mt_requests''"] by (simp add: demo_family_def normal_def)
qed

end
