(* ===== verification/MtContext.thy ===== *)
theory MtContext imports MTPrelude begin

text \<open>
  \<open>pkg/framework/mtcontext\<close>: the tenant in a \<open>context.Context\<close>. A context is a chain of values over
  the background; the key of the tenant is of a private type, so that no other package can set
  or shadow it, and its value is always a string.
\<close>

datatype ctx_key = tenantUIDKey | OtherKey nat

datatype 'v ctx_value = StringValue string | OtherValue 'v

datatype 'v Context = Background | WithValue "'v Context" ctx_key "'v ctx_value"

primrec ctx_Value :: "'v Context \<Rightarrow> ctx_key \<Rightarrow> 'v ctx_value option" where
  "ctx_Value Background key = None"
| "ctx_Value (WithValue ctx k v) key = (if key = k then Some v else ctx_Value ctx key)"

definition ContextWithTenantUID :: "'v Context \<Rightarrow> string \<Rightarrow> 'v Context" where
  "ContextWithTenantUID ctx tenantUID = WithValue ctx tenantUIDKey (StringValue tenantUID)"

text \<open>\<open>render\<close>: the verb \<open>%v\<close> of \<open>fmt\<close> on the values of other types.\<close>

definition TenantUIDFromContext :: "('v \<Rightarrow> string) \<Rightarrow> 'v Context \<Rightarrow> string option" where
  "TenantUIDFromContext render ctx = (case ctx_Value ctx tenantUIDKey of
     None \<Rightarrow> None
   | Some (StringValue s) \<Rightarrow> Some (''tenant-uid:'' @ s)
   | Some (OtherValue v) \<Rightarrow> Some (''tenant-uid:'' @ render v))"

text \<open>What other packages put on top of the context.\<close>

primrec with_values :: "'v Context \<Rightarrow> (nat \<times> 'v ctx_value) list \<Rightarrow> 'v Context" where
  "with_values ctx [] = ctx"
| "with_values ctx (x # xs) = with_values (WithValue ctx (OtherKey (fst x)) (snd x)) xs"

lemma with_values_tenant: "ctx_Value (with_values ctx xs) tenantUIDKey = ctx_Value ctx tenantUIDKey"
  by (induction xs arbitrary: ctx) simp_all

text \<open>
  The tenant last set is found again, with a prefix, whatever other packages add; different
  tenants are told apart.
\<close>

lemma tenant_from_context:
  "TenantUIDFromContext render (with_values (ContextWithTenantUID ctx uid) xs) = Some (''tenant-uid:'' @ uid)"
  by (simp add: TenantUIDFromContext_def with_values_tenant ContextWithTenantUID_def)

lemma tenant_from_context_inj:
  "TenantUIDFromContext render (ContextWithTenantUID ctx u) = TenantUIDFromContext render (ContextWithTenantUID ctx' u')
    \<longleftrightarrow> u = u'"
  using tenant_from_context [of render _ _ "[]"] by simp

lemma no_tenant_without_setting:
  "TenantUIDFromContext render (with_values Background xs) = None"
  by (simp add: TenantUIDFromContext_def with_values_tenant)

end
