(* ===== verification/ClientApi.thy ===== *)
theory ClientApi imports MTPrelude ObjectTracker ApiTypes Listers "HOL-Library.Product_Lexorder" begin

text \<open>
  What clients of one resource have in common: the options of the calls
  (\<open>vendor/k8s.io/apimachinery/pkg/apis/meta/v1/types.go\<close>, without their type metadata), the Go
  interface \<open>TenantInterface\<close>, which \<open>ProviderConfigInterface\<close> repeats, as a record of operations on
  a state \<open>'s\<close>, and the contract of a client that is a map from namespace and name to objects.

  \<open>labels.Parse\<close> and \<open>fields.ParseSelector\<close> are a parameter (\<open>selector_parsers\<close>).
\<close>

section \<open>Options\<close>

record ListOptions =
  lo_LabelSelector :: string
  lo_FieldSelector :: string
  lo_Watch :: bool
  lo_AllowWatchBookmarks :: bool
  lo_ResourceVersion :: string
  lo_ResourceVersionMatch :: string
  lo_TimeoutSeconds :: "64 word option"
  lo_Limit :: int
  lo_Continue :: string
  lo_SendInitialEvents :: "bool option"
  lo_ShardSelector :: string

record GetOptions =
  go_ResourceVersion :: string

record CreateOptions =
  co_DryRun :: "string slice"
  co_FieldManager :: string
  co_FieldValidation :: string

record UpdateOptions =
  uo_DryRun :: "string slice"
  uo_FieldManager :: string
  uo_FieldValidation :: string

record DeleteOptions =
  do_GracePeriodSeconds :: "64 word option"
  do_Preconditions :: "(string option \<times> string option) option"
  do_OrphanDependents :: "bool option"
  do_PropagationPolicy :: "string option"
  do_DryRun :: "string slice"
  do_IgnoreStoreReadError :: "bool option"

record PatchOptions =
  po_DryRun :: "string slice"
  po_Force :: "bool option"
  po_FieldManager :: string
  po_FieldValidation :: string

record selector_parsers =
  parse_labels :: "string \<Rightarrow> go_error + selector"
  parse_fields :: "string \<Rightarrow> error"

datatype patch_type =
    JSONPatchType
  | MergePatchType
  | StrategicMergePatchType
  | ApplyPatchType
  | OtherPatchType string

text \<open>A selector that does not parse is a panic. Only the label selector is used again.\<close>

definition ExtractFromListOptions :: "selector_parsers \<Rightarrow> ListOptions \<Rightarrow> selector outcome" where
  "ExtractFromListOptions sp opts =
     (case parse_labels sp (lo_LabelSelector opts) of
        Inl e \<Rightarrow> Panic ''invalid selector''
      | Inr labelSelector \<Rightarrow>
          (case parse_fields sp (lo_FieldSelector opts) of
             Some e \<Rightarrow> Panic ''invalid selector''
           | None \<Rightarrow> Return labelSelector))"

section \<open>Zero values\<close>

type_synonym tenant_list = "(int option, ShardInfo option, tenant slice) TenantList"
type_synonym provider_config_list = "(int option, ShardInfo option, provider_config slice) ProviderConfigList"

definition zero_TypeMeta :: TypeMeta where
  "zero_TypeMeta = \<lparr>tm_Kind = [], tm_APIVersion = []\<rparr>"

definition zero_ListMeta :: list_meta where
  "zero_ListMeta = \<lparr>lm_SelfLink = [], lm_ResourceVersion = [], lm_Continue = [], lm_RemainingItemCount = None,
     lm_ShardInfo = None\<rparr>"

definition zero_ObjectMeta :: object_meta where
  "zero_ObjectMeta = \<lparr>om_Name = [], om_GenerateName = [], om_Namespace = [], om_SelfLink = [], om_UID = [],
     om_ResourceVersion = [], om_Generation = 0, om_CreationTimestamp = 0, om_DeletionTimestamp = None,
     om_DeletionGracePeriodSeconds = None, om_Labels = None, om_Annotations = None, om_OwnerReferences = None,
     om_Finalizers = None, om_ManagedFields = None\<rparr>"

definition zero_tenant :: tenant where
  "zero_tenant = \<lparr>tn_TypeMeta = zero_TypeMeta, tn_ObjectMeta = zero_ObjectMeta,
     tn_Spec = \<lparr>ts_ProjectNumber = 0, ts_ProjectID = [], ts_PSCConnectionID = 0,
       ts_NetworkConfig = \<lparr>tnc_Network = [],
         tnc_SubnetInfo = \<lparr>tsi_Subnetwork = [], tsi_CIDR = [], tsi_PodRanges = None\<rparr>\<rparr>,
       ts_UID = [], ts_EnableDataplaneOverGKFE = False, ts_DNSAlias = [], ts_TenantCACerts = None\<rparr>,
     tn_Status = \<lparr>tst_Conditions = None\<rparr>\<rparr>"

definition zero_provider_config :: provider_config where
  "zero_provider_config = \<lparr>pc_TypeMeta = zero_TypeMeta, pc_ObjectMeta = zero_ObjectMeta,
     pc_Spec = \<lparr>ps_ProjectNumber = 0, ps_ProjectID = [], ps_PSCConnectionID = 0,
       ps_NetworkConfig = \<lparr>pnc_Network = [], pnc_SubnetInfo = \<lparr>psi_Subnetwork = [], psi_CIDR = [],
         psi_NodeCIDRs = None, psi_PodRanges = None\<rparr>\<rparr>,
       ps_AuthConfig = None, ps_PrincipalInfo = None\<rparr>,
     pc_Status = \<lparr>pst_Conditions = None\<rparr>\<rparr>"

definition zero_tenant_list :: tenant_list where
  "zero_tenant_list = \<lparr>tnl_TypeMeta = zero_TypeMeta, tnl_ListMeta = zero_ListMeta, tnl_Items = None\<rparr>"

definition zero_provider_config_list :: provider_config_list where
  "zero_provider_config_list = \<lparr>pcl_TypeMeta = zero_TypeMeta, pcl_ListMeta = zero_ListMeta, pcl_Items = None\<rparr>"

section \<open>The interface of a resource\<close>

text \<open>A result of Go's kind: a pointer that may be nil, and an error.\<close>

type_synonym ('r, 's) client_call = "'s \<Rightarrow> ('r option \<times> error) outcome \<times> 's"

record ('o, 'l, 'wi, 's) ResourceInterface =
  if_Create :: "'o \<Rightarrow> CreateOptions \<Rightarrow> ('o, 's) client_call"
  if_Update :: "'o \<Rightarrow> UpdateOptions \<Rightarrow> ('o, 's) client_call"
  if_UpdateStatus :: "'o \<Rightarrow> UpdateOptions \<Rightarrow> ('o, 's) client_call"
  if_Delete :: "string \<Rightarrow> DeleteOptions \<Rightarrow> 's \<Rightarrow> error outcome \<times> 's"
  if_DeleteCollection :: "DeleteOptions \<Rightarrow> ListOptions \<Rightarrow> 's \<Rightarrow> error outcome \<times> 's"
  if_Get :: "string \<Rightarrow> GetOptions \<Rightarrow> ('o, 's) client_call"
  if_List :: "ListOptions \<Rightarrow> ('l, 's) client_call"
  if_Watch :: "ListOptions \<Rightarrow> ('wi, 's) client_call"
  if_Patch :: "string \<Rightarrow> patch_type \<Rightarrow> string \<Rightarrow> PatchOptions \<Rightarrow> string list \<Rightarrow> ('o, 's) client_call"

type_synonym ('wi, 's) TenantInterface = "(tenant, tenant_list, 'wi, 's) ResourceInterface"
type_synonym ('wi, 's) ProviderConfigInterface = "(provider_config, provider_config_list, 'wi, 's) ResourceInterface"

section \<open>A client that is a map\<close>

type_synonym 'o content = "string \<times> string \<rightharpoonup> 'o"

text \<open>
  The calls of the interface but \<open>Watch\<close>, whose result is not an answer, and their answers, with the
  objects of a list for the list.
\<close>

datatype 'o call =
    Get_call string GetOptions
  | Create_call 'o CreateOptions
  | Update_call 'o UpdateOptions
  | UpdateStatus_call 'o UpdateOptions
  | Delete_call string DeleteOptions
  | List_call ListOptions
  | DeleteCollection_call DeleteOptions ListOptions
  | Patch_call string patch_type string PatchOptions "string list"

datatype 'o answer =
    ObjectAnswer "'o option" error
  | ListAnswer "'o list option" error
  | ErrorAnswer error
  | PanicAnswer string

definition answer_of :: "('r option \<Rightarrow> error \<Rightarrow> 'o answer) \<Rightarrow> ('r option \<times> error) outcome \<times> 's \<Rightarrow> 'o answer \<times> 's" where
  "answer_of f r = (case r of (Panic msg, s) \<Rightarrow> (PanicAnswer msg, s) | (Return (ob, err), s) \<Rightarrow> (f ob err, s))"

definition do_call :: "('l \<Rightarrow> 'o list) \<Rightarrow> ('o, 'l, 'wi, 's) ResourceInterface \<Rightarrow> 'o call \<Rightarrow> 's \<Rightarrow> 'o answer \<times> 's" where
  "do_call objects i c s =
     (case c of
        Get_call name opts \<Rightarrow> answer_of ObjectAnswer (if_Get i name opts s)
      | Create_call ob opts \<Rightarrow> answer_of ObjectAnswer (if_Create i ob opts s)
      | Update_call ob opts \<Rightarrow> answer_of ObjectAnswer (if_Update i ob opts s)
      | UpdateStatus_call ob opts \<Rightarrow> answer_of ObjectAnswer (if_UpdateStatus i ob opts s)
      | Delete_call name opts \<Rightarrow>
          (case if_Delete i name opts s of
             (Panic msg, s) \<Rightarrow> (PanicAnswer msg, s) | (Return err, s) \<Rightarrow> (ErrorAnswer err, s))
      | List_call opts \<Rightarrow> answer_of (\<lambda>l err. ListAnswer (map_option objects l) err) (if_List i opts s)
      | DeleteCollection_call opts listOpts \<Rightarrow>
          (case if_DeleteCollection i opts listOpts s of
             (Panic msg, s) \<Rightarrow> (PanicAnswer msg, s) | (Return err, s) \<Rightarrow> (ErrorAnswer err, s))
      | Patch_call name pt data opts subresources \<Rightarrow>
          answer_of ObjectAnswer (if_Patch i name pt data opts subresources s))"

text \<open>What a request stores: the object, in the namespace of the request.\<close>

definition placed :: "'o accessor \<Rightarrow> string \<Rightarrow> 'o \<Rightarrow> 'o" where
  "placed acc ns ob = (if acc_namespace acc ob = [] then acc_set_namespace acc ob ns else ob)"

definition fits :: "'o accessor \<Rightarrow> string \<Rightarrow> 'o \<Rightarrow> bool" where
  "fits acc ns ob \<longleftrightarrow> acc_namespace acc ob = [] \<or> acc_namespace acc ob = ns"

definition mismatch :: "'o accessor \<Rightarrow> string \<Rightarrow> 'o \<Rightarrow> go_error" where
  "mismatch acc ns ob = NewBadRequest (''request namespace does not match object namespace, request: ''
     @ quoted ns @ '' object: '' @ quoted (acc_namespace acc ob))"

text \<open>A list shows each object of the namespace once, ordered by namespace and name.\<close>

definition listing :: "'o content \<Rightarrow> string \<Rightarrow> 'o list" where
  "listing st ns = map (\<lambda>k. the (st k)) (filter (\<lambda>k. ns = [] \<or> fst k = ns) (sorted_list_of_set (dom st)))"

text \<open>
  The specification: calls on a map. \<open>res\<close> is the resource and \<open>ns\<close> the client's namespace. A deletion
  by selector succeeds and changes nothing: the object reaction of the fake clientsets has no case for
  it, and what no reactor handles answers without an error.
\<close>

definition spec_write ::
  "GroupVersionResource \<Rightarrow> 'o accessor \<Rightarrow> string \<Rightarrow> bool \<Rightarrow> 'o \<Rightarrow> 'o content \<Rightarrow> 'o answer \<times> 'o content" where
  "spec_write res acc ns replace ob st =
     (let key = (ns, acc_name acc ob)
      in if \<not> fits acc ns ob then (ObjectAnswer None (Some (mismatch acc ns ob)), st)
         else if replace \<and> st key = None then (ObjectAnswer None (Some (NewNotFound res (acc_name acc ob))), st)
         else if \<not> replace \<and> st key \<noteq> None
         then (ObjectAnswer None (Some (NewAlreadyExists res (acc_name acc ob))), st)
         else (ObjectAnswer (Some (placed acc ns ob)) None, st(key \<mapsto> placed acc ns ob)))"

text \<open>
  A patch replaces the stored object by the patched one. What the patch of a type other than \<open>apply\<close>
  answers is the patched object as it was before it was placed in the namespace. A parameter stands for
  the libraries that patch: whether an apply configuration can be read (\<open>yaml.Unmarshal\<close>), and what
  becomes of an object (\<open>jsonpatch\<close>, \<open>strategicpatch\<close> and \<open>json\<close>).
\<close>

record 'o patcher =
  pa_Unmarshal :: "string \<Rightarrow> error"
  pa_patched :: "patch_type \<Rightarrow> string \<Rightarrow> 'o \<Rightarrow> go_error + 'o"

definition unreadable :: "'o patcher \<Rightarrow> patch_type \<Rightarrow> string \<Rightarrow> error" where
  "unreadable patcher pt data = (if pt = ApplyPatchType then pa_Unmarshal patcher data else None)"

definition patch_of :: "'o patcher \<Rightarrow> patch_type \<Rightarrow> string \<Rightarrow> 'o \<Rightarrow> go_error + 'o" where
  "patch_of patcher pt data old =
     (case pt of
        OtherPatchType s \<Rightarrow> Inl (Errorf ''PatchType %s is not supported'' [s])
      | _ \<Rightarrow> pa_patched patcher pt data old)"

definition spec_patch ::
  "'o patcher \<Rightarrow> GroupVersionResource \<Rightarrow> 'o accessor \<Rightarrow> string \<Rightarrow> string \<Rightarrow> patch_type \<Rightarrow> string \<Rightarrow> 'o content
   \<Rightarrow> 'o answer \<times> 'o content" where
  "spec_patch patcher res acc ns name pt data st =
     (case (unreadable patcher pt data, st (ns, name)) of
        (Some err, _) \<Rightarrow> (ObjectAnswer None (Some err), st)
      | (None, None) \<Rightarrow> (ObjectAnswer None (Some (NewNotFound res name)), st)
      | (None, Some old) \<Rightarrow>
          (case patch_of patcher pt data old of
             Inl err \<Rightarrow> (ObjectAnswer None (Some err), st)
           | Inr ob \<Rightarrow>
               (case spec_write res acc ns True ob st of
                  (ObjectAnswer (Some x) err, st') \<Rightarrow>
                    (ObjectAnswer (if pt = ApplyPatchType then st' (ns, name) else Some ob) err, st')
                | r \<Rightarrow> r)))"

definition spec_call ::
  "'o patcher \<Rightarrow> selector_parsers \<Rightarrow> GroupVersionResource \<Rightarrow> 'o accessor \<Rightarrow> 'o labels_of \<Rightarrow> string \<Rightarrow> 'o call \<Rightarrow> 'o content
   \<Rightarrow> 'o answer \<times> 'o content" where
  "spec_call patcher sp res acc labels ns c st =
     (case c of
        Get_call name opts \<Rightarrow>
          (case st (ns, name) of
             None \<Rightarrow> (ObjectAnswer None (Some (NewNotFound res name)), st)
           | Some ob \<Rightarrow> (ObjectAnswer (Some ob) None, st))
      | Create_call ob opts \<Rightarrow> spec_write res acc ns False ob st
      | Update_call ob opts \<Rightarrow> spec_write res acc ns True ob st
      | UpdateStatus_call ob opts \<Rightarrow> spec_write res acc ns True ob st
      | Delete_call name opts \<Rightarrow>
          (if st (ns, name) = None then (ErrorAnswer (Some (NewNotFound res name)), st)
           else (ErrorAnswer None, st((ns, name) := None)))
      | List_call opts \<Rightarrow>
          (case ExtractFromListOptions sp opts of
             Panic msg \<Rightarrow> (PanicAnswer msg, st)
           | Return sel \<Rightarrow>
               (ListAnswer (Some (filter (\<lambda>ob. sel_Matches sel (labels ob)) (listing st ns))) None, st))
      | DeleteCollection_call opts listOpts \<Rightarrow>
          (case ExtractFromListOptions sp listOpts of
             Panic msg \<Rightarrow> (PanicAnswer msg, st) | Return sel \<Rightarrow> (ErrorAnswer None, st))
      | Patch_call name pt data opts subresources \<Rightarrow> spec_patch patcher res acc ns name pt data st)"

text \<open>What a call tells those who watch the namespace.\<close>

definition write_event :: "'o accessor \<Rightarrow> string \<Rightarrow> bool \<Rightarrow> 'o \<Rightarrow> 'o content \<Rightarrow> 'o watch_event option" where
  "write_event acc ns replace ob st =
     (if fits acc ns ob \<and> (st (ns, acc_name acc ob) = None) \<noteq> replace
      then Some ((if replace then Modified_event else Added_event) (placed acc ns ob)) else None)"

definition spec_event ::
  "'o patcher \<Rightarrow> 'o accessor \<Rightarrow> string \<Rightarrow> 'o call \<Rightarrow> 'o content \<Rightarrow> 'o watch_event option" where
  "spec_event patcher acc ns c st =
     (case c of
        Create_call ob opts \<Rightarrow> write_event acc ns False ob st
      | Update_call ob opts \<Rightarrow> write_event acc ns True ob st
      | UpdateStatus_call ob opts \<Rightarrow> write_event acc ns True ob st
      | Delete_call name opts \<Rightarrow> map_option Deleted_event (st (ns, name))
      | Patch_call name pt data opts subresources \<Rightarrow>
          (case (unreadable patcher pt data, st (ns, name)) of
             (None, Some old) \<Rightarrow>
               (case patch_of patcher pt data old of
                  Inl err \<Rightarrow> None | Inr ob \<Rightarrow> write_event acc ns True ob st)
           | _ \<Rightarrow> None)
      | Get_call name opts \<Rightarrow> None
      | List_call opts \<Rightarrow> None
      | DeleteCollection_call opts listOpts \<Rightarrow> None)"

fun run_calls :: "('c \<Rightarrow> 's \<Rightarrow> 'a \<times> 's) \<Rightarrow> 'c list \<Rightarrow> 's \<Rightarrow> 'a list \<times> 's" where
  "run_calls f [] s = ([], s)"
| "run_calls f (c # cs) s =
     (case f c s of (a, s) \<Rightarrow> case run_calls f cs s of (as, s) \<Rightarrow> (a # as, s))"

text \<open>
  The contract of the clients \<open>i c\<close> of one resource, which share their state (\<open>c\<close> tells their
  namespace): in a good state every call answers as the map does and changes what is stored as the
  map changes.
\<close>

locale map_client =
  fixes objects :: "'l \<Rightarrow> 'o list"
    and i :: "'c \<Rightarrow> ('o, 'l, 'wi, 's) ResourceInterface"
    and ok :: "'s \<Rightarrow> bool"
    and content :: "'s \<Rightarrow> 'o content"
    and spec :: "'c \<Rightarrow> 'o call \<Rightarrow> 'o content \<Rightarrow> 'o answer \<times> 'o content"
  assumes step: "ok s \<Longrightarrow> \<exists>s'. do_call objects (i c) call s = (fst (spec c call (content s)), s') \<and> ok s'
    \<and> content s' = snd (spec c call (content s))"
begin

text \<open>A sequence of calls through any clients of the resource.\<close>

lemma runs:
  assumes "ok s"
  shows "\<exists>s'. run_calls (\<lambda>(c, call). do_call objects (i c) call) cs s
      = (fst (run_calls (\<lambda>(c, call). spec c call) cs (content s)), s') \<and> ok s'
    \<and> content s' = snd (run_calls (\<lambda>(c, call). spec c call) cs (content s))"
  using assms
proof (induction cs arbitrary: s)
  case Nil
  then show ?case by auto
next
  case (Cons cc cs)
  obtain c call where cc: "cc = (c, call)" by (cases cc)
  let ?impl = "\<lambda>(c, call). do_call objects (i c) call" and ?spec = "\<lambda>(c, call). spec c call"
  obtain s1 where s1: "do_call objects (i c) call s = (fst (spec c call (content s)), s1)" "ok s1"
      "content s1 = snd (spec c call (content s))" using step [OF Cons.prems] by blast
  obtain s2 where s2: "run_calls ?impl cs s1 = (fst (run_calls ?spec cs (content s1)), s2)" "ok s2"
      "content s2 = snd (run_calls ?spec cs (content s1))" using Cons.IH [OF s1(2)] by blast
  show ?case
    using s1 s2 cc by (intro exI [of _ s2]) (simp add: case_prod_unfold)
qed

end

end
