(* ===== verification/SharedFactory.thy ===== *)
theory SharedFactory imports MTPrelude SchemeRegister ClientApi FilteredInformer begin

text \<open>
  The generated shared informer factory, \<open>informers/externalversions/factory.go\<close> of
  \<open>pkg/tenant/client\<close> and \<open>pkg/providerconfig/client\<close> (the two files differ only in the name of the
  API group), with what \<open>Run\<close> and \<open>HasSynced\<close> of \<open>shared_informer.go\<close> do as far as the factory can
  tell. Its world has one factory, the informers it made (a reference is a position), the
  goroutines it started, under numbers never used again, and the channels closed so far.

  \<open>'c\<close> is the client (\<open>versioned.Interface\<close>) and \<open>'i\<close> what an informer is besides its running
  state. Maps are association lists with distinct keys. The lock makes each operation one step.
  Only the factory runs its informers.

  \<open>Run\<close> returns only after it has told the processor to stop and waited for the goroutines of its
  listeners, so a listener is modelled as far as that takes: how many notifications wait, whether
  \<open>pop\<close> still hands them out, whether the handler is being called, whether \<open>run\<close> has ended. What the
  notifications say is the subject of the theories \<open>FilteredInformer\<close> and \<open>TenantEvents\<close>. Handlers are
  not removed, and a handler that panics takes the program down.
\<close>

section \<open>State\<close>

type_synonym TweakListOptionsFunc = "(ListOptions \<Rightarrow> ListOptions) option"

record 'c sharedInformerFactory =
  sf_client :: 'c
  sf_namespace :: string
  sf_tweakListOptions :: TweakListOptionsFunc
  sf_defaultResync :: int
  sf_customResync :: "(go_type \<times> int) list"
  sf_informers :: "(go_type \<times> nat) list"
  sf_startedInformers :: "go_type list"
  sf_wg :: nat
  sf_shuttingDown :: bool

record processorListener =
  li_pending :: nat
  li_pop :: bool
  li_busy :: bool
  li_ended :: bool

record 'i shared_informer =
  sh_informer :: 'i
  sh_started :: bool
  sh_stopped :: bool
  sh_synced :: bool
  sh_listeners :: "processorListener list"

text \<open>
  A goroutine of \<open>Start\<close>: before \<open>Run\<close> has looked at \<open>HasStarted\<close>, in \<open>controller.RunWithContext\<close>, and in
  the deferred \<open>wg.Wait()\<close>, after the processor was told to stop.
\<close>

datatype go_phase = Spawned | Running | Draining

record goroutine =
  go_informer :: nat
  go_stopCh :: nat
  go_phase :: go_phase

record ('c, 'i) factory_world =
  fw_factory :: "'c sharedInformerFactory"
  fw_informers :: "'i shared_informer list"
  fw_goroutines :: "nat \<rightharpoonup> goroutine"
  fw_next :: nat
  fw_closed :: "nat set"

section \<open>Construction\<close>

type_synonym 'c SharedInformerOption = "'c sharedInformerFactory \<Rightarrow> 'c sharedInformerFactory"

text \<open>\<open>resyncConfig\<close>: the types of the objects with their periods, in the order of iteration.\<close>

definition WithCustomResyncConfig :: "(go_type \<times> int) list \<Rightarrow> 'c SharedInformerOption" where
  "WithCustomResyncConfig resyncConfig factory =
     factory\<lparr>sf_customResync := fold (\<lambda>(k, v) m. AList.update k v m) resyncConfig (sf_customResync factory)\<rparr>"

definition WithTweakListOptions :: "TweakListOptionsFunc \<Rightarrow> 'c SharedInformerOption" where
  "WithTweakListOptions tweakListOptions factory = factory\<lparr>sf_tweakListOptions := tweakListOptions\<rparr>"

definition WithNamespace :: "string \<Rightarrow> 'c SharedInformerOption" where
  "WithNamespace namespace factory = factory\<lparr>sf_namespace := namespace\<rparr>"

definition NewSharedInformerFactoryWithOptions ::
  "'c \<Rightarrow> int \<Rightarrow> 'c SharedInformerOption list \<Rightarrow> 'c sharedInformerFactory" where
  "NewSharedInformerFactoryWithOptions client defaultResync options =
     fold (\<lambda>opt factory. opt factory) options
       \<lparr>sf_client = client, sf_namespace = [], sf_tweakListOptions = None, sf_defaultResync = defaultResync,
        sf_customResync = [], sf_informers = [], sf_startedInformers = [], sf_wg = 0,
        sf_shuttingDown = False\<rparr>"

definition NewSharedInformerFactory :: "'c \<Rightarrow> int \<Rightarrow> 'c sharedInformerFactory" where
  "NewSharedInformerFactory client defaultResync = NewSharedInformerFactoryWithOptions client defaultResync []"

definition sif_NewFilteredSharedInformerFactory ::
  "'c \<Rightarrow> int \<Rightarrow> string \<Rightarrow> TweakListOptionsFunc \<Rightarrow> 'c sharedInformerFactory" where
  "sif_NewFilteredSharedInformerFactory client defaultResync namespace tweakListOptions =
     NewSharedInformerFactoryWithOptions client defaultResync
       [WithNamespace namespace, WithTweakListOptions tweakListOptions]"

definition new_world :: "'c sharedInformerFactory \<Rightarrow> ('c, 'i) factory_world" where
  "new_world f = \<lparr>fw_factory = f, fw_informers = [], fw_goroutines = Map.empty, fw_next = 0, fw_closed = {}\<rparr>"

section \<open>Operations\<close>

definition new_informer :: "'i \<Rightarrow> 'i shared_informer" where
  "new_informer i = \<lparr>sh_informer = i, sh_started = False, sh_stopped = False, sh_synced = False,
     sh_listeners = []\<rparr>"

type_synonym ('c, 'i) NewInformerFunc = "'c \<Rightarrow> int \<Rightarrow> 'i"

text \<open>\<open>newFunc\<close> makes an informer from the factory's client and the resync period of the type.\<close>

definition InformerFor ::
  "go_type \<Rightarrow> ('c, 'i) NewInformerFunc \<Rightarrow> ('c, 'i) factory_world \<Rightarrow> nat \<times> ('c, 'i) factory_world" where
  "InformerFor informerType newFunc w =
     (let f = fw_factory w
      in case map_of (sf_informers f) informerType of
           Some informer \<Rightarrow> (informer, w)
         | None \<Rightarrow>
             let resyncPeriod = (case map_of (sf_customResync f) informerType of
                     Some p \<Rightarrow> p | None \<Rightarrow> sf_defaultResync f);
                 informer = length (fw_informers w)
             in (informer,
                 w\<lparr>fw_informers := fw_informers w @ [new_informer (newFunc (sf_client f) resyncPeriod)],
                   fw_factory := f\<lparr>sf_informers := AList.update informerType informer (sf_informers f)\<rparr>\<rparr>))"

definition start_one :: "nat \<Rightarrow> go_type \<times> nat \<Rightarrow> ('c, 'i) factory_world \<Rightarrow> ('c, 'i) factory_world" where
  "start_one stopCh e w =
     (case e of (informerType, informer) \<Rightarrow>
        let f = fw_factory w
        in if informerType \<notin> set (sf_startedInformers f)
           then w\<lparr>fw_factory := f\<lparr>sf_wg := sf_wg f + 1, sf_startedInformers := informerType # sf_startedInformers f\<rparr>,
                  fw_goroutines := (fw_goroutines w)(fw_next w \<mapsto>
                    \<lparr>go_informer = informer, go_stopCh = stopCh, go_phase = Spawned\<rparr>),
                  fw_next := fw_next w + 1\<rparr>
           else w)"

definition factory_Start :: "nat \<Rightarrow> ('c, 'i) factory_world \<Rightarrow> ('c, 'i) factory_world" where
  "factory_Start stopCh w =
     (if sf_shuttingDown (fw_factory w) then w
      else fold (start_one stopCh) (sf_informers (fw_factory w)) w)"

text \<open>\<open>Shutdown\<close> in two steps: it refuses later starts, then returns when it need not wait.\<close>

definition Shutdown_begin :: "('c, 'i) factory_world \<Rightarrow> ('c, 'i) factory_world" where
  "Shutdown_begin w = w\<lparr>fw_factory := (fw_factory w)\<lparr>sf_shuttingDown := True\<rparr>\<rparr>"

definition Shutdown_returns :: "('c, 'i) factory_world \<Rightarrow> bool" where
  "Shutdown_returns w = (sf_wg (fw_factory w) = 0)"

text \<open>
  \<open>WaitForCacheSync\<close>: the started informers, each with the result of waiting for it. A wait ends
  with true when the informer has synced and with false when the stop channel is closed before;
  \<open>wait\<close> gives the result of the wait for an informer.
\<close>

definition WaitForCacheSync :: "(nat \<Rightarrow> bool) \<Rightarrow> ('c, 'i) factory_world \<Rightarrow> (go_type \<times> bool) list" where
  "WaitForCacheSync wait w =
     (let f = fw_factory w;
          informers = filter (\<lambda>(informerType, informer). informerType \<in> set (sf_startedInformers f)) (sf_informers f)
      in map (\<lambda>(informType, informer). (informType, wait informer)) informers)"

text \<open>One round of polling for an informer: the result if the wait ends in this state.\<close>

definition wait_poll :: "nat \<Rightarrow> nat \<Rightarrow> ('c, 'i) factory_world \<Rightarrow> bool option" where
  "wait_poll stopCh informer w =
     (if sh_synced (fw_informers w ! informer) then Some True
      else if stopCh \<in> fw_closed w then Some False else None)"

section \<open>Goroutines\<close>

definition set_informer :: "nat \<Rightarrow> 'i shared_informer \<Rightarrow> ('c, 'i) factory_world \<Rightarrow> ('c, 'i) factory_world" where
  "set_informer r i w = w\<lparr>fw_informers := (fw_informers w)[r := i]\<rparr>"

definition go_done :: "nat \<Rightarrow> ('c, 'i) factory_world \<Rightarrow> ('c, 'i) factory_world" where
  "go_done g w = w\<lparr>fw_goroutines := (fw_goroutines w)(g := None),
     fw_factory := (fw_factory w)\<lparr>sf_wg := sf_wg (fw_factory w) - 1\<rparr>\<rparr>"

text \<open>\<open>Run\<close> up to the controller: an informer that has started is not run again.\<close>

definition Run_begin :: "nat \<Rightarrow> goroutine \<Rightarrow> ('c, 'i) factory_world \<Rightarrow> ('c, 'i) factory_world" where
  "Run_begin g go w =
     (let i = fw_informers w ! go_informer go
      in if sh_started i then go_done g w
         else set_informer (go_informer go) (i\<lparr>sh_started := True\<rparr>)
                (w\<lparr>fw_goroutines := (fw_goroutines w)(g \<mapsto> go\<lparr>go_phase := Running\<rparr>)\<rparr>))"

text \<open>The controller has synced.\<close>

definition Run_synced :: "goroutine \<Rightarrow> ('c, 'i) factory_world \<Rightarrow> ('c, 'i) factory_world" where
  "Run_synced go w =
     (let i = fw_informers w ! go_informer go
      in set_informer (go_informer go) (i\<lparr>sh_synced := True\<rparr>) w)"

text \<open>
  The stop channel is closed and the controller returned: the deferred functions of \<open>Run\<close> mark the
  informer as stopped and tell the processor to stop. Then \<open>Run\<close> waits for the listeners, and the
  goroutine of \<open>Start\<close> is done.
\<close>

definition Run_stop :: "nat \<Rightarrow> goroutine \<Rightarrow> ('c, 'i) factory_world \<Rightarrow> ('c, 'i) factory_world" where
  "Run_stop g go w =
     (let i = fw_informers w ! go_informer go
      in set_informer (go_informer go) (i\<lparr>sh_stopped := True\<rparr>)
           (w\<lparr>fw_goroutines := (fw_goroutines w)(g \<mapsto> go\<lparr>go_phase := Draining\<rparr>)\<rparr>))"

definition Run_waits :: "goroutine \<Rightarrow> ('c, 'i) factory_world \<Rightarrow> bool" where
  "Run_waits go w = (\<exists>l\<in>set (sh_listeners (fw_informers w ! go_informer go)). \<not> li_ended l)"

definition Run_end :: "nat \<Rightarrow> goroutine \<Rightarrow> ('c, 'i) factory_world \<Rightarrow> ('c, 'i) factory_world" where
  "Run_end g go w = go_done g w"

section \<open>Listeners\<close>

text \<open>A handler that joins a running informer starts with notifications for what is in the store.\<close>

definition newProcessListener :: "nat \<Rightarrow> processorListener" where
  "newProcessListener n = \<lparr>li_pending = n, li_pop = True, li_busy = False, li_ended = False\<rparr>"

definition sh_AddEventHandler :: "nat \<Rightarrow> 'i shared_informer \<Rightarrow> 'i shared_informer" where
  "sh_AddEventHandler n i =
     (if sh_stopped i then i
      else i\<lparr>sh_listeners := sh_listeners i @ [newProcessListener (if sh_started i then n else 0)]\<rparr>)"

text \<open>
  The goroutines \<open>pop\<close> and \<open>run\<close> of a listener: \<open>pop\<close> hands a notification to \<open>run\<close>, which calls the
  handler; the handler returns; \<open>pop\<close> ends once the processor has closed its channel, dropping what
  still waits, though it may hand out more before it looks; \<open>run\<close> ends when \<open>pop\<close> has.
\<close>

inductive listener_run :: "bool \<Rightarrow> processorListener \<Rightarrow> processorListener \<Rightarrow> bool" for closing where
  handler_called: "li_pop l \<Longrightarrow> li_pending l = Suc n \<Longrightarrow> \<not> li_busy l \<Longrightarrow> \<not> li_ended l \<Longrightarrow>
    listener_run closing l (l\<lparr>li_pending := n, li_busy := True\<rparr>)"
| handler_returns: "li_busy l \<Longrightarrow> listener_run closing l (l\<lparr>li_busy := False\<rparr>)"
| pop_ends: "closing \<Longrightarrow> li_pop l \<Longrightarrow> listener_run closing l (l\<lparr>li_pop := False\<rparr>)"
| run_ends: "\<not> li_pop l \<Longrightarrow> \<not> li_busy l \<Longrightarrow> \<not> li_ended l \<Longrightarrow> listener_run closing l (l\<lparr>li_ended := True\<rparr>)"

definition set_listener :: "nat \<Rightarrow> nat \<Rightarrow> processorListener \<Rightarrow> ('c, 'i) factory_world \<Rightarrow> ('c, 'i) factory_world" where
  "set_listener r k l w =
     (let i = fw_informers w ! r in set_informer r (i\<lparr>sh_listeners := (sh_listeners i)[k := l]\<rparr>) w)"

definition listener_of :: "goroutine \<Rightarrow> ('c, 'i) factory_world \<Rightarrow> nat \<Rightarrow> processorListener" where
  "listener_of go w k = sh_listeners (fw_informers w ! go_informer go) ! k"

section \<open>Steps\<close>

text \<open>What the goroutines of the factory and those of the listeners do by themselves.\<close>

inductive run_step :: "('c, 'i) factory_world \<Rightarrow> ('c, 'i) factory_world \<Rightarrow> bool" where
  Run_begins: "fw_goroutines w g = Some go \<Longrightarrow> go_phase go = Spawned \<Longrightarrow> run_step w (Run_begin g go w)"
| Run_stops: "fw_goroutines w g = Some go \<Longrightarrow> go_phase go = Running \<Longrightarrow> go_stopCh go \<in> fw_closed w
    \<Longrightarrow> run_step w (Run_stop g go w)"
| Run_ends: "fw_goroutines w g = Some go \<Longrightarrow> go_phase go = Draining \<Longrightarrow> \<not> Run_waits go w
    \<Longrightarrow> run_step w (Run_end g go w)"
| listener_runs: "fw_goroutines w g = Some go \<Longrightarrow> go_phase go \<noteq> Spawned \<Longrightarrow>
    k < length (sh_listeners (fw_informers w ! go_informer go)) \<Longrightarrow>
    listener_run (go_phase go = Draining) (listener_of go w k) l \<Longrightarrow>
    run_step w (set_listener (go_informer go) k l w)"

text \<open>The controller has a notification for a listener.\<close>

inductive notify_step :: "('c, 'i) factory_world \<Rightarrow> ('c, 'i) factory_world \<Rightarrow> bool" where
  notified: "fw_goroutines w g = Some go \<Longrightarrow> go_phase go = Running \<Longrightarrow>
    k < length (sh_listeners (fw_informers w ! go_informer go)) \<Longrightarrow> l = listener_of go w k \<Longrightarrow>
    notify_step w (set_listener (go_informer go) k (l\<lparr>li_pending := Suc (li_pending l)\<rparr>) w)"

inductive factory_step :: "('c, 'i) factory_world \<Rightarrow> ('c, 'i) factory_world \<Rightarrow> bool" where
  call_InformerFor: "factory_step w (snd (InformerFor ty newFunc w))"
| call_Start: "factory_step w (factory_Start stopCh w)"
| call_Shutdown: "factory_step w (Shutdown_begin w)"
| close_stopCh: "factory_step w (w\<lparr>fw_closed := insert stopCh (fw_closed w)\<rparr>)"
| add_handler: "r < length (fw_informers w) \<Longrightarrow>
    factory_step w (set_informer r (sh_AddEventHandler n (fw_informers w ! r)) w)"
| goroutine_runs: "run_step w w' \<Longrightarrow> factory_step w w'"
| notifies: "notify_step w w' \<Longrightarrow> factory_step w w'"
| run_syncs: "fw_goroutines w g = Some go \<Longrightarrow> go_phase go \<noteq> Spawned \<Longrightarrow> factory_step w (Run_synced go w)"

inductive factory_steps :: "('c, 'i) factory_world \<Rightarrow> ('c, 'i) factory_world \<Rightarrow> bool" where
  steps_refl: "factory_steps w w"
| steps_step: "factory_steps w w1 \<Longrightarrow> factory_step w1 w2 \<Longrightarrow> factory_steps w w2"

inductive_cases run_stepE: "run_step w w'"

inductive_cases notify_stepE: "notify_step w w'"

inductive_cases listener_runE: "listener_run closing l l'"

definition factory_options :: "'c SharedInformerOption set" where
  "factory_options = range WithCustomResyncConfig \<union> range WithTweakListOptions \<union> range WithNamespace"

text \<open>Reachable from a new factory, whatever its options.\<close>

definition factory_reachable :: "('c, 'i) factory_world \<Rightarrow> bool" where
  "factory_reachable w \<longleftrightarrow> (\<exists>client d opts. set opts \<subseteq> factory_options
     \<and> factory_steps (new_world (NewSharedInformerFactoryWithOptions client d opts)) w)"

end
