(* ===== verification/FactoryProps.thy ===== *)
theory FactoryProps imports SharedFactory begin

text \<open>
  The generated informer factory over time: which informers exist, which run, and what a shutdown
  leaves. The invariant says that every informer runs at most once, that the wait group counts
  the live goroutines, and that the listeners of an informer that has run have ended.
\<close>

section \<open>The invariant\<close>

definition inf_at :: "('c, 'i) factory_world \<Rightarrow> nat \<Rightarrow> 'i shared_informer" where
  "inf_at w r = fw_informers w ! r"

definition requested :: "('c, 'i) factory_world \<Rightarrow> (go_type \<times> nat) set" where
  "requested w = set (sf_informers (fw_factory w))"

definition started_types :: "('c, 'i) factory_world \<Rightarrow> go_type set" where
  "started_types w = set (sf_startedInformers (fw_factory w))"

definition untouched :: "'i shared_informer \<Rightarrow> bool" where
  "untouched i \<longleftrightarrow> \<not> sh_started i \<and> \<not> sh_stopped i \<and> \<not> sh_synced i \<and>
     (\<forall>l\<in>set (sh_listeners i). \<not> li_busy l \<and> \<not> li_ended l)"

definition listeners_ok :: "'i shared_informer \<Rightarrow> bool" where
  "listeners_ok i \<longleftrightarrow> (\<forall>l\<in>set (sh_listeners i). li_ended l \<longrightarrow> \<not> li_busy l \<and> \<not> li_pop l)"

definition finished :: "'i shared_informer \<Rightarrow> bool" where
  "finished i \<longleftrightarrow> sh_started i \<and> sh_stopped i \<and> (\<forall>l\<in>set (sh_listeners i). \<not> li_busy l \<and> li_ended l)"

definition table_ok :: "('c, 'i) factory_world \<Rightarrow> bool" where
  "table_ok w \<longleftrightarrow> distinct (map fst (sf_informers (fw_factory w)))
     \<and> distinct (map snd (sf_informers (fw_factory w))) \<and> snd ` requested w = {..<length (fw_informers w)}
     \<and> started_types w \<subseteq> fst ` requested w"

definition group_ok :: "('c, 'i) factory_world \<Rightarrow> bool" where
  "group_ok w \<longleftrightarrow> finite (dom (fw_goroutines w)) \<and> sf_wg (fw_factory w) = card (dom (fw_goroutines w))
     \<and> (\<forall>g go. fw_goroutines w g = Some go \<longrightarrow> g < fw_next w)"

fun phase_fits :: "go_phase \<Rightarrow> 'i shared_informer \<Rightarrow> bool" where
  "phase_fits Spawned i = untouched i"
| "phase_fits Running i = (sh_started i \<and> \<not> sh_stopped i \<and> listeners_ok i)"
| "phase_fits Draining i = (sh_started i \<and> sh_stopped i \<and> listeners_ok i)"

text \<open>A goroutine runs an informer that was started, nobody else runs it, and its phase is the informer's.\<close>

definition goroutines_ok :: "('c, 'i) factory_world \<Rightarrow> bool" where
  "goroutines_ok w \<longleftrightarrow>
     (\<forall>g go. fw_goroutines w g = Some go \<longrightarrow>
        (\<exists>ty\<in>started_types w. (ty, go_informer go) \<in> requested w)
        \<and> (\<forall>h go'. fw_goroutines w h = Some go' \<longrightarrow> go_informer go' = go_informer go \<longrightarrow> h = g)
        \<and> phase_fits (go_phase go) (inf_at w (go_informer go)))"

definition informers_ok :: "('c, 'i) factory_world \<Rightarrow> bool" where
  "informers_ok w \<longleftrightarrow> (\<forall>ty r. (ty, r) \<in> requested w \<longrightarrow>
     (if ty \<in> started_types w
      then (\<exists>g go. fw_goroutines w g = Some go \<and> go_informer go = r) \<or> finished (inf_at w r)
      else untouched (inf_at w r)))"

definition factory_inv :: "('c, 'i) factory_world \<Rightarrow> bool" where
  "factory_inv w \<longleftrightarrow> table_ok w \<and> group_ok w \<and> goroutines_ok w \<and> informers_ok w"

lemmas view_defs = inf_at_def requested_def started_types_def

lemma factory_invD:
  assumes "factory_inv w"
  shows "table_ok w" "group_ok w" "goroutines_ok w" "informers_ok w"
  using assms by (simp_all add: factory_inv_def)

lemma requested_unique:
  assumes "table_ok w" "(ty, r) \<in> requested w" "(ty', r) \<in> requested w" shows "ty = ty'"
proof -
  have "inj_on snd (requested w)" using assms(1) by (simp add: table_ok_def requested_def distinct_map)
  from inj_onD [OF this _ assms(2,3)] show ?thesis by simp
qed

lemma requested_fun:
  assumes "table_ok w" "(ty, r) \<in> requested w" "(ty, r') \<in> requested w" shows "r = r'"
proof -
  have "inj_on fst (requested w)" using assms(1) by (simp add: table_ok_def requested_def distinct_map)
  from inj_onD [OF this _ assms(2,3)] show ?thesis by simp
qed

lemma requested_range:
  assumes "table_ok w" "(ty, r) \<in> requested w" shows "r < length (fw_informers w)"
  using assms by (force simp: table_ok_def)

lemma goroutine_requested:
  assumes "goroutines_ok w" "fw_goroutines w g = Some go"
  obtains ty where "ty \<in> started_types w" "(ty, go_informer go) \<in> requested w"
  using assms unfolding goroutines_ok_def by blast

text \<open>What the goroutines rely on may grow.\<close>

lemma goroutines_ok_mono:
  assumes ok: "goroutines_ok w" and gs: "fw_goroutines w' = fw_goroutines w"
    and grow: "requested w \<subseteq> requested w'" "started_types w \<subseteq> started_types w'"
    and same: "\<And>ty r. (ty, r) \<in> requested w \<Longrightarrow> inf_at w' r = inf_at w r"
  shows "goroutines_ok w'"
  unfolding goroutines_ok_def gs
proof (intro allI impI)
  fix g go assume g: "fw_goroutines w g = Some go"
  obtain ty where ty: "ty \<in> started_types w" "(ty, go_informer go) \<in> requested w"
    by (rule goroutine_requested [OF ok g])
  have "inf_at w' (go_informer go) = inf_at w (go_informer go)" by (rule same [OF ty(2)])
  moreover have "\<exists>ty\<in>started_types w'. (ty, go_informer go) \<in> requested w'" using ty grow by blast
  ultimately show "(\<exists>ty\<in>started_types w'. (ty, go_informer go) \<in> requested w') \<and>
      (\<forall>h go'. fw_goroutines w h = Some go' \<longrightarrow> go_informer go' = go_informer go \<longrightarrow> h = g) \<and>
      phase_fits (go_phase go) (inf_at w' (go_informer go))"
    using ok [unfolded goroutines_ok_def, rule_format, OF g] by simp
qed

section \<open>Requests\<close>

lemma InformerFor_known:
  assumes "table_ok w" "(ty, r) \<in> requested w" shows "InformerFor ty newFunc w = (r, w)"
  using assms by (simp add: InformerFor_def table_ok_def requested_def)

definition resync_period :: "go_type \<Rightarrow> 'c sharedInformerFactory \<Rightarrow> int" where
  "resync_period ty f = (case map_of (sf_customResync f) ty of Some p \<Rightarrow> p | None \<Rightarrow> sf_defaultResync f)"

lemma InformerFor_new:
  assumes "ty \<notin> fst ` requested w"
  shows "InformerFor ty newFunc w = (length (fw_informers w),
    w\<lparr>fw_informers := fw_informers w @ [new_informer (newFunc (sf_client (fw_factory w)) (resync_period ty (fw_factory w)))],
      fw_factory := (fw_factory w)\<lparr>sf_informers := sf_informers (fw_factory w) @ [(ty, length (fw_informers w))]\<rparr>\<rparr>)"
proof -
  have "map_of (sf_informers (fw_factory w)) ty = None"
    using assms by (simp add: requested_def map_of_eq_None_iff)
  moreover have "AList.update ty x xs = xs @ [(ty, x)]" if "ty \<notin> fst ` set xs" for x and xs :: "(go_type \<times> nat) list"
    using that by (induction xs) auto
  ultimately show ?thesis using assms by (simp add: InformerFor_def Let_def requested_def resync_period_def)
qed

lemma InformerFor_inv:
  assumes inv: "factory_inv w" shows "factory_inv (snd (InformerFor ty newFunc w))"
proof (cases "ty \<in> fst ` requested w")
  case True
  then show ?thesis using InformerFor_known [of w ty _ newFunc] inv by (auto simp: factory_inv_def)
next
  case False
  let ?n = "length (fw_informers w)"
  define w' where "w' = snd (InformerFor ty newFunc w)"
  have tab: "table_ok w" using inv by (rule factory_invD)
  have req: "requested w' = insert (ty, ?n) (requested w)" and st: "started_types w' = started_types w"
    and gs: "fw_goroutines w' = fw_goroutines w" and len: "length (fw_informers w') = Suc ?n"
    by (simp_all add: w'_def InformerFor_new [OF False] requested_def started_types_def)
  have old: "inf_at w' r = inf_at w r" if "r < ?n" for r using that by (simp add: w'_def InformerFor_new [OF False] inf_at_def nth_append)
  have new: "untouched (inf_at w' ?n)" by (simp add: w'_def InformerFor_new [OF False] inf_at_def new_informer_def untouched_def)
  have notst: "ty \<notin> started_types w" using tab False by (auto simp: table_ok_def)
  have "table_ok w'"
    using tab False unfolding table_ok_def req st len
    by (auto simp: w'_def InformerFor_new [OF False] lessThan_Suc requested_def)
  moreover have "group_ok w'" using inv by (simp add: w'_def InformerFor_new [OF False] factory_inv_def group_ok_def)
  moreover have "goroutines_ok w'"
    by (rule goroutines_ok_mono [OF factory_invD(3) [OF inv]]) (auto simp: req st gs intro: old requested_range [OF tab])
  moreover have "informers_ok w'"
    unfolding informers_ok_def
  proof (intro allI impI)
    fix ty' r assume "(ty', r) \<in> requested w'"
    then consider "(ty', r) \<in> requested w" | "ty' = ty" "r = ?n" by (auto simp: req)
    then show "if ty' \<in> started_types w'
        then (\<exists>g go. fw_goroutines w' g = Some go \<and> go_informer go = r) \<or> finished (inf_at w' r)
        else untouched (inf_at w' r)"
    proof cases
      case 1
      with factory_invD(4) [OF inv] show ?thesis
        unfolding informers_ok_def st gs old [OF requested_range [OF tab 1]] by blast
    qed (use notst new in \<open>simp add: st\<close>)
  qed
  ultimately show ?thesis by (simp add: factory_inv_def w'_def)
qed

section \<open>Starting\<close>

lemma start_one_frame [simp]:
  "fw_informers (start_one ch e w) = fw_informers w" "fw_closed (start_one ch e w) = fw_closed w"
  "requested (start_one ch e w) = requested w" "inf_at (start_one ch e w) = inf_at w"
  "sf_informers (fw_factory (start_one ch e w)) = sf_informers (fw_factory w)"
  "sf_shuttingDown (fw_factory (start_one ch e w)) = sf_shuttingDown (fw_factory w)"
  by (simp_all add: start_one_def requested_def inf_at_def fun_eq_iff Let_def split: prod.split)

lemma start_one_started: "started_types (start_one ch (ty, r) w) = insert ty (started_types w)"
  by (auto simp: start_one_def started_types_def Let_def)

lemma start_one_inv:
  assumes inv: "factory_inv w" and e: "(ty, r) \<in> requested w"
  shows "factory_inv (start_one ch (ty, r) w)"
proof (cases "ty \<in> started_types w")
  case True
  then have "start_one ch (ty, r) w = w" by (simp add: start_one_def started_types_def)
  with inv show ?thesis by simp
next
  case False
  define w' where "w' = start_one ch (ty, r) w"
  let ?go = "\<lparr>go_informer = r, go_stopCh = ch, go_phase = Spawned\<rparr>" and ?n = "fw_next w"
  note [simp] = start_one_frame [of ch "(ty, r)" w, folded w'_def]
  have gs: "fw_goroutines w' = (fw_goroutines w)(?n \<mapsto> ?go)" and nx: "fw_next w' = Suc ?n"
    and wg: "sf_wg (fw_factory w') = Suc (sf_wg (fw_factory w))" and st: "started_types w' = insert ty (started_types w)"
    using False by (simp_all add: w'_def start_one_def started_types_def Let_def)
  have grp: "group_ok w" and tab: "table_ok w" using inv by (auto simp: factory_inv_def)
  have fresh: "?n \<notin> dom (fw_goroutines w)" using grp by (auto simp: group_ok_def)
  have unt: "untouched (inf_at w r)" using factory_invD(4) [OF inv] e False by (simp add: informers_ok_def)
  have free: "go_informer go \<noteq> r" if g: "fw_goroutines w g = Some go" for g go
  proof
    assume r: "go_informer go = r"
    obtain ty' where "ty' \<in> started_types w" "(ty', go_informer go) \<in> requested w"
      by (rule goroutine_requested [OF factory_invD(3) [OF inv] g])
    with requested_unique [OF tab e] r False show False by auto
  qed
  have "table_ok w'"
    using tab e unfolding table_ok_def requested_def by (force simp: st requested_def)
  moreover have "group_ok w'"
    using grp fresh unfolding group_ok_def by (auto simp: gs wg nx less_Suc_eq)
  moreover have "goroutines_ok w'"
    unfolding goroutines_ok_def
  proof (intro allI impI)
    fix g go assume g: "fw_goroutines w' g = Some go"
    show "(\<exists>ty\<in>started_types w'. (ty, go_informer go) \<in> requested w') \<and>
        (\<forall>h go'. fw_goroutines w' h = Some go' \<longrightarrow> go_informer go' = go_informer go \<longrightarrow> h = g) \<and>
        phase_fits (go_phase go) (inf_at w' (go_informer go))"
    proof (cases "g = ?n")
      case True
      then have go: "go = ?go" using g by (simp add: gs)
      show ?thesis using e unt free by (auto simp: go gs st True)
    next
      case False
      then have g': "fw_goroutines w g = Some go" using g by (simp add: gs)
      from factory_invD(3) [OF inv, unfolded goroutines_ok_def, rule_format, OF g'] free [OF g']
      show ?thesis by (auto simp: gs st)
    qed
  qed
  moreover have "informers_ok w'"
    unfolding informers_ok_def
  proof (intro allI impI)
    fix ty' r' assume tr: "(ty', r') \<in> requested w'"
    show "if ty' \<in> started_types w'
      then (\<exists>g go. fw_goroutines w' g = Some go \<and> go_informer go = r') \<or> finished (inf_at w' r')
      else untouched (inf_at w' r')"
    proof (cases "ty' = ty")
      case True
      then have "r' = r" using requested_fun [OF tab e] tr by simp
      then have "\<exists>g go. fw_goroutines w' g = Some go \<and> go_informer go = r'" by (intro exI [of _ ?n] exI [of _ ?go]) (simp add: gs)
      then show ?thesis using True by (simp add: st)
    next
      case False
      have old: "if ty' \<in> started_types w
          then (\<exists>g go. fw_goroutines w g = Some go \<and> go_informer go = r') \<or> finished (inf_at w r')
          else untouched (inf_at w r')"
        using factory_invD(4) [OF inv] tr unfolding informers_ok_def by simp
      have "fw_goroutines w' g = Some go" if "fw_goroutines w g = Some go" for g go
        using that fresh by (auto simp: gs)
      then have "\<exists>g go. fw_goroutines w' g = Some go \<and> go_informer go = r'"
        if "\<exists>g go. fw_goroutines w g = Some go \<and> go_informer go = r'" using that by blast
      with old show ?thesis by (cases "ty' \<in> started_types w") (use False in \<open>auto simp: st\<close>)
    qed
  qed
  ultimately show ?thesis by (simp add: factory_inv_def w'_def)
qed

lemma start_all_inv:
  assumes "factory_inv w" "set es \<subseteq> requested w"
  shows "factory_inv (fold (start_one ch) es w) \<and> requested (fold (start_one ch) es w) = requested w
    \<and> started_types (fold (start_one ch) es w) = fst ` set es \<union> started_types w
    \<and> inf_at (fold (start_one ch) es w) = inf_at w"
  using assms
proof (induction es arbitrary: w)
  case Nil
  then show ?case by simp
next
  case (Cons e es)
  obtain ty r where e: "e = (ty, r)" by (cases e)
  have "factory_inv (start_one ch e w)" using start_one_inv [of w ty r ch] Cons.prems by (simp add: e)
  from Cons.IH [OF this] Cons.prems show ?case by (auto simp: e start_one_started)
qed

lemma Start_inv:
  assumes "factory_inv w"
  shows "factory_inv (factory_Start ch w)" and "requested (factory_Start ch w) = requested w"
    and "inf_at (factory_Start ch w) = inf_at w"
    and "\<not> sf_shuttingDown (fw_factory w) \<Longrightarrow> started_types (factory_Start ch w) = fst ` requested w"
proof -
  have sub: "started_types w \<subseteq> fst ` requested w" using assms by (simp add: factory_inv_def table_ok_def)
  have "set (sf_informers (fw_factory w)) \<subseteq> requested w" by (simp add: requested_def)
  from start_all_inv [OF assms this, of ch] sub
  show "factory_inv (factory_Start ch w)" "requested (factory_Start ch w) = requested w"
    "inf_at (factory_Start ch w) = inf_at w"
    "\<not> sf_shuttingDown (fw_factory w) \<Longrightarrow> started_types (factory_Start ch w) = fst ` requested w"
    using assms by (auto simp: factory_Start_def requested_def)
qed

section \<open>Running\<close>

text \<open>
  The steps of a goroutine change its informer, and its own entry; \<open>touches\<close> says so. What the
  other informers and goroutines rely on stays.
\<close>

definition touches :: "nat \<Rightarrow> goroutine \<Rightarrow> ('c, 'i) factory_world \<Rightarrow> ('c, 'i) factory_world \<Rightarrow> bool" where
  "touches g go w w' \<longleftrightarrow> fw_goroutines w g = Some go \<and> requested w' = requested w
     \<and> sf_informers (fw_factory w') = sf_informers (fw_factory w)
     \<and> started_types w' = started_types w \<and> length (fw_informers w') = length (fw_informers w)
     \<and> (\<forall>r. r \<noteq> go_informer go \<longrightarrow> inf_at w' r = inf_at w r) \<and> fw_next w' = fw_next w
     \<and> (\<forall>h. h \<noteq> g \<longrightarrow> fw_goroutines w' h = fw_goroutines w h)"

lemma touches_inv:
  assumes inv: "factory_inv w" and t: "touches g go w w'" and grp: "group_ok w'"
    and its: "case fw_goroutines w' g of
        None \<Rightarrow> finished (inf_at w' (go_informer go))
      | Some go' \<Rightarrow> go_informer go' = go_informer go \<and> phase_fits (go_phase go') (inf_at w' (go_informer go))"
  shows "factory_inv w'"
proof -
  have g: "fw_goroutines w g = Some go" and req: "requested w' = requested w" and st: "started_types w' = started_types w"
    and len: "length (fw_informers w') = length (fw_informers w)"
    and inf: "\<And>r. r \<noteq> go_informer go \<Longrightarrow> inf_at w' r = inf_at w r"
    and gs: "\<And>h. h \<noteq> g \<Longrightarrow> fw_goroutines w' h = fw_goroutines w h"
    and tbl: "sf_informers (fw_factory w') = sf_informers (fw_factory w)"
    using t by (simp_all add: touches_def)
  have gok: "goroutines_ok w" and tab: "table_ok w" using inv by (auto simp: factory_inv_def)
  have alone: "h = g" if "fw_goroutines w h = Some go'" "go_informer go' = go_informer go" for h go'
    using gok [unfolded goroutines_ok_def, rule_format, OF g] that by blast
  obtain ty where ty: "ty \<in> started_types w" "(ty, go_informer go) \<in> requested w"
    by (rule goroutine_requested [OF gok g])
  have "goroutines_ok w'"
    unfolding goroutines_ok_def
  proof (intro allI impI)
    fix h x assume h: "fw_goroutines w' h = Some x"
    show "(\<exists>ty\<in>started_types w'. (ty, go_informer x) \<in> requested w') \<and>
        (\<forall>k y. fw_goroutines w' k = Some y \<longrightarrow> go_informer y = go_informer x \<longrightarrow> k = h) \<and>
        phase_fits (go_phase x) (inf_at w' (go_informer x))"
    proof (cases "h = g")
      case True
      then have x: "go_informer x = go_informer go" "phase_fits (go_phase x) (inf_at w' (go_informer go))"
        using its h by auto
      have "k = g" if "fw_goroutines w' k = Some y" "go_informer y = go_informer go" for k y
        using alone [of k y] gs [of k] that by (cases "k = g") auto
      then show ?thesis using x ty True by (auto simp: req st)
    next
      case False
      then have h': "fw_goroutines w h = Some x" using h gs by simp
      then have other: "go_informer x \<noteq> go_informer go" using alone False by blast
      note * = gok [unfolded goroutines_ok_def, rule_format, OF h']
      have "k = h" if "fw_goroutines w' k = Some y" "go_informer y = go_informer x" for k y
      proof (cases "k = g")
        case True
        then have "go_informer y = go_informer go" using its that by auto
        with other that show ?thesis by simp
      qed (use that gs * in auto)
      then show ?thesis using * other by (simp add: req st inf)
    qed
  qed
  moreover have "informers_ok w'"
    unfolding informers_ok_def
  proof (intro allI impI)
    fix ty' r assume tr: "(ty', r) \<in> requested w'"
    have old: "if ty' \<in> started_types w
        then (\<exists>g go. fw_goroutines w g = Some go \<and> go_informer go = r) \<or> finished (inf_at w r)
        else untouched (inf_at w r)"
      using factory_invD(4) [OF inv] tr unfolding informers_ok_def req by blast
    show "if ty' \<in> started_types w'
        then (\<exists>g go. fw_goroutines w' g = Some go \<and> go_informer go = r) \<or> finished (inf_at w' r)
        else untouched (inf_at w' r)"
    proof (cases "r = go_informer go")
      case True
      then have "ty' = ty" using requested_unique [OF tab ty(2)] tr by (simp add: req)
      then show ?thesis using ty its True by (auto simp: st split: option.splits)
    next
      case False
      have "\<exists>g go. fw_goroutines w' g = Some go \<and> go_informer go = r"
        if "fw_goroutines w h = Some x" "go_informer x = r" for h x
        using that gs [of h] g False by (cases "h = g") auto
      with old False show ?thesis unfolding st inf [OF False] by (auto split: if_splits)
    qed
  qed
  moreover have "table_ok w'" using tab by (simp add: table_ok_def tbl req st len)
  ultimately show ?thesis using grp by (simp add: factory_inv_def)
qed

lemma go_done_frame [simp]:
  "requested (go_done g w) = requested w" "started_types (go_done g w) = started_types w"
  "inf_at (go_done g w) = inf_at w" "fw_informers (go_done g w) = fw_informers w"
  "fw_goroutines (go_done g w) = (fw_goroutines w)(g := None)" "fw_next (go_done g w) = fw_next w"
  "fw_closed (go_done g w) = fw_closed w"
  by (simp_all add: go_done_def requested_def started_types_def inf_at_def fun_eq_iff)

lemma set_informer_frame [simp]:
  "requested (set_informer r i w) = requested w" "started_types (set_informer r i w) = started_types w"
  "fw_goroutines (set_informer r i w) = fw_goroutines w" "fw_next (set_informer r i w) = fw_next w"
  "length (fw_informers (set_informer r i w)) = length (fw_informers w)" "fw_closed (set_informer r i w) = fw_closed w"
  "fw_factory (set_informer r i w) = fw_factory w"
  by (simp_all add: set_informer_def requested_def started_types_def)

lemma set_informer_at:
  "inf_at (set_informer r i w) k = (if k = r \<and> r < length (fw_informers w) then i else inf_at w k)"
  by (cases "r < length (fw_informers w)") (simp_all add: set_informer_def inf_at_def nth_list_update not_less list_update_beyond)

lemma group_ok_done:
  assumes "group_ok w" "fw_goroutines w g = Some go" shows "group_ok (go_done g (set_informer r i w))"
proof -
  have "g \<in> dom (fw_goroutines w)" using assms(2) by auto
  with assms(1) show ?thesis by (auto simp: group_ok_def go_done_def card_Diff_singleton)
qed

lemma goroutine_facts:
  assumes "factory_inv w" "fw_goroutines w g = Some go"
  shows "go_informer go < length (fw_informers w)" "phase_fits (go_phase go) (inf_at w (go_informer go))"
proof -
  obtain ty where "(ty, go_informer go) \<in> requested w"
    by (rule goroutine_requested [OF factory_invD(3) [OF assms(1)] assms(2)])
  then show "go_informer go < length (fw_informers w)" by (rule requested_range [OF factory_invD(1) [OF assms(1)]])
  show "phase_fits (go_phase go) (inf_at w (go_informer go))"
    using factory_invD(3) [OF assms(1), unfolded goroutines_ok_def, rule_format, OF assms(2)] by simp
qed

text \<open>An informer about to run has never run.\<close>

lemma Run_begin_fresh:
  assumes "factory_inv w" "fw_goroutines w g = Some go" "go_phase go = Spawned"
  shows "Run_begin g go w = set_informer (go_informer go) ((inf_at w (go_informer go))\<lparr>sh_started := True\<rparr>)
    (w\<lparr>fw_goroutines := (fw_goroutines w)(g \<mapsto> go\<lparr>go_phase := Running\<rparr>)\<rparr>)"
  using goroutine_facts(2) [OF assms(1,2)] assms(3) by (simp add: Run_begin_def untouched_def inf_at_def)

lemma Run_begin_inv:
  assumes inv: "factory_inv w" and g: "fw_goroutines w g = Some go" "go_phase go = Spawned"
  shows "factory_inv (Run_begin g go w)"
proof (rule touches_inv [OF inv])
  note [simp] = Run_begin_fresh [OF inv g]
  have unt: "untouched (inf_at w (go_informer go))" and len: "go_informer go < length (fw_informers w)"
    using goroutine_facts [OF inv g(1)] g(2) by simp_all
  show "touches g go w (Run_begin g go w)"
    using g(1) by (simp add: touches_def set_informer_at) (simp add: inf_at_def requested_def started_types_def)
  have "dom ((fw_goroutines w)(g \<mapsto> go\<lparr>go_phase := Running\<rparr>)) = dom (fw_goroutines w)" using g(1) by auto
  then show "group_ok (Run_begin g go w)"
    using factory_invD(2) [OF inv] g(1) by (auto simp: group_ok_def)
  show "case fw_goroutines (Run_begin g go w) g of
        None \<Rightarrow> finished (inf_at (Run_begin g go w) (go_informer go))
      | Some go' \<Rightarrow> go_informer go' = go_informer go \<and> phase_fits (go_phase go') (inf_at (Run_begin g go w) (go_informer go))"
    using unt len by (simp add: set_informer_at untouched_def listeners_ok_def)
qed

lemma same_goroutines:
  assumes "group_ok w" "fw_goroutines w g = Some go"
  shows "group_ok (set_informer r i (w\<lparr>fw_goroutines := (fw_goroutines w)(g \<mapsto> go')\<rparr>))"
proof -
  have "dom ((fw_goroutines w)(g \<mapsto> go')) = dom (fw_goroutines w)" using assms(2) by auto
  then show ?thesis using assms by (auto simp: group_ok_def)
qed

lemma Run_stop_inv:
  assumes inv: "factory_inv w" and g: "fw_goroutines w g = Some go" "go_phase go = Running"
  shows "factory_inv (Run_stop g go w)"
proof (rule touches_inv [OF inv])
  have run: "phase_fits Running (inf_at w (go_informer go))" and len: "go_informer go < length (fw_informers w)"
    using goroutine_facts [OF inv g(1)] g(2) by simp_all
  show "touches g go w (Run_stop g go w)"
    using g(1) by (simp add: touches_def Run_stop_def set_informer_at Let_def) (simp add: inf_at_def requested_def started_types_def)
  show "group_ok (Run_stop g go w)"
    using same_goroutines [OF factory_invD(2) [OF inv] g(1)] by (simp add: Run_stop_def Let_def)
  show "case fw_goroutines (Run_stop g go w) g of
        None \<Rightarrow> finished (inf_at (Run_stop g go w) (go_informer go))
      | Some go' \<Rightarrow> go_informer go' = go_informer go \<and> phase_fits (go_phase go') (inf_at (Run_stop g go w) (go_informer go))"
    using run len by (simp add: Run_stop_def set_informer_at Let_def) (simp add: inf_at_def listeners_ok_def)
qed

lemma Run_end_inv:
  assumes inv: "factory_inv w" and g: "fw_goroutines w g = Some go" "go_phase go = Draining" and "\<not> Run_waits go w"
  shows "factory_inv (Run_end g go w)"
proof (rule touches_inv [OF inv])
  have run: "phase_fits Draining (inf_at w (go_informer go))"
    using goroutine_facts [OF inv g(1)] g(2) by simp_all
  show "touches g go w (Run_end g go w)"
    using g(1) by (simp add: touches_def Run_end_def) (simp add: go_done_def)
  have "g \<in> dom (fw_goroutines w)" using g(1) by auto
  then show "group_ok (Run_end g go w)"
    using factory_invD(2) [OF inv] by (auto simp: Run_end_def group_ok_def go_done_def card_Diff_singleton)
  show "case fw_goroutines (Run_end g go w) g of
        None \<Rightarrow> finished (inf_at (Run_end g go w) (go_informer go))
      | Some go' \<Rightarrow> go_informer go' = go_informer go \<and> phase_fits (go_phase go') (inf_at (Run_end g go w) (go_informer go))"
    using run assms(4) by (auto simp: Run_end_def finished_def listeners_ok_def Run_waits_def inf_at_def)
qed

text \<open>A step that changes only the informer that a goroutine runs, and fits its phase.\<close>

lemma informer_step_inv:
  assumes inv: "factory_inv w" and g: "fw_goroutines w g = Some go"
    and fits: "phase_fits (go_phase go) (inf_at w (go_informer go)) \<Longrightarrow> phase_fits (go_phase go) i"
  shows "factory_inv (set_informer (go_informer go) i w)"
proof (rule touches_inv [OF inv])
  show "touches g go w (set_informer (go_informer go) i w)"
    using g by (simp add: touches_def set_informer_at)
  show "group_ok (set_informer (go_informer go) i w)"
    using factory_invD(2) [OF inv] by (simp add: group_ok_def)
  show "case fw_goroutines (set_informer (go_informer go) i w) g of
        None \<Rightarrow> finished (inf_at (set_informer (go_informer go) i w) (go_informer go))
      | Some go' \<Rightarrow> go_informer go' = go_informer go \<and>
          phase_fits (go_phase go') (inf_at (set_informer (go_informer go) i w) (go_informer go))"
    using g goroutine_facts [OF inv g] fits by (simp add: set_informer_at)
qed

lemma Run_synced_inv:
  assumes inv: "factory_inv w" and g: "fw_goroutines w g = Some go" "go_phase go \<noteq> Spawned"
  shows "factory_inv (Run_synced go w)"
  unfolding Run_synced_def Let_def
  by (rule informer_step_inv [OF inv g(1)])
     (use g(2) in \<open>cases "go_phase go"; simp add: inf_at_def listeners_ok_def\<close>)

lemma listener_run_ok:
  assumes "listener_run closing l l'" "li_ended l \<longrightarrow> \<not> li_busy l \<and> \<not> li_pop l"
  shows "li_ended l' \<longrightarrow> \<not> li_busy l' \<and> \<not> li_pop l'"
  using assms by (auto elim!: listener_runE)

lemma listeners_ok_update:
  assumes "listeners_ok i" "k < length (sh_listeners i)"
    and "li_ended (sh_listeners i ! k) \<longrightarrow> \<not> li_busy (sh_listeners i ! k) \<and> \<not> li_pop (sh_listeners i ! k) \<Longrightarrow>
      li_ended l \<longrightarrow> \<not> li_busy l \<and> \<not> li_pop l"
  shows "listeners_ok (i\<lparr>sh_listeners := (sh_listeners i)[k := l]\<rparr>)"
proof -
  have "li_ended (sh_listeners i ! k) \<longrightarrow> \<not> li_busy (sh_listeners i ! k) \<and> \<not> li_pop (sh_listeners i ! k)"
    using assms(1,2) by (auto simp: listeners_ok_def)
  with assms show ?thesis using set_update_subset_insert [of "sh_listeners i" k l] by (auto simp: listeners_ok_def)
qed

lemma set_listener_inv:
  assumes inv: "factory_inv w" and g: "fw_goroutines w g = Some go" "go_phase go \<noteq> Spawned"
    and k: "k < length (sh_listeners (fw_informers w ! go_informer go))"
    and l: "li_ended (listener_of go w k) \<longrightarrow> \<not> li_busy (listener_of go w k) \<and> \<not> li_pop (listener_of go w k) \<Longrightarrow>
      li_ended l \<longrightarrow> \<not> li_busy l \<and> \<not> li_pop l"
  shows "factory_inv (set_listener (go_informer go) k l w)"
  unfolding set_listener_def Let_def
proof (rule informer_step_inv [OF inv g(1)])
  let ?i = "fw_informers w ! go_informer go"
  assume "phase_fits (go_phase go) (inf_at w (go_informer go))"
  then show "phase_fits (go_phase go) (?i\<lparr>sh_listeners := (sh_listeners ?i)[k := l]\<rparr>)"
    using g(2) listeners_ok_update [of ?i k l] k l by (cases "go_phase go") (auto simp: inf_at_def listener_of_def)
qed

lemma add_handler_inv:
  assumes inv: "factory_inv w" and r: "r < length (fw_informers w)"
  shows "factory_inv (set_informer r (sh_AddEventHandler n (fw_informers w ! r)) w)"
proof -
  let ?i = "fw_informers w ! r" and ?w = "set_informer r (sh_AddEventHandler n (fw_informers w ! r)) w"
  have at: "inf_at ?w k = (if k = r then sh_AddEventHandler n (inf_at w r) else inf_at w k)" for k
    using r by (simp add: set_informer_at) (simp add: inf_at_def)
  have fits: "phase_fits ph i \<Longrightarrow> phase_fits ph (sh_AddEventHandler n i)" for ph and i :: "'b shared_informer"
    by (cases ph) (auto simp: sh_AddEventHandler_def untouched_def listeners_ok_def newProcessListener_def)
  have un: "untouched (sh_AddEventHandler n i)" if "untouched i" for i :: "'b shared_informer"
    using fits [of Spawned i] that by simp
  have fin: "finished (sh_AddEventHandler n i)" if "finished i" for i :: "'b shared_informer"
    using that by (simp add: finished_def sh_AddEventHandler_def)
  have "goroutines_ok ?w"
    using factory_invD(3) [OF inv] fits unfolding goroutines_ok_def by (auto simp: at)
  moreover have "informers_ok ?w"
    using factory_invD(4) [OF inv] un fin unfolding informers_ok_def by (fastforce simp: at)
  moreover have "table_ok ?w" "group_ok ?w"
    using factory_invD(1,2) [OF inv] by (simp_all add: table_ok_def group_ok_def)
  ultimately show ?thesis by (simp add: factory_inv_def)
qed

section \<open>Reachable worlds\<close>

lemma same_view_inv:
  assumes "fw_goroutines w' = fw_goroutines w" "fw_informers w' = fw_informers w" "fw_next w' = fw_next w"
    and "sf_informers (fw_factory w') = sf_informers (fw_factory w)"
    and "sf_startedInformers (fw_factory w') = sf_startedInformers (fw_factory w)"
    and "sf_wg (fw_factory w') = sf_wg (fw_factory w)"
  shows "factory_inv w' = factory_inv w"
proof -
  have "requested w' = requested w" "started_types w' = started_types w" "inf_at w' = inf_at w"
    using assms by (simp_all add: view_defs fun_eq_iff)
  with assms show ?thesis
    by (simp add: factory_inv_def table_ok_def group_ok_def goroutines_ok_def informers_ok_def)
qed

lemma run_step_inv: "run_step w w' \<Longrightarrow> factory_inv w \<Longrightarrow> factory_inv w'"
proof (erule run_stepE)
  fix g go k l
  assume "factory_inv w" "w' = set_listener (go_informer go) k l w" "fw_goroutines w g = Some go" "go_phase go \<noteq> Spawned"
    "k < length (sh_listeners (fw_informers w ! go_informer go))"
    "listener_run (go_phase go = Draining) (listener_of go w k) l"
  then show "factory_inv w'" using set_listener_inv listener_run_ok by blast
qed (simp_all add: Run_begin_inv Run_stop_inv Run_end_inv)

lemma notify_step_inv: "notify_step w w' \<Longrightarrow> factory_inv w \<Longrightarrow> factory_inv w'"
  by (erule notify_stepE) (simp add: set_listener_inv)

lemma factory_step_inv:
  assumes "factory_step w w'" "factory_inv w" shows "factory_inv w'"
  using assms
proof (cases rule: factory_step.cases)
  case (call_InformerFor ty newFunc)
  then show ?thesis using InformerFor_inv [OF assms(2)] by simp
next
  case (call_Start stopCh)
  then show ?thesis using Start_inv(1) [OF assms(2)] by simp
next
  case call_Shutdown
  then show ?thesis using assms(2) same_view_inv [of "Shutdown_begin w" w] by (simp add: Shutdown_begin_def)
next
  case (close_stopCh stopCh)
  then show ?thesis using assms(2) same_view_inv [of w' w] by simp
next
  case goroutine_runs
  then show ?thesis using run_step_inv assms(2) by blast
next
  case (add_handler r n)
  then show ?thesis using add_handler_inv assms(2) by blast
next
  case notifies
  then show ?thesis using notify_step_inv assms(2) by blast
next
  case (run_syncs g go)
  then show ?thesis using Run_synced_inv assms(2) by blast
qed

lemma factory_steps_inv: "factory_steps w w' \<Longrightarrow> factory_inv w \<Longrightarrow> factory_inv w'"
  by (induction rule: factory_steps.induct) (auto intro: factory_step_inv)

lemma new_factory_fields:
  assumes "set opts \<subseteq> factory_options" "f = NewSharedInformerFactoryWithOptions client d opts"
  shows "sf_client f = client \<and> sf_defaultResync f = d \<and> sf_informers f = [] \<and> sf_startedInformers f = []
    \<and> sf_wg f = 0 \<and> \<not> sf_shuttingDown f"
proof -
  let ?P = "\<lambda>f :: 'a sharedInformerFactory. sf_client f = client \<and> sf_defaultResync f = d \<and> sf_informers f = []
    \<and> sf_startedInformers f = [] \<and> sf_wg f = 0 \<and> \<not> sf_shuttingDown f"
  have step: "?P (opt f)" if "opt \<in> factory_options" "?P f" for opt f
    using that by (auto simp: factory_options_def WithCustomResyncConfig_def WithTweakListOptions_def WithNamespace_def)
  have "?P (fold (\<lambda>opt factory. opt factory) opts f)" if "?P f" for f
    using assms(1) that by (induction opts arbitrary: f) (simp_all add: step)
  then show ?thesis unfolding assms(2) NewSharedInformerFactoryWithOptions_def by simp
qed

lemma factory_reachable_inv:
  assumes "factory_reachable w" shows "factory_inv w"
proof -
  obtain client d opts where o: "set opts \<subseteq> factory_options"
      "factory_steps (new_world (NewSharedInformerFactoryWithOptions client d opts)) w"
    using assms by (auto simp: factory_reachable_def)
  have "factory_inv (new_world (NewSharedInformerFactoryWithOptions client d opts))"
    using new_factory_fields [OF o(1) refl, of client d]
    by (simp add: factory_inv_def table_ok_def group_ok_def goroutines_ok_def informers_ok_def new_world_def view_defs)
  with o(2) show ?thesis by (rule factory_steps_inv)
qed

end
