(* ===== verification/FactoryLife.thy ===== *)
theory FactoryLife imports FactoryProps begin

text \<open>
  What the users of the generated informer factory rely on: one informer per type, each run at
  most once, a shutdown that waits for the handlers, ends when the stop channels are closed and
  they return, and is final.
\<close>

section \<open>What steps keep\<close>

text \<open>Informers are never forgotten or replaced.\<close>

definition keeps :: "('c, 'i) factory_world \<Rightarrow> ('c, 'i) factory_world \<Rightarrow> bool" where
  "keeps w w' \<longleftrightarrow> requested w \<subseteq> requested w' \<and> length (fw_informers w) \<le> length (fw_informers w')
     \<and> (\<forall>r < length (fw_informers w). sh_informer (inf_at w' r) = sh_informer (inf_at w r))
     \<and> (sf_shuttingDown (fw_factory w) \<longrightarrow> sf_shuttingDown (fw_factory w'))
     \<and> sf_client (fw_factory w') = sf_client (fw_factory w)"

lemma factory_keeps_refl [simp]: "keeps w w"
  by (simp add: keeps_def)

lemma factory_keeps_trans:
  assumes "keeps w w1" "keeps w1 w2" shows "keeps w w2"
proof -
  have "r < length (fw_informers w1)" if "r < length (fw_informers w)" for r
    using assms(1) that by (simp add: keeps_def)
  with assms show ?thesis unfolding keeps_def by auto
qed

lemma InformerFor_keeps:
  assumes "table_ok w" shows "keeps w (snd (InformerFor ty newFunc w))"
proof (cases "ty \<in> fst ` requested w")
  case True
  then show ?thesis using InformerFor_known [OF assms] by auto
next
  case False
  then show ?thesis
    by (simp add: InformerFor_new [OF False] keeps_def requested_def inf_at_def nth_append subset_insertI)
qed

lemma start_all_keeps: "keeps w (fold (start_one ch) es w)"
proof (induction es arbitrary: w)
  case (Cons e es)
  have "keeps w (start_one ch e w)"
    by (cases e) (simp add: keeps_def, simp add: start_one_def Let_def)
  with Cons.IH [of "start_one ch e w"] factory_keeps_trans show ?case by fastforce
qed simp

lemma Run_begin_keeps: "keeps w (Run_begin g go w)"
  by (simp add: Run_begin_def keeps_def Let_def set_informer_at) (simp add: go_done_def view_defs)

lemma set_informer_keeps:
  "sh_informer i = sh_informer (fw_informers w ! r) \<Longrightarrow> keeps w (set_informer r i w)"
  by (simp add: keeps_def set_informer_at) (simp add: view_defs)

lemma set_listener_keeps: "keeps w (set_listener r k l w)"
  by (simp add: set_listener_def Let_def set_informer_keeps)

lemma run_step_keeps: "run_step w w' \<Longrightarrow> keeps w w'"
proof (erule run_stepE)
  fix g go assume "w' = Run_stop g go w"
  then show "keeps w w'" by (simp add: Run_stop_def keeps_def Let_def set_informer_at) (simp add: view_defs)
next
  fix g go assume "w' = Run_end g go w"
  then show "keeps w w'" by (simp add: Run_end_def keeps_def) (simp add: go_done_def view_defs)
qed (simp_all add: Run_begin_keeps set_listener_keeps)

lemma factory_step_keeps:
  assumes "factory_step w w'" "factory_inv w" shows "keeps w w'"
  using assms(1)
proof (cases rule: factory_step.cases)
  case (call_InformerFor ty newFunc)
  then show ?thesis using InformerFor_keeps factory_invD(1) [OF assms(2)] by blast
next
  case (call_Start stopCh)
  then show ?thesis by (simp add: factory_Start_def start_all_keeps)
next
  case goroutine_runs
  then show ?thesis by (rule run_step_keeps)
next
  case (add_handler r n)
  then show ?thesis by (simp add: set_informer_keeps sh_AddEventHandler_def)
next
  case notifies
  then show ?thesis by (auto elim!: notify_stepE simp: set_listener_keeps)
next
  case (run_syncs g go)
  then show ?thesis by (simp add: Run_synced_def Let_def set_informer_keeps)
qed (simp_all add: keeps_def Shutdown_begin_def view_defs)

lemma factory_steps_keeps: "factory_steps w w' \<Longrightarrow> factory_inv w \<Longrightarrow> keeps w w'"
  by (induction rule: factory_steps.induct) (auto intro: factory_keeps_trans factory_step_keeps factory_steps_inv)

section \<open>Shutting down\<close>

text \<open>After a shutdown began no goroutine is started and no informer starts but by a goroutine.\<close>

definition has_run :: "('c, 'i) factory_world \<Rightarrow> nat \<Rightarrow> bool" where
  "has_run w r \<longleftrightarrow> r < length (fw_informers w) \<and> sh_started (inf_at w r)"

definition will_run :: "('c, 'i) factory_world \<Rightarrow> nat \<Rightarrow> bool" where
  "will_run w r \<longleftrightarrow> (\<exists>g go. fw_goroutines w g = Some go \<and> go_informer go = r)"

definition winds_down :: "('c, 'i) factory_world \<Rightarrow> ('c, 'i) factory_world \<Rightarrow> bool" where
  "winds_down w w' \<longleftrightarrow> dom (fw_goroutines w') \<subseteq> dom (fw_goroutines w)
     \<and> (\<forall>r. will_run w' r \<longrightarrow> will_run w r) \<and> (\<forall>r. has_run w' r \<longrightarrow> has_run w r \<or> will_run w r)"

lemma winds_down_trans: "winds_down w w1 \<Longrightarrow> winds_down w1 w2 \<Longrightarrow> winds_down w w2"
  unfolding winds_down_def by blast

lemma set_informer_winds_down:
  assumes "sh_started i \<Longrightarrow> sh_started (fw_informers w ! r)"
  shows "winds_down w (set_informer r i w)"
proof -
  have "sh_started (inf_at (set_informer r i w) k) \<Longrightarrow> sh_started (inf_at w k)" for k
    using assms by (simp add: set_informer_at inf_at_def [of w] split: if_splits)
  then show ?thesis by (auto simp: winds_down_def will_run_def has_run_def)
qed

lemma set_listener_winds_down: "winds_down w (set_listener r k l w)"
  unfolding set_listener_def Let_def by (rule set_informer_winds_down) simp

lemma inf_at_goroutines: "inf_at (w\<lparr>fw_goroutines := gs\<rparr>) r = inf_at w r"
  by (simp add: inf_at_def)

lemma step_winds_down:
  assumes "factory_step w w'" "factory_inv w" "sf_shuttingDown (fw_factory w)"
  shows "winds_down w w'"
  using assms(1)
proof (cases rule: factory_step.cases)
  case (call_InformerFor ty newFunc)
  show ?thesis
  proof (cases "ty \<in> fst ` requested w")
    case True
    then show ?thesis
      using InformerFor_known [OF factory_invD(1) [OF assms(2)]] call_InformerFor by (auto simp: winds_down_def)
  next
    case False
    show ?thesis unfolding call_InformerFor InformerFor_new [OF False]
      by (auto simp: winds_down_def will_run_def has_run_def inf_at_def nth_append new_informer_def less_Suc_eq split: if_splits)
  qed
next
  case (call_Start stopCh)
  then show ?thesis using assms(3) by (simp add: factory_Start_def winds_down_def)
next
  case goroutine_runs
  then show ?thesis
  proof cases
    case (Run_begins g go)
    then show ?thesis using Run_begin_fresh [OF assms(2) Run_begins(2,3)]
      by (auto simp: winds_down_def will_run_def has_run_def set_informer_at inf_at_goroutines split: if_splits)
  next
    case (Run_stops g go)
    then show ?thesis
      by (auto simp: winds_down_def will_run_def has_run_def Run_stop_def Let_def set_informer_at inf_at_goroutines
          split: if_splits)
  next
    case (Run_ends g go)
    then show ?thesis by (auto simp: winds_down_def will_run_def has_run_def Run_end_def split: if_splits)
  qed (simp add: set_listener_winds_down)
next
  case (add_handler r n)
  then show ?thesis by (auto simp: sh_AddEventHandler_def intro: set_informer_winds_down)
next
  case notifies
  then show ?thesis by (auto elim!: notify_stepE simp: set_listener_winds_down)
next
  case (run_syncs g go)
  then show ?thesis by (auto simp: Run_synced_def Let_def intro: set_informer_winds_down)
qed (simp_all add: winds_down_def will_run_def has_run_def Shutdown_begin_def inf_at_def)

lemma steps_wind_down:
  "factory_steps w w' \<Longrightarrow> factory_inv w \<Longrightarrow> sf_shuttingDown (fw_factory w) \<Longrightarrow> winds_down w w'"
proof (induction rule: factory_steps.induct)
  case (steps_refl w)
  then show ?case by (simp add: winds_down_def)
next
  case (steps_step w w1 w2)
  have "factory_inv w1" "sf_shuttingDown (fw_factory w1)"
    using factory_steps_inv [OF steps_step.hyps(1)] factory_steps_keeps [OF steps_step.hyps(1)] steps_step.prems
    by (simp_all add: keeps_def)
  with steps_step show ?case by (blast intro: winds_down_trans step_winds_down)
qed

text \<open>
  What is left to do: a spawned goroutine begins, stops and ends; a listener hands out each waiting
  notification and has the handler return, and its two goroutines end.
\<close>

definition listener_left :: "processorListener \<Rightarrow> nat" where
  "listener_left l = 2 * li_pending l + of_bool (li_busy l) + of_bool (li_pop l) + of_bool (\<not> li_ended l)"

definition listeners_left :: "'i shared_informer \<Rightarrow> nat" where
  "listeners_left i = sum_list (map listener_left (sh_listeners i))"

definition phase_left :: "go_phase \<Rightarrow> nat" where
  "phase_left ph = (case ph of Spawned \<Rightarrow> 3 | Running \<Rightarrow> 2 | Draining \<Rightarrow> 1)"

definition go_left :: "('c, 'i) factory_world \<Rightarrow> nat \<Rightarrow> nat" where
  "go_left w g = (let go = the (fw_goroutines w g) in phase_left (go_phase go) + listeners_left (inf_at w (go_informer go)))"

definition steps_left :: "('c, 'i) factory_world \<Rightarrow> nat" where
  "steps_left w = (\<Sum>g\<in>dom (fw_goroutines w). go_left w g)"

definition all_stopped :: "('c, 'i) factory_world \<Rightarrow> bool" where
  "all_stopped w \<longleftrightarrow> (\<forall>g go. fw_goroutines w g = Some go \<longrightarrow> go_stopCh go \<in> fw_closed w)"

lemma listener_run_left: "listener_run closing l l' \<Longrightarrow> Suc (listener_left l') = listener_left l"
  by (auto elim!: listener_runE simp: listener_left_def)

lemma listeners_left_update:
  assumes "k < length (sh_listeners i)"
  shows "listeners_left (i\<lparr>sh_listeners := (sh_listeners i)[k := l]\<rparr>) + listener_left (sh_listeners i ! k)
    = listeners_left i + listener_left l"
  using assms member_le_sum_list [of "listener_left (sh_listeners i ! k)" "map listener_left (sh_listeners i)"]
  by (simp add: listeners_left_def map_update sum_list_update)

text \<open>A step of one goroutine, or of a listener of its informer, changes only its own share.\<close>

lemma steps_left_touched:
  assumes inv: "factory_inv w" and t: "touches g go w w'"
  shows "steps_left w' + go_left w g = steps_left w + (if fw_goroutines w' g = None then 0 else go_left w' g)"
proof -
  let ?D = "dom (fw_goroutines w)" and ?D' = "dom (fw_goroutines w')"
  have fin: "finite ?D" using factory_invD(2) [OF inv] by (simp add: group_ok_def)
  have g: "fw_goroutines w g = Some go" and gs: "\<And>h. h \<noteq> g \<Longrightarrow> fw_goroutines w' h = fw_goroutines w h"
    and inf: "\<And>r. r \<noteq> go_informer go \<Longrightarrow> inf_at w' r = inf_at w r"
    using t by (simp_all add: touches_def)
  have rest: "?D' - {g} = ?D - {g}" using gs by (auto simp: dom_def)
  have sub: "?D' \<subseteq> ?D" using rest g by auto
  have "go_left w' h = go_left w h" if h: "h \<in> ?D - {g}" for h
  proof -
    obtain x where x: "fw_goroutines w h = Some x" using h by auto
    have "go_informer x \<noteq> go_informer go"
      using factory_invD(3) [OF inv, unfolded goroutines_ok_def, rule_format, OF g] x h by auto
    then show ?thesis using x gs [of h] inf h by (simp add: go_left_def)
  qed
  then have same: "sum (go_left w') (?D - {g}) = sum (go_left w) (?D - {g})" by (rule sum.cong [OF refl])
  have "g \<in> ?D" using g by auto
  then have w: "steps_left w = go_left w g + sum (go_left w) (?D - {g})"
    unfolding steps_left_def by (rule sum.remove [OF fin])
  have w': "steps_left w' = (if fw_goroutines w' g = None then 0 else go_left w' g) + sum (go_left w') (?D' - {g})"
  proof (cases "g \<in> ?D'")
    case True
    with sum.remove [OF finite_subset [OF sub fin] True, of "go_left w'"] show ?thesis
      by (auto simp: steps_left_def domIff)
  qed (simp add: steps_left_def domIff)
  show ?thesis unfolding w w' rest same by simp
qed

lemma set_listener_left:
  assumes inv: "factory_inv w" and g: "fw_goroutines w g = Some go"
    and k: "k < length (sh_listeners (fw_informers w ! go_informer go))"
  shows "steps_left (set_listener (go_informer go) k l w) + listener_left (listener_of go w k) = steps_left w + listener_left l"
    and "all_stopped (set_listener (go_informer go) k l w) = all_stopped w"
proof -
  let ?w = "set_listener (go_informer go) k l w" and ?i = "inf_at w (go_informer go)"
  have len: "go_informer go < length (fw_informers w)" using goroutine_facts [OF inv g] by simp
  have at: "inf_at ?w (go_informer go) = ?i\<lparr>sh_listeners := (sh_listeners ?i)[k := l]\<rparr>"
    using len by (simp add: set_listener_def Let_def set_informer_at) (simp add: inf_at_def)
  have gs: "fw_goroutines ?w = fw_goroutines w" by (simp add: set_listener_def Let_def)
  have "touches g go w ?w"
    using g by (simp add: touches_def set_listener_def Let_def set_informer_at)
  from steps_left_touched [OF inv this] have "steps_left ?w + go_left w g = steps_left w + go_left ?w g"
    using g by (simp add: gs)
  moreover have "listeners_left (inf_at ?w (go_informer go)) + listener_left (listener_of go w k) = listeners_left ?i + listener_left l"
    unfolding at using listeners_left_update [of k ?i l] k by (simp add: listener_of_def inf_at_def)
  ultimately show "steps_left ?w + listener_left (listener_of go w k) = steps_left w + listener_left l"
    using g by (simp add: go_left_def gs)
  show "all_stopped ?w = all_stopped w" by (simp add: all_stopped_def set_listener_def Let_def)
qed

lemma Run_stop_touches:
  assumes "fw_goroutines w g = Some go"
  shows "touches g go w (Run_stop g go w)"
  using assms by (simp add: touches_def Run_stop_def set_informer_at Let_def) (simp add: inf_at_def requested_def started_types_def)

lemma Run_begin_touches:
  assumes "factory_inv w" "fw_goroutines w g = Some go" "go_phase go = Spawned"
  shows "touches g go w (Run_begin g go w)"
  unfolding Run_begin_fresh [OF assms]
  using assms(2) by (simp add: touches_def set_informer_at) (simp add: inf_at_def requested_def started_types_def)

lemma run_step_left:
  assumes "run_step w w'" "factory_inv w" "all_stopped w"
  shows "steps_left w' < steps_left w" "all_stopped w'"
proof -
  from assms(1) have "steps_left w' < steps_left w \<and> all_stopped w'"
  proof cases
    case (Run_begins g go)
    note len = goroutine_facts(1) [OF assms(2) Run_begins(2)] and eq = Run_begin_fresh [OF assms(2) Run_begins(2,3)]
    have "steps_left w' + go_left w g = steps_left w + go_left w' g"
      using steps_left_touched [OF assms(2) Run_begin_touches [OF assms(2) Run_begins(2,3)]] Run_begins(2)
      by (simp add: Run_begins(1) eq)
    moreover have "Suc (go_left w' g) = go_left w g"
      using Run_begins(2,3) len by (simp add: Run_begins(1) eq go_left_def phase_left_def set_informer_at listeners_left_def)
    ultimately show ?thesis using Run_begins(2) assms(3) by (auto simp: Run_begins(1) eq all_stopped_def)
  next
    case (Run_stops g go)
    note len = goroutine_facts(1) [OF assms(2) Run_stops(2)]
    have "steps_left w' + go_left w g = steps_left w + go_left w' g"
      using steps_left_touched [OF assms(2) Run_stop_touches [OF Run_stops(2)]] Run_stops(2)
      by (simp add: Run_stops(1) Run_stop_def Let_def)
    moreover have "Suc (go_left w' g) = go_left w g"
      using Run_stops(2,3) len
      by (simp add: Run_stops(1) Run_stop_def Let_def go_left_def phase_left_def set_informer_at listeners_left_def)
         (simp add: inf_at_def)
    ultimately show ?thesis
      using Run_stops(2,4) assms(3) by (auto simp: Run_stops(1) Run_stop_def Let_def all_stopped_def)
  next
    case (Run_ends g go)
    have "touches g go w w'" using Run_ends(2) by (simp add: Run_ends(1) touches_def Run_end_def) (simp add: go_done_def)
    from steps_left_touched [OF assms(2) this] have "steps_left w' + go_left w g = steps_left w"
      by (simp add: Run_ends(1) Run_end_def)
    moreover have "0 < go_left w g" using Run_ends(2) by (simp add: go_left_def phase_left_def Run_ends(3))
    ultimately show ?thesis using assms(3) by (auto simp: Run_ends(1) Run_end_def all_stopped_def)
  next
    case (listener_runs g go k l)
    from set_listener_left [OF assms(2) listener_runs(2,4), of l] listener_run_left [OF listener_runs(5)] assms(3)
    show ?thesis by (simp add: listener_runs(1))
  qed
  then show "steps_left w' < steps_left w" "all_stopped w'" by auto
qed

lemma notify_step_left:
  assumes "notify_step w w'" "factory_inv w"
  shows "steps_left w' = steps_left w + 2" "all_stopped w' = all_stopped w"
proof -
  from assms(1) have "steps_left w' = steps_left w + 2 \<and> all_stopped w' = all_stopped w"
  proof cases
    case (notified g go k l)
    note s = set_listener_left [OF assms(2) notified(2,4), of "l\<lparr>li_pending := Suc (li_pending l)\<rparr>"]
    have "listener_left (l\<lparr>li_pending := Suc (li_pending l)\<rparr>) = listener_left l + 2" by (simp add: listener_left_def)
    with s show ?thesis by (simp add: notified(1,5) [symmetric])
  qed
  then show "steps_left w' = steps_left w + 2" "all_stopped w' = all_stopped w" by auto
qed

text \<open>Every goroutine that is left can make a step, or a listener can that it waits for.\<close>

lemma listener_can_run: "\<not> li_ended l \<Longrightarrow> \<exists>l'. listener_run True l l'"
  by (cases "li_busy l"; cases "li_pop l") (auto intro: listener_run.intros)

lemma goroutine_can_run:
  assumes "all_stopped w" and g: "fw_goroutines w g = Some go" shows "\<exists>w'. run_step w w'"
proof (cases "go_phase go")
  case Spawned
  with g show ?thesis by (blast intro: Run_begins)
next
  case Running
  with g assms(1) show ?thesis by (auto simp: all_stopped_def intro: Run_stops)
next
  case Draining
  show ?thesis
  proof (cases "Run_waits go w")
    case True
    then obtain k where k: "k < length (sh_listeners (fw_informers w ! go_informer go))" "\<not> li_ended (listener_of go w k)"
      by (auto simp: Run_waits_def in_set_conv_nth listener_of_def)
    from listener_can_run [OF k(2)] obtain l where "listener_run (go_phase go = Draining) (listener_of go w k) l"
      using Draining by auto
    from listener_runs [OF g _ k(1) this] Draining show ?thesis by auto
  qed (use g Draining in \<open>blast intro: Run_ends\<close>)
qed

text \<open>A run of \<open>n\<close> such steps, in any order, while the controllers still hand out \<open>k\<close> notifications.\<close>

inductive winding :: "nat \<Rightarrow> nat \<Rightarrow> ('c, 'i) factory_world \<Rightarrow> ('c, 'i) factory_world \<Rightarrow> bool" where
  start: "winding 0 0 w w"
| step: "winding n k w w1 \<Longrightarrow> run_step w1 w2 \<Longrightarrow> winding (Suc n) k w w2"
| told: "winding n k w w1 \<Longrightarrow> notify_step w1 w2 \<Longrightarrow> winding n (Suc k) w w2"

lemma winding_left:
  "winding n k w w' \<Longrightarrow> factory_inv w \<Longrightarrow> all_stopped w
   \<Longrightarrow> n + steps_left w' \<le> steps_left w + 2 * k \<and> factory_inv w' \<and> all_stopped w'"
proof (induction rule: winding.induct)
  case (step n k w w1 w2)
  with run_step_left [OF step.hyps(2)] run_step_inv [OF step.hyps(2)] show ?case by force
next
  case (told n k w w1 w2)
  with notify_step_left [OF told.hyps(2)] notify_step_inv [OF told.hyps(2)] show ?case by force
qed simp

text \<open>How much is left, in terms of the goroutines, the listeners and their notifications.\<close>

definition waiting_bound :: "'i shared_informer \<Rightarrow> nat" where
  "waiting_bound i = (\<Sum>l\<leftarrow>sh_listeners i. 2 * li_pending l + 3)"

lemma listeners_left_bound: "listeners_left i \<le> waiting_bound i"
  unfolding listeners_left_def waiting_bound_def
  by (rule sum_list_mono) (simp add: listener_left_def of_bool_def)

lemma steps_left_bound:
  assumes inv: "factory_inv w"
  shows "steps_left w \<le> 3 * sf_wg (fw_factory w) + (\<Sum>i\<leftarrow>fw_informers w. waiting_bound i)"
proof -
  let ?D = "dom (fw_goroutines w)" and ?r = "\<lambda>g. go_informer (the (fw_goroutines w g))"
  let ?b = "\<lambda>r. waiting_bound (inf_at w r)"
  have fin: "finite ?D" using factory_invD(2) [OF inv] by (simp add: group_ok_def)
  have inj: "inj_on ?r ?D"
  proof (rule inj_onI)
    fix g h assume "g \<in> ?D" "h \<in> ?D" and eq: "?r g = ?r h"
    then obtain x y where "fw_goroutines w g = Some x" "fw_goroutines w h = Some y" by auto
    with factory_invD(3) [OF inv] eq show "g = h" unfolding goroutines_ok_def by (metis option.sel)
  qed
  have "steps_left w \<le> (\<Sum>g\<in>?D. 3 + ?b (?r g))"
    unfolding steps_left_def
  proof (rule sum_mono)
    fix g
    have "phase_left (go_phase (the (fw_goroutines w g))) \<le> 3" by (simp add: phase_left_def split: go_phase.split)
    with listeners_left_bound [of "inf_at w (?r g)"] show "go_left w g \<le> 3 + ?b (?r g)"
      by (simp add: go_left_def Let_def)
  qed
  also have "\<dots> = 3 * card ?D + (\<Sum>r\<in>?r ` ?D. ?b r)"
    by (simp add: sum.distrib sum.reindex [OF inj])
  also have "(\<Sum>r\<in>?r ` ?D. ?b r) \<le> (\<Sum>r<length (fw_informers w). ?b r)"
    by (rule sum_mono2) (use goroutine_facts(1) [OF inv] in auto)
  also have "(\<Sum>r<length (fw_informers w). ?b r) = (\<Sum>i\<leftarrow>fw_informers w. waiting_bound i)"
    by (simp add: sum_list_sum_nth inf_at_def atLeast0LessThan)
  finally show ?thesis using factory_invD(2) [OF inv] by (simp add: group_ok_def)
qed

text \<open>Where no goroutine is left no handler is being called.\<close>

lemma returned_idle:
  assumes inv: "factory_inv w" and "Shutdown_returns w" and i: "i \<in> set (fw_informers w)" and l: "l \<in> set (sh_listeners i)"
  shows "\<not> li_busy l"
proof -
  have none: "fw_goroutines w = Map.empty"
    using assms(2) factory_invD(2) [OF inv] by (auto simp: Shutdown_returns_def group_ok_def)
  obtain r where r: "r < length (fw_informers w)" "i = inf_at w r" using i by (auto simp: in_set_conv_nth inf_at_def)
  then have "r \<in> snd ` requested w" using factory_invD(1) [OF inv] by (simp add: table_ok_def)
  then obtain ty where "(ty, r) \<in> requested w" by auto
  then have "finished i \<or> untouched i" using factory_invD(4) [OF inv] r none by (auto simp: informers_ok_def split: if_splits)
  with l show ?thesis by (auto simp: finished_def untouched_def)
qed

section \<open>A concrete factory\<close>

text \<open>A factory with one informer (which is its resync period here), requested and started on channel 5.\<close>

definition demo_type :: go_type where
  "demo_type = \<lparr>ty_pkg = ''p'', ty_name = ''T''\<rparr>"

definition demo_new :: "(unit, int) factory_world" where
  "demo_new = new_world (NewSharedInformerFactoryWithOptions () 30 [WithCustomResyncConfig [(demo_type, 7)]])"

definition demo_requested :: "(unit, int) factory_world" where
  "demo_requested = snd (InformerFor demo_type (\<lambda>_ period. period) demo_new)"

definition demo_started :: "(unit, int) factory_world" where
  "demo_started = factory_Start 5 demo_requested"

lemma demo_new_steps: "factory_steps demo_new w \<Longrightarrow> factory_reachable w"
  unfolding factory_reachable_def demo_new_def
  by (intro exI [of _ "()"] exI [of _ 30] exI [of _ "[WithCustomResyncConfig [(demo_type, 7)]]"])
     (simp add: factory_options_def)

lemma demo_steps: "factory_steps demo_new demo_requested" "factory_steps demo_new demo_started"
proof -
  show r: "factory_steps demo_new demo_requested"
    unfolding demo_requested_def by (rule steps_step [OF steps_refl call_InformerFor])
  show "factory_steps demo_new demo_started"
    unfolding demo_started_def by (rule steps_step [OF r call_Start])
qed

lemmas demo_reachable = demo_steps [THEN demo_new_steps]

lemmas demo_defs = demo_started_def demo_requested_def demo_new_def new_world_def NewSharedInformerFactoryWithOptions_def
  WithCustomResyncConfig_def InformerFor_def new_informer_def factory_Start_def start_one_def Let_def

lemma demo_started_fields:
  "fw_goroutines demo_started = [0 \<mapsto> \<lparr>go_informer = 0, go_stopCh = 5, go_phase = Spawned\<rparr>]"
  "fw_informers demo_started = [\<lparr>sh_informer = 7, sh_started = False, sh_stopped = False, sh_synced = False,
     sh_listeners = []\<rparr>]"
  "sf_wg (fw_factory demo_started) = 1"
  by (simp_all add: demo_defs)

section \<open>Properties\<close>

text \<open>C32. In every reachable state an informer is run by at most one goroutine; a goroutine that is about
  to run its informer finds it never started, one that runs it finds it not stopped, and only one
  whose \<open>Run\<close> has nothing left but to wait for its listeners has it stopped, so \<open>Run\<close> is
  never refused and a stopped informer is never run again; the wait group counts the goroutines.\<close>

theorem informer_runs_once:
  assumes "factory_reachable w"
  shows "sf_wg (fw_factory w) = card (dom (fw_goroutines w)) \<and>
    (\<forall>g go. fw_goroutines w g = Some go \<longrightarrow>
       (\<forall>h go'. fw_goroutines w h = Some go' \<longrightarrow> go_informer go' = go_informer go \<longrightarrow> h = g)
       \<and> (go_phase go = Spawned \<longrightarrow> \<not> sh_started (fw_informers w ! go_informer go))
       \<and> (sh_stopped (fw_informers w ! go_informer go) \<longleftrightarrow> go_phase go = Draining))"
proof (intro conjI allI impI)
  note inv = factory_reachable_inv [OF assms]
  show "sf_wg (fw_factory w) = card (dom (fw_goroutines w))" using factory_invD(2) [OF inv] by (simp add: group_ok_def)
  fix g go assume g: "fw_goroutines w g = Some go"
  note * = factory_invD(3) [OF inv, unfolded goroutines_ok_def, rule_format, OF g]
  show "h = g" if "fw_goroutines w h = Some go'" "go_informer go' = go_informer go" for h go' using * that by blast
  show "\<not> sh_started (fw_informers w ! go_informer go)" if "go_phase go = Spawned"
    using * that by (simp add: untouched_def inf_at_def)
  show "sh_stopped (fw_informers w ! go_informer go) \<longleftrightarrow> go_phase go = Draining"
    using * by (cases "go_phase go") (simp_all add: untouched_def inf_at_def)
qed

theorem informer_runs_once_witness:
  "\<exists>go. fw_goroutines demo_started 0 = Some go \<and> go_phase go = Spawned
     \<and> \<not> sh_started (fw_informers demo_started ! go_informer go)"
proof -
  let ?go = "\<lparr>go_informer = 0, go_stopCh = 5, go_phase = Spawned\<rparr>"
  have g: "fw_goroutines demo_started 0 = Some ?go" by (simp add: demo_started_fields)
  have "\<not> sh_started (fw_informers demo_started ! go_informer ?go)"
    using informer_runs_once [OF demo_reachable(2), THEN conjunct2, THEN spec [of _ 0], THEN spec [of _ ?go], THEN mp,
        OF g, THEN conjunct2, THEN conjunct1] by simp
  with g show ?thesis by (intro exI [of _ ?go]) simp
qed

text \<open>A type that was requested keeps its informer.\<close>

lemma informer_for_again:
  assumes "factory_reachable w" "InformerFor ty newFunc w = (r, w1)" "factory_steps w1 w2"
  shows "InformerFor ty newFunc' w2 = (r, w2) \<and>
    sh_informer (fw_informers w2 ! r) =
      (case map_of (sf_informers (fw_factory w)) ty of
         Some r \<Rightarrow> sh_informer (fw_informers w ! r)
       | None \<Rightarrow> newFunc (sf_client (fw_factory w)) (resync_period ty (fw_factory w)))"
proof -
  note inv = factory_reachable_inv [OF assms(1)]
  have tab: "table_ok w" by (rule factory_invD(1) [OF inv])
  have w1: "w1 = snd (InformerFor ty newFunc w)" and r: "r = fst (InformerFor ty newFunc w)" by (simp_all add: assms(2))
  have inv1: "factory_inv w1" unfolding w1 by (rule InformerFor_inv [OF inv])
  have req: "(ty, r) \<in> requested w1"
  proof (cases "ty \<in> fst ` requested w")
    case True
    then obtain r' where "(ty, r') \<in> requested w" by auto
    with InformerFor_known [OF tab this, of newFunc] show ?thesis by (simp add: w1 r)
  next
    case False
    then show ?thesis by (simp add: w1 r InformerFor_new [OF False] requested_def)
  qed
  have keep: "keeps w1 w2" by (rule factory_steps_keeps [OF assms(3) inv1])
  then have "(ty, r) \<in> requested w2" using req by (auto simp: keeps_def)
  with InformerFor_known factory_invD(1) [OF factory_steps_inv [OF assms(3) inv1]]
  have "InformerFor ty newFunc' w2 = (r, w2)" by blast
  moreover have "sh_informer (fw_informers w2 ! r) = sh_informer (fw_informers w1 ! r)"
    using keep requested_range [OF factory_invD(1) [OF inv1] req] by (simp add: keeps_def inf_at_def)
  moreover have "sh_informer (fw_informers w1 ! r) = (case map_of (sf_informers (fw_factory w)) ty of
         Some r \<Rightarrow> sh_informer (fw_informers w ! r)
       | None \<Rightarrow> newFunc (sf_client (fw_factory w)) (resync_period ty (fw_factory w)))"
  proof (cases "map_of (sf_informers (fw_factory w)) ty")
    case None
    then have new: "ty \<notin> fst ` requested w" by (simp add: requested_def map_of_eq_None_iff)
    show ?thesis by (simp add: None w1 r InformerFor_new [OF new] new_informer_def)
  next
    case (Some r')
    then have "(ty, r') \<in> requested w" by (simp add: requested_def map_of_SomeD)
    from InformerFor_known [OF tab this, of newFunc] show ?thesis by (simp add: Some w1 r)
  qed
  ultimately show ?thesis by simp
qed

text \<open>C31. There is one informer per type: whatever happens after a request, another request for the type,
  with any constructor, returns the same informer, made from the factory's client and the type's
  resync period (the custom one, or the default), and makes no other.\<close>

theorem informer_shared:
  assumes "factory_reachable w" "InformerFor ty newFunc w = (r, w1)" "factory_steps w1 w2"
  shows "InformerFor ty newFunc' w2 = (r, w2) \<and>
    sh_informer (fw_informers w2 ! r) =
      (case map_of (sf_informers (fw_factory w)) ty of
         Some r \<Rightarrow> sh_informer (fw_informers w ! r)
       | None \<Rightarrow> newFunc (sf_client (fw_factory w)) (resync_period ty (fw_factory w)))"
  by (rule informer_for_again [OF assms])

theorem informer_shared_witness:
  "InformerFor demo_type (\<lambda>_ _. 99) demo_started = (0, demo_started) \<and> sh_informer (fw_informers demo_started ! 0) = 7"
proof -
  have "InformerFor demo_type (\<lambda>_ period. period) demo_new = (0, demo_requested)"
    by (simp add: demo_requested_def prod_eq_iff) (simp add: demo_defs)
  moreover have "factory_steps demo_requested demo_started"
    unfolding demo_started_def by (rule steps_step [OF steps_refl call_Start])
  ultimately show ?thesis
    using informer_shared [OF demo_new_steps [OF steps_refl], of demo_type "\<lambda>_ period. period" 0 demo_requested demo_started "\<lambda>_ _. 99"]
    by (simp add: demo_new_def new_world_def NewSharedInformerFactoryWithOptions_def WithCustomResyncConfig_def
        resync_period_def)
qed

text \<open>A shutdown is final: once it has begun, no later step starts a goroutine, and once it has returned
  there is none, it returns again at once, and no informer, requested before or after, starts.\<close>

theorem shutdown_final:
  assumes "factory_reachable w" "sf_shuttingDown (fw_factory w)" "factory_steps w w'"
  shows "dom (fw_goroutines w') \<subseteq> dom (fw_goroutines w) \<and>
    (Shutdown_returns w \<longrightarrow> fw_goroutines w' = Map.empty \<and> Shutdown_returns w' \<and>
       (\<forall>r < length (fw_informers w'). sh_started (fw_informers w' ! r) \<longrightarrow>
          r < length (fw_informers w) \<and> sh_started (fw_informers w ! r)))"
proof -
  note inv = factory_reachable_inv [OF assms(1)]
  have inv': "factory_inv w'" by (rule factory_steps_inv [OF assms(3) inv])
  have down: "winds_down w w'" by (rule steps_wind_down [OF assms(3) inv assms(2)])
  have empty: "fw_goroutines w = Map.empty" if "Shutdown_returns w"
    using that factory_invD(2) [OF inv] by (auto simp: Shutdown_returns_def group_ok_def)
  have "fw_goroutines w' = Map.empty" if "Shutdown_returns w"
    using down empty [OF that] by (simp add: winds_down_def)
  moreover from this have "Shutdown_returns w'" if "Shutdown_returns w"
    using that factory_invD(2) [OF inv'] by (simp add: Shutdown_returns_def group_ok_def)
  moreover have "\<forall>r < length (fw_informers w'). sh_started (fw_informers w' ! r) \<longrightarrow>
          r < length (fw_informers w) \<and> sh_started (fw_informers w ! r)" if "Shutdown_returns w"
    using down empty [OF that] by (simp add: winds_down_def has_run_def will_run_def inf_at_def)
  ultimately show ?thesis using down by (simp add: winds_down_def)
qed

theorem shutdown_final_witness:
  "fw_goroutines (factory_Start 5 (snd (InformerFor demo_type (\<lambda>_ period. period) (Shutdown_begin demo_new)))) = Map.empty"
proof -
  let ?w = "Shutdown_begin demo_new"
  let ?w' = "factory_Start 5 (snd (InformerFor demo_type (\<lambda>_ period. period) ?w))"
  have "factory_reachable ?w" by (rule demo_new_steps [OF steps_step [OF steps_refl call_Shutdown]])
  moreover have "sf_shuttingDown (fw_factory ?w)" "Shutdown_returns ?w"
    by (simp_all add: Shutdown_begin_def Shutdown_returns_def demo_new_def new_world_def
        NewSharedInformerFactoryWithOptions_def WithCustomResyncConfig_def)
  moreover have "factory_steps ?w ?w'"
    by (rule steps_step [OF steps_step [OF steps_refl call_InformerFor] call_Start])
  ultimately show ?thesis using shutdown_final [of ?w ?w'] by blast
qed

text \<open>C33. \<open>Shutdown\<close> waits for the handlers and returns when they do. Once the stop channels of all goroutines
  are closed, let the goroutines of the factory and of the listeners make \<open>n\<close> steps in any order (a
  handler that is called and one that returns among them), while the controllers, until they see their
  channel closed, still hand out \<open>k\<close> notifications. Then \<open>n\<close> is bounded: three steps for each goroutine,
  three for each listener, two for each notification that waits or is handed out. Where no such step
  is left the wait is over; and where it is over no handler is being called, so that a handler that
  does not return keeps \<open>Shutdown\<close> from returning.\<close>

theorem shutdown_returns:
  assumes "factory_reachable w" "\<forall>g go. fw_goroutines w g = Some go \<longrightarrow> go_stopCh go \<in> fw_closed w"
    "winding n k w w'"
  shows "n \<le> 3 * sf_wg (fw_factory w) + (\<Sum>i\<leftarrow>fw_informers w. \<Sum>l\<leftarrow>sh_listeners i. 2 * li_pending l + 3) + 2 * k
    \<and> ((\<nexists>w''. run_step w' w'') \<longrightarrow> Shutdown_returns w')
    \<and> (Shutdown_returns w' \<longrightarrow> (\<forall>i\<in>set (fw_informers w'). \<forall>l\<in>set (sh_listeners i). \<not> li_busy l))"
proof -
  note inv = factory_reachable_inv [OF assms(1)]
  have "all_stopped w" using assms(2) by (simp add: all_stopped_def)
  from winding_left [OF assms(3) inv this]
  have left: "n + steps_left w' \<le> steps_left w + 2 * k" "factory_inv w'" "all_stopped w'" by auto
  have "n \<le> 3 * sf_wg (fw_factory w) + (\<Sum>i\<leftarrow>fw_informers w. waiting_bound i) + 2 * k"
    using left(1) steps_left_bound [OF inv] by simp
  moreover have "Shutdown_returns w'" if "\<nexists>w''. run_step w' w''"
  proof -
    have "fw_goroutines w' = Map.empty" using goroutine_can_run [OF left(3)] that by (auto simp: fun_eq_iff) (metis not_None_eq)
    then show ?thesis using factory_invD(2) [OF left(2)] by (simp add: Shutdown_returns_def group_ok_def)
  qed
  ultimately show ?thesis using returned_idle [OF left(2)] by (simp add: waiting_bound_def)
qed

text \<open>The informer with a handler whose call is in progress when the stop channel is closed.\<close>

definition demo_busy :: "(unit, int) factory_world" where
  "demo_busy = (set_informer 0 \<lparr>sh_informer = 7, sh_started = True, sh_stopped = False, sh_synced = False,
       sh_listeners = [\<lparr>li_pending = 0, li_pop = True, li_busy = True, li_ended = False\<rparr>]\<rparr> demo_started)
     \<lparr>fw_goroutines := [0 \<mapsto> \<lparr>go_informer = 0, go_stopCh = 5, go_phase = Running\<rparr>], fw_closed := {5}\<rparr>"

lemma demo_busy_fields:
  "fw_goroutines demo_busy = [0 \<mapsto> \<lparr>go_informer = 0, go_stopCh = 5, go_phase = Running\<rparr>]"
  "fw_informers demo_busy = [\<lparr>sh_informer = 7, sh_started = True, sh_stopped = False, sh_synced = False,
       sh_listeners = [\<lparr>li_pending = 0, li_pop = True, li_busy = True, li_ended = False\<rparr>]\<rparr>]"
  "fw_closed demo_busy = {5}" "sf_wg (fw_factory demo_busy) = 1"
  by (simp_all add: demo_busy_def set_informer_def demo_started_fields)

lemma demo_busy_reachable: "factory_reachable demo_busy"
proof -
  let ?go = "\<lparr>go_informer = 0, go_stopCh = 5, go_phase = Spawned\<rparr>"
  define w1 where "w1 = Run_begin 0 ?go demo_started"
  define w2 where "w2 = set_informer 0 (sh_AddEventHandler 1 (fw_informers w1 ! 0)) w1"
  define w3 where "w3 = set_listener 0 0 \<lparr>li_pending = 0, li_pop = True, li_busy = True, li_ended = False\<rparr> w2"
  note ev = Run_begin_def Let_def set_informer_def set_listener_def demo_started_fields sh_AddEventHandler_def
    newProcessListener_def listener_of_def
  have "factory_step demo_started w1"
    unfolding w1_def by (rule goroutine_runs [OF Run_begins]) (simp_all add: demo_started_fields)
  moreover have "factory_step w1 w2" unfolding w2_def by (rule add_handler) (simp add: w1_def ev)
  moreover have "factory_step w2 w3"
  proof -
    have g: "fw_goroutines w2 0 = Some (?go\<lparr>go_phase := Running\<rparr>)" by (simp add: w2_def w1_def ev)
    have "listener_run False (newProcessListener 1) ((newProcessListener 1)\<lparr>li_pending := 0, li_busy := True\<rparr>)"
      by (rule handler_called) (simp_all add: newProcessListener_def)
    then have "run_step w2 (set_listener 0 0 ((newProcessListener 1)\<lparr>li_pending := 0, li_busy := True\<rparr>) w2)"
      using listener_runs [OF g, of 0] by (simp add: w2_def w1_def ev)
    then show ?thesis unfolding w3_def by (simp add: newProcessListener_def goroutine_runs)
  qed
  moreover have "factory_step w3 demo_busy"
  proof -
    have "demo_busy = w3\<lparr>fw_closed := insert 5 (fw_closed w3)\<rparr>"
      by (simp add: demo_busy_def w3_def w2_def w1_def ev) (simp add: demo_defs)
    then show ?thesis using close_stopCh [of w3 5] by simp
  qed
  ultimately show ?thesis
    using demo_steps(2) by (blast intro: demo_new_steps steps_step)
qed

text \<open>While the handler is being called \<open>Shutdown\<close> waits, however far the rest has come.\<close>

theorem shutdown_returns_witness:
  "\<exists>w. winding 2 0 demo_busy w \<and> \<not> Shutdown_returns w \<and> (\<exists>w'. run_step w w')"
proof -
  let ?go = "\<lparr>go_informer = 0, go_stopCh = 5, go_phase = Running\<rparr>"
  define w1 where "w1 = Run_stop 0 ?go demo_busy"
  define w2 where "w2 = set_listener 0 0 \<lparr>li_pending = 0, li_pop = False, li_busy = True, li_ended = False\<rparr> w1"
  note ev = Run_stop_def Let_def set_informer_def set_listener_def demo_busy_fields listener_of_def
  have s1: "run_step demo_busy w1" unfolding w1_def by (rule Run_stops) (simp_all add: demo_busy_fields)
  have "run_step w1 w2"
  proof -
    have g: "fw_goroutines w1 0 = Some (?go\<lparr>go_phase := Draining\<rparr>)" by (simp add: w1_def ev)
    have "listener_run True (listener_of (?go\<lparr>go_phase := Draining\<rparr>) w1 0)
        ((listener_of (?go\<lparr>go_phase := Draining\<rparr>) w1 0)\<lparr>li_pop := False\<rparr>)"
      by (rule pop_ends) (simp_all add: w1_def ev)
    then show ?thesis using listener_runs [OF g, of 0] unfolding w2_def by (simp add: w1_def ev)
  qed
  with winding.step [OF winding.start s1] have w: "winding (Suc (Suc 0)) 0 demo_busy w2" by (rule winding.step)
  have busy: "fw_informers w2 = [\<lparr>sh_informer = 7, sh_started = True, sh_stopped = True, sh_synced = False,
      sh_listeners = [\<lparr>li_pending = 0, li_pop = False, li_busy = True, li_ended = False\<rparr>]\<rparr>]"
    by (simp add: w2_def w1_def ev)
  have "\<forall>g go. fw_goroutines demo_busy g = Some go \<longrightarrow> go_stopCh go \<in> fw_closed demo_busy"
    by (simp add: demo_busy_fields)
  from shutdown_returns [OF demo_busy_reachable this w] have "\<not> Shutdown_returns w2" and "\<exists>w'. run_step w2 w'"
    by (auto simp: busy)
  with w show ?thesis by (intro exI [of _ w2]) (simp add: numeral_2_eq_2)
qed

text \<open>\<open>WaitForCacheSync\<close> after a \<open>Start\<close> waits for every informer requested before, once each, and for
  none requested after, whatever its type was configured with.\<close>

theorem cache_sync_covers_started:
  assumes "factory_reachable w" "\<not> sf_shuttingDown (fw_factory w)"
  shows "map fst (WaitForCacheSync wait (factory_Start ch w)) = map fst (sf_informers (fw_factory w))
    \<and> distinct (map fst (sf_informers (fw_factory w)))
    \<and> (ty \<notin> set (map fst (sf_informers (fw_factory w))) \<longrightarrow>
        ty \<notin> set (map fst (WaitForCacheSync wait (snd (InformerFor ty newFunc (factory_Start ch w))))))"
proof -
  note inv = factory_reachable_inv [OF assms(1)]
  let ?w = "factory_Start ch w"
  have st: "started_types ?w = fst ` requested w" and req: "requested ?w = requested w"
    using Start_inv [OF inv] assms(2) by simp_all
  have tbl: "sf_informers (fw_factory ?w) = sf_informers (fw_factory w)"
  proof -
    have "sf_informers (fw_factory (fold (start_one ch) es v)) = sf_informers (fw_factory v)" for es and v :: "('a, 'b) factory_world"
      by (induction es arbitrary: v) simp_all
    then show ?thesis by (simp add: factory_Start_def)
  qed
  have "filter (\<lambda>(t, i). t \<in> started_types ?w) (sf_informers (fw_factory ?w)) = sf_informers (fw_factory w)"
    unfolding tbl st by (auto simp: requested_def filter_id_conv intro: rev_image_eqI)
  then have "map fst (WaitForCacheSync wait ?w) = map fst (sf_informers (fw_factory w))"
    by (simp add: WaitForCacheSync_def started_types_def comp_def case_prod_unfold)
  moreover have "ty \<notin> set (map fst (WaitForCacheSync wait (snd (InformerFor ty newFunc ?w))))"
    if "ty \<notin> set (map fst (sf_informers (fw_factory w)))"
  proof -
    have new: "ty \<notin> fst ` requested ?w" using that unfolding req by (simp add: requested_def)
    have "set (sf_startedInformers (fw_factory (snd (InformerFor ty newFunc ?w)))) = started_types ?w"
      by (simp add: InformerFor_new [OF new] started_types_def)
    then show ?thesis using new by (auto simp: WaitForCacheSync_def st req intro: rev_image_eqI)
  qed
  moreover have "distinct (map fst (sf_informers (fw_factory w)))"
    using factory_invD(1) [OF inv] by (simp add: table_ok_def)
  ultimately show ?thesis by simp
qed

theorem cache_sync_covers_started_witness:
  "map fst (WaitForCacheSync (\<lambda>_. True) (factory_Start 5 demo_requested)) = [demo_type]"
  using cache_sync_covers_started [OF demo_reachable(1), of "\<lambda>_. True" 5] by (simp add: demo_defs)

end
