(* ===== verification/GoStrings.thy ===== *)
theory GoStrings imports MTPrelude begin

text \<open>
  The parts of Go's \<open>strings\<close>, \<open>strconv\<close>, \<open>path\<close> and \<open>time\<close> packages the clients use on strings:
  \<open>ToLower\<close> and \<open>HasSuffix\<close>, decimal numbers, \<open>path.Clean\<close> and \<open>path.Join\<close>, and
  \<open>Duration.String\<close>. Strings are their bytes.

  An absolute path is read as the list of its segments (\<open>abs_path\<close>); on lists of proper segments
  (\<open>segments\<close>), joining is appending and the path determines the list.
\<close>

section \<open>Letters and numbers\<close>

fun Itoa :: "nat \<Rightarrow> string" where
  "Itoa n = (if n < 10 then [char_of (48 + n)] else Itoa (n div 10) @ [char_of (48 + n mod 10)])"

declare Itoa.simps [simp del]

definition FormatInt :: "int \<Rightarrow> string" where
  "FormatInt i = (if i < 0 then CHR ''-'' # Itoa (nat (- i)) else Itoa (nat i))"

text \<open>\<open>strconv.ParseInt(s, 10, 64)\<close>: an optional sign and at least one digit, within 64 bits.\<close>

definition decimal_digit :: "char \<Rightarrow> bool" where
  "decimal_digit c = (48 \<le> (of_char c :: nat) \<and> (of_char c :: nat) \<le> 57)"

definition ParseInt :: "string \<Rightarrow> go_error + int" where
  "ParseInt s =
     (let neg = (s \<noteq> [] \<and> hd s = CHR ''-'');
          digits = (if s \<noteq> [] \<and> hd s \<in> {CHR ''+'', CHR ''-''} then tl s else s);
          v = foldl (\<lambda>n c. 10 * n + (of_char c - 48)) (0 :: int) digits;
          n = (if neg then - v else v)
      in if digits = [] \<or> \<not> list_all decimal_digit digits
         then Inl (Errorf ''strconv.ParseInt: parsing %q: invalid syntax'' [s])
         else if n < - (2 ^ 63) \<or> 2 ^ 63 \<le> n
         then Inl (Errorf ''strconv.ParseInt: parsing %q: value out of range'' [s])
         else Inr n)"

definition FormatBool :: "bool \<Rightarrow> string" where
  "FormatBool b = (if b then ''true'' else ''false'')"

definition ascii_lower :: "char \<Rightarrow> char" where
  "ascii_lower c = (if 65 \<le> (of_char c :: nat) \<and> (of_char c :: nat) \<le> 90 then char_of ((of_char c :: nat) + 32) else c)"

text \<open>\<open>strings.ToLower\<close> of an ASCII string: the names of kinds, resources and verbs.\<close>

definition ToLower :: "string \<Rightarrow> string" where
  "ToLower s = map ascii_lower s"

definition HasSuffix :: "string \<Rightarrow> string \<Rightarrow> bool" where
  "HasSuffix s suffix \<longleftrightarrow> length suffix \<le> length s \<and> drop (length s - length suffix) s = suffix"

text \<open>\<open>strings.TrimSpace\<close>, for ASCII spaces.\<close>

definition TrimSpace :: "string \<Rightarrow> string" where
  "TrimSpace s = (let space = (\<lambda>c. of_char c \<in> {9, 10, 11, 12, 13, 32 :: nat})
     in rev (dropWhile space (rev (dropWhile space s))))"

section \<open>Durations\<close>

text \<open>A \<open>time.Duration\<close> counts nanoseconds in 64 bits.\<close>

type_synonym duration = "64 word"

definition Second :: duration where
  "Second = 1000000000"

text \<open>\<open>fmtFrac\<close>: the fraction \<open>v / 10^prec\<close> after the point, without trailing zeros.\<close>

fun padded :: "nat \<Rightarrow> int \<Rightarrow> string" where
  "padded 0 v = []"
| "padded (Suc prec) v = padded prec (v div 10) @ [char_of (48 + nat (v mod 10))]"

definition fmtFrac :: "int \<Rightarrow> nat \<Rightarrow> string" where
  "fmtFrac v prec =
     (case rev (dropWhile (\<lambda>c. c = CHR ''0'') (rev (padded prec v))) of [] \<Rightarrow> [] | ds \<Rightarrow> CHR ''.'' # ds)"

definition Duration_String :: "duration \<Rightarrow> string" where
  "Duration_String d =
     (let neg = (sint d < 0); u = uint (if neg then - d else d);
          r = (if u = 0 then ''0s''
               else if u < 10 ^ 3 then FormatInt u @ ''ns''
               else if u < 10 ^ 6 then FormatInt (u div 10 ^ 3) @ fmtFrac u 3 @ [CHR 0xC2, CHR 0xB5, CHR ''s'']
               else if u < 10 ^ 9 then FormatInt (u div 10 ^ 6) @ fmtFrac u 6 @ ''ms''
               else
                 let secs = u div 10 ^ 9; mins = secs div 60; hours = mins div 60
                 in (if hours > 0 then FormatInt hours @ ''h'' else [])
                    @ (if mins > 0 then FormatInt (mins mod 60) @ ''m'' else [])
                    @ FormatInt (secs mod 60) @ fmtFrac u 9 @ ''s'')
      in if neg then CHR ''-'' # r else r)"

section \<open>Paths\<close>

text \<open>The segments of a cleaned path; \<open>out\<close> holds those kept so far, the last first.\<close>

fun clean_segments :: "bool \<Rightarrow> string list \<Rightarrow> string list \<Rightarrow> string list" where
  "clean_segments rooted out [] = rev out"
| "clean_segments rooted out (s # ss) =
     (if s = [] \<or> s = ''.'' then clean_segments rooted out ss
      else if s = ''..'' then
        (case out of
           [] \<Rightarrow> clean_segments rooted (if rooted then [] else [s]) ss
         | o1 # os \<Rightarrow> if o1 = ''..'' then clean_segments rooted (s # out) ss else clean_segments rooted os ss)
      else clean_segments rooted (s # out) ss)"

definition path_Clean :: "string \<Rightarrow> string" where
  "path_Clean p =
     (if p = [] then ''.''
      else
        let rooted = (hd p = CHR ''/'');
            r = (if rooted then ''/'' else []) @ Join (clean_segments rooted [] (Split1 p CHR ''/'')) ''/''
        in if r = [] then ''.'' else r)"

definition path_Join :: "string list \<Rightarrow> string" where
  "path_Join elem =
     (case filter (\<lambda>e. e \<noteq> []) elem of [] \<Rightarrow> [] | es \<Rightarrow> path_Clean (Join es ''/''))"

subsection \<open>Absolute paths as lists of segments\<close>

definition segment :: "string \<Rightarrow> bool" where
  "segment s \<longleftrightarrow> s \<noteq> [] \<and> s \<noteq> ''.'' \<and> s \<noteq> ''..'' \<and> CHR ''/'' \<notin> set s"

abbreviation segments :: "string list \<Rightarrow> bool" where
  "segments ss \<equiv> list_all segment ss"

definition abs_path :: "string list \<Rightarrow> string" where
  "abs_path ss = CHR ''/'' # Join ss ''/''"

lemma Split1_Join:
  assumes "ss \<noteq> []" "list_all (\<lambda>s. c \<notin> set s) ss"
  shows "Split1 (Join ss [c]) c = ss"
  using assms
proof (induction ss "[c]" rule: Join.induct)
  case 1
  then show ?case by simp
next
  case (2 x)
  then show ?case by (simp add: Split1_no_sep)
next
  case (3 x y xs)
  then show ?case using Split1_append [of c x "Join (y # xs) [c]"] by simp
qed

lemma Split1_no_slash: "list_all (\<lambda>s. c \<notin> set s) (Split1 p c)"
proof (induction p c rule: Split1.induct)
  case (1 c)
  show ?case by simp
next
  case (2 x xs c)
  then show ?case by (cases "Split1 xs c") auto
qed

lemma segments_no_slash: "segments ss \<Longrightarrow> list_all (\<lambda>s. CHR ''/'' \<notin> set s) ss"
  by (induction ss) (simp_all add: segment_def)

lemma Split1_abs_path:
  assumes "segments ss"
  shows "Split1 (abs_path ss) CHR ''/'' = (if ss = [] then [[], []] else [] # ss)"
  using Split1_Join [of ss "CHR ''/''"] segments_no_slash [OF assms] by (simp add: abs_path_def)

lemma abs_path_inject:
  assumes "segments xs" "segments ys"
  shows "abs_path xs = abs_path ys \<longleftrightarrow> xs = ys"
proof
  assume "abs_path xs = abs_path ys"
  then have "Split1 (abs_path xs) CHR ''/'' = Split1 (abs_path ys) CHR ''/''" by simp
  then show "xs = ys"
    using assms by (auto simp: Split1_abs_path segment_def split: if_splits)
qed simp

lemma clean_segments_id: "segments ss \<Longrightarrow> clean_segments rooted out ss = rev out @ ss"
  by (induction ss arbitrary: out) (simp_all add: segment_def)

lemma clean_segments_append: "clean_segments rooted out (xs @ ss) = clean_segments rooted (rev (clean_segments rooted out xs)) ss"
  by (induction xs arbitrary: out) (auto split: list.splits)

lemma clean_segments_rooted:
  assumes "list_all (\<lambda>s. CHR ''/'' \<notin> set s) ss" "segments out"
  shows "segments (clean_segments True out ss)"
  using assms
proof (induction ss arbitrary: out)
  case Nil
  then show ?case by simp
next
  case (Cons s ss)
  show ?case
  proof (cases "s = [] \<or> s = ''.'' \<or> s = ''..''")
    case True
    with Cons show ?thesis by (cases out) (auto simp: segment_def)
  next
    case False
    then have "segment s" using Cons.prems(1) by (simp add: segment_def)
    with Cons False show ?thesis by simp
  qed
qed

text \<open>A rooted path cleans to an absolute path of proper segments.\<close>

lemma path_Clean_rooted:
  obtains ss where "path_Clean (CHR ''/'' # p) = abs_path ss" "segments ss"
proof -
  let ?ss = "clean_segments True [] (Split1 (CHR ''/'' # p) CHR ''/'')"
  have "segments ?ss" by (rule clean_segments_rooted [OF Split1_no_slash]) simp
  moreover have "path_Clean (CHR ''/'' # p) = abs_path ?ss"
    by (simp add: path_Clean_def abs_path_def)
  ultimately show ?thesis using that by blast
qed

lemma path_Join_rooted:
  obtains ss where "path_Join (''/'' # elem) = abs_path ss" "segments ss"
proof -
  obtain p where p: "Join (''/'' # filter (\<lambda>e. e \<noteq> []) elem) ''/'' = CHR ''/'' # p"
    by (cases "filter (\<lambda>e. e \<noteq> []) elem") simp_all
  obtain ss where "path_Clean (CHR ''/'' # p) = abs_path ss" "segments ss" by (rule path_Clean_rooted)
  with that p show ?thesis by (simp add: path_Join_def)
qed

lemma Join_append:
  "Join (xs @ ys) sep = (if xs = [] then Join ys sep else if ys = [] then Join xs sep else Join xs sep @ sep @ Join ys sep)"
proof (induction xs sep rule: Join.induct)
  case (2 x sep)
  then show ?case by (cases ys) simp_all
qed simp_all

lemma Join_Join:
  "list_all (\<lambda>ts. ts \<noteq> []) tss \<Longrightarrow> Join (map (\<lambda>ts. Join ts sep) tss) sep = Join (concat tss) sep"
proof (induction tss)
  case Nil
  then show ?case by simp
next
  case (Cons ts tss)
  show ?case
  proof (cases tss)
    case Nil
    then show ?thesis by simp
  next
    case (Cons us tss')
    then have "concat tss \<noteq> []" using Cons.prems by simp
    with Cons.prems Cons.IH show ?thesis by (simp add: Join_append Cons)
  qed
qed

lemma Join_not_Nil: "segments ss \<Longrightarrow> Join ss ''/'' = [] \<longleftrightarrow> ss = []"
  by (cases ss; cases "tl ss") (auto simp: segment_def)

text \<open>Joining an absolute path with relative ones appends their segments; empty ones do not count.\<close>

lemma path_Join_abs:
  assumes "segments ss" "list_all segments tss"
  shows "path_Join (abs_path ss # map (\<lambda>ts. Join ts ''/'') tss) = abs_path (ss @ concat tss)"
proof -
  let ?c = "CHR ''/''" and ?tss = "filter (\<lambda>ts. ts \<noteq> []) tss"
  let ?ts = "concat ?tss"
  let ?segs = "(if ss = [] \<and> ?tss = [] then [[], []] else [] # ss) @ ?ts"
  have conc: "?ts = concat tss" by (induction tss) auto
  have good: "segments (ss @ ?ts)" using assms unfolding conc by (auto simp: list_all_iff)
  have elems: "filter (\<lambda>e. e \<noteq> []) (map (\<lambda>ts. Join ts ''/'') tss) = map (\<lambda>ts. Join ts ''/'') ?tss"
    using assms(2) by (induction tss) (auto simp: Join_not_Nil)
  have 1: "Join (abs_path ss # map (\<lambda>ts. Join ts ''/'') ?tss) ''/'' = abs_path ss @ (if ?tss = [] then [] else ''/'' @ Join ?ts ''/'')"
  proof -
    have "list_all (\<lambda>ts. ts \<noteq> []) ?tss" by (simp add: list_all_iff)
    from Join_Join [OF this, of "''/''"] show ?thesis by (cases ?tss) simp_all
  qed
  have 2: "?ts \<noteq> []" if "?tss \<noteq> []" using that by (auto simp: filter_empty_conv)
  have join: "Join (abs_path ss # map (\<lambda>ts. Join ts ''/'') ?tss) ''/'' =
      (if ss = [] \<and> ?tss \<noteq> [] then ''/'' @ abs_path ?ts else abs_path (ss @ ?ts))"
  proof (cases "?tss = []")
    case True
    then have "?ts = []" by simp
    with True 1 show ?thesis by simp
  next
    case False
    with 1 2 show ?thesis by (simp add: abs_path_def Join_append)
  qed
  have pos: "\<exists>p. Join (abs_path ss # map (\<lambda>ts. Join ts ''/'') ?tss) ''/'' = ?c # p"
    unfolding join by (simp add: abs_path_def)
  have 3: "clean_segments True [] (Split1 (abs_path us) ?c) = us"
       "clean_segments True [] (Split1 (''/'' @ abs_path us) ?c) = us" if "segments us" for us
    using Split1_abs_path [OF that] clean_segments_id [OF that, of True "[]"] by simp_all
  have "clean_segments True [] (Split1 (Join (abs_path ss # map (\<lambda>ts. Join ts ''/'') ?tss) ''/'') ?c) = ss @ ?ts"
    unfolding join using 3 good by simp
  with pos show ?thesis
    unfolding conc by (auto simp: path_Join_def elems path_Clean_def abs_path_def)
qed

end
