(* ===== verification/FakeTesting.thy ===== *)
theory FakeTesting imports MTPrelude GoStrings ObjectTracker ApiTypes SchemeRegister ClientApi begin

text \<open>
  What the generated fake clients stand on: actions, reactors and \<open>Invokes\<close>
  (\<open>actions.go\<close>, \<open>fake.go\<close>, \<open>fixture.go\<close> of \<open>vendor/k8s.io/client-go/testing\<close>) over the object
  tracker, for a tracker whose objects all have one type \<open>'o\<close>.

  What a patch does to an object is a parameter (\<open>patcher\<close>), as the parsing of selectors is. Objects
  are values, so deep copies are the identity. A \<open>watch.Interface\<close> is a reference to a watcher.
  Contexts are left out, and so are the options the fakes drop. The type metadata of
  a list is not looked at and left out of \<open>ListObject\<close>.
\<close>

section \<open>Actions\<close>

datatype 'o action_impl =
    GetActionImpl string
  | ListActionImpl gvk selector
  | CreateActionImpl 'o
  | UpdateActionImpl 'o
  | DeleteActionImpl string
  | DeleteCollectionActionImpl selector
  | PatchActionImpl string patch_type string
  | WatchActionImpl selector string ListOptions

record 'o action =
  act_Namespace :: string
  act_Verb :: string
  act_Resource :: GroupVersionResource
  act_Subresource :: string
  act_impl :: "'o action_impl"

definition NewGetAction :: "GroupVersionResource \<Rightarrow> string \<Rightarrow> string \<Rightarrow> 'o action" where
  "NewGetAction resource namespace name =
     \<lparr>act_Namespace = namespace, act_Verb = ''get'', act_Resource = resource, act_Subresource = [],
      act_impl = GetActionImpl name\<rparr>"

definition NewListAction ::
  "selector_parsers \<Rightarrow> GroupVersionResource \<Rightarrow> gvk \<Rightarrow> string \<Rightarrow> ListOptions \<Rightarrow> 'o action outcome" where
  "NewListAction sp resource kind namespace opts =
     (case ExtractFromListOptions sp opts of
        Panic msg \<Rightarrow> Panic msg
      | Return labelSelector \<Rightarrow> Return
          \<lparr>act_Namespace = namespace, act_Verb = ''list'', act_Resource = resource, act_Subresource = [],
           act_impl = ListActionImpl kind labelSelector\<rparr>)"

definition NewCreateAction :: "GroupVersionResource \<Rightarrow> string \<Rightarrow> 'o \<Rightarrow> 'o action" where
  "NewCreateAction resource namespace object =
     \<lparr>act_Namespace = namespace, act_Verb = ''create'', act_Resource = resource, act_Subresource = [],
      act_impl = CreateActionImpl object\<rparr>"

definition NewUpdateSubresourceAction ::
  "GroupVersionResource \<Rightarrow> string \<Rightarrow> string \<Rightarrow> 'o \<Rightarrow> 'o action" where
  "NewUpdateSubresourceAction resource subresource namespace object =
     \<lparr>act_Namespace = namespace, act_Verb = ''update'', act_Resource = resource,
      act_Subresource = subresource, act_impl = UpdateActionImpl object\<rparr>"

definition NewUpdateAction :: "GroupVersionResource \<Rightarrow> string \<Rightarrow> 'o \<Rightarrow> 'o action" where
  "NewUpdateAction resource namespace object = NewUpdateSubresourceAction resource [] namespace object"

definition NewDeleteAction :: "GroupVersionResource \<Rightarrow> string \<Rightarrow> string \<Rightarrow> 'o action" where
  "NewDeleteAction resource namespace name =
     \<lparr>act_Namespace = namespace, act_Verb = ''delete'', act_Resource = resource, act_Subresource = [],
      act_impl = DeleteActionImpl name\<rparr>"

definition NewDeleteCollectionAction ::
  "selector_parsers \<Rightarrow> GroupVersionResource \<Rightarrow> string \<Rightarrow> ListOptions \<Rightarrow> 'o action outcome" where
  "NewDeleteCollectionAction sp resource namespace listOpts =
     (case ExtractFromListOptions sp listOpts of
        Panic msg \<Rightarrow> Panic msg
      | Return labelSelector \<Rightarrow> Return
          \<lparr>act_Namespace = namespace, act_Verb = ''delete-collection'', act_Resource = resource,
           act_Subresource = [], act_impl = DeleteCollectionActionImpl labelSelector\<rparr>)"

definition NewPatchSubresourceAction ::
  "GroupVersionResource \<Rightarrow> string \<Rightarrow> string \<Rightarrow> patch_type \<Rightarrow> string \<Rightarrow> string list \<Rightarrow> 'o action" where
  "NewPatchSubresourceAction resource namespace name pt patch subresources =
     \<lparr>act_Namespace = namespace, act_Verb = ''patch'', act_Resource = resource,
      act_Subresource = path_Join subresources, act_impl = PatchActionImpl name pt patch\<rparr>"

text \<open>The restrictions of a watch, of which the field selector is dropped, and its options.\<close>

definition NewWatchAction ::
  "selector_parsers \<Rightarrow> GroupVersionResource \<Rightarrow> string \<Rightarrow> ListOptions \<Rightarrow> 'o action outcome" where
  "NewWatchAction sp resource namespace opts =
     (case ExtractFromListOptions sp opts of
        Panic msg \<Rightarrow> Panic msg
      | Return labelSelector \<Rightarrow> Return
          \<lparr>act_Namespace = namespace, act_Verb = ''watch'', act_Resource = resource, act_Subresource = [],
           act_impl = WatchActionImpl labelSelector (lo_ResourceVersion opts) opts\<rparr>)"

section \<open>Reactors and Invokes\<close>

text \<open>The dynamic type of a \<open>runtime.Object\<close>, as the clients tell it apart.\<close>

datatype 'o rt_object =
    ItemObject 'o
  | ListObject "list_meta" "'o slice"
  | ForeignObject string

text \<open>A reaction may change the world it closes over, \<open>'w\<close>, and may panic.\<close>

type_synonym ('o, 'w) ReactionFunc =
  "'o action \<Rightarrow> 'w \<Rightarrow> (bool \<times> 'o rt_object option \<times> error) outcome \<times> 'w"

record ('o, 'w) SimpleReactor =
  re_Verb :: string
  re_Resource :: string
  re_Reaction :: "('o, 'w) ReactionFunc"

type_synonym ('o, 'w) WatchReactionFunc =
  "'o action \<Rightarrow> 'w \<Rightarrow> (bool \<times> nat option \<times> error) outcome \<times> 'w"

record ('o, 'w) SimpleWatchReactor =
  wre_Resource :: string
  wre_Reaction :: "('o, 'w) WatchReactionFunc"

record ('o, 'w) Fake =
  fk_actions :: "'o action list"
  fk_ReactionChain :: "('o, 'w) SimpleReactor list"
  fk_WatchReactionChain :: "('o, 'w) SimpleWatchReactor list"
  fk_world :: 'w

definition resourceCovers :: "string \<Rightarrow> 'o action \<Rightarrow> bool" where
  "resourceCovers resource action =
     (if resource = ''*'' then True
      else if resource = gvr_resource (act_Resource action) then True
      else
        let slash = CHR 0x2F; top = takeWhile (\<lambda>c. c \<noteq> slash) resource;
            rest = drop (Suc (length top)) resource
        in slash \<in> set resource \<and> top = gvr_resource (act_Resource action)
           \<and> rest = act_Subresource action)"

definition reactor_Handles :: "('o, 'w) SimpleReactor \<Rightarrow> 'o action \<Rightarrow> bool" where
  "reactor_Handles r action =
     (if \<not> (re_Verb r = ''*'' \<or> re_Verb r = act_Verb action) then False
      else resourceCovers (re_Resource r) action)"

fun react_chain ::
  "('o, 'w) SimpleReactor list \<Rightarrow> 'o action \<Rightarrow> 'o rt_object \<Rightarrow> 'w
   \<Rightarrow> ('o rt_object option \<times> error) outcome \<times> 'w" where
  "react_chain [] action defaultReturnObj w = (Return (Some defaultReturnObj, None), w)"
| "react_chain (r # rs) action defaultReturnObj w =
     (if \<not> reactor_Handles r action then react_chain rs action defaultReturnObj w
      else case re_Reaction r action w of
             (Panic msg, w) \<Rightarrow> (Panic msg, w)
           | (Return (handled, ret, err), w) \<Rightarrow>
               if \<not> handled then react_chain rs action defaultReturnObj w
               else (Return (ret, err), w))"

definition Invokes ::
  "'o action \<Rightarrow> 'o rt_object \<Rightarrow> ('o, 'w) Fake
   \<Rightarrow> ('o rt_object option \<times> error) outcome \<times> ('o, 'w) Fake" where
  "Invokes action defaultReturnObj c =
     (case react_chain (fk_ReactionChain c) action defaultReturnObj (fk_world c) of
        (r, w) \<Rightarrow> (r, c\<lparr>fk_actions := fk_actions c @ [action], fk_world := w\<rparr>))"

definition watch_reactor_Handles :: "('o, 'w) SimpleWatchReactor \<Rightarrow> 'o action \<Rightarrow> bool" where
  "watch_reactor_Handles r action = resourceCovers (wre_Resource r) action"

fun watch_chain ::
  "('o, 'w) SimpleWatchReactor list \<Rightarrow> 'o action \<Rightarrow> 'w \<Rightarrow> (nat option \<times> error) outcome \<times> 'w" where
  "watch_chain [] action w = (Return (None, Some (Errorf ''unhandled watch: %#v'' [])), w)"
| "watch_chain (r # rs) action w =
     (if \<not> watch_reactor_Handles r action then watch_chain rs action w
      else case wre_Reaction r action w of
             (Panic msg, w) \<Rightarrow> (Panic msg, w)
           | (Return (handled, ret, err), w) \<Rightarrow>
               if \<not> handled then watch_chain rs action w
               else (Return (ret, err), w))"

definition InvokesWatch ::
  "'o action \<Rightarrow> ('o, 'w) Fake \<Rightarrow> (nat option \<times> error) outcome \<times> ('o, 'w) Fake" where
  "InvokesWatch action c =
     (case watch_chain (fk_WatchReactionChain c) action (fk_world c) of
        (r, w) \<Rightarrow> (r, c\<lparr>fk_actions := fk_actions c @ [action], fk_world := w\<rparr>))"

definition AddReactor :: "string \<Rightarrow> string \<Rightarrow> ('o, 'w) ReactionFunc \<Rightarrow> ('o, 'w) Fake \<Rightarrow> ('o, 'w) Fake" where
  "AddReactor verb resource reaction c =
     c\<lparr>fk_ReactionChain := fk_ReactionChain c @
         [\<lparr>re_Verb = verb, re_Resource = resource, re_Reaction = reaction\<rparr>]\<rparr>"

definition PrependReactor :: "string \<Rightarrow> string \<Rightarrow> ('o, 'w) ReactionFunc \<Rightarrow> ('o, 'w) Fake \<Rightarrow> ('o, 'w) Fake" where
  "PrependReactor verb resource reaction c =
     c\<lparr>fk_ReactionChain :=
         \<lparr>re_Verb = verb, re_Resource = resource, re_Reaction = reaction\<rparr> # fk_ReactionChain c\<rparr>"

definition AddWatchReactor :: "string \<Rightarrow> ('o, 'w) WatchReactionFunc \<Rightarrow> ('o, 'w) Fake \<Rightarrow> ('o, 'w) Fake" where
  "AddWatchReactor resource reaction c =
     c\<lparr>fk_WatchReactionChain := fk_WatchReactionChain c @
         [\<lparr>wre_Resource = resource, wre_Reaction = reaction\<rparr>]\<rparr>"

definition PrependWatchReactor :: "string \<Rightarrow> ('o, 'w) WatchReactionFunc \<Rightarrow> ('o, 'w) Fake \<Rightarrow> ('o, 'w) Fake" where
  "PrependWatchReactor resource reaction c =
     c\<lparr>fk_WatchReactionChain :=
         \<lparr>wre_Resource = resource, wre_Reaction = reaction\<rparr> # fk_WatchReactionChain c\<rparr>"

definition ClearActions :: "('o, 'w) Fake \<Rightarrow> ('o, 'w) Fake" where
  "ClearActions c = c\<lparr>fk_actions := []\<rparr>"

definition Fake_Actions :: "('o, 'w) Fake \<Rightarrow> 'o action list" where
  "Fake_Actions c = fk_actions c"

end
