(* ===== verification/FakeTracker.thy ===== *)
theory FakeTracker imports FakeTesting begin

text \<open>
  The tracker as the fake clientsets use it (\<open>vendor/k8s.io/client-go/testing/fixture.go\<close>): listing,
  presetting with objects, watching, and \<open>ObjectReaction\<close>, the reactor that answers every action from
  the tracker. The basic operations are in \<open>ObjectTracker\<close>.

  The scheme is an argument: a kind or type it does not know is an error. Objects of a tracker
  have one type here, whose name the scheme knows is \<open>ty\<close>. A list has nil items when nothing was
  ever stored for its resource; here it has an empty slice, which no caller tells apart.
\<close>

section \<open>Resource names\<close>

definition UnsafeGuessKindToResource :: "gvk \<Rightarrow> GroupVersionResource" where
  "UnsafeGuessKindToResource k =
     (if gvk_kind k = [] then \<lparr>gvr_group = [], gvr_version = [], gvr_resource = []\<rparr>
      else
        let singularName = ToLower (gvk_kind k); gv = gvk_GroupVersion k
        in if HasSuffix singularName ''endpoints'' then WithResource gv singularName
           else if last singularName = CHR ''s'' then WithResource gv (singularName @ ''es'')
           else if last singularName = CHR ''y'' then WithResource gv (butlast singularName @ ''ies'')
           else WithResource gv (singularName @ ''s''))"

section \<open>Listing\<close>

text \<open>The types this repository registers that have items.\<close>

definition IsListType :: "go_type \<Rightarrow> bool" where
  "IsListType t = (t \<in> {pc_type ''ProviderConfigList'', tenant_type ''TenantList''})"

definition scheme_New :: "Scheme \<Rightarrow> gvk \<Rightarrow> go_error + go_type" where
  "scheme_New s kind =
     (case gvkToType s kind of
        Some t \<Rightarrow> Inr t
      | None \<Rightarrow>
          (case unversionedKinds s (gvk_kind kind) of
             Some t \<Rightarrow> Inr t
           | None \<Rightarrow> Inl (Errorf ''no kind %q is registered for version %q'' [gvk_kind kind, gvk_version kind])))"

text \<open>Sorted by namespace and name, which are the keys.\<close>

definition filterByNamespace :: "'o accessor \<Rightarrow> (string \<times> string \<rightharpoonup> nat \<times> 'o) \<Rightarrow> string \<Rightarrow> (nat \<times> 'o) list" where
  "filterByNamespace acc objs ns =
     filter (\<lambda>(rv, ob). ns = [] \<or> acc_namespace acc ob = ns)
       (map (\<lambda>k. the (objs k)) (sorted_list_of_set (dom objs)))"

definition tracker_List ::
  "Scheme \<Rightarrow> 'o accessor \<Rightarrow> 'o tracker \<Rightarrow> GroupVersionResource \<Rightarrow> gvk \<Rightarrow> string \<Rightarrow> go_error + 'o rt_object" where
  "tracker_List sch acc t gvr k ns =
     (let listGVK = \<lparr>gvk_group = gvk_group k,
            gvk_version = (if gvk_version k = [] then APIVersionInternal else gvk_version k),
            gvk_kind = gvk_kind k @ ''List''\<rparr>
      in case scheme_New sch listGVK of
           Inl e \<Rightarrow> Inl e
         | Inr ty \<Rightarrow>
             if \<not> IsListType ty then Inl (Errorf ''%q is not a list type'' [gvk_kind listGVK])
             else
               let resourceVersion = (case tr_versions t gvr of None \<Rightarrow> 1 | Some v \<Rightarrow> v)
               in Inr (ListObject \<lparr>lm_SelfLink = [], lm_ResourceVersion = Itoa resourceVersion,
                         lm_Continue = [], lm_RemainingItemCount = None, lm_ShardInfo = None\<rparr>
                       (Some (map snd (filterByNamespace acc (tr_objects t gvr) ns)))))"

section \<open>Watching\<close>

text \<open>
  \<open>opts\<close> is the optional argument. Without it nothing that exists is delivered; with it, the objects
  newer than the resource version are.
\<close>

fun deliver_existing :: "int \<Rightarrow> nat \<Rightarrow> (nat \<times> 'o) list \<Rightarrow> 'o tracker \<Rightarrow> error outcome \<times> 'o tracker" where
  "deliver_existing addFromRV r [] t = (Return None, t)"
| "deliver_existing addFromRV r ((rv, ob) # obs) t =
     (if addFromRV < int rv
      then case notify_watchers (Added_event ob) [r] t of
             (Panic msg, t) \<Rightarrow> (Panic msg, t)
           | (Return _, t) \<Rightarrow> deliver_existing addFromRV r obs t
      else deliver_existing addFromRV r obs t)"

definition tracker_Watch ::
  "'o accessor \<Rightarrow> 'o tracker \<Rightarrow> GroupVersionResource \<Rightarrow> string \<Rightarrow> ListOptions list
   \<Rightarrow> (nat option \<times> error) outcome \<times> 'o tracker" where
  "tracker_Watch acc t gvr ns opts =
     (if 1 < length opts
      then (Return (None, Some (Errorf ''expected only one option argument but got %d'' [Itoa (length opts)])), t)
      else
        let parsed = (case opts of
              [] \<Rightarrow> Inr None
            | opt # _ \<Rightarrow>
                if lo_ResourceVersion opt = [] then Inr (Some 0)
                else case ParseInt (lo_ResourceVersion opt) of
                       Inl err \<Rightarrow> Inl (Wrapf ''invalid ResourceVersion %q in ListOptions, must be int64: %w''
                                    [lo_ResourceVersion opt] err)
                     | Inr rv \<Rightarrow> Inr (Some rv))
        in case parsed of
             Inl err \<Rightarrow> (Return (None, Some err), t)
           | Inr addExisting \<Rightarrow>
               let fakewatcher = length (tr_chans t);
                   t = t\<lparr>tr_chans := tr_chans t @ [NewRaceFreeFake],
                         tr_watchers := (tr_watchers t)(gvr := (tr_watchers t gvr)(ns := tr_watchers t gvr ns @ [fakewatcher]))\<rparr>
               in case addExisting of
                    None \<Rightarrow> (Return (Some fakewatcher, None), t)
                  | Some addFromRV \<Rightarrow>
                      (case deliver_existing addFromRV fakewatcher (filterByNamespace acc (tr_objects t gvr) ns) t of
                         (Panic msg, t) \<Rightarrow> (Panic msg, t)
                       | (Return _, t) \<Rightarrow> (Return (Some fakewatcher, None), t)))"

section \<open>Presetting\<close>

fun add_kinds :: "'o accessor \<Rightarrow> gvk list \<Rightarrow> 'o \<Rightarrow> 'o tracker \<Rightarrow> error outcome \<times> 'o tracker" where
  "add_kinds acc [] ob t = (Return None, t)"
| "add_kinds acc (k # ks) ob t =
     (let gvr = UnsafeGuessKindToResource k;
          gvr = (if gvr_version gvr = APIVersionInternal then gvr\<lparr>gvr_version := []\<rparr> else gvr)
      in case tracker_add acc t gvr ob (acc_namespace acc ob) False of
           (Panic msg, t) \<Rightarrow> (Panic msg, t)
         | (Return (Some e), t) \<Rightarrow> (Return (Some e), t)
         | (Return None, t) \<Rightarrow> add_kinds acc ks ob t)"

definition add_item :: "Scheme \<Rightarrow> 'o accessor \<Rightarrow> go_type \<Rightarrow> 'o \<Rightarrow> 'o tracker \<Rightarrow> error outcome \<times> 'o tracker" where
  "add_item sch acc ty ob t =
     (let gvks = typeToGVK sch ty
      in if gvks = [] then (Return (Some (Errorf ''no kind is registered for the type %v'' [ty_name ty])), t)
         else add_kinds acc gvks ob t)"

fun add_items :: "Scheme \<Rightarrow> 'o accessor \<Rightarrow> go_type \<Rightarrow> 'o list \<Rightarrow> 'o tracker \<Rightarrow> error outcome \<times> 'o tracker" where
  "add_items sch acc ty [] t = (Return None, t)"
| "add_items sch acc ty (ob # obs) t =
     (case add_item sch acc ty ob t of
        (Panic msg, t) \<Rightarrow> (Panic msg, t)
      | (Return (Some e), t) \<Rightarrow> (Return (Some e), t)
      | (Return None, t) \<Rightarrow> add_items sch acc ty obs t)"

definition tracker_Add ::
  "Scheme \<Rightarrow> 'o accessor \<Rightarrow> go_type \<Rightarrow> 'o rt_object \<Rightarrow> 'o tracker \<Rightarrow> error outcome \<times> 'o tracker" where
  "tracker_Add sch acc ty obj t =
     (case obj of
        ListObject lm xs \<Rightarrow> add_items sch acc ty (elems xs) t
      | ItemObject ob \<Rightarrow> add_item sch acc ty ob t
      | ForeignObject name \<Rightarrow> (Return (Some (Errorf ''no kind is registered for the type %v'' [name])), t))"

section \<open>ObjectReaction\<close>

definition handled_object :: "go_error + 'o \<Rightarrow> bool \<times> 'o rt_object option \<times> error" where
  "handled_object r = (case r of Inl e \<Rightarrow> (True, None, Some e) | Inr ob \<Rightarrow> (True, Some (ItemObject ob), None))"

definition reactor_Patch ::
  "'o accessor \<Rightarrow> 'o patcher \<Rightarrow> 'o tracker \<Rightarrow> GroupVersionResource \<Rightarrow> string \<Rightarrow> string \<Rightarrow> patch_type \<Rightarrow> string
   \<Rightarrow> (go_error + 'o) outcome \<times> 'o tracker" where
  "reactor_Patch acc patcher t gvr ns name pt data =
     (case tracker_Get t gvr ns name of
        Inl e \<Rightarrow> (Return (Inl e), t)
      | Inr old \<Rightarrow>
          (case patch_of patcher pt data old of
             Inl e \<Rightarrow> (Return (Inl e), t)
           | Inr ob \<Rightarrow> after_write (tracker_add acc t gvr ob ns True) (\<lambda>t. Inr ob)))"

definition reactor_Apply ::
  "'o accessor \<Rightarrow> 'o patcher \<Rightarrow> 'o tracker \<Rightarrow> GroupVersionResource \<Rightarrow> string \<Rightarrow> string \<Rightarrow> string
   \<Rightarrow> (go_error + 'o) outcome \<times> 'o tracker" where
  "reactor_Apply acc patcher t gvr ns name data =
     (case pa_Unmarshal patcher data of
        Some e \<Rightarrow> (Return (Inl e), t)
      | None \<Rightarrow>
          (case tracker_Get t gvr ns name of
             Inl e \<Rightarrow> (Return (Inl e), t)
           | Inr old \<Rightarrow>
               (case patch_of patcher ApplyPatchType data old of
                  Inl e \<Rightarrow> (Return (Inl e), t)
                | Inr ob \<Rightarrow> after_write (tracker_add acc t gvr ob ns True) (\<lambda>t. tracker_Get t gvr ns name))))"

text \<open>A create on a subresource is an update of the enclosing object, as is every update.\<close>

definition react_Create ::
  "'o accessor \<Rightarrow> 'o tracker \<Rightarrow> GroupVersionResource \<Rightarrow> string \<Rightarrow> string \<Rightarrow> 'o
   \<Rightarrow> (go_error + 'o) outcome \<times> 'o tracker" where
  "react_Create acc t gvr ns subresource ob =
     (if subresource = [] then reactor_Create acc t gvr ns ob
      else case tracker_Get t gvr ns (acc_name acc ob) of
             Inl e \<Rightarrow> (Return (Inl e), t)
           | Inr old \<Rightarrow> reactor_Update acc t gvr ns ob)"

definition handled_write ::
  "(go_error + 'o) outcome \<times> 'o tracker \<Rightarrow> (bool \<times> 'o rt_object option \<times> error) outcome \<times> 'o tracker" where
  "handled_write r = (case r of (Panic msg, t) \<Rightarrow> (Panic msg, t) | (Return r, t) \<Rightarrow> (Return (handled_object r), t))"

definition ObjectReaction :: "Scheme \<Rightarrow> 'o accessor \<Rightarrow> 'o patcher \<Rightarrow> ('o, 'o tracker) ReactionFunc" where
  "ObjectReaction sch acc patcher action t =
     (let gvr = act_Resource action; ns = act_Namespace action;
          unhandled = (Return (False, None, Some (Errorf ''no reaction implemented for %s'' [act_Verb action])), t)
      in case act_impl action of
           ListActionImpl kind sel \<Rightarrow>
             (Return (case tracker_List sch acc t gvr kind ns of
                        Inl e \<Rightarrow> (True, None, Some e) | Inr l \<Rightarrow> (True, Some l, None)), t)
         | GetActionImpl name \<Rightarrow> (Return (handled_object (tracker_Get t gvr ns name)), t)
         | CreateActionImpl ob \<Rightarrow> handled_write (react_Create acc t gvr ns (act_Subresource action) ob)
         | UpdateActionImpl ob \<Rightarrow> handled_write (reactor_Update acc t gvr ns ob)
         | DeleteActionImpl name \<Rightarrow>
             (case tracker_Delete t gvr ns name of
                (Panic msg, t) \<Rightarrow> (Panic msg, t) | (Return err, t) \<Rightarrow> (Return (True, None, err), t))
         | PatchActionImpl name pt data \<Rightarrow>
             handled_write (if pt = ApplyPatchType then reactor_Apply acc patcher t gvr ns name data
                            else reactor_Patch acc patcher t gvr ns name pt data)
         | DeleteCollectionActionImpl sel \<Rightarrow> unhandled
         | WatchActionImpl sel rv opts \<Rightarrow> unhandled)"

section \<open>A well-formed tracker\<close>

text \<open>Finitely many objects, each under the namespace and name it carries, and proper watchers.\<close>

definition tracker_ok :: "'o accessor \<Rightarrow> 'o tracker \<Rightarrow> bool" where
  "tracker_ok acc t \<longleftrightarrow> watchers_ok t \<and> (\<forall>gvr. finite (dom (tr_objects t gvr)) \<and>
     (\<forall>k rv ob. tr_objects t gvr k = Some (rv, ob) \<longrightarrow> k = (acc_namespace acc ob, acc_name acc ob)))"

definition accessor_ok :: "'o accessor \<Rightarrow> bool" where
  "accessor_ok acc \<longleftrightarrow> (\<forall>ob ns. acc_namespace acc (acc_set_namespace acc ob ns) = ns
     \<and> acc_name acc (acc_set_namespace acc ob ns) = acc_name acc ob
     \<and> acc_set_namespace acc ob (acc_namespace acc ob) = ob)"

lemma typed_accessors_ok: "accessor_ok tn_accessor" "accessor_ok pc_accessor"
  by (simp_all add: accessor_ok_def tn_accessor_def pc_accessor_def)

lemma newTracker_ok: "tracker_ok acc newTracker"
  by (simp add: tracker_ok_def newTracker_def watchers_ok_def)

lemma placed_fields:
  assumes "accessor_ok acc"
  shows "acc_name acc (placed acc ns ob) = acc_name acc ob"
    and "acc_namespace acc (placed acc ns ob) = (if acc_namespace acc ob = [] then ns else acc_namespace acc ob)"
  using assms by (simp_all add: placed_def accessor_ok_def)

text \<open>The objects of a resource, without their versions.\<close>

definition stored :: "'o tracker \<Rightarrow> GroupVersionResource \<Rightarrow> string \<times> string \<rightharpoonup> 'o" where
  "stored t gvr k = map_option snd (tr_objects t gvr k)"

text \<open>What an event leaves in the watchers.\<close>

definition after_event :: "'o watch_event option \<Rightarrow> nat list \<Rightarrow> 'o fake_watcher list \<Rightarrow> 'o fake_watcher list" where
  "after_event ev rs cs = (case ev of None \<Rightarrow> cs | Some e \<Rightarrow> delivered e rs cs)"

lemma after_event_simps [simp]: "after_event None rs cs = cs" "after_event (Some e) rs cs = delivered e rs cs" "after_event ev [] cs = cs"
  by (cases ev; simp add: after_event_def)+

text \<open>A change told to a watcher that is full panics.\<close>

definition overflows :: "'o tracker \<Rightarrow> GroupVersionResource \<Rightarrow> string \<Rightarrow> 'o watch_event option \<Rightarrow> bool" where
  "overflows t gvr ns ev \<longleftrightarrow> ev \<noteq> None \<and> \<not> room_for t gvr ns"

lemma overflows_None [simp]: "\<not> overflows t gvr ns None"
  by (simp add: overflows_def)

text \<open>What a write does to the watchers.\<close>

definition told :: "GroupVersionResource \<Rightarrow> string \<Rightarrow> 'o watch_event option \<Rightarrow> 'o tracker \<Rightarrow> 'o tracker \<Rightarrow> bool" where
  "told gvr ns ev t t' \<longleftrightarrow> tr_watchers t' = tr_watchers t
     \<and> (\<not> overflows t gvr ns ev \<longrightarrow> tr_chans t' = after_event ev (getWatches t gvr ns) (tr_chans t))"

lemma told_refl [simp]: "told gvr ns None t t"
  by (simp add: told_def)

text \<open>The outcomes of \<open>tracker.add\<close>, on what is stored and what the watchers have.\<close>

lemma tracker_add_spec:
  assumes acc: "accessor_ok acc" and ok: "tracker_ok acc t"
  obtains t' where
    "tracker_add acc t gvr ob ns replace =
       (if overflows t gvr ns (write_event acc ns replace ob (stored t gvr)) then Panic ''channel full''
        else Return (if \<not> fits acc ns ob then Some (mismatch acc ns ob)
        else if (stored t gvr (ns, acc_name acc ob) = None) = replace
        then Some ((if replace then NewNotFound else NewAlreadyExists) gvr (acc_name acc ob))
        else None), t')"
    "tracker_ok acc t'"
    "\<forall>r. stored t' r = (if r = gvr \<and> fits acc ns ob
          \<and> (stored t gvr (ns, acc_name acc ob) = None) \<noteq> replace
        then (stored t gvr)((ns, acc_name acc ob) \<mapsto> placed acc ns ob) else stored t r)"
    "told gvr ns (write_event acc ns replace ob (stored t gvr)) t t'"
proof -
  let ?ob = "placed acc ns ob" and ?k = "(ns, acc_name acc ob)"
  show thesis
  proof (cases "fits acc ns ob")
    case False
    then have "tracker_add acc t gvr ob ns replace = (Return (Some (mismatch acc ns ob)), t)"
      by (auto simp: tracker_add_def fits_def mismatch_def Let_def)
    with False ok that [of t] show thesis by (auto simp: write_event_def)
  next
    case fits: True
    have name: "acc_name acc ?ob = acc_name acc ob" "acc_namespace acc ?ob = ns"
      using fits placed_fields [OF acc] by (auto simp: fits_def)
    define rv where "rv = Suc (case tr_versions t gvr of None \<Rightarrow> 1 | Some v \<Rightarrow> v)"
    define t' where "t' = t\<lparr>tr_versions := (tr_versions t)(gvr \<mapsto> rv),
        tr_objects := (tr_objects t)(gvr := (tr_objects t gvr)(?k \<mapsto> (rv, ?ob)))\<rparr>"
    let ?ev = "(if replace then Modified_event else Added_event) ?ob"
    have "watchers_ok t" "tr_watchers t' = tr_watchers t" "tr_chans t' = tr_chans t"
      using ok by (simp_all add: tracker_ok_def t'_def)
    then obtain cs where cs: "notify_watchers ?ev (getWatches t' gvr ns) t' =
        (if room_for t gvr ns then Return None else Panic ''channel full'', t'\<lparr>tr_chans := cs\<rparr>)"
      "length cs = length (tr_chans t)" "room_for t gvr ns \<longrightarrow> cs = delivered ?ev (getWatches t gvr ns) (tr_chans t)"
      by (rule notify_watches [where gvr = gvr and ns = ns and ev = ?ev])
    let ?t = "t'\<lparr>tr_chans := cs\<rparr>"
    have add: "tracker_add acc t gvr ob ns replace =
        (if (tr_objects t gvr ?k = None) \<noteq> replace then notify_watchers ?ev (getWatches t' gvr ns) t'
         else (Return (Some ((if replace then NewNotFound else NewAlreadyExists) gvr (acc_name acc ob))), t))"
      using name unfolding tracker_add_def placed_def [symmetric] Let_def t'_def rv_def
      by (cases "tr_objects t gvr ?k") simp_all
    have "tracker_ok acc ?t" using ok name cs(2) by (simp add: tracker_ok_def t'_def watchers_ok_def)
    moreover have "\<forall>r. stored ?t r = (if r = gvr then (stored t gvr)(?k \<mapsto> ?ob) else stored t r)"
      by (simp add: stored_def [abs_def] t'_def fun_eq_iff)
    moreover have "tr_watchers ?t = tr_watchers t" by (simp add: t'_def)
    ultimately show thesis
      using add cs(1,3) fits ok that [of "if (stored t gvr ?k = None) = replace then t else ?t"]
      by (cases "(stored t gvr ?k = None) = replace") (auto simp: stored_def write_event_def told_def overflows_def)
  qed
qed

lemma tracker_Delete_spec:
  assumes "tracker_ok acc t"
  obtains t' where "tracker_Delete t gvr ns name =
      (if overflows t gvr ns (map_option Deleted_event (stored t gvr (ns, name))) then Panic ''channel full''
       else Return (if stored t gvr (ns, name) = None then Some (NewNotFound gvr name) else None), t')"
    "tracker_ok acc t'"
    "\<forall>r. stored t' r = (if r = gvr then (stored t gvr)((ns, name) := None) else stored t r)"
    "told gvr ns (map_option Deleted_event (stored t gvr (ns, name))) t t'"
proof (cases "tr_objects t gvr (ns, name)")
  case None
  then show thesis using assms that [of t] by (auto simp: tracker_Delete_def stored_def fun_upd_idem)
next
  case (Some p)
  obtain rv ob where p: "p = (rv, ob)" by (cases p)
  let ?t = "t\<lparr>tr_objects := (tr_objects t)(gvr := (tr_objects t gvr)((ns, name) := None))\<rparr>"
  have "watchers_ok t" using assms by (simp add: tracker_ok_def)
  then obtain cs where cs: "notify_watchers (Deleted_event ob) (getWatches ?t gvr ns) ?t =
      (if room_for t gvr ns then Return None else Panic ''channel full'', ?t\<lparr>tr_chans := cs\<rparr>)"
    "length cs = length (tr_chans t)" "room_for t gvr ns \<longrightarrow> cs = delivered (Deleted_event ob) (getWatches t gvr ns) (tr_chans t)"
    by (rule notify_watches [where gvr = gvr and ns = ns and ev = "Deleted_event ob" and ?t1.0 = ?t]) simp_all
  let ?t' = "?t\<lparr>tr_chans := cs\<rparr>"
  have "tracker_Delete t gvr ns name = (if room_for t gvr ns then Return None else Panic ''channel full'', ?t')"
      "stored t gvr (ns, name) = Some ob"
    using Some p cs(1) by (simp_all add: tracker_Delete_def stored_def Let_def)
  moreover have "tracker_ok acc ?t'" using assms cs(2) by (simp add: tracker_ok_def watchers_ok_def)
  moreover have "\<forall>r. stored ?t' r = (if r = gvr then (stored t gvr)((ns, name) := None) else stored t r)"
    by (simp add: stored_def [abs_def] fun_eq_iff)
  ultimately show thesis using cs(3) that [of ?t'] by (simp add: told_def overflows_def)
qed

lemma tracker_Get_spec:
  "tracker_Get t gvr ns name =
     (case stored t gvr (ns, name) of None \<Rightarrow> Inl (NewNotFound gvr name) | Some ob \<Rightarrow> Inr ob)"
  by (simp add: tracker_Get_def stored_def split: option.split)

lemma filterByNamespace_listing:
  assumes "tracker_ok acc t"
  shows "map snd (filterByNamespace acc (tr_objects t gvr) ns) = listing (stored t gvr) ns"
proof -
  have dom: "dom (stored t gvr) = dom (tr_objects t gvr)" by (auto simp: stored_def dom_def)
  have fin: "finite (dom (tr_objects t gvr))" using assms by (simp add: tracker_ok_def)
  have key: "acc_namespace acc (snd (the (tr_objects t gvr k))) = fst k"
    and val: "snd (the (tr_objects t gvr k)) = the (stored t gvr k)" if "k \<in> dom (tr_objects t gvr)" for k
  proof -
    from that obtain rv ob where o: "tr_objects t gvr k = Some (rv, ob)" by auto
    then have "k = (acc_namespace acc ob, acc_name acc ob)" using assms unfolding tracker_ok_def by blast
    with o show "acc_namespace acc (snd (the (tr_objects t gvr k))) = fst k"
      "snd (the (tr_objects t gvr k)) = the (stored t gvr k)" by (simp_all add: stored_def)
  qed
  let ?ks = "sorted_list_of_set (dom (tr_objects t gvr))"
  have "filter (\<lambda>k. ns = [] \<or> acc_namespace acc (snd (the (tr_objects t gvr k))) = ns) ?ks
      = filter (\<lambda>k. ns = [] \<or> fst k = ns) ?ks"
    by (rule filter_cong) (use fin key in simp_all)
  moreover have "map (\<lambda>k. snd (the (tr_objects t gvr k))) (filter (\<lambda>k. ns = [] \<or> fst k = ns) ?ks)
      = map (\<lambda>k. the (stored t gvr k)) (filter (\<lambda>k. ns = [] \<or> fst k = ns) ?ks)"
    by (rule map_cong) (use fin val in simp_all)
  ultimately show ?thesis
    unfolding filterByNamespace_def listing_def dom by (simp add: filter_map o_def case_prod_unfold)
qed

end
