(* ===== verification/FakeClients.thy ===== *)
theory FakeClients imports FakeTracker begin

text \<open>
  The generated fake clients of both API packages: \<open>fake_tenant.go\<close>, \<open>fake_tenant_client.go\<close>,
  \<open>fake_providerconfig.go\<close>, \<open>fake_providerconfig_client.go\<close> and the two \<open>fake/clientset_generated.go\<close>.
  The clients share their \<open>testing.Fake\<close> by pointer: it is the state of every call, and its world is
  the clientset's tracker. The fake discovery and the nil REST client are left out.
\<close>

section \<open>What the methods share\<close>

definition make_tenant_list :: "list_meta \<Rightarrow> tenant slice \<Rightarrow> tenant_list" where
  "make_tenant_list lm xs = \<lparr>tnl_TypeMeta = zero_TypeMeta, tnl_ListMeta = lm, tnl_Items = xs\<rparr>"

definition make_provider_config_list :: "list_meta \<Rightarrow> provider_config slice \<Rightarrow> provider_config_list" where
  "make_provider_config_list lm xs = \<lparr>pcl_TypeMeta = zero_TypeMeta, pcl_ListMeta = lm, pcl_Items = xs\<rparr>"

text \<open>\<open>if obj == nil { return nil, err }; return obj.(*T), err\<close>\<close>

definition as_object :: "('o rt_object option \<times> error) outcome \<times> 's \<Rightarrow> ('o option \<times> error) outcome \<times> 's" where
  "as_object r = (case r of
     (Panic msg, s) \<Rightarrow> (Panic msg, s)
   | (Return (obj, err), s) \<Rightarrow>
       (case obj of
          None \<Rightarrow> (Return (None, err), s)
        | Some (ItemObject ob) \<Rightarrow> (Return (Some ob, err), s)
        | Some _ \<Rightarrow> (Panic ''interface conversion'', s)))"

definition as_error :: "('o rt_object option \<times> error) outcome \<times> 's \<Rightarrow> error outcome \<times> 's" where
  "as_error r = (case r of (Panic msg, s) \<Rightarrow> (Panic msg, s) | (Return (obj, err), s) \<Rightarrow> (Return err, s))"

text \<open>The loop of \<open>List\<close> over the items, with its label selector.\<close>

definition append_matching :: "selector \<Rightarrow> 'o labels_of \<Rightarrow> 'o list \<Rightarrow> 'o slice \<Rightarrow> 'o slice" where
  "append_matching label labels xs list =
     fold (\<lambda>item list. if sel_Matches label (labels item) then append1 list item else list) xs list"

definition list_and_filter ::
  "selector_parsers \<Rightarrow> 'o labels_of \<Rightarrow> (list_meta \<Rightarrow> 'o slice \<Rightarrow> 'l) \<Rightarrow> 'o action outcome \<Rightarrow> ListOptions
   \<Rightarrow> ('l, ('o, 'w) Fake) client_call" where
  "list_and_filter sp labels mk action opts f =
     (case action of
        Panic msg \<Rightarrow> (Panic msg, f)
      | Return action \<Rightarrow>
          (case Invokes action (ListObject zero_ListMeta None) f of
             (Panic msg, f) \<Rightarrow> (Panic msg, f)
           | (Return (None, err), f) \<Rightarrow> (Return (None, err), f)
           | (Return (Some obj, err), f) \<Rightarrow>
               (case ExtractFromListOptions sp opts of
                  Panic msg \<Rightarrow> (Panic msg, f)
                | Return label \<Rightarrow>
                    (case obj of
                       ListObject lm xs \<Rightarrow>
                         (Return (Some (mk lm (append_matching label labels (elems xs) None)), err), f)
                     | _ \<Rightarrow> (Panic ''interface conversion'', f)))))"

text \<open>The loop of \<open>NewSimpleClientset\<close>, which panics on an error.\<close>

fun add_all ::
  "Scheme \<Rightarrow> 'o accessor \<Rightarrow> go_type \<Rightarrow> 'o rt_object list \<Rightarrow> 'o tracker \<Rightarrow> 'o tracker outcome" where
  "add_all sch acc ty [] t = Return t"
| "add_all sch acc ty (obj # objs) t =
     (case tracker_Add sch acc ty obj t of
        (Panic msg, t) \<Rightarrow> Panic msg
      | (Return (Some e), t) \<Rightarrow> Panic ''NewSimpleClientset''
      | (Return None, t) \<Rightarrow> add_all sch acc ty objs t)"

text \<open>The watch reactor, which hands on neither the options nor the restrictions of the action.\<close>

definition tracker_watch_reaction :: "'o accessor \<Rightarrow> ('o, 'o tracker) WatchReactionFunc" where
  "tracker_watch_reaction acc action t =
     (let gvr = act_Resource action; ns = act_Namespace action
      in case tracker_Watch acc t gvr ns [] of
           (Panic msg, t) \<Rightarrow> (Panic msg, t)
         | (Return (watch, Some err), t) \<Rightarrow> (Return (False, None, Some err), t)
         | (Return (watch, None), t) \<Rightarrow> (Return (True, watch, None), t))"

text \<open>\<open>InvokesWatch\<close> on an action made from options.\<close>

definition invoke_watch ::
  "'o action outcome \<Rightarrow> (nat, ('o, 'w) Fake) client_call" where
  "invoke_watch action f =
     (case action of Panic msg \<Rightarrow> (Panic msg, f) | Return action \<Rightarrow> InvokesWatch action f)"

definition new_fake :: "'w \<Rightarrow> ('o, 'w) Fake" where
  "new_fake w = \<lparr>fk_actions = [], fk_ReactionChain = [], fk_WatchReactionChain = [], fk_world = w\<rparr>"

section \<open>Fake Tenants\<close>

text \<open>\<open>typed/tenant/v1_kubernetes_apis/fake/fake_tenant.go\<close>\<close>

definition tenantsResource :: GroupVersionResource where
  "tenantsResource = WithResource tenant_SchemeGroupVersion ''tenants''"

definition tenantsKind :: gvk where
  "tenantsKind = WithKind tenant_SchemeGroupVersion ''Tenant''"

record FakeTenants =
  ft_ns :: string

definition FakeTenants_Get ::
  "FakeTenants \<Rightarrow> string \<Rightarrow> GetOptions \<Rightarrow> (tenant, (tenant, 'w) Fake) client_call" where
  "FakeTenants_Get c name options f =
     as_object (Invokes (NewGetAction tenantsResource (ft_ns c) name) (ItemObject zero_tenant) f)"

definition FakeTenants_List ::
  "selector_parsers \<Rightarrow> FakeTenants \<Rightarrow> ListOptions \<Rightarrow> (tenant_list, (tenant, 'w) Fake) client_call" where
  "FakeTenants_List sp c opts f =
     list_and_filter sp tn_labels make_tenant_list
       (NewListAction sp tenantsResource tenantsKind (ft_ns c) opts) opts f"

definition FakeTenants_Watch ::
  "selector_parsers \<Rightarrow> FakeTenants \<Rightarrow> ListOptions \<Rightarrow> (nat, (tenant, 'w) Fake) client_call" where
  "FakeTenants_Watch sp c opts f = invoke_watch (NewWatchAction sp tenantsResource (ft_ns c) opts) f"

definition FakeTenants_Create ::
  "FakeTenants \<Rightarrow> tenant \<Rightarrow> CreateOptions \<Rightarrow> (tenant, (tenant, 'w) Fake) client_call" where
  "FakeTenants_Create c ob opts f =
     as_object (Invokes (NewCreateAction tenantsResource (ft_ns c) ob) (ItemObject zero_tenant) f)"

definition FakeTenants_Update ::
  "FakeTenants \<Rightarrow> tenant \<Rightarrow> UpdateOptions \<Rightarrow> (tenant, (tenant, 'w) Fake) client_call" where
  "FakeTenants_Update c ob opts f =
     as_object (Invokes (NewUpdateAction tenantsResource (ft_ns c) ob) (ItemObject zero_tenant) f)"

definition FakeTenants_UpdateStatus ::
  "FakeTenants \<Rightarrow> tenant \<Rightarrow> UpdateOptions \<Rightarrow> (tenant, (tenant, 'w) Fake) client_call" where
  "FakeTenants_UpdateStatus c ob opts f =
     as_object (Invokes (NewUpdateSubresourceAction tenantsResource ''status'' (ft_ns c) ob)
       (ItemObject zero_tenant) f)"

definition FakeTenants_Delete ::
  "FakeTenants \<Rightarrow> string \<Rightarrow> DeleteOptions \<Rightarrow> (tenant, 'w) Fake \<Rightarrow> error outcome \<times> (tenant, 'w) Fake" where
  "FakeTenants_Delete c name opts f =
     as_error (Invokes (NewDeleteAction tenantsResource (ft_ns c) name) (ItemObject zero_tenant) f)"

definition FakeTenants_DeleteCollection ::
  "selector_parsers \<Rightarrow> FakeTenants \<Rightarrow> DeleteOptions \<Rightarrow> ListOptions \<Rightarrow> (tenant, 'w) Fake
   \<Rightarrow> error outcome \<times> (tenant, 'w) Fake" where
  "FakeTenants_DeleteCollection sp c opts listOpts f =
     (case NewDeleteCollectionAction sp tenantsResource (ft_ns c) listOpts of
        Panic msg \<Rightarrow> (Panic msg, f)
      | Return action \<Rightarrow> as_error (Invokes action (ListObject zero_ListMeta None) f))"

definition FakeTenants_Patch ::
  "FakeTenants \<Rightarrow> string \<Rightarrow> patch_type \<Rightarrow> string \<Rightarrow> PatchOptions \<Rightarrow> string list
   \<Rightarrow> (tenant, (tenant, 'w) Fake) client_call" where
  "FakeTenants_Patch c name pt data opts subresources f =
     as_object (Invokes (NewPatchSubresourceAction tenantsResource (ft_ns c) name pt data subresources)
       (ItemObject zero_tenant) f)"

text \<open>\<open>fake_tenant_client.go\<close> and \<open>fake/clientset_generated.go\<close>\<close>

definition FakeTenancy_Tenants :: "string \<Rightarrow> FakeTenants" where
  "FakeTenancy_Tenants namespace = \<lparr>ft_ns = namespace\<rparr>"

definition FakeTenants_interface ::
  "selector_parsers \<Rightarrow> FakeTenants \<Rightarrow> (nat, (tenant, 'w) Fake) TenantInterface" where
  "FakeTenants_interface sp c = \<lparr>if_Create = FakeTenants_Create c, if_Update = FakeTenants_Update c,
     if_UpdateStatus = FakeTenants_UpdateStatus c, if_Delete = FakeTenants_Delete c,
     if_DeleteCollection = FakeTenants_DeleteCollection sp c, if_Get = FakeTenants_Get c,
     if_List = FakeTenants_List sp c,
     if_Watch = FakeTenants_Watch sp c, if_Patch = FakeTenants_Patch c\<rparr>"

definition ft_NewSimpleClientset ::
  "tenant patcher \<Rightarrow> tenant rt_object list \<Rightarrow> (tenant, tenant tracker) Fake outcome" where
  "ft_NewSimpleClientset patcher objects =
     (case tenant_fake_scheme of
        Panic msg \<Rightarrow> Panic msg
      | Return scheme \<Rightarrow>
          (case add_all scheme tn_accessor (tenant_type ''Tenant'') objects newTracker of
             Panic msg \<Rightarrow> Panic msg
           | Return tr \<Rightarrow> Return (AddWatchReactor ''*'' (tracker_watch_reaction tn_accessor)
               (AddReactor ''*'' ''*'' (ObjectReaction scheme tn_accessor patcher) (new_fake tr)))))"

section \<open>Fake ProviderConfigs\<close>

text \<open>\<open>typed/providerconfig/v1_kubernetes_apis/fake/fake_providerconfig.go\<close>\<close>

definition providerconfigsResource :: GroupVersionResource where
  "providerconfigsResource = WithResource pc_SchemeGroupVersion ''providerconfigs''"

definition providerconfigsKind :: gvk where
  "providerconfigsKind = WithKind pc_SchemeGroupVersion ''ProviderConfig''"

record FakeProviderConfigs =
  fp_ns :: string

definition FakeProviderConfigs_Get ::
  "FakeProviderConfigs \<Rightarrow> string \<Rightarrow> GetOptions \<Rightarrow> (provider_config, (provider_config, 'w) Fake) client_call" where
  "FakeProviderConfigs_Get c name options f =
     as_object (Invokes (NewGetAction providerconfigsResource (fp_ns c) name) (ItemObject zero_provider_config) f)"

definition FakeProviderConfigs_List ::
  "selector_parsers \<Rightarrow> FakeProviderConfigs \<Rightarrow> ListOptions \<Rightarrow> (provider_config_list, (provider_config, 'w) Fake) client_call" where
  "FakeProviderConfigs_List sp c opts f =
     list_and_filter sp pc_labels make_provider_config_list
       (NewListAction sp providerconfigsResource providerconfigsKind (fp_ns c) opts) opts f"

definition FakeProviderConfigs_Watch ::
  "selector_parsers \<Rightarrow> FakeProviderConfigs \<Rightarrow> ListOptions \<Rightarrow> (nat, (provider_config, 'w) Fake) client_call" where
  "FakeProviderConfigs_Watch sp c opts f = invoke_watch (NewWatchAction sp providerconfigsResource (fp_ns c) opts) f"

definition FakeProviderConfigs_Create ::
  "FakeProviderConfigs \<Rightarrow> provider_config \<Rightarrow> CreateOptions \<Rightarrow> (provider_config, (provider_config, 'w) Fake) client_call" where
  "FakeProviderConfigs_Create c ob opts f =
     as_object (Invokes (NewCreateAction providerconfigsResource (fp_ns c) ob) (ItemObject zero_provider_config) f)"

definition FakeProviderConfigs_Update ::
  "FakeProviderConfigs \<Rightarrow> provider_config \<Rightarrow> UpdateOptions \<Rightarrow> (provider_config, (provider_config, 'w) Fake) client_call" where
  "FakeProviderConfigs_Update c ob opts f =
     as_object (Invokes (NewUpdateAction providerconfigsResource (fp_ns c) ob) (ItemObject zero_provider_config) f)"

definition FakeProviderConfigs_UpdateStatus ::
  "FakeProviderConfigs \<Rightarrow> provider_config \<Rightarrow> UpdateOptions \<Rightarrow> (provider_config, (provider_config, 'w) Fake) client_call" where
  "FakeProviderConfigs_UpdateStatus c ob opts f =
     as_object (Invokes (NewUpdateSubresourceAction providerconfigsResource ''status'' (fp_ns c) ob)
       (ItemObject zero_provider_config) f)"

definition FakeProviderConfigs_Delete ::
  "FakeProviderConfigs \<Rightarrow> string \<Rightarrow> DeleteOptions \<Rightarrow> (provider_config, 'w) Fake \<Rightarrow> error outcome \<times> (provider_config, 'w) Fake" where
  "FakeProviderConfigs_Delete c name opts f =
     as_error (Invokes (NewDeleteAction providerconfigsResource (fp_ns c) name) (ItemObject zero_provider_config) f)"

definition FakeProviderConfigs_DeleteCollection ::
  "selector_parsers \<Rightarrow> FakeProviderConfigs \<Rightarrow> DeleteOptions \<Rightarrow> ListOptions \<Rightarrow> (provider_config, 'w) Fake
   \<Rightarrow> error outcome \<times> (provider_config, 'w) Fake" where
  "FakeProviderConfigs_DeleteCollection sp c opts listOpts f =
     (case NewDeleteCollectionAction sp providerconfigsResource (fp_ns c) listOpts of
        Panic msg \<Rightarrow> (Panic msg, f)
      | Return action \<Rightarrow> as_error (Invokes action (ListObject zero_ListMeta None) f))"

definition FakeProviderConfigs_Patch ::
  "FakeProviderConfigs \<Rightarrow> string \<Rightarrow> patch_type \<Rightarrow> string \<Rightarrow> PatchOptions \<Rightarrow> string list
   \<Rightarrow> (provider_config, (provider_config, 'w) Fake) client_call" where
  "FakeProviderConfigs_Patch c name pt data opts subresources f =
     as_object (Invokes (NewPatchSubresourceAction providerconfigsResource (fp_ns c) name pt data subresources)
       (ItemObject zero_provider_config) f)"

text \<open>\<open>fake_providerconfig_client.go\<close> and \<open>fake/clientset_generated.go\<close>\<close>

definition FakeCloud_ProviderConfigs :: "string \<Rightarrow> FakeProviderConfigs" where
  "FakeCloud_ProviderConfigs namespace = \<lparr>fp_ns = namespace\<rparr>"

definition FakeProviderConfigs_interface ::
  "selector_parsers \<Rightarrow> FakeProviderConfigs \<Rightarrow> (nat, (provider_config, 'w) Fake) ProviderConfigInterface" where
  "FakeProviderConfigs_interface sp c = \<lparr>if_Create = FakeProviderConfigs_Create c, if_Update = FakeProviderConfigs_Update c,
     if_UpdateStatus = FakeProviderConfigs_UpdateStatus c, if_Delete = FakeProviderConfigs_Delete c,
     if_DeleteCollection = FakeProviderConfigs_DeleteCollection sp c, if_Get = FakeProviderConfigs_Get c,
     if_List = FakeProviderConfigs_List sp c,
     if_Watch = FakeProviderConfigs_Watch sp c, if_Patch = FakeProviderConfigs_Patch c\<rparr>"

definition fp_NewSimpleClientset ::
  "provider_config patcher \<Rightarrow> provider_config rt_object list \<Rightarrow> (provider_config, provider_config tracker) Fake outcome" where
  "fp_NewSimpleClientset patcher objects =
     (case pc_fake_scheme of
        Panic msg \<Rightarrow> Panic msg
      | Return scheme \<Rightarrow>
          (case add_all scheme pc_accessor (pc_type ''ProviderConfig'') objects newTracker of
             Panic msg \<Rightarrow> Panic msg
           | Return tr \<Rightarrow> Return (AddWatchReactor ''*'' (tracker_watch_reaction pc_accessor)
               (AddReactor ''*'' ''*'' (ObjectReaction scheme pc_accessor patcher) (new_fake tr)))))"

text \<open>The accessors of the two clientsets.\<close>

definition ft_Tracker :: "(tenant, tenant tracker) Fake \<Rightarrow> tenant tracker" where
  "ft_Tracker c = fk_world c"

definition fp_Tracker :: "(provider_config, provider_config tracker) Fake \<Rightarrow> provider_config tracker" where
  "fp_Tracker c = fk_world c"

end
