(* ===== verification/FakeStore.thy ===== *)
theory FakeStore imports FakeClients begin

text \<open>
  The fake clients are maps: over a clientset made by \<open>NewSimpleClientset\<close>, every call answers as
  the specification of \<open>ClientApi\<close> does, whatever was called before, and tells the watchers of its
  namespace what it changed; when one of these has no room left, it panics. What the clients do not do
  is deletion by selector.
\<close>

section \<open>One call through the object reaction\<close>

definition list_kind_known :: "Scheme \<Rightarrow> gvk \<Rightarrow> bool" where
  "list_kind_known sch k \<longleftrightarrow> gvk_version k \<noteq> []
     \<and> (\<exists>ty. gvkToType sch (k\<lparr>gvk_kind := gvk_kind k @ ''List''\<rparr>) = Some ty \<and> IsListType ty)"

text \<open>A fake that has only the tracker's reactors.\<close>

definition fake_ok :: "Scheme \<Rightarrow> 'o accessor \<Rightarrow> 'o patcher \<Rightarrow> ('o, 'o tracker) Fake \<Rightarrow> bool" where
  "fake_ok sch acc patcher f \<longleftrightarrow> tracker_ok acc (fk_world f)
     \<and> fk_ReactionChain f = [\<lparr>re_Verb = ''*'', re_Resource = ''*'', re_Reaction = ObjectReaction sch acc patcher\<rparr>]
     \<and> fk_WatchReactionChain f = [\<lparr>wre_Resource = ''*'', wre_Reaction = tracker_watch_reaction acc\<rparr>]"

definition fake_content :: "GroupVersionResource \<Rightarrow> ('o, 'o tracker) Fake \<Rightarrow> 'o content" where
  "fake_content res f = stored (fk_world f) res"

lemma Invokes_reaction:
  assumes "fake_ok sch acc patcher f" "ObjectReaction sch acc patcher a (fk_world f) = (Return (h, ret, err), t)"
  shows "Invokes a d f = (Return (if h then (ret, err) else (Some d, None)),
    f\<lparr>fk_actions := fk_actions f @ [a], fk_world := t\<rparr>)"
  using assms by (simp add: Invokes_def fake_ok_def reactor_Handles_def resourceCovers_def)

lemma Invokes_panics:
  assumes "fake_ok sch acc patcher f" "ObjectReaction sch acc patcher a (fk_world f) = (Panic msg, t)"
  shows "Invokes a d f = (Panic msg, f\<lparr>fk_actions := fk_actions f @ [a], fk_world := t\<rparr>)"
  using assms by (simp add: Invokes_def fake_ok_def reactor_Handles_def resourceCovers_def)

lemma fake_ok_step:
  assumes "fake_ok sch acc patcher f" "tracker_ok acc t"
  shows "fake_ok sch acc patcher (f\<lparr>fk_actions := as, fk_world := t\<rparr>)"
  using assms by (simp add: fake_ok_def)

lemma fake_content_step: "fake_content res (f\<lparr>fk_actions := as, fk_world := t\<rparr>) = stored t res"
  by (simp add: fake_content_def)

text \<open>
  \<open>stepped\<close>: a call answered as the specification, or panicked because a watcher is full, left the fake
  as the specification says and told the watchers.
\<close>

definition stepped ::
  "Scheme \<Rightarrow> 'o accessor \<Rightarrow> 'o patcher \<Rightarrow> GroupVersionResource \<Rightarrow> string \<Rightarrow> 'o watch_event option
   \<Rightarrow> ('o, 'o tracker) Fake \<Rightarrow> 'o answer \<times> ('o, 'o tracker) Fake \<Rightarrow> 'o answer \<times> 'o content \<Rightarrow> bool" where
  "stepped sch acc patcher res ns ev f r sp \<longleftrightarrow>
     fst r = (if overflows (fk_world f) res ns ev then PanicAnswer ''channel full'' else fst sp)
     \<and> fake_ok sch acc patcher (snd r) \<and> fake_content res (snd r) = snd sp
     \<and> told res ns ev (fk_world f) (fk_world (snd r))"

lemma stepped_get:
  assumes "fake_ok sch acc patcher f"
  shows "stepped sch acc patcher res ns (spec_event patcher acc ns (Get_call name opts) (fake_content res f)) f
    (answer_of ObjectAnswer (as_object (Invokes (NewGetAction res ns name) d f)))
    (spec_call patcher sp res acc labels ns (Get_call name opts) (fake_content res f))"
proof -
  let ?a = "NewGetAction res ns name" and ?t = "fk_world f"
  have ok: "tracker_ok acc ?t" using assms by (simp add: fake_ok_def)
  have "ObjectReaction sch acc patcher ?a ?t = (Return (True,
      map_option ItemObject (stored ?t res (ns, name)),
      if stored ?t res (ns, name) = None then Some (NewNotFound res name) else None), ?t)"
    by (cases "stored ?t res (ns, name)")
       (simp_all add: ObjectReaction_def NewGetAction_def handled_object_def tracker_Get_spec)
  from Invokes_reaction [OF assms this] show ?thesis
    using ok assms
    by (cases "stored ?t res (ns, name)")
       (simp_all add: stepped_def fake_content_def as_object_def answer_of_def spec_call_def spec_event_def fake_ok_def)
qed

text \<open>What a write stores and answers, before the clients turn it into their result.\<close>

lemma reactor_write:
  assumes "accessor_ok acc" "tracker_ok acc t"
  obtains t' where
    "(if replace then reactor_Update else reactor_Create) acc t res ns ob =
       (if overflows t res ns (write_event acc ns replace ob (stored t res)) then Panic ''channel full''
        else Return (case fst (spec_write res acc ns replace ob (stored t res)) of
          ObjectAnswer (Some x) _ \<Rightarrow> Inr x | ObjectAnswer None (Some e) \<Rightarrow> Inl e), t')"
    "tracker_ok acc t'" "stored t' res = snd (spec_write res acc ns replace ob (stored t res))"
    "told res ns (write_event acc ns replace ob (stored t res)) t t'"
proof -
  let ?ev = "write_event acc ns replace ob (stored t res)"
  obtain t' where t': "tracker_add acc t res ob ns replace =
       (if overflows t res ns ?ev then Panic ''channel full''
        else Return (if \<not> fits acc ns ob then Some (mismatch acc ns ob)
        else if (stored t res (ns, acc_name acc ob) = None) = replace
        then Some ((if replace then NewNotFound else NewAlreadyExists) res (acc_name acc ob))
        else None), t')"
    "tracker_ok acc t'"
    "\<forall>r. stored t' r = (if r = res \<and> fits acc ns ob
          \<and> (stored t res (ns, acc_name acc ob) = None) \<noteq> replace
        then (stored t res)((ns, acc_name acc ob) \<mapsto> placed acc ns ob) else stored t r)"
    "told res ns ?ev t t'"
    by (rule tracker_add_spec [OF assms, where gvr = res and ob = ob and ns = ns and replace = replace])
  have "stored t' res = snd (spec_write res acc ns replace ob (stored t res))"
    using t'(3) by (auto simp: spec_write_def Let_def)
  moreover have "(if replace then reactor_Update else reactor_Create) acc t res ns ob =
       (if overflows t res ns ?ev then Panic ''channel full''
        else Return (case fst (spec_write res acc ns replace ob (stored t res)) of
          ObjectAnswer (Some x) _ \<Rightarrow> Inr x | ObjectAnswer None (Some e) \<Rightarrow> Inl e), t')"
    using t'(1) t'(3)
    by (auto simp: spec_write_def Let_def reactor_Update_def reactor_Create_def after_write_def tracker_Get_spec)
  ultimately show thesis using that t'(2,4) by blast
qed

lemma spec_write_answers:
  "\<exists>x e. fst (spec_write res acc ns replace ob st) = ObjectAnswer x e \<and> (x = None) = (e \<noteq> None)"
  by (simp add: spec_write_def Let_def)

lemma stepped_write:
  assumes "accessor_ok acc" "fake_ok sch acc patcher f"
    and "act_Resource a = res" "act_Namespace a = ns"
    and "act_impl a = UpdateActionImpl ob \<and> replace \<or> act_impl a = CreateActionImpl ob \<and> act_Subresource a = [] \<and> \<not> replace"
  shows "stepped sch acc patcher res ns (write_event acc ns replace ob (fake_content res f)) f
    (answer_of ObjectAnswer (as_object (Invokes a d f))) (spec_write res acc ns replace ob (fake_content res f))"
proof -
  let ?t = "fk_world f"
  let ?ev = "write_event acc ns replace ob (stored ?t res)"
  have ok: "tracker_ok acc ?t" using assms(2) by (simp add: fake_ok_def)
  obtain t' where t': "(if replace then reactor_Update else reactor_Create) acc ?t res ns ob =
       (if overflows ?t res ns ?ev then Panic ''channel full''
        else Return (case fst (spec_write res acc ns replace ob (stored ?t res)) of
          ObjectAnswer (Some x) _ \<Rightarrow> Inr x | ObjectAnswer None (Some e) \<Rightarrow> Inl e), t')"
    "tracker_ok acc t'" "stored t' res = snd (spec_write res acc ns replace ob (stored ?t res))"
    "told res ns ?ev ?t t'"
    by (rule reactor_write [OF assms(1) ok])
  obtain x e where xe: "fst (spec_write res acc ns replace ob (stored ?t res)) = ObjectAnswer x e" "(x = None) = (e \<noteq> None)"
    using spec_write_answers [of res acc ns replace ob "stored ?t res"] by (elim exE conjE) (rule that)
  have react: "ObjectReaction sch acc patcher a ?t = (if overflows ?t res ns ?ev then Panic ''channel full''
      else Return (True, map_option ItemObject x, e), t')"
    using assms(5)
  proof
    assume "act_impl a = UpdateActionImpl ob \<and> replace"
    with t'(1) xe assms(3,4) show ?thesis
      by (cases x; cases e) (simp_all add: ObjectReaction_def handled_write_def handled_object_def)
  next
    assume "act_impl a = CreateActionImpl ob \<and> act_Subresource a = [] \<and> \<not> replace"
    with t'(1) xe assms(3,4) show ?thesis
      by (cases x; cases e) (simp_all add: ObjectReaction_def react_Create_def handled_write_def handled_object_def)
  qed
  show ?thesis
  proof (cases "overflows ?t res ns ?ev")
    case True
    with react have "ObjectReaction sch acc patcher a ?t = (Panic ''channel full'', t')" by simp
    from Invokes_panics [OF assms(2) this] show ?thesis
      using True t'(2-4) assms(2)
      by (simp add: stepped_def as_object_def answer_of_def fake_ok_step fake_content_def)
  next
    case False
    with react have "ObjectReaction sch acc patcher a ?t = (Return (True, map_option ItemObject x, e), t')" by simp
    from Invokes_reaction [OF assms(2) this] show ?thesis
      using False xe t'(2-4) assms(2)
      by (cases x) (auto simp: stepped_def as_object_def answer_of_def fake_ok_step fake_content_def)
  qed
qed

lemma stepped_delete:
  assumes "fake_ok sch acc patcher f"
  shows "stepped sch acc patcher res ns (spec_event patcher acc ns (Delete_call name opts) (fake_content res f)) f
    (case as_error (Invokes (NewDeleteAction res ns name) d f) of
       (Panic msg, s) \<Rightarrow> (PanicAnswer msg, s) | (Return err, s) \<Rightarrow> (ErrorAnswer err, s))
    (spec_call patcher sp res acc labels ns (Delete_call name opts) (fake_content res f))"
proof -
  let ?a = "NewDeleteAction res ns name" and ?t = "fk_world f"
  let ?ev = "map_option Deleted_event (stored ?t res (ns, name))"
  have ok: "tracker_ok acc ?t" using assms by (simp add: fake_ok_def)
  obtain t' where t': "tracker_Delete ?t res ns name =
      (if overflows ?t res ns ?ev then Panic ''channel full''
       else Return (if stored ?t res (ns, name) = None then Some (NewNotFound res name) else None), t')"
    "tracker_ok acc t'" "\<forall>r. stored t' r = (if r = res then (stored ?t res)((ns, name) := None) else stored ?t r)"
    "told res ns ?ev ?t t'"
    by (rule tracker_Delete_spec [OF ok, where gvr = res and ns = ns and name = name])
  have react: "ObjectReaction sch acc patcher ?a ?t = (if overflows ?t res ns ?ev then Panic ''channel full''
      else Return (True, None, if stored ?t res (ns, name) = None then Some (NewNotFound res name) else None), t')"
    using t'(1) by (simp add: ObjectReaction_def NewDeleteAction_def)
  have ev: "spec_event patcher acc ns (Delete_call name opts) (fake_content res f) = ?ev"
    by (simp add: spec_event_def fake_content_def)
  show ?thesis
  proof (cases "overflows ?t res ns ?ev")
    case True
    with react have "ObjectReaction sch acc patcher ?a ?t = (Panic ''channel full'', t')" by simp
    from Invokes_panics [OF assms this] show ?thesis
      unfolding ev using True t'(2-4) assms
      by (auto simp: stepped_def as_error_def fun_upd_idem spec_call_def fake_ok_step fake_content_def)
  next
    case False
    with react have "ObjectReaction sch acc patcher ?a ?t =
        (Return (True, None, if stored ?t res (ns, name) = None then Some (NewNotFound res name) else None), t')" by simp
    from Invokes_reaction [OF assms this] show ?thesis
      unfolding ev using False t'(2-4) assms
      by (auto simp: stepped_def as_error_def fun_upd_idem spec_call_def fake_ok_step fake_content_def)
  qed
qed

lemma append_matching_elems:
  "elems (append_matching label labels xs list) = elems list @ filter (\<lambda>ob. sel_Matches label (labels ob)) xs"
  unfolding append_matching_def by (induction xs arbitrary: list) simp_all

lemma stepped_list:
  assumes "fake_ok sch acc patcher f" "list_kind_known sch k" "\<And>lm xs. objects (mk lm xs) = elems xs"
  shows "stepped sch acc patcher res ns (spec_event patcher acc ns (List_call opts) (fake_content res f)) f
    (answer_of (\<lambda>l err. ListAnswer (map_option objects l) err)
       (list_and_filter sp labels mk (NewListAction sp res k ns opts) opts f))
    (spec_call patcher sp res acc labels ns (List_call opts) (fake_content res f))"
proof (cases "ExtractFromListOptions sp opts")
  case (Panic msg)
  then show ?thesis
    using assms(1)
    by (simp add: stepped_def list_and_filter_def NewListAction_def answer_of_def spec_call_def spec_event_def)
next
  case (Return sel)
  let ?t = "fk_world f"
  let ?a = "\<lparr>act_Namespace = ns, act_Verb = ''list'', act_Resource = res, act_Subresource = [],
           act_impl = ListActionImpl k sel\<rparr>"
  have ok: "tracker_ok acc ?t" using assms(1) by (simp add: fake_ok_def)
  have kk: "\<lparr>gvk_group = gvk_group k, gvk_version = gvk_version k, gvk_kind = gvk_kind k @ ''List''\<rparr>
      = k\<lparr>gvk_kind := gvk_kind k @ ''List''\<rparr>" by (cases k) simp
  obtain lm where "tracker_List sch acc ?t res k ns = Inr (ListObject lm (Some (listing (stored ?t res) ns)))"
    using assms(2) filterByNamespace_listing [OF ok, of res ns]
    by (auto simp: tracker_List_def list_kind_known_def scheme_New_def kk Let_def)
  then have "ObjectReaction sch acc patcher ?a ?t =
      (Return (True, Some (ListObject lm (Some (listing (stored ?t res) ns))), None), ?t)"
    by (simp add: ObjectReaction_def)
  from Invokes_reaction [OF assms(1) this] show ?thesis
    using Return ok assms(1,3)
    by (simp add: stepped_def list_and_filter_def NewListAction_def answer_of_def spec_call_def spec_event_def fake_ok_step
        fake_content_def append_matching_elems fake_ok_def)
qed

lemma stepped_delete_collection:
  assumes "fake_ok sch acc patcher f"
  shows "stepped sch acc patcher res ns (spec_event patcher acc ns (DeleteCollection_call opts listOpts) (fake_content res f)) f
    (case (case NewDeleteCollectionAction sp res ns listOpts of
         Panic msg \<Rightarrow> (Panic msg, f) | Return action \<Rightarrow> as_error (Invokes action (ListObject zero_ListMeta None) f)) of
       (Panic msg, s) \<Rightarrow> (PanicAnswer msg, s) | (Return err, s) \<Rightarrow> (ErrorAnswer err, s))
    (spec_call patcher sp res acc labels ns (DeleteCollection_call opts listOpts) (fake_content res f))"
  using assms
  by (cases "ExtractFromListOptions sp listOpts")
     (simp_all add: stepped_def NewDeleteCollectionAction_def spec_call_def spec_event_def Invokes_def fake_ok_def
        reactor_Handles_def resourceCovers_def ObjectReaction_def as_error_def fake_content_def)

text \<open>A patch of a stored object writes the patched one.\<close>

lemma reactor_patched:
  assumes "accessor_ok acc" "tracker_ok acc t" "stored t res (ns, name) = Some old"
    and "patch_of patcher pt data old = Inr ob" "unreadable patcher pt data = None"
  obtains t' where
    "(if pt = ApplyPatchType then reactor_Apply acc patcher t res ns name data
      else reactor_Patch acc patcher t res ns name pt data) =
       (if overflows t res ns (write_event acc ns True ob (stored t res)) then Panic ''channel full''
        else Return (case fst (spec_patch patcher res acc ns name pt data (stored t res)) of
          ObjectAnswer (Some x) _ \<Rightarrow> Inr x | ObjectAnswer None (Some e) \<Rightarrow> Inl e), t')"
    "tracker_ok acc t'" "stored t' res = snd (spec_patch patcher res acc ns name pt data (stored t res))"
    "told res ns (write_event acc ns True ob (stored t res)) t t'"
proof (rule tracker_add_spec [OF assms(1,2), where gvr = res and ob = ob and ns = ns and replace = True])
  fix t'
  let ?ev = "write_event acc ns True ob (stored t res)"
  assume add: "tracker_add acc t res ob ns True =
       (if overflows t res ns ?ev then Panic ''channel full''
        else Return (if \<not> fits acc ns ob then Some (mismatch acc ns ob)
        else if (stored t res (ns, acc_name acc ob) = None) = True
        then Some ((if True then NewNotFound else NewAlreadyExists) res (acc_name acc ob))
        else None), t')"
    "tracker_ok acc t'"
    "\<forall>r. stored t' r = (if r = res \<and> fits acc ns ob \<and> (stored t res (ns, acc_name acc ob) = None) \<noteq> True
        then (stored t res)((ns, acc_name acc ob) \<mapsto> placed acc ns ob) else stored t r)"
    "told res ns ?ev t t'"
  have patched: "spec_patch patcher res acc ns name pt data (stored t res) =
      (if \<not> fits acc ns ob then (ObjectAnswer None (Some (mismatch acc ns ob)), stored t res)
       else if stored t res (ns, acc_name acc ob) = None
       then (ObjectAnswer None (Some (NewNotFound res (acc_name acc ob))), stored t res)
       else (ObjectAnswer (if pt = ApplyPatchType then stored t' res (ns, name) else Some ob) None, stored t' res))"
    using assms(3-5) add(3) by (auto simp: spec_patch_def spec_write_def Let_def)
  have there: "\<exists>x. stored t' res (ns, name) = Some x" using assms(3) add(3) by auto
  have "(if pt = ApplyPatchType then reactor_Apply acc patcher t res ns name data
      else reactor_Patch acc patcher t res ns name pt data) =
      after_write (tracker_add acc t res ob ns True)
        (\<lambda>t. if pt = ApplyPatchType then tracker_Get t res ns name else Inr ob)"
  proof -
    have get: "tracker_Get t res ns name = Inr old" using assms(3) by (simp add: tracker_Get_spec)
    show ?thesis using assms(4,5) by (cases "pt = ApplyPatchType") (simp_all add: reactor_Apply_def reactor_Patch_def get unreadable_def)
  qed
  then have "(if pt = ApplyPatchType then reactor_Apply acc patcher t res ns name data
      else reactor_Patch acc patcher t res ns name pt data) =
       (if overflows t res ns ?ev then Panic ''channel full''
        else Return (case fst (spec_patch patcher res acc ns name pt data (stored t res)) of
          ObjectAnswer (Some x) _ \<Rightarrow> Inr x | ObjectAnswer None (Some e) \<Rightarrow> Inl e), t')"
    unfolding add(1) patched using there by (auto simp: after_write_def tracker_Get_spec)
  moreover have "stored t' res = snd (spec_patch patcher res acc ns name pt data (stored t res))"
    unfolding patched using add(3) by auto
  ultimately show thesis using that add(2,4) by blast
qed

lemma spec_patch_answers:
  "\<exists>x e. fst (spec_patch patcher res acc ns name pt data st) = ObjectAnswer x e \<and> (x = None) = (e \<noteq> None)"
  by (auto simp: spec_patch_def spec_write_def Let_def split: option.splits sum.splits)

lemma stepped_patch:
  assumes "accessor_ok acc" "fake_ok sch acc patcher f"
  shows "stepped sch acc patcher res ns (spec_event patcher acc ns (Patch_call name pt data opts subs) (fake_content res f)) f
    (answer_of ObjectAnswer (as_object (Invokes (NewPatchSubresourceAction res ns name pt data subs) d f)))
    (spec_call patcher sp res acc labels ns (Patch_call name pt data opts subs) (fake_content res f))"
proof -
  let ?t = "fk_world f" and ?a = "NewPatchSubresourceAction res ns name pt data subs"
  let ?ev = "spec_event patcher acc ns (Patch_call name pt data opts subs) (stored ?t res)"
  let ?sp = "spec_patch patcher res acc ns name pt data (stored ?t res)"
  have ok: "tracker_ok acc ?t" using assms(2) by (simp add: fake_ok_def)
  obtain x e where xe: "fst ?sp = ObjectAnswer x e" "(x = None) = (e \<noteq> None)"
    using spec_patch_answers [of patcher res acc ns name pt data "stored ?t res"] by (elim exE conjE) (rule that)
  obtain t' where t': "(if pt = ApplyPatchType then reactor_Apply acc patcher ?t res ns name data
      else reactor_Patch acc patcher ?t res ns name pt data) =
       (if overflows ?t res ns ?ev then Panic ''channel full''
        else Return (case fst ?sp of ObjectAnswer (Some x) _ \<Rightarrow> Inr x | ObjectAnswer None (Some e) \<Rightarrow> Inl e), t')"
    "tracker_ok acc t'" "stored t' res = snd ?sp" "told res ns ?ev ?t t'"
  proof (cases "\<exists>old ob. unreadable patcher pt data = None \<and> stored ?t res (ns, name) = Some old
      \<and> patch_of patcher pt data old = Inr ob")
    case True
    then obtain old ob where old: "stored ?t res (ns, name) = Some old" "patch_of patcher pt data old = Inr ob"
        "unreadable patcher pt data = None" by blast
    then have ev: "?ev = write_event acc ns True ob (stored ?t res)" by (simp add: spec_event_def)
    show thesis by (rule reactor_patched [OF assms(1) ok old, folded ev]) (rule that)
  next
    case False
    then have "?ev = None" "snd ?sp = stored ?t res"
      by (auto simp: spec_event_def spec_patch_def split: option.splits sum.splits)
    moreover have "(if pt = ApplyPatchType then reactor_Apply acc patcher ?t res ns name data
      else reactor_Patch acc patcher ?t res ns name pt data)
      = (Return (case fst ?sp of ObjectAnswer (Some x) _ \<Rightarrow> Inr x | ObjectAnswer None (Some e) \<Rightarrow> Inl e), ?t)"
    proof (cases "unreadable patcher pt data")
      case None
      show ?thesis
      proof (cases "stored ?t res (ns, name)")
        case (Some old)
        with False None obtain err where "patch_of patcher pt data old = Inl err" by (cases "patch_of patcher pt data old") auto
        with None Some show ?thesis
          by (cases "pt = ApplyPatchType")
             (simp_all add: reactor_Apply_def reactor_Patch_def tracker_Get_spec unreadable_def spec_patch_def)
      next
        case missing: None
        with None show ?thesis
          by (cases "pt = ApplyPatchType")
             (simp_all add: reactor_Apply_def reactor_Patch_def tracker_Get_spec unreadable_def spec_patch_def)
      qed
    qed (simp add: reactor_Apply_def unreadable_def spec_patch_def split: if_splits)
    ultimately show thesis using ok by (intro that [of ?t]) simp_all
  qed
  have react: "ObjectReaction sch acc patcher ?a ?t = (if overflows ?t res ns ?ev then Panic ''channel full''
      else Return (True, map_option ItemObject x, e), t')"
    using t'(1) xe
    by (cases x; cases e) (simp_all add: ObjectReaction_def NewPatchSubresourceAction_def handled_write_def handled_object_def)
  show ?thesis
  proof (cases "overflows ?t res ns ?ev")
    case True
    with react have "ObjectReaction sch acc patcher ?a ?t = (Panic ''channel full'', t')" by simp
    from Invokes_panics [OF assms(2) this] show ?thesis
      using True t'(2-4) assms(2)
      by (simp add: stepped_def as_object_def answer_of_def fake_ok_step fake_content_def spec_call_def)
  next
    case False
    with react have "ObjectReaction sch acc patcher ?a ?t = (Return (True, map_option ItemObject x, e), t')" by simp
    from Invokes_reaction [OF assms(2) this] show ?thesis
      using False xe t'(2-4) assms(2)
      by (cases x) (auto simp: stepped_def as_object_def answer_of_def fake_ok_step fake_content_def spec_call_def)
  qed
qed

section \<open>The clientsets\<close>

text \<open>What the fake clientsets' schemes know.\<close>

lemma returned_with: "(case r of Panic m \<Rightarrow> None | Return s \<Rightarrow> Some (F s)) = Some v \<Longrightarrow> \<exists>s. r = Return s \<and> F s = v"
  by (cases r) simp_all

lemma tenant_fake_scheme_built:
  "\<exists>sch. tenant_fake_scheme = Return sch \<and> typeToGVK sch (tenant_type ''Tenant'') = [tenantsKind]
     \<and> list_kind_known sch tenantsKind"
proof -
  have "(case tenant_fake_scheme of Panic m \<Rightarrow> None | Return s \<Rightarrow> Some (typeToGVK s (tenant_type ''Tenant''),
      gvkToType s (tenantsKind\<lparr>gvk_kind := gvk_kind tenantsKind @ ''List''\<rparr>))) =
    Some ([tenantsKind], Some (tenant_type ''TenantList''))"
    by code_simp
  then obtain sch where "tenant_fake_scheme = Return sch" "typeToGVK sch (tenant_type ''Tenant'') = [tenantsKind]"
      "gvkToType sch (tenantsKind\<lparr>gvk_kind := gvk_kind tenantsKind @ ''List''\<rparr>) = Some (tenant_type ''TenantList'')"
    by (auto dest!: returned_with)
  moreover have "gvk_version tenantsKind \<noteq> []" by (simp add: tenantsKind_def WithKind_def tenant_SchemeGroupVersion_def)
  ultimately show ?thesis by (auto simp: list_kind_known_def IsListType_def)
qed

lemma pc_fake_scheme_built:
  "\<exists>sch. pc_fake_scheme = Return sch \<and> typeToGVK sch (pc_type ''ProviderConfig'') = [providerconfigsKind]
     \<and> list_kind_known sch providerconfigsKind"
proof -
  have "(case pc_fake_scheme of Panic m \<Rightarrow> None | Return s \<Rightarrow> Some (typeToGVK s (pc_type ''ProviderConfig''),
      gvkToType s (providerconfigsKind\<lparr>gvk_kind := gvk_kind providerconfigsKind @ ''List''\<rparr>))) =
    Some ([providerconfigsKind], Some (pc_type ''ProviderConfigList''))"
    by code_simp
  then obtain sch where "pc_fake_scheme = Return sch" "typeToGVK sch (pc_type ''ProviderConfig'') = [providerconfigsKind]"
      "gvkToType sch (providerconfigsKind\<lparr>gvk_kind := gvk_kind providerconfigsKind @ ''List''\<rparr>) = Some (pc_type ''ProviderConfigList'')"
    by (auto dest!: returned_with)
  moreover have "gvk_version providerconfigsKind \<noteq> []" by (simp add: providerconfigsKind_def WithKind_def pc_SchemeGroupVersion_def)
  ultimately show ?thesis by (auto simp: list_kind_known_def IsListType_def)
qed

lemma guessed_resources:
  "UnsafeGuessKindToResource tenantsKind = tenantsResource"
  "UnsafeGuessKindToResource providerconfigsKind = providerconfigsResource"
  by code_simp+

definition tenants_ok :: "tenant patcher \<Rightarrow> (tenant, tenant tracker) Fake \<Rightarrow> bool" where
  "tenants_ok patcher f \<longleftrightarrow> (\<exists>sch. tenant_fake_scheme = Return sch \<and> list_kind_known sch tenantsKind
     \<and> fake_ok sch tn_accessor patcher f)"

definition provider_configs_ok :: "provider_config patcher \<Rightarrow> (provider_config, provider_config tracker) Fake \<Rightarrow> bool" where
  "provider_configs_ok patcher f \<longleftrightarrow> (\<exists>sch. pc_fake_scheme = Return sch \<and> list_kind_known sch providerconfigsKind
     \<and> fake_ok sch pc_accessor patcher f)"

lemmas FakeTenants_defs = FakeTenants_interface_def FakeTenants_Get_def FakeTenants_List_def FakeTenants_Create_def
  FakeTenants_Update_def FakeTenants_UpdateStatus_def FakeTenants_Delete_def FakeTenants_DeleteCollection_def
  FakeTenants_Patch_def

lemmas FakeProviderConfigs_defs = FakeProviderConfigs_interface_def FakeProviderConfigs_Get_def
  FakeProviderConfigs_List_def FakeProviderConfigs_Create_def FakeProviderConfigs_Update_def
  FakeProviderConfigs_UpdateStatus_def FakeProviderConfigs_Delete_def FakeProviderConfigs_DeleteCollection_def
  FakeProviderConfigs_Patch_def

lemmas write_actions = NewCreateAction_def NewUpdateAction_def NewUpdateSubresourceAction_def

text \<open>The calls that write, for both packages.\<close>

lemma stepped_writes:
  assumes "accessor_ok acc" "fake_ok sch acc patcher f"
  shows "stepped sch acc patcher res ns (spec_event patcher acc ns (Create_call ob copts) (fake_content res f)) f
      (answer_of ObjectAnswer (as_object (Invokes (NewCreateAction res ns ob) d f)))
      (spec_call patcher sp res acc labels ns (Create_call ob copts) (fake_content res f))"
    and "stepped sch acc patcher res ns (spec_event patcher acc ns (Update_call ob uopts) (fake_content res f)) f
      (answer_of ObjectAnswer (as_object (Invokes (NewUpdateAction res ns ob) d f)))
      (spec_call patcher sp res acc labels ns (Update_call ob uopts) (fake_content res f))"
    and "stepped sch acc patcher res ns (spec_event patcher acc ns (UpdateStatus_call ob uopts) (fake_content res f)) f
      (answer_of ObjectAnswer (as_object (Invokes (NewUpdateSubresourceAction res sub ns ob) d f)))
      (spec_call patcher sp res acc labels ns (UpdateStatus_call ob uopts) (fake_content res f))"
  using stepped_write [OF assms, where a = "NewCreateAction res ns ob" and res = res and ns = ns and ob = ob and replace = False and d = d]
    stepped_write [OF assms, where a = "NewUpdateAction res ns ob" and res = res and ns = ns and ob = ob and replace = True and d = d]
    stepped_write [OF assms, where a = "NewUpdateSubresourceAction res sub ns ob" and res = res and ns = ns and ob = ob and replace = True and d = d]
  by (simp_all add: write_actions spec_call_def spec_event_def)

text \<open>Every call of the two clients.\<close>

lemma stepped_tenants:
  assumes "fake_ok sch tn_accessor patcher f" "list_kind_known sch tenantsKind"
  shows "stepped sch tn_accessor patcher tenantsResource (ft_ns c)
    (spec_event patcher tn_accessor (ft_ns c) call (fake_content tenantsResource f)) f
    (do_call (\<lambda>l. elems (tnl_Items l)) (FakeTenants_interface sp c) call f)
    (spec_call patcher sp tenantsResource tn_accessor tn_labels (ft_ns c) call (fake_content tenantsResource f))"
proof -
  note * = stepped_get [OF assms(1)] stepped_writes [OF typed_accessors_ok(1) assms(1)] stepped_delete [OF assms(1)]
    stepped_delete_collection [OF assms(1)] stepped_patch [OF typed_accessors_ok(1) assms(1)]
    stepped_list [OF assms, of "\<lambda>l. elems (tnl_Items l)" make_tenant_list]
  show ?thesis by (cases call) (simp_all add: do_call_def FakeTenants_defs * make_tenant_list_def)
qed

lemma stepped_provider_configs:
  assumes "fake_ok sch pc_accessor patcher f" "list_kind_known sch providerconfigsKind"
  shows "stepped sch pc_accessor patcher providerconfigsResource (fp_ns c)
    (spec_event patcher pc_accessor (fp_ns c) call (fake_content providerconfigsResource f)) f
    (do_call (\<lambda>l. elems (pcl_Items l)) (FakeProviderConfigs_interface sp c) call f)
    (spec_call patcher sp providerconfigsResource pc_accessor pc_labels (fp_ns c) call (fake_content providerconfigsResource f))"
proof -
  note * = stepped_get [OF assms(1)] stepped_writes [OF typed_accessors_ok(2) assms(1)] stepped_delete [OF assms(1)]
    stepped_delete_collection [OF assms(1)] stepped_patch [OF typed_accessors_ok(2) assms(1)]
    stepped_list [OF assms, of "\<lambda>l. elems (pcl_Items l)" make_provider_config_list]
  show ?thesis by (cases call) (simp_all add: do_call_def FakeProviderConfigs_defs * make_provider_config_list_def)
qed

section \<open>Clients with watchers\<close>

text \<open>A new watcher of a resource in a namespace, and what is done to one watcher.\<close>

definition watched :: "GroupVersionResource \<Rightarrow> string \<Rightarrow> 'o tracker \<Rightarrow> 'o tracker" where
  "watched gvr ns t = t\<lparr>tr_chans := tr_chans t @ [NewRaceFreeFake],
     tr_watchers := (tr_watchers t)(gvr := (tr_watchers t gvr)(ns := tr_watchers t gvr ns @ [length (tr_chans t)]))\<rparr>"

definition set_watcher :: "nat \<Rightarrow> 'o fake_watcher \<Rightarrow> ('o, 'o tracker) Fake \<Rightarrow> ('o, 'o tracker) Fake" where
  "set_watcher r w f = f\<lparr>fk_world := (fk_world f)\<lparr>tr_chans := (tr_chans (fk_world f))[r := w]\<rparr>\<rparr>"

lemma watched_ok:
  assumes "tracker_ok acc t"
  shows "tracker_ok acc (watched gvr ns t)"
proof -
  have new: "length (tr_chans t) \<notin> set (tr_watchers t g n)" for g n
    using assms unfolding tracker_ok_def watchers_ok_def by blast
  have old: "distinct (tr_watchers t g n)" "r \<in> set (tr_watchers t g n) \<Longrightarrow> r < Suc (length (tr_chans t))"
      "r \<in> set (tr_watchers t g n) \<Longrightarrow> r \<in> set (tr_watchers t g' n') \<Longrightarrow> g = g' \<and> n = n'" for r g n g' n'
    using assms unfolding tracker_ok_def watchers_ok_def by (blast intro: less_SucI)+
  have "watchers_ok (watched gvr ns t)"
    unfolding watchers_ok_def watched_def
  proof (intro conjI allI impI)
    fix g n
    show "distinct (tr_watchers (t\<lparr>tr_chans := tr_chans t @ [NewRaceFreeFake], tr_watchers := (tr_watchers t)
        (gvr := (tr_watchers t gvr)(ns := tr_watchers t gvr ns @ [length (tr_chans t)]))\<rparr>) g n)"
      using old(1) new by simp
  qed (use old new in \<open>auto split: if_splits\<close>)
  then show ?thesis using assms by (simp add: tracker_ok_def watched_def)
qed

lemma set_watcher_simps [simp]:
  "tr_watchers (fk_world (set_watcher r w f)) = tr_watchers (fk_world f)"
  "tr_chans (fk_world (set_watcher r w f)) = (tr_chans (fk_world f))[r := w]"
  "fake_content res (set_watcher r w f) = fake_content res f"
  by (simp_all add: set_watcher_def fake_content_def stored_def [abs_def])

lemma set_watcher_ok: "fake_ok sch acc patcher f \<Longrightarrow> fake_ok sch acc patcher (set_watcher r w f)"
  by (simp add: fake_ok_def tracker_ok_def watchers_ok_def set_watcher_def)

lemma watched_simps [simp]:
  "tr_chans (watched gvr ns t) = tr_chans t @ [NewRaceFreeFake]"
  "stored (watched gvr ns t) = stored t"
  "tr_watchers (watched gvr ns t) g n =
     (if g = gvr \<and> n = ns then tr_watchers t gvr ns @ [length (tr_chans t)] else tr_watchers t g n)"
  by (simp_all add: watched_def stored_def [abs_def])

lemma invoke_watch_ok:
  assumes "fake_ok sch acc patcher f"
  shows "invoke_watch (NewWatchAction sp res ns opts) f =
    (case ExtractFromListOptions sp opts of
       Panic msg \<Rightarrow> (Panic msg, f)
     | Return sel \<Rightarrow> (Return (Some (length (tr_chans (fk_world f))), None),
         f\<lparr>fk_actions := fk_actions f @ [\<lparr>act_Namespace = ns, act_Verb = ''watch'', act_Resource = res,
             act_Subresource = [], act_impl = WatchActionImpl sel (lo_ResourceVersion opts) opts\<rparr>],
           fk_world := watched res ns (fk_world f)\<rparr>))"
  using assms
  by (simp add: fake_ok_def invoke_watch_def NewWatchAction_def InvokesWatch_def watch_reactor_Handles_def
      resourceCovers_def tracker_watch_reaction_def tracker_Watch_def watched_def Let_def split: outcome.split)

text \<open>
  The contract of fake clients with watchers: calls answer as on a map unless a watcher is full, tell
  the watchers of their namespace, and a new watcher starts empty. The readers of a watcher do not
  disturb the clients.
\<close>

locale watched_client =
  fixes objects :: "'l \<Rightarrow> 'o list"
    and i :: "'c \<Rightarrow> ('o, 'l, nat, ('o, 'o tracker) Fake) ResourceInterface"
    and ok :: "('o, 'o tracker) Fake \<Rightarrow> bool"
    and patcher :: "'o patcher"
    and sp :: selector_parsers
    and res :: GroupVersionResource
    and acc :: "'o accessor"
    and labels :: "'o labels_of"
    and ns :: "'c \<Rightarrow> string"
  assumes acc: "accessor_ok acc"
    and ok_tracker: "ok f \<Longrightarrow> tracker_ok acc (fk_world f)"
    and call: "ok f \<Longrightarrow> \<exists>f'. do_call objects (i c) call f =
        (if overflows (fk_world f) res (ns c) (spec_event patcher acc (ns c) call (fake_content res f))
         then PanicAnswer ''channel full'' else fst (spec_call patcher sp res acc labels (ns c) call (fake_content res f)), f')
      \<and> ok f' \<and> fake_content res f' = snd (spec_call patcher sp res acc labels (ns c) call (fake_content res f))
      \<and> told res (ns c) (spec_event patcher acc (ns c) call (fake_content res f)) (fk_world f) (fk_world f')"
    and watch: "ok f \<Longrightarrow> ExtractFromListOptions sp opts = Return sel \<Longrightarrow>
      \<exists>f'. if_Watch (i c) opts f = (Return (Some (length (tr_chans (fk_world f))), None), f') \<and> ok f'
        \<and> fk_world f' = watched res (ns c) (fk_world f)"
    and watch_panics: "ok f \<Longrightarrow> ExtractFromListOptions sp opts = Panic msg \<Longrightarrow> if_Watch (i c) opts f = (Panic msg, f)"
    and reader: "ok f \<Longrightarrow> ok (set_watcher r w f)"

text \<open>Without watchers they are the clients of a map.\<close>

sublocale watched_client \<subseteq> map_client objects i "\<lambda>f. ok f \<and> unwatched (fk_world f)" "fake_content res"
    "\<lambda>c. spec_call patcher sp res acc labels (ns c)"
proof unfold_locales
  fix f c call
  assume f: "ok f \<and> unwatched (fk_world f)"
  then have "\<not> overflows (fk_world f) res (ns c) ev" for ev by (simp add: overflows_def unwatched_room)
  with f call [of f c call] show "\<exists>s'. do_call objects (i c) call f =
      (fst (spec_call patcher sp res acc labels (ns c) call (fake_content res f)), s') \<and> (ok s' \<and> unwatched (fk_world s'))
      \<and> fake_content res s' = snd (spec_call patcher sp res acc labels (ns c) call (fake_content res f))"
    by (auto simp: told_def unwatched_def)
qed

interpretation ft: watched_client "\<lambda>l. elems (tnl_Items l)" "FakeTenants_interface sp" "tenants_ok patcher" patcher sp
    tenantsResource tn_accessor tn_labels ft_ns for sp patcher
proof unfold_locales
  show "accessor_ok tn_accessor" by (rule typed_accessors_ok)
  fix f assume "tenants_ok patcher f"
  then obtain sch where sch: "tenant_fake_scheme = Return sch" "list_kind_known sch tenantsKind"
      and ok: "fake_ok sch tn_accessor patcher f" by (auto simp: tenants_ok_def)
  show "tracker_ok tn_accessor (fk_world f)" using ok by (simp add: fake_ok_def)
  fix c
  show "\<exists>f'. do_call (\<lambda>l. elems (tnl_Items l)) (FakeTenants_interface sp c) call f =
        (if overflows (fk_world f) tenantsResource (ft_ns c) (spec_event patcher tn_accessor (ft_ns c) call (fake_content tenantsResource f))
         then PanicAnswer ''channel full''
         else fst (spec_call patcher sp tenantsResource tn_accessor tn_labels (ft_ns c) call (fake_content tenantsResource f)), f')
      \<and> tenants_ok patcher f'
      \<and> fake_content tenantsResource f' = snd (spec_call patcher sp tenantsResource tn_accessor tn_labels (ft_ns c) call (fake_content tenantsResource f))
      \<and> told tenantsResource (ft_ns c) (spec_event patcher tn_accessor (ft_ns c) call (fake_content tenantsResource f)) (fk_world f) (fk_world f')"
    for call
    using stepped_tenants [OF ok sch(2), of c call sp] sch
    by (intro exI [of _ "snd (do_call (\<lambda>l. elems (tnl_Items l)) (FakeTenants_interface sp c) call f)"])
       (auto simp: stepped_def tenants_ok_def prod_eq_iff)
  show "\<exists>f'. if_Watch (FakeTenants_interface sp c) opts f = (Return (Some (length (tr_chans (fk_world f))), None), f')
      \<and> tenants_ok patcher f' \<and> fk_world f' = watched tenantsResource (ft_ns c) (fk_world f)"
    if "ExtractFromListOptions sp opts = Return sel" for opts sel
    using that sch fake_ok_step [OF ok watched_ok]
    by (auto simp: FakeTenants_interface_def FakeTenants_Watch_def invoke_watch_ok [OF ok] tenants_ok_def
        ok [unfolded fake_ok_def])
  show "if_Watch (FakeTenants_interface sp c) opts f = (Panic msg, f)" if "ExtractFromListOptions sp opts = Panic msg" for opts msg
    using that by (simp add: FakeTenants_interface_def FakeTenants_Watch_def invoke_watch_ok [OF ok])
  show "tenants_ok patcher (set_watcher r w f)" for r w using sch set_watcher_ok [OF ok] by (auto simp: tenants_ok_def)
qed

interpretation fp: watched_client "\<lambda>l. elems (pcl_Items l)" "FakeProviderConfigs_interface sp" "provider_configs_ok patcher" patcher sp
    providerconfigsResource pc_accessor pc_labels fp_ns for sp patcher
proof unfold_locales
  show "accessor_ok pc_accessor" by (rule typed_accessors_ok)
  fix f assume "provider_configs_ok patcher f"
  then obtain sch where sch: "pc_fake_scheme = Return sch" "list_kind_known sch providerconfigsKind"
      and ok: "fake_ok sch pc_accessor patcher f" by (auto simp: provider_configs_ok_def)
  show "tracker_ok pc_accessor (fk_world f)" using ok by (simp add: fake_ok_def)
  fix c
  show "\<exists>f'. do_call (\<lambda>l. elems (pcl_Items l)) (FakeProviderConfigs_interface sp c) call f =
        (if overflows (fk_world f) providerconfigsResource (fp_ns c) (spec_event patcher pc_accessor (fp_ns c) call (fake_content providerconfigsResource f))
         then PanicAnswer ''channel full''
         else fst (spec_call patcher sp providerconfigsResource pc_accessor pc_labels (fp_ns c) call (fake_content providerconfigsResource f)), f')
      \<and> provider_configs_ok patcher f'
      \<and> fake_content providerconfigsResource f' = snd (spec_call patcher sp providerconfigsResource pc_accessor pc_labels (fp_ns c) call (fake_content providerconfigsResource f))
      \<and> told providerconfigsResource (fp_ns c) (spec_event patcher pc_accessor (fp_ns c) call (fake_content providerconfigsResource f)) (fk_world f) (fk_world f')"
    for call
    using stepped_provider_configs [OF ok sch(2), of c call sp] sch
    by (intro exI [of _ "snd (do_call (\<lambda>l. elems (pcl_Items l)) (FakeProviderConfigs_interface sp c) call f)"])
       (auto simp: stepped_def provider_configs_ok_def prod_eq_iff)
  show "\<exists>f'. if_Watch (FakeProviderConfigs_interface sp c) opts f = (Return (Some (length (tr_chans (fk_world f))), None), f')
      \<and> provider_configs_ok patcher f' \<and> fk_world f' = watched providerconfigsResource (fp_ns c) (fk_world f)"
    if "ExtractFromListOptions sp opts = Return sel" for opts sel
    using that sch fake_ok_step [OF ok watched_ok]
    by (auto simp: FakeProviderConfigs_interface_def FakeProviderConfigs_Watch_def invoke_watch_ok [OF ok]
        provider_configs_ok_def ok [unfolded fake_ok_def])
  show "if_Watch (FakeProviderConfigs_interface sp c) opts f = (Panic msg, f)" if "ExtractFromListOptions sp opts = Panic msg" for opts msg
    using that by (simp add: FakeProviderConfigs_interface_def FakeProviderConfigs_Watch_def invoke_watch_ok [OF ok])
  show "provider_configs_ok patcher (set_watcher r w f)" for r w
    using sch set_watcher_ok [OF ok] by (auto simp: provider_configs_ok_def)
qed

section \<open>Presetting\<close>

definition object_key :: "'o accessor \<Rightarrow> 'o \<Rightarrow> string \<times> string" where
  "object_key acc ob = (acc_namespace acc ob, acc_name acc ob)"

definition keyed :: "'o accessor \<Rightarrow> 'o list \<Rightarrow> 'o content" where
  "keyed acc obs = map_of (map (\<lambda>ob. (object_key acc ob, ob)) obs)"

lemma add_all_items:
  assumes "accessor_ok acc" "typeToGVK sch ty = [k]" "UnsafeGuessKindToResource k = res"
    "gvr_version res \<noteq> APIVersionInternal"
    and "tracker_ok acc t" "unwatched t" "distinct (map (object_key acc) obs)"
    "\<forall>ob\<in>set obs. stored t res (object_key acc ob) = None"
  shows "\<exists>t'. add_all sch acc ty (map ItemObject obs) t = Return t' \<and> tracker_ok acc t' \<and> unwatched t'
    \<and> stored t' res = stored t res ++ keyed acc obs"
  using assms(5-8)
proof (induction obs arbitrary: t)
  case Nil
  then show ?case by (simp add: keyed_def)
next
  case (Cons ob obs)
  let ?ns = "acc_namespace acc ob"
  have fits: "fits acc ?ns ob" "placed acc ?ns ob = ob" and free: "stored t res (?ns, acc_name acc ob) = None"
    using assms(1) Cons.prems(4) unfolding accessor_ok_def
    by (simp_all add: fits_def placed_def object_key_def) metis
  have quiet: "\<not> overflows t res ?ns ev" for ev using Cons.prems(2) by (simp add: overflows_def unwatched_room)
  obtain t1 where t1: "tracker_add acc t res ob ?ns False = (Return None, t1)"
    "tracker_ok acc t1" "stored t1 res = (stored t res)(object_key acc ob \<mapsto> ob)" "unwatched t1"
  proof (rule tracker_add_spec [OF assms(1) Cons.prems(1), where gvr = res and ob = ob and ns = ?ns and replace = False])
    fix t1
    assume t1: "tracker_add acc t res ob ?ns False =
        (if overflows t res ?ns (write_event acc ?ns False ob (stored t res)) then Panic ''channel full''
         else Return (if \<not> fits acc ?ns ob then Some (mismatch acc ?ns ob)
          else if (stored t res (?ns, acc_name acc ob) = None) = False
          then Some ((if False then NewNotFound else NewAlreadyExists) res (acc_name acc ob)) else None), t1)"
      "tracker_ok acc t1"
      "\<forall>r. stored t1 r = (if r = res \<and> fits acc ?ns ob \<and> (stored t res (?ns, acc_name acc ob) = None) \<noteq> False
        then (stored t res)((?ns, acc_name acc ob) \<mapsto> placed acc ?ns ob) else stored t r)"
      "told res ?ns (write_event acc ?ns False ob (stored t res)) t t1"
    then show thesis
      using that [of t1] fits free quiet Cons.prems(2) by (simp add: object_key_def told_def unwatched_def)
  qed
  have add: "tracker_Add sch acc ty (ItemObject ob) t = (Return None, t1)"
    using t1(1) assms(2-4) by (simp add: tracker_Add_def add_item_def)
  have "\<forall>x\<in>set obs. stored t1 res (object_key acc x) = None"
    using Cons.prems(3,4) by (auto simp: t1(3) dest: sym intro: rev_image_eqI)
  from Cons.IH [OF t1(2,4) _ this] Cons.prems(3) obtain t2 where
      t2: "add_all sch acc ty (map ItemObject obs) t1 = Return t2" "tracker_ok acc t2" "unwatched t2"
      "stored t2 res = stored t1 res ++ keyed acc obs" by auto
  have "keyed acc obs (object_key acc ob) = None"
    using Cons.prems(3) by (auto simp: keyed_def map_of_eq_None_iff)
  then have "stored t2 res = stored t res ++ keyed acc (ob # obs)"
    by (simp add: t2(4) t1(3) keyed_def fun_eq_iff map_add_def split: option.split)
  with add t2(1-3) show ?case by auto
qed

lemma new_tenants:
  assumes "distinct (map (object_key tn_accessor) ts)"
  shows "\<exists>f. ft_NewSimpleClientset patcher (map ItemObject ts) = Return f \<and> tenants_ok patcher f \<and> unwatched (fk_world f)
    \<and> fake_content tenantsResource f = keyed tn_accessor ts"
proof -
  obtain sch where sch: "tenant_fake_scheme = Return sch" "typeToGVK sch (tenant_type ''Tenant'') = [tenantsKind]"
      "list_kind_known sch tenantsKind" using tenant_fake_scheme_built by blast
  have v: "gvr_version tenantsResource \<noteq> APIVersionInternal"
    by (simp add: tenantsResource_def WithResource_def tenant_SchemeGroupVersion_def APIVersionInternal_def)
  obtain t where t: "add_all sch tn_accessor (tenant_type ''Tenant'') (map ItemObject ts) newTracker = Return t"
      "tracker_ok tn_accessor t" "unwatched t" "stored t tenantsResource = stored newTracker tenantsResource ++ keyed tn_accessor ts"
    using add_all_items [OF typed_accessors_ok(1) sch(2) guessed_resources(1) v newTracker_ok newTracker_unwatched assms]
    by (auto simp: stored_def newTracker_def)
  have "stored newTracker tenantsResource = (Map.empty :: tenant content)"
    by (simp add: stored_def newTracker_def fun_eq_iff)
  with sch(3) t show ?thesis
    unfolding ft_NewSimpleClientset_def tenants_ok_def sch(1)
    by (simp add: fake_ok_def fake_content_def AddReactor_def AddWatchReactor_def new_fake_def)
qed

lemma new_provider_configs:
  assumes "distinct (map (object_key pc_accessor) ps)"
  shows "\<exists>f. fp_NewSimpleClientset patcher (map ItemObject ps) = Return f \<and> provider_configs_ok patcher f \<and> unwatched (fk_world f)
    \<and> fake_content providerconfigsResource f = keyed pc_accessor ps"
proof -
  obtain sch where sch: "pc_fake_scheme = Return sch" "typeToGVK sch (pc_type ''ProviderConfig'') = [providerconfigsKind]"
      "list_kind_known sch providerconfigsKind" using pc_fake_scheme_built by blast
  have v: "gvr_version providerconfigsResource \<noteq> APIVersionInternal"
    by (simp add: providerconfigsResource_def WithResource_def pc_SchemeGroupVersion_def APIVersionInternal_def)
  obtain t where t: "add_all sch pc_accessor (pc_type ''ProviderConfig'') (map ItemObject ps) newTracker = Return t"
      "tracker_ok pc_accessor t" "unwatched t" "stored t providerconfigsResource = stored newTracker providerconfigsResource ++ keyed pc_accessor ps"
    using add_all_items [OF typed_accessors_ok(2) sch(2) guessed_resources(2) v newTracker_ok newTracker_unwatched assms]
    by (auto simp: stored_def newTracker_def)
  have "stored newTracker providerconfigsResource = (Map.empty :: provider_config content)"
    by (simp add: stored_def newTracker_def fun_eq_iff)
  with sch(3) t show ?thesis
    unfolding fp_NewSimpleClientset_def provider_configs_ok_def sch(1)
    by (simp add: fake_ok_def fake_content_def AddReactor_def AddWatchReactor_def new_fake_def)
qed

section \<open>Deleting by selector\<close>

text \<open>Objects for the witnesses, and parsers that accept every selector and match every object.\<close>

definition named_tenant :: "string \<Rightarrow> tenant" where
  "named_tenant n = zero_tenant\<lparr>tn_ObjectMeta := zero_ObjectMeta\<lparr>om_Name := n\<rparr>\<rparr>"

definition everything :: selector_parsers where
  "everything = \<lparr>parse_labels = (\<lambda>_. Inr \<lparr>sel_nothing = False, sel_Empty = True, sel_Matches = (\<lambda>_. True)\<rparr>),
     parse_fields = (\<lambda>_. None)\<rparr>"

definition zero_ListOptions :: ListOptions where
  "zero_ListOptions = \<lparr>lo_LabelSelector = [], lo_FieldSelector = [], lo_Watch = False, lo_AllowWatchBookmarks = False,
     lo_ResourceVersion = [], lo_ResourceVersionMatch = [], lo_TimeoutSeconds = None, lo_Limit = 0,
     lo_Continue = [], lo_SendInitialEvents = None, lo_ShardSelector = []\<rparr>"

definition zero_DeleteOptions :: DeleteOptions where
  "zero_DeleteOptions = \<lparr>do_GracePeriodSeconds = None, do_Preconditions = None, do_OrphanDependents = None,
     do_PropagationPolicy = None, do_DryRun = None, do_IgnoreStoreReadError = None\<rparr>"

definition no_patches :: "'o patcher" where
  "no_patches = \<lparr>pa_Unmarshal = (\<lambda>data. None), pa_patched = (\<lambda>pt data ob. Inl (Errorf ''no patches'' []))\<rparr>"

text \<open>\<open>DeleteCollection\<close> of a fake client deletes nothing and reports success: no reactor answers its
  action, so \<open>Invokes\<close> returns the default object without an error.\<close>

theorem fake_delete_collection_ignored:
  assumes "ExtractFromListOptions sp listOpts = Return sel"
  shows "(tenants_ok tpatcher f \<longrightarrow> (\<exists>f'. FakeTenants_DeleteCollection sp c opts listOpts f = (Return None, f')
      \<and> fake_content tenantsResource f' = fake_content tenantsResource f))
    \<and> (provider_configs_ok ppatcher g \<longrightarrow> (\<exists>g'. FakeProviderConfigs_DeleteCollection sp d opts listOpts g = (Return None, g')
      \<and> fake_content providerconfigsResource g' = fake_content providerconfigsResource g))"
  using assms
  by (auto simp: tenants_ok_def provider_configs_ok_def fake_ok_def FakeTenants_DeleteCollection_def
      FakeProviderConfigs_DeleteCollection_def NewDeleteCollectionAction_def Invokes_def reactor_Handles_def
      resourceCovers_def ObjectReaction_def as_error_def fake_content_def)

theorem fake_delete_collection_ignored_witness:
  "\<exists>f f'. ft_NewSimpleClientset no_patches [ItemObject (named_tenant ''a'')] = Return f
     \<and> FakeTenants_DeleteCollection everything \<lparr>ft_ns = []\<rparr> zero_DeleteOptions zero_ListOptions f = (Return None, f')
     \<and> fake_content tenantsResource f' ([], ''a'') = Some (named_tenant ''a'')"
proof -
  obtain f where f: "ft_NewSimpleClientset no_patches (map ItemObject [named_tenant ''a'']) = Return f"
    "tenants_ok no_patches f" "fake_content tenantsResource f = keyed tn_accessor [named_tenant ''a'']"
    using new_tenants [of "[named_tenant ''a'']" no_patches] by auto
  have "\<exists>sel. ExtractFromListOptions everything zero_ListOptions = Return sel"
    by (simp add: everything_def ExtractFromListOptions_def)
  then obtain f' where "FakeTenants_DeleteCollection everything \<lparr>ft_ns = []\<rparr> zero_DeleteOptions zero_ListOptions f = (Return None, f')"
      "fake_content tenantsResource f' = fake_content tenantsResource f"
    using fake_delete_collection_ignored [of everything zero_ListOptions _ no_patches f] f(2) by blast
  with f(1,3) show ?thesis
    by (auto simp: keyed_def object_key_def tn_accessor_def named_tenant_def zero_tenant_def zero_ObjectMeta_def)
qed

end
