(* ===== verification/FakeWatch.thy ===== *)
theory FakeWatch imports FakeStore begin

text \<open>
  What the watchers of a fake clientset see. A run is a sequence of calls by clients of any namespaces,
  new watches, receives and stops. Until it is stopped a watcher has received, or still holds, exactly
  the changes made in its namespace since it was made; replayed over what was stored then they give
  what is stored now. A change that finds 100 unread events in a watcher panics, after it was stored.
\<close>

section \<open>Runs\<close>

datatype ('c, 'o) client_op =
    Call_op 'c "'o call"
  | Watch_op 'c ListOptions
  | Receive_op nat
  | Stop_op nat

datatype 'o op_answer =
    CallAnswer "'o answer"
  | WatchAnswer "(nat option \<times> error) outcome"
  | ReceiveAnswer "'o watch_event received"
  | StopAnswer

definition do_op ::
  "('l \<Rightarrow> 'o list) \<Rightarrow> ('c \<Rightarrow> ('o, 'l, nat, ('o, 'o tracker) Fake) ResourceInterface) \<Rightarrow> ('c, 'o) client_op
   \<Rightarrow> ('o, 'o tracker) Fake \<Rightarrow> 'o op_answer \<times> ('o, 'o tracker) Fake" where
  "do_op objects i op f =
     (case op of
        Call_op c call \<Rightarrow> (case do_call objects (i c) call f of (a, f) \<Rightarrow> (CallAnswer a, f))
      | Watch_op c opts \<Rightarrow> (case if_Watch (i c) opts f of (a, f) \<Rightarrow> (WatchAnswer a, f))
      | Receive_op r \<Rightarrow>
          (case watcher_receive (tr_chans (fk_world f) ! r) of (ev, w) \<Rightarrow> (ReceiveAnswer ev, set_watcher r w f))
      | Stop_op r \<Rightarrow> (StopAnswer, set_watcher r (watcher_Stop (tr_chans (fk_world f) ! r)) f))"

definition channel_full :: "'o op_answer" where
  "channel_full = CallAnswer (PanicAnswer ''channel full'')"

text \<open>The events a run received from a watcher.\<close>

definition received_one :: "nat \<Rightarrow> ('c, 'o) client_op \<times> 'o op_answer \<Rightarrow> 'o watch_event list" where
  "received_one r p = (case p of (Receive_op r', ReceiveAnswer (Rcv_event ev)) \<Rightarrow> if r' = r then [ev] else [] | _ \<Rightarrow> [])"

definition received_from :: "nat \<Rightarrow> ('c, 'o) client_op list \<Rightarrow> 'o op_answer list \<Rightarrow> 'o watch_event list" where
  "received_from r ops as = concat (map (received_one r) (zip ops as))"

section \<open>What a run changes\<close>

definition in_namespace :: "string \<Rightarrow> string \<Rightarrow> bool" where
  "in_namespace wns ns \<longleftrightarrow> wns = [] \<or> wns = ns"

text \<open>Of the calls of a run on a map, the events in a namespace and what is stored at the end.\<close>

fun run_events ::
  "'o patcher \<Rightarrow> selector_parsers \<Rightarrow> GroupVersionResource \<Rightarrow> 'o accessor \<Rightarrow> 'o labels_of \<Rightarrow> ('c \<Rightarrow> string) \<Rightarrow> string
   \<Rightarrow> ('c, 'o) client_op list \<Rightarrow> 'o content \<Rightarrow> 'o watch_event list" where
  "run_events patcher sp res acc labels ns wns [] st = []"
| "run_events patcher sp res acc labels ns wns (op # ops) st =
     (case op of
        Call_op c call \<Rightarrow>
          (if in_namespace wns (ns c) then (case spec_event patcher acc (ns c) call st of None \<Rightarrow> [] | Some ev \<Rightarrow> [ev]) else [])
          @ run_events patcher sp res acc labels ns wns ops (snd (spec_call patcher sp res acc labels (ns c) call st))
      | _ \<Rightarrow> run_events patcher sp res acc labels ns wns ops st)"

definition op_content ::
  "'o patcher \<Rightarrow> selector_parsers \<Rightarrow> GroupVersionResource \<Rightarrow> 'o accessor \<Rightarrow> 'o labels_of \<Rightarrow> ('c \<Rightarrow> string)
   \<Rightarrow> ('c, 'o) client_op \<Rightarrow> 'o content \<Rightarrow> 'o content" where
  "op_content patcher sp res acc labels ns op st =
     (case op of Call_op c call \<Rightarrow> snd (spec_call patcher sp res acc labels (ns c) call st) | _ \<Rightarrow> st)"

text \<open>A reader that keeps a map by the events, and what it should show.\<close>

definition apply_event :: "'o accessor \<Rightarrow> 'o watch_event \<Rightarrow> 'o content \<Rightarrow> 'o content" where
  "apply_event acc ev st =
     (case ev of
        Added_event ob \<Rightarrow> st(object_key acc ob \<mapsto> ob)
      | Modified_event ob \<Rightarrow> st(object_key acc ob \<mapsto> ob)
      | Deleted_event ob \<Rightarrow> st(object_key acc ob := None))"

definition ns_view :: "string \<Rightarrow> 'o content \<Rightarrow> 'o content" where
  "ns_view wns st = (\<lambda>k. if in_namespace wns (fst k) then st k else None)"

definition keys_ok :: "'o accessor \<Rightarrow> 'o content \<Rightarrow> bool" where
  "keys_ok acc st \<longleftrightarrow> (\<forall>k ob. st k = Some ob \<longrightarrow> k = object_key acc ob)"

lemma object_key_placed: "accessor_ok acc \<Longrightarrow> fits acc ns ob \<Longrightarrow> object_key acc (placed acc ns ob) = (ns, acc_name acc ob)"
  by (auto simp: object_key_def placed_fields fits_def)

text \<open>The effect of a call: none, an object stored in the namespace, or one removed from it.\<close>

lemma spec_call_effect:
  obtains (none) "spec_event patcher acc ns call st = None" "snd (spec_call patcher sp res acc labels ns call st) = st"
  | (stores) ev ob where "spec_event patcher acc ns call st = Some (ev (placed acc ns ob))" "ev \<in> {Added_event, Modified_event}"
      "fits acc ns ob" "snd (spec_call patcher sp res acc labels ns call st) = st((ns, acc_name acc ob) \<mapsto> placed acc ns ob)"
  | (removes) name ob where "spec_event patcher acc ns call st = Some (Deleted_event ob)" "st (ns, name) = Some ob"
      "snd (spec_call patcher sp res acc labels ns call st) = st((ns, name) := None)"
proof -
  have written: thesis if "spec_event patcher acc ns call st = write_event acc ns replace ob st"
      "snd (spec_call patcher sp res acc labels ns call st) = snd (spec_write res acc ns replace ob st)" for replace ob
    using that none stores [of "if replace then Modified_event else Added_event" ob]
    by (auto simp: write_event_def spec_write_def Let_def split: if_splits)
  show thesis
  proof (cases call)
    case (Patch_call name pt data opts subs)
    show thesis
    proof (cases "\<exists>old ob. unreadable patcher pt data = None \<and> st (ns, name) = Some old \<and> patch_of patcher pt data old = Inr ob")
      case True
      then obtain ob where "spec_event patcher acc ns call st = write_event acc ns True ob st"
          "snd (spec_call patcher sp res acc labels ns call st) = snd (spec_write res acc ns True ob st)"
        by (auto simp: Patch_call spec_event_def spec_call_def spec_patch_def spec_write_def Let_def)
      then show thesis by (rule written)
    next
      case False
      then show thesis
        by (intro none)
           (auto simp: Patch_call spec_event_def spec_call_def spec_patch_def split: option.splits sum.splits)
    qed
  next
    case (Create_call ob opts)
    then show thesis by (intro written [of False ob]) (simp_all add: spec_event_def spec_call_def)
  next
    case (Update_call ob opts)
    then show thesis by (intro written [of True ob]) (simp_all add: spec_event_def spec_call_def)
  next
    case (UpdateStatus_call ob opts)
    then show thesis by (intro written [of True ob]) (simp_all add: spec_event_def spec_call_def)
  next
    case (Delete_call name opts)
    then show thesis
      by (cases "st (ns, name)") (use none removes in \<open>auto simp: spec_event_def spec_call_def\<close>)
  qed (intro none; simp add: spec_event_def spec_call_def split: option.splits outcome.splits)+
qed

lemma spec_call_keys_ok:
  assumes "accessor_ok acc" "keys_ok acc st"
  shows "keys_ok acc (snd (spec_call patcher sp res acc labels ns call st))"
proof (rule spec_call_effect [of patcher acc ns call st sp res labels])
  fix ev ob assume "fits acc ns ob"
    "snd (spec_call patcher sp res acc labels ns call st) = st((ns, acc_name acc ob) \<mapsto> placed acc ns ob)"
  then show ?thesis using assms(2) object_key_placed [OF assms(1)] by (simp add: keys_ok_def)
qed (use assms(2) in \<open>simp_all add: keys_ok_def\<close>)

text \<open>One call: its event, replayed by a reader of a namespace that covers it, or by one that does not.\<close>

lemma spec_event_replay:
  assumes "accessor_ok acc" "keys_ok acc st"
  shows "snd (spec_call patcher sp res acc labels ns call st) =
    (case spec_event patcher acc ns call st of None \<Rightarrow> st | Some ev \<Rightarrow> apply_event acc ev st)"
proof (rule spec_call_effect [of patcher acc ns call st sp res labels])
  fix ev ob assume "spec_event patcher acc ns call st = Some (ev (placed acc ns ob))" "ev \<in> {Added_event, Modified_event}"
    "fits acc ns ob" "snd (spec_call patcher sp res acc labels ns call st) = st((ns, acc_name acc ob) \<mapsto> placed acc ns ob)"
  then show ?thesis using object_key_placed [OF assms(1)] by (auto simp: apply_event_def)
next
  fix name ob assume "spec_event patcher acc ns call st = Some (Deleted_event ob)" "st (ns, name) = Some ob"
    "snd (spec_call patcher sp res acc labels ns call st) = st((ns, name) := None)"
  moreover from this(2) have "object_key acc ob = (ns, name)" using assms(2) unfolding keys_ok_def by metis
  ultimately show ?thesis by (simp add: apply_event_def)
qed simp

lemma spec_event_in_ns:
  assumes "accessor_ok acc" "keys_ok acc st" "spec_event patcher acc ns call st = Some ev"
  shows "\<exists>n. apply_event acc ev = (\<lambda>st. st((ns, n) := apply_event acc ev st (ns, n)))"
proof -
  obtain ob where "ev \<in> {Added_event ob, Modified_event ob, Deleted_event ob}" "fst (object_key acc ob) = ns"
  proof (rule spec_call_effect [of patcher acc ns call st "undefined" "undefined" "undefined"])
    fix e ob assume "spec_event patcher acc ns call st = Some (e (placed acc ns ob))" "e \<in> {Added_event, Modified_event}"
      "fits acc ns ob"
    then show thesis using assms(3) object_key_placed [OF assms(1)] that [of "placed acc ns ob"] by auto
  next
    fix name ob assume "spec_event patcher acc ns call st = Some (Deleted_event ob)" "st (ns, name) = Some ob"
    moreover from this(2) have "object_key acc ob = (ns, name)" using assms(2) unfolding keys_ok_def by metis
    ultimately show thesis using assms(3) that [of ob] by simp
  qed (use assms(3) in simp)
  then show ?thesis
    by (intro exI [of _ "snd (object_key acc ob)"])
       (cases "object_key acc ob"; auto simp: apply_event_def fun_eq_iff)
qed

lemma ns_view_update:
  "ns_view wns (st((ns, n) := v)) = (if in_namespace wns ns then (ns_view wns st)((ns, n) := v) else ns_view wns st)"
  by (auto simp: ns_view_def fun_eq_iff)

lemma run_events_replay:
  assumes "accessor_ok acc" "keys_ok acc st"
  shows "fold (apply_event acc) (run_events patcher sp res acc labels ns wns ops st) (ns_view wns st)
    = ns_view wns (fold (op_content patcher sp res acc labels ns) ops st)"
  using assms(2)
proof (induction ops arbitrary: st)
  case Nil
  then show ?case by simp
next
  case (Cons op ops)
  show ?case
  proof (cases op)
    case (Call_op c call)
    let ?st = "snd (spec_call patcher sp res acc labels (ns c) call st)"
    let ?ev = "spec_event patcher acc (ns c) call st"
    have "ns_view wns ?st = (case ?ev of None \<Rightarrow> ns_view wns st
        | Some ev \<Rightarrow> if in_namespace wns (ns c) then apply_event acc ev (ns_view wns st) else ns_view wns st)"
    proof (cases ?ev)
      case (Some ev)
      obtain n where n: "apply_event acc ev = (\<lambda>st. st((ns c, n) := apply_event acc ev st (ns c, n)))"
        using spec_event_in_ns [OF assms(1) Cons.prems Some] by blast
      have same: "apply_event acc ev st1 (ns c, n) = apply_event acc ev st2 (ns c, n)" for st1 st2
      proof -
        obtain ob where "ev \<in> {Added_event ob, Modified_event ob, Deleted_event ob}" by (cases ev) auto
        moreover from this have "object_key acc ob = (ns c, n)"
          using fun_cong [OF fun_cong [OF n, of "\<lambda>_. None"], of "object_key acc ob"]
            fun_cong [OF fun_cong [OF n, of "\<lambda>_. Some ob"], of "object_key acc ob"]
          by (auto simp: apply_event_def split: if_splits)
        ultimately show ?thesis by (auto simp: apply_event_def)
      qed
      have "?st = st((ns c, n) := apply_event acc ev st (ns c, n))"
        using spec_event_replay [OF assms(1) Cons.prems, of patcher sp res labels "ns c" call] Some n by (metis option.simps(5))
      then show ?thesis
        using Some same [of st "ns_view wns st"] fun_cong [OF n, of "ns_view wns st"] by (simp add: ns_view_update)
    qed (use spec_event_replay [OF assms(1) Cons.prems, of patcher sp res labels "ns c" call] in simp)
    moreover have "op_content patcher sp res acc labels ns op st = ?st" by (simp add: Call_op op_content_def)
    moreover note Cons.IH [OF spec_call_keys_ok [OF assms(1) Cons.prems, of patcher sp res labels "ns c" call]]
    ultimately show ?thesis using Call_op by (cases ?ev; cases "in_namespace wns (ns c)") simp_all
  qed (use Cons.IH [OF Cons.prems] in \<open>simp_all add: op_content_def\<close>)
qed

lemma tracker_keys_ok: "tracker_ok acc (fk_world f) \<Longrightarrow> keys_ok acc (fake_content res f)"
  unfolding tracker_ok_def keys_ok_def fake_content_def stored_def object_key_def by auto

text \<open>
  Clients that behave as a map: after any run, what is stored is what the map holds, and the next call, of
  whatever kind, answers as the map does, unless it changes something while a watcher of its namespace
  has no room left; before the first watch no watcher can be full.
\<close>

definition map_like ::
  "('l \<Rightarrow> 'o list) \<Rightarrow> ('c \<Rightarrow> ('o, 'l, nat, ('o, 'o tracker) Fake) ResourceInterface) \<Rightarrow> 'o patcher \<Rightarrow> selector_parsers
   \<Rightarrow> GroupVersionResource \<Rightarrow> 'o accessor \<Rightarrow> 'o labels_of \<Rightarrow> ('c \<Rightarrow> string) \<Rightarrow> 'o content
   \<Rightarrow> ('o, 'o tracker) Fake \<Rightarrow> bool" where
  "map_like objects i patcher sp res acc labels ns st f \<longleftrightarrow>
     (\<forall>ops as f' c call. run_calls (do_op objects i) ops f = (as, f') \<longrightarrow>
        (let st' = fold (op_content patcher sp res acc labels ns) ops st;
             full = overflows (fk_world f') res (ns c) (spec_event patcher acc (ns c) call st')
         in fake_content res f' = st'
          \<and> fst (do_call objects (i c) call f')
            = (if full then PanicAnswer ''channel full'' else fst (spec_call patcher sp res acc labels (ns c) call st'))
          \<and> ((\<forall>c opts. Watch_op c opts \<notin> set ops) \<longrightarrow> \<not> full)))"

section \<open>The history of a watcher\<close>

lemma getWatches_in_namespace:
  assumes "watchers_ok t" "r \<in> set (tr_watchers t res wns)"
  shows "r \<in> set (getWatches t res ns) \<longleftrightarrow> in_namespace wns ns"
  using assms unfolding watchers_ok_def getWatches_def in_namespace_def by (auto; blast)

lemma told_nth:
  assumes "told gvr ns ev t t'" "\<not> overflows t gvr ns ev" "r < length (tr_chans t)" "\<not> rw_Stopped (tr_chans t ! r)"
  shows "\<not> rw_Stopped (tr_chans t' ! r)"
    "rw_result (tr_chans t' ! r) = rw_result (tr_chans t ! r)
       @ (if r \<in> set (getWatches t gvr ns) then (case ev of None \<Rightarrow> [] | Some e \<Rightarrow> [e]) else [])"
  using assms by (cases ev; simp add: told_def delivered_nth push_def)+

definition watching :: "GroupVersionResource \<Rightarrow> string \<Rightarrow> nat \<Rightarrow> ('o, 'o tracker) Fake \<Rightarrow> bool" where
  "watching res wns r f \<longleftrightarrow> r \<in> set (tr_watchers (fk_world f) res wns) \<and> \<not> rw_Stopped (tr_chans (fk_world f) ! r)"

definition unread :: "nat \<Rightarrow> ('o, 'o tracker) Fake \<Rightarrow> 'o watch_event list" where
  "unread r f = rw_result (tr_chans (fk_world f) ! r)"

text \<open>Room for \<open>n\<close> more events in every watcher.\<close>

definition slack :: "GroupVersionResource \<Rightarrow> nat \<Rightarrow> ('o, 'o tracker) Fake \<Rightarrow> bool" where
  "slack res n f \<longleftrightarrow> n \<le> DefaultChanSize
     \<and> (\<forall>wns r. watching res wns r f \<longrightarrow> length (unread r f) + n \<le> DefaultChanSize)"

context watched_client
begin

lemma call_not_full: "fst (spec_call patcher sp res acc labels n cl st) \<noteq> PanicAnswer ''channel full''"
proof (cases cl)
  case (Patch_call name pt data opts subs)
  then show ?thesis using spec_patch_answers [of patcher res acc n name pt data st] by (auto simp: spec_call_def)
qed (auto simp: spec_call_def spec_write_def Let_def ExtractFromListOptions_def split: option.splits outcome.splits sum.splits)

lemma watcher_valid: "ok f \<Longrightarrow> watching res wns r f \<Longrightarrow> r < length (tr_chans (fk_world f))"
  using ok_tracker [of f] unfolding tracker_ok_def watchers_ok_def watching_def by blast

lemma op_step:
  assumes "ok f" "watching res wns r f" "do_op objects i op f = (a, f')" "op \<noteq> Stop_op r" "a \<noteq> channel_full"
  shows "ok f' \<and> watching res wns r f' \<and> fake_content res f' = op_content patcher sp res acc labels ns op (fake_content res f)
    \<and> received_one r (op, a) @ unread r f'
      = unread r f @ run_events patcher sp res acc labels ns wns [op] (fake_content res f)"
proof -
  note valid = watcher_valid [OF assms(1,2)]
  have wok: "watchers_ok (fk_world f)" using ok_tracker [OF assms(1)] by (simp add: tracker_ok_def)
  have r: "r \<in> set (tr_watchers (fk_world f) res wns)" "\<not> rw_Stopped (tr_chans (fk_world f) ! r)"
    using assms(2) by (simp_all add: watching_def)
  show ?thesis
  proof (cases op)
    case (Call_op c cl)
    let ?ev = "spec_event patcher acc (ns c) cl (fake_content res f)"
    obtain f1 where f1: "do_call objects (i c) cl f = (if overflows (fk_world f) res (ns c) ?ev then PanicAnswer ''channel full''
          else fst (spec_call patcher sp res acc labels (ns c) cl (fake_content res f)), f1)" "ok f1"
        "fake_content res f1 = snd (spec_call patcher sp res acc labels (ns c) cl (fake_content res f))"
        "told res (ns c) ?ev (fk_world f) (fk_world f1)"
      using call [OF assms(1), of c cl] by blast
    have eq: "f' = f1" "\<not> overflows (fk_world f) res (ns c) ?ev"
      using assms(3,5) f1(1) Call_op by (auto simp: do_op_def channel_full_def split: if_splits)
    have "tr_watchers (fk_world f1) = tr_watchers (fk_world f)" using f1(4) by (simp add: told_def)
    then show ?thesis
      using f1(2,3) eq r told_nth [OF f1(4) eq(2) valid r(2)] getWatches_in_namespace [OF wok r(1), of "ns c"] Call_op
      by (simp add: watching_def unread_def op_content_def received_one_def)
  next
    case (Watch_op c opts)
    show ?thesis
    proof (cases "ExtractFromListOptions sp opts")
      case (Return sel)
      obtain f1 where f1: "if_Watch (i c) opts f = (Return (Some (length (tr_chans (fk_world f))), None), f1)" "ok f1"
          "fk_world f1 = watched res (ns c) (fk_world f)" using watch [OF assms(1) Return] by blast
      then have "f' = f1" using assms(3) Watch_op by (simp add: do_op_def)
      then show ?thesis
        using f1(2,3) r valid Watch_op
        by (auto simp: watching_def unread_def op_content_def received_one_def nth_append fake_content_def)
    next
      case (Panic msg)
      then have "f' = f" using assms(3) watch_panics [OF assms(1) Panic] Watch_op by (simp add: do_op_def)
      then show ?thesis using assms(1,2) Watch_op by (simp add: op_content_def received_one_def)
    qed
  next
    case (Receive_op r')
    obtain ev w where w: "watcher_receive (tr_chans (fk_world f) ! r') = (ev, w)" by (cases "watcher_receive (tr_chans (fk_world f) ! r')")
    then have f': "f' = set_watcher r' w f" "a = ReceiveAnswer ev" using assms(3) Receive_op by (simp_all add: do_op_def)
    have "rw_Stopped w = rw_Stopped (tr_chans (fk_world f) ! r')"
        "(case ev of Rcv_event e \<Rightarrow> [e] | _ \<Rightarrow> []) @ rw_result w = rw_result (tr_chans (fk_world f) ! r')"
      using w by (auto simp: watcher_receive_def split: list.splits)
    then show ?thesis
      using reader [OF assms(1)] r valid Receive_op
      by (cases "r' = r"; cases ev) (auto simp: f' watching_def unread_def op_content_def received_one_def)
  next
    case (Stop_op r')
    then have "f' = set_watcher r' (watcher_Stop (tr_chans (fk_world f) ! r')) f" "r' \<noteq> r"
      using assms(3,4) by (auto simp: do_op_def)
    then show ?thesis
      using reader [OF assms(1)] r valid Stop_op
      by (auto simp: watching_def unread_def op_content_def received_one_def)
  qed
qed

text \<open>What is stored follows the map, whatever is received, stopped or found full.\<close>

lemma op_stores:
  assumes "ok f" "do_op objects i op f = (a, f')"
  shows "ok f' \<and> fake_content res f' = op_content patcher sp res acc labels ns op (fake_content res f)
    \<and> ((\<forall>c opts. op \<noteq> Watch_op c opts) \<longrightarrow> unwatched (fk_world f) \<longrightarrow> unwatched (fk_world f'))"
proof (cases op)
  case (Call_op c cl)
  then show ?thesis using call [OF assms(1), of c cl] assms(2)
    by (auto simp: do_op_def op_content_def told_def unwatched_def)
next
  case (Watch_op c opts)
  show ?thesis
  proof (cases "ExtractFromListOptions sp opts")
    case (Return sel)
    then show ?thesis using watch [OF assms(1) Return, of c] assms(2) Watch_op
      by (auto simp: do_op_def op_content_def fake_content_def)
  next
    case (Panic msg)
    then show ?thesis using watch_panics [OF assms(1) Panic, of c] assms Watch_op by (auto simp: do_op_def op_content_def)
  qed
qed (use assms reader in \<open>auto simp: do_op_def op_content_def unwatched_def split: prod.splits\<close>)

lemma run_stores:
  assumes "ok f" "run_calls (do_op objects i) ops f = (as, f')"
  shows "ok f' \<and> fake_content res f' = fold (op_content patcher sp res acc labels ns) ops (fake_content res f)
    \<and> ((\<forall>c opts. Watch_op c opts \<notin> set ops) \<longrightarrow> unwatched (fk_world f) \<longrightarrow> unwatched (fk_world f'))"
  using assms
proof (induction ops arbitrary: f as)
  case (Cons op ops)
  obtain a f1 where a: "do_op objects i op f = (a, f1)" by (cases "do_op objects i op f")
  obtain bs where bs: "run_calls (do_op objects i) ops f1 = (bs, f')"
    using Cons.prems(2) a by (auto split: prod.splits)
  note step = op_stores [OF Cons.prems(1) a]
  from step Cons.IH [OF _ bs] show ?case by auto
qed simp

lemma run_maps:
  assumes "ok f" "fake_content res f = st" "unwatched (fk_world f)"
  shows "map_like objects i patcher sp res acc labels ns st f"
  unfolding map_like_def Let_def
proof (intro allI impI)
  fix ops as f' c cl assume run: "run_calls (do_op objects i) ops f = (as, f')"
  let ?st = "fold (op_content patcher sp res acc labels ns) ops st"
  note f' = run_stores [OF assms(1) run, unfolded assms(2)]
  have quiet: "\<not> overflows (fk_world f') res (ns c) ev" if "\<forall>c opts. Watch_op c opts \<notin> set ops" for ev
    using f' assms(3) that by (simp add: overflows_def unwatched_room)
  show "fake_content res f' = ?st
    \<and> fst (do_call objects (i c) cl f') = (if overflows (fk_world f') res (ns c) (spec_event patcher acc (ns c) cl ?st)
         then PanicAnswer ''channel full'' else fst (spec_call patcher sp res acc labels (ns c) cl ?st))
    \<and> ((\<forall>c opts. Watch_op c opts \<notin> set ops) \<longrightarrow> \<not> overflows (fk_world f') res (ns c) (spec_event patcher acc (ns c) cl ?st))"
    using f' call [of f' c cl] quiet by auto
qed

lemma run_history:
  assumes "ok f" "watching res wns r f" "run_calls (do_op objects i) ops f = (as, f')" "Stop_op r \<notin> set ops"
    "channel_full \<notin> set as"
  shows "ok f' \<and> watching res wns r f'
    \<and> fake_content res f' = fold (op_content patcher sp res acc labels ns) ops (fake_content res f)
    \<and> received_from r ops as @ unread r f'
      = unread r f @ run_events patcher sp res acc labels ns wns ops (fake_content res f)"
  using assms
proof (induction ops arbitrary: f as)
  case Nil
  then show ?case by (simp add: received_from_def)
next
  case (Cons op ops)
  obtain a f1 where a: "do_op objects i op f = (a, f1)" by (cases "do_op objects i op f")
  obtain bs where bs: "run_calls (do_op objects i) ops f1 = (bs, f')" "as = a # bs"
    using Cons.prems(3) a by (auto split: prod.splits)
  have step: "ok f1 \<and> watching res wns r f1 \<and> fake_content res f1 = op_content patcher sp res acc labels ns op (fake_content res f)
    \<and> received_one r (op, a) @ unread r f1
      = unread r f @ run_events patcher sp res acc labels ns wns [op] (fake_content res f)"
    by (rule op_step [OF Cons.prems(1,2) a]) (use Cons.prems(4,5) bs(2) in auto)
  then have IH: "ok f' \<and> watching res wns r f'
    \<and> fake_content res f' = fold (op_content patcher sp res acc labels ns) ops (fake_content res f1)
    \<and> received_from r ops bs @ unread r f'
      = unread r f1 @ run_events patcher sp res acc labels ns wns ops (fake_content res f1)"
    by (intro Cons.IH [OF _ _ bs(1)]) (use Cons.prems(4,5) bs(2) in auto)
  have "run_events patcher sp res acc labels ns wns (op # ops) (fake_content res f)
      = run_events patcher sp res acc labels ns wns [op] (fake_content res f)
        @ run_events patcher sp res acc labels ns wns ops (fake_content res f1)"
    using step by (cases op) (simp_all add: op_content_def)
  then show ?case
    using step IH bs(2) by (simp add: received_from_def)
qed

lemma watch_starts:
  assumes "ok f" "ExtractFromListOptions sp opts = Return sel"
  shows "\<exists>r f'. if_Watch (i c) opts f = (Return (Some r, None), f') \<and> watching res (ns c) r f' \<and> unread r f' = []
    \<and> fake_content res f' = fake_content res f \<and> ok f'"
proof -
  obtain f' where f': "if_Watch (i c) opts f = (Return (Some (length (tr_chans (fk_world f))), None), f')" "ok f'"
      "fk_world f' = watched res (ns c) (fk_world f)" using watch [OF assms] by blast
  then show ?thesis
    by (intro exI [of _ "length (tr_chans (fk_world f))"] exI [of _ f'])
       (simp add: watching_def unread_def NewRaceFreeFake_def fake_content_def)
qed

text \<open>From the start of a watch: everything since, and nothing before.\<close>

lemma watch_history:
  assumes "ok f" "ExtractFromListOptions sp opts = Return sel"
    and "run_calls (do_op objects i) (Watch_op c opts # ops) f = (as, f')"
    and "Stop_op (length (tr_chans (fk_world f))) \<notin> set ops" "channel_full \<notin> set as"
  defines "r \<equiv> length (tr_chans (fk_world f))"
  shows "as \<noteq> [] \<and> hd as = WatchAnswer (Return (Some r, None))
    \<and> received_from r ops (tl as) @ unread r f' = run_events patcher sp res acc labels ns (ns c) ops (fake_content res f)
    \<and> fold (apply_event acc) (received_from r ops (tl as) @ unread r f') (ns_view (ns c) (fake_content res f))
      = ns_view (ns c) (fake_content res f')"
proof -
  obtain f1 where f1: "if_Watch (i c) opts f = (Return (Some r, None), f1)" "ok f1"
      "fk_world f1 = watched res (ns c) (fk_world f)" using watch [OF assms(1,2)] unfolding r_def by blast
  then obtain bs where bs: "run_calls (do_op objects i) ops f1 = (bs, f')" "as = WatchAnswer (Return (Some r, None)) # bs"
    using assms(3) by (auto simp: do_op_def split: prod.splits)
  have "watching res (ns c) r f1" "unread r f1 = []" and same: "fake_content res f1 = fake_content res f"
    using f1(3) by (simp_all add: watching_def unread_def r_def NewRaceFreeFake_def fake_content_def)
  then have "fake_content res f' = fold (op_content patcher sp res acc labels ns) ops (fake_content res f)"
      "received_from r ops bs @ unread r f' = run_events patcher sp res acc labels ns (ns c) ops (fake_content res f)"
    using run_history [OF f1(2) _ bs(1), of "ns c" r] assms(4,5) bs(2) by (auto simp: r_def)
  then show ?thesis
    using bs(2) run_events_replay [OF acc tracker_keys_ok [OF ok_tracker [OF assms(1)]], of patcher sp res labels ns "ns c" ops]
    by simp
qed

text \<open>No watcher fills up in a short run.\<close>

lemma slack_next:
  assumes "slack res (Suc n) f"
    and "\<And>wns r. watching res wns r f' \<Longrightarrow> unread r f' = []
      \<or> (watching res wns r f \<and> length (unread r f') \<le> Suc (length (unread r f)))"
  shows "slack res n f'"
  unfolding slack_def
proof (intro conjI allI impI)
  show "n \<le> DefaultChanSize" using assms(1) by (simp add: slack_def)
  fix wns r assume "watching res wns r f'"
  from assms(2) [OF this] show "length (unread r f') + n \<le> DefaultChanSize"
  proof
    assume "watching res wns r f \<and> length (unread r f') \<le> Suc (length (unread r f))"
    moreover from this have "length (unread r f) + Suc n \<le> DefaultChanSize" using assms(1) unfolding slack_def by blast
    ultimately show ?thesis by linarith
  qed (use assms(1) in \<open>simp add: slack_def\<close>)
qed

lemma slack_room: "slack res (Suc n) f \<Longrightarrow> room_for (fk_world f) res m"
  unfolding room_for_def room_def
proof (intro ballI)
  fix r assume s: "slack res (Suc n) f" and r: "r \<in> set (getWatches (fk_world f) res m)"
  have "length (unread r f) + Suc n \<le> DefaultChanSize" if "\<not> rw_Stopped (tr_chans (fk_world f) ! r)"
  proof -
    have "watching res m r f \<or> watching res [] r f"
      using r that by (auto simp: watching_def getWatches_def split: if_splits)
    with s show ?thesis unfolding slack_def by blast
  qed
  then show "rw_Stopped (tr_chans (fk_world f) ! r) \<or> length (rw_result (tr_chans (fk_world f) ! r)) < DefaultChanSize"
    unfolding unread_def by linarith
qed

lemma slack_reader:
  assumes "slack res (Suc n) f" "rw_Stopped (tr_chans (fk_world f) ! r') \<Longrightarrow> rw_Stopped w"
    "length (rw_result w) \<le> length (rw_result (tr_chans (fk_world f) ! r'))"
  shows "slack res n (set_watcher r' w f)"
proof (rule slack_next [OF assms(1)])
  fix wns r assume "watching res wns r (set_watcher r' w f)"
  then show "unread r (set_watcher r' w f) = []
      \<or> (watching res wns r f \<and> length (unread r (set_watcher r' w f)) \<le> Suc (length (unread r f)))"
    using assms(2,3)
    by (cases "r' < length (tr_chans (fk_world f))"; cases "r = r'") (auto simp: watching_def unread_def list_update_beyond)
qed

lemma slack_step:
  assumes "ok f" "slack res (Suc n) f" "do_op objects i op f = (a, f')"
  shows "a \<noteq> channel_full \<and> ok f' \<and> slack res n f'"
proof (cases op)
  case (Call_op c cl)
  let ?ev = "spec_event patcher acc (ns c) cl (fake_content res f)"
  have quiet: "\<not> overflows (fk_world f) res (ns c) ?ev" using slack_room [OF assms(2)] by (simp add: overflows_def)
  have a: "a \<noteq> channel_full" "ok f'" "told res (ns c) ?ev (fk_world f) (fk_world f')"
    using call [OF assms(1), of c cl] call_not_full assms(3) quiet Call_op by (auto simp: do_op_def channel_full_def)
  have chans: "length (tr_chans (fk_world f')) = length (tr_chans (fk_world f))"
      "tr_watchers (fk_world f') = tr_watchers (fk_world f)"
    using a(3) quiet by (cases ?ev; simp add: told_def)+
  have "slack res n f'"
  proof (rule slack_next [OF assms(2)])
    fix wns r assume r: "watching res wns r f'"
    then have w: "r < length (tr_chans (fk_world f))" using watcher_valid [OF a(2) r] chans(1) by simp
    have "\<not> rw_Stopped (tr_chans (fk_world f) ! r)"
      using r w a(3) quiet by (cases ?ev) (auto simp: watching_def told_def delivered_nth push_def split: if_splits)
    with r chans(2) told_nth(2) [OF a(3) quiet w] show "unread r f' = []
        \<or> (watching res wns r f \<and> length (unread r f') \<le> Suc (length (unread r f)))"
      by (auto simp: unread_def watching_def split: option.split)
  qed
  with a show ?thesis by simp
next
  case (Watch_op c opts)
  show ?thesis
  proof (cases "ExtractFromListOptions sp opts")
    case (Return sel)
    obtain f1 where f1: "if_Watch (i c) opts f = (Return (Some (length (tr_chans (fk_world f))), None), f1)" "ok f1"
        "fk_world f1 = watched res (ns c) (fk_world f)" using watch [OF assms(1) Return] by blast
    then have eq: "f' = f1" "a \<noteq> channel_full" using assms(3) Watch_op by (auto simp: do_op_def channel_full_def)
    have "slack res n f1"
    proof (rule slack_next [OF assms(2)])
      fix wns r assume r: "watching res wns r f1"
      then have "r < Suc (length (tr_chans (fk_world f)))" using watcher_valid [OF f1(2) r] f1(3) by simp
      moreover have "length (tr_chans (fk_world f)) \<notin> set (tr_watchers (fk_world f) res wns)"
        using ok_tracker [OF assms(1)] unfolding tracker_ok_def watchers_ok_def by blast
      ultimately show "unread r f1 = [] \<or> (watching res wns r f \<and> length (unread r f1) \<le> Suc (length (unread r f)))"
        using r f1(3) by (cases "r = length (tr_chans (fk_world f))")
          (auto simp: watching_def unread_def nth_append NewRaceFreeFake_def split: if_splits)
    qed
    with f1(2) eq show ?thesis by simp
  next
    case (Panic msg)
    then have "f' = f" "a \<noteq> channel_full"
      using assms(3) watch_panics [OF assms(1) Panic] Watch_op by (auto simp: do_op_def channel_full_def)
    with assms(1) slack_next [OF assms(2), of f] show ?thesis by simp
  qed
next
  case (Receive_op r')
  obtain ev w where w: "watcher_receive (tr_chans (fk_world f) ! r') = (ev, w)" by (cases "watcher_receive (tr_chans (fk_world f) ! r')")
  then have f': "f' = set_watcher r' w f" "a = ReceiveAnswer ev" using assms(3) Receive_op by (simp_all add: do_op_def)
  have "rw_Stopped w = rw_Stopped (tr_chans (fk_world f) ! r')"
      "length (rw_result w) \<le> length (rw_result (tr_chans (fk_world f) ! r'))"
    using w by (auto simp: watcher_receive_def split: list.splits)
  then have "slack res n f'" unfolding f'(1) by (intro slack_reader [OF assms(2)]) simp_all
  with reader [OF assms(1)] f' show ?thesis by (simp add: channel_full_def)
next
  case (Stop_op r')
  then have f': "f' = set_watcher r' (watcher_Stop (tr_chans (fk_world f) ! r')) f" "a = StopAnswer"
    using assms(3) by (simp_all add: do_op_def)
  have "slack res n f'" unfolding f'(1) by (intro slack_reader [OF assms(2)]) (simp_all add: watcher_Stop_def)
  with reader [OF assms(1)] f' show ?thesis by (simp add: channel_full_def)
qed

lemma slack_run:
  assumes "ok f" "slack res (length ops) f" "run_calls (do_op objects i) ops f = (as, f')"
  shows "channel_full \<notin> set as"
  using assms
proof (induction ops arbitrary: f as)
  case Nil
  then show ?case by simp
next
  case (Cons op ops)
  obtain a f1 where a: "do_op objects i op f = (a, f1)" by (cases "do_op objects i op f")
  obtain bs where bs: "run_calls (do_op objects i) ops f1 = (bs, f')" "as = a # bs"
    using Cons.prems(3) a by (auto split: prod.splits)
  have "a \<noteq> channel_full \<and> ok f1 \<and> slack res (length ops) f1"
    using slack_step [OF Cons.prems(1) _ a] Cons.prems(2) by simp
  with Cons.IH [OF _ _ bs(1)] bs(2) show ?case by auto
qed

lemma slack_unwatched: "unwatched (fk_world f) \<Longrightarrow> n \<le> DefaultChanSize \<Longrightarrow> slack res n f"
  by (simp add: slack_def watching_def unwatched_def)

lemma call_with_watchers:
  assumes "ok f"
  shows "\<exists>a f'. do_call objects (i c) cl f = (a, f')
    \<and> (a = PanicAnswer ''channel full'' \<longleftrightarrow> spec_event patcher acc (ns c) cl (fake_content res f) \<noteq> None
        \<and> (\<exists>r. r \<in> set (getWatches (fk_world f) res (ns c)) \<and> \<not> rw_Stopped (tr_chans (fk_world f) ! r) \<and> 100 \<le> length (unread r f)))
    \<and> fake_content res f' = snd (spec_call patcher sp res acc labels (ns c) cl (fake_content res f))"
proof -
  obtain f' where f': "do_call objects (i c) cl f =
      (if overflows (fk_world f) res (ns c) (spec_event patcher acc (ns c) cl (fake_content res f))
       then PanicAnswer ''channel full'' else fst (spec_call patcher sp res acc labels (ns c) cl (fake_content res f)), f')"
      "fake_content res f' = snd (spec_call patcher sp res acc labels (ns c) cl (fake_content res f))"
    using call [OF assms, of c cl] by blast
  have "overflows (fk_world f) res (ns c) ev \<longleftrightarrow> ev \<noteq> None
      \<and> (\<exists>r. r \<in> set (getWatches (fk_world f) res (ns c)) \<and> \<not> rw_Stopped (tr_chans (fk_world f) ! r) \<and> 100 \<le> length (unread r f))"
    for ev by (auto simp: overflows_def room_for_def room_def DefaultChanSize_def unread_def not_less)
  then show ?thesis using f' call_not_full by auto
qed

end

lemma FakeTenants_lists:
  assumes "tenants_ok patcher s" "ExtractFromListOptions sp options = Return sel"
  shows "\<exists>l s'. if_List (FakeTenants_interface sp c) options s = (Return (Some l, None), s')
    \<and> elems (tnl_Items l) = filter (\<lambda>t. sel_Matches sel (tn_labels t)) (listing (fake_content tenantsResource s) (ft_ns c))
    \<and> tenants_ok patcher s' \<and> fake_content tenantsResource s' = fake_content tenantsResource s
    \<and> told tenantsResource (ft_ns c) None (fk_world s) (fk_world s')"
  using ft.call [OF assms(1), of sp c "List_call options"] assms(2)
  by (auto simp: do_call_def answer_of_def spec_call_def spec_event_def split: prod.splits outcome.splits)

section \<open>Properties\<close>

text \<open>C6. Fake clientsets made from objects with distinct names return without a panic and then behave as
  a map, whatever calls, new watches, receives and stops follow, through clients of any namespaces: what
  is stored is what the map holds, and every \<open>Get\<close>, \<open>List\<close>, \<open>Create\<close>, \<open>Update\<close>, \<open>UpdateStatus\<close>, \<open>Delete\<close>
  and \<open>Patch\<close> gets the answer the map gives, errors included, a list exactly the matching objects of the
  namespace, ordered by name, and a \<open>DeleteCollection\<close> an answer without an error, deleting nothing. The
  only exception is a call that changes something while a watcher of its namespace is full: it
  panics, and the change is stored all the same. Before the first watch there is no such call.\<close>

theorem fake_clients_are_maps:
  assumes "distinct (map (object_key tn_accessor) ts)" "distinct (map (object_key pc_accessor) ps)"
  shows "(\<exists>f. ft_NewSimpleClientset tpatcher (map ItemObject ts) = Return f
      \<and> map_like (\<lambda>l. elems (tnl_Items l)) (FakeTenants_interface sp) tpatcher sp tenantsResource tn_accessor tn_labels ft_ns
          (keyed tn_accessor ts) f)
    \<and> (\<exists>f. fp_NewSimpleClientset ppatcher (map ItemObject ps) = Return f
      \<and> map_like (\<lambda>l. elems (pcl_Items l)) (FakeProviderConfigs_interface sp) ppatcher sp providerconfigsResource pc_accessor
          pc_labels fp_ns (keyed pc_accessor ps) f)"
  using new_tenants [OF assms(1), of tpatcher] new_provider_configs [OF assms(2), of ppatcher] ft.run_maps fp.run_maps by blast

text \<open>A patch that gives an object an empty list of conditions.\<close>

definition settled_status :: "tenant \<Rightarrow> tenant" where
  "settled_status t = t\<lparr>tn_Status := \<lparr>tst_Conditions = Some []\<rparr>\<rparr>"

definition settling :: "tenant patcher" where
  "settling = \<lparr>pa_Unmarshal = (\<lambda>data. None), pa_patched = (\<lambda>pt data t. Inr (settled_status t))\<rparr>"

definition zero_PatchOptions :: PatchOptions where
  "zero_PatchOptions = \<lparr>po_DryRun = None, po_Force = None, po_FieldManager = [], po_FieldValidation = []\<rparr>"

definition map_demo :: "(FakeTenants, tenant) client_op list" where
  "map_demo =
     [Call_op \<lparr>ft_ns = []\<rparr> (Delete_call ''a'' zero_DeleteOptions),
      Call_op \<lparr>ft_ns = []\<rparr> (DeleteCollection_call zero_DeleteOptions zero_ListOptions),
      Call_op \<lparr>ft_ns = []\<rparr> (Patch_call ''b'' MergePatchType ''{}'' zero_PatchOptions [])]"

lemma named_tenant_acc:
  "acc_namespace tn_accessor (named_tenant n) = []" "acc_name tn_accessor (named_tenant n) = n"
  "acc_namespace tn_accessor (settled_status (named_tenant n)) = []" "acc_name tn_accessor (settled_status (named_tenant n)) = n"
  "placed tn_accessor [] (settled_status (named_tenant n)) = settled_status (named_tenant n)"
  by (simp_all add: tn_accessor_def named_tenant_def zero_tenant_def zero_ObjectMeta_def settled_status_def placed_def)

lemma map_demo_content:
  "fold (op_content settling everything tenantsResource tn_accessor tn_labels ft_ns) map_demo
      (keyed tn_accessor [named_tenant ''b'', named_tenant ''a'']) = [([], ''b'') \<mapsto> settled_status (named_tenant ''b'')]"
proof -
  have k: "keyed tn_accessor [named_tenant ''b'', named_tenant ''a'']
      = [([], ''b'') \<mapsto> named_tenant ''b'', ([], ''a'') \<mapsto> named_tenant ''a'']"
    by (simp add: keyed_def object_key_def named_tenant_acc fun_upd_twist)
  show ?thesis unfolding k
    by (simp add: map_demo_def op_content_def spec_call_def spec_patch_def spec_write_def patch_of_def unreadable_def
        settling_def everything_def ExtractFromListOptions_def fits_def named_tenant_acc fun_eq_iff)
qed

theorem fake_clients_are_maps_witness:
  "\<exists>f as f'. ft_NewSimpleClientset settling (map ItemObject [named_tenant ''b'', named_tenant ''a'']) = Return f
     \<and> run_calls (do_op (\<lambda>l. elems (tnl_Items l)) (FakeTenants_interface everything)) map_demo f = (as, f')
     \<and> fst (do_call (\<lambda>l. elems (tnl_Items l)) (FakeTenants_interface everything \<lparr>ft_ns = []\<rparr>) (List_call zero_ListOptions) f')
       = ListAnswer (Some [settled_status (named_tenant ''b'')]) None"
proof -
  have "distinct (map (object_key tn_accessor) [named_tenant ''b'', named_tenant ''a''])"
    "distinct (map (object_key pc_accessor) [])"
    by (simp_all add: object_key_def named_tenant_acc)
  from fake_clients_are_maps [OF this, where tpatcher = settling and ppatcher = no_patches and sp = everything]
  obtain f where f: "ft_NewSimpleClientset settling (map ItemObject [named_tenant ''b'', named_tenant ''a'']) = Return f"
    "map_like (\<lambda>l. elems (tnl_Items l)) (FakeTenants_interface everything) settling everything tenantsResource tn_accessor
       tn_labels ft_ns (keyed tn_accessor [named_tenant ''b'', named_tenant ''a'']) f" by blast
  obtain as f' where run: "run_calls (do_op (\<lambda>l. elems (tnl_Items l)) (FakeTenants_interface everything)) map_demo f = (as, f')"
    by (cases "run_calls (do_op (\<lambda>l. elems (tnl_Items l)) (FakeTenants_interface everything)) map_demo f")
  have "fst (do_call (\<lambda>l. elems (tnl_Items l)) (FakeTenants_interface everything \<lparr>ft_ns = []\<rparr>) (List_call zero_ListOptions) f')
      = fst (spec_call settling everything tenantsResource tn_accessor tn_labels [] (List_call zero_ListOptions)
          [([], ''b'') \<mapsto> settled_status (named_tenant ''b'')])"
    using f(2) [unfolded map_like_def Let_def map_demo_content, rule_format, OF run, unfolded map_demo_content]
    by (auto simp: map_demo_def spec_event_def)
  also have "\<dots> = ListAnswer (Some [settled_status (named_tenant ''b'')]) None"
    by (simp add: spec_call_def everything_def ExtractFromListOptions_def listing_def)
  finally show ?thesis using f(1) run by blast
qed

text \<open>C7. A watcher made by the fake Tenant client is told everything that happens from then on in the
  client's namespace, in order, whoever changed it and in whatever way receives, stops of other
  watchers, new watches and calls in other namespaces interleave: what was received followed by what
  is unread is the sequence of changes, and replayed over what the namespace held at the start it
  gives what the namespace holds at the end, as long as no channel was full.\<close>

theorem watch_complete:
  assumes "tenants_ok patcher f" "ExtractFromListOptions sp opts = Return sel"
    and "run_calls (do_op (\<lambda>l. elems (tnl_Items l)) (FakeTenants_interface sp)) (Watch_op c opts # ops) f = (as, f')"
    and "r = length (tr_chans (fk_world f))" "Stop_op r \<notin> set ops" "channel_full \<notin> set as"
  shows "hd as = WatchAnswer (Return (Some r, None))
    \<and> received_from r ops (tl as) @ unread r f'
      = run_events patcher sp tenantsResource tn_accessor tn_labels ft_ns (ft_ns c) ops (fake_content tenantsResource f)
    \<and> fold (apply_event tn_accessor) (received_from r ops (tl as) @ unread r f')
        (ns_view (ft_ns c) (fake_content tenantsResource f))
      = ns_view (ft_ns c) (fake_content tenantsResource f')"
  using ft.watch_history [OF assms(1-3)] assms(5,6) unfolding assms(4) by blast

definition create_options :: CreateOptions where
  "create_options = \<lparr>co_DryRun = None, co_FieldManager = [], co_FieldValidation = []\<rparr>"

definition watch_demo :: "(FakeTenants, tenant) client_op list" where
  "watch_demo =
     [Call_op \<lparr>ft_ns = ''n''\<rparr> (Create_call (named_tenant ''b'') create_options),
      Call_op \<lparr>ft_ns = ''m''\<rparr> (Create_call (named_tenant ''c'') create_options),
      Receive_op 0,
      Call_op \<lparr>ft_ns = ''n''\<rparr> (Delete_call ''b'' zero_DeleteOptions)]"

lemma watch_demo_events:
  "run_events no_patches everything tenantsResource tn_accessor tn_labels ft_ns ''n'' watch_demo Map.empty
    = [Added_event (placed tn_accessor ''n'' (named_tenant ''b'')), Deleted_event (placed tn_accessor ''n'' (named_tenant ''b''))]"
  by (simp add: watch_demo_def in_namespace_def spec_event_def write_event_def spec_call_def spec_write_def fits_def
      named_tenant_acc)

theorem watch_complete_witness:
  "\<exists>f as f'. ft_NewSimpleClientset no_patches [] = Return f
     \<and> run_calls (do_op (\<lambda>l. elems (tnl_Items l)) (FakeTenants_interface everything))
         (Watch_op \<lparr>ft_ns = ''n''\<rparr> zero_ListOptions # watch_demo) f = (as, f')
     \<and> received_from (length (tr_chans (fk_world f))) watch_demo (tl as) @ unread (length (tr_chans (fk_world f))) f'
       = [Added_event (placed tn_accessor ''n'' (named_tenant ''b'')),
          Deleted_event (placed tn_accessor ''n'' (named_tenant ''b''))]"
proof -
  obtain f where f: "ft_NewSimpleClientset no_patches [] = Return f" "tenants_ok no_patches f" "unwatched (fk_world f)"
      "fake_content tenantsResource f = Map.empty"
    using new_tenants [of "[]" no_patches] by (auto simp: keyed_def)
  let ?ops = "Watch_op \<lparr>ft_ns = ''n''\<rparr> zero_ListOptions # watch_demo"
  let ?run = "run_calls (do_op (\<lambda>l. elems (tnl_Items l)) (FakeTenants_interface everything)) ?ops f"
  obtain as f' where run: "?run = (as, f')" by (cases ?run)
  have "slack tenantsResource (length ?ops) f"
    by (rule ft.slack_unwatched [OF f(3)]) (simp add: watch_demo_def DefaultChanSize_def)
  from ft.slack_run [OF f(2) this run] have quiet: "channel_full \<notin> set as" .
  have sel: "\<exists>sel. ExtractFromListOptions everything zero_ListOptions = Return sel"
    by (simp add: everything_def ExtractFromListOptions_def)
  have "Stop_op (length (tr_chans (fk_world f))) \<notin> set watch_demo" by (simp add: watch_demo_def)
  with watch_complete [OF f(2) _ run refl _ quiet] sel f(1,4) run show ?thesis by (auto simp: watch_demo_events)
qed

text \<open>C34. A call of the fake Tenant client panics for a full channel exactly when it changes something and
  a watcher of its namespace, or of all namespaces, that was not stopped has 100 events it has not
  read; the change is stored all the same.\<close>

theorem full_watcher_panics:
  assumes "tenants_ok patcher f"
  shows "\<exists>a f'. do_call (\<lambda>l. elems (tnl_Items l)) (FakeTenants_interface sp c) cl f = (a, f')
    \<and> (a = PanicAnswer ''channel full'' \<longleftrightarrow>
        spec_event patcher tn_accessor (ft_ns c) cl (fake_content tenantsResource f) \<noteq> None
        \<and> (\<exists>r. r \<in> set (getWatches (fk_world f) tenantsResource (ft_ns c))
              \<and> \<not> rw_Stopped (tr_chans (fk_world f) ! r) \<and> 100 \<le> length (unread r f)))
    \<and> fake_content tenantsResource f'
      = snd (spec_call patcher sp tenantsResource tn_accessor tn_labels (ft_ns c) cl (fake_content tenantsResource f))"
  by (rule ft.call_with_watchers [OF assms])

definition update_options :: UpdateOptions where
  "update_options = \<lparr>uo_DryRun = None, uo_FieldManager = [], uo_FieldValidation = []\<rparr>"

definition touch :: "(FakeTenants, tenant) client_op" where
  "touch = Call_op \<lparr>ft_ns = []\<rparr> (Update_call (named_tenant ''a'') update_options)"

lemma touch_content:
  "spec_call no_patches everything tenantsResource tn_accessor tn_labels [] (Update_call (named_tenant ''a'') update_options)
      [([], ''a'') \<mapsto> named_tenant ''a''] = (ObjectAnswer (Some (named_tenant ''a'')) None, [([], ''a'') \<mapsto> named_tenant ''a''])"
    "spec_event patcher tn_accessor [] (Update_call (named_tenant ''a'') update_options)
      [([], ''a'') \<mapsto> named_tenant ''a''] = Some (Modified_event (named_tenant ''a''))"
proof -
  have "placed tn_accessor [] (named_tenant ''a'') = named_tenant ''a''"
    using typed_accessors_ok(1) unfolding accessor_ok_def placed_def by (metis named_tenant_acc(1))
  then show "spec_call no_patches everything tenantsResource tn_accessor tn_labels [] (Update_call (named_tenant ''a'') update_options)
      [([], ''a'') \<mapsto> named_tenant ''a''] = (ObjectAnswer (Some (named_tenant ''a'')) None, [([], ''a'') \<mapsto> named_tenant ''a''])"
    "spec_event patcher tn_accessor [] (Update_call (named_tenant ''a'') update_options)
      [([], ''a'') \<mapsto> named_tenant ''a''] = Some (Modified_event (named_tenant ''a''))"
    by (simp_all add: spec_call_def spec_write_def spec_event_def write_event_def fits_def named_tenant_acc)
qed

lemma touch_events:
  "run_events no_patches everything tenantsResource tn_accessor tn_labels ft_ns [] (replicate n touch) [([], ''a'') \<mapsto> named_tenant ''a'']
    = replicate n (Modified_event (named_tenant ''a''))"
  "fold (op_content no_patches everything tenantsResource tn_accessor tn_labels ft_ns) (replicate n touch) [([], ''a'') \<mapsto> named_tenant ''a'']
    = [([], ''a'') \<mapsto> named_tenant ''a'']"
  by (induction n) (simp_all add: touch_def op_content_def in_namespace_def touch_content)

theorem full_watcher_panics_witness:
  "\<exists>f as f1 f2. ft_NewSimpleClientset no_patches [ItemObject (named_tenant ''a'')] = Return f
     \<and> run_calls (do_op (\<lambda>l. elems (tnl_Items l)) (FakeTenants_interface everything))
         (Watch_op \<lparr>ft_ns = []\<rparr> zero_ListOptions # replicate 100 touch) f = (as, f1)
     \<and> do_call (\<lambda>l. elems (tnl_Items l)) (FakeTenants_interface everything \<lparr>ft_ns = []\<rparr>)
         (Update_call (named_tenant ''a'') update_options) f1 = (PanicAnswer ''channel full'', f2)"
proof -
  obtain f where f: "ft_NewSimpleClientset no_patches (map ItemObject [named_tenant ''a'']) = Return f"
      "tenants_ok no_patches f" "unwatched (fk_world f)" "fake_content tenantsResource f = keyed tn_accessor [named_tenant ''a'']"
    using new_tenants [of "[named_tenant ''a'']" no_patches] by auto
  have "\<exists>sel. ExtractFromListOptions everything zero_ListOptions = Return sel"
    by (simp add: everything_def ExtractFromListOptions_def)
  then obtain f0 where f0: "if_Watch (FakeTenants_interface everything \<lparr>ft_ns = []\<rparr>) zero_ListOptions f
      = (Return (Some (length (tr_chans (fk_world f))), None), f0)" "tenants_ok no_patches f0"
      "fk_world f0 = watched tenantsResource [] (fk_world f)"
    using ft.watch [OF f(2), where c = "\<lparr>ft_ns = []\<rparr>"] by fastforce
  let ?r = "length (tr_chans (fk_world f))" and ?st = "[([], ''a'') \<mapsto> named_tenant ''a'']"
  let ?do = "do_op (\<lambda>l. elems (tnl_Items l)) (FakeTenants_interface everything)"
  have st: "fake_content tenantsResource f0 = ?st"
    using f(4) f0(3) by (simp add: fake_content_def keyed_def object_key_def named_tenant_acc)
  have new: "watching tenantsResource [] ?r f0" "unread ?r f0 = []" "slack tenantsResource 100 f0"
    using f(3) f0(3) by (auto simp: watching_def unread_def slack_def DefaultChanSize_def NewRaceFreeFake_def
        unwatched_def nth_append split: if_splits)
  obtain as f1 where run: "run_calls ?do (replicate 100 touch) f0 = (as, f1)" by (cases "run_calls ?do (replicate 100 touch) f0")
  have "channel_full \<notin> set as" by (rule ft.slack_run [OF f0(2) _ run]) (simp add: new(3))
  moreover have "Stop_op ?r \<notin> set (replicate 100 touch)" by (simp add: touch_def)
  ultimately have f1: "tenants_ok no_patches f1" "watching tenantsResource [] ?r f1" "fake_content tenantsResource f1 = ?st"
      "received_from ?r (replicate 100 touch) as @ unread ?r f1 = replicate 100 (Modified_event (named_tenant ''a''))"
    using ft.run_history [OF f0(2) new(1) run] unfolding st touch_events new(2) by auto
  have "received_from ?r (replicate 100 touch) as = []"
    unfolding received_from_def received_one_def by (auto simp: touch_def set_zip)
  with f1(4) have full: "100 \<le> length (unread ?r f1)" by simp
  have "?r \<in> set (getWatches (fk_world f1) tenantsResource [])" "\<not> rw_Stopped (tr_chans (fk_world f1) ! ?r)"
    using f1(2) by (simp_all add: watching_def getWatches_def)
  with full full_watcher_panics [OF f1(1), of everything "\<lparr>ft_ns = []\<rparr>" "Update_call (named_tenant ''a'') update_options"]
  obtain f2 where "do_call (\<lambda>l. elems (tnl_Items l)) (FakeTenants_interface everything \<lparr>ft_ns = []\<rparr>)
         (Update_call (named_tenant ''a'') update_options) f1 = (PanicAnswer ''channel full'', f2)"
    by (auto simp: f1(3) touch_content(2))
  moreover have "run_calls ?do (Watch_op \<lparr>ft_ns = []\<rparr> zero_ListOptions # replicate 100 touch) f
      = (WatchAnswer (Return (Some ?r, None)) # as, f1)"
    using f0(1) run by (simp add: do_op_def)
  ultimately show ?thesis using f(1) by auto
qed

section \<open>Between a list and a watch\<close>

text \<open>
  A reader that lists and then watches misses what was created in between, whatever resource version it
  watches from: the watch reactor of the clientset does not hand its options to the tracker.
\<close>

theorem list_watch_gap:
  assumes "tenants_ok patcher f" "unwatched (fk_world f)" "fits tn_accessor (ft_ns c) ob"
    and "fake_content tenantsResource f (ft_ns c, acc_name tn_accessor ob) = None"
    and "ExtractFromListOptions sp opts = Return sel" "ExtractFromListOptions sp opts' = Return sel'"
  shows "\<exists>l f1 f2 r f3. FakeTenants_List sp c opts f = (Return (Some l, None), f1)
    \<and> FakeTenants_Create c ob copts f1 = (Return (Some (placed tn_accessor (ft_ns c) ob), None), f2)
    \<and> FakeTenants_Watch sp c opts' f2 = (Return (Some r, None), f3)
    \<and> placed tn_accessor (ft_ns c) ob \<notin> set (elems (tnl_Items l)) \<and> unread r f3 = []
    \<and> fake_content tenantsResource f3 (ft_ns c, acc_name tn_accessor ob) = Some (placed tn_accessor (ft_ns c) ob)"
proof -
  let ?i = "FakeTenants_interface sp c" and ?k = "(ft_ns c, acc_name tn_accessor ob)"
  obtain l f1 where l: "if_List ?i opts f = (Return (Some l, None), f1)"
      "elems (tnl_Items l) = filter (\<lambda>t. sel_Matches sel (tn_labels t)) (listing (fake_content tenantsResource f) (ft_ns c))"
      "tenants_ok patcher f1" "fake_content tenantsResource f1 = fake_content tenantsResource f"
      "told tenantsResource (ft_ns c) None (fk_world f) (fk_world f1)"
    using FakeTenants_lists [OF assms(1,5), of c] by blast
  have un: "unwatched (fk_world f1)" using l(5) assms(2) by (simp add: told_def unwatched_def)
  then have "\<not> overflows (fk_world f1) tenantsResource (ft_ns c) ev" for ev by (simp add: overflows_def unwatched_room)
  then obtain f2 where f2: "if_Create ?i ob copts f1 = (Return (Some (placed tn_accessor (ft_ns c) ob), None), f2)"
      "tenants_ok patcher f2" "fake_content tenantsResource f2 ?k = Some (placed tn_accessor (ft_ns c) ob)"
    using ft.call [OF l(3), of sp c "Create_call ob copts"] assms(3,4)
    by (auto simp: do_call_def answer_of_def spec_call_def spec_write_def l(4) split: prod.splits outcome.splits)
  obtain r f3 where f3: "if_Watch ?i opts' f2 = (Return (Some r, None), f3)" "unread r f3 = []"
      "fake_content tenantsResource f3 = fake_content tenantsResource f2"
    using ft.watch_starts [OF f2(2) assms(6), of c] by blast
  have fin: "finite (dom (fake_content tenantsResource f))"
    using ft.ok_tracker [OF assms(1)] by (simp add: tracker_ok_def fake_content_def stored_def dom_def)
  have "placed tn_accessor (ft_ns c) ob \<notin> set (listing (fake_content tenantsResource f) (ft_ns c))"
  proof
    assume "placed tn_accessor (ft_ns c) ob \<in> set (listing (fake_content tenantsResource f) (ft_ns c))"
    then obtain k where "fake_content tenantsResource f k = Some (placed tn_accessor (ft_ns c) ob)"
      using fin by (auto simp: listing_def)
    then have "k = ?k"
      using tracker_keys_ok [OF ft.ok_tracker [OF assms(1)]] object_key_placed [OF typed_accessors_ok(1) assms(3)]
      unfolding keys_ok_def by metis
    with assms(4) \<open>fake_content tenantsResource f k = _\<close> show False by simp
  qed
  then show ?thesis using l(1,2) f2(1,3) f3 by (auto simp: FakeTenants_interface_def)
qed

end
