(* ===== verification/TypedInformers.thy ===== *)
theory TypedInformers imports FactoryLife FakeWatch begin

text \<open>
  The informers and listers of the two generated packages
  (\<open>pkg/tenant/client/informers/externalversions\<close> and
  \<open>pkg/providerconfig/client/informers/externalversions\<close>) over the shared factory. The wrappers of
  the chain \<open>Tenancy().V1_kubernetes_apis().Tenants()\<close> hold the factory by reference; it is the one
  of the world. A client (\<open>versioned.Interface\<close>) is the interface of the resource in a namespace.
  What an informer does with its list and watch functions is not modelled: here they are its fields.
\<close>

section \<open>Informers of a type\<close>

text \<open>\<open>cache.ListWatch\<close>\<close>

record ('l, 'wi, 's) ListWatch =
  lw_ListFunc :: "ListOptions \<Rightarrow> ('l, 's) client_call"
  lw_WatchFunc :: "ListOptions \<Rightarrow> ('wi, 's) client_call"

record ('o, 'l, 'wi, 's) typed_informer =
  tyi_listerWatcher :: "('l, 'wi, 's) ListWatch"
  tyi_objectType :: go_type
  tyi_resyncPeriod :: int
  tyi_indexer :: "'o cache"

definition NewSharedIndexInformer ::
  "('l, 'wi, 's) ListWatch \<Rightarrow> go_type \<Rightarrow> int \<Rightarrow> (string \<times> 'o key_arg IndexFunc) list
   \<Rightarrow> ('o, 'l, 'wi, 's) typed_informer" where
  "NewSharedIndexInformer lw exampleObject resyncPeriod ixs =
     \<lparr>tyi_listerWatcher = lw, tyi_objectType = exampleObject, tyi_resyncPeriod = resyncPeriod,
      tyi_indexer = NewThreadSafeStore ixs\<rparr>"

definition GetIndexer ::
  "'o accessor \<Rightarrow> nat \<Rightarrow> ('c, ('o, 'l, 'wi, 's) typed_informer) factory_world \<Rightarrow> 'o Indexer" where
  "GetIndexer acc r w = cache_Indexer (DeletionHandlingMetaNamespaceKeyFunc acc)
     (tyi_indexer (sh_informer (fw_informers w ! r)))"

text \<open>\<open>generic.go\<close>, and the generic lister of \<open>vendor/k8s.io/client-go/tools/cache/listers.go\<close>\<close>

record genericInformer =
  gi_informer :: nat
  gi_resource :: GroupVersionResource

definition genericInformer_Informer :: "genericInformer \<Rightarrow> nat" where
  "genericInformer_Informer f = gi_informer f"

record 'o genericLister =
  gl_indexer :: "'o Indexer"
  gl_resource :: GroupVersionResource

definition NewGenericLister :: "'o Indexer \<Rightarrow> GroupVersionResource \<Rightarrow> 'o genericLister" where
  "NewGenericLister ix resource = \<lparr>gl_indexer = ix, gl_resource = resource\<rparr>"

definition genericLister_List :: "'o labels_of \<Rightarrow> 'o genericLister \<Rightarrow> selector \<Rightarrow> ('o list \<times> error) outcome" where
  "genericLister_List labels s sel = ListAll labels (gl_indexer s) sel"

definition genericLister_Get :: "'o genericLister \<Rightarrow> string \<Rightarrow> (go_error + 'o) outcome" where
  "genericLister_Get s name = as_lookup (ix_GetByKey (gl_indexer s) name) (gl_resource s) name"

section \<open>The Tenant informers\<close>

text \<open>\<open>tenant/v1_kubernetes_apis/tenant.go\<close>\<close>

type_synonym ('wi, 's) tn_client = "string \<Rightarrow> ('wi, 's) TenantInterface"
type_synonym ('wi, 's) tn_informer = "(tenant, tenant_list, 'wi, 's) typed_informer"
type_synonym ('wi, 's) tn_world = "(('wi, 's) tn_client, ('wi, 's) tn_informer) factory_world"

definition NewFilteredTenantInformer ::
  "('wi, 's) tn_client \<Rightarrow> string \<Rightarrow> int \<Rightarrow> (string \<times> tenant key_arg IndexFunc) list \<Rightarrow> TweakListOptionsFunc \<Rightarrow> ('wi, 's) tn_informer" where
  "NewFilteredTenantInformer client namespace resyncPeriod ixs tweakListOptions =
     NewSharedIndexInformer
       \<lparr>lw_ListFunc = (\<lambda>options.
          let options = (case tweakListOptions of None \<Rightarrow> options | Some tweak \<Rightarrow> tweak options)
          in if_List (client namespace) options),
        lw_WatchFunc = (\<lambda>options.
          let options = (case tweakListOptions of None \<Rightarrow> options | Some tweak \<Rightarrow> tweak options)
          in if_Watch (client namespace) options)\<rparr>
       (tenant_type ''Tenant'') resyncPeriod ixs"

definition NewTenantInformer ::
  "('wi, 's) tn_client \<Rightarrow> string \<Rightarrow> int \<Rightarrow> (string \<times> tenant key_arg IndexFunc) list \<Rightarrow> ('wi, 's) tn_informer" where
  "NewTenantInformer client namespace resyncPeriod ixs =
     NewFilteredTenantInformer client namespace resyncPeriod ixs None"

record tenantInformer =
  ti_tweakListOptions :: TweakListOptionsFunc
  ti_namespace :: string

definition tenantInformer_defaultInformer :: "tenantInformer \<Rightarrow> ('wi, 's) tn_client \<Rightarrow> int \<Rightarrow> ('wi, 's) tn_informer" where
  "tenantInformer_defaultInformer f client resyncPeriod =
     NewFilteredTenantInformer client (ti_namespace f) resyncPeriod
       [(''namespace'', MetaNamespaceIndexFunc tn_accessor)] (ti_tweakListOptions f)"

definition tenantInformer_Informer :: "tenantInformer \<Rightarrow> ('wi, 's) tn_world \<Rightarrow> nat \<times> ('wi, 's) tn_world" where
  "tenantInformer_Informer f w = InformerFor (tenant_type ''Tenant'') (tenantInformer_defaultInformer f) w"

definition tenantInformer_Lister :: "tenantInformer \<Rightarrow> ('wi, 's) tn_world \<Rightarrow> tenantLister \<times> ('wi, 's) tn_world" where
  "tenantInformer_Lister f w =
     (case tenantInformer_Informer f w of (r, w) \<Rightarrow> (NewTenantLister (GetIndexer tn_accessor r w), w))"

text \<open>\<open>tenant/interface.go\<close>, \<open>tenant/v1_kubernetes_apis/interface.go\<close>\<close>

record tn_group =
  tng_namespace :: string
  tng_tweakListOptions :: TweakListOptionsFunc

record tn_version =
  tnv_namespace :: string
  tnv_tweakListOptions :: TweakListOptionsFunc

definition tn_group_New :: "string \<Rightarrow> TweakListOptionsFunc \<Rightarrow> tn_group" where
  "tn_group_New namespace tweakListOptions = \<lparr>tng_namespace = namespace, tng_tweakListOptions = tweakListOptions\<rparr>"

definition tn_version_New :: "string \<Rightarrow> TweakListOptionsFunc \<Rightarrow> tn_version" where
  "tn_version_New namespace tweakListOptions = \<lparr>tnv_namespace = namespace, tnv_tweakListOptions = tweakListOptions\<rparr>"

definition tn_V1_kubernetes_apis :: "tn_group \<Rightarrow> tn_version" where
  "tn_V1_kubernetes_apis g = tn_version_New (tng_namespace g) (tng_tweakListOptions g)"

definition tn_version_Tenants :: "tn_version \<Rightarrow> tenantInformer" where
  "tn_version_Tenants v = \<lparr>ti_tweakListOptions = tnv_tweakListOptions v, ti_namespace = tnv_namespace v\<rparr>"

text \<open>\<open>factory.go\<close>, \<open>generic.go\<close>\<close>

definition factory_Tenancy :: "('wi, 's) tn_world \<Rightarrow> tn_group" where
  "factory_Tenancy w = tn_group_New (sf_namespace (fw_factory w)) (sf_tweakListOptions (fw_factory w))"

definition tn_ForResource ::
  "GroupVersionResource \<Rightarrow> ('wi, 's) tn_world \<Rightarrow> (go_error + genericInformer) \<times> ('wi, 's) tn_world" where
  "tn_ForResource resource w =
     (if resource = WithResource tenant_SchemeGroupVersion ''tenants''
      then case tenantInformer_Informer (tn_version_Tenants (tn_V1_kubernetes_apis (factory_Tenancy w))) w of
             (r, w) \<Rightarrow> (Inr \<lparr>gi_informer = r, gi_resource = GroupResource resource\<rparr>, w)
      else (Inl (Errorf ''no informer found for %v'' []), w))"

definition tn_genericInformer_Lister :: "genericInformer \<Rightarrow> ('wi, 's) tn_world \<Rightarrow> tenant genericLister" where
  "tn_genericInformer_Lister f w = NewGenericLister (GetIndexer tn_accessor (genericInformer_Informer f) w) (gi_resource f)"

section \<open>The ProviderConfig informers\<close>

text \<open>\<open>providerconfig/v1_kubernetes_apis/providerconfig.go\<close>\<close>

type_synonym ('wi, 's) pc_client = "string \<Rightarrow> ('wi, 's) ProviderConfigInterface"
type_synonym ('wi, 's) pc_informer = "(provider_config, provider_config_list, 'wi, 's) typed_informer"
type_synonym ('wi, 's) pc_world = "(('wi, 's) pc_client, ('wi, 's) pc_informer) factory_world"

definition NewFilteredProviderConfigInformer ::
  "('wi, 's) pc_client \<Rightarrow> string \<Rightarrow> int \<Rightarrow> (string \<times> provider_config key_arg IndexFunc) list \<Rightarrow> TweakListOptionsFunc \<Rightarrow> ('wi, 's) pc_informer" where
  "NewFilteredProviderConfigInformer client namespace resyncPeriod ixs tweakListOptions =
     NewSharedIndexInformer
       \<lparr>lw_ListFunc = (\<lambda>options.
          let options = (case tweakListOptions of None \<Rightarrow> options | Some tweak \<Rightarrow> tweak options)
          in if_List (client namespace) options),
        lw_WatchFunc = (\<lambda>options.
          let options = (case tweakListOptions of None \<Rightarrow> options | Some tweak \<Rightarrow> tweak options)
          in if_Watch (client namespace) options)\<rparr>
       (pc_type ''ProviderConfig'') resyncPeriod ixs"

definition NewProviderConfigInformer ::
  "('wi, 's) pc_client \<Rightarrow> string \<Rightarrow> int \<Rightarrow> (string \<times> provider_config key_arg IndexFunc) list \<Rightarrow> ('wi, 's) pc_informer" where
  "NewProviderConfigInformer client namespace resyncPeriod ixs =
     NewFilteredProviderConfigInformer client namespace resyncPeriod ixs None"

record providerConfigInformer =
  pci_tweakListOptions :: TweakListOptionsFunc
  pci_namespace :: string

definition providerConfigInformer_defaultInformer :: "providerConfigInformer \<Rightarrow> ('wi, 's) pc_client \<Rightarrow> int \<Rightarrow> ('wi, 's) pc_informer" where
  "providerConfigInformer_defaultInformer f client resyncPeriod =
     NewFilteredProviderConfigInformer client (pci_namespace f) resyncPeriod
       [(''namespace'', MetaNamespaceIndexFunc pc_accessor)] (pci_tweakListOptions f)"

definition providerConfigInformer_Informer :: "providerConfigInformer \<Rightarrow> ('wi, 's) pc_world \<Rightarrow> nat \<times> ('wi, 's) pc_world" where
  "providerConfigInformer_Informer f w = InformerFor (pc_type ''ProviderConfig'') (providerConfigInformer_defaultInformer f) w"

definition providerConfigInformer_Lister :: "providerConfigInformer \<Rightarrow> ('wi, 's) pc_world \<Rightarrow> providerConfigLister \<times> ('wi, 's) pc_world" where
  "providerConfigInformer_Lister f w =
     (case providerConfigInformer_Informer f w of (r, w) \<Rightarrow> (NewProviderConfigLister (GetIndexer pc_accessor r w), w))"

text \<open>\<open>providerconfig/interface.go\<close>, \<open>providerconfig/v1_kubernetes_apis/interface.go\<close>\<close>

record pc_group =
  pcg_namespace :: string
  pcg_tweakListOptions :: TweakListOptionsFunc

record pc_version =
  pcv_namespace :: string
  pcv_tweakListOptions :: TweakListOptionsFunc

definition pc_group_New :: "string \<Rightarrow> TweakListOptionsFunc \<Rightarrow> pc_group" where
  "pc_group_New namespace tweakListOptions = \<lparr>pcg_namespace = namespace, pcg_tweakListOptions = tweakListOptions\<rparr>"

definition pc_version_New :: "string \<Rightarrow> TweakListOptionsFunc \<Rightarrow> pc_version" where
  "pc_version_New namespace tweakListOptions = \<lparr>pcv_namespace = namespace, pcv_tweakListOptions = tweakListOptions\<rparr>"

definition pc_V1_kubernetes_apis :: "pc_group \<Rightarrow> pc_version" where
  "pc_V1_kubernetes_apis g = pc_version_New (pcg_namespace g) (pcg_tweakListOptions g)"

definition pc_version_ProviderConfigs :: "pc_version \<Rightarrow> providerConfigInformer" where
  "pc_version_ProviderConfigs v = \<lparr>pci_tweakListOptions = pcv_tweakListOptions v, pci_namespace = pcv_namespace v\<rparr>"

text \<open>\<open>factory.go\<close>, \<open>generic.go\<close>\<close>

definition factory_Cloud :: "('wi, 's) pc_world \<Rightarrow> pc_group" where
  "factory_Cloud w = pc_group_New (sf_namespace (fw_factory w)) (sf_tweakListOptions (fw_factory w))"

definition pc_ForResource ::
  "GroupVersionResource \<Rightarrow> ('wi, 's) pc_world \<Rightarrow> (go_error + genericInformer) \<times> ('wi, 's) pc_world" where
  "pc_ForResource resource w =
     (if resource = WithResource pc_SchemeGroupVersion ''providerconfigs''
      then case providerConfigInformer_Informer (pc_version_ProviderConfigs (pc_V1_kubernetes_apis (factory_Cloud w))) w of
             (r, w) \<Rightarrow> (Inr \<lparr>gi_informer = r, gi_resource = GroupResource resource\<rparr>, w)
      else (Inl (Errorf ''no informer found for %v'' []), w))"

type_synonym pc_genericInformer = genericInformer

definition pc_genericInformer_Informer :: "pc_genericInformer \<Rightarrow> nat" where
  "pc_genericInformer_Informer f = gi_informer f"

definition pc_genericInformer_Lister :: "genericInformer \<Rightarrow> ('wi, 's) pc_world \<Rightarrow> provider_config genericLister" where
  "pc_genericInformer_Lister f w = NewGenericLister (GetIndexer pc_accessor (genericInformer_Informer f) w) (gi_resource f)"

section \<open>Properties\<close>

definition tweaked :: "TweakListOptionsFunc \<Rightarrow> ListOptions \<Rightarrow> ListOptions" where
  "tweaked tweak options = (case tweak of None \<Rightarrow> options | Some t \<Rightarrow> t options)"

lemma GroupResource_of_tenants: "GroupResource (WithResource tenant_SchemeGroupVersion r) = tenant_Resource r"
  by (simp add: tenant_Resource_def)

text \<open>The chain of wrappers hands the factory's namespace and tweak to the informer.\<close>

lemma tenants_of_factory:
  "tn_version_Tenants (tn_V1_kubernetes_apis (factory_Tenancy w)) =
     \<lparr>ti_tweakListOptions = sf_tweakListOptions (fw_factory w), ti_namespace = sf_namespace (fw_factory w)\<rparr>"
  by (simp add: tn_version_Tenants_def tn_V1_kubernetes_apis_def factory_Tenancy_def tn_group_New_def tn_version_New_def)

text \<open>C30. From the factory to the store: the tenant informer of a factory over a fake clientset lists exactly
  the tenants of the factory's namespace that match the tweaked options, ordered by name, and watches
  that namespace, from the moment of the call and with no regard to the selector; later requests for
  the resource by its group, version and name get this same informer; any other resource is an error
  and leaves the factory alone.\<close>

theorem tenant_informer_lists_view:
  fixes w :: "(nat, (tenant, tenant tracker) Fake) tn_world"
  assumes "factory_reachable w" "sf_client (fw_factory w) = (\<lambda>ns. FakeTenants_interface sp (FakeTenancy_Tenants ns))"
    and "tenant_type ''Tenant'' \<notin> set (map fst (sf_informers (fw_factory w)))"
    and "tenantInformer_Informer (tn_version_Tenants (tn_V1_kubernetes_apis (factory_Tenancy w))) w = (r, w1)"
    and "factory_steps w1 w2" "tenants_ok patcher s"
    and "ExtractFromListOptions sp (tweaked (sf_tweakListOptions (fw_factory w)) options) = Return sel"
  shows "(\<exists>l s'. lw_ListFunc (tyi_listerWatcher (sh_informer (fw_informers w2 ! r))) options s = (Return (Some l, None), s')
       \<and> elems (tnl_Items l) = filter (\<lambda>t. sel_Matches sel (tn_labels t))
           (listing (fake_content tenantsResource s) (sf_namespace (fw_factory w))))
    \<and> (\<exists>wr s'. lw_WatchFunc (tyi_listerWatcher (sh_informer (fw_informers w2 ! r))) options s = (Return (Some wr, None), s')
       \<and> watching tenantsResource (sf_namespace (fw_factory w)) wr s' \<and> unread wr s' = []
       \<and> fake_content tenantsResource s' = fake_content tenantsResource s)
    \<and> tn_ForResource (WithResource tenant_SchemeGroupVersion ''tenants'') w2
        = (Inr \<lparr>gi_informer = r, gi_resource = tenant_Resource ''tenants''\<rparr>, w2)
    \<and> (gvr \<noteq> WithResource tenant_SchemeGroupVersion ''tenants'' \<longrightarrow>
        (\<exists>e. tn_ForResource gvr w2 = (Inl e, w2)))"
proof (intro conjI impI)
  let ?v = "tn_version_Tenants (tn_V1_kubernetes_apis (factory_Tenancy w))"
  have none: "map_of (sf_informers (fw_factory w)) (tenant_type ''Tenant'') = None"
    using assms(3) by (simp add: map_of_eq_None_iff)
  note shared = informer_for_again [OF assms(1) assms(4) [unfolded tenantInformer_Informer_def] assms(5)]
  have inf: "sh_informer (fw_informers w2 ! r) = tenantInformer_defaultInformer ?v
      (sf_client (fw_factory w)) (resync_period (tenant_type ''Tenant'') (fw_factory w))"
    using shared none by simp
  have lw: "lw_ListFunc (tyi_listerWatcher (sh_informer (fw_informers w2 ! r))) options =
      if_List (FakeTenants_interface sp (FakeTenancy_Tenants (sf_namespace (fw_factory w))))
        (tweaked (sf_tweakListOptions (fw_factory w)) options)"
    "lw_WatchFunc (tyi_listerWatcher (sh_informer (fw_informers w2 ! r))) options =
      if_Watch (FakeTenants_interface sp (FakeTenancy_Tenants (sf_namespace (fw_factory w))))
        (tweaked (sf_tweakListOptions (fw_factory w)) options)"
    by (simp_all add: inf tenants_of_factory tenantInformer_defaultInformer_def NewFilteredTenantInformer_def
        NewSharedIndexInformer_def assms(2) tweaked_def)
  with FakeTenants_lists [OF assms(6,7), of "FakeTenancy_Tenants (sf_namespace (fw_factory w))"]
  show "\<exists>l s'. lw_ListFunc (tyi_listerWatcher (sh_informer (fw_informers w2 ! r))) options s = (Return (Some l, None), s')
       \<and> elems (tnl_Items l) = filter (\<lambda>t. sel_Matches sel (tn_labels t))
           (listing (fake_content tenantsResource s) (sf_namespace (fw_factory w)))"
    by (auto simp: lw FakeTenancy_Tenants_def)
  show "\<exists>wr s'. lw_WatchFunc (tyi_listerWatcher (sh_informer (fw_informers w2 ! r))) options s = (Return (Some wr, None), s')
       \<and> watching tenantsResource (sf_namespace (fw_factory w)) wr s' \<and> unread wr s' = []
       \<and> fake_content tenantsResource s' = fake_content tenantsResource s"
    using ft.watch_starts [OF assms(6,7), of "FakeTenancy_Tenants (sf_namespace (fw_factory w))"]
    by (auto simp: lw FakeTenancy_Tenants_def)
  show "tn_ForResource (WithResource tenant_SchemeGroupVersion ''tenants'') w2
        = (Inr \<lparr>gi_informer = r, gi_resource = tenant_Resource ''tenants''\<rparr>, w2)"
    using shared by (simp add: tn_ForResource_def tenantInformer_Informer_def GroupResource_of_tenants)
  show "\<exists>e. tn_ForResource gvr w2 = (Inl e, w2)" if "gvr \<noteq> WithResource tenant_SchemeGroupVersion ''tenants''"
    using that by (simp add: tn_ForResource_def)
qed

definition tenant_in :: "string \<Rightarrow> string \<Rightarrow> tenant" where
  "tenant_in ns n = zero_tenant\<lparr>tn_ObjectMeta := zero_ObjectMeta\<lparr>om_Name := n, om_Namespace := ns\<rparr>\<rparr>"

definition demo_tenant_world :: "(nat, (tenant, tenant tracker) Fake) tn_world" where
  "demo_tenant_world = new_world (NewSharedInformerFactoryWithOptions
     (\<lambda>ns. FakeTenants_interface everything (FakeTenancy_Tenants ns)) 0 [WithNamespace ''n''])"

theorem tenant_informer_lists_view_witness:
  "\<exists>f r w1 l s'. ft_NewSimpleClientset no_patches (map ItemObject [tenant_in ''n'' ''a'', tenant_in ''m'' ''b'']) = Return f
     \<and> tenantInformer_Informer (tn_version_Tenants (tn_V1_kubernetes_apis (factory_Tenancy demo_tenant_world))) demo_tenant_world = (r, w1)
     \<and> lw_ListFunc (tyi_listerWatcher (sh_informer (fw_informers w1 ! r))) zero_ListOptions f = (Return (Some l, None), s')
     \<and> elems (tnl_Items l) = [tenant_in ''n'' ''a'']"
proof -
  let ?ts = "[tenant_in ''n'' ''a'', tenant_in ''m'' ''b'']"
  have key: "object_key tn_accessor (tenant_in ns n) = (ns, n)" for ns n
    by (simp add: object_key_def tn_accessor_def tenant_in_def zero_tenant_def zero_ObjectMeta_def)
  obtain f where f: "ft_NewSimpleClientset no_patches (map ItemObject ?ts) = Return f" "tenants_ok no_patches f"
      "fake_content tenantsResource f = keyed tn_accessor ?ts"
    using new_tenants [of ?ts no_patches] by (auto simp: key)
  have fields: "sf_client (fw_factory demo_tenant_world) = (\<lambda>ns. FakeTenants_interface everything (FakeTenancy_Tenants ns))"
    "sf_informers (fw_factory demo_tenant_world) = []" "sf_namespace (fw_factory demo_tenant_world) = ''n''"
    "sf_tweakListOptions (fw_factory demo_tenant_world) = None"
    by (simp_all add: demo_tenant_world_def new_world_def NewSharedInformerFactoryWithOptions_def WithNamespace_def)
  have reach: "factory_reachable demo_tenant_world"
    unfolding factory_reachable_def demo_tenant_world_def
    by (intro exI [of _ "\<lambda>ns. FakeTenants_interface everything (FakeTenancy_Tenants ns)"] exI [of _ 0]
        exI [of _ "[WithNamespace ''n'']"] conjI steps_refl) (simp add: factory_options_def)
  obtain r w1 where inf: "tenantInformer_Informer (tn_version_Tenants (tn_V1_kubernetes_apis (factory_Tenancy demo_tenant_world))) demo_tenant_world = (r, w1)"
    by (cases "tenantInformer_Informer (tn_version_Tenants (tn_V1_kubernetes_apis (factory_Tenancy demo_tenant_world))) demo_tenant_world")
  have all: "ExtractFromListOptions everything (tweaked (sf_tweakListOptions (fw_factory demo_tenant_world)) zero_ListOptions)
      = Return \<lparr>sel_nothing = False, sel_Empty = True, sel_Matches = (\<lambda>_. True)\<rparr>"
    by (simp add: everything_def ExtractFromListOptions_def)
  have new: "tenant_type ''Tenant'' \<notin> set (map fst (sf_informers (fw_factory demo_tenant_world)))" by (simp add: fields)
  obtain l s' where l: "lw_ListFunc (tyi_listerWatcher (sh_informer (fw_informers w1 ! r))) zero_ListOptions f = (Return (Some l, None), s')"
      "elems (tnl_Items l) = filter (\<lambda>t. True) (listing (fake_content tenantsResource f) ''n'')"
    using tenant_informer_lists_view [OF reach fields(1) new inf steps_refl f(2) all,
        where gvr = "WithResource tenant_SchemeGroupVersion ''tenants''", THEN conjunct1] by (auto simp: fields)
  have k: "keyed tn_accessor ?ts = [(''m'', ''b'') \<mapsto> tenant_in ''m'' ''b'', (''n'', ''a'') \<mapsto> tenant_in ''n'' ''a'']"
    by (simp add: keyed_def key)
  have "sorted_list_of_set {(''n'' :: string, ''a'' :: string), (''m'', ''b'')} = [(''m'', ''b''), (''n'', ''a'')]" by code_simp
  then have "listing (fake_content tenantsResource f) ''n'' = [tenant_in ''n'' ''a'']"
    unfolding f(3) k by (simp add: listing_def insert_commute)
  with f(1) inf l show ?thesis by auto
qed

section \<open>The ProviderConfig factory\<close>

text \<open>
  \<open>pkg/providerconfig/client/informers/externalversions/factory.go\<close>: the shared factory at the
  ProviderConfig client.
\<close>

type_synonym ('wi, 's) pcf_sharedInformerFactory = "('wi, 's) pc_client sharedInformerFactory"
type_synonym ('wi, 's) pcf_SharedInformerOption = "('wi, 's) pc_client SharedInformerOption"

definition pcf_WithCustomResyncConfig :: "(go_type \<times> int) list \<Rightarrow> ('wi, 's) pcf_SharedInformerOption" where
  "pcf_WithCustomResyncConfig = WithCustomResyncConfig"

definition pcf_WithTweakListOptions :: "TweakListOptionsFunc \<Rightarrow> ('wi, 's) pcf_SharedInformerOption" where
  "pcf_WithTweakListOptions = WithTweakListOptions"

definition pcf_WithNamespace :: "string \<Rightarrow> ('wi, 's) pcf_SharedInformerOption" where
  "pcf_WithNamespace = WithNamespace"

definition pcf_NewSharedInformerFactoryWithOptions ::
  "('wi, 's) pc_client \<Rightarrow> int \<Rightarrow> ('wi, 's) pc_client SharedInformerOption list \<Rightarrow> ('wi, 's) pc_client sharedInformerFactory" where
  "pcf_NewSharedInformerFactoryWithOptions = NewSharedInformerFactoryWithOptions"

definition pcf_NewSharedInformerFactory :: "('wi, 's) pc_client \<Rightarrow> int \<Rightarrow> ('wi, 's) pc_client sharedInformerFactory" where
  "pcf_NewSharedInformerFactory client defaultResync = pcf_NewSharedInformerFactoryWithOptions client defaultResync []"

definition pcf_NewFilteredSharedInformerFactory ::
  "('wi, 's) pc_client \<Rightarrow> int \<Rightarrow> string \<Rightarrow> TweakListOptionsFunc \<Rightarrow> ('wi, 's) pc_client sharedInformerFactory" where
  "pcf_NewFilteredSharedInformerFactory client defaultResync namespace tweakListOptions =
     pcf_NewSharedInformerFactoryWithOptions client defaultResync
       [pcf_WithNamespace namespace, pcf_WithTweakListOptions tweakListOptions]"

definition pcf_InformerFor ::
  "go_type \<Rightarrow> (('wi, 's) pc_client \<Rightarrow> int \<Rightarrow> ('wi, 's) pc_informer) \<Rightarrow> ('wi, 's) pc_world \<Rightarrow> nat \<times> ('wi, 's) pc_world" where
  "pcf_InformerFor = InformerFor"

definition pcf_Start :: "nat \<Rightarrow> ('wi, 's) pc_world \<Rightarrow> ('wi, 's) pc_world" where
  "pcf_Start = factory_Start"

definition pcf_Shutdown :: "('wi, 's) pc_world \<Rightarrow> ('wi, 's) pc_world" where
  "pcf_Shutdown = Shutdown_begin"

definition pcf_WaitForCacheSync :: "(nat \<Rightarrow> bool) \<Rightarrow> ('wi, 's) pc_world \<Rightarrow> (go_type \<times> bool) list" where
  "pcf_WaitForCacheSync = WaitForCacheSync"

end
