(* ===== verification/RestRequest.thy ===== *)
theory RestRequest imports GoStrings ClientApi SchemeRegister begin

text \<open>
  The request builder under the typed clients: \<open>RESTClient\<close> (\<open>client.go\<close>) and \<open>Request\<close>
  (\<open>request.go\<close>) of \<open>vendor/k8s.io/client-go/rest\<close>, with the encoding of call options as query
  parameters (\<open>conversion/queryparams/convert.go\<close>, \<open>runtime/codec.go\<close> of apimachinery).

  A request is built by a chain of setters, each of which does nothing once one has failed. The
  builder's body reader, warning handler, backoff and retry function keep their defaults and are left
  out, and so is CBOR, which is off by default. A rate limiter is a reference. Header keys are in
  their canonical form. Query values stand for their encoding in the URL.
\<close>

section \<open>Clients\<close>

record base_url =
  bu_Host :: string
  bu_Path :: string

record ClientContentConfig =
  cc_AcceptContentTypes :: string
  cc_ContentType :: string
  cc_GroupVersion :: GroupVersion

text \<open>The HTTP client is its timeout; a nil client has none.\<close>

record RESTClient =
  rc_base :: base_url
  rc_versionedAPIPath :: string
  rc_content :: ClientContentConfig
  rc_rateLimiter :: "nat option"
  rc_Client :: "duration option"

definition NewRESTClient ::
  "base_url \<Rightarrow> string \<Rightarrow> ClientContentConfig \<Rightarrow> nat option \<Rightarrow> duration option \<Rightarrow> RESTClient" where
  "NewRESTClient baseURL versionedAPIPath config rateLimiter client =
     \<lparr>rc_base = (if HasSuffix (bu_Path baseURL) ''/'' then baseURL else baseURL\<lparr>bu_Path := bu_Path baseURL @ ''/''\<rparr>),
      rc_versionedAPIPath = versionedAPIPath, rc_content = config, rc_rateLimiter = rateLimiter,
      rc_Client = client\<rparr>"

definition GetClientContentConfig :: "ClientContentConfig \<Rightarrow> ClientContentConfig" where
  "GetClientContentConfig config =
     (if cc_ContentType config = [] then config\<lparr>cc_ContentType := ''application/json''\<rparr> else config)"

section \<open>Requests\<close>

type_synonym url_values = "string \<rightharpoonup> string list"

definition Values_Add :: "string \<times> string \<Rightarrow> url_values \<Rightarrow> url_values" where
  "Values_Add kv vs = (case kv of (k, v) \<Rightarrow> vs(k \<mapsto> (case vs k of None \<Rightarrow> [] | Some l \<Rightarrow> l) @ [v]))"

record Request =
  rq_contentConfig :: ClientContentConfig
  rq_base :: base_url
  rq_rateLimiter :: "nat option"
  rq_timeout :: duration
  rq_maxRetries :: nat
  rq_verb :: string
  rq_pathPrefix :: string
  rq_params :: url_values
  rq_headers :: url_values
  rq_namespace :: string
  rq_namespaceSet :: bool
  rq_resource :: string
  rq_resourceName :: string
  rq_subresource :: string
  rq_err :: error
  rq_bodyBytes :: "string option"

definition SetHeader :: "string \<Rightarrow> string \<Rightarrow> Request \<Rightarrow> Request" where
  "SetHeader key v r = r\<lparr>rq_headers := (rq_headers r)(key \<mapsto> [v])\<rparr>"

definition setAcceptHeader :: "Request \<Rightarrow> Request" where
  "setAcceptHeader r =
     (let cc = rq_contentConfig r
      in if cc_AcceptContentTypes cc \<noteq> [] then SetHeader ''Accept'' (cc_AcceptContentTypes cc) r
         else if cc_ContentType cc \<noteq> [] then SetHeader ''Accept'' (cc_ContentType cc @ '', */*'') r
         else r)"

definition NewRequest :: "RESTClient \<Rightarrow> Request" where
  "NewRequest c = setAcceptHeader
     \<lparr>rq_contentConfig = GetClientContentConfig (rc_content c), rq_base = rc_base c,
      rq_rateLimiter = rc_rateLimiter c,
      rq_timeout = (case rc_Client c of None \<Rightarrow> 0 | Some timeout \<Rightarrow> timeout),
      rq_maxRetries = 10, rq_verb = [],
      rq_pathPrefix = path_Join [''/'', bu_Path (rc_base c), rc_versionedAPIPath c],
      rq_params = Map.empty, rq_headers = Map.empty, rq_namespace = [], rq_namespaceSet = False,
      rq_resource = [], rq_resourceName = [], rq_subresource = [], rq_err = None, rq_bodyBytes = None\<rparr>"

definition Verb :: "string \<Rightarrow> RESTClient \<Rightarrow> Request" where
  "Verb verb c = (NewRequest c)\<lparr>rq_verb := verb\<rparr>"

definition rest_Get :: "RESTClient \<Rightarrow> Request" where
  "rest_Get = Verb ''GET''"

definition rest_Post :: "RESTClient \<Rightarrow> Request" where
  "rest_Post = Verb ''POST''"

definition rest_Put :: "RESTClient \<Rightarrow> Request" where
  "rest_Put = Verb ''PUT''"

definition rest_Delete :: "RESTClient \<Rightarrow> Request" where
  "rest_Delete = Verb ''DELETE''"

definition patch_type_string :: "patch_type \<Rightarrow> string" where
  "patch_type_string pt =
     (case pt of
        JSONPatchType \<Rightarrow> ''application/json-patch+json''
      | MergePatchType \<Rightarrow> ''application/merge-patch+json''
      | StrategicMergePatchType \<Rightarrow> ''application/strategic-merge-patch+json''
      | ApplyPatchType \<Rightarrow> ''application/apply-patch+yaml''
      | OtherPatchType s \<Rightarrow> s)"

definition rest_Patch :: "patch_type \<Rightarrow> RESTClient \<Rightarrow> Request" where
  "rest_Patch pt c = SetHeader ''Content-Type'' (patch_type_string pt) (Verb ''PATCH'' c)"

section \<open>Setters\<close>

text \<open>The complaints about a path segment; a name without any is valid.\<close>

definition single_quoted :: "string \<Rightarrow> string" where
  "single_quoted s = [CHR 0x27] @ s @ [CHR 0x27]"

definition IsValidPathSegmentName :: "string \<Rightarrow> string list" where
  "IsValidPathSegmentName name =
     (if name = ''.'' then [''may not be '' @ single_quoted ''.'']
      else if name = ''..'' then [''may not be '' @ single_quoted ''..'']
      else (if CHR ''/'' \<in> set name then [''may not contain '' @ single_quoted ''/''] else [])
         @ (if CHR ''%'' \<in> set name then [''may not contain '' @ single_quoted ''%''] else []))"

definition fail :: "go_error \<Rightarrow> Request \<Rightarrow> Request" where
  "fail e r = r\<lparr>rq_err := Some e\<rparr>"

text \<open>A setter looks at the request only if none has failed before.\<close>

definition unless_failed :: "(Request \<Rightarrow> Request) \<Rightarrow> Request \<Rightarrow> Request" where
  "unless_failed f r = (if rq_err r \<noteq> None then r else f r)"

definition Namespace :: "string \<Rightarrow> Request \<Rightarrow> Request" where
  "Namespace namespace = unless_failed (\<lambda>r.
     if rq_namespaceSet r
     then fail (Errorf ''namespace already set to %q, cannot change to %q'' [rq_namespace r, namespace]) r
     else case IsValidPathSegmentName namespace of
            [] \<Rightarrow> r\<lparr>rq_namespaceSet := True, rq_namespace := namespace\<rparr>
          | msgs \<Rightarrow> fail (Errorf ''invalid namespace %q: %v'' (namespace # msgs)) r)"

definition Resource :: "string \<Rightarrow> Request \<Rightarrow> Request" where
  "Resource resource = unless_failed (\<lambda>r.
     if rq_resource r \<noteq> []
     then fail (Errorf ''resource already set to %q, cannot change to %q'' [rq_resource r, resource]) r
     else case IsValidPathSegmentName resource of
            [] \<Rightarrow> r\<lparr>rq_resource := resource\<rparr>
          | msgs \<Rightarrow> fail (Errorf ''invalid resource %q: %v'' (resource # msgs)) r)"

definition Name :: "string \<Rightarrow> Request \<Rightarrow> Request" where
  "Name resourceName = unless_failed (\<lambda>r.
     if resourceName = [] then fail (Errorf ''resource name may not be empty'' []) r
     else if rq_resourceName r \<noteq> []
     then fail (Errorf ''resource name already set to %q, cannot change to %q'' [rq_resourceName r, resourceName]) r
     else case IsValidPathSegmentName resourceName of
            [] \<Rightarrow> r\<lparr>rq_resourceName := resourceName\<rparr>
          | msgs \<Rightarrow> fail (Errorf ''invalid resource name %q: %v'' (resourceName # msgs)) r)"

definition SubResource :: "string list \<Rightarrow> Request \<Rightarrow> Request" where
  "SubResource subresources = unless_failed (\<lambda>r.
     let subresource = path_Join subresources
     in if rq_subresource r \<noteq> []
        then fail (Errorf ''subresource already set to %q, cannot change to %q'' [rq_subresource r, subresource]) r
        else case find (\<lambda>s. IsValidPathSegmentName s \<noteq> []) subresources of
               Some s \<Rightarrow> fail (Errorf ''invalid subresource %q: %v'' (s # IsValidPathSegmentName s)) r
             | None \<Rightarrow> r\<lparr>rq_subresource := subresource\<rparr>)"

definition Timeout :: "duration \<Rightarrow> Request \<Rightarrow> Request" where
  "Timeout d = unless_failed (\<lambda>r. r\<lparr>rq_timeout := d\<rparr>)"

text \<open>\<open>Body\<close> of an object, given its encoding for a content type, and of bytes.\<close>

definition Body_object :: "(string \<Rightarrow> go_error + string) \<Rightarrow> Request \<Rightarrow> Request" where
  "Body_object encode = unless_failed (\<lambda>r.
     case encode (cc_ContentType (rq_contentConfig r)) of
       Inl err \<Rightarrow> fail err r
     | Inr data \<Rightarrow> SetHeader ''Content-Type'' (cc_ContentType (rq_contentConfig r)) (r\<lparr>rq_bodyBytes := Some data\<rparr>))"

definition Body_bytes :: "string \<Rightarrow> Request \<Rightarrow> Request" where
  "Body_bytes data = unless_failed (\<lambda>r. r\<lparr>rq_bodyBytes := Some data\<rparr>)"

section \<open>Options as parameters\<close>

text \<open>\<open>queryparams.Convert\<close> on the options: what each field adds, in the order of the fields.\<close>

definition string_param :: "string \<Rightarrow> string \<Rightarrow> (string \<times> string) list" where
  "string_param tag v = (if v = [] then [] else [(tag, v)])"

definition bool_param :: "string \<Rightarrow> bool \<Rightarrow> (string \<times> string) list" where
  "bool_param tag v = (if v then [(tag, ''true'')] else [])"

definition pointer_param :: "string \<Rightarrow> ('a \<Rightarrow> string) \<Rightarrow> 'a option \<Rightarrow> (string \<times> string) list" where
  "pointer_param tag f v = (case v of None \<Rightarrow> [] | Some x \<Rightarrow> [(tag, f x)])"

definition strings_param :: "string \<Rightarrow> string slice \<Rightarrow> (string \<times> string) list" where
  "strings_param tag vs = concat (map (string_param tag) (elems vs))"

definition ListOptions_params :: "ListOptions \<Rightarrow> (string \<times> string) list" where
  "ListOptions_params o' =
     string_param ''labelSelector'' (lo_LabelSelector o') @ string_param ''fieldSelector'' (lo_FieldSelector o')
     @ bool_param ''watch'' (lo_Watch o') @ bool_param ''allowWatchBookmarks'' (lo_AllowWatchBookmarks o')
     @ string_param ''resourceVersion'' (lo_ResourceVersion o')
     @ string_param ''resourceVersionMatch'' (lo_ResourceVersionMatch o')
     @ pointer_param ''timeoutSeconds'' (\<lambda>t. FormatInt (sint t)) (lo_TimeoutSeconds o')
     @ (if lo_Limit o' = 0 then [] else [(''limit'', FormatInt (lo_Limit o'))])
     @ string_param ''continue'' (lo_Continue o')
     @ pointer_param ''sendInitialEvents'' FormatBool (lo_SendInitialEvents o')
     @ string_param ''shardSelector'' (lo_ShardSelector o')"

definition GetOptions_params :: "GetOptions \<Rightarrow> (string \<times> string) list" where
  "GetOptions_params o' = string_param ''resourceVersion'' (go_ResourceVersion o')"

definition CreateOptions_params :: "CreateOptions \<Rightarrow> (string \<times> string) list" where
  "CreateOptions_params o' = strings_param ''dryRun'' (co_DryRun o')
     @ string_param ''fieldManager'' (co_FieldManager o') @ string_param ''fieldValidation'' (co_FieldValidation o')"

definition UpdateOptions_params :: "UpdateOptions \<Rightarrow> (string \<times> string) list" where
  "UpdateOptions_params o' = strings_param ''dryRun'' (uo_DryRun o')
     @ string_param ''fieldManager'' (uo_FieldManager o') @ string_param ''fieldValidation'' (uo_FieldValidation o')"

definition PatchOptions_params :: "PatchOptions \<Rightarrow> (string \<times> string) list" where
  "PatchOptions_params o' = strings_param ''dryRun'' (po_DryRun o')
     @ pointer_param ''force'' FormatBool (po_Force o')
     @ string_param ''fieldManager'' (po_FieldManager o') @ string_param ''fieldValidation'' (po_FieldValidation o')"

definition KindForGroupVersionKinds :: "GroupVersion \<Rightarrow> gvk list \<Rightarrow> gvk option" where
  "KindForGroupVersionKinds gv kinds =
     (case find (\<lambda>k. gvk_GroupVersion k = gv) kinds of
        Some k \<Rightarrow> Some k
      | None \<Rightarrow>
          (case find (\<lambda>k. gvk_group k = gv_group gv) kinds of
             Some k \<Rightarrow> Some (WithKind gv (gvk_kind k))
           | None \<Rightarrow> None))"

text \<open>
  \<open>EncodeParameters\<close> of an object of type \<open>t\<close> whose fields give \<open>params\<close>. Options convert to a
  version under which their type is registered by keeping their fields; no function converts them
  to another type.
\<close>

definition EncodeParameters ::
  "Scheme \<Rightarrow> go_type \<Rightarrow> GroupVersion \<Rightarrow> (string \<times> string) list \<Rightarrow> go_error + url_values" where
  "EncodeParameters sch t to params =
     (case typeToGVK sch t of
        [] \<Rightarrow> Inl (Errorf ''no kind is registered for the type'' [ty_name t])
      | gvk # gvks \<Rightarrow>
          let values = fold Values_Add params Map.empty
          in if to = gvk_GroupVersion gvk then Inr values
             else case KindForGroupVersionKinds to (gvk # gvks) of
                    Some k \<Rightarrow>
                      if k \<in> set (gvk # gvks) \<or> unversionedTypes sch t \<noteq> None then Inr values
                      else Inl (Errorf ''unknown conversion'' [ty_name t])
                  | None \<Rightarrow>
                      if unversionedTypes sch t \<noteq> None then Inr values
                      else Inl (Errorf ''not registered for the target version'' [ty_name t]))"

definition add_values :: "url_values \<Rightarrow> url_values \<Rightarrow> url_values" where
  "add_values params vs = (\<lambda>k. case params k of
     None \<Rightarrow> vs k | Some l \<Rightarrow> Some ((case vs k of None \<Rightarrow> [] | Some l' \<Rightarrow> l') @ l))"

definition VersionedParams :: "Scheme \<Rightarrow> go_type \<Rightarrow> (string \<times> string) list \<Rightarrow> Request \<Rightarrow> Request" where
  "VersionedParams sch t params = unless_failed (\<lambda>r.
     case EncodeParameters sch t (cc_GroupVersion (rq_contentConfig r)) params of
       Inl err \<Rightarrow> fail err r
     | Inr vs \<Rightarrow> r\<lparr>rq_params := add_values vs (rq_params r)\<rparr>)"

section \<open>The request on the wire\<close>

definition URL_path :: "Request \<Rightarrow> string" where
  "URL_path r =
     (let p = rq_pathPrefix r;
          p = (if rq_namespaceSet r \<and> rq_namespace r \<noteq> [] then path_Join [p, ''namespaces'', rq_namespace r] else p);
          p = (if rq_resource r \<noteq> [] then path_Join [p, ToLower (rq_resource r)] else p)
      in if rq_resourceName r \<noteq> [] \<or> rq_subresource r \<noteq> []
         then path_Join [p, rq_resourceName r, rq_subresource r] else p)"

definition URL_query :: "Request \<Rightarrow> url_values" where
  "URL_query r =
     (if rq_timeout r \<noteq> 0 then (rq_params r)(''timeout'' \<mapsto> [Duration_String (rq_timeout r)]) else rq_params r)"

text \<open>The method, the host, path and query of the URL, the headers and the body.\<close>

record http_request =
  hr_Method :: string
  hr_Host :: string
  hr_Path :: string
  hr_Query :: url_values
  hr_Header :: url_values
  hr_Body :: "string option"

definition newHTTPRequest :: "Request \<Rightarrow> http_request" where
  "newHTTPRequest r =
     \<lparr>hr_Method = rq_verb r, hr_Host = bu_Host (rq_base r), hr_Path = URL_path r, hr_Query = URL_query r,
      hr_Header = rq_headers r, hr_Body = rq_bodyBytes r\<rparr>"

definition requestPreflightCheck :: "Request \<Rightarrow> error" where
  "requestPreflightCheck r =
     (if \<not> rq_namespaceSet r \<or> rq_namespace r \<noteq> [] then None
      else if rq_verb r = ''POST'' then Some (Errorf ''an empty namespace may not be set during creation'' [])
      else if rq_verb r \<in> {''GET'', ''PUT'', ''DELETE''} \<and> rq_resourceName r \<noteq> []
      then Some (Errorf ''an empty namespace may not be set when a resource name is provided'' [])
      else None)"

end
