(* ===== verification/RestSend.thy ===== *)
theory RestSend imports RestRequest begin

text \<open>
  Sending a request: \<open>Do\<close> and \<open>Watch\<close> (\<open>request.go\<close>) with their retries (\<open>with_retry.go\<close>), and what
  \<open>Result\<close> makes of the response, from \<open>vendor/k8s.io/client-go/rest\<close>.

  What is beyond the client is the environment: the network and the server (\<open>env_Do\<close>), the context
  of the call, which may end any time (\<open>env_ctx_Err\<close>; a timeout of the request bounds it), the rate
  limiters, sleeping, which connection errors are transient, and the codecs. All but the last act
  on a state \<open>'s\<close>. A body reader is never set, so a request can always be sent again. Logs and
  metrics are left out, and so are the warnings of a response.
\<close>

section \<open>Environment\<close>

datatype read_error = StreamError go_error | ReadError go_error

record http_response =
  hs_StatusCode :: int
  hs_Header :: url_values
  hs_Body :: "read_error + string"

text \<open>The context of a request: the caller's, with a timeout if the request sets one.\<close>

record 's rest_env =
  env_Do :: "duration option \<Rightarrow> http_request \<Rightarrow> 's \<Rightarrow> (go_error + http_response) \<times> 's"
  env_ctx_Err :: "duration option \<Rightarrow> 's \<Rightarrow> error"
  env_Wait :: "duration option \<Rightarrow> nat \<Rightarrow> 's \<Rightarrow> error \<times> 's"
  env_sleep :: "duration option \<Rightarrow> duration \<Rightarrow> 's \<Rightarrow> 's"
  env_IsConnectionReset :: "go_error \<Rightarrow> bool"
  env_IsProbableEOF :: "go_error \<Rightarrow> bool"
  env_IsHTTP2ConnectionLost :: "go_error \<Rightarrow> bool"
  env_IsTimeout :: "go_error \<Rightarrow> bool"
  env_ParseMediaType :: "string \<Rightarrow> go_error + string"
  env_Decoder :: "string \<Rightarrow> go_error + unit"
  env_StreamDecoder :: "string \<Rightarrow> error"
  env_Decode_Status :: "string \<Rightarrow> string \<Rightarrow> (string \<times> string \<times> string) option"

text \<open>
  \<open>env_Decode_Status\<close> decodes a body of a media type as a \<open>Status\<close>, to its status, reason and
  message. Decoding into an object may change the object even when it fails.
\<close>

datatype decoded =
    DecodedInto
  | DecodeError go_error
  | DecodedStatus string string string
  | DecodedOther

type_synonym 'o decoder = "string \<Rightarrow> string \<Rightarrow> 'o \<Rightarrow> 'o \<times> decoded"

section \<open>Retries\<close>

record withRetry =
  wr_maxRetries :: nat
  wr_attempts :: nat
  wr_retryAfter :: "duration option"
  wr_previousErr :: error
  wr_currentErr :: error

definition defaultRequestRetryFn :: "nat \<Rightarrow> withRetry" where
  "defaultRequestRetryFn maxRetries =
     \<lparr>wr_maxRetries = maxRetries, wr_attempts = 0, wr_retryAfter = None, wr_previousErr = None,
      wr_currentErr = None\<rparr>"

definition trackPreviousError :: "error \<Rightarrow> withRetry \<Rightarrow> withRetry" where
  "trackPreviousError err r =
     (let r = (if wr_currentErr r \<noteq> None then r\<lparr>wr_previousErr := wr_currentErr r\<rparr> else r)
      in r\<lparr>wr_currentErr := err\<rparr>)"

text \<open>The text of the wrapped earlier error is not recorded.\<close>

definition WrapPreviousError :: "go_error \<Rightarrow> withRetry \<Rightarrow> go_error" where
  "WrapPreviousError currentErr r =
     (case wr_previousErr r of
        None \<Rightarrow> currentErr
      | Some previousErr \<Rightarrow>
          if currentErr = previousErr then currentErr
          else Wrapf ''%s - error from a previous attempt: %s'' [] currentErr)"

definition Header_Get :: "url_values \<Rightarrow> string \<Rightarrow> string" where
  "Header_Get h key = (case h key of Some (v # vs) \<Rightarrow> v | _ \<Rightarrow> [])"

text \<open>\<open>strconv.Atoi\<close>, in 64 bits.\<close>

definition Atoi :: "string \<Rightarrow> int option" where
  "Atoi s =
     (let neg = (s \<noteq> [] \<and> hd s = CHR ''-'');
          ds = (if s \<noteq> [] \<and> hd s \<in> {CHR ''-'', CHR ''+''} then tl s else s);
          n = foldl (\<lambda>n c. 10 * n + (of_char c - 48)) 0 ds;
          i = (if neg then - n else n)
      in if ds = [] \<or> (\<exists>c\<in>set ds. (of_char c :: int) < 48 \<or> 57 < (of_char c :: int)) then None
         else if - (2 ^ 63) \<le> i \<and> i < 2 ^ 63 then Some i else None)"

definition retryAfterSeconds :: "http_response \<Rightarrow> int option" where
  "retryAfterSeconds resp =
     (let h = Header_Get (hs_Header resp) ''Retry-After'' in if h = [] then None else Atoi h)"

definition checkWait :: "http_response \<Rightarrow> int option" where
  "checkWait resp =
     (if hs_StatusCode resp = 429 \<or> hs_StatusCode resp \<ge> 500 then retryAfterSeconds resp else None)"

definition retryAfterResponse :: http_response where
  "retryAfterResponse = \<lparr>hs_StatusCode = 500, hs_Header = [''Retry-After'' \<mapsto> [''1'']], hs_Body = Inr []\<rparr>"

text \<open>Whether the attempt that ended in \<open>out\<close> is made again.\<close>

definition IsNextRetry :: "(go_error \<Rightarrow> bool) \<Rightarrow> go_error + http_response \<Rightarrow> withRetry \<Rightarrow> bool \<times> withRetry" where
  "IsNextRetry retryable out r =
     (let r = r\<lparr>wr_attempts := wr_attempts r + 1, wr_retryAfter := Some 0\<rparr>;
          err = (case out of Inl err \<Rightarrow> Some err | Inr resp \<Rightarrow> None);
          wait = (if wr_attempts r > wr_maxRetries r then None
                  else case out of
                         Inl err \<Rightarrow> if retryable err then checkWait retryAfterResponse else None
                       | Inr resp \<Rightarrow> checkWait resp)
      in case wait of
           None \<Rightarrow> (False, trackPreviousError err r)
         | Some seconds \<Rightarrow>
             (True, trackPreviousError err (r\<lparr>wr_retryAfter := Some (of_int seconds * Second)\<rparr>)))"

definition tryThrottle :: "'s rest_env \<Rightarrow> duration option \<Rightarrow> nat option \<Rightarrow> 's \<Rightarrow> error \<times> 's" where
  "tryThrottle env ctx rateLimiter s =
     (case rateLimiter of
        None \<Rightarrow> (None, s)
      | Some l \<Rightarrow>
          (case env_Wait env ctx l s of
             (Some err, s) \<Rightarrow> (Some (Wrapf ''client rate limiter Wait returned an error: %w'' [] err), s)
           | (None, s) \<Rightarrow> (None, s)))"

text \<open>\<open>Before\<close> an attempt. There is no backoff: only a response asks for a delay.\<close>

definition retry_Before ::
  "'s rest_env \<Rightarrow> duration option \<Rightarrow> nat option \<Rightarrow> withRetry \<Rightarrow> 's \<Rightarrow> (error \<times> withRetry) \<times> 's" where
  "retry_Before env ctx rateLimiter r s =
     (case env_ctx_Err env ctx s of
        Some err \<Rightarrow> ((Some err, trackPreviousError (Some err) r), s)
      | None \<Rightarrow>
          (case wr_retryAfter r of
             None \<Rightarrow> ((None, r), s)
           | Some wait \<Rightarrow>
               let s = env_sleep env ctx (if sint wait > 0 then wait else 0) s
               in case tryThrottle env ctx rateLimiter s of
                    (Some err, s) \<Rightarrow> ((Some err, trackPreviousError (env_ctx_Err env ctx s) r), s)
                  | (None, s) \<Rightarrow> ((None, r), s)))"

definition retry_After :: "withRetry \<Rightarrow> withRetry" where
  "retry_After r = r\<lparr>wr_retryAfter := None\<rparr>"

text \<open>
  The loop of \<open>request\<close> and of \<open>Watch\<close>: the error that aborted it, or the outcome of its last
  attempt. \<open>accept\<close> tells a response that ends it at once. A round is the end of the loop or the
  state in which it goes on.
\<close>

definition send_round ::
  "'s rest_env \<Rightarrow> duration option \<Rightarrow> nat option \<Rightarrow> (go_error \<Rightarrow> bool) \<Rightarrow> (http_response \<Rightarrow> bool) \<Rightarrow> http_request
   \<Rightarrow> withRetry \<Rightarrow> 's \<Rightarrow> ((go_error + (go_error + http_response) \<times> withRetry) + withRetry) \<times> 's" where
  "send_round env ctx rateLimiter retryable accept req r s =
     (case retry_Before env ctx rateLimiter r s of
        ((Some err, r), s) \<Rightarrow> (Inl (Inl (WrapPreviousError err r)), s)
      | ((None, r), s) \<Rightarrow>
          (case env_Do env ctx req s of
             (out, s) \<Rightarrow>
               let r = retry_After r
               in if (case out of Inl err \<Rightarrow> False | Inr resp \<Rightarrow> accept resp) then (Inl (Inr (out, r)), s)
                  else case IsNextRetry retryable out r of
                         (True, r) \<Rightarrow> (Inr r, s)
                       | (False, r) \<Rightarrow> (Inl (Inr (out, r)), s)))"

lemma send_round_attempts:
  assumes "send_round env ctx l retryable accept req r s = (Inr r', s')"
  shows "wr_attempts r' = wr_attempts r + 1" "wr_attempts r' \<le> wr_maxRetries r" "wr_maxRetries r' = wr_maxRetries r"
  using assms
  by (auto simp: send_round_def retry_Before_def retry_After_def IsNextRetry_def trackPreviousError_def tryThrottle_def Let_def
      split: option.splits prod.splits sum.splits if_splits bool.splits)

lemma send_round_decreases:
  "(Inr r', s') = send_round env ctx l retryable accept req r s
     \<Longrightarrow> wr_maxRetries r' - wr_attempts r' < wr_maxRetries r - wr_attempts r"
  using send_round_attempts [of env ctx l retryable accept req r s r' s'] by simp

function send_loop ::
  "'s rest_env \<Rightarrow> duration option \<Rightarrow> nat option \<Rightarrow> (go_error \<Rightarrow> bool) \<Rightarrow> (http_response \<Rightarrow> bool) \<Rightarrow> http_request
   \<Rightarrow> withRetry \<Rightarrow> 's \<Rightarrow> (go_error + (go_error + http_response) \<times> withRetry) \<times> 's" where
  "send_loop env ctx rateLimiter retryable accept req r s =
     (case send_round env ctx rateLimiter retryable accept req r s of
        (Inl end_of_loop, s) \<Rightarrow> (end_of_loop, s)
      | (Inr r, s) \<Rightarrow> send_loop env ctx rateLimiter retryable accept req r s)"
  by pat_completeness auto

termination
  by (relation "measure (\<lambda>(env, ctx, l, retryable, accept, req, r, s). wr_maxRetries r - wr_attempts r)")
     (auto simp: send_round_decreases)

declare send_loop.simps [simp del]

section \<open>Do\<close>

record Result =
  rs_body :: string
  rs_contentType :: string
  rs_err :: error
  rs_unexpected :: bool
  rs_statusCode :: int
  rs_decoder :: "string option"

text \<open>
  \<open>rs_unexpected\<close> is \<open>IsUnexpectedServerError\<close> of the error, and a decoder is its media type.
\<close>

definition failed_result :: "go_error \<Rightarrow> Result" where
  "failed_result err = \<lparr>rs_body = [], rs_contentType = [], rs_err = Some err, rs_unexpected = False,
     rs_statusCode = 0, rs_decoder = None\<rparr>"

definition NewGenericServerResponse :: "int \<Rightarrow> string \<Rightarrow> GroupVersionResource \<Rightarrow> string \<Rightarrow> string \<Rightarrow> go_error" where
  "NewGenericServerResponse code verb resource name serverMessage =
     (let (reason, message) =
        (if code = 409 then (if verb = ''POST'' then ''AlreadyExists'' else ''Conflict'', ''the server reported a conflict'')
         else if code = 404 then (''NotFound'', ''the server could not find the requested resource'')
         else if code = 400 then (''BadRequest'', ''the server rejected our request for an unknown reason'')
         else if code = 401 then (''Unauthorized'', ''the server has asked for the client to provide credentials'')
         else if code = 403 then (''Forbidden'', serverMessage)
         else if code = 406 then (''NotAcceptable'',
           if serverMessage = [] \<or> serverMessage = ''unknown''
           then ''the server was unable to respond with a content type that the client supports'' else serverMessage)
         else if code = 415 then (''UnsupportedMediaType'', serverMessage)
         else if code = 405 then (''MethodNotAllowed'', ''the server does not allow this method on the requested resource'')
         else if code = 422 then (''Invalid'', ''the server rejected our request due to an error in our request'')
         else if code = 503 then (''ServiceUnavailable'', ''the server is currently unable to handle the request'')
         else if code = 504 then (''Timeout'',
           ''the server was unable to return a response in the time allotted, but may still be processing the request'')
         else if code = 429 then (''TooManyRequests'',
           ''the server has received too many requests and has asked us to try again later'')
         else if code \<ge> 500 then (''InternalError'',
           ''an error on the server ('' @ quoted serverMessage @ '') has prevented the request from succeeding'')
         else ([], ''the server responded with the status code '' @ FormatInt code @ '' but did not return more information''))
      in ApiStatus reason
           (if gvr_group resource = [] \<and> gvr_resource resource = [] then message
            else message @ '' ('' @ ToLower verb @ '' '' @ GroupResource_String resource
                   @ (if name \<noteq> [] then '' '' @ name else []) @ '')''))"

definition maxUnstructuredResponseTextBytes :: nat where
  "maxUnstructuredResponseTextBytes = 2048"

text \<open>\<open>isTextResponse\<close>: a text media type, or none.\<close>

definition isTextResponse :: "'s rest_env \<Rightarrow> http_response \<Rightarrow> bool" where
  "isTextResponse env resp =
     (let contentType = Header_Get (hs_Header resp) ''Content-Type''
      in if contentType = [] then True
         else case env_ParseMediaType env contentType of
                Inl err \<Rightarrow> False
              | Inr media \<Rightarrow> take 5 media = ''text/'')"

definition newUnstructuredResponseError :: "'s rest_env \<Rightarrow> Request \<Rightarrow> http_response \<Rightarrow> string \<Rightarrow> go_error" where
  "newUnstructuredResponseError env rq resp body =
     (let body = take maxUnstructuredResponseTextBytes body;
          message = (if isTextResponse env resp then TrimSpace body else ''unknown'');
          groupResource = (if rq_resource rq \<noteq> []
             then \<lparr>gvr_group = gv_group (cc_GroupVersion (rq_contentConfig rq)), gvr_version = [], gvr_resource = rq_resource rq\<rparr>
             else \<lparr>gvr_group = [], gvr_version = [], gvr_resource = []\<rparr>)
      in NewGenericServerResponse (hs_StatusCode resp) (rq_verb rq) groupResource (rq_resourceName rq) message)"

definition transformResponse :: "'s rest_env \<Rightarrow> Request \<Rightarrow> http_response \<Rightarrow> Result" where
  "transformResponse env rq resp =
     (case hs_Body resp of
        Inl (StreamError err) \<Rightarrow> failed_result (Wrapf
          ''stream error when reading response body, may be caused by closed connection. Please retry. Original error: %w'' [] err)
      | Inl (ReadError err) \<Rightarrow> failed_result (Wrapf
          ''unexpected error when reading response body. Please retry. Original error: %w'' [] err)
      | Inr body \<Rightarrow>
          let contentType = (let h = Header_Get (hs_Header resp) ''Content-Type''
                in if h = [] then cc_ContentType (rq_contentConfig rq) else h);
              refused = (hs_StatusCode resp \<noteq> 101 \<and> (hs_StatusCode resp < 200 \<or> hs_StatusCode resp > 206));
              unstructured = newUnstructuredResponseError env rq resp body;
              result = (\<lambda>err decoder. \<lparr>rs_body = body, rs_contentType = contentType, rs_err = err,
                 rs_unexpected = (err \<noteq> None), rs_statusCode = hs_StatusCode resp, rs_decoder = decoder\<rparr>)
          in if contentType = [] then result (if refused then Some unstructured else None) None
             else case env_ParseMediaType env contentType of
                    Inl err \<Rightarrow> failed_result (ApiStatus ''InternalError'' ''Internal error occurred: %v'')
                  | Inr mediaType \<Rightarrow>
                      (case env_Decoder env mediaType of
                         Inl err \<Rightarrow> if refused then failed_result unstructured else result None None
                       | Inr _ \<Rightarrow> result (if refused then Some unstructured else None) (Some mediaType)))"

text \<open>The errors that make \<open>request\<close> try again: transient ones, for a \<open>GET\<close>.\<close>

definition do_retryable :: "'s rest_env \<Rightarrow> string \<Rightarrow> go_error \<Rightarrow> bool" where
  "do_retryable env method err =
     (method = ''GET'' \<and> (env_IsConnectionReset env err \<or> env_IsProbableEOF env err \<or> env_IsHTTP2ConnectionLost env err))"

definition request_timeout :: "Request \<Rightarrow> duration option" where
  "request_timeout rq = (if sint (rq_timeout rq) > 0 then Some (rq_timeout rq) else None)"

definition rest_request :: "'s rest_env \<Rightarrow> Request \<Rightarrow> 's \<Rightarrow> (go_error + http_response) \<times> 's" where
  "rest_request env rq s =
     (case rq_err rq of
        Some err \<Rightarrow> (Inl err, s)
      | None \<Rightarrow>
          (case requestPreflightCheck rq of
             Some err \<Rightarrow> (Inl err, s)
           | None \<Rightarrow>
               (case tryThrottle env None (rq_rateLimiter rq) s of
                  (Some err, s) \<Rightarrow> (Inl err, s)
                | (None, s) \<Rightarrow>
                    (case send_loop env (request_timeout rq) (rq_rateLimiter rq) (do_retryable env (rq_verb rq)) (\<lambda>_. False)
                            (newHTTPRequest rq) (defaultRequestRetryFn (rq_maxRetries rq)) s of
                       (Inl err, s) \<Rightarrow> (Inl err, s)
                     | (Inr (Inl err, r), s) \<Rightarrow> (Inl (WrapPreviousError err r), s)
                     | (Inr (Inr resp, r), s) \<Rightarrow> (Inr resp, s)))))"

definition rest_Do :: "'s rest_env \<Rightarrow> Request \<Rightarrow> 's \<Rightarrow> Result \<times> 's" where
  "rest_Do env rq s =
     (case rest_request env rq s of
        (Inl err, s) \<Rightarrow> (failed_result err, s)
      | (Inr resp, s) \<Rightarrow> (transformResponse env rq resp, s))"

section \<open>Results\<close>

text \<open>A status in the body is preferred to the generic error.\<close>

definition Result_Error :: "'s rest_env \<Rightarrow> Result \<Rightarrow> error" where
  "Result_Error env r =
     (if rs_err r = None \<or> \<not> rs_unexpected r \<or> rs_body r = [] then rs_err r
      else case rs_decoder r of
             None \<Rightarrow> rs_err r
           | Some media \<Rightarrow>
               (case env_Decode_Status env media (rs_body r) of
                  Some (status, reason, message) \<Rightarrow>
                    if status = ''Failure'' then Some (ApiStatus reason message) else rs_err r
                | None \<Rightarrow> rs_err r))"

definition Result_Into :: "'s rest_env \<Rightarrow> 'o decoder \<Rightarrow> Result \<Rightarrow> 'o \<Rightarrow> 'o \<times> error" where
  "Result_Into env decode r obj =
     (if rs_err r \<noteq> None then (obj, Result_Error env r)
      else case rs_decoder r of
             None \<Rightarrow> (obj, Some (Errorf ''serializer for %s doesn't exist'' [rs_contentType r]))
           | Some media \<Rightarrow>
               if rs_body r = []
               then (obj, Some (Errorf ''0-length response with status code: %d and content type: %s'' [rs_contentType r]))
               else case decode media (rs_body r) obj of
                      (obj, DecodedInto) \<Rightarrow> (obj, None)
                    | (obj, DecodeError err) \<Rightarrow> (obj, Some err)
                    | (obj, DecodedStatus status reason message) \<Rightarrow>
                        (obj, if status \<noteq> ''Success'' then Some (ApiStatus reason message) else None)
                    | (obj, DecodedOther) \<Rightarrow> (obj, None))"

section \<open>Watch\<close>

datatype watch_result = StreamWatch http_response | EmptyWatch

definition newStreamWatcher :: "'s rest_env \<Rightarrow> http_response \<Rightarrow> go_error + watch_result" where
  "newStreamWatcher env resp =
     (let mediaType = (case env_ParseMediaType env (Header_Get (hs_Header resp) ''Content-Type'') of
                         Inl err \<Rightarrow> [] | Inr media \<Rightarrow> media)
      in case env_StreamDecoder env mediaType of Some err \<Rightarrow> Inl err | None \<Rightarrow> Inr (StreamWatch resp))"

definition watch_retryable :: "'s rest_env \<Rightarrow> go_error \<Rightarrow> bool" where
  "watch_retryable env err = (env_IsProbableEOF env err \<or> env_IsTimeout env err)"

text \<open>No preflight check, no throttling of the first attempt and no timeout of the context.\<close>

definition rest_Watch :: "'s rest_env \<Rightarrow> Request \<Rightarrow> 's \<Rightarrow> (go_error + watch_result) \<times> 's" where
  "rest_Watch env rq s =
     (case rq_err rq of
        Some err \<Rightarrow> (Inl err, s)
      | None \<Rightarrow>
          (case send_loop env None (rq_rateLimiter rq) (watch_retryable env) (\<lambda>resp. hs_StatusCode resp = 200)
                  (newHTTPRequest rq) (defaultRequestRetryFn (rq_maxRetries rq)) s of
             (Inl err, s) \<Rightarrow> (Inl err, s)
           | (Inr (Inl err, r), s) \<Rightarrow>
               if watch_retryable env err then (Inr EmptyWatch, s) else (Inl (WrapPreviousError err r), s)
           | (Inr (Inr resp, r), s) \<Rightarrow>
               if hs_StatusCode resp = 200 then (newStreamWatcher env resp, s)
               else case Result_Error env (transformResponse env rq resp) of
                      Some err \<Rightarrow> (Inl (WrapPreviousError err r), s)
                    | None \<Rightarrow> (Inl (WrapPreviousError (Errorf ''for request %s, got status: %v'' []) r), s)))"

end
