(* ===== verification/TypedClients.thy ===== *)
theory TypedClients imports RestSend begin

text \<open>
  The generated clients of both API packages: \<open>tenant.go\<close>, \<open>tenant_client.go\<close>, \<open>providerconfig.go\<close> and
  \<open>providerconfig_client.go\<close> of \<open>client/clientset/versioned/typed\<close> and the two \<open>clientset.go\<close>, with what
  of \<open>config.go\<close>, \<open>url_utils.go\<close>, \<open>transport.go\<close> (\<open>client-go/rest\<close>) and \<open>discovery_client.go\<close> makes a REST
  client from a configuration.

  A call is a chain of setters on a request, sent, and its result stored in a fresh object; the
  object a caller passes is never nil. A method's context is the environment's. Of a
  configuration, what only the transport reads is left out: the parsed server URL and the transport
  (an error, or whether it is the default one) stand for it. A rate limiter is the position of its
  parameters in the list of limiters made so far.
\<close>

section \<open>What the methods share\<close>

definition chain :: "(Request \<Rightarrow> Request) list \<Rightarrow> Request \<Rightarrow> Request" where
  "chain fs r = fold (\<lambda>f r. f r) fs r"

text \<open>The encoders for a content type and the decoders, of objects and lists.\<close>

record ('o, 'l) codecs =
  cd_encode :: "'o \<Rightarrow> string \<Rightarrow> go_error + string"
  cd_encode_DeleteOptions :: "DeleteOptions \<Rightarrow> string \<Rightarrow> go_error + string"
  cd_decode :: "'o decoder"
  cd_decode_list :: "'l decoder"

text \<open>\<open>Do(ctx).Into(result)\<close> and \<open>Do(ctx).Error()\<close>\<close>

definition Do_Into :: "'s rest_env \<Rightarrow> 'r decoder \<Rightarrow> 'r \<Rightarrow> Request \<Rightarrow> ('r, 's) client_call" where
  "Do_Into env decode result rq s =
     (case rest_Do env rq s of
        (r, s) \<Rightarrow> (case Result_Into env decode r result of (result, err) \<Rightarrow> (Return (Some result, err), s)))"

definition Do_Error :: "'s rest_env \<Rightarrow> Request \<Rightarrow> 's \<Rightarrow> error outcome \<times> 's" where
  "Do_Error env rq s = (case rest_Do env rq s of (r, s) \<Rightarrow> (Return (Result_Error env r), s))"

text \<open>\<open>time.Duration(*opts.TimeoutSeconds) * time.Second\<close>, or zero\<close>

definition timeout_of :: "ListOptions \<Rightarrow> duration" where
  "timeout_of opts = (case lo_TimeoutSeconds opts of None \<Rightarrow> 0 | Some t \<Rightarrow> t * Second)"

text \<open>The scheme of a package, whose \<open>init\<close> has not panicked.\<close>

definition built :: "Scheme outcome \<Rightarrow> Scheme" where
  "built sch = (case sch of Return s \<Rightarrow> s | Panic msg \<Rightarrow> NewScheme)"

section \<open>Configurations\<close>

record rest_Config =
  cf_server :: "go_error + base_url"
  cf_APIPath :: string
  cf_AcceptContentTypes :: string
  cf_ContentType :: string
  cf_GroupVersion :: "GroupVersion option"
  cf_NegotiatedSerializer :: "string option"
  cf_UserAgent :: string
  cf_transport :: "go_error + bool"
  cf_QPS :: rat
  cf_Burst :: int
  cf_RateLimiter :: "nat option"
  cf_Timeout :: duration

type_synonym limiters = "(rat \<times> int) list"

definition NewTokenBucketRateLimiter :: "rat \<Rightarrow> int \<Rightarrow> limiters \<Rightarrow> nat \<times> limiters" where
  "NewTokenBucketRateLimiter qps burst ls = (length ls, ls @ [(qps, burst)])"

text \<open>The client of the default transport without a timeout is \<open>http.DefaultClient\<close>, which has none.\<close>

definition HTTPClientFor :: "rest_Config \<Rightarrow> go_error + duration option" where
  "HTTPClientFor config =
     (case cf_transport config of
        Inl err \<Rightarrow> Inl err
      | Inr is_default \<Rightarrow>
          Inr (Some (if \<not> is_default \<or> sint (cf_Timeout config) > 0 then cf_Timeout config else 0)))"

definition DefaultVersionedAPIPath :: "string \<Rightarrow> GroupVersion \<Rightarrow> string" where
  "DefaultVersionedAPIPath apiPath groupVersion =
     (let p = path_Join [''/'', apiPath]
      in if gv_group groupVersion \<noteq> [] then path_Join [p, gv_group groupVersion, gv_version groupVersion]
         else path_Join [p, gv_version groupVersion])"

definition DefaultServerUrlFor :: "rest_Config \<Rightarrow> go_error + (base_url \<times> string)" where
  "DefaultServerUrlFor config =
     (case cf_server config of
        Inl err \<Rightarrow> Inl err
      | Inr url \<Rightarrow> Inr (url, DefaultVersionedAPIPath (cf_APIPath config)
          (case cf_GroupVersion config of None \<Rightarrow> \<lparr>gv_group = [], gv_version = []\<rparr> | Some gv \<Rightarrow> gv)))"

definition config_limiter :: "rest_Config \<Rightarrow> limiters \<Rightarrow> nat option \<times> limiters" where
  "config_limiter config ls =
     (case cf_RateLimiter config of
        Some l \<Rightarrow> (Some l, ls)
      | None \<Rightarrow>
          let qps = (if cf_QPS config = 0 then 5 else cf_QPS config);
              burst = (if cf_Burst config = 0 then 10 else cf_Burst config)
          in if qps > 0 then (case NewTokenBucketRateLimiter qps burst ls of (l, ls) \<Rightarrow> (Some l, ls))
             else (None, ls))"

definition UnversionedRESTClientForConfigAndClient ::
  "rest_Config \<Rightarrow> duration option \<Rightarrow> limiters \<Rightarrow> (go_error + RESTClient) \<times> limiters" where
  "UnversionedRESTClientForConfigAndClient config httpClient ls =
     (if cf_NegotiatedSerializer config = None
      then (Inl (Errorf ''NegotiatedSerializer is required when initializing a RESTClient'' []), ls)
      else case DefaultServerUrlFor config of
             Inl err \<Rightarrow> (Inl err, ls)
           | Inr (baseURL, versionedAPIPath) \<Rightarrow>
               (case config_limiter config ls of
                  (rateLimiter, ls) \<Rightarrow>
                    let gv = (case cf_GroupVersion config of None \<Rightarrow> Unversioned | Some gv \<Rightarrow> gv)
                    in (Inr (NewRESTClient baseURL versionedAPIPath
                          \<lparr>cc_AcceptContentTypes = cf_AcceptContentTypes config, cc_ContentType = cf_ContentType config,
                           cc_GroupVersion = gv\<rparr> rateLimiter httpClient), ls)))"

definition RESTClientForConfigAndClient ::
  "rest_Config \<Rightarrow> duration option \<Rightarrow> limiters \<Rightarrow> (go_error + RESTClient) \<times> limiters" where
  "RESTClientForConfigAndClient config httpClient ls =
     (if cf_GroupVersion config = None
      then (Inl (Errorf ''GroupVersion is required when initializing a RESTClient'' []), ls)
      else UnversionedRESTClientForConfigAndClient config httpClient ls)"

definition setDiscoveryDefaults :: "string \<Rightarrow> rest_Config \<Rightarrow> rest_Config" where
  "setDiscoveryDefaults userAgent config = config\<lparr>cf_APIPath := [], cf_GroupVersion := None,
     cf_Timeout := (if cf_Timeout config = 0 then 32 * Second else cf_Timeout config),
     cf_Burst := (if cf_Burst config = 0 then 300 else cf_Burst config),
     cf_NegotiatedSerializer := Some ''discovery'',
     cf_UserAgent := (if cf_UserAgent config = [] then userAgent else cf_UserAgent config)\<rparr>"

definition NewDiscoveryClientForConfigAndClient ::
  "string \<Rightarrow> rest_Config \<Rightarrow> duration option \<Rightarrow> limiters \<Rightarrow> (go_error + RESTClient) \<times> limiters" where
  "NewDiscoveryClientForConfigAndClient userAgent c httpClient ls =
     UnversionedRESTClientForConfigAndClient (setDiscoveryDefaults userAgent c) httpClient ls"

text \<open>\<open>if err != nil { panic(err) }\<close>\<close>

definition or_die :: "(go_error + 'c) \<times> limiters \<Rightarrow> 'c outcome \<times> limiters" where
  "or_die r = (case r of (Inl err, ls) \<Rightarrow> (Panic ''OrDie'', ls) | (Inr c, ls) \<Rightarrow> (Return c, ls))"

text \<open>The pair of a watch and an error that \<open>Watch\<close> returns.\<close>

definition watch_call :: "(go_error + watch_result) \<times> 's \<Rightarrow> (watch_result option \<times> error) outcome \<times> 's" where
  "watch_call r = (case r of (Inl err, s) \<Rightarrow> (Return (None, Some err), s) | (Inr w, s) \<Rightarrow> (Return (Some w, None), s))"

section \<open>Tenants\<close>

text \<open>\<open>tenant.go\<close>\<close>

record tenants =
  tt_client :: RESTClient
  tt_ns :: string

definition tt_Scheme :: Scheme where
  "tt_Scheme = built tenant_clientset_scheme"

definition tenants_Get ::
  "'s rest_env \<Rightarrow> (tenant, tenant_list) codecs \<Rightarrow> tenants \<Rightarrow> string \<Rightarrow> GetOptions \<Rightarrow> (tenant, 's) client_call" where
  "tenants_Get env cd c name options =
     Do_Into env (cd_decode cd) zero_tenant
       (chain [Namespace (tt_ns c), Resource ''tenants'', Name name,
           VersionedParams tt_Scheme (metav1 ''GetOptions'') (GetOptions_params options)]
         (rest_Get (tt_client c)))"

definition tenants_List ::
  "'s rest_env \<Rightarrow> (tenant, tenant_list) codecs \<Rightarrow> tenants \<Rightarrow> ListOptions \<Rightarrow> (tenant_list, 's) client_call" where
  "tenants_List env cd c opts =
     Do_Into env (cd_decode_list cd) zero_tenant_list
       (chain [Namespace (tt_ns c), Resource ''tenants'',
           VersionedParams tt_Scheme (metav1 ''ListOptions'') (ListOptions_params opts), Timeout (timeout_of opts)]
         (rest_Get (tt_client c)))"

definition tenants_Watch ::
  "'s rest_env \<Rightarrow> tenants \<Rightarrow> ListOptions \<Rightarrow> 's \<Rightarrow> (go_error + watch_result) \<times> 's" where
  "tenants_Watch env c opts =
     rest_Watch env
       (chain [Namespace (tt_ns c), Resource ''tenants'',
           VersionedParams tt_Scheme (metav1 ''ListOptions'') (ListOptions_params (opts\<lparr>lo_Watch := True\<rparr>)),
           Timeout (timeout_of opts)]
         (rest_Get (tt_client c)))"

definition tenants_Create ::
  "'s rest_env \<Rightarrow> (tenant, tenant_list) codecs \<Rightarrow> tenants \<Rightarrow> tenant \<Rightarrow> CreateOptions \<Rightarrow> (tenant, 's) client_call" where
  "tenants_Create env cd c ob opts =
     Do_Into env (cd_decode cd) zero_tenant
       (chain [Namespace (tt_ns c), Resource ''tenants'',
           VersionedParams tt_Scheme (metav1 ''CreateOptions'') (CreateOptions_params opts),
           Body_object (cd_encode cd ob)]
         (rest_Post (tt_client c)))"

definition tenants_Update ::
  "'s rest_env \<Rightarrow> (tenant, tenant_list) codecs \<Rightarrow> tenants \<Rightarrow> tenant \<Rightarrow> UpdateOptions \<Rightarrow> (tenant, 's) client_call" where
  "tenants_Update env cd c ob opts =
     Do_Into env (cd_decode cd) zero_tenant
       (chain [Namespace (tt_ns c), Resource ''tenants'', Name (om_Name (tn_ObjectMeta ob)),
           VersionedParams tt_Scheme (metav1 ''UpdateOptions'') (UpdateOptions_params opts),
           Body_object (cd_encode cd ob)]
         (rest_Put (tt_client c)))"

definition tenants_UpdateStatus ::
  "'s rest_env \<Rightarrow> (tenant, tenant_list) codecs \<Rightarrow> tenants \<Rightarrow> tenant \<Rightarrow> UpdateOptions \<Rightarrow> (tenant, 's) client_call" where
  "tenants_UpdateStatus env cd c ob opts =
     Do_Into env (cd_decode cd) zero_tenant
       (chain [Namespace (tt_ns c), Resource ''tenants'', Name (om_Name (tn_ObjectMeta ob)), SubResource [''status''],
           VersionedParams tt_Scheme (metav1 ''UpdateOptions'') (UpdateOptions_params opts),
           Body_object (cd_encode cd ob)]
         (rest_Put (tt_client c)))"

definition tenants_Delete ::
  "'s rest_env \<Rightarrow> (tenant, tenant_list) codecs \<Rightarrow> tenants \<Rightarrow> string \<Rightarrow> DeleteOptions \<Rightarrow> 's \<Rightarrow> error outcome \<times> 's" where
  "tenants_Delete env cd c name opts =
     Do_Error env
       (chain [Namespace (tt_ns c), Resource ''tenants'', Name name, Body_object (cd_encode_DeleteOptions cd opts)]
         (rest_Delete (tt_client c)))"

definition tenants_DeleteCollection ::
  "'s rest_env \<Rightarrow> (tenant, tenant_list) codecs \<Rightarrow> tenants \<Rightarrow> DeleteOptions \<Rightarrow> ListOptions \<Rightarrow> 's \<Rightarrow> error outcome \<times> 's" where
  "tenants_DeleteCollection env cd c opts listOpts =
     Do_Error env
       (chain [Namespace (tt_ns c), Resource ''tenants'',
           VersionedParams tt_Scheme (metav1 ''ListOptions'') (ListOptions_params listOpts),
           Timeout (timeout_of listOpts), Body_object (cd_encode_DeleteOptions cd opts)]
         (rest_Delete (tt_client c)))"

definition tenants_Patch ::
  "'s rest_env \<Rightarrow> (tenant, tenant_list) codecs \<Rightarrow> tenants \<Rightarrow> string \<Rightarrow> patch_type \<Rightarrow> string \<Rightarrow> PatchOptions \<Rightarrow> string list
   \<Rightarrow> (tenant, 's) client_call" where
  "tenants_Patch env cd c name pt data opts subresources =
     Do_Into env (cd_decode cd) zero_tenant
       (chain [Namespace (tt_ns c), Resource ''tenants'', Name name, SubResource subresources,
           VersionedParams tt_Scheme (metav1 ''PatchOptions'') (PatchOptions_params opts), Body_bytes data]
         (rest_Patch pt (tt_client c)))"

definition tenants_interface ::
  "'s rest_env \<Rightarrow> (tenant, tenant_list) codecs \<Rightarrow> tenants \<Rightarrow> (watch_result, 's) TenantInterface" where
  "tenants_interface env cd c =
     \<lparr>if_Create = tenants_Create env cd c, if_Update = tenants_Update env cd c, if_UpdateStatus = tenants_UpdateStatus env cd c,
      if_Delete = tenants_Delete env cd c, if_DeleteCollection = tenants_DeleteCollection env cd c,
      if_Get = tenants_Get env cd c, if_List = tenants_List env cd c,
      if_Watch = (\<lambda>opts s. watch_call (tenants_Watch env c opts s)), if_Patch = tenants_Patch env cd c\<rparr>"

text \<open>\<open>tenant_client.go\<close>; a nil client is \<open>None\<close>.\<close>

record TenancyClient =
  tenancy_restClient :: RESTClient

definition tenancy_RESTClient :: "TenancyClient option \<Rightarrow> RESTClient option" where
  "tenancy_RESTClient c = (case c of None \<Rightarrow> None | Some c \<Rightarrow> Some (tenancy_restClient c))"

definition newTenants :: "TenancyClient \<Rightarrow> string \<Rightarrow> tenants" where
  "newTenants c namespace = \<lparr>tt_client = the (tenancy_RESTClient (Some c)), tt_ns = namespace\<rparr>"

definition tenancy_Tenants :: "TenancyClient \<Rightarrow> string \<Rightarrow> tenants" where
  "tenancy_Tenants c namespace = newTenants c namespace"

definition tenancy_setConfigDefaults :: "string \<Rightarrow> rest_Config \<Rightarrow> rest_Config" where
  "tenancy_setConfigDefaults userAgent config =
     config\<lparr>cf_GroupVersion := Some tenant_SchemeGroupVersion, cf_APIPath := ''/apis'',
       cf_NegotiatedSerializer := Some ''tenant'',
       cf_UserAgent := (if cf_UserAgent config = [] then userAgent else cf_UserAgent config)\<rparr>"

definition tenancy_NewForConfigAndClient ::
  "string \<Rightarrow> rest_Config \<Rightarrow> duration option \<Rightarrow> limiters \<Rightarrow> (go_error + TenancyClient) \<times> limiters" where
  "tenancy_NewForConfigAndClient userAgent c h ls =
     (case RESTClientForConfigAndClient (tenancy_setConfigDefaults userAgent c) h ls of
        (Inl err, ls) \<Rightarrow> (Inl err, ls)
      | (Inr client, ls) \<Rightarrow> (Inr \<lparr>tenancy_restClient = client\<rparr>, ls))"

definition tenancy_NewForConfig :: "string \<Rightarrow> rest_Config \<Rightarrow> limiters \<Rightarrow> (go_error + TenancyClient) \<times> limiters" where
  "tenancy_NewForConfig userAgent c ls =
     (let config = tenancy_setConfigDefaults userAgent c
      in case HTTPClientFor config of
           Inl err \<Rightarrow> (Inl err, ls)
         | Inr httpClient \<Rightarrow> tenancy_NewForConfigAndClient userAgent config httpClient ls)"

definition tenancy_NewForConfigOrDie :: "string \<Rightarrow> rest_Config \<Rightarrow> limiters \<Rightarrow> TenancyClient outcome \<times> limiters" where
  "tenancy_NewForConfigOrDie userAgent c ls = or_die (tenancy_NewForConfig userAgent c ls)"

definition tenancy_New :: "RESTClient \<Rightarrow> TenancyClient" where
  "tenancy_New c = \<lparr>tenancy_restClient = c\<rparr>"

text \<open>\<open>clientset.go\<close>; a discovery client is its REST client.\<close>

record tt_Clientset =
  tt_DiscoveryClient :: RESTClient
  tt_tenancyV1_kubernetes_apis :: TenancyClient

definition tt_cs_TenancyV1_kubernetes_apis :: "tt_Clientset \<Rightarrow> TenancyClient" where
  "tt_cs_TenancyV1_kubernetes_apis c = tt_tenancyV1_kubernetes_apis c"

definition tt_cs_Discovery :: "tt_Clientset option \<Rightarrow> RESTClient option" where
  "tt_cs_Discovery c = (case c of None \<Rightarrow> None | Some c \<Rightarrow> Some (tt_DiscoveryClient c))"

definition tt_cs_NewForConfigAndClient ::
  "string \<Rightarrow> rest_Config \<Rightarrow> duration option \<Rightarrow> limiters \<Rightarrow> (go_error + tt_Clientset) \<times> limiters" where
  "tt_cs_NewForConfigAndClient userAgent c httpClient ls =
     (if cf_RateLimiter c = None \<and> cf_QPS c > 0 \<and> cf_Burst c \<le> 0
      then (Inl (Errorf ''burst is required to be greater than 0 when RateLimiter is not set and QPS is set to greater than 0'' []), ls)
      else
        let (config, ls) =
          (if cf_RateLimiter c = None \<and> cf_QPS c > 0
           then case NewTokenBucketRateLimiter (cf_QPS c) (cf_Burst c) ls of (l, ls) \<Rightarrow> (c\<lparr>cf_RateLimiter := Some l\<rparr>, ls)
           else (c, ls))
        in case tenancy_NewForConfigAndClient userAgent config httpClient ls of
             (Inl err, ls) \<Rightarrow> (Inl err, ls)
           | (Inr typed, ls) \<Rightarrow>
               (case NewDiscoveryClientForConfigAndClient userAgent config httpClient ls of
                  (Inl err, ls) \<Rightarrow> (Inl err, ls)
                | (Inr discovery, ls) \<Rightarrow>
                    (Inr \<lparr>tt_DiscoveryClient = discovery, tt_tenancyV1_kubernetes_apis = typed\<rparr>, ls)))"

definition tt_cs_NewForConfig :: "string \<Rightarrow> rest_Config \<Rightarrow> limiters \<Rightarrow> (go_error + tt_Clientset) \<times> limiters" where
  "tt_cs_NewForConfig userAgent c ls =
     (let config = c\<lparr>cf_UserAgent := (if cf_UserAgent c = [] then userAgent else cf_UserAgent c)\<rparr>
      in case HTTPClientFor config of
           Inl err \<Rightarrow> (Inl err, ls)
         | Inr httpClient \<Rightarrow> tt_cs_NewForConfigAndClient userAgent config httpClient ls)"

definition tt_cs_NewForConfigOrDie :: "string \<Rightarrow> rest_Config \<Rightarrow> limiters \<Rightarrow> tt_Clientset outcome \<times> limiters" where
  "tt_cs_NewForConfigOrDie userAgent c ls = or_die (tt_cs_NewForConfig userAgent c ls)"

definition tt_cs_New :: "RESTClient \<Rightarrow> tt_Clientset" where
  "tt_cs_New c = \<lparr>tt_DiscoveryClient = c, tt_tenancyV1_kubernetes_apis = tenancy_New c\<rparr>"

section \<open>ProviderConfigs\<close>

text \<open>\<open>providerconfig.go\<close>\<close>

record providerConfigs =
  tp_client :: RESTClient
  tp_ns :: string

definition tp_Scheme :: Scheme where
  "tp_Scheme = built pc_clientset_scheme"

definition providerConfigs_Get ::
  "'s rest_env \<Rightarrow> (provider_config, provider_config_list) codecs \<Rightarrow> providerConfigs \<Rightarrow> string \<Rightarrow> GetOptions \<Rightarrow> (provider_config, 's) client_call" where
  "providerConfigs_Get env cd c name options =
     Do_Into env (cd_decode cd) zero_provider_config
       (chain [Namespace (tp_ns c), Resource ''providerconfigs'', Name name,
           VersionedParams tp_Scheme (metav1 ''GetOptions'') (GetOptions_params options)]
         (rest_Get (tp_client c)))"

definition providerConfigs_List ::
  "'s rest_env \<Rightarrow> (provider_config, provider_config_list) codecs \<Rightarrow> providerConfigs \<Rightarrow> ListOptions \<Rightarrow> (provider_config_list, 's) client_call" where
  "providerConfigs_List env cd c opts =
     Do_Into env (cd_decode_list cd) zero_provider_config_list
       (chain [Namespace (tp_ns c), Resource ''providerconfigs'',
           VersionedParams tp_Scheme (metav1 ''ListOptions'') (ListOptions_params opts), Timeout (timeout_of opts)]
         (rest_Get (tp_client c)))"

definition providerConfigs_Watch ::
  "'s rest_env \<Rightarrow> providerConfigs \<Rightarrow> ListOptions \<Rightarrow> 's \<Rightarrow> (go_error + watch_result) \<times> 's" where
  "providerConfigs_Watch env c opts =
     rest_Watch env
       (chain [Namespace (tp_ns c), Resource ''providerconfigs'',
           VersionedParams tp_Scheme (metav1 ''ListOptions'') (ListOptions_params (opts\<lparr>lo_Watch := True\<rparr>)),
           Timeout (timeout_of opts)]
         (rest_Get (tp_client c)))"

definition providerConfigs_Create ::
  "'s rest_env \<Rightarrow> (provider_config, provider_config_list) codecs \<Rightarrow> providerConfigs \<Rightarrow> provider_config \<Rightarrow> CreateOptions \<Rightarrow> (provider_config, 's) client_call" where
  "providerConfigs_Create env cd c ob opts =
     Do_Into env (cd_decode cd) zero_provider_config
       (chain [Namespace (tp_ns c), Resource ''providerconfigs'',
           VersionedParams tp_Scheme (metav1 ''CreateOptions'') (CreateOptions_params opts),
           Body_object (cd_encode cd ob)]
         (rest_Post (tp_client c)))"

definition providerConfigs_Update ::
  "'s rest_env \<Rightarrow> (provider_config, provider_config_list) codecs \<Rightarrow> providerConfigs \<Rightarrow> provider_config \<Rightarrow> UpdateOptions \<Rightarrow> (provider_config, 's) client_call" where
  "providerConfigs_Update env cd c ob opts =
     Do_Into env (cd_decode cd) zero_provider_config
       (chain [Namespace (tp_ns c), Resource ''providerconfigs'', Name (om_Name (pc_ObjectMeta ob)),
           VersionedParams tp_Scheme (metav1 ''UpdateOptions'') (UpdateOptions_params opts),
           Body_object (cd_encode cd ob)]
         (rest_Put (tp_client c)))"

definition providerConfigs_UpdateStatus ::
  "'s rest_env \<Rightarrow> (provider_config, provider_config_list) codecs \<Rightarrow> providerConfigs \<Rightarrow> provider_config \<Rightarrow> UpdateOptions \<Rightarrow> (provider_config, 's) client_call" where
  "providerConfigs_UpdateStatus env cd c ob opts =
     Do_Into env (cd_decode cd) zero_provider_config
       (chain [Namespace (tp_ns c), Resource ''providerconfigs'', Name (om_Name (pc_ObjectMeta ob)), SubResource [''status''],
           VersionedParams tp_Scheme (metav1 ''UpdateOptions'') (UpdateOptions_params opts),
           Body_object (cd_encode cd ob)]
         (rest_Put (tp_client c)))"

definition providerConfigs_Delete ::
  "'s rest_env \<Rightarrow> (provider_config, provider_config_list) codecs \<Rightarrow> providerConfigs \<Rightarrow> string \<Rightarrow> DeleteOptions \<Rightarrow> 's \<Rightarrow> error outcome \<times> 's" where
  "providerConfigs_Delete env cd c name opts =
     Do_Error env
       (chain [Namespace (tp_ns c), Resource ''providerconfigs'', Name name, Body_object (cd_encode_DeleteOptions cd opts)]
         (rest_Delete (tp_client c)))"

definition providerConfigs_DeleteCollection ::
  "'s rest_env \<Rightarrow> (provider_config, provider_config_list) codecs \<Rightarrow> providerConfigs \<Rightarrow> DeleteOptions \<Rightarrow> ListOptions \<Rightarrow> 's \<Rightarrow> error outcome \<times> 's" where
  "providerConfigs_DeleteCollection env cd c opts listOpts =
     Do_Error env
       (chain [Namespace (tp_ns c), Resource ''providerconfigs'',
           VersionedParams tp_Scheme (metav1 ''ListOptions'') (ListOptions_params listOpts),
           Timeout (timeout_of listOpts), Body_object (cd_encode_DeleteOptions cd opts)]
         (rest_Delete (tp_client c)))"

definition providerConfigs_Patch ::
  "'s rest_env \<Rightarrow> (provider_config, provider_config_list) codecs \<Rightarrow> providerConfigs \<Rightarrow> string \<Rightarrow> patch_type \<Rightarrow> string \<Rightarrow> PatchOptions \<Rightarrow> string list
   \<Rightarrow> (provider_config, 's) client_call" where
  "providerConfigs_Patch env cd c name pt data opts subresources =
     Do_Into env (cd_decode cd) zero_provider_config
       (chain [Namespace (tp_ns c), Resource ''providerconfigs'', Name name, SubResource subresources,
           VersionedParams tp_Scheme (metav1 ''PatchOptions'') (PatchOptions_params opts), Body_bytes data]
         (rest_Patch pt (tp_client c)))"

definition providerConfigs_interface ::
  "'s rest_env \<Rightarrow> (provider_config, provider_config_list) codecs \<Rightarrow> providerConfigs \<Rightarrow> (watch_result, 's) ProviderConfigInterface" where
  "providerConfigs_interface env cd c =
     \<lparr>if_Create = providerConfigs_Create env cd c, if_Update = providerConfigs_Update env cd c, if_UpdateStatus = providerConfigs_UpdateStatus env cd c,
      if_Delete = providerConfigs_Delete env cd c, if_DeleteCollection = providerConfigs_DeleteCollection env cd c,
      if_Get = providerConfigs_Get env cd c, if_List = providerConfigs_List env cd c,
      if_Watch = (\<lambda>opts s. watch_call (providerConfigs_Watch env c opts s)), if_Patch = providerConfigs_Patch env cd c\<rparr>"

text \<open>\<open>providerconfig_client.go\<close>; a nil client is \<open>None\<close>.\<close>

record CloudClient =
  cloud_restClient :: RESTClient

definition cloud_RESTClient :: "CloudClient option \<Rightarrow> RESTClient option" where
  "cloud_RESTClient c = (case c of None \<Rightarrow> None | Some c \<Rightarrow> Some (cloud_restClient c))"

definition newProviderConfigs :: "CloudClient \<Rightarrow> string \<Rightarrow> providerConfigs" where
  "newProviderConfigs c namespace = \<lparr>tp_client = the (cloud_RESTClient (Some c)), tp_ns = namespace\<rparr>"

definition cloud_ProviderConfigs :: "CloudClient \<Rightarrow> string \<Rightarrow> providerConfigs" where
  "cloud_ProviderConfigs c namespace = newProviderConfigs c namespace"

definition cloud_setConfigDefaults :: "string \<Rightarrow> rest_Config \<Rightarrow> rest_Config" where
  "cloud_setConfigDefaults userAgent config =
     config\<lparr>cf_GroupVersion := Some pc_SchemeGroupVersion, cf_APIPath := ''/apis'',
       cf_NegotiatedSerializer := Some ''pc'',
       cf_UserAgent := (if cf_UserAgent config = [] then userAgent else cf_UserAgent config)\<rparr>"

definition cloud_NewForConfigAndClient ::
  "string \<Rightarrow> rest_Config \<Rightarrow> duration option \<Rightarrow> limiters \<Rightarrow> (go_error + CloudClient) \<times> limiters" where
  "cloud_NewForConfigAndClient userAgent c h ls =
     (case RESTClientForConfigAndClient (cloud_setConfigDefaults userAgent c) h ls of
        (Inl err, ls) \<Rightarrow> (Inl err, ls)
      | (Inr client, ls) \<Rightarrow> (Inr \<lparr>cloud_restClient = client\<rparr>, ls))"

definition cloud_NewForConfig :: "string \<Rightarrow> rest_Config \<Rightarrow> limiters \<Rightarrow> (go_error + CloudClient) \<times> limiters" where
  "cloud_NewForConfig userAgent c ls =
     (let config = cloud_setConfigDefaults userAgent c
      in case HTTPClientFor config of
           Inl err \<Rightarrow> (Inl err, ls)
         | Inr httpClient \<Rightarrow> cloud_NewForConfigAndClient userAgent config httpClient ls)"

definition cloud_NewForConfigOrDie :: "string \<Rightarrow> rest_Config \<Rightarrow> limiters \<Rightarrow> CloudClient outcome \<times> limiters" where
  "cloud_NewForConfigOrDie userAgent c ls = or_die (cloud_NewForConfig userAgent c ls)"

definition cloud_New :: "RESTClient \<Rightarrow> CloudClient" where
  "cloud_New c = \<lparr>cloud_restClient = c\<rparr>"

text \<open>\<open>clientset.go\<close>; a discovery client is its REST client.\<close>

record tp_Clientset =
  tp_DiscoveryClient :: RESTClient
  tp_cloudV1_kubernetes_apis :: CloudClient

definition tp_cs_CloudV1_kubernetes_apis :: "tp_Clientset \<Rightarrow> CloudClient" where
  "tp_cs_CloudV1_kubernetes_apis c = tp_cloudV1_kubernetes_apis c"

definition tp_cs_Discovery :: "tp_Clientset option \<Rightarrow> RESTClient option" where
  "tp_cs_Discovery c = (case c of None \<Rightarrow> None | Some c \<Rightarrow> Some (tp_DiscoveryClient c))"

definition tp_cs_NewForConfigAndClient ::
  "string \<Rightarrow> rest_Config \<Rightarrow> duration option \<Rightarrow> limiters \<Rightarrow> (go_error + tp_Clientset) \<times> limiters" where
  "tp_cs_NewForConfigAndClient userAgent c httpClient ls =
     (if cf_RateLimiter c = None \<and> cf_QPS c > 0 \<and> cf_Burst c \<le> 0
      then (Inl (Errorf ''burst is required to be greater than 0 when RateLimiter is not set and QPS is set to greater than 0'' []), ls)
      else
        let (config, ls) =
          (if cf_RateLimiter c = None \<and> cf_QPS c > 0
           then case NewTokenBucketRateLimiter (cf_QPS c) (cf_Burst c) ls of (l, ls) \<Rightarrow> (c\<lparr>cf_RateLimiter := Some l\<rparr>, ls)
           else (c, ls))
        in case cloud_NewForConfigAndClient userAgent config httpClient ls of
             (Inl err, ls) \<Rightarrow> (Inl err, ls)
           | (Inr typed, ls) \<Rightarrow>
               (case NewDiscoveryClientForConfigAndClient userAgent config httpClient ls of
                  (Inl err, ls) \<Rightarrow> (Inl err, ls)
                | (Inr discovery, ls) \<Rightarrow>
                    (Inr \<lparr>tp_DiscoveryClient = discovery, tp_cloudV1_kubernetes_apis = typed\<rparr>, ls)))"

definition tp_cs_NewForConfig :: "string \<Rightarrow> rest_Config \<Rightarrow> limiters \<Rightarrow> (go_error + tp_Clientset) \<times> limiters" where
  "tp_cs_NewForConfig userAgent c ls =
     (let config = c\<lparr>cf_UserAgent := (if cf_UserAgent c = [] then userAgent else cf_UserAgent c)\<rparr>
      in case HTTPClientFor config of
           Inl err \<Rightarrow> (Inl err, ls)
         | Inr httpClient \<Rightarrow> tp_cs_NewForConfigAndClient userAgent config httpClient ls)"

definition tp_cs_NewForConfigOrDie :: "string \<Rightarrow> rest_Config \<Rightarrow> limiters \<Rightarrow> tp_Clientset outcome \<times> limiters" where
  "tp_cs_NewForConfigOrDie userAgent c ls = or_die (tp_cs_NewForConfig userAgent c ls)"

definition tp_cs_New :: "RESTClient \<Rightarrow> tp_Clientset" where
  "tp_cs_New c = \<lparr>tp_DiscoveryClient = c, tp_cloudV1_kubernetes_apis = cloud_New c\<rparr>"

end
