(* ===== verification/RestProps.thy ===== *)
theory RestProps imports TypedClients begin

text \<open>
  What reaches the server: the path of a request that has been built without an error, and the
  attempts a sent request makes. An environment is \<open>traced\<close> by logging every attempt.
\<close>

section \<open>Paths\<close>

lemma IsValidPathSegmentName_empty:
  "IsValidPathSegmentName n = [] \<longleftrightarrow> n = [] \<or> (segment n \<and> CHR ''%'' \<notin> set n)"
  by (auto simp: IsValidPathSegmentName_def segment_def)

lemma path_Join_Nil [simp]: "path_Join [] = []"
  by (simp add: path_Join_def)

lemma path_Join_relative:
  assumes "segments (filter (\<lambda>e. e \<noteq> []) elem)"
  shows "path_Join elem = Join (filter (\<lambda>e. e \<noteq> []) elem) ''/''"
proof (cases "filter (\<lambda>e. e \<noteq> []) elem")
  case Nil
  then show ?thesis by (simp add: path_Join_def)
next
  case (Cons s ss)
  let ?c = "CHR ''/''" and ?p = "Join (s # ss) ''/''"
  have segs: "segments (s # ss)" using assms Cons by simp
  then have p: "?p \<noteq> []" using Join_not_Nil by blast
  have "hd ?p \<noteq> ?c" using segs by (cases s; cases ss) (auto simp: segment_def)
  moreover have "Split1 ?p ?c = s # ss" using Split1_Join [of "s # ss" ?c] segments_no_slash [OF segs] by simp
  moreover have "clean_segments False [] (s # ss) = s # ss" using clean_segments_id [OF segs, of False "[]"] by simp
  ultimately show ?thesis using p by (simp add: path_Join_def Cons path_Clean_def)
qed

definition prefix_segments :: "RESTClient \<Rightarrow> string list" where
  "prefix_segments c = filter (\<lambda>s. s \<noteq> [])
     (Split1 (path_Join [''/'', bu_Path (rc_base c), rc_versionedAPIPath c]) CHR ''/'')"

lemma prefix_segments:
  "segments (prefix_segments c)"
  "path_Join [''/'', bu_Path (rc_base c), rc_versionedAPIPath c] = abs_path (prefix_segments c)"
proof -
  obtain ss where ss: "path_Join [''/'', bu_Path (rc_base c), rc_versionedAPIPath c] = abs_path ss" "segments ss"
    by (rule path_Join_rooted)
  have "filter (\<lambda>s. s \<noteq> []) ss = ss" using ss(2) by (simp add: filter_id_conv list_all_iff segment_def)
  then have "prefix_segments c = ss"
    using ss Split1_abs_path [OF ss(2)] by (simp add: prefix_segments_def)
  with ss show "segments (prefix_segments c)"
    "path_Join [''/'', bu_Path (rc_base c), rc_versionedAPIPath c] = abs_path (prefix_segments c)" by simp_all
qed

section \<open>Requests under construction\<close>

text \<open>A request for a namespace, a resource, a name and subresources, unless it has failed.\<close>

definition ready ::
  "string \<Rightarrow> RESTClient \<Rightarrow> string option \<Rightarrow> string \<Rightarrow> string option \<Rightarrow> string list \<Rightarrow> Request \<Rightarrow> bool" where
  "ready v c ns res name subs rq \<longleftrightarrow> rq_err rq = None \<longrightarrow>
     rq_verb rq = v \<and> rq_pathPrefix rq = abs_path (prefix_segments c) \<and> rq_base rq = rc_base c
     \<and> rq_rateLimiter rq = rc_rateLimiter c \<and> rq_maxRetries rq = 10
     \<and> rq_namespaceSet rq = (ns \<noteq> None) \<and> rq_namespace rq = (case ns of None \<Rightarrow> [] | Some n \<Rightarrow> n)
     \<and> (case ns of None \<Rightarrow> True | Some n \<Rightarrow> IsValidPathSegmentName n = [])
     \<and> rq_resource rq = res \<and> rq_resourceName rq = (case name of None \<Rightarrow> [] | Some n \<Rightarrow> n)
     \<and> (case name of None \<Rightarrow> True | Some n \<Rightarrow> n \<noteq> [] \<and> IsValidPathSegmentName n = [])
     \<and> rq_subresource rq = path_Join subs \<and> (\<forall>s\<in>set subs. IsValidPathSegmentName s = [])"

named_theorems ready

lemma ready_Verb [ready]: "ready v c None [] None [] (Verb v c)"
  by (simp add: ready_def Verb_def NewRequest_def setAcceptHeader_def SetHeader_def Let_def prefix_segments)

lemma ready_SetHeader [ready]: "ready v c ns res name subs rq \<Longrightarrow> ready v c ns res name subs (SetHeader k x rq)"
  by (simp add: ready_def SetHeader_def)

lemma ready_Namespace [ready]: "ready v c None res name subs rq \<Longrightarrow> ready v c (Some ns) res name subs (Namespace ns rq)"
  by (auto simp: ready_def Namespace_def unless_failed_def fail_def split: list.split)

lemma ready_Resource [ready]:
  "ready v c ns [] name subs rq \<Longrightarrow> IsValidPathSegmentName res = [] \<Longrightarrow> ready v c ns res name subs (Resource res rq)"
  by (auto simp: ready_def Resource_def unless_failed_def fail_def split: list.split)

lemma ready_Name [ready]: "ready v c ns res None subs rq \<Longrightarrow> ready v c ns res (Some n) subs (Name n rq)"
  by (auto simp: ready_def Name_def unless_failed_def fail_def split: list.split)

lemma ready_SubResource [ready]:
  "ready v c ns res name [] rq \<Longrightarrow> ready v c ns res name subs (SubResource subs rq)"
  by (auto simp: ready_def SubResource_def unless_failed_def fail_def Let_def find_None_iff split: option.split)

lemma valid_segments: "\<forall>s\<in>set subs. IsValidPathSegmentName s = [] \<Longrightarrow> segments (filter (\<lambda>e. e \<noteq> []) subs)"
  by (auto simp: list_all_iff IsValidPathSegmentName_empty)

lemma ready_VersionedParams [ready]:
  "ready v c ns res name subs rq \<Longrightarrow> ready v c ns res name subs (VersionedParams sch t params rq)"
  by (simp add: ready_def VersionedParams_def unless_failed_def fail_def split: sum.split)

lemma ready_Timeout [ready]: "ready v c ns res name subs rq \<Longrightarrow> ready v c ns res name subs (Timeout d rq)"
  by (simp add: ready_def Timeout_def unless_failed_def)

lemma ready_Body [ready]:
  "ready v c ns res name subs rq \<Longrightarrow> ready v c ns res name subs (Body_object e rq)"
  "ready v c ns res name subs rq \<Longrightarrow> ready v c ns res name subs (Body_bytes d rq)"
  by (auto simp: ready_def Body_object_def Body_bytes_def unless_failed_def fail_def SetHeader_def split: sum.split)

lemma valid_resources [ready]: "IsValidPathSegmentName ''tenants'' = []" "IsValidPathSegmentName ''providerconfigs'' = []"
  by (simp_all add: IsValidPathSegmentName_def)

text \<open>The path of such a request.\<close>

definition target_segments :: "string \<Rightarrow> string \<Rightarrow> string option \<Rightarrow> string list \<Rightarrow> string list" where
  "target_segments ns res name subs =
     (if ns = [] then [] else [''namespaces'', ns]) @ [res] @ (case name of None \<Rightarrow> [] | Some n \<Rightarrow> [n])
     @ filter (\<lambda>e. e \<noteq> []) subs"

lemma namespaces_segment: "segment ''namespaces''"
  by (simp add: segment_def)

lemma ready_path:
  assumes "ready v c (Some ns) res name subs rq" "rq_err rq = None" "segment res" "ToLower res = res"
  shows "URL_path rq = abs_path (prefix_segments c @ target_segments ns res name subs)"
proof -
  note r = assms(1) [unfolded ready_def, rule_format, OF assms(2)]
  obtain pre nss nm sub where
    pre: "pre = prefix_segments c" and nss: "nss = (if ns = [] then [] else [''namespaces'', ns])"
    and nm: "nm = (case name of None \<Rightarrow> [] | Some n \<Rightarrow> [n])" and sub: "sub = filter (\<lambda>e. e \<noteq> []) subs" by blast
  have good: "segments pre" "segments nss" "segments nm" "segments sub"
    using r prefix_segments namespaces_segment valid_segments [of subs]
    by (auto simp: pre nss nm sub IsValidPathSegmentName_empty split: option.splits)
  have 1: "(if rq_namespaceSet rq \<and> rq_namespace rq \<noteq> [] then path_Join [rq_pathPrefix rq, ''namespaces'', rq_namespace rq]
      else rq_pathPrefix rq) = abs_path (pre @ nss)"
    using path_Join_abs [OF good(1), of "[[''namespaces''], [ns]]"] r namespaces_segment
    by (auto simp: pre nss IsValidPathSegmentName_empty)
  have 2: "path_Join [abs_path (pre @ nss), res] = abs_path (pre @ nss @ [res])"
    using path_Join_abs [of "pre @ nss" "[[res]]"] good assms(3) by simp
  have fields: "rq_resourceName rq = Join nm ''/''" "rq_subresource rq = Join sub ''/''"
    using r path_Join_relative [of subs] valid_segments [of subs] by (auto simp: nm sub split: option.splits)
  have 3: "path_Join [abs_path (pre @ nss @ [res]), rq_resourceName rq, rq_subresource rq]
      = abs_path (pre @ nss @ [res] @ nm @ sub)"
    using path_Join_abs [of "pre @ nss @ [res]" "[nm, sub]"] good assms(3) by (simp add: fields)
  have 4: "nm = [] \<and> sub = []" if "rq_resourceName rq = []" "rq_subresource rq = []"
    using that Join_not_Nil good(3,4) by (simp add: fields)
  have "URL_path rq = abs_path (pre @ nss @ [res] @ nm @ sub)"
    using 1 2 3 4 r assms(3,4) by (auto simp: URL_path_def Let_def segment_def)
  then show ?thesis by (simp add: target_segments_def pre nss nm sub)
qed

text \<open>The target of a request can be read off its path.\<close>

lemma target_segments_inject:
  assumes "target_segments ns res name subs = target_segments ns' res name' subs'" "res \<noteq> ''namespaces''"
    "name = None \<longrightarrow> subs = []" "name' = None \<longrightarrow> subs' = []"
  shows "ns = ns' \<and> name = name' \<and> filter (\<lambda>e. e \<noteq> []) subs = filter (\<lambda>e. e \<noteq> []) subs'"
  using assms by (auto simp: target_segments_def split: if_splits option.splits)

section \<open>Attempts\<close>

text \<open>An attempt is logged with the timeout of its context, the request and the outcome.\<close>

type_synonym sent = "duration option \<times> http_request"
type_synonym log = "(sent \<times> (go_error + http_response)) list"

definition traced :: "'s rest_env \<Rightarrow> ('s \<times> log) rest_env" where
  "traced env =
     \<lparr>env_Do = (\<lambda>ctx req (s, l). case env_Do env ctx req s of (out, s) \<Rightarrow> (out, (s, l @ [((ctx, req), out)]))),
      env_ctx_Err = (\<lambda>ctx (s, l). env_ctx_Err env ctx s),
      env_Wait = (\<lambda>ctx lim (s, l). case env_Wait env ctx lim s of (err, s) \<Rightarrow> (err, (s, l))),
      env_sleep = (\<lambda>ctx d (s, l). (env_sleep env ctx d s, l)),
      env_IsConnectionReset = env_IsConnectionReset env, env_IsProbableEOF = env_IsProbableEOF env,
      env_IsHTTP2ConnectionLost = env_IsHTTP2ConnectionLost env, env_IsTimeout = env_IsTimeout env,
      env_ParseMediaType = env_ParseMediaType env, env_Decoder = env_Decoder env,
      env_StreamDecoder = env_StreamDecoder env, env_Decode_Status = env_Decode_Status env\<rparr>"

text \<open>Whether an outcome lets a request be made again.\<close>

definition asks_again :: "(go_error \<Rightarrow> bool) \<Rightarrow> go_error + http_response \<Rightarrow> bool" where
  "asks_again retryable out = (case out of Inl err \<Rightarrow> retryable err | Inr resp \<Rightarrow> checkWait resp \<noteq> None)"

definition attempts :: "(go_error \<Rightarrow> bool) \<Rightarrow> nat \<Rightarrow> sent \<Rightarrow> log \<Rightarrow> log \<Rightarrow> bool" where
  "attempts retryable n req l l' \<longleftrightarrow> (\<exists>outs. l' = l @ map (Pair req) outs \<and> length outs \<le> n
     \<and> (\<forall>out \<in> set (butlast outs). asks_again retryable out))"

lemma attempts_refl [simp]: "attempts retryable n req l l"
  by (auto simp: attempts_def)

lemma traced_fields [simp]:
  "env_Do (traced env) ctx req (s, l) = (case env_Do env ctx req s of (out, s) \<Rightarrow> (out, (s, l @ [((ctx, req), out)])))"
  "env_ctx_Err (traced env) ctx (s, l) = env_ctx_Err env ctx s"
  "env_Wait (traced env) ctx lim (s, l) = (case env_Wait env ctx lim s of (err, s) \<Rightarrow> (err, (s, l)))"
  "env_sleep (traced env) ctx d (s, l) = (env_sleep env ctx d s, l)"
  "env_IsConnectionReset (traced env) = env_IsConnectionReset env" "env_IsProbableEOF (traced env) = env_IsProbableEOF env"
  "env_IsHTTP2ConnectionLost (traced env) = env_IsHTTP2ConnectionLost env"
  by (simp_all add: traced_def)

lemma traced_throttle: "tryThrottle (traced env) ctx lim (s, l) = (err, s', l') \<Longrightarrow> l' = l"
  by (auto simp: tryThrottle_def split: option.splits prod.splits)

lemma traced_Before: "retry_Before (traced env) ctx lim r (s, l) = ((err, r'), s', l') \<Longrightarrow> l' = l"
  by (auto simp: retry_Before_def Let_def split: option.splits prod.splits dest!: traced_throttle)

lemma traced_round:
  assumes "send_round (traced env) ctx lim retryable accept req r (s, l) = (res, s', l')"
  shows "(l' = l \<and> (\<exists>e. res = Inl e)) \<or>
    (\<exists>out. l' = l @ [((ctx, req), out)] \<and> (\<forall>r'. res = Inr r' \<longrightarrow> asks_again retryable out))"
proof -
  obtain err r1 s1 l1 where b: "retry_Before (traced env) ctx lim r (s, l) = ((err, r1), s1, l1)"
    by (cases "retry_Before (traced env) ctx lim r (s, l)") auto
  have l1: "l1 = l" by (rule traced_Before [OF b])
  show ?thesis
  proof (cases err)
    case (Some e)
    with b l1 assms show ?thesis by (auto simp: send_round_def)
  next
    case None
    obtain out s2 where d: "env_Do env ctx req s1 = (out, s2)" by fastforce
    then have d': "env_Do (traced env) ctx req (s1, l1) = (out, s2, l @ [((ctx, req), out)])" by (simp add: l1)
    have "\<forall>r'. res = Inr r' \<longrightarrow> asks_again retryable out" "l' = l @ [((ctx, req), out)]"
      using assms b None d'
      by (auto simp: send_round_def IsNextRetry_def Let_def asks_again_def split: sum.splits if_splits option.splits)
    then show ?thesis by blast
  qed
qed

lemma traced_loop:
  assumes "send_loop (traced env) ctx lim retryable accept req r (s, l) = (res, s', l')"
  shows "attempts retryable (Suc (wr_maxRetries r - wr_attempts r)) (ctx, req) l l'"
  using assms
proof (induction "wr_maxRetries r - wr_attempts r" arbitrary: r s l rule: less_induct)
  case less
  obtain end_or_r s1 l1 where round: "send_round (traced env) ctx lim retryable accept req r (s, l) = (end_or_r, s1, l1)"
    by (cases "send_round (traced env) ctx lim retryable accept req r (s, l)") auto
  show ?case
  proof (cases end_or_r)
    case (Inl e)
    then have "l' = l1" using less.prems round by (simp add: send_loop.simps [of "traced env"])
    then show ?thesis using traced_round [OF round] by (auto simp: attempts_def intro: exI [of _ "[_]"] exI [of _ "[]"])
  next
    case (Inr r1)
    note shrink = send_round_attempts [OF round [unfolded Inr]]
    have loop: "send_loop (traced env) ctx lim retryable accept req r1 (s1, l1) = (res, s', l')"
      using less.prems round Inr by (simp add: send_loop.simps [of "traced env" ctx lim retryable accept req r])
    have "attempts retryable (Suc (wr_maxRetries r1 - wr_attempts r1)) (ctx, req) l1 l'"
      by (rule less.hyps [OF _ loop]) (use shrink in simp)
    then obtain outs where outs: "l' = l1 @ map (Pair (ctx, req)) outs" "length outs \<le> Suc (wr_maxRetries r1 - wr_attempts r1)"
        "\<forall>out \<in> set (butlast outs). asks_again retryable out" by (auto simp: attempts_def)
    obtain out where "l1 = l @ [((ctx, req), out)]" "asks_again retryable out" using traced_round [OF round] Inr by blast
    then show ?thesis
      using outs shrink by (auto simp: attempts_def intro!: exI [of _ "out # outs"] split: if_splits)
  qed
qed

lemma traced_Do:
  assumes "rest_Do (traced env) rq (s, l) = (res, s', l')"
  shows "attempts (do_retryable env (rq_verb rq)) (Suc (rq_maxRetries rq)) (request_timeout rq, newHTTPRequest rq) l l'"
    "rq_err rq \<noteq> None \<or> requestPreflightCheck rq \<noteq> None \<Longrightarrow>
       (s', l') = (s, l) \<and> (\<exists>err. res = failed_result err)"
proof -
  show "(s', l') = (s, l) \<and> (\<exists>err. res = failed_result err)"
    if "rq_err rq \<noteq> None \<or> requestPreflightCheck rq \<noteq> None"
    using assms that by (auto simp: rest_Do_def rest_request_def split: option.splits)
  have ret: "do_retryable (traced env) = do_retryable env" by (simp add: fun_eq_iff do_retryable_def)
  show "attempts (do_retryable env (rq_verb rq)) (Suc (rq_maxRetries rq)) (request_timeout rq, newHTTPRequest rq) l l'"
  proof (cases "rq_err rq = None \<and> requestPreflightCheck rq = None")
    case False
    then show ?thesis using assms by (auto simp: rest_Do_def rest_request_def split: option.splits)
  next
    case True
    obtain err s1 l1 where t: "tryThrottle (traced env) None (rq_rateLimiter rq) (s, l) = (err, s1, l1)"
      by (cases "tryThrottle (traced env) None (rq_rateLimiter rq) (s, l)") auto
    have l1: "l1 = l" by (rule traced_throttle [OF t])
    obtain res1 s2 l2 where loop: "send_loop (traced env) (request_timeout rq) (rq_rateLimiter rq)
        (do_retryable env (rq_verb rq)) (\<lambda>_. False) (newHTTPRequest rq)
        (defaultRequestRetryFn (rq_maxRetries rq)) (s1, l1) = (res1, s2, l2)"
      by (cases "send_loop (traced env) (request_timeout rq) (rq_rateLimiter rq)
        (do_retryable env (rq_verb rq)) (\<lambda>_. False) (newHTTPRequest rq)
        (defaultRequestRetryFn (rq_maxRetries rq)) (s1, l1)") auto
    show ?thesis
    proof (cases err)
      case (Some e)
      then show ?thesis using assms True t l1 by (auto simp: rest_Do_def rest_request_def)
    next
      case None
      then have "l' = l2"
        using assms True t loop by (auto simp: rest_Do_def rest_request_def ret split: sum.splits prod.splits)
      then show ?thesis using traced_loop [OF loop] l1 by (simp add: defaultRequestRetryFn_def)
    qed
  qed
qed

text \<open>A watch is sent without a check of its own: only a failed construction stops it.\<close>

lemma traced_Watch:
  assumes "rest_Watch (traced env) rq (s, l) = (res, s', l')"
  shows "attempts (watch_retryable env) (Suc (rq_maxRetries rq)) (None, newHTTPRequest rq) l l'"
    "rq_err rq \<noteq> None \<Longrightarrow> (s', l') = (s, l) \<and> (\<exists>err. res = Inl err)"
proof -
  show "(s', l') = (s, l) \<and> (\<exists>err. res = Inl err)" if "rq_err rq \<noteq> None"
    using assms that by (auto simp: rest_Watch_def split: option.splits)
  have ret: "watch_retryable (traced env) = watch_retryable env"
    by (simp add: fun_eq_iff watch_retryable_def traced_def)
  let ?loop = "send_loop (traced env) None (rq_rateLimiter rq) (watch_retryable env) (\<lambda>resp. hs_StatusCode resp = 200)
    (newHTTPRequest rq) (defaultRequestRetryFn (rq_maxRetries rq)) (s, l)"
  obtain res1 s1 l1 where loop: "?loop = (res1, s1, l1)" by (cases ?loop) auto
  show "attempts (watch_retryable env) (Suc (rq_maxRetries rq)) (None, newHTTPRequest rq) l l'"
  proof (cases "rq_err rq")
    case None
    then have "l' = l1"
      using assms loop by (auto simp: rest_Watch_def ret split: sum.splits prod.splits if_splits option.splits)
    then show ?thesis using traced_loop [OF loop] by (simp add: defaultRequestRetryFn_def)
  next
    case (Some err)
    then show ?thesis using assms by (auto simp: rest_Watch_def)
  qed
qed

end
