(* ===== verification/ClientProps.thy ===== *)
theory ClientProps imports RestProps begin

text \<open>
  What the generated clients ask of the server: which requests the calls of the interface send, to
  which paths, how often and with which timeout, and which rate limiters a clientset uses.
\<close>

section \<open>The requests of the calls\<close>

definition call_method :: "'o call \<Rightarrow> string" where
  "call_method c = (case c of
     Get_call name opts \<Rightarrow> ''GET'' | Create_call ob opts \<Rightarrow> ''POST'' | Update_call ob opts \<Rightarrow> ''PUT''
   | UpdateStatus_call ob opts \<Rightarrow> ''PUT'' | Delete_call name opts \<Rightarrow> ''DELETE'' | List_call opts \<Rightarrow> ''GET''
   | DeleteCollection_call opts listOpts \<Rightarrow> ''DELETE'' | Patch_call name pt data opts subs \<Rightarrow> ''PATCH'')"

definition call_name :: "('o \<Rightarrow> string) \<Rightarrow> 'o call \<Rightarrow> string option" where
  "call_name nm c = (case c of
     Get_call name opts \<Rightarrow> Some name | Create_call ob opts \<Rightarrow> None | Update_call ob opts \<Rightarrow> Some (nm ob)
   | UpdateStatus_call ob opts \<Rightarrow> Some (nm ob) | Delete_call name opts \<Rightarrow> Some name | List_call opts \<Rightarrow> None
   | DeleteCollection_call opts listOpts \<Rightarrow> None | Patch_call name pt data opts subs \<Rightarrow> Some name)"

definition call_subresources :: "'o call \<Rightarrow> string list" where
  "call_subresources c = (case c of
     UpdateStatus_call ob opts \<Rightarrow> [''status''] | Patch_call name pt data opts subs \<Rightarrow> subs | _ \<Rightarrow> [])"

text \<open>The calls the client makes without a namespace too: those on collections, and patches.\<close>

definition namespace_optional :: "'o call \<Rightarrow> bool" where
  "namespace_optional c = (case c of
     List_call opts \<Rightarrow> True | DeleteCollection_call opts listOpts \<Rightarrow> True
   | Patch_call name pt data opts subs \<Rightarrow> True | _ \<Rightarrow> False)"

text \<open>The calls with a target the client accepts.\<close>

definition addressable :: "('o \<Rightarrow> string) \<Rightarrow> string \<Rightarrow> 'o call \<Rightarrow> bool" where
  "addressable nm ns c \<longleftrightarrow> IsValidPathSegmentName ns = []
     \<and> (case call_name nm c of None \<Rightarrow> True | Some n \<Rightarrow> n \<noteq> [] \<and> IsValidPathSegmentName n = [])
     \<and> (\<forall>s\<in>set (call_subresources c). IsValidPathSegmentName s = [])
     \<and> (ns = [] \<longrightarrow> namespace_optional c)"

fun is_failure :: "'o answer \<Rightarrow> bool" where
  "is_failure (ObjectAnswer ob err) = (err \<noteq> None)"
| "is_failure (ListAnswer obs err) = (err \<noteq> None)"
| "is_failure (ErrorAnswer err) = (err \<noteq> None)"
| "is_failure (PanicAnswer msg) = False"

text \<open>A call through an interface sends a request that is \<open>ready\<close>, and fails if sending it does.\<close>

definition sends_ready ::
  "('l \<Rightarrow> 'o list) \<Rightarrow> ('o \<Rightarrow> string) \<Rightarrow> string \<Rightarrow> 's rest_env \<Rightarrow> RESTClient \<Rightarrow> string \<Rightarrow> ('o, 'l, 'wi, 's) ResourceInterface \<Rightarrow> bool" where
  "sends_ready objects nm res env rc ns i \<longleftrightarrow> (\<forall>c s. \<exists>rq.
     ready (call_method c) rc (Some ns) res (call_name nm c) (call_subresources c) rq
     \<and> snd (do_call objects i c s) = snd (rest_Do env rq s)
     \<and> (\<forall>err. fst (rest_Do env rq s) = failed_result err \<longrightarrow> is_failure (fst (do_call objects i c s))))"

lemma Do_Into_call:
  "snd (Do_Into env decode result rq s) = snd (rest_Do env rq s)"
  "fst (rest_Do env rq s) = failed_result err \<Longrightarrow> \<exists>r. fst (Do_Into env decode result rq s) = Return (Some r, Some err)"
  by (auto simp: Do_Into_def Result_Into_def Result_Error_def failed_result_def split: prod.splits)

lemma Do_Error_call:
  "snd (Do_Error env rq s) = snd (rest_Do env rq s)"
  "fst (rest_Do env rq s) = failed_result err \<Longrightarrow> fst (Do_Error env rq s) = Return (Some err)"
  by (auto simp: Do_Error_def Result_Error_def failed_result_def split: prod.splits)

lemma answer_of_call: "snd (answer_of f r) = snd r"
  "fst r = Return (ob, err) \<Longrightarrow> fst (answer_of f r) = f ob err"
  by (cases r; cases "fst r"; auto simp: answer_of_def)+

lemma interface_state:
  assumes "\<And>name opts. if_Get i name opts = Do_Into env d z (rq (Get_call name opts))"
    "\<And>ob opts. if_Create i ob opts = Do_Into env d z (rq (Create_call ob opts))"
    "\<And>ob opts. if_Update i ob opts = Do_Into env d z (rq (Update_call ob opts))"
    "\<And>ob opts. if_UpdateStatus i ob opts = Do_Into env d z (rq (UpdateStatus_call ob opts))"
    "\<And>name opts. if_Delete i name opts = Do_Error env (rq (Delete_call name opts))"
    "\<And>opts. if_List i opts = Do_Into env dl zl (rq (List_call opts))"
    "\<And>opts listOpts. if_DeleteCollection i opts listOpts = Do_Error env (rq (DeleteCollection_call opts listOpts))"
    "\<And>name pt data opts subs. if_Patch i name pt data opts subs = Do_Into env d z (rq (Patch_call name pt data opts subs))"
  shows "snd (do_call objects i c s) = snd (rest_Do env (rq c) s)"
  using Do_Error_call(1) [of env "rq c" s]
  by (cases c) (auto simp: do_call_def assms answer_of_call Do_Into_call split: prod.splits outcome.splits)

lemma sends_readyI:
  assumes "\<And>c s. ready (call_method c) rc (Some ns) res (call_name nm c) (call_subresources c) (rq c)"
    and i: "\<And>name opts. if_Get i name opts = Do_Into env d z (rq (Get_call name opts))"
    "\<And>ob opts. if_Create i ob opts = Do_Into env d z (rq (Create_call ob opts))"
    "\<And>ob opts. if_Update i ob opts = Do_Into env d z (rq (Update_call ob opts))"
    "\<And>ob opts. if_UpdateStatus i ob opts = Do_Into env d z (rq (UpdateStatus_call ob opts))"
    "\<And>name opts. if_Delete i name opts = Do_Error env (rq (Delete_call name opts))"
    "\<And>opts. if_List i opts = Do_Into env dl zl (rq (List_call opts))"
    "\<And>opts listOpts. if_DeleteCollection i opts listOpts = Do_Error env (rq (DeleteCollection_call opts listOpts))"
    "\<And>name pt data opts subs. if_Patch i name pt data opts subs = Do_Into env d z (rq (Patch_call name pt data opts subs))"
  shows "sends_ready objects nm res env rc ns i"
  unfolding sends_ready_def
proof (intro allI exI conjI impI, rule assms(1), rule interface_state [OF i])
  fix c s err
  assume err: "fst (rest_Do env (rq c) s) = failed_result err"
  show "is_failure (fst (do_call objects i c s))"
  proof (cases c)
    case (Delete_call name opts)
    then show ?thesis using Do_Error_call(2) [OF err]
      by (auto simp: do_call_def i split: prod.splits outcome.splits)
  next
    case (DeleteCollection_call opts listOpts)
    then show ?thesis using Do_Error_call(2) [OF err]
      by (auto simp: do_call_def i split: prod.splits outcome.splits)
  next
    case (List_call opts)
    then show ?thesis using Do_Into_call(2) [OF err, of dl zl] by (auto simp: do_call_def i answer_of_call(2))
  qed (use Do_Into_call(2) [OF err, of d z] in \<open>auto simp: do_call_def i answer_of_call(2)\<close>)
qed

text \<open>The requests of the generated clients.\<close>

definition tenant_request :: "(tenant, tenant_list) codecs \<Rightarrow> tenants \<Rightarrow> tenant call \<Rightarrow> Request" where
  "tenant_request cd c call =
     (let to = [Namespace (tt_ns c), Resource ''tenants''];
          params = (\<lambda>t. VersionedParams tt_Scheme (metav1 t))
      in case call of
        Get_call name opts \<Rightarrow> chain (to @ [Name name, params ''GetOptions'' (GetOptions_params opts)]) (rest_Get (tt_client c))
      | List_call opts \<Rightarrow>
          chain (to @ [params ''ListOptions'' (ListOptions_params opts), Timeout (timeout_of opts)]) (rest_Get (tt_client c))
      | Create_call ob opts \<Rightarrow>
          chain (to @ [params ''CreateOptions'' (CreateOptions_params opts), Body_object (cd_encode cd ob)]) (rest_Post (tt_client c))
      | Update_call ob opts \<Rightarrow>
          chain (to @ [Name (om_Name (tn_ObjectMeta ob)), params ''UpdateOptions'' (UpdateOptions_params opts),
             Body_object (cd_encode cd ob)]) (rest_Put (tt_client c))
      | UpdateStatus_call ob opts \<Rightarrow>
          chain (to @ [Name (om_Name (tn_ObjectMeta ob)), SubResource [''status''],
             params ''UpdateOptions'' (UpdateOptions_params opts), Body_object (cd_encode cd ob)]) (rest_Put (tt_client c))
      | Delete_call name opts \<Rightarrow>
          chain (to @ [Name name, Body_object (cd_encode_DeleteOptions cd opts)]) (rest_Delete (tt_client c))
      | DeleteCollection_call opts listOpts \<Rightarrow>
          chain (to @ [params ''ListOptions'' (ListOptions_params listOpts), Timeout (timeout_of listOpts),
             Body_object (cd_encode_DeleteOptions cd opts)]) (rest_Delete (tt_client c))
      | Patch_call name pt data opts subs \<Rightarrow>
          chain (to @ [Name name, SubResource subs, params ''PatchOptions'' (PatchOptions_params opts), Body_bytes data])
            (rest_Patch pt (tt_client c)))"

definition provider_config_request ::
  "(provider_config, provider_config_list) codecs \<Rightarrow> providerConfigs \<Rightarrow> provider_config call \<Rightarrow> Request" where
  "provider_config_request cd c call =
     (let to = [Namespace (tp_ns c), Resource ''providerconfigs''];
          params = (\<lambda>t. VersionedParams tp_Scheme (metav1 t))
      in case call of
        Get_call name opts \<Rightarrow> chain (to @ [Name name, params ''GetOptions'' (GetOptions_params opts)]) (rest_Get (tp_client c))
      | List_call opts \<Rightarrow>
          chain (to @ [params ''ListOptions'' (ListOptions_params opts), Timeout (timeout_of opts)]) (rest_Get (tp_client c))
      | Create_call ob opts \<Rightarrow>
          chain (to @ [params ''CreateOptions'' (CreateOptions_params opts), Body_object (cd_encode cd ob)]) (rest_Post (tp_client c))
      | Update_call ob opts \<Rightarrow>
          chain (to @ [Name (om_Name (pc_ObjectMeta ob)), params ''UpdateOptions'' (UpdateOptions_params opts),
             Body_object (cd_encode cd ob)]) (rest_Put (tp_client c))
      | UpdateStatus_call ob opts \<Rightarrow>
          chain (to @ [Name (om_Name (pc_ObjectMeta ob)), SubResource [''status''],
             params ''UpdateOptions'' (UpdateOptions_params opts), Body_object (cd_encode cd ob)]) (rest_Put (tp_client c))
      | Delete_call name opts \<Rightarrow>
          chain (to @ [Name name, Body_object (cd_encode_DeleteOptions cd opts)]) (rest_Delete (tp_client c))
      | DeleteCollection_call opts listOpts \<Rightarrow>
          chain (to @ [params ''ListOptions'' (ListOptions_params listOpts), Timeout (timeout_of listOpts),
             Body_object (cd_encode_DeleteOptions cd opts)]) (rest_Delete (tp_client c))
      | Patch_call name pt data opts subs \<Rightarrow>
          chain (to @ [Name name, SubResource subs, params ''PatchOptions'' (PatchOptions_params opts), Body_bytes data])
            (rest_Patch pt (tp_client c)))"

abbreviation tenant_name :: "tenant \<Rightarrow> string" where
  "tenant_name ob \<equiv> om_Name (tn_ObjectMeta ob)"

abbreviation provider_config_name :: "provider_config \<Rightarrow> string" where
  "provider_config_name ob \<equiv> om_Name (pc_ObjectMeta ob)"

lemmas call_defs = call_method_def call_name_def call_subresources_def namespace_optional_def
lemmas verb_defs = rest_Get_def rest_Post_def rest_Put_def rest_Delete_def rest_Patch_def

lemma tenants_by_request:
  "if_Get (tenants_interface env cd c) name gopts = Do_Into env (cd_decode cd) zero_tenant (tenant_request cd c (Get_call name gopts))"
  "if_Create (tenants_interface env cd c) ob copts = Do_Into env (cd_decode cd) zero_tenant (tenant_request cd c (Create_call ob copts))"
  "if_Update (tenants_interface env cd c) ob uopts = Do_Into env (cd_decode cd) zero_tenant (tenant_request cd c (Update_call ob uopts))"
  "if_UpdateStatus (tenants_interface env cd c) ob uopts
     = Do_Into env (cd_decode cd) zero_tenant (tenant_request cd c (UpdateStatus_call ob uopts))"
  "if_Delete (tenants_interface env cd c) name dopts = Do_Error env (tenant_request cd c (Delete_call name dopts))"
  "if_List (tenants_interface env cd c) lopts
     = Do_Into env (cd_decode_list cd) zero_tenant_list (tenant_request cd c (List_call lopts))"
  "if_DeleteCollection (tenants_interface env cd c) dopts lopts = Do_Error env (tenant_request cd c (DeleteCollection_call dopts lopts))"
  "if_Patch (tenants_interface env cd c) name pt data popts subs
     = Do_Into env (cd_decode cd) zero_tenant (tenant_request cd c (Patch_call name pt data popts subs))"
  by (simp_all add: tenants_interface_def fun_eq_iff tenant_request_def tenants_Get_def tenants_List_def tenants_Create_def
      tenants_Update_def tenants_UpdateStatus_def tenants_Delete_def tenants_DeleteCollection_def tenants_Patch_def)

lemma tenants_state:
  "snd (do_call objects (tenants_interface env cd c) call s) = snd (rest_Do env (tenant_request cd c call) s)"
  by (rule interface_state [OF tenants_by_request])

lemma tenants_send:
  "sends_ready objects tenant_name ''tenants'' env (tt_client c) (tt_ns c) (tenants_interface env cd c)"
proof (rule sends_readyI [OF _ tenants_by_request])
  show "ready (call_method call) (tt_client c) (Some (tt_ns c)) ''tenants'' (call_name tenant_name call)
      (call_subresources call) (tenant_request cd c call)" for call
    by (cases call) (simp_all add: call_defs tenant_request_def chain_def verb_defs, (intro ready)+)
qed

lemma provider_configs_send:
  "sends_ready objects provider_config_name ''providerconfigs'' env (tp_client c) (tp_ns c)
     (providerConfigs_interface env cd c)"
proof (rule sends_readyI [where rq = "provider_config_request cd c" and d = "cd_decode cd"
      and z = zero_provider_config and dl = "cd_decode_list cd" and zl = zero_provider_config_list])
  show "ready (call_method call) (tp_client c) (Some (tp_ns c)) ''providerconfigs'' (call_name provider_config_name call)
      (call_subresources call) (provider_config_request cd c call)" for call
    by (cases call) (simp_all add: call_defs provider_config_request_def chain_def verb_defs, (intro ready)+)
qed (simp_all add: providerConfigs_interface_def fun_eq_iff provider_config_request_def providerConfigs_Get_def
    providerConfigs_List_def providerConfigs_Create_def providerConfigs_Update_def providerConfigs_UpdateStatus_def
    providerConfigs_Delete_def providerConfigs_DeleteCollection_def providerConfigs_Patch_def)

section \<open>Confinement\<close>

lemma not_addressable_refused:
  assumes "ready (call_method c) rc (Some ns) res (call_name nm c) (call_subresources c) rq" "\<not> addressable nm ns c"
  shows "rq_err rq \<noteq> None \<or> requestPreflightCheck rq \<noteq> None"
  using assms
  by (cases c) (auto simp: ready_def addressable_def requestPreflightCheck_def call_defs)

lemma addressable_target:
  assumes "addressable nm ns c" "segment res"
  shows "segments (target_segments ns res (call_name nm c) (call_subresources c))"
proof -
  have "ns = [] \<or> segment ns" using assms(1) by (auto simp: addressable_def IsValidPathSegmentName_empty)
  moreover have "case call_name nm c of None \<Rightarrow> True | Some n \<Rightarrow> segment n"
    using assms(1) by (auto simp: addressable_def IsValidPathSegmentName_empty split: option.splits)
  moreover have "segments (filter (\<lambda>e. e \<noteq> []) (call_subresources c))"
    using assms(1) by (intro valid_segments) (simp add: addressable_def)
  ultimately show ?thesis
    using assms(2) namespaces_segment by (auto simp: target_segments_def split: option.splits)
qed

text \<open>What a call does, seen from the server: it sends one request, to the path of its target, or nothing.\<close>

definition confined_call ::
  "('l \<Rightarrow> 'o list) \<Rightarrow> ('o \<Rightarrow> string) \<Rightarrow> string \<Rightarrow> 's rest_env \<Rightarrow> RESTClient \<Rightarrow> string
   \<Rightarrow> ('o, 'l, 'wi, 's \<times> log) ResourceInterface \<Rightarrow> 'o call \<Rightarrow> 's \<Rightarrow> log \<Rightarrow> bool" where
  "confined_call objects nm res env rc ns i c s l \<longleftrightarrow>
     (case do_call objects i c (s, l) of
        (a, (s', l')) \<Rightarrow>
          (\<not> addressable nm ns c \<longrightarrow> is_failure a \<and> s' = s \<and> l' = l)
          \<and> (\<exists>t h. attempts (do_retryable env (call_method c)) 11 (t, h) l l'
               \<and> (l' \<noteq> l \<longrightarrow> hr_Method h = call_method c \<and> hr_Host h = bu_Host (rc_base rc)
                    \<and> hr_Path h = abs_path (prefix_segments rc
                        @ target_segments ns res (call_name nm c) (call_subresources c)))))"

lemma sends_ready_confined:
  assumes "sends_ready objects nm res (traced env) rc ns i" "segment res" "ToLower res = res"
  shows "confined_call objects nm res env rc ns i c s l"
proof -
  obtain a s' l' where run: "do_call objects i c (s, l) = (a, s', l')" by (cases "do_call objects i c (s, l)") auto
  obtain rq where rq: "ready (call_method c) rc (Some ns) res (call_name nm c) (call_subresources c) rq"
      "(s', l') = snd (rest_Do (traced env) rq (s, l))"
      "\<forall>err. fst (rest_Do (traced env) rq (s, l)) = failed_result err \<longrightarrow> is_failure a"
    using assms(1) run unfolding sends_ready_def by (metis fst_conv snd_conv)
  obtain r where sent: "rest_Do (traced env) rq (s, l) = (r, s', l')"
    using rq(2) by (cases "rest_Do (traced env) rq (s, l)") auto
  note tr = traced_Do [OF sent]
  have refused: "is_failure a \<and> s' = s \<and> l' = l" if "\<not> addressable nm ns c"
    using tr(2) not_addressable_refused [OF rq(1) that] rq(3) sent by auto
  let ?h = "newHTTPRequest rq"
  have "attempts (do_retryable env (call_method c)) 11 (request_timeout rq, ?h) l l'
      \<and> (l' \<noteq> l \<longrightarrow> hr_Method ?h = call_method c \<and> hr_Host ?h = bu_Host (rc_base rc)
          \<and> hr_Path ?h = abs_path (prefix_segments rc @ target_segments ns res (call_name nm c) (call_subresources c)))"
  proof (cases "rq_err rq = None")
    case True
    note ok = rq(1) [unfolded ready_def, rule_format, OF True]
    show ?thesis
      using tr(1) ok ready_path [OF rq(1) True assms(2,3)] by (simp add: newHTTPRequest_def)
  next
    case False
    then show ?thesis using tr(2) by simp
  qed
  with run refused show ?thesis unfolding confined_call_def by auto
qed

lemma segment_tenants: "segment ''tenants''" "ToLower ''tenants'' = ''tenants''"
  by (simp_all add: segment_def ToLower_def ascii_lower_def)

lemma segment_providerconfigs: "segment ''providerconfigs''" "ToLower ''providerconfigs'' = ''providerconfigs''"
  by (simp_all add: segment_def ToLower_def ascii_lower_def)

lemmas tenants_confined = sends_ready_confined [OF tenants_send segment_tenants]
lemmas provider_configs_confined = sends_ready_confined [OF provider_configs_send segment_providerconfigs]

text \<open>The same of a watch, whose target is the collection.\<close>

definition confined_watch ::
  "string \<Rightarrow> 's rest_env \<Rightarrow> RESTClient \<Rightarrow> string \<Rightarrow> ('o, 'l, watch_result, 's \<times> log) ResourceInterface
   \<Rightarrow> ListOptions \<Rightarrow> 's \<Rightarrow> log \<Rightarrow> bool" where
  "confined_watch res env rc ns i opts s l \<longleftrightarrow>
     (case if_Watch i opts (s, l) of
        (r, (s', l')) \<Rightarrow>
          (IsValidPathSegmentName ns \<noteq> [] \<longrightarrow> (\<exists>err. r = Return (None, Some err)) \<and> s' = s \<and> l' = l)
          \<and> (\<exists>t h. attempts (watch_retryable env) 11 (t, h) l l'
               \<and> (l' \<noteq> l \<longrightarrow> hr_Method h = ''GET'' \<and> hr_Host h = bu_Host (rc_base rc)
                    \<and> hr_Path h = abs_path (prefix_segments rc @ target_segments ns res None []))))"

lemma ready_watch_confined:
  assumes "ready ''GET'' rc (Some ns) res None [] rq" "segment res" "ToLower res = res"
    and "\<And>s. if_Watch i opts s = watch_call (rest_Watch (traced env) rq s)"
  shows "confined_watch res env rc ns i opts s l"
proof -
  obtain r s' l' where sent: "rest_Watch (traced env) rq (s, l) = (r, s', l')"
    by (cases "rest_Watch (traced env) rq (s, l)") auto
  note tr = traced_Watch [OF sent]
  have run: "if_Watch i opts (s, l) = (fst (watch_call (r, s', l')), s', l')"
    by (cases r) (simp_all add: assms(4) sent watch_call_def)
  have err: "\<exists>err. fst (watch_call (Inl e, s', l')) = Return (None, Some err)" for e by (simp add: watch_call_def)
  let ?h = "newHTTPRequest rq"
  show ?thesis
  proof (cases "rq_err rq = None")
    case True
    note ok = assms(1) [unfolded ready_def, rule_format, OF True]
    have "attempts (watch_retryable env) 11 (None, ?h) l l' \<and> hr_Method ?h = ''GET'' \<and> hr_Host ?h = bu_Host (rc_base rc)
        \<and> hr_Path ?h = abs_path (prefix_segments rc @ target_segments ns res None [])"
      using tr(1) ok ready_path [OF assms(1) True assms(2,3)] by (simp add: newHTTPRequest_def)
    then show ?thesis using ok unfolding confined_watch_def run by auto
  next
    case False
    then show ?thesis using tr(2) err unfolding confined_watch_def run by auto
  qed
qed

lemma tenants_watch_confined:
  "confined_watch ''tenants'' env (tt_client c) (tt_ns c) (tenants_interface (traced env) cd c) opts s l"
proof (rule ready_watch_confined [OF _ segment_tenants])
  show "if_Watch (tenants_interface (traced env) cd c) opts x = watch_call (rest_Watch (traced env)
      (chain [Namespace (tt_ns c), Resource ''tenants'',
         VersionedParams tt_Scheme (metav1 ''ListOptions'') (ListOptions_params (opts\<lparr>lo_Watch := True\<rparr>)),
         Timeout (timeout_of opts)] (rest_Get (tt_client c))) x)" for x
    by (simp add: tenants_interface_def tenants_Watch_def)
qed (simp add: chain_def verb_defs, (intro ready)+)

lemma provider_configs_watch_confined:
  "confined_watch ''providerconfigs'' env (tp_client c) (tp_ns c) (providerConfigs_interface (traced env) cd c) opts s l"
proof (rule ready_watch_confined [OF _ segment_providerconfigs])
  show "if_Watch (providerConfigs_interface (traced env) cd c) opts x = watch_call (rest_Watch (traced env)
      (chain [Namespace (tp_ns c), Resource ''providerconfigs'',
         VersionedParams tp_Scheme (metav1 ''ListOptions'') (ListOptions_params (opts\<lparr>lo_Watch := True\<rparr>)),
         Timeout (timeout_of opts)] (rest_Get (tp_client c))) x)" for x
    by (simp add: providerConfigs_interface_def providerConfigs_Watch_def)
qed (simp add: chain_def verb_defs, (intro ready)+)

text \<open>C5. Whatever name, namespace, object, patch and subresources a call of a generated client is given
  (\<open>Get\<close>, \<open>List\<close>, \<open>Watch\<close>, \<open>Create\<close>, \<open>Update\<close>, \<open>UpdateStatus\<close>, \<open>Delete\<close>, \<open>DeleteCollection\<close> or
  \<open>Patch\<close>), it sends only requests with the call's method to the path of its target under the client's
  prefix, at most eleven times the same one. A call with an empty name, or with a name, namespace or
  subresource that has a slash, a percent sign or only dots, sends nothing, changes nothing and reports
  an error; so does a \<open>Get\<close>, \<open>Create\<close>, \<open>Update\<close>, \<open>UpdateStatus\<close> or \<open>Delete\<close> without a namespace.\<close>

theorem typed_calls_confined:
  "confined_call (\<lambda>l. elems (tnl_Items l)) tenant_name ''tenants'' env (tt_client c) (tt_ns c)
      (tenants_interface (traced env) cd c) call s l
   \<and> confined_watch ''tenants'' env (tt_client c) (tt_ns c) (tenants_interface (traced env) cd c) opts s l
   \<and> confined_call (\<lambda>l. elems (pcl_Items l)) provider_config_name ''providerconfigs'' env (tp_client c') (tp_ns c')
      (providerConfigs_interface (traced env) cd' c') call' s l
   \<and> confined_watch ''providerconfigs'' env (tp_client c') (tp_ns c') (providerConfigs_interface (traced env) cd' c') opts s l"
  by (intro conjI tenants_confined tenants_watch_confined provider_configs_confined provider_configs_watch_confined)

text \<open>C36. Both types are declared cluster-scoped, and of the calls of the generated client that name or
  create an object only \<open>Patch\<close> reaches it where the cluster scope puts it. No request of a \<open>Get\<close>, \<open>Create\<close>,
  \<open>Update\<close>, \<open>UpdateStatus\<close> or \<open>Delete\<close> goes to a path under the resource itself, and without a
  namespace they are refused before anything is sent; every request of a \<open>Patch\<close> without a namespace
  goes to the named object under the resource itself.\<close>

theorem only_patch_reaches_cluster_scope:
  assumes "do_call objects (tenants_interface (traced env) cd c) call (s, l) = (a, s', l')"
  shows "(\<not> namespace_optional call \<longrightarrow>
        (tt_ns c = [] \<longrightarrow> is_failure a \<and> s' = s \<and> l' = l)
        \<and> (\<forall>((t, h), out) \<in> set (drop (length l) l'). \<forall>rest. segments rest \<longrightarrow>
             hr_Path h \<noteq> abs_path (prefix_segments (tt_client c) @ [''tenants''] @ rest)))
    \<and> (\<forall>name pt data opts subs. call = Patch_call name pt data opts subs \<longrightarrow> tt_ns c = [] \<longrightarrow>
        (\<forall>((t, h), out) \<in> set (drop (length l) l'). hr_Method h = ''PATCH''
           \<and> hr_Path h = abs_path (prefix_segments (tt_client c) @ [''tenants'', name] @ filter (\<lambda>e. e \<noteq> []) subs)))"
proof -
  have conf: "confined_call objects tenant_name ''tenants'' env (tt_client c) (tt_ns c) (tenants_interface (traced env) cd c) call s l"
    by (rule tenants_confined)
  have sent: "hr_Method h = call_method call" "addressable tenant_name (tt_ns c) call"
      "hr_Path h = abs_path (prefix_segments (tt_client c)
         @ target_segments (tt_ns c) ''tenants'' (call_name tenant_name call) (call_subresources call))"
    if h: "((t, h), out) \<in> set (drop (length l) l')" for t h out
  proof -
    from h have "l' \<noteq> l" by auto
    then obtain th outs where log: "l' = l @ map (Pair th) outs" "hr_Method (snd th) = call_method call"
        "hr_Path (snd th) = abs_path (prefix_segments (tt_client c)
           @ target_segments (tt_ns c) ''tenants'' (call_name tenant_name call) (call_subresources call))"
      using conf assms by (fastforce simp: confined_call_def attempts_def)
    moreover have "h = snd th" using h log(1) by auto
    ultimately show "hr_Method h = call_method call" "hr_Path h = abs_path (prefix_segments (tt_client c)
         @ target_segments (tt_ns c) ''tenants'' (call_name tenant_name call) (call_subresources call))" by simp_all
    show "addressable tenant_name (tt_ns c) call" using conf assms \<open>l' \<noteq> l\<close> by (auto simp: confined_call_def)
  qed
  have refused: "is_failure a \<and> s' = s \<and> l' = l" if "\<not> namespace_optional call" "tt_ns c = []"
    using conf assms that by (auto simp: confined_call_def addressable_def)
  have avoids: "hr_Path h \<noteq> abs_path (prefix_segments (tt_client c) @ [''tenants''] @ rest)"
    if "\<not> namespace_optional call" and h: "((t, h), out) \<in> set (drop (length l) l')" and rest: "segments rest" for t h out rest
  proof -
    have "tt_ns c \<noteq> []" using refused [OF that(1)] h by auto
    then have "target_segments (tt_ns c) ''tenants'' (call_name tenant_name call) (call_subresources call) \<noteq> ''tenants'' # rest"
      by (simp add: target_segments_def)
    then show ?thesis
      using sent(3) [OF h] addressable_target [OF sent(2) [OF h] segment_tenants(1)] rest segment_tenants(1)
        prefix_segments(1) [of "tt_client c"]
      by (simp add: abs_path_inject)
  qed
  have "hr_Method h = ''PATCH''
      \<and> hr_Path h = abs_path (prefix_segments (tt_client c) @ [''tenants'', name] @ filter (\<lambda>e. e \<noteq> []) subs)"
    if "call = Patch_call name pt data opts subs" "tt_ns c = []" "((t, h), out) \<in> set (drop (length l) l')"
    for name pt data opts subs t h out
    using sent(1,3) [OF that(3)] that(1,2) by (simp add: call_defs target_segments_def)
  with refused avoids show ?thesis by fast
qed

lemma write_asked_again:
  assumes "m \<noteq> ''GET''" "asks_again (do_retryable env m) out"
  shows "\<exists>resp. out = Inr resp \<and> (hs_StatusCode resp = 429 \<or> hs_StatusCode resp \<ge> 500)
    \<and> Header_Get (hs_Header resp) ''Retry-After'' \<noteq> []"
  using assms
  by (cases out) (auto simp: asks_again_def do_retryable_def checkWait_def retryAfterSeconds_def Let_def split: if_splits)

text \<open>C35. A write is sent once unless the server itself asks for it again: \<open>Create\<close>, \<open>Update\<close>, \<open>UpdateStatus\<close>,
  \<open>Patch\<close>, \<open>Delete\<close> and \<open>DeleteCollection\<close> repeat their request, the same one, at most ten times, and only after a response with
  status 429 or 5xx that says when to retry; never after an error of the connection, when the server may have
  carried it out.\<close>

theorem writes_not_repeated:
  assumes "do_call objects (tenants_interface (traced env) cd c) call (s, l) = (a, s', l')" "call_method call \<noteq> ''GET''"
  shows "\<exists>req outs. l' = l @ map (Pair req) outs \<and> length outs \<le> 11
    \<and> (\<forall>out \<in> set (butlast outs). \<exists>resp. out = Inr resp
         \<and> (hs_StatusCode resp = 429 \<or> hs_StatusCode resp \<ge> 500) \<and> Header_Get (hs_Header resp) ''Retry-After'' \<noteq> [])"
proof -
  have conf: "confined_call objects tenant_name ''tenants'' env (tt_client c) (tt_ns c) (tenants_interface (traced env) cd c) call s l"
    by (rule tenants_confined)
  then obtain req outs where "l' = l @ map (Pair req) outs" "length outs \<le> 11"
      "\<forall>out \<in> set (butlast outs). asks_again (do_retryable env (call_method call)) out"
    using assms(1) by (auto simp: confined_call_def attempts_def)
  with write_asked_again [OF assms(2)] show ?thesis by blast
qed

end
