(* ===== verification/ClientsetProps.thy ===== *)
theory ClientsetProps imports ClientProps begin

text \<open>
  The timeout of a list, the rate limiters and the path prefix of a clientset, what a call returns
  when the server answers, and a small server the properties of \<open>ClientProps\<close> are shown on.
\<close>

section \<open>A small server\<close>

text \<open>It refuses the first request, to be sent again, and accepts the others; its state counts them.\<close>

definition demo_env :: "nat rest_env" where
  "demo_env =
     \<lparr>env_Do = (\<lambda>ctx req n. (Inr (if n = 0
          then \<lparr>hs_StatusCode = 503, hs_Header = [''Retry-After'' \<mapsto> [''1'']], hs_Body = Inr []\<rparr>
          else \<lparr>hs_StatusCode = 200, hs_Header = [''Content-Type'' \<mapsto> [''application/json'']], hs_Body = Inr ''{}''\<rparr>), n + 1)),
      env_ctx_Err = (\<lambda>ctx n. None), env_Wait = (\<lambda>ctx l n. (None, n)), env_sleep = (\<lambda>ctx d n. n),
      env_IsConnectionReset = (\<lambda>e. False), env_IsProbableEOF = (\<lambda>e. False), env_IsHTTP2ConnectionLost = (\<lambda>e. False),
      env_IsTimeout = (\<lambda>e. False), env_ParseMediaType = Inr, env_Decoder = (\<lambda>m. Inr ()),
      env_StreamDecoder = (\<lambda>m. None), env_Decode_Status = (\<lambda>m b. None)\<rparr>"

definition demo_codecs :: "(tenant, tenant_list) codecs" where
  "demo_codecs = \<lparr>cd_encode = (\<lambda>ob ct. Inr ''{}''), cd_encode_DeleteOptions = (\<lambda>opts ct. Inr ''{}''),
     cd_decode = (\<lambda>m b ob. (ob, DecodedInto)), cd_decode_list = (\<lambda>m b ob. (ob, DecodedInto))\<rparr>"

definition demo_client :: "string \<Rightarrow> tenants" where
  "demo_client ns = \<lparr>tt_client = NewRESTClient \<lparr>bu_Host = ''localhost'', bu_Path = []\<rparr> ''/apis/tenancy.gke.io/v1_kubernetes_apis''
       \<lparr>cc_AcceptContentTypes = [], cc_ContentType = [], cc_GroupVersion = tenant_SchemeGroupVersion\<rparr> None None,
     tt_ns = ns\<rparr>"

definition demo_delete :: "string \<Rightarrow> tenant answer \<times> (nat \<times> log)" where
  "demo_delete ns = do_call (\<lambda>l. elems (tnl_Items l)) (tenants_interface (traced demo_env) demo_codecs (demo_client ns))
     (Delete_call ''a'' \<lparr>do_GracePeriodSeconds = None, do_Preconditions = None, do_OrphanDependents = None,
        do_PropagationPolicy = None, do_DryRun = None, do_IgnoreStoreReadError = None\<rparr>) (0, [])"

lemma demo_delete_runs: "length (snd (snd (demo_delete ''n''))) = 2"
  by code_simp

text \<open>The properties of the calls, on this server.\<close>

lemma demo_delete_sends: "fst (snd (demo_delete ''n'')) = 2" "\<not> is_failure (fst (demo_delete ''n''))"
  by code_simp+

definition demo_patch :: "string \<Rightarrow> tenant answer \<times> (nat \<times> log)" where
  "demo_patch ns = do_call (\<lambda>l. elems (tnl_Items l)) (tenants_interface (traced demo_env) demo_codecs (demo_client ns))
     (Patch_call ''a'' MergePatchType ''{}'' \<lparr>po_DryRun = None, po_Force = None, po_FieldManager = [],
        po_FieldValidation = []\<rparr> []) (0, [])"

lemma demo_patch_runs: "length (snd (snd (demo_patch []))) = 2"
  by code_simp

theorem only_patch_reaches_cluster_scope_witness:
  "is_failure (fst (demo_delete [])) \<and> snd (demo_delete []) = (0, [])
   \<and> (\<exists>t h out. ((t, h), out) \<in> set (snd (snd (demo_delete ''n'')))
        \<and> hr_Path h \<noteq> abs_path (prefix_segments (tt_client (demo_client ''n'')) @ [''tenants'', ''a'']))
   \<and> (\<exists>t h out. ((t, h), out) \<in> set (snd (snd (demo_patch [])))
        \<and> hr_Path h = abs_path (prefix_segments (tt_client (demo_client [])) @ [''tenants'', ''a'']))"
proof -
  obtain a s' l' where none: "demo_delete [] = (a, s', l')" by (cases "demo_delete []") auto
  obtain b u' m' where some: "demo_delete ''n'' = (b, u', m')" by (cases "demo_delete ''n''") auto
  obtain d v' n' where patch: "demo_patch [] = (d, v', n')" by (cases "demo_patch []") auto
  have segs: "segments [''a'']" by (simp add: segment_def)
  have named: "\<not> namespace_optional (Delete_call n opts :: tenant call)" for n opts by (simp add: namespace_optional_def)
  have "is_failure a \<and> s' = 0 \<and> l' = []"
    using only_patch_reaches_cluster_scope [OF none [unfolded demo_delete_def]] named by (simp add: demo_client_def)
  moreover have "length m' = 2" using demo_delete_runs unfolding some by simp
  then obtain t h out where "((t, h), out) \<in> set m'" by (cases m') (auto simp: split_paired_all)
  moreover from this have "hr_Path h \<noteq> abs_path (prefix_segments (tt_client (demo_client ''n'')) @ [''tenants''] @ [''a''])"
    using only_patch_reaches_cluster_scope [OF some [unfolded demo_delete_def]] segs named by fastforce
  moreover have "length n' = 2" using demo_patch_runs unfolding patch by simp
  then obtain t2 h2 out2 where "((t2, h2), out2) \<in> set n'" by (cases n') (auto simp: split_paired_all)
  moreover from this have "hr_Path h2 = abs_path (prefix_segments (tt_client (demo_client [])) @ [''tenants'', ''a''])"
    using only_patch_reaches_cluster_scope [OF patch [unfolded demo_patch_def]] by (fastforce simp: demo_client_def)
  ultimately show ?thesis by (auto simp: none some patch)
qed

theorem writes_not_repeated_witness:
  "\<exists>req out1 out2 resp. snd (snd (demo_delete ''n'')) = [(req, out1), (req, out2)] \<and> out1 = Inr resp \<and> hs_StatusCode resp \<ge> 429"
proof -
  obtain b u' m' where some: "demo_delete ''n'' = (b, u', m')" by (cases "demo_delete ''n''") auto
  obtain req outs where w: "m' = [] @ map (Pair req) outs" "\<forall>out \<in> set (butlast outs). \<exists>resp. out = Inr resp
         \<and> (hs_StatusCode resp = 429 \<or> hs_StatusCode resp \<ge> 500) \<and> Header_Get (hs_Header resp) ''Retry-After'' \<noteq> []"
    using writes_not_repeated [OF some [unfolded demo_delete_def]] by (auto simp: call_method_def)
  have "length outs = 2" using demo_delete_runs some w(1) by simp
  then obtain o1 o2 where "outs = [o1, o2]" by (auto simp: numeral_2_eq_2 length_Suc_conv)
  with w some show ?thesis by auto
qed

section \<open>Options are always encodable\<close>

lemma tenant_options_kinds:
  "t \<in> {''ListOptions'', ''GetOptions'', ''CreateOptions'', ''UpdateOptions'', ''PatchOptions''} \<Longrightarrow>
     typeToGVK tt_Scheme (metav1 t) = [WithKind Unversioned t, WithKind tenant_SchemeGroupVersion t]"
proof -
  have "typeToGVK tt_Scheme (metav1 ''ListOptions'') = [WithKind Unversioned ''ListOptions'', WithKind tenant_SchemeGroupVersion ''ListOptions'']"
    "typeToGVK tt_Scheme (metav1 ''GetOptions'') = [WithKind Unversioned ''GetOptions'', WithKind tenant_SchemeGroupVersion ''GetOptions'']"
    "typeToGVK tt_Scheme (metav1 ''CreateOptions'') = [WithKind Unversioned ''CreateOptions'', WithKind tenant_SchemeGroupVersion ''CreateOptions'']"
    "typeToGVK tt_Scheme (metav1 ''UpdateOptions'') = [WithKind Unversioned ''UpdateOptions'', WithKind tenant_SchemeGroupVersion ''UpdateOptions'']"
    "typeToGVK tt_Scheme (metav1 ''PatchOptions'') = [WithKind Unversioned ''PatchOptions'', WithKind tenant_SchemeGroupVersion ''PatchOptions'']"
    by code_simp+
  then show "t \<in> {''ListOptions'', ''GetOptions'', ''CreateOptions'', ''UpdateOptions'', ''PatchOptions''} \<Longrightarrow>
     typeToGVK tt_Scheme (metav1 t) = [WithKind Unversioned t, WithKind tenant_SchemeGroupVersion t]" by blast
qed

lemma tenant_options_encoded:
  assumes "t \<in> {''ListOptions'', ''GetOptions'', ''CreateOptions'', ''UpdateOptions'', ''PatchOptions''}"
  shows "EncodeParameters tt_Scheme (metav1 t) tenant_SchemeGroupVersion params = Inr (fold Values_Add params Map.empty)"
proof -
  have kinds: "typeToGVK tt_Scheme (metav1 t) = [WithKind Unversioned t, WithKind tenant_SchemeGroupVersion t]"
    by (rule tenant_options_kinds [OF assms])
  have gv: "gvk_GroupVersion (WithKind g n) = g" for g n by (simp add: gvk_GroupVersion_def WithKind_def)
  have "Unversioned \<noteq> tenant_SchemeGroupVersion"
    by (simp add: Unversioned_def tenant_SchemeGroupVersion_def tenant_GroupName_def)
  then show ?thesis by (simp add: EncodeParameters_def kinds gv KindForGroupVersionKinds_def Let_def)
qed

lemma encoded_values: "EncodeParameters sch t to params = Inr vs \<Longrightarrow> vs = fold Values_Add params Map.empty"
  by (auto simp: EncodeParameters_def Let_def split: list.splits if_splits option.splits)

lemma fold_Values_Add:
  "fold Values_Add ps m k =
     (case map snd (filter (\<lambda>p. fst p = k) ps) of [] \<Rightarrow> m k
      | vs \<Rightarrow> Some ((case m k of None \<Rightarrow> [] | Some l \<Rightarrow> l) @ vs))"
proof (induction ps arbitrary: m)
  case Nil
  then show ?case by simp
next
  case (Cons p ps)
  obtain a b where p: "p = (a, b)" by (cases p)
  have "Values_Add p m k = (if k = a then Some ((case m k of None \<Rightarrow> [] | Some l \<Rightarrow> l) @ [b]) else m k)"
    by (simp add: p Values_Add_def)
  then show ?case by (cases "a = k") (simp_all add: Cons p split: list.splits option.splits)
qed

section \<open>What is sent\<close>

lemma Verb_fields:
  "rq_err (Verb v c) = None" "rq_namespaceSet (Verb v c) = False" "rq_resource (Verb v c) = []"
  "rq_resourceName (Verb v c) = []" "rq_subresource (Verb v c) = []" "rq_verb (Verb v c) = v"
  "cc_GroupVersion (rq_contentConfig (Verb v c)) = cc_GroupVersion (rc_content c)"
  "rq_rateLimiter (Verb v c) = rc_rateLimiter c"
  by (simp_all add: Verb_def NewRequest_def setAcceptHeader_def SetHeader_def GetClientContentConfig_def Let_def)

definition encodable :: "('o, 'l) codecs \<Rightarrow> 'o call \<Rightarrow> bool" where
  "encodable cd call \<longleftrightarrow> (\<forall>ct. case call of
     Create_call ob opts \<Rightarrow> \<exists>data. cd_encode cd ob ct = Inr data
   | Update_call ob opts \<Rightarrow> \<exists>data. cd_encode cd ob ct = Inr data
   | UpdateStatus_call ob opts \<Rightarrow> \<exists>data. cd_encode cd ob ct = Inr data
   | Delete_call name opts \<Rightarrow> \<exists>data. cd_encode_DeleteOptions cd opts ct = Inr data
   | DeleteCollection_call opts listOpts \<Rightarrow> \<exists>data. cd_encode_DeleteOptions cd opts ct = Inr data
   | _ \<Rightarrow> True)"

text \<open>A call with a target and an encodable object makes a request without an error.\<close>

lemma tenant_request_fine:
  assumes "addressable tenant_name (tt_ns c) call" "encodable cd call"
    "cc_GroupVersion (rc_content (tt_client c)) = tenant_SchemeGroupVersion"
  shows "rq_err (tenant_request cd c call) = None" "requestPreflightCheck (tenant_request cd c call) = None"
    "rq_rateLimiter (tenant_request cd c call) = rc_rateLimiter (tt_client c)"
proof -
  obtain enc where enc: "\<And>ct. enc ct = (case call of
       Create_call ob opts \<Rightarrow> projr (cd_encode cd ob ct) | Update_call ob opts \<Rightarrow> projr (cd_encode cd ob ct)
     | UpdateStatus_call ob opts \<Rightarrow> projr (cd_encode cd ob ct)
     | Delete_call name opts \<Rightarrow> projr (cd_encode_DeleteOptions cd opts ct)
     | DeleteCollection_call opts listOpts \<Rightarrow> projr (cd_encode_DeleteOptions cd opts ct) | _ \<Rightarrow> [])" by fast
  have data: "\<And>ob opts ct. call = Create_call ob opts \<Longrightarrow> cd_encode cd ob ct = Inr (enc ct)"
      "\<And>ob opts ct. call = Update_call ob opts \<Longrightarrow> cd_encode cd ob ct = Inr (enc ct)"
      "\<And>ob opts ct. call = UpdateStatus_call ob opts \<Longrightarrow> cd_encode cd ob ct = Inr (enc ct)"
      "\<And>name opts ct. call = Delete_call name opts \<Longrightarrow> cd_encode_DeleteOptions cd opts ct = Inr (enc ct)"
      "\<And>opts listOpts ct. call = DeleteCollection_call opts listOpts \<Longrightarrow> cd_encode_DeleteOptions cd opts ct = Inr (enc ct)"
    using assms(2) by (auto simp: encodable_def enc) (metis sum.sel(2))+
  note setters = tenant_request_def chain_def verb_defs Let_def Namespace_def Resource_def Name_def SubResource_def
    VersionedParams_def Timeout_def Body_object_def Body_bytes_def SetHeader_def unless_failed_def Verb_fields tenant_options_encoded
    addressable_def call_defs requestPreflightCheck_def valid_resources
  have status: "IsValidPathSegmentName ''status'' = []" by code_simp
  have "find (\<lambda>s. IsValidPathSegmentName s \<noteq> []) (call_subresources call) = None"
    using assms(1) by (simp add: addressable_def find_None_iff)
  then have "rq_err (tenant_request cd c call) = None \<and> requestPreflightCheck (tenant_request cd c call) = None
      \<and> rq_rateLimiter (tenant_request cd c call) = rc_rateLimiter (tt_client c)"
    using assms(1,3) data by (cases call) (simp_all add: setters status)
  then show "rq_err (tenant_request cd c call) = None" "requestPreflightCheck (tenant_request cd c call) = None"
    "rq_rateLimiter (tenant_request cd c call) = rc_rateLimiter (tt_client c)" by simp_all
qed

lemma fine_request_sent:
  assumes "rest_Do (traced env) rq (s, l) = (r, s', l')" "rq_err rq = None" "requestPreflightCheck rq = None"
    "tryThrottle env None (rq_rateLimiter rq) s = (None, s1)" "env_ctx_Err env (request_timeout rq) s1 = None"
  shows "l' \<noteq> l"
proof -
  let ?lim = "rq_rateLimiter rq" and ?ctx = "request_timeout rq" and ?again = "do_retryable env (rq_verb rq)"
  let ?req = "newHTTPRequest rq" and ?r = "defaultRequestRetryFn (rq_maxRetries rq)"
  have ret: "do_retryable (traced env) = do_retryable env" by (simp add: fun_eq_iff do_retryable_def)
  have throttle: "tryThrottle (traced env) None ?lim (s, l) = (None, s1, l)"
    using assms(4) by (auto simp: tryThrottle_def split: option.splits prod.splits)
  obtain res s2 l2 where loop: "send_loop (traced env) ?ctx ?lim ?again (\<lambda>_. False) ?req ?r (s1, l) = (res, s2, l2)"
    by (cases "send_loop (traced env) ?ctx ?lim ?again (\<lambda>_. False) ?req ?r (s1, l)") auto
  have l2: "l' = l2"
    using assms(1-3) throttle loop by (auto simp: rest_Do_def rest_request_def ret split: sum.splits prod.splits)
  obtain out s3 where out: "env_Do env ?ctx ?req s1 = (out, s3)" by fastforce
  obtain again r2 where again: "IsNextRetry ?again out (retry_After ?r) = (again, r2)"
    by (cases "IsNextRetry ?again out (retry_After ?r)")
  have "wr_retryAfter ?r = None" by (simp add: defaultRequestRetryFn_def)
  then have "send_round (traced env) ?ctx ?lim ?again (\<lambda>_. False) ?req ?r (s1, l)
      = (if again then Inr r2 else Inl (Inr (out, r2)), s3, l @ [((?ctx, ?req), out)])"
    using out assms(5) again by (cases again; cases out) (simp_all add: send_round_def retry_Before_def Let_def)
  then obtain e s4 where round: "send_round (traced env) ?ctx ?lim ?again (\<lambda>_. False) ?req ?r (s1, l) = (e, s4, l @ [((?ctx, ?req), out)])"
    by blast
  show ?thesis
  proof (cases e)
    case (Inl end_of_loop)
    with loop round have "l2 = l @ [((?ctx, ?req), out)]"
      by (simp add: send_loop.simps [of "traced env" _ _ _ _ _ ?r])
    with l2 show ?thesis by simp
  next
    case (Inr r1)
    with loop round have "send_loop (traced env) ?ctx ?lim ?again (\<lambda>_. False) ?req r1 (s4, l @ [((?ctx, ?req), out)]) = (res, s2, l2)"
      by (simp add: send_loop.simps [of "traced env" _ _ _ _ _ ?r])
    from traced_loop [OF this] l2 show ?thesis by (auto simp: attempts_def)
  qed
qed

text \<open>C37. A call with a target reaches the server: with a valid namespace, name and subresources (the namespace
  may be empty for a \<open>List\<close>, a \<open>DeleteCollection\<close> and a \<open>Patch\<close>), an object and deletion options that can be
  encoded and a client made for the group's version, a request is sent, unless the context ends or
  the rate limiter fails first; encoding the parameters never fails.\<close>

theorem addressable_call_sent:
  assumes "do_call objects (tenants_interface (traced env) cd c) call (s, l) = (a, s', l')"
    "addressable tenant_name (tt_ns c) call" "encodable cd call"
    "cc_GroupVersion (rc_content (tt_client c)) = tenant_SchemeGroupVersion"
    "tryThrottle env None (rc_rateLimiter (tt_client c)) s = (None, s1)" "\<forall>ctx. env_ctx_Err env ctx s1 = None"
  shows "l' \<noteq> l"
proof -
  note fine = tenant_request_fine [OF assms(2,3,4)]
  obtain r where sent: "rest_Do (traced env) (tenant_request cd c call) (s, l) = (r, s', l')"
    using tenants_state [of objects "traced env" cd c call "(s, l)"] assms(1)
    by (cases "rest_Do (traced env) (tenant_request cd c call) (s, l)") auto
  show ?thesis
  proof (rule fine_request_sent [OF sent fine(1,2)])
    show "tryThrottle env None (rq_rateLimiter (tenant_request cd c call)) s = (None, s1)" using assms(5) by (simp add: fine(3))
    show "env_ctx_Err env (request_timeout (tenant_request cd c call)) s1 = None" using assms(6) by blast
  qed
qed

theorem addressable_call_sent_witness: "snd (snd (demo_delete ''n'')) \<noteq> []"
proof -
  obtain b u' m' where run: "demo_delete ''n'' = (b, u', m')" by (cases "demo_delete ''n''") auto
  have "m' \<noteq> []"
  proof (rule addressable_call_sent [OF run [unfolded demo_delete_def], where ?s1.0 = 0])
    show "addressable tenant_name (tt_ns (demo_client ''n''))
       (Delete_call ''a'' \<lparr>do_GracePeriodSeconds = None, do_Preconditions = None, do_OrphanDependents = None,
        do_PropagationPolicy = None, do_DryRun = None, do_IgnoreStoreReadError = None\<rparr>)" by code_simp
  qed (simp_all add: encodable_def demo_codecs_def demo_client_def NewRESTClient_def tryThrottle_def demo_env_def)
  then show ?thesis unfolding run by simp
qed

section \<open>The timeout of a list\<close>

definition carries :: "duration \<Rightarrow> url_values \<Rightarrow> Request \<Rightarrow> bool" where
  "carries d params rq \<longleftrightarrow> rq_err rq = None \<longrightarrow> rq_timeout rq = d \<and> rq_params rq = params"

named_theorems carries

lemma carries_Verb [carries]:
  "carries (case rc_Client c of None \<Rightarrow> 0 | Some timeout \<Rightarrow> timeout) Map.empty (Verb v c)"
  by (simp add: carries_def Verb_def NewRequest_def setAcceptHeader_def SetHeader_def Let_def)

lemma carries_setters [carries]:
  "carries d ps rq \<Longrightarrow> carries d ps (Namespace ns rq)" "carries d ps rq \<Longrightarrow> carries d ps (Resource res rq)"
  "carries d ps rq \<Longrightarrow> carries d ps (Name n rq)" "carries d0 ps rq \<Longrightarrow> carries d ps (Timeout d rq)"
  by (auto simp: carries_def Namespace_def Resource_def Name_def Timeout_def unless_failed_def fail_def split: list.splits)

lemma carries_VersionedParams [carries]:
  "carries d Map.empty rq \<Longrightarrow> carries d (fold Values_Add ps Map.empty) (VersionedParams sch t ps rq)"
  by (auto simp: carries_def VersionedParams_def unless_failed_def fail_def add_values_def fun_eq_iff
      split: sum.splits option.splits dest!: encoded_values)

lemma list_request:
  "carries (timeout_of opts) (fold Values_Add (ListOptions_params opts) Map.empty) (tenant_request cd c (List_call opts))"
  by (simp add: tenant_request_def chain_def verb_defs Let_def) (rule carries)+

lemma timeout_product:
  fixes t :: duration
  assumes "0 < sint t"
  shows "sint t \<le> 9223372036 \<Longrightarrow> sint (t * Second) = sint t * 10 ^ 9"
    "9223372036 < sint t \<Longrightarrow> sint t \<le> 18446744073 \<Longrightarrow> sint (t * Second) < 0"
proof -
  have s: "sint Second = 10 ^ 9" by (simp add: Second_def)
  have prod: "sint (t * Second) = signed_take_bit 63 (sint t * 10 ^ 9)"
    by (simp add: sint_word_ariths s)
  show "sint (t * Second) = sint t * 10 ^ 9" if "sint t \<le> 9223372036"
    unfolding prod by (rule signed_take_bit_int_eq_self) (use that assms in simp_all)
  show "sint (t * Second) < 0" if "9223372036 < sint t" "sint t \<le> 18446744073"
  proof -
    have "signed_take_bit 63 (sint t * 10 ^ 9) = signed_take_bit 63 (sint t * 10 ^ 9 - 2 ^ 64)"
      by (rule signed_take_bit_eq_iff_take_bit_eq [THEN iffD2]) (simp add: take_bit_eq_mod)
    also have "\<dots> = sint t * 10 ^ 9 - 2 ^ 64"
      by (rule signed_take_bit_int_eq_self) (use that in simp_all)
    finally show ?thesis unfolding prod using that by simp
  qed
qed

text \<open>C38. The timeout of a list is the one asked for, in every request it sends and as a parameter of the
  query, up to 9223372036 seconds; beyond that the product with a second wraps around, and just beyond it the
  result is negative, so that the requests are sent with no timeout at all.\<close>

theorem list_timeout_wraps:
  assumes "tenants_List (traced env) cd c opts (s, l) = (r, s', l')" "lo_TimeoutSeconds opts = Some t" "0 < sint t"
    "((d, h), out) \<in> set (drop (length l) l')"
  shows "(sint t \<le> 9223372036 \<longrightarrow> (\<exists>x. d = Some x \<and> sint x = sint t * 10 ^ 9))
    \<and> (9223372036 < sint t \<longrightarrow> sint t \<le> 18446744073 \<longrightarrow> d = None)
    \<and> hr_Query h ''timeoutSeconds'' = Some [FormatInt (sint t)]"
proof -
  let ?rq = "tenant_request cd c (List_call opts)"
  obtain res where sent: "rest_Do (traced env) ?rq (s, l) = (res, s', l')"
    using assms(1) by (cases "rest_Do (traced env) ?rq (s, l)")
      (auto simp: tenants_List_def tenant_request_def Do_Into_def Let_def split: prod.splits)
  note tr = traced_Do [OF sent]
  have log: "d = request_timeout ?rq" "h = newHTTPRequest ?rq" using tr(1) assms(4) by (auto simp: attempts_def)
  have "rq_err ?rq = None" using tr(2) assms(4) by (cases "rq_err ?rq") auto
  then have rq: "rq_timeout ?rq = t * Second" "rq_params ?rq = fold Values_Add (ListOptions_params opts) Map.empty"
    using list_request [of opts cd c] assms(2) by (auto simp: carries_def timeout_of_def)
  have "filter (\<lambda>p. fst p = ''timeoutSeconds'') (ListOptions_params opts) = [(''timeoutSeconds'', FormatInt (sint t))]"
    using assms(2) by (simp add: ListOptions_params_def string_param_def bool_param_def pointer_param_def split: option.split)
  then have "rq_params ?rq ''timeoutSeconds'' = Some [FormatInt (sint t)]" by (simp add: rq(2) fold_Values_Add)
  then have "hr_Query h ''timeoutSeconds'' = Some [FormatInt (sint t)]"
    by (simp add: log(2) newHTTPRequest_def URL_query_def)
  moreover have "sint (t * Second) > 0" if "sint t \<le> 9223372036"
    using timeout_product(1) [OF assms(3) that] assms(3) by simp
  ultimately show ?thesis
    using timeout_product [OF assms(3)] by (auto simp: log(1) request_timeout_def rq(1))
qed

text \<open>One second too many.\<close>

definition demo_list :: "(tenant_list option \<times> error) outcome \<times> (nat \<times> log)" where
  "demo_list = tenants_List (traced demo_env) demo_codecs (demo_client ''n'')
     \<lparr>lo_LabelSelector = [], lo_FieldSelector = [], lo_Watch = False, lo_AllowWatchBookmarks = False,
      lo_ResourceVersion = [], lo_ResourceVersionMatch = [], lo_TimeoutSeconds = Some 9223372037, lo_Limit = 0,
      lo_Continue = [], lo_SendInitialEvents = None, lo_ShardSelector = []\<rparr> (0, [])"

lemma demo_list_sent: "snd (snd demo_list) \<noteq> []"
proof -
  let ?opts = "\<lparr>lo_LabelSelector = [], lo_FieldSelector = [], lo_Watch = False, lo_AllowWatchBookmarks = False,
      lo_ResourceVersion = [], lo_ResourceVersionMatch = [], lo_TimeoutSeconds = Some 9223372037, lo_Limit = 0,
      lo_Continue = [], lo_SendInitialEvents = None, lo_ShardSelector = []\<rparr>"
  have "addressable tenant_name ''n'' (List_call ?opts)" by code_simp
  then have fine: "rq_err (tenant_request demo_codecs (demo_client ''n'') (List_call ?opts)) = None"
      "requestPreflightCheck (tenant_request demo_codecs (demo_client ''n'') (List_call ?opts)) = None"
    using tenant_request_fine [of "demo_client ''n''" "List_call ?opts" demo_codecs]
    by (simp_all add: encodable_def demo_client_def NewRESTClient_def)
  obtain r s' l' where sent: "rest_Do (traced demo_env) (tenant_request demo_codecs (demo_client ''n'') (List_call ?opts)) (0, []) = (r, s', l')"
    by (cases "rest_Do (traced demo_env) (tenant_request demo_codecs (demo_client ''n'') (List_call ?opts)) (0, [])") auto
  have "l' \<noteq> []"
    by (rule fine_request_sent [OF sent fine, where ?s1.0 = 0]) (simp_all add: tryThrottle_def demo_env_def split: option.split)
  with sent show ?thesis
    by (auto simp: demo_list_def tenants_List_def tenant_request_def Do_Into_def Let_def split: prod.splits)
qed

theorem list_timeout_wraps_witness: "\<exists>h out. ((None, h), out) \<in> set (snd (snd demo_list))"
proof -
  obtain r s' l' where run: "demo_list = (r, s', l')" by (cases demo_list) auto
  have "l' \<noteq> []" using demo_list_sent unfolding run by simp
  then obtain d h out where "((d, h), out) \<in> set l'" by (cases l') (auto simp: split_paired_all)
  with list_timeout_wraps [OF run [unfolded demo_list_def], of 9223372037 d h out] have "d = None" by simp
  with \<open>((d, h), out) \<in> set l'\<close> show ?thesis unfolding run by auto
qed

section \<open>Clientsets\<close>

text \<open>Which rate limiters a clientset uses: the configured one for both of its clients; one limiter of
  the configured rate and burst, shared by both, when a rate is set; two separate limiters of five
  queries a second when none is; and none when the rate is negative. A positive rate without a burst is
  refused.\<close>

theorem clientset_limiters:
  assumes "cf_server c = Inr url" "tt_cs_NewForConfigAndClient userAgent c h ls = (r, ls')"
  shows "(case cf_RateLimiter c of
      Some l \<Rightarrow> ls' = ls \<and> (\<exists>cs. r = Inr cs \<and> rc_rateLimiter (tenancy_restClient (tt_cs_TenancyV1_kubernetes_apis cs)) = Some l
          \<and> map_option rc_rateLimiter (tt_cs_Discovery (Some cs)) = Some (Some l))
    | None \<Rightarrow>
        if cf_QPS c > 0 \<and> cf_Burst c \<le> 0 then ls' = ls \<and> (\<exists>e. r = Inl e)
        else (\<exists>cs typed discovery. r = Inr cs
             \<and> rc_rateLimiter (tenancy_restClient (tt_cs_TenancyV1_kubernetes_apis cs)) = typed
             \<and> map_option rc_rateLimiter (tt_cs_Discovery (Some cs)) = Some discovery
             \<and> (if cf_QPS c > 0 then ls' = ls @ [(cf_QPS c, cf_Burst c)] \<and> typed = Some (length ls) \<and> discovery = typed
                else if cf_QPS c = 0
                then ls' = ls @ [(5, if cf_Burst c = 0 then 10 else cf_Burst c), (5, if cf_Burst c = 0 then 300 else cf_Burst c)]
                  \<and> typed = Some (length ls) \<and> discovery = Some (length ls + 1)
                else ls' = ls \<and> typed = None \<and> discovery = None)))"
proof -
  note defs = tt_cs_NewForConfigAndClient_def tenancy_NewForConfigAndClient_def tenancy_setConfigDefaults_def
    RESTClientForConfigAndClient_def UnversionedRESTClientForConfigAndClient_def DefaultServerUrlFor_def config_limiter_def
    NewTokenBucketRateLimiter_def NewDiscoveryClientForConfigAndClient_def setDiscoveryDefaults_def NewRESTClient_def
    tt_cs_TenancyV1_kubernetes_apis_def tt_cs_Discovery_def Let_def
  show ?thesis
  proof (cases "cf_RateLimiter c")
    case (Some l)
    with assms show ?thesis by (auto simp: defs)
  next
    case None
    consider "cf_QPS c > 0" | "cf_QPS c = 0" | "cf_QPS c < 0" by linarith
    then show ?thesis using assms None by cases (auto simp: defs)
  qed
qed

definition demo_config :: rest_Config where
  "demo_config = \<lparr>cf_server = Inr \<lparr>bu_Host = ''host'', bu_Path = ''/proxy''\<rparr>, cf_APIPath = ''/api'',
     cf_AcceptContentTypes = [], cf_ContentType = [], cf_GroupVersion = None, cf_NegotiatedSerializer = None,
     cf_UserAgent = [], cf_transport = Inr True, cf_QPS = 20, cf_Burst = 0, cf_RateLimiter = None, cf_Timeout = 0\<rparr>"

theorem clientset_limiters_witness:
  "(\<exists>e. fst (tt_cs_NewForConfigAndClient ''ua'' demo_config None []) = Inl e)
   \<and> snd (tt_cs_NewForConfigAndClient ''ua'' (demo_config\<lparr>cf_QPS := 0\<rparr>) None []) = [(5, 10), (5, 300)]"
proof -
  have 1: "cf_server demo_config = Inr \<lparr>bu_Host = ''host'', bu_Path = ''/proxy''\<rparr>"
    "cf_server (demo_config\<lparr>cf_QPS := 0\<rparr>) = Inr \<lparr>bu_Host = ''host'', bu_Path = ''/proxy''\<rparr>" by (simp_all add: demo_config_def)
  show ?thesis
    using clientset_limiters [OF 1(1), of "''ua''" None "[]", OF surjective_pairing]
      clientset_limiters [OF 1(2), of "''ua''" None "[]", OF surjective_pairing]
    by (auto simp: demo_config_def)
qed

text \<open>The segments of a server's path.\<close>

definition base_segments :: "base_url \<Rightarrow> string list" where
  "base_segments url = clean_segments True [] (Split1 (bu_Path url) CHR ''/'')"

lemma Split1_append_sep: "Split1 (x @ c # y) c = Split1 x c @ Split1 y c"
  by (induction x c rule: Split1.induct) (auto split: list.splits)

lemma prefix_segments_NewRESTClient:
  assumes "segments ts" "ts \<noteq> []"
  shows "prefix_segments (NewRESTClient url (abs_path ts) content l h) = base_segments url @ ts"
proof -
  let ?c = "CHR ''/''" and ?base = "bu_Path (rc_base (NewRESTClient url (abs_path ts) content l h))"
  have slash: "?base = bu_Path url \<or> ?base = bu_Path url @ ''/''" by (simp add: NewRESTClient_def)
  have "?base \<noteq> []" by (auto simp: NewRESTClient_def HasSuffix_def)
  then have "path_Join [''/'', ?base, abs_path ts] = path_Clean (?c # (?c # ?base) @ ?c # abs_path ts)"
    by (simp add: path_Join_def abs_path_def)
  moreover have "clean_segments True [] (Split1 (?c # (?c # ?base) @ ?c # abs_path ts) ?c) = base_segments url @ ts"
  proof -
    have "clean_segments True [] (Split1 ?base ?c) = base_segments url"
      using slash Split1_append_sep [of "bu_Path url" ?c "[]"] clean_segments_append [of True "[]" "Split1 (bu_Path url) ?c" "[[]]"]
      by (auto simp: base_segments_def)
    then show ?thesis
      using assms Split1_append_sep [of "?base" ?c "abs_path ts"] clean_segments_append [of True "[]" "Split1 ?base ?c" "[] # ts"]
        clean_segments_id [OF assms(1)]
      by (simp add: Split1_abs_path)
  qed
  ultimately have path: "path_Join [''/'', ?base, abs_path ts] = abs_path (base_segments url @ ts)"
    by (simp add: path_Clean_def abs_path_def Let_def)
  have good: "segments (base_segments url @ ts)"
    using clean_segments_rooted [OF Split1_no_slash, of "[]"] assms(1) by (simp add: base_segments_def)
  have "filter (\<lambda>s. s \<noteq> []) (base_segments url @ ts) = base_segments url @ ts"
    using good by (auto simp: filter_id_conv list_all_iff segment_def)
  then show ?thesis
    using path Split1_abs_path [OF good] by (simp add: prefix_segments_def NewRESTClient_def)
qed

text \<open>Whatever API path and group version a configuration names, the clients made from it speak to the
  path of their own group and version, below the path of the server, and encode their options for
  that version.\<close>

theorem clientset_prefix:
  assumes "cf_server c = Inr url" "tt_cs_NewForConfigAndClient userAgent c h ls = (Inr cs, ls')"
  shows "prefix_segments (tenancy_restClient (tt_cs_TenancyV1_kubernetes_apis cs))
      = base_segments url @ [''apis'', ''tenancy.gke.io'', ''v1_kubernetes_apis'']
    \<and> cc_GroupVersion (rc_content (tenancy_restClient (tt_cs_TenancyV1_kubernetes_apis cs))) = tenant_SchemeGroupVersion"
proof -
  let ?ts = "[''apis'', ''tenancy.gke.io'', ''v1_kubernetes_apis'']"
  have path: "DefaultVersionedAPIPath ''/apis'' tenant_SchemeGroupVersion = abs_path ?ts" by code_simp
  have segs: "segments ?ts" by (simp add: segment_def)
  obtain content l where "tenancy_restClient (tt_cs_TenancyV1_kubernetes_apis cs) = NewRESTClient url (abs_path ?ts) content l h"
      "cc_GroupVersion content = tenant_SchemeGroupVersion"
    using assms
    by (auto simp: tt_cs_NewForConfigAndClient_def tenancy_NewForConfigAndClient_def tenancy_setConfigDefaults_def
        RESTClientForConfigAndClient_def UnversionedRESTClientForConfigAndClient_def DefaultServerUrlFor_def path
        tt_cs_TenancyV1_kubernetes_apis_def Let_def split: prod.splits sum.splits if_splits)
  then show ?thesis using prefix_segments_NewRESTClient [OF segs, of url content l h] by (simp add: NewRESTClient_def)
qed

theorem clientset_prefix_witness:
  "\<exists>cs ls. tt_cs_NewForConfigAndClient ''ua'' (demo_config\<lparr>cf_Burst := 40\<rparr>) None [] = (Inr cs, ls)
     \<and> prefix_segments (tenancy_restClient (tt_cs_TenancyV1_kubernetes_apis cs))
       = [''proxy'', ''apis'', ''tenancy.gke.io'', ''v1_kubernetes_apis'']"
proof -
  let ?url = "\<lparr>bu_Host = ''host'', bu_Path = ''/proxy''\<rparr>"
  let ?config = "demo_config\<lparr>cf_Burst := 40\<rparr>"
  obtain cs ls where run: "tt_cs_NewForConfigAndClient ''ua'' ?config None [] = (Inr cs, ls)"
    by (simp add: demo_config_def tt_cs_NewForConfigAndClient_def tenancy_NewForConfigAndClient_def tenancy_setConfigDefaults_def
        RESTClientForConfigAndClient_def UnversionedRESTClientForConfigAndClient_def DefaultServerUrlFor_def config_limiter_def
        NewTokenBucketRateLimiter_def NewDiscoveryClientForConfigAndClient_def setDiscoveryDefaults_def Let_def)
  have "cf_server ?config = Inr ?url" by (simp add: demo_config_def)
  moreover have "base_segments ?url = [''proxy'']" by code_simp
  ultimately show ?thesis using clientset_prefix [OF _ run] run by auto
qed

end
