(* ===== verification/Spec2Isabelle.thy ===== *)
theory Spec2Isabelle imports System TenantEvents Listers FilteredFactory DeepCopy MetricFactories MultiGather MtContext TypedInformers ClientsetProps begin

text \<open>
  A model of the multi-tenancy framework for GKE Enterprise: the controller of ProviderConfigs
  (\<open>pkg/framework\<close>), the tenant views of shared informers (\<open>pkg/filteredinformer\<close>), the dual-emitting
  metrics (\<open>pkg/mtmetrics\<close>), the API types (\<open>pkg/apis\<close>) and the generated clients, listers and informers
  (\<open>pkg/tenant/client\<close>, \<open>pkg/providerconfig/client\<close>), with the parts of the vendored libraries they rest on.

  \<^bold>\<open>How the program works.\<close> A tenant is described by a ProviderConfig, a cluster-scoped object. The
  informer of ProviderConfigs keeps a cache; its handlers enqueue keys into a task queue; workers call
  \<open>sync\<close>, which asks the manager to start or to stop the controllers of the ProviderConfig the cache
  holds. The manager records the controllers of a key by their stop channel, guards the object with a
  finalizer through the API server, and calls the starter, which is the user's code. The user's
  controllers see the cluster through a filtered factory: its informers wrap the shared ones and show
  the objects whose label names the tenant. They count through dual-emitting vectors: one local to the
  tenant, one shared by all. A gatherer merges what the tenants' registries collect. The generated
  code is how the types are registered, copied, sent to the server, listed, watched and faked in tests.

  \<^bold>\<open>Shape of the model.\<close> A Go struct is a record with the code's fields, a method a definition that takes
  the state and returns it; an \<open>error\<close> is \<open>go_error option\<close>, a call that may panic an \<open>outcome\<close>, a
  nilable slice \<open>'a slice\<close> (theory \<open>MTPrelude\<close>). Shared pointers are references into an explicit heap
  where aliasing matters (controller sets, deep copies, informers, watchers). A method that holds its
  lock from start to end is one step; goroutines are step relations or labelled runs whose steps
  interleave in any order. What is not under \<open>src/\<close> or belongs to the environment is a parameter: the
  API server and the starter of the manager, the network, clocks, codecs and patches, the parsing of
  selectors, what the token bucket answers. The laws the proofs need of them are hypotheses or the
  \<open>assumes\<close> of a locale, which is interpreted on the model of the code.

  \<^bold>\<open>The framework.\<close>
  \<^item> \<open>ControllerMap\<close> (\<open>controller_map.go\<close>): the map from keys to controller sets, a keyed store.
  \<^item> \<open>Unstructured\<close>, \<open>GoTime\<close>: the JSON objects the manager reads and writes, and what a deletion
    timestamp is.
  \<^item> \<open>Manager\<close> (\<open>manager.go\<close>): starting and stopping, with every early return and the rollback.
    \<open>ConfigStore\<close> states what is relied on from the API server; \<open>ManagerSafety\<close> is any sequence of
    calls, and \<open>ManagerProps\<close> the theorems: the channels handed over are exactly the running and the
    closed ones, no channel is closed twice, what a successful start and stop leave, what a failed
    start rolls back.
  \<^item> \<open>WorkQueue\<close>, \<open>WaitHeap\<close>, \<open>RateLimiters\<close>, \<open>DelayingQueue\<close>: client-go's queues under the task queue;
    \<open>TaskQueue\<close> (\<open>taskqueue.go\<close>) adds the workers. One worker per key, nothing enqueued is lost,
    delayed items become due, a shutdown completes.
  \<^item> \<open>Controller\<close> (\<open>controller.go\<close>) and \<open>System\<close>: the whole controller with its informer's notifications;
    a settled key is converged in every reachable state, and the controller of an object that
    vanished from the cache runs on.
  \<^item> \<open>MtContext\<close> (\<open>mtcontext.go\<close>): the tenant in a context.

  \<^bold>\<open>Tenant views.\<close>
  \<^item> \<open>ObjectKeys\<close>, \<open>IndexStore\<close>: keys and the indexed store under every informer, a stored index is never
    stale. The locale \<open>indexer\<close> is what the views and the listers rely on.
  \<^item> \<open>FilteredCache\<close> (\<open>helpers.go\<close>, \<open>filteredcache.go\<close>), \<open>FilteredInformer\<close> (\<open>filteredinformer.go\<close>),
    \<open>FilteredFactory\<close> (\<open>filteredfactory.go\<close>): isolation and completeness of the view, and clean-up.
    \<open>TenantEvents\<close> is any run of a shared informer with filtered ones over it: a handler that has
    been told everything knows exactly the tenant's view.
  \<^item> \<open>Listers\<close>: the vendored and the generated listers.

  \<^bold>\<open>Metrics.\<close> \<open>Prometheus\<close> is the client library's part; \<open>Metrics\<close> is \<open>metrics.go\<close> and \<open>mt_metrics.go\<close>;
  \<open>DualEmission\<close>, \<open>TrackerSafety\<close>, \<open>FactoryReuse\<close> show what is counted where, over any run and for a
  name used twice; \<open>MetricFactories\<close> has the interfaces with their two implementations and the contract
  both keep (locale \<open>lasting_constructor\<close>); \<open>MultiGather\<close> is \<open>gatherer.go\<close>.

  \<^bold>\<open>API types and clients.\<close>
  \<^item> \<open>ApiTypes\<close>, \<open>GoHeap\<close>, \<open>DeepCopy\<close> (\<open>zz_generated.deepcopy.go\<close>): the types, a memory, and the generated
    copies: equal and disjoint. \<open>SchemeRegister\<close>: the schemes the packages build.
  \<^item> \<open>ClientApi\<close>: the options, the interface of a resource as a record of operations, and the contract
    of a client that is a map (locale \<open>map_client\<close>).
  \<^item> \<open>ObjectTracker\<close>, \<open>FakeTesting\<close>, \<open>FakeTracker\<close>, \<open>FakeClients\<close>: the fake clientsets with their tracker,
    reactors and watchers; \<open>FakeStore\<close> shows that they are maps, \<open>FakeWatch\<close> what a watcher is sent.
  \<^item> \<open>GoStrings\<close>, \<open>RestRequest\<close>, \<open>RestSend\<close>, \<open>TypedClients\<close>: the generated clients down to the HTTP request;
    \<open>RestProps\<close>, \<open>ClientProps\<close>, \<open>ClientsetProps\<close>: which requests are sent, to which paths, how often,
    with which timeout and under which rate limiter.
  \<^item> \<open>SharedFactory\<close>, \<open>FactoryProps\<close>, \<open>FactoryLife\<close>: the generated informer factories over time;
    \<open>TypedInformers\<close>: the informers and listers made through them.

  \<^bold>\<open>Bounds.\<close> No definition takes fuel. Loops over slices and maps are structural recursion or folds; the
  retries of a request are at most ten because the counter is an argument that decreases, as in the
  code. Durations and counts that can overflow are computed as Go does: the back-off saturates at the
  limiter's maximum, a timeout is a 64-bit product, resource versions and sequence numbers are natural
  numbers where no run could exhaust 64 bits. The buffer of a fake watcher holds 100 events.

  \<^bold>\<open>Not modelled.\<close>
  \<^item> The reflector and the delta FIFO of a shared informer: its store changes by arbitrary deltas, so what
    is proved of handlers and listers holds for any reflector.
  \<^item> Two calls of the manager for one key overlapping: the task queue excludes them,
    and a sync is one step of \<open>System\<close>. Calls for different keys that overlap are not interleaved
    below the level of a call.
  \<^item> The HTTP transport, TLS, authentication, body readers, CBOR, warnings, logs, traces and the metrics of
    the libraries; the fake discovery client; streams behind a real watch.
  \<^item> Conversion, defaulting and field labels of schemes; field managers, and what a patch does.
  \<^item> The float arithmetic of the token bucket and of counters: the first is an input, the second a log of
    updates. Collisions of Prometheus' 64-bit hashes, histograms' buckets, the collection of a registry.
  \<^item> Files without behaviour: \<open>doc.go\<close>, empty expansion interfaces, \<open>zz_generated.openapi.go\<close> (an empty
    map), \<open>hack\<close>, build files, and the tests.
\<close>

section \<open>The typed API and the framework\<close>

text \<open>
  Two components name the same kind. The clientset's scheme registers the Go type of a
  ProviderConfig under the version of its package; the manager compares an object's kind with a
  constant of its own.
\<close>

lemma typed_kind_differs: "WithKind pc_SchemeGroupVersion ''ProviderConfig'' \<noteq> providerConfigGVK"
  by (simp add: WithKind_def pc_SchemeGroupVersion_def providerConfigGVK_def)

text \<open>C40. The kind under which the generated client's scheme registers a ProviderConfig is not the kind
  the manager accepts: an object of that kind is refused by both operations, which change nothing
  and call nobody.\<close>

theorem typed_kind_refused:
  assumes "GroupVersionKind (objs s pc) = WithKind pc_SchemeGroupVersion ''ProviderConfig''"
  shows "(\<exists>sch. pc_clientset_scheme = Return sch
       \<and> gvkToType sch (GroupVersionKind (objs s pc)) = Some (pc_type ''ProviderConfig''))
    \<and> (\<exists>e. StartControllersForProviderConfig api st s pc = (Return (Some e), s))
    \<and> (\<exists>e. StopControllersForProviderConfig api s pc = (Return (Some e), s))"
  using pc_clientset_scheme_built typed_kind_differs
  by (simp add: assms StartControllersForProviderConfig_def StopControllersForProviderConfig_def)

text \<open>What a client of the scheme's version sends.\<close>

definition typed_pc :: obj where
  "typed_pc = fmap_of_list
     [(''apiVersion'', JStr ''cloud.gke.io/v1_kubernetes_apis''), (''kind'', JStr ''ProviderConfig''),
      (''metadata'', JObj (fmap_of_list [(''name'', JStr ''p'')]))]"

lemma typed_pc_kind: "GroupVersionKind typed_pc = WithKind pc_SchemeGroupVersion ''ProviderConfig''"
  using ParseGroupVersion_group_version [of "''cloud.gke.io''" "''v1_kubernetes_apis''"]
  by (simp add: typed_pc_def GroupVersionKind_def getter_defs NestedFieldNoCopy_def fmlookup_of_list
      pc_SchemeGroupVersion_def pc_GroupName_def)

theorem typed_kind_refused_witness:
  "\<exists>e. StartControllersForProviderConfig server_api (starter_ok 7)
     (newManager ''fin'' (\<lambda>_. typed_pc) (server_of [] [])) 0
     = (Return (Some e), newManager ''fin'' (\<lambda>_. typed_pc) (server_of [] []))"
  using typed_kind_refused [of "newManager ''fin'' (\<lambda>_. typed_pc) (server_of [] [])" 0] typed_pc_kind
  by (simp add: newManager_def)

end
